(* ===== verification/Prelude.thy ===== *)
theory Prelude
  imports Main "HOL-Library.Multiset"
begin

text \<open>
  What every component of the development shares.

  \<^item> Stateful code that may throw is a \<^emph>\<open>program\<close>: a function from the state to a result and
    the state after it. A JavaScript exception does not undo the mutations made before it, so a
    thrown error (\<open>Inl\<close>) carries the state reached, as a normal result (\<open>Inr\<close>) does.
  \<^item> A JavaScript \<open>Map\<close> is an association list in insertion order: setting a present key keeps
    its place, setting a new key appends, and iteration follows the list. A \<open>Set\<close> is a list
    without repetitions in insertion order.
  \<^item> The generic lemmas on these, on filtered lists and on sums over references.
\<close>

section \<open>Programs: state, result and error\<close>

type_synonym ('s, 'e, 'a) prog = "'s \<Rightarrow> ('e + 'a) \<times> 's"

definition ret :: "'a \<Rightarrow> ('s, 'e, 'a) prog" where
  "ret x = (\<lambda>s. (Inr x, s))"

definition throw :: "'e \<Rightarrow> ('s, 'e, 'a) prog" where
  "throw e = (\<lambda>s. (Inl e, s))"

definition andThen :: "('s, 'e, 'a) prog \<Rightarrow> ('a \<Rightarrow> ('s, 'e, 'b) prog) \<Rightarrow> ('s, 'e, 'b) prog" where
  "andThen m f = (\<lambda>s. case m s of (Inl e, s') \<Rightarrow> (Inl e, s') | (Inr x, s') \<Rightarrow> f x s')"

definition reads :: "('s \<Rightarrow> 'a) \<Rightarrow> ('s, 'e, 'a) prog" where
  "reads f = (\<lambda>s. (Inr (f s), s))"

definition modify :: "('s \<Rightarrow> 's) \<Rightarrow> ('s, 'e, unit) prog" where
  "modify f = (\<lambda>s. (Inr (), f s))"

definition throwIf :: "bool \<Rightarrow> 'e \<Rightarrow> ('s, 'e, unit) prog" where
  "throwIf b e = (if b then throw e else ret ())"

text \<open>\<open>assert.defined\<close>: the value, or an error when it is missing.\<close>

definition defined :: "'e \<Rightarrow> 'a option \<Rightarrow> ('s, 'e, 'a) prog" where
  "defined e v = (case v of None \<Rightarrow> throw e | Some x \<Rightarrow> ret x)"

text \<open>A \<open>for ... of\<close> loop whose body may throw; the first error ends it.\<close>

fun forEach :: "('a \<Rightarrow> ('s, 'e, unit) prog) \<Rightarrow> 'a list \<Rightarrow> ('s, 'e, unit) prog" where
  "forEach f [] = ret ()"
| "forEach f (x # xs) = andThen (f x) (\<lambda>_. forEach f xs)"

text \<open>The conditional statement without an \<open>else\<close> branch.\<close>

definition whenever :: "bool \<Rightarrow> ('s, 'e, unit) prog \<Rightarrow> ('s, 'e, unit) prog" where
  "whenever b m = (if b then m else ret ())"

named_theorems prog_simps \<open>unfolding rules of programs applied to a state\<close>

lemma ret_apply [prog_simps, simp]: "ret x s = (Inr x, s)"
  by (simp add: ret_def)

lemma throw_apply [prog_simps, simp]: "throw e s = (Inl e, s)"
  by (simp add: throw_def)

lemma reads_apply [prog_simps, simp]: "reads f s = (Inr (f s), s)"
  by (simp add: reads_def)

lemma modify_apply [prog_simps, simp]: "modify f s = (Inr (), f s)"
  by (simp add: modify_def)

lemma throwIf_apply [prog_simps, simp]: "throwIf b e s = (if b then (Inl e, s) else (Inr (), s))"
  by (simp add: throwIf_def)

lemma whenever_apply [prog_simps, simp]: "whenever b m s = (if b then m s else (Inr (), s))"
  by (simp add: whenever_def)

lemma defined_apply [prog_simps, simp]:
  "defined e None s = (Inl e, s)"
  "defined e (Some x) s = (Inr x, s)"
  by (simp_all add: defined_def)

lemma andThen_Inl [prog_simps]: "m s = (Inl e, s') \<Longrightarrow> andThen m f s = (Inl e, s')"
  by (simp add: andThen_def)

lemma andThen_Inr [prog_simps]: "m s = (Inr x, s') \<Longrightarrow> andThen m f s = f x s'"
  by (simp add: andThen_def)

lemma andThen_ret [prog_simps, simp]: "andThen (ret x) f = f x"
  by (simp add: andThen_def ret_def fun_eq_iff)

lemma andThen_throw [prog_simps, simp]: "andThen (throw e) f = throw e"
  by (simp add: andThen_def throw_def fun_eq_iff)

lemma andThen_Pair [prog_simps, simp]:
  "andThen (Pair (Inr x)) f = f x"
  "andThen (Pair (Inl e)) f = Pair (Inl e)"
  by (simp_all add: andThen_def fun_eq_iff)

lemma andThen_reads [prog_simps, simp]: "andThen (reads g) f s = f (g s) s"
  by (simp add: andThen_def reads_def)

lemma andThen_modify [prog_simps, simp]: "andThen (modify g) f s = f () (g s)"
  by (simp add: andThen_def modify_def)

lemma andThen_throwIf [prog_simps, simp]:
  "andThen (throwIf b e) f s = (if b then (Inl e, s) else f () s)"
  by (simp add: andThen_def throwIf_def)

lemma andThen_defined [prog_simps, simp]:
  "andThen (defined e None) f = throw e"
  "andThen (defined e (Some x)) f = f x"
  by (simp_all add: andThen_def defined_def throw_def ret_def fun_eq_iff)

lemma andThen_assoc: "andThen (andThen m f) g = andThen m (\<lambda>x. andThen (f x) g)"
  by (auto simp: andThen_def fun_eq_iff split: prod.splits sum.splits)

lemma andThen_InrE:
  assumes "andThen m f s = (Inr y, s')"
  obtains x t where "m s = (Inr x, t)" and "f x t = (Inr y, s')"
  using assms by (auto simp: andThen_def split: prod.splits sum.splits)

lemma andThen_InlE:
  assumes "andThen m f s = (Inl e, s')"
  obtains "m s = (Inl e, s')" | x t where "m s = (Inr x, t)" and "f x t = (Inl e, s')"
  using assms by (auto simp: andThen_def split: prod.splits sum.splits)

text \<open>An invariant of the state that a program keeps whatever its result.\<close>

definition keeps :: "('s \<Rightarrow> bool) \<Rightarrow> ('s, 'e, 'a) prog \<Rightarrow> bool" where
  "keeps P m \<longleftrightarrow> (\<forall>s. P s \<longrightarrow> P (snd (m s)))"

named_theorems keeps_intros \<open>introduction rules for preserved invariants\<close>

lemma keepsI: "(\<And>s. P s \<Longrightarrow> P (snd (m s))) \<Longrightarrow> keeps P m"
  by (simp add: keeps_def)

lemma keepsD: "keeps P m \<Longrightarrow> P s \<Longrightarrow> m s = (r, s') \<Longrightarrow> P s'"
  unfolding keeps_def by (metis snd_conv)

lemma keeps_ret [keeps_intros]: "keeps P (ret x)"
  by (simp add: keeps_def)

lemma keeps_throw [keeps_intros]: "keeps P (throw e)"
  by (simp add: keeps_def)

lemma keeps_reads [keeps_intros]: "keeps P (reads f)"
  by (simp add: keeps_def)

lemma keeps_throwIf [keeps_intros]: "keeps P (throwIf b e)"
  by (simp add: keeps_def)

lemma keeps_defined [keeps_intros]: "keeps P (defined e v)"
  by (cases v) (simp_all add: keeps_def)

lemma keeps_modify [keeps_intros]: "(\<And>s. P s \<Longrightarrow> P (f s)) \<Longrightarrow> keeps P (modify f)"
  by (simp add: keeps_def)

lemma keeps_andThen [keeps_intros]:
  assumes "keeps P m" and "\<And>x. keeps P (f x)"
  shows "keeps P (andThen m f)"
proof (rule keepsI)
  fix s assume "P s"
  obtain r t where m: "m s = (r, t)" by fastforce
  have "P t" using assms(1) \<open>P s\<close> m by (rule keepsD)
  then show "P (snd (andThen m f s))"
    using assms(2) m by (auto simp: andThen_def keeps_def split: sum.splits)
qed

lemma keeps_whenever [keeps_intros]: "keeps P m \<Longrightarrow> keeps P (whenever b m)"
  by (simp add: keeps_def)

lemma keeps_forEach [keeps_intros]: "(\<And>x. x \<in> set xs \<Longrightarrow> keeps P (f x)) \<Longrightarrow> keeps P (forEach f xs)"
  by (induction xs) (auto intro: keeps_intros)

lemma forEach_append: "forEach f (xs @ ys) = andThen (forEach f xs) (\<lambda>_. forEach f ys)"
  by (induction xs) (simp_all add: andThen_assoc)

text \<open>A call into code outside the model: its result, or the error it throws.\<close>

definition liftE :: "'e + 'a \<Rightarrow> ('s, 'e, 'a) prog" where
  "liftE r = (\<lambda>s. (r, s))"

lemma liftE_apply [prog_simps, simp]: "liftE r s = (r, s)"
  by (simp add: liftE_def)

lemma liftE_sum [prog_simps, simp]: "liftE (Inr x) = ret x" "liftE (Inl e) = throw e"
  by (simp_all add: liftE_def ret_def throw_def)

lemma keeps_liftE [keeps_intros]: "keeps P (liftE r)"
  by (simp add: keeps_def)

text \<open>
  A contract of a program: from a state with \<open>P\<close>, a normal result satisfies \<open>Q\<close> and a thrown
  error satisfies \<open>E\<close> (both with the state then reached).
\<close>

definition triple ::
    "('s \<Rightarrow> bool) \<Rightarrow> ('s, 'e, 'a) prog \<Rightarrow> ('a \<Rightarrow> 's \<Rightarrow> bool) \<Rightarrow> ('e \<Rightarrow> 's \<Rightarrow> bool) \<Rightarrow> bool" where
  "triple P m Q E \<longleftrightarrow>
     (\<forall>s. P s \<longrightarrow> (case m s of (Inr x, s') \<Rightarrow> Q x s' | (Inl e, s') \<Rightarrow> E e s'))"

lemma tripleI:
  assumes "\<And>s x s'. P s \<Longrightarrow> m s = (Inr x, s') \<Longrightarrow> Q x s'"
    and "\<And>s e s'. P s \<Longrightarrow> m s = (Inl e, s') \<Longrightarrow> E e s'"
  shows "triple P m Q E"
  using assms by (fastforce simp: triple_def split: prod.splits sum.splits)

lemma triple_InrD: "triple P m Q E \<Longrightarrow> P s \<Longrightarrow> m s = (Inr x, s') \<Longrightarrow> Q x s'"
  unfolding triple_def by (erule allE[of _ s]) simp

lemma triple_InlD: "triple P m Q E \<Longrightarrow> P s \<Longrightarrow> m s = (Inl e, s') \<Longrightarrow> E e s'"
  unfolding triple_def by (erule allE[of _ s]) simp

text \<open>A contract without errors: the program returns, and keeps its promise.\<close>

lemma triple_run:
  assumes "triple P m Q (\<lambda>_ _. False)" and "P s"
  obtains x s' where "m s = (Inr x, s')" and "Q x s'"
  using assms by (cases "m s"; cases "fst (m s)") (auto simp: triple_def)


lemma triple_pre: "triple P' m Q E \<Longrightarrow> (\<And>s. P s \<Longrightarrow> P' s) \<Longrightarrow> triple P m Q E"
  by (auto simp: triple_def)

lemma triple_conseq:
  assumes "triple P' m Q' E'" and "\<And>s. P s \<Longrightarrow> P' s"
    and "\<And>x s. Q' x s \<Longrightarrow> Q x s" and "\<And>e s. E' e s \<Longrightarrow> E e s"
  shows "triple P m Q E"
proof (rule tripleI)
  show "Q x s'" if "P s" "m s = (Inr x, s')" for s x s'
    using assms(3)[OF triple_InrD[OF assms(1) assms(2)[OF that(1)] that(2)]] .
  show "E e s'" if "P s" "m s = (Inl e, s')" for s e s'
    using assms(4)[OF triple_InlD[OF assms(1) assms(2)[OF that(1)] that(2)]] .
qed

lemma triple_andThen:
  assumes "triple P m R E" and "\<And>x. triple (R x) (f x) Q E"
  shows "triple P (andThen m f) Q E"
proof (rule tripleI)
  fix s x s' assume "P s" "andThen m f s = (Inr x, s')"
  then show "Q x s'"
    using triple_InrD[OF assms(1)] triple_InrD[OF assms(2)] by (blast elim: andThen_InrE)
next
  fix s e s' assume "P s" "andThen m f s = (Inl e, s')"
  then show "E e s'"
    using triple_InrD[OF assms(1)] triple_InlD[OF assms(1)] triple_InlD[OF assms(2)]
    by (blast elim: andThen_InlE)
qed

lemma triple_ret: "(\<And>s. P s \<Longrightarrow> Q x s) \<Longrightarrow> triple P (ret x) Q E"
  by (simp add: triple_def)

lemma triple_throw: "(\<And>s. P s \<Longrightarrow> E e s) \<Longrightarrow> triple P (throw e) Q E"
  by (simp add: triple_def)

lemma triple_reads: "(\<And>s. P s \<Longrightarrow> Q (f s) s) \<Longrightarrow> triple P (reads f) Q E"
  by (simp add: triple_def)

lemma triple_modify: "(\<And>s. P s \<Longrightarrow> Q () (f s)) \<Longrightarrow> triple P (modify f) Q E"
  by (simp add: triple_def)

lemma triple_throwIf:
  "(\<And>s. P s \<Longrightarrow> \<not> b \<Longrightarrow> Q () s) \<Longrightarrow> (\<And>s. P s \<Longrightarrow> b \<Longrightarrow> E e s) \<Longrightarrow> triple P (throwIf b e) Q E"
  by (simp add: triple_def)

lemma triple_defined:
  "(\<And>s x. P s \<Longrightarrow> v = Some x \<Longrightarrow> Q x s) \<Longrightarrow> (\<And>s. P s \<Longrightarrow> v = None \<Longrightarrow> E e s) \<Longrightarrow>
    triple P (defined e v) Q E"
  by (cases v) (simp_all add: triple_def)

lemma triple_liftE:
  "(\<And>s x. P s \<Longrightarrow> r = Inr x \<Longrightarrow> Q x s) \<Longrightarrow> (\<And>s e. P s \<Longrightarrow> r = Inl e \<Longrightarrow> E e s) \<Longrightarrow>
    triple P (liftE r) Q E"
  by (cases r) (simp_all add: triple_def)

lemma triple_if:
  "(b \<Longrightarrow> triple P m Q E) \<Longrightarrow> (\<not> b \<Longrightarrow> triple P n Q E) \<Longrightarrow> triple P (if b then m else n) Q E"
  by simp

lemma triple_whenever:
  "(b \<Longrightarrow> triple P m Q E) \<Longrightarrow> (\<And>s. P s \<Longrightarrow> \<not> b \<Longrightarrow> Q () s) \<Longrightarrow> triple P (whenever b m) Q E"
  by (cases b) (simp_all add: whenever_def triple_ret)

lemma triple_forEach:
  assumes "\<And>x. x \<in> set xs \<Longrightarrow> triple I (f x) (\<lambda>_. I) E"
  shows "triple I (forEach f xs) (\<lambda>_. I) E"
  using assms by (induction xs) (auto intro: triple_ret triple_andThen)

lemma keeps_triple: "keeps P m \<longleftrightarrow> triple P m (\<lambda>_. P) (\<lambda>_. P)"
  by (auto simp: keeps_def triple_def case_prod_beta split: sum.splits)

section \<open>Handling errors, and programs on a part of the state\<close>

text \<open>\<open>try { m } catch (e) { h(e) }\<close>.\<close>

definition catching :: "('s, 'e, 'a) prog \<Rightarrow> ('e \<Rightarrow> ('s, 'f, 'a) prog) \<Rightarrow> ('s, 'f, 'a) prog" where
  "catching m h = (\<lambda>s. case m s of (Inl e, s') \<Rightarrow> h e s' | (Inr x, s') \<Rightarrow> (Inr x, s'))"

text \<open>\<open>try { m } finally { f }\<close>: an error of \<open>f\<close> replaces the outcome of \<open>m\<close>.\<close>

definition finallyDo :: "('s, 'e, 'a) prog \<Rightarrow> ('s, 'e, unit) prog \<Rightarrow> ('s, 'e, 'a) prog" where
  "finallyDo m f = (\<lambda>s. case m s of (r, s') \<Rightarrow>
     (case f s' of (Inl e, s'') \<Rightarrow> (Inl e, s'') | (Inr _, s'') \<Rightarrow> (r, s'')))"

text \<open>A program on a part of the state: the part is read, the program run, the part put back.\<close>

definition within :: "('s \<Rightarrow> 'p) \<Rightarrow> ('p \<Rightarrow> 's \<Rightarrow> 's) \<Rightarrow> ('p, 'e, 'a) prog \<Rightarrow> ('s, 'e, 'a) prog" where
  "within g u m = (\<lambda>s. case m (g s) of (r, p) \<Rightarrow> (r, u p s))"

lemma catching_Inl [prog_simps]: "m s = (Inl e, s') \<Longrightarrow> catching m h s = h e s'"
  by (simp add: catching_def)

lemma catching_Inr [prog_simps]: "m s = (Inr x, s') \<Longrightarrow> catching m h s = (Inr x, s')"
  by (simp add: catching_def)

lemma catching_simps [prog_simps, simp]:
  "catching (ret x) h = ret x" "catching (throw e) h = h e"
  by (simp_all add: catching_def ret_def throw_def fun_eq_iff)

lemma finallyDo_Inr [prog_simps]: "f (snd (m s)) = (Inr u, s') \<Longrightarrow> finallyDo m f s = (fst (m s), s')"
  by (simp add: finallyDo_def case_prod_beta)

lemma within_apply [prog_simps]: "m (g s) = (r, p) \<Longrightarrow> within g u m s = (r, u p s)"
  by (simp add: within_def)

lemma keeps_catching [keeps_intros]:
  assumes "keeps P m" and "\<And>e. keeps P (h e)"
  shows "keeps P (catching m h)"
proof (rule keepsI)
  fix s assume "P s"
  obtain r t where m: "m s = (r, t)" by fastforce
  have "P t" using assms(1) \<open>P s\<close> m by (rule keepsD)
  then show "P (snd (catching m h s))"
    using assms(2) m by (auto simp: catching_def keeps_def split: sum.splits)
qed

lemma keeps_within:
  assumes "\<And>s. P s \<Longrightarrow> Q (g s)" and "\<And>s p. P s \<Longrightarrow> Q p \<Longrightarrow> P (u p s)" and "keeps Q m"
  shows "keeps P (within g u m)"
proof (rule keepsI)
  fix s assume "P s"
  obtain r p where m: "m (g s) = (r, p)" by fastforce
  then have "Q p" using assms(1)[OF \<open>P s\<close>] assms(3) by (blast intro: keepsD)
  then show "P (snd (within g u m s))" using m assms(2)[OF \<open>P s\<close>] by (simp add: within_def)
qed


section \<open>JavaScript maps: association lists in insertion order\<close>

type_synonym ('k, 'v) jsmap = "('k \<times> 'v) list"

fun jm_set :: "'k \<Rightarrow> 'v \<Rightarrow> ('k, 'v) jsmap \<Rightarrow> ('k, 'v) jsmap" where
  "jm_set k v [] = [(k, v)]"
| "jm_set k v ((k', v') # m) = (if k = k' then (k, v) # m else (k', v') # jm_set k v m)"

definition jm_delete :: "'k \<Rightarrow> ('k, 'v) jsmap \<Rightarrow> ('k, 'v) jsmap" where
  "jm_delete k m = filter (\<lambda>(k', _). k' \<noteq> k) m"

definition jm_get :: "('k, 'v) jsmap \<Rightarrow> 'k \<Rightarrow> 'v option" where
  "jm_get m k = map_of m k"

definition jm_has :: "('k, 'v) jsmap \<Rightarrow> 'k \<Rightarrow> bool" where
  "jm_has m k \<longleftrightarrow> jm_get m k \<noteq> None"

definition jm_keys :: "('k, 'v) jsmap \<Rightarrow> 'k list" where
  "jm_keys m = map fst m"

definition jm_values :: "('k, 'v) jsmap \<Rightarrow> 'v list" where
  "jm_values m = map snd m"

definition jm_inv :: "('k, 'v) jsmap \<Rightarrow> bool" where
  "jm_inv m \<longleftrightarrow> distinct (jm_keys m)"

lemma jm_get_Nil [simp]: "jm_get [] k = None"
  by (simp add: jm_get_def)

lemma jm_has_Nil [simp]: "\<not> jm_has [] k"
  by (simp add: jm_has_def)

lemma jm_get_Cons [simp]: "jm_get ((k', v) # m) k = (if k = k' then Some v else jm_get m k)"
  by (simp add: jm_get_def)

lemma jm_get_set [simp]: "jm_get (jm_set k v m) k' = (if k' = k then Some v else jm_get m k')"
  by (induction k v m rule: jm_set.induct) auto

lemma jm_get_delete [simp]: "jm_get (jm_delete k m) k' = (if k' = k then None else jm_get m k')"
  by (induction m) (auto simp: jm_delete_def)

lemma jm_has_set [simp]: "jm_has (jm_set k v m) k' \<longleftrightarrow> k' = k \<or> jm_has m k'"
  by (simp add: jm_has_def)

lemma jm_has_delete [simp]: "jm_has (jm_delete k m) k' \<longleftrightarrow> k' \<noteq> k \<and> jm_has m k'"
  by (simp add: jm_has_def)

lemma set_jm_keys: "set (jm_keys m) = {k. jm_has m k}"
  by (induction m) (auto simp: jm_keys_def jm_has_def)

lemma jm_keys_set: "jm_keys (jm_set k v m) = (if jm_has m k then jm_keys m else jm_keys m @ [k])"
  by (induction k v m rule: jm_set.induct) (auto simp: jm_keys_def jm_has_def)

lemma jm_keys_delete: "jm_keys (jm_delete k m) = filter (\<lambda>k'. k' \<noteq> k) (jm_keys m)"
  by (induction m) (auto simp: jm_keys_def jm_delete_def)

lemma jm_inv_Nil [simp]: "jm_inv []"
  by (simp add: jm_inv_def jm_keys_def)

lemma jm_inv_set [simp]: "jm_inv m \<Longrightarrow> jm_inv (jm_set k v m)"
  by (auto simp: jm_inv_def jm_keys_set set_jm_keys)

lemma jm_inv_delete [simp]: "jm_inv m \<Longrightarrow> jm_inv (jm_delete k m)"
  by (simp add: jm_inv_def jm_keys_delete)

lemma jm_inv_Cons: "jm_inv ((k, v) # m) \<longleftrightarrow> \<not> jm_has m k \<and> jm_inv m"
proof -
  have "k \<in> set (jm_keys m) \<longleftrightarrow> jm_has m k"
    by (simp add: set_jm_keys)
  then show ?thesis
    by (simp add: jm_inv_def jm_keys_def)
qed

lemma length_jm_set: "length (jm_set k v m) = (if jm_has m k then length m else Suc (length m))"
  by (induction k v m rule: jm_set.induct) (auto simp: jm_has_def)

lemma in_set_jm_get: "jm_inv m \<Longrightarrow> (k, v) \<in> set m \<longleftrightarrow> jm_get m k = Some v"
  unfolding jm_inv_def jm_keys_def jm_get_def by (simp add: map_of_eq_Some_iff)

lemma jm_values_get: "jm_inv m \<Longrightarrow> v \<in> set (jm_values m) \<longleftrightarrow> (\<exists>k. jm_get m k = Some v)"
  by (auto simp: jm_values_def in_set_jm_get[symmetric] image_iff) (metis snd_conv)

lemma jm_delete_absent: "\<not> jm_has m k \<Longrightarrow> jm_delete k m = m"
  by (induction m) (auto simp: jm_delete_def jm_has_def split: if_splits)

lemma jm_set_present_id: "jm_get m k = Some v \<Longrightarrow> jm_set k v m = m"
  by (induction k v m rule: jm_set.induct) auto

text \<open>The map with a function applied to its values.\<close>

definition jm_map :: "('v \<Rightarrow> 'u) \<Rightarrow> ('k, 'v) jsmap \<Rightarrow> ('k, 'u) jsmap" where
  "jm_map f m = map (\<lambda>(k, v). (k, f v)) m"

lemma jm_map_Nil [simp]: "jm_map f [] = []"
  by (simp add: jm_map_def)

lemma jm_map_Cons [simp]: "jm_map f ((k, v) # m) = (k, f v) # jm_map f m"
  by (simp add: jm_map_def)

lemma jm_map_set [simp]: "jm_map f (jm_set k v m) = jm_set k (f v) (jm_map f m)"
  by (induction k v m rule: jm_set.induct) auto

lemma jm_map_delete [simp]: "jm_map f (jm_delete k m) = jm_delete k (jm_map f m)"
  by (induction m) (auto simp: jm_delete_def)

lemma jm_get_map [simp]: "jm_get (jm_map f m) k = map_option f (jm_get m k)"
  by (induction m) auto

lemma jm_has_map [simp]: "jm_has (jm_map f m) k = jm_has m k"
  by (simp add: jm_has_def)

lemma jm_keys_map [simp]: "jm_keys (jm_map f m) = jm_keys m"
  by (induction m) (auto simp: jm_keys_def)

lemma jm_values_map: "jm_values (jm_map f m) = map f (jm_values m)"
  by (induction m) (auto simp: jm_values_def)

lemma jm_inv_map [simp]: "jm_inv (jm_map f m) = jm_inv m"
  by (simp add: jm_inv_def)

lemma jm_set_set [simp]: "jm_set k v (jm_set k u m) = jm_set k v m"
  by (induction k u m rule: jm_set.induct) auto

lemma jm_delete_set [simp]: "jm_delete k (jm_set k v m) = jm_delete k m"
  by (induction k v m rule: jm_set.induct) (auto simp: jm_delete_def)

text \<open>The elements of a map of lists, before and after an update of one key.\<close>

lemma mset_values_set:
  "mset (concat (jm_values (jm_set k xs m))) + mset (case jm_get m k of None \<Rightarrow> [] | Some ys \<Rightarrow> ys) =
    mset (concat (jm_values m)) + mset xs"
  by (induction k xs m rule: jm_set.induct) (auto simp: jm_values_def)

lemma mset_values_delete:
  "jm_inv m \<Longrightarrow>
    mset (concat (jm_values (jm_delete k m))) + mset (case jm_get m k of None \<Rightarrow> [] | Some ys \<Rightarrow> ys) =
    mset (concat (jm_values m))"
proof (induction m)
  case (Cons p m)
  obtain k1 xs where p: "p = (k1, xs)" by fastforce
  have inv: "jm_inv m" "\<not> jm_has m k1" using Cons.prems p by (simp_all add: jm_inv_Cons)
  show ?case
  proof (cases "k = k1")
    case True
    then have "jm_delete k (p # m) = m"
      using p inv jm_delete_absent[of m k1] by (simp add: jm_delete_def)
    then show ?thesis using p True by (simp add: jm_values_def)
  next
    case False
    then have "jm_delete k (p # m) = p # jm_delete k m" using p by (simp add: jm_delete_def)
    then show ?thesis using Cons.IH[OF inv(1)] p False by (simp add: jm_values_def)
  qed
qed (simp add: jm_values_def jm_delete_def)


section \<open>JavaScript sets: lists without repetition\<close>

definition js_add :: "'a \<Rightarrow> 'a list \<Rightarrow> 'a list" where
  "js_add x xs = (if x \<in> set xs then xs else xs @ [x])"

definition js_delete :: "'a \<Rightarrow> 'a list \<Rightarrow> 'a list" where
  "js_delete x xs = filter (\<lambda>y. y \<noteq> x) xs"

lemma set_js_add [simp]: "set (js_add x xs) = insert x (set xs)"
  by (auto simp: js_add_def)

lemma set_js_delete [simp]: "set (js_delete x xs) = set xs - {x}"
  by (auto simp: js_delete_def)

lemma distinct_js_add [simp]: "distinct xs \<Longrightarrow> distinct (js_add x xs)"
  by (simp add: js_add_def)

lemma distinct_js_delete [simp]: "distinct xs \<Longrightarrow> distinct (js_delete x xs)"
  by (simp add: js_delete_def)

section \<open>Lists and sums\<close>

text \<open>\<open>findIndex\<close> of a list: the first index whose element satisfies the predicate.\<close>

fun find_index :: "('a \<Rightarrow> bool) \<Rightarrow> 'a list \<Rightarrow> nat option" where
  "find_index p [] = None"
| "find_index p (x # xs) = (if p x then Some 0 else map_option Suc (find_index p xs))"

lemma find_index_None: "find_index p xs = None \<longleftrightarrow> (\<forall>x \<in> set xs. \<not> p x)"
  by (induction xs) auto

lemma find_index_Some:
  "find_index p xs = Some i \<Longrightarrow> i < length xs \<and> p (xs ! i) \<and> (\<forall>x \<in> set (take i xs). \<not> p x)"
  by (induction xs arbitrary: i) (auto split: if_splits)

lemma find_SomeD: "find P xs = Some x \<Longrightarrow> x \<in> set xs \<and> P x"
  by (induction xs) (auto split: if_splits)

lemma sum_fun_upd_nat:
  fixes f :: "'a \<Rightarrow> int"
  assumes "finite A" and "i \<in> A"
  shows "(\<Sum>r\<in>A. (f(i := v)) r) = (\<Sum>r\<in>A. f r) - f i + v"
proof -
  have "(\<Sum>r\<in>A. (f(i := v)) r) = v + (\<Sum>r\<in>A - {i}. f r)"
    using assms by (simp add: sum.remove)
  moreover have "(\<Sum>r\<in>A. f r) = f i + (\<Sum>r\<in>A - {i}. f r)"
    using assms by (simp add: sum.remove)
  ultimately show ?thesis by simp
qed

lemma image_filter:
  "(\<And>x. P x \<longleftrightarrow> Q (f x)) \<Longrightarrow> f ` set (filter P xs) = {y \<in> f ` set xs. Q y}"
  by auto


text \<open>A list with no repetition, by the counts of its multiset.\<close>

lemma distinct_count: "distinct xs \<longleftrightarrow> (\<forall>x. count (mset xs) x \<le> 1)"
proof
  assume le: "\<forall>x. count (mset xs) x \<le> 1"
  have "count (mset xs) x = (if x \<in> set xs then 1 else 0)" for x
  proof (cases "x \<in> set xs")
    case True
    then have "count (mset xs) x > 0" by (simp only: count_greater_zero_iff set_mset_mset)
    then show ?thesis using True le by (metis One_nat_def Suc_leI le_antisym)
  next
    case False
    then have "count (mset xs) x = 0" by (simp only: count_eq_zero_iff set_mset_mset not_False_eq_True)
    then show ?thesis using False by simp
  qed
  then show "distinct xs" using distinct_count_atmost_1[of xs] by blast
qed (simp add: distinct_count_atmost_1)

lemma distinct_sub_mset:
  assumes "distinct (map f xs)" and "mset ys \<subseteq># mset xs" shows "distinct (map f ys)"
proof -
  have "image_mset f (mset ys) \<subseteq># image_mset f (mset xs)" using assms(2) by (rule image_mset_subseteq_mono)
  then have "count (mset (map f ys)) x \<le> count (mset (map f xs)) x" for x
    by (simp add: mset_subset_eq_count)
  then show ?thesis using assms(1) unfolding distinct_count by (meson le_trans)
qed


end
