(* ===== verification/Types.thy ===== *)
theory Types
  imports Prelude "HOL-Library.Word" "HOL-Library.Char_ord" "HOL-Library.List_Lexorder"
    "HOL-Library.Product_Lexorder"
begin

text \<open>
  The data the components exchange: the exceptions of core-contracts as datatypes, transactions,
  transaction assets and blocks as records. A JavaScript number is an \<open>int\<close> (heights, sizes,
  timestamps), a \<open>BigNumber\<close> (a wrapper of an unbounded \<open>bigint\<close>) is an \<open>int\<close>, a property
  that may be absent is an \<open>option\<close>, a buffer is a list of bytes, and public keys, addresses,
  identifiers and signatures are the strings the code passes around.
\<close>

section \<open>JavaScript values\<close>

type_synonym byte = "8 word"

text \<open>Truthiness of an optional number and of an optional string.\<close>

definition truthyNum :: "int option \<Rightarrow> bool" where
  "truthyNum v \<longleftrightarrow> (case v of None \<Rightarrow> False | Some n \<Rightarrow> n \<noteq> 0)"

definition truthyStr :: "string option \<Rightarrow> bool" where
  "truthyStr v \<longleftrightarrow> (case v of None \<Rightarrow> False | Some s \<Rightarrow> s \<noteq> '''')"

lemma truthyNum_simps [simp]: "\<not> truthyNum None" "truthyNum (Some n) \<longleftrightarrow> n \<noteq> 0"
  by (simp_all add: truthyNum_def)

lemma truthyStr_simps [simp]: "\<not> truthyStr None" "truthyStr (Some s) \<longleftrightarrow> s \<noteq> ''''"
  by (simp_all add: truthyStr_def)

text \<open>
  The operator \<open>%\<close> of JavaScript takes the sign of the dividend and \<open>/\<close> on \<open>bigint\<close> truncates;
  both differ from \<open>div\<close> and \<open>mod\<close> of HOL on negative values.
\<close>

definition jsMod :: "int \<Rightarrow> int \<Rightarrow> int" where
  "jsMod a b = sgn a * (\<bar>a\<bar> mod \<bar>b\<bar>)"

definition bigDiv :: "int \<Rightarrow> int \<Rightarrow> int" where
  "bigDiv a b = sgn a * sgn b * (\<bar>a\<bar> div \<bar>b\<bar>)"

lemma jsMod_nonneg: "0 \<le> a \<Longrightarrow> 0 < b \<Longrightarrow> jsMod a b = a mod b"
  by (cases "a = 0") (simp_all add: jsMod_def)

lemma jsMod_eq_0_iff: "0 < b \<Longrightarrow> jsMod a b = 0 \<longleftrightarrow> b dvd a"
  by (cases "a = 0") (auto simp: jsMod_def sgn_0_0 dvd_eq_mod_eq_0[symmetric])

lemma bigDiv_nonneg: "0 \<le> a \<Longrightarrow> 0 < b \<Longrightarrow> bigDiv a b = a div b"
  by (cases "a = 0") (simp_all add: bigDiv_def)

text \<open>\<open>toString\<close> of an integer.\<close>

function decimal :: "int \<Rightarrow> string" where
  "decimal n = (if n < 0 then CHR ''-'' # decimal (- n)
     else if n < 10 then [char_of (48 + nat n)]
     else decimal (n div 10) @ [char_of (48 + nat (n mod 10))])"
  by pat_completeness auto
termination by (relation "measure (\<lambda>n. if n < 0 then nat (- n) + 1 else nat n)") auto

section \<open>Exceptions\<close>

datatype crypto_error =
    InvalidTransactionBytesError
  | TransactionSchemaError
  | TransactionVersionError int
  | UnkownTransactionError
  | InvalidMilestoneConfigurationError int
  | InvalidMultiSignatureAssetError
  | DuplicateParticipantInMultiSignatureError
  | InvalidTransactionTypeError int int
  | DeactivatedTransactionHandlerError int int
  | UnsatisfiedDependencyError int int
  | AlreadyRegisteredError int int
  | UnexpectedNonceError int int bool
  | ColdWalletError
  | InsufficientBalanceError
  | SenderWalletMismatchError
  | MissingMultiSignatureOnSenderError
  | InvalidMultiSignaturesError
  | UnsupportedMultiSignatureRegistrationTransactionError
  | WalletAlreadyResignedError
  | WalletNotAValidatorError
  | WalletIsAlreadyValidatorError
  | WalletUsernameAlreadyRegisteredError string
  | NotSupportedForMultiSignatureWalletError
  | AlreadyVotedError
  | NoVoteError
  | UnvoteMismatchError
  | VotedForNonValidatorError string
  | VotedForResignedValidatorError string
  | EmptyVoteError
  | MaxVotesExceeededError
  | MaxUnvotesExceeededError
  | NotEnoughValidatorsError
  | MultiSignatureAlreadyRegisteredError
  | InvalidMultiSignatureError
  | LegacyMultiSignatureError
  | MultiSignatureMinimumKeysError
  | MultiSignatureKeyCountMismatchError
  | BlockSchemaError int
  | TransactionKeyAlreadyRegisteredError string
  | TransactionAlreadyRegisteredError string
  | TransactionVersionAlreadyRegisteredError string int

text \<open>
  Everything a call may throw. The pool errors carry the values their messages show; the
  untyped ones are a failed \<open>assert\<close>, a \<open>TypeError\<close> of the language (a property of
  \<open>undefined\<close>), a \<open>RangeError\<close> (a number or an offset outside a buffer's range), a plain \<open>Error\<close> with its message, and the pool's own wrapper. \<open>OutOfFuel\<close> is
  no exception of the code: it is the outcome of a loop of the model that has used up its fuel,
  so that a loop which may not end never passes for one that has returned.
\<close>

datatype error =
    CryptoError crypto_error
  | RetryTransactionError
  | TransactionAlreadyInPoolError
  | TransactionExceedsMaximumByteSizeError int
  | TransactionHasExpiredError int
  | TransactionFeeToLowError
  | TransactionFeeToHighError
  | SenderExceededMaximumTransactionCountError int
  | TransactionPoolFullError int
  | TransactionFailedToApplyError error
  | TransactionFailedToVerifyError
  | TransactionFromWrongNetworkError "int option"
  | InvalidTransactionDataError
  | PoolErrorOf string
  | AssertionException
  | JsTypeError
  | JsRangeError
  | PlainError string
  | OutOfFuel

text \<open>\<open>error instanceof PoolError\<close> and the \<open>type\<close> each pool error is built with.\<close>

fun poolErrorType :: "error \<Rightarrow> string option" where
  "poolErrorType RetryTransactionError = Some ''ERR_RETRY''"
| "poolErrorType TransactionAlreadyInPoolError = Some ''ERR_DUPLICATE''"
| "poolErrorType (TransactionExceedsMaximumByteSizeError _) = Some ''ERR_TOO_LARGE''"
| "poolErrorType (TransactionHasExpiredError _) = Some ''ERR_EXPIRED''"
| "poolErrorType TransactionFeeToLowError = Some ''ERR_LOW_FEE''"
| "poolErrorType TransactionFeeToHighError = Some ''ERR_HIGH_FEE''"
| "poolErrorType (SenderExceededMaximumTransactionCountError _) = Some ''ERR_EXCEEDS_MAX_COUNT''"
| "poolErrorType (TransactionPoolFullError _) = Some ''ERR_POOL_FULL''"
| "poolErrorType (TransactionFailedToApplyError _) = Some ''ERR_APPLY''"
| "poolErrorType TransactionFailedToVerifyError = Some ''ERR_BAD_DATA''"
| "poolErrorType (TransactionFromWrongNetworkError _) = Some ''ERR_WRONG_NETWORK''"
| "poolErrorType InvalidTransactionDataError = Some ''ERR_BAD_DATA''"
| "poolErrorType (PoolErrorOf t) = Some t"
| "poolErrorType _ = None"

section \<open>Transactions\<close>

record payment =
  pay_amount :: int
  pay_recipientId :: string

record multisig_asset =
  ms_min :: int
  ms_publicKeys :: "string list"

text \<open>A transaction's \<open>asset\<close>; a transaction without one reads as all fields absent.\<close>

record tx_asset =
  as_username :: "string option"
  as_votes :: "string list option"
  as_unvotes :: "string list option"
  as_multiSignature :: "multisig_asset option"
  as_payments :: "payment list option"

definition noAsset :: tx_asset where
  "noAsset = \<lparr>as_username = None, as_votes = None, as_unvotes = None,
     as_multiSignature = None, as_payments = None\<rparr>"

record txdata =
  version :: "int option"
  network :: "int option"
  typeGroup :: "int option"
  ttype :: int
  nonce :: "int option"
  senderPublicKey :: "string option"
  fee :: int
  amount :: int
  expiration :: "int option"
  recipientId :: "string option"
  asset :: tx_asset
  vendorField :: "string option"
  tid :: "string option"
  signature :: "string option"
  signatures :: "string list option"

record transaction =
  data :: txdata
  serialized :: "byte list"

abbreviation txId :: "transaction \<Rightarrow> string option" where
  "txId t \<equiv> tid (data t)"

abbreviation txFee :: "transaction \<Rightarrow> int" where
  "txFee t \<equiv> fee (data t)"

text \<open>\<open>TransactionType\<close> and \<open>TransactionTypeGroup\<close>.\<close>

definition T_Transfer :: int where "T_Transfer = 0"
definition T_ValidatorRegistration :: int where "T_ValidatorRegistration = 2"
definition T_Vote :: int where "T_Vote = 3"
definition T_MultiSignature :: int where "T_MultiSignature = 4"
definition T_MultiPayment :: int where "T_MultiPayment = 6"
definition T_ValidatorResignation :: int where "T_ValidatorResignation = 7"
definition G_Core :: int where "G_Core = 1"

lemmas type_defs = T_Transfer_def T_ValidatorRegistration_def T_Vote_def T_MultiSignature_def
  T_MultiPayment_def T_ValidatorResignation_def G_Core_def

definition isCore :: "int \<Rightarrow> txdata \<Rightarrow> bool" where
  "isCore t d \<longleftrightarrow> ttype d = t \<and> typeGroup d = Some G_Core"

text \<open>The sum of the payments' amounts, as \<open>reduce\<close> computes it.\<close>

definition totalPayments :: "payment list \<Rightarrow> int" where
  "totalPayments ps = fold (\<lambda>p a. a + pay_amount p) ps 0"

lemma fold_payments: "fold (\<lambda>p a. a + pay_amount p) ps z = z + sum_list (map pay_amount ps)"
  by (induction ps arbitrary: z) simp_all

lemma totalPayments_sum [simp]: "totalPayments ps = sum_list (map pay_amount ps)"
  by (simp add: totalPayments_def fold_payments)

section \<open>Blocks\<close>

record blockdata =
  bid :: "string option"
  timestamp :: int
  bversion :: int
  height :: int
  previousBlock :: string
  numberOfTransactions :: int
  totalAmount :: int
  totalFee :: int
  reward :: int
  payloadLength :: int
  payloadHash :: string
  generatorPublicKey :: string
  blockSignature :: "string option"

record block =
  bdata :: blockdata
  transactions :: "transaction list"

end
