(* ===== verification/Wallets.thy ===== *)
theory Wallets
  imports Types
begin

text \<open>
  Wallets and their repositories (packages/core-state/source/wallets). Wallet objects live on an
  explicit heap (\<open>objs\<close>, addressed by references below \<open>nextRef\<close>), because the repositories and
  the handlers share and mutate them; a repository is one \<open>WalletIndex\<close> per index name, and the
  blockchain repository, the clone and its forget indexes share the heap. Events that \<open>Wallet\<close>
  dispatches on a property change have no listener that changes a wallet and are left out.
\<close>

section \<open>Wallet (wallet.ts)\<close>

text \<open>
  The known attributes (\<open>walletAttributes\<close> of the registered handlers) as fields: \<open>None\<close> is an
  attribute that was never set, \<open>va_resigned\<close> whether \<open>validator.resigned\<close> is set.
\<close>

record validator_attrs =
  va_username :: "string option"
  va_voteBalance :: "int option"
  va_rank :: "int option"
  va_round :: "int option"
  va_resigned :: bool
  va_lastBlock :: "blockdata option"

definition noValidator :: validator_attrs where
  "noValidator = \<lparr>va_username = None, va_voteBalance = None, va_rank = None, va_round = None,
     va_resigned = False, va_lastBlock = None\<rparr>"

record wallet =
  waddress :: string
  wpublicKey :: "string option"
  wbalance :: int
  wnonce :: int
  wvote :: "string option"
  wvalidator :: "validator_attrs option"
  wmultiSignature :: "multisig_asset option"

text \<open>\<open>walletFactory\<close>: a wallet with an address and nothing else.\<close>

definition newWallet :: "string \<Rightarrow> wallet" where
  "newWallet a = \<lparr>waddress = a, wpublicKey = None, wbalance = 0, wnonce = 0, wvote = None,
     wvalidator = None, wmultiSignature = None\<rparr>"

definition setPublicKey :: "string \<Rightarrow> wallet \<Rightarrow> wallet" where
  "setPublicKey k w = w\<lparr>wpublicKey := Some k\<rparr>"

definition setBalance :: "int \<Rightarrow> wallet \<Rightarrow> wallet" where
  "setBalance b w = w\<lparr>wbalance := b\<rparr>"

definition setNonce :: "int \<Rightarrow> wallet \<Rightarrow> wallet" where
  "setNonce n w = w\<lparr>wnonce := n\<rparr>"

definition increaseBalance :: "int \<Rightarrow> wallet \<Rightarrow> wallet" where
  "increaseBalance b w = setBalance (wbalance w + b) w"

definition decreaseBalance :: "int \<Rightarrow> wallet \<Rightarrow> wallet" where
  "decreaseBalance b w = setBalance (wbalance w - b) w"

definition increaseNonce :: "wallet \<Rightarrow> wallet" where
  "increaseNonce w = setNonce (wnonce w + 1) w"

definition decreaseNonce :: "wallet \<Rightarrow> wallet" where
  "decreaseNonce w = setNonce (wnonce w - 1) w"

definition isValidator :: "wallet \<Rightarrow> bool" where
  "isValidator w \<longleftrightarrow> wvalidator w \<noteq> None"

definition hasVoted :: "wallet \<Rightarrow> bool" where
  "hasVoted w \<longleftrightarrow> wvote w \<noteq> None"

definition hasMultiSignature :: "wallet \<Rightarrow> bool" where
  "hasMultiSignature w \<longleftrightarrow> wmultiSignature w \<noteq> None"

text \<open>
  \<open>setAttribute("validator.x", v)\<close> creates the \<open>validator\<close> object when it is missing;
  \<open>forgetAttribute("validator.x")\<close> does not.
\<close>

definition setValidatorAttr :: "(validator_attrs \<Rightarrow> validator_attrs) \<Rightarrow> wallet \<Rightarrow> wallet" where
  "setValidatorAttr f w =
     w\<lparr>wvalidator := Some (f (case wvalidator w of None \<Rightarrow> noValidator | Some v \<Rightarrow> v))\<rparr>"

definition forgetValidatorAttr :: "(validator_attrs \<Rightarrow> validator_attrs) \<Rightarrow> wallet \<Rightarrow> wallet" where
  "forgetValidatorAttr f w = w\<lparr>wvalidator := map_option f (wvalidator w)\<rparr>"

definition validatorAttr :: "(validator_attrs \<Rightarrow> 'a option) \<Rightarrow> wallet \<Rightarrow> 'a option" where
  "validatorAttr f w = Option.bind (wvalidator w) f"

definition hasResigned :: "wallet \<Rightarrow> bool" where
  "hasResigned w \<longleftrightarrow> (case wvalidator w of None \<Rightarrow> False | Some v \<Rightarrow> va_resigned v)"

definition setVoteBalance :: "int \<Rightarrow> wallet \<Rightarrow> wallet" where
  "setVoteBalance b = setValidatorAttr (\<lambda>v. v\<lparr>va_voteBalance := Some b\<rparr>)"

lemmas wallet_ops = setPublicKey_def setBalance_def setNonce_def increaseBalance_def
  decreaseBalance_def increaseNonce_def decreaseNonce_def setValidatorAttr_def
  forgetValidatorAttr_def setVoteBalance_def

section \<open>Known attributes (attribute-set.ts, attribute-map.ts)\<close>

text \<open>
  Every access first asserts that the key is known; the keys are those the handlers list.
\<close>

definition registrationAttributes :: "string list" where
  "registrationAttributes = [''validator.rank'', ''validator.round'', ''validator.username'',
     ''validator.voteBalance'', ''validator'']"

definition resignationAttributes :: "string list" where
  "resignationAttributes = [''validator.resigned'']"

definition voteAttributes :: "string list" where
  "voteAttributes = [''vote'']"

definition multiSignatureAttributes :: "string list" where
  "multiSignatureAttributes = [''multiSignature'']"

definition as_set :: "string \<Rightarrow> string list \<Rightarrow> (error + string list)" where
  "as_set k ks = (if k \<in> set ks then Inl AssertionException else Inr (ks @ [k]))"

definition as_forget :: "string \<Rightarrow> string list \<Rightarrow> (error + string list)" where
  "as_forget k ks = (if k \<in> set ks then Inr (js_delete k ks) else Inl AssertionException)"

text \<open>\<open>registerHandlers\<close> adds the attributes that are not there yet.\<close>

definition addAttributes :: "string list \<Rightarrow> string list \<Rightarrow> string list" where
  "addAttributes new ks = fold js_add new ks"

definition knownAttributes :: "string list" where
  "knownAttributes = fold addAttributes
     [registrationAttributes, resignationAttributes, voteAttributes, multiSignatureAttributes] []"

text \<open>
  \<open>hasAttribute\<close> on a raw attribute object (a set of present paths): unknown keys throw.
\<close>

definition am_has :: "string list \<Rightarrow> string list \<Rightarrow> string \<Rightarrow> error + bool" where
  "am_has known present k =
     (if k \<in> set known then Inr (k \<in> set present) else Inl AssertionException)"

section \<open>WalletIndex (wallet-index.ts)\<close>

record windex =
  walletByKey :: "(string, nat) jsmap"
  keysByWallet :: "(nat, string list) jsmap"

definition ix_new :: windex where
  "ix_new = \<lparr>walletByKey = [], keysByWallet = []\<rparr>"

definition ix_keys :: "windex \<Rightarrow> string list" where
  "ix_keys i = jm_keys (walletByKey i)"

definition ix_values :: "windex \<Rightarrow> nat list" where
  "ix_values i = jm_values (walletByKey i)"

definition ix_walletKeys :: "windex \<Rightarrow> nat \<Rightarrow> string list" where
  "ix_walletKeys i r = (case jm_get (keysByWallet i) r of None \<Rightarrow> [] | Some ks \<Rightarrow> ks)"

definition ix_has :: "windex \<Rightarrow> string \<Rightarrow> bool" where
  "ix_has i k = jm_has (walletByKey i) k"

definition ix_get :: "windex \<Rightarrow> string \<Rightarrow> nat option" where
  "ix_get i k = jm_get (walletByKey i) k"

text \<open>\<open>existingKeys.delete(key)\<close>: the key set is mutated in place, and stays when it empties.\<close>

definition dropKey :: "string \<Rightarrow> nat \<Rightarrow> (nat, string list) jsmap \<Rightarrow> (nat, string list) jsmap" where
  "dropKey k r m = (case jm_get m r of None \<Rightarrow> m | Some ks \<Rightarrow> jm_set r (js_delete k ks) m)"

definition ix_set :: "string \<Rightarrow> nat \<Rightarrow> windex \<Rightarrow> windex" where
  "ix_set k r i =
     (let kbw = (case jm_get (walletByKey i) k of
                   None \<Rightarrow> keysByWallet i
                 | Some old \<Rightarrow> dropKey k old (keysByWallet i))
      in \<lparr>walletByKey = jm_set k r (walletByKey i),
          keysByWallet = (case jm_get kbw r of
                            Some ks \<Rightarrow> jm_set r (js_add k ks) kbw
                          | None \<Rightarrow> jm_set r [k] kbw)\<rparr>)"

definition ix_forget :: "string \<Rightarrow> windex \<Rightarrow> windex" where
  "ix_forget k i =
     (case jm_get (walletByKey i) k of
        None \<Rightarrow> i
      | Some r \<Rightarrow> \<lparr>walletByKey = jm_delete k (walletByKey i),
                   keysByWallet = dropKey k r (keysByWallet i)\<rparr>)"

definition ix_forgetWallet :: "nat \<Rightarrow> windex \<Rightarrow> windex" where
  "ix_forgetWallet r i =
     (case jm_get (keysByWallet i) r of
        None \<Rightarrow> i
      | Some ks \<Rightarrow> \<lparr>walletByKey = fold jm_delete ks (walletByKey i),
                    keysByWallet = jm_delete r (keysByWallet i)\<rparr>)"

definition ix_clear :: "windex \<Rightarrow> windex" where
  "ix_clear i = ix_new"

text \<open>The two maps describe one relation between keys and wallets.\<close>

definition ix_inv :: "windex \<Rightarrow> bool" where
  "ix_inv i \<longleftrightarrow> jm_inv (walletByKey i) \<and> jm_inv (keysByWallet i) \<and>
     (\<forall>k r. ix_get i k = Some r \<longleftrightarrow> k \<in> set (ix_walletKeys i r)) \<and>
     (\<forall>r. distinct (ix_walletKeys i r))"

lemma ix_inv_new: "ix_inv ix_new"
  by (simp add: ix_inv_def ix_new_def ix_get_def ix_walletKeys_def)

lemma ix_invD: "ix_inv i \<Longrightarrow> ix_get i k = Some r \<longleftrightarrow> k \<in> set (ix_walletKeys i r)"
  by (simp add: ix_inv_def)

lemma ix_has_get: "ix_has i k \<longleftrightarrow> ix_get i k \<noteq> None"
  by (simp add: ix_has_def ix_get_def jm_has_def)

lemma ix_get_set [simp]: "ix_get (ix_set k r i) k' = (if k' = k then Some r else ix_get i k')"
  by (simp add: ix_get_def ix_set_def Let_def)

lemma jm_get_dropKey [simp]:
  "jm_get (dropKey k old m) r = (if r = old then map_option (js_delete k) (jm_get m r) else jm_get m r)"
  by (auto simp: dropKey_def split: option.splits)

lemma jm_inv_dropKey: "jm_inv m \<Longrightarrow> jm_inv (dropKey k r m)"
  by (auto simp: dropKey_def split: option.splits)

lemma walletKeys_set:
  "ix_walletKeys (ix_set k r i) r' =
     (let ks = (if ix_get i k = Some r' then js_delete k (ix_walletKeys i r') else ix_walletKeys i r')
      in if r' = r then js_add k ks else ks)"
  by (cases "jm_get (walletByKey i) k"; cases "jm_get (keysByWallet i) r")
    (auto simp: ix_walletKeys_def ix_set_def ix_get_def js_add_def js_delete_def split: option.split)

lemma ix_inv_set: assumes "ix_inv i" shows "ix_inv (ix_set k r i)"
proof -
  have maps: "jm_inv (walletByKey (ix_set k r i))" "jm_inv (keysByWallet (ix_set k r i))"
    using assms by (auto simp: ix_inv_def ix_set_def Let_def jm_inv_dropKey split: option.splits)
  have "ix_get (ix_set k r i) k' = Some r' \<longleftrightarrow> k' \<in> set (ix_walletKeys (ix_set k r i) r')" for k' r'
    using assms ix_invD[OF assms] by (auto simp: walletKeys_set Let_def)
  moreover have "distinct (ix_walletKeys (ix_set k r i) r')" for r'
    using assms by (auto simp: walletKeys_set Let_def ix_inv_def)
  ultimately show ?thesis using maps by (simp add: ix_inv_def)
qed

lemma ix_get_forget [simp]: "ix_get (ix_forget k i) k' = (if k' = k then None else ix_get i k')"
  by (auto simp: ix_get_def ix_forget_def split: option.splits)

lemma walletKeys_forget:
  "ix_walletKeys (ix_forget k i) r =
     (if ix_get i k = Some r then js_delete k (ix_walletKeys i r) else ix_walletKeys i r)"
  by (cases "jm_get (walletByKey i) k")
    (auto simp: ix_walletKeys_def ix_forget_def ix_get_def js_delete_def split: option.split)

lemma ix_inv_forget: assumes "ix_inv i" shows "ix_inv (ix_forget k i)"
proof -
  have maps: "jm_inv (walletByKey (ix_forget k i))" "jm_inv (keysByWallet (ix_forget k i))"
    using assms by (auto simp: ix_inv_def ix_forget_def jm_inv_dropKey split: option.splits)
  have "ix_get (ix_forget k i) k' = Some r' \<longleftrightarrow> k' \<in> set (ix_walletKeys (ix_forget k i) r')" for k' r'
    using ix_invD[OF assms] by (auto simp: walletKeys_forget)
  moreover have "distinct (ix_walletKeys (ix_forget k i) r')" for r'
    using assms by (auto simp: walletKeys_forget ix_inv_def)
  ultimately show ?thesis using maps by (simp add: ix_inv_def)
qed

lemma jm_get_fold_delete:
  "jm_get (fold jm_delete ks m) k = (if k \<in> set ks then None else jm_get m k)"
  by (induction ks arbitrary: m) auto

lemma jm_inv_fold_delete: "jm_inv m \<Longrightarrow> jm_inv (fold jm_delete ks m)"
  by (induction ks arbitrary: m) auto

lemma walletKeys_forgetWallet:
  "ix_walletKeys (ix_forgetWallet r i) r' = (if r' = r then [] else ix_walletKeys i r')"
  by (auto simp: ix_walletKeys_def ix_forgetWallet_def split: option.splits)

lemma ix_get_forgetWallet:
  "ix_get (ix_forgetWallet r i) k = (if k \<in> set (ix_walletKeys i r) then None else ix_get i k)"
  by (auto simp: ix_get_def ix_forgetWallet_def ix_walletKeys_def jm_get_fold_delete
      split: option.splits)

lemma ix_inv_forgetWallet: assumes "ix_inv i" shows "ix_inv (ix_forgetWallet r i)"
proof -
  have maps: "jm_inv (walletByKey (ix_forgetWallet r i))" "jm_inv (keysByWallet (ix_forgetWallet r i))"
    using assms by (auto simp: ix_inv_def ix_forgetWallet_def jm_inv_fold_delete split: option.splits)
  have "ix_get (ix_forgetWallet r i) k' = Some r' \<longleftrightarrow> k' \<in> set (ix_walletKeys (ix_forgetWallet r i) r')"
    for k' r'
    using ix_invD[OF assms, of k' r'] ix_invD[OF assms, of k' r]
    by (auto simp: walletKeys_forgetWallet ix_get_forgetWallet)
  moreover have "distinct (ix_walletKeys (ix_forgetWallet r i) r')" for r'
    using assms by (auto simp: walletKeys_forgetWallet ix_inv_def)
  ultimately show ?thesis using maps by (simp add: ix_inv_def)
qed

lemma ix_forgetWallet_unreachable:
  assumes "ix_inv i" shows "ix_get (ix_forgetWallet r i) k \<noteq> Some r"
  using ix_invD[OF assms, of k r] by (simp add: ix_get_forgetWallet)

text \<open>
  The interface the repositories rely on: an index is a partial map from keys to wallets with
  updates at one key, plus the removal of every key of one wallet.
\<close>

locale wallet_index =
  fixes put :: "string \<Rightarrow> nat \<Rightarrow> 'i \<Rightarrow> 'i"
    and del :: "string \<Rightarrow> 'i \<Rightarrow> 'i"
    and delWallet :: "nat \<Rightarrow> 'i \<Rightarrow> 'i"
    and look :: "'i \<Rightarrow> string \<Rightarrow> nat option"
    and inv :: "'i \<Rightarrow> bool"
  assumes inv_put: "inv i \<Longrightarrow> inv (put k r i)"
    and inv_del: "inv i \<Longrightarrow> inv (del k i)"
    and inv_delWallet: "inv i \<Longrightarrow> inv (delWallet r i)"
    and look_put: "look (put k r i) k' = (if k' = k then Some r else look i k')"
    and look_del: "look (del k i) k' = (if k' = k then None else look i k')"
    and look_delWallet: "inv i \<Longrightarrow>
      look (delWallet r i) k = (if look i k = Some r then None else look i k)"
begin

text \<open>Re-indexing a wallet under one key leaves that key as the only one that finds it.\<close>

lemma reindex_look:
  assumes "inv i"
  shows "look (put k r (delWallet r i)) k' =
    (if k' = k then Some r else if look i k' = Some r then None else look i k')"
  using assms by (simp add: look_put look_delWallet)

lemma reindex_unique:
  assumes "inv i" and "look (put k r (delWallet r i)) k' = Some r" shows "k' = k"
  using assms by (auto simp: reindex_look split: if_splits)

lemma reindex_inv: "inv i \<Longrightarrow> inv (put k r (delWallet r i))"
  by (simp add: inv_put inv_delWallet)

end

interpretation windex: wallet_index ix_set ix_forget ix_forgetWallet ix_get ix_inv
proof unfold_locales
  fix i :: windex and r k
  assume "ix_inv i"
  then show "ix_get (ix_forgetWallet r i) k = (if ix_get i k = Some r then None else ix_get i k)"
    using ix_invD by (auto simp: ix_get_forgetWallet)
qed (simp_all add: ix_inv_set ix_inv_forget ix_inv_forgetWallet)

end
