(* ===== verification/Repository.thy ===== *)
theory Repository
  imports Wallets
begin

text \<open>
  The wallet repositories: \<open>WalletRepository\<close>, \<open>WalletRepositoryClone\<close> and
  \<open>WalletRepositoryCopyOnWrite\<close> of packages/core-state/source/wallets. One state holds the heap
  of wallets and, per repository, one index per index name. The plain operations take the
  repository they run on; the derived ones are those the clone and the copy override. The address
  of a public key is a parameter (the address factory is a package of its own and may throw).
\<close>

section \<open>State\<close>

datatype index_name = Addresses | PublicKeys | Usernames | Resignations

text \<open>The blockchain repository, a copy (clone or copy-on-write) and the clone's forget indexes.\<close>

datatype repo_id = Chain | Copy | Forgets

definition allIndexes :: "index_name list" where
  "allIndexes = [Addresses, PublicKeys, Usernames, Resignations]"

record wstate =
  objs :: "nat \<Rightarrow> wallet"
  nextRef :: nat
  idx :: "repo_id \<Rightarrow> index_name \<Rightarrow> windex"

type_synonym 'a wprog = "(wstate, error, 'a) prog"

definition emptyState :: wstate where
  "emptyState = \<lparr>objs = (\<lambda>_. newWallet ''''), nextRef = 0, idx = (\<lambda>_ _. ix_new)\<rparr>"

definition wal :: "nat \<Rightarrow> wallet wprog" where
  "wal r = reads (\<lambda>s. objs s r)"

definition updW :: "nat \<Rightarrow> (wallet \<Rightarrow> wallet) \<Rightarrow> unit wprog" where
  "updW r f = modify (\<lambda>s. s\<lparr>objs := (objs s)(r := f (objs s r))\<rparr>)"

definition onIndex :: "repo_id \<Rightarrow> index_name \<Rightarrow> (windex \<Rightarrow> windex) \<Rightarrow> unit wprog" where
  "onIndex rp n f = modify (\<lambda>s. s\<lparr>idx := (idx s)(rp := (idx s rp)(n := f (idx s rp n)))\<rparr>)"

definition lookup :: "wstate \<Rightarrow> repo_id \<Rightarrow> index_name \<Rightarrow> string \<Rightarrow> nat option" where
  "lookup s rp n k = ix_get (idx s rp n) k"

section \<open>WalletRepository (wallet-repository.ts)\<close>

definition alloc :: "wallet \<Rightarrow> nat wprog" where
  "alloc w = (\<lambda>s. (Inr (nextRef s),
     s\<lparr>objs := (objs s)(nextRef s := w), nextRef := Suc (nextRef s)\<rparr>))"

definition createWallet :: "string \<Rightarrow> nat wprog" where
  "createWallet a = alloc (newWallet a)"

definition setOnIndex :: "repo_id \<Rightarrow> index_name \<Rightarrow> string \<Rightarrow> nat \<Rightarrow> unit wprog" where
  "setOnIndex rp n k r = onIndex rp n (ix_set k r)"

definition forgetOnIndex :: "repo_id \<Rightarrow> index_name \<Rightarrow> string \<Rightarrow> unit wprog" where
  "forgetOnIndex rp n k = onIndex rp n (ix_forget k)"

definition hasByIndex :: "repo_id \<Rightarrow> index_name \<Rightarrow> string \<Rightarrow> bool wprog" where
  "hasByIndex rp n k = reads (\<lambda>s. ix_has (idx s rp n) k)"

definition hasByAddress :: "repo_id \<Rightarrow> string \<Rightarrow> bool wprog" where
  "hasByAddress rp = hasByIndex rp Addresses"

definition hasByPublicKey :: "repo_id \<Rightarrow> string \<Rightarrow> bool wprog" where
  "hasByPublicKey rp = hasByIndex rp PublicKeys"

definition hasByUsername :: "repo_id \<Rightarrow> string \<Rightarrow> bool wprog" where
  "hasByUsername rp = hasByIndex rp Usernames"

definition hasAny :: "repo_id \<Rightarrow> string \<Rightarrow> bool wprog" where
  "hasAny rp k = reads (\<lambda>s. list_ex (\<lambda>n. ix_has (idx s rp n) k) allIndexes)"

definition allByIndex :: "repo_id \<Rightarrow> index_name \<Rightarrow> nat list wprog" where
  "allByIndex rp n = reads (\<lambda>s. ix_values (idx s rp n))"

definition findByAddress :: "repo_id \<Rightarrow> string \<Rightarrow> nat wprog" where
  "findByAddress rp a =
     andThen (hasByIndex rp Addresses a) (\<lambda>h.
     andThen (whenever (a \<noteq> '''' \<and> \<not> h)
                (andThen (createWallet a) (setOnIndex rp Addresses a))) (\<lambda>_.
     andThen (reads (\<lambda>s. lookup s rp Addresses a)) (defined AssertionException)))"

definition findByPublicKey :: "(string \<Rightarrow> error + string) \<Rightarrow> repo_id \<Rightarrow> string \<Rightarrow> nat wprog" where
  "findByPublicKey addressOf rp k =
     andThen (hasByIndex rp PublicKeys k) (\<lambda>h.
     andThen (whenever (k \<noteq> '''' \<and> \<not> h)
                (andThen (liftE (addressOf k)) (\<lambda>a.
                 andThen (findByAddress rp a) (\<lambda>r.
                 andThen (updW r (setPublicKey k)) (\<lambda>_.
                 setOnIndex rp PublicKeys k r))))) (\<lambda>_.
     andThen (reads (\<lambda>s. lookup s rp PublicKeys k)) (defined AssertionException)))"

definition findByIndex :: "repo_id \<Rightarrow> index_name \<Rightarrow> string \<Rightarrow> nat wprog" where
  "findByIndex rp n k =
     andThen (hasByIndex rp n k) (\<lambda>h.
     andThen (throwIf (\<not> h) (PlainError ''Wallet doesn't exist in index'')) (\<lambda>_.
     andThen (reads (\<lambda>s. lookup s rp n k)) (defined JsTypeError)))"

fun findByIndexes :: "repo_id \<Rightarrow> index_name list \<Rightarrow> string \<Rightarrow> nat wprog" where
  "findByIndexes rp [] k = throw (PlainError ''Wallet doesn't exist in indexes'')"
| "findByIndexes rp (n # ns) k =
     andThen (hasByIndex rp n k) (\<lambda>h. if h then findByIndex rp n k else findByIndexes rp ns k)"

definition getNonce :: "(string \<Rightarrow> error + string) \<Rightarrow> repo_id \<Rightarrow> string \<Rightarrow> int wprog" where
  "getNonce addressOf rp k =
     andThen (hasByPublicKey rp k) (\<lambda>h.
     if h then andThen (findByPublicKey addressOf rp k) (\<lambda>r. andThen (wal r) (\<lambda>w. ret (wnonce w)))
     else ret 0)"

text \<open>
  The indexers (indexers.ts). A validator without a username makes \<open>getAttribute\<close> throw.
\<close>

fun indexer :: "repo_id \<Rightarrow> index_name \<Rightarrow> nat \<Rightarrow> unit wprog" where
  "indexer rp Addresses r = andThen (wal r) (\<lambda>w.
     whenever (waddress w \<noteq> '''') (setOnIndex rp Addresses (waddress w) r))"
| "indexer rp PublicKeys r = andThen (wal r) (\<lambda>w.
     case wpublicKey w of None \<Rightarrow> ret ()
     | Some k \<Rightarrow> whenever (k \<noteq> '''') (setOnIndex rp PublicKeys k r))"
| "indexer rp Usernames r = andThen (wal r) (\<lambda>w.
     whenever (isValidator w)
       (andThen (defined AssertionException (validatorAttr va_username w))
         (\<lambda>u. setOnIndex rp Usernames u r)))"
| "indexer rp Resignations r = andThen (wal r) (\<lambda>w.
     whenever (isValidator w \<and> hasResigned w)
       (andThen (defined AssertionException (validatorAttr va_username w))
         (\<lambda>u. setOnIndex rp Resignations u r)))"

definition indexWallet :: "repo_id \<Rightarrow> nat \<Rightarrow> unit wprog" where
  "indexWallet rp r = forEach (\<lambda>n.
     andThen (onIndex rp n (ix_forgetWallet r)) (\<lambda>_. indexer rp n r)) allIndexes"

definition indexAll :: "repo_id \<Rightarrow> nat list \<Rightarrow> unit wprog" where
  "indexAll rp = forEach (indexWallet rp)"

definition resetRepo :: "repo_id \<Rightarrow> unit wprog" where
  "resetRepo rp = modify (\<lambda>s. s\<lparr>idx := (idx s)(rp := (\<lambda>_. ix_new))\<rparr>)"

text \<open>\<open>cloneWallet\<close>: a copy of the object under every key the origin has for the wallet.\<close>

definition cloneWallet :: "repo_id \<Rightarrow> repo_id \<Rightarrow> nat \<Rightarrow> nat wprog" where
  "cloneWallet origin rp r =
     andThen (wal r) (\<lambda>w.
     andThen (alloc w) (\<lambda>c.
     andThen (forEach (\<lambda>n.
        andThen (reads (\<lambda>s. ix_walletKeys (idx s origin n) r)) (\<lambda>ks.
        forEach (\<lambda>k. setOnIndex rp n k c) ks)) allIndexes) (\<lambda>_.
     ret c)))"

section \<open>WalletRepositoryCopyOnWrite (wallet-repository-copy-on-write.ts)\<close>

definition cow_hasByIndex :: "index_name \<Rightarrow> string \<Rightarrow> bool wprog" where
  "cow_hasByIndex n k =
     andThen (hasByIndex Copy n k) (\<lambda>h.
     if h then ret True
     else andThen (hasByIndex Chain n k) (\<lambda>hc.
       if \<not> hc then ret False
       else andThen (findByIndex Chain n k) (\<lambda>r.
            andThen (cloneWallet Chain Copy r) (\<lambda>_. ret True))))"

definition cow_findByIndex :: "index_name \<Rightarrow> string \<Rightarrow> nat wprog" where
  "cow_findByIndex n k =
     andThen (cow_hasByIndex n k) (\<lambda>h.
     andThen (throwIf (\<not> h) (PlainError ''Wallet doesn't exist in index'')) (\<lambda>_.
     andThen (reads (\<lambda>s. lookup s Copy n k)) (defined JsTypeError)))"

definition cow_findByAddress :: "string \<Rightarrow> nat wprog" where
  "cow_findByAddress a =
     andThen (if a = '''' then ret True else cow_hasByIndex Addresses a) (\<lambda>h.
     andThen (whenever (a \<noteq> '''' \<and> \<not> h)
        (andThen (findByAddress Chain a) (\<lambda>r.
         andThen (cloneWallet Chain Copy r) (\<lambda>_. ret ())))) (\<lambda>_.
     cow_findByIndex Addresses a))"

text \<open>\<open>findByPublicKey\<close> is inherited: it asks its own index and runs the overridden lookups.\<close>

definition cow_findByPublicKey :: "(string \<Rightarrow> error + string) \<Rightarrow> string \<Rightarrow> nat wprog" where
  "cow_findByPublicKey addressOf k =
     andThen (hasByIndex Copy PublicKeys k) (\<lambda>h.
     andThen (whenever (k \<noteq> '''' \<and> \<not> h)
                (andThen (liftE (addressOf k)) (\<lambda>a.
                 andThen (cow_findByAddress a) (\<lambda>r.
                 andThen (updW r (setPublicKey k)) (\<lambda>_.
                 setOnIndex Copy PublicKeys k r))))) (\<lambda>_.
     andThen (reads (\<lambda>s. lookup s Copy PublicKeys k)) (defined AssertionException)))"

definition cow_allByUsername :: "nat list wprog" where
  "cow_allByUsername =
     andThen (allByIndex Chain Usernames) (\<lambda>rs.
     andThen (forEach (\<lambda>r. andThen (wal r) (\<lambda>w.
        andThen (cow_hasByIndex Addresses (waddress w)) (\<lambda>h.
        whenever (\<not> h) (andThen (cloneWallet Chain Copy r) (\<lambda>_. ret ()))))) rs) (\<lambda>_.
     allByIndex Copy Usernames))"

section \<open>WalletRepositoryClone (wallet-repository-clone.ts)\<close>

definition cl_hasByIndex :: "index_name \<Rightarrow> string \<Rightarrow> bool wprog" where
  "cl_hasByIndex n k = reads (\<lambda>s.
     ix_has (idx s Copy n) k \<or> (ix_has (idx s Chain n) k \<and> \<not> ix_has (idx s Forgets n) k))"

definition cl_has :: "string \<Rightarrow> bool wprog" where
  "cl_has k = reads (\<lambda>s. list_ex (\<lambda>n. fst (cl_hasByIndex n k s) = Inr True) allIndexes)"

text \<open>\<open>indexWallet\<close>: the keys a wallet loses are remembered in the forget index.\<close>

definition cl_indexWallet :: "nat \<Rightarrow> unit wprog" where
  "cl_indexWallet r =
     andThen (reads (\<lambda>s. map (\<lambda>n. (n, ix_walletKeys (idx s Copy n) r)) allIndexes)) (\<lambda>before.
     andThen (indexWallet Copy r) (\<lambda>_.
     forEach (\<lambda>(n, old). andThen (reads (\<lambda>s. ix_walletKeys (idx s Copy n) r)) (\<lambda>now.
       forEach (\<lambda>k. whenever (k \<notin> set now) (setOnIndex Forgets n k r)) old)) before))"

definition cl_findByIndex :: "index_name \<Rightarrow> string \<Rightarrow> nat wprog" where
  "cl_findByIndex n k =
     andThen (hasByIndex Copy n k) (\<lambda>h.
     andThen (whenever (\<not> h)
        (andThen (findByIndex Chain n k) (\<lambda>r. andThen (cloneWallet Chain Copy r) (\<lambda>_. ret ())))) (\<lambda>_.
     andThen (reads (\<lambda>s. lookup s Copy n k)) (defined JsTypeError)))"

text \<open>
  \<open>super.hasByIndex\<close> reads the clone's own index, and \<open>super.findByIndex\<close> (which asks the
  overridden \<open>hasByIndex\<close>, true here) the same one.
\<close>

definition cl_findByAddress :: "string \<Rightarrow> nat wprog" where
  "cl_findByAddress a =
     andThen (hasByIndex Copy Addresses a) (\<lambda>h.
     if h then findByIndex Copy Addresses a
     else
       andThen (hasByAddress Chain a) (\<lambda>hc.
       andThen (if hc then andThen (findByAddress Chain a) (cloneWallet Chain Copy)
                else createWallet a) (\<lambda>r.
       andThen (cl_indexWallet r) (\<lambda>_. ret r))))"

definition cl_findByPublicKey :: "(string \<Rightarrow> error + string) \<Rightarrow> string \<Rightarrow> nat wprog" where
  "cl_findByPublicKey addressOf k =
     andThen (hasByIndex Copy PublicKeys k) (\<lambda>h.
     andThen (whenever (\<not> h)
        (andThen (liftE (addressOf k)) (\<lambda>a.
         andThen (cl_findByAddress a) (\<lambda>r.
         andThen (updW r (setPublicKey k)) (\<lambda>_.
         cl_indexWallet r))))) (\<lambda>_.
     andThen (cl_hasByIndex PublicKeys k) (\<lambda>h2.
     andThen (throwIf (\<not> h2) (PlainError ''Wallet doesn't exist in index'')) (\<lambda>_.
     andThen (reads (\<lambda>s. lookup s Copy PublicKeys k)) (defined JsTypeError)))))"

definition cl_getNonce :: "(string \<Rightarrow> error + string) \<Rightarrow> string \<Rightarrow> int wprog" where
  "cl_getNonce addressOf k =
     andThen (hasByIndex Copy PublicKeys k) (\<lambda>h.
     if h then andThen (cl_findByPublicKey addressOf k) (\<lambda>r. andThen (wal r) (\<lambda>w. ret (wnonce w)))
     else andThen (hasByPublicKey Chain k) (\<lambda>hc.
       if hc then andThen (findByPublicKey addressOf Chain k) (\<lambda>r. andThen (wal r) (\<lambda>w. ret (wnonce w)))
       else ret 0))"

definition cl_forgetOnIndex :: "index_name \<Rightarrow> string \<Rightarrow> unit wprog" where
  "cl_forgetOnIndex n k =
     andThen (reads (\<lambda>s. ix_has (idx s Copy n) k \<or> ix_has (idx s Chain n) k)) (\<lambda>h.
     whenever h
       (andThen (cl_findByIndex n k) (\<lambda>r.
        andThen (forgetOnIndex Copy n k) (\<lambda>_.
        setOnIndex Forgets n k r))))"

definition cl_allByIndex :: "index_name \<Rightarrow> nat list wprog" where
  "cl_allByIndex n =
     andThen (allByIndex Chain n) (\<lambda>rs.
     andThen (forEach (\<lambda>r. andThen (wal r) (\<lambda>w.
        andThen (cl_findByAddress (waddress w)) (\<lambda>_. ret ()))) rs) (\<lambda>_.
     allByIndex Copy n))"

definition cl_reset :: "unit wprog" where
  "cl_reset = andThen (resetRepo Copy) (\<lambda>_. resetRepo Forgets)"

section \<open>The heap invariant and the total balance\<close>

text \<open>
  Every index describes one relation, every reference it holds is allocated, and an address finds
  a wallet with that address.
\<close>

definition repo_ok :: "wstate \<Rightarrow> bool" where
  "repo_ok s \<longleftrightarrow> (\<forall>rp n. ix_inv (idx s rp n)) \<and>
     (\<forall>rp n k r. lookup s rp n k = Some r \<longrightarrow> r < nextRef s) \<and>
     (\<forall>rp k r. lookup s rp Addresses k = Some r \<longrightarrow> waddress (objs s r) = k)"

definition totalBalance :: "wstate \<Rightarrow> int" where
  "totalBalance s = (\<Sum>r<nextRef s. wbalance (objs s r))"

text \<open>The assertion the contracts below carry: invariant, valid references, total balance.\<close>

definition holds :: "nat set \<Rightarrow> int \<Rightarrow> wstate \<Rightarrow> bool" where
  "holds R c s \<longleftrightarrow> repo_ok s \<and> totalBalance s = c \<and> (\<forall>r \<in> R. r < nextRef s)"

lemma holds_weaken: "holds R c s \<Longrightarrow> R' \<subseteq> R \<Longrightarrow> holds R' c s"
  by (auto simp: holds_def)

lemma lookup_onIndex:
  "snd (onIndex rp n f s) = s' \<Longrightarrow>
    lookup s' rp' n' k = (if rp' = rp \<and> n' = n then ix_get (f (idx s rp n)) k else lookup s rp' n' k)"
  by (auto simp: onIndex_def lookup_def)

lemma triple_updW:
  assumes "\<And>w. wbalance (f w) = wbalance w + d" and "\<And>w. waddress (f w) = waddress w" and "r \<in> R"
  shows "triple (holds R c) (updW r f) (\<lambda>_. holds R (c + d)) (\<lambda>_ _. False)"
proof (rule tripleI)
  fix s x s' assume h: "holds R c s" and e: "updW r f s = (Inr x, s')"
  then have s': "s' = s\<lparr>objs := (objs s)(r := f (objs s r))\<rparr>" by (simp add: updW_def)
  have r: "r \<in> {..<nextRef s}" using h assms(3) by (auto simp: holds_def)
  have "totalBalance s' =
      (\<Sum>q<nextRef s. ((\<lambda>q. wbalance (objs s q))(r := wbalance (objs s r) + d)) q)"
    unfolding totalBalance_def s' by (rule sum.cong) (auto simp: assms(1))
  then have "totalBalance s' = totalBalance s + d"
    using sum_fun_upd_nat[OF finite_lessThan r, of "\<lambda>q. wbalance (objs s q)" "wbalance (objs s r) + d"]
    by (simp add: totalBalance_def)
  then show "holds R (c + d) s'"
    using h assms(2) by (auto simp: holds_def repo_ok_def s' lookup_def)
qed (simp add: updW_def)

lemma triple_updW_same:
  assumes "\<And>w. wbalance (f w) = wbalance w" and "\<And>w. waddress (f w) = waddress w" and "r \<in> R"
  shows "triple (holds R c) (updW r f) (\<lambda>_. holds R c) (\<lambda>_ _. False)"
  using triple_updW[of f 0 r R c] assms by simp

lemma triple_setOnIndex:
  assumes "r \<in> R" and "n \<noteq> Addresses"
  shows "triple (holds R c) (setOnIndex rp n k r) (\<lambda>_. holds R c) (\<lambda>_ _. False)"
  using assms
  by (auto simp: triple_def setOnIndex_def onIndex_def holds_def repo_ok_def lookup_def totalBalance_def
      ix_inv_set split: if_splits)

lemma triple_setAddress:
  assumes "r \<in> R"
  shows "triple (\<lambda>s. holds R c s \<and> waddress (objs s r) = k) (setOnIndex rp Addresses k r)
    (\<lambda>_. holds R c) (\<lambda>_ _. False)"
  using assms
  by (auto simp: triple_def setOnIndex_def onIndex_def holds_def repo_ok_def lookup_def totalBalance_def
      ix_inv_set split: if_splits)

lemma triple_forgetKeys:
  "triple (holds R c) (onIndex rp n (ix_forgetWallet r)) (\<lambda>_. holds R c) (\<lambda>_ _. False)"
  by (auto simp: triple_def onIndex_def holds_def repo_ok_def lookup_def totalBalance_def
      ix_inv_forgetWallet ix_get_forgetWallet split: if_splits)

lemma triple_createWallet:
  "triple (holds R c) (createWallet a)
    (\<lambda>r s. holds (insert r R) c s \<and> waddress (objs s r) = a) (\<lambda>_ _. False)"
proof (rule tripleI)
  fix s r s' assume h: "holds R c s" and e: "createWallet a s = (Inr r, s')"
  then have s': "r = nextRef s" "nextRef s' = Suc (nextRef s)" "idx s' = idx s"
    "objs s' = (objs s)(nextRef s := newWallet a)"
    by (auto simp: createWallet_def alloc_def)
  have old: "objs s' q = objs s q" if "lookup s rp n k = Some q" for rp n k q
  proof -
    have "q < nextRef s" using h that by (simp add: holds_def repo_ok_def)
    then show ?thesis by (simp add: s'(4))
  qed
  have "lookup s' rp n k = lookup s rp n k" for rp n k
    by (simp add: lookup_def s'(3))
  moreover have "totalBalance s' = totalBalance s"
    by (simp add: totalBalance_def s' newWallet_def)
  ultimately show "holds (insert r R) c s' \<and> waddress (objs s' r) = a"
    using h old s' by (auto simp: holds_def repo_ok_def newWallet_def less_Suc_eq)
qed (simp add: createWallet_def alloc_def)

lemma triple_lookup:
  "triple (holds R c) (andThen (reads (\<lambda>s. lookup s rp n k)) (defined e))
    (\<lambda>r. holds (insert r R) c) (\<lambda>_. holds R c)"
proof (rule tripleI)
  fix s x s' assume "holds R c s" "andThen (reads (\<lambda>s. lookup s rp n k)) (defined e) s = (Inr x, s')"
  then show "holds (insert x R) c s'"
    by (cases "lookup s rp n k") (auto simp: holds_def repo_ok_def)
next
  fix s e' s' assume "holds R c s" "andThen (reads (\<lambda>s. lookup s rp n k)) (defined e) s = (Inl e', s')"
  then show "holds R c s'" by (cases "lookup s rp n k") auto
qed

lemma triple_hasByIndex:
  "triple (holds R c) (hasByIndex rp n k) (\<lambda>_. holds R c) (\<lambda>_ _. False)"
  by (simp add: triple_def hasByIndex_def)

lemma triple_noError: "triple P m Q (\<lambda>_ _. False) \<Longrightarrow> triple P m Q E"
  by (erule triple_conseq) auto

lemma triple_findByAddress:
  "triple (holds R c) (findByAddress rp a) (\<lambda>r. holds (insert r R) c) (\<lambda>_. holds R c)"
proof -
  have new: "triple (holds R c) (andThen (createWallet a) (setOnIndex rp Addresses a))
      (\<lambda>_. holds R c) (\<lambda>_. holds R c)"
  proof (rule triple_andThen[OF triple_noError[OF triple_createWallet]])
    fix r show "triple (\<lambda>s. holds (insert r R) c s \<and> waddress (objs s r) = a)
        (setOnIndex rp Addresses a r) (\<lambda>_. holds R c) (\<lambda>_. holds R c)"
      by (rule triple_conseq[OF triple_setAddress[of r "insert r R" c a rp]])
        (auto intro: holds_weaken)
  qed
  show ?thesis unfolding findByAddress_def
    by (rule triple_andThen[OF triple_noError[OF triple_hasByIndex]],
        rule triple_andThen[OF triple_whenever], rule new, assumption, rule triple_lookup)
qed

lemma triple_findByPublicKey:
  "triple (holds R c) (findByPublicKey f rp k) (\<lambda>r. holds (insert r R) c) (\<lambda>_. holds R c)"
proof -
  have link: "triple (holds (insert r R) c)
      (andThen (updW r (setPublicKey k)) (\<lambda>_. setOnIndex rp PublicKeys k r))
      (\<lambda>_. holds R c) (\<lambda>_. holds R c)" for r
    by (rule triple_andThen[OF triple_noError[OF triple_updW_same]])
      (auto simp: setPublicKey_def intro: holds_weaken
        triple_conseq[OF triple_setOnIndex[of r "insert r R" PublicKeys c rp k]])
  have new: "triple (holds R c)
      (andThen (liftE (f k)) (\<lambda>a. andThen (findByAddress rp a) (\<lambda>r.
        andThen (updW r (setPublicKey k)) (\<lambda>_. setOnIndex rp PublicKeys k r))))
      (\<lambda>_. holds R c) (\<lambda>_. holds R c)"
    by (rule triple_andThen[of _ _ "\<lambda>_. holds R c"])
      (auto intro!: triple_liftE triple_andThen[OF triple_findByAddress link])
  show ?thesis unfolding findByPublicKey_def
    by (rule triple_andThen[OF triple_noError, of _ _ "\<lambda>_. holds R c"])
      (auto simp: hasByPublicKey_def triple_hasByIndex
        intro!: triple_andThen[OF triple_whenever triple_lookup] new)
qed


text \<open>Indexing a wallet keeps the invariant, the references and the total balance.\<close>

lemma triple_wal:
  "triple (holds R c) (wal r) (\<lambda>w s. holds R c s \<and> w = objs s r) (\<lambda>_ _. False)"
  by (simp add: triple_def wal_def)

lemma triple_wal_any: "triple (holds R c) (wal r) (\<lambda>_. holds R c) E"
  by (simp add: triple_def wal_def)

lemma triple_indexer:
  assumes "r \<in> R" shows "triple (holds R c) (indexer rp n r) (\<lambda>_. holds R c) (\<lambda>_. holds R c)"
proof (cases n)
  case Addresses
  have "triple (\<lambda>s. holds R c s \<and> w = objs s r) (setOnIndex rp Addresses (waddress w) r)
      (\<lambda>_. holds R c) (\<lambda>_. holds R c)" for w
    using triple_noError[OF triple_setAddress[OF assms, of c "waddress w" rp]]
    by (rule triple_pre) auto
  then show ?thesis using Addresses
    by (auto intro!: triple_andThen[OF triple_noError[OF triple_wal]] triple_whenever)
next
  case PublicKeys
  then show ?thesis
    using triple_noError[OF triple_setOnIndex[OF assms]]
    by (auto intro!: triple_andThen[OF triple_wal_any] triple_whenever triple_ret split: option.splits)
qed (use triple_noError[OF triple_setOnIndex[OF assms]] in
    \<open>auto intro!: triple_andThen[OF triple_wal_any] triple_whenever triple_andThen[of _ _ "\<lambda>_. holds R c"]
       triple_defined\<close>)

lemma triple_indexWallet:
  assumes "r \<in> R" shows "triple (holds R c) (indexWallet rp r) (\<lambda>_. holds R c) (\<lambda>_. holds R c)"
  unfolding indexWallet_def
  by (rule triple_forEach, rule triple_andThen[OF triple_noError[OF triple_forgetKeys]],
      rule triple_indexer[OF assms])

text \<open>Looking up an indexed wallet returns it and changes nothing.\<close>

lemma findByAddress_known [simp]:
  "lookup s rp Addresses a = Some r \<Longrightarrow> findByAddress rp a s = (Inr r, s)"
  by (simp add: findByAddress_def hasByIndex_def andThen_def lookup_def ix_has_get)

lemma findByPublicKey_known [simp]:
  "lookup s rp PublicKeys k = Some r \<Longrightarrow> findByPublicKey f rp k s = (Inr r, s)"
  by (simp add: findByPublicKey_def hasByPublicKey_def hasByIndex_def andThen_def lookup_def ix_has_get)

lemma lookup_objs [simp]: "lookup (s\<lparr>objs := h\<rparr>) = lookup s"
  by (simp add: lookup_def fun_eq_iff)

lemma updW_apply [simp]: "updW r f s = (Inr (), s\<lparr>objs := (objs s)(r := f (objs s r))\<rparr>)"
  by (simp add: updW_def)

lemma wal_apply [simp]: "wal r s = (Inr (objs s r), s)"
  by (simp add: wal_def)

text \<open>An unknown address gets a fresh, empty wallet under that address; the empty one fails.\<close>

lemma findByAddress_fresh:
  assumes "lookup s rp Addresses a = None" and "a \<noteq> ''''"
  shows "\<exists>s'. findByAddress rp a s = (Inr (nextRef s), s') \<and> nextRef s' = Suc (nextRef s) \<and>
    objs s' = (objs s)(nextRef s := newWallet a) \<and> lookup s' rp Addresses a = Some (nextRef s)"
  using assms
  by (simp add: findByAddress_def hasByIndex_def andThen_def lookup_def ix_has_get createWallet_def
      alloc_def setOnIndex_def onIndex_def)

lemma findByAddress_empty:
  "lookup s rp Addresses '''' = None \<Longrightarrow> findByAddress rp '''' s = (Inl AssertionException, s)"
  by (simp add: findByAddress_def hasByIndex_def andThen_def lookup_def ix_has_get)

lemma getNonce_unknown:
  "lookup s rp PublicKeys k = None \<Longrightarrow> getNonce f rp k s = (Inr 0, s)"
  by (simp add: getNonce_def hasByPublicKey_def hasByIndex_def andThen_def lookup_def ix_has_get)

lemma getNonce_known:
  "lookup s rp PublicKeys k = Some r \<Longrightarrow> getNonce f rp k s = (Inr (wnonce (objs s r)), s)"
  by (simp add: getNonce_def hasByPublicKey_def hasByIndex_def andThen_def lookup_def[symmetric]
      ix_has_get)

lemma repo_ok_empty: "repo_ok emptyState \<and> totalBalance emptyState = 0"
proof -
  have "ix_get ix_new k = None" for k by (simp add: ix_get_def ix_new_def)
  then show ?thesis by (simp add: repo_ok_def emptyState_def ix_inv_new lookup_def totalBalance_def)
qed

end
