(* ===== verification/Handlers.thy ===== *)
theory Handlers
  imports Repository
begin

text \<open>
  The transaction handlers: the base class of packages/core-transactions/source/handlers and the
  six core types (core-crypto-transaction-transfer, -multi-payment, -validator-registration,
  -validator-resignation, -vote, -multi-signature-registration), run on the blockchain
  repository. A datatype names the handler a call is dispatched on; each method is one definition
  with a branch per override. Cryptography, the address of a key and the pool's contents are
  fields of an environment record, for they live in other packages.
\<close>

section \<open>Environment\<close>

record env =
  e_address :: "string \<Rightarrow> error + string"
  e_multiSigKey :: "multisig_asset \<Rightarrow> error + string"
  e_multiSigAddress :: "multisig_asset \<Rightarrow> string"
  e_validAddress :: "string \<Rightarrow> bool"
  e_verifyHash :: "txdata \<Rightarrow> bool"
  e_verifySignatures :: "txdata \<Rightarrow> multisig_asset \<Rightarrow> bool"
  e_activeValidators :: int
  e_poolAll :: "transaction list"
  e_poolBySender :: "string \<Rightarrow> transaction list"

definition byKey :: "env \<Rightarrow> string \<Rightarrow> nat wprog" where
  "byKey E k = findByPublicKey (e_address E) Chain k"

definition byAddress :: "string \<Rightarrow> nat wprog" where
  "byAddress a = findByAddress Chain a"

text \<open>The sender: \<open>assert.defined(senderPublicKey)\<close> and the lookup.\<close>

definition senderOf :: "env \<Rightarrow> txdata \<Rightarrow> nat wprog" where
  "senderOf E d = andThen (defined AssertionException (senderPublicKey d)) (byKey E)"

section \<open>The base class (handlers/transaction.ts)\<close>

datatype handler = Transfer | ValidatorRegistration | Vote | MultiSignature | MultiPayment
  | ValidatorResignation

definition nonceOf :: "txdata \<Rightarrow> int" where
  "nonceOf d = (case nonce d of None \<Rightarrow> 0 | Some n \<Rightarrow> n)"

definition verifyTransactionNonceApply :: "wallet \<Rightarrow> txdata \<Rightarrow> unit wprog" where
  "verifyTransactionNonceApply w d =
     throwIf (wnonce w + 1 \<noteq> nonceOf d)
       (CryptoError (UnexpectedNonceError (nonceOf d) (wnonce w) False))"

definition verifyTransactionNonceRevert :: "wallet \<Rightarrow> txdata \<Rightarrow> unit wprog" where
  "verifyTransactionNonceRevert w d =
     throwIf (wnonce w \<noteq> nonceOf d)
       (CryptoError (UnexpectedNonceError (nonceOf d) (wnonce w) True))"

text \<open>
  \<open>verifySignatures\<close> returns a promise; \<open>verify\<close> awaits it, the guard below does not.
\<close>

definition verifySignatures :: "env \<Rightarrow> wallet \<Rightarrow> txdata \<Rightarrow> multisig_asset option \<Rightarrow> error + bool" where
  "verifySignatures E w d ms =
     (case ms of Some m \<Rightarrow> Inr (e_verifySignatures E d m)
      | None \<Rightarrow> (case wmultiSignature w of None \<Rightarrow> Inl AssertionException
                 | Some m \<Rightarrow> Inr (e_verifySignatures E d m)))"

definition handlerVerify :: "env \<Rightarrow> transaction \<Rightarrow> bool wprog" where
  "handlerVerify E t =
     andThen (senderOf E (data t)) (\<lambda>r.
     andThen (wal r) (\<lambda>w.
     if hasMultiSignature w then liftE (verifySignatures E w (data t) None)
     else ret (e_verifyHash E (data t))))"

text \<open>\<open>!promise\<close> is \<open>false\<close> whatever the promise resolves to.\<close>

definition notPromise :: "bool \<Rightarrow> bool" where
  "notPromise resolved = False"

text \<open>The attribute paths present in a wallet's attribute object, for the raw \<open>hasAttribute\<close>.\<close>

definition multiSignaturePaths :: "wallet \<Rightarrow> string list" where
  "multiSignaturePaths w = (if hasMultiSignature w then [''multiSignature''] else [])"

definition throwIfCannotBeApplied_base :: "env \<Rightarrow> transaction \<Rightarrow> nat \<Rightarrow> unit wprog" where
  "throwIfCannotBeApplied_base E t sender =
     andThen (wal sender) (\<lambda>w0.
     andThen (byAddress (waddress w0)) (\<lambda>sw.
     andThen (wal sender) (\<lambda>w.
     andThen (defined AssertionException (wpublicKey w)) (\<lambda>pk.
     andThen (hasByPublicKey Chain pk) (\<lambda>h.
     andThen (wal sw) (\<lambda>senderWallet.
     andThen (throwIf (\<not> h \<and> wbalance senderWallet = 0) (CryptoError ColdWalletError)) (\<lambda>_.
     andThen (verifyTransactionNonceApply w (data t)) (\<lambda>_.
     andThen (throwIf (wbalance w - amount (data t) - fee (data t) < 0)
        (CryptoError InsufficientBalanceError)) (\<lambda>_.
     andThen (throwIf (senderPublicKey (data t) \<noteq> wpublicKey w)
        (CryptoError SenderWalletMismatchError)) (\<lambda>_.
     if hasMultiSignature w then
       andThen (senderOf E (data t)) (\<lambda>dr.
       andThen (wal dr) (\<lambda>databaseSender.
       andThen (throwIf (\<not> hasMultiSignature databaseSender)
          (CryptoError MissingMultiSignatureOnSenderError)) (\<lambda>_.
       andThen (liftE (am_has knownAttributes (multiSignaturePaths databaseSender)
          ''multiSignature.legacy'')) (\<lambda>legacy.
       andThen (throwIf legacy (CryptoError LegacyMultiSignatureError)) (\<lambda>_.
       andThen (liftE (verifySignatures E databaseSender (data t) (wmultiSignature databaseSender)))
         (\<lambda>ok. throwIf (notPromise ok) (CryptoError InvalidMultiSignaturesError)))))))
     else throwIf (signatures (data t) \<noteq> None \<and> \<not> isCore T_MultiSignature (data t))
       (CryptoError UnsupportedMultiSignatureRegistrationTransactionError)))))))))))"

section \<open>The guards of the six types\<close>

definition paymentsOf :: "txdata \<Rightarrow> payment list wprog" where
  "paymentsOf d = defined AssertionException (as_payments (asset d))"

definition multiPaymentGuard :: "env \<Rightarrow> transaction \<Rightarrow> nat \<Rightarrow> unit wprog" where
  "multiPaymentGuard E t sender =
     andThen (paymentsOf (data t)) (\<lambda>ps.
     andThen (wal sender) (\<lambda>w.
     andThen (throwIf (wbalance w - totalPayments ps - fee (data t) < 0)
        (CryptoError InsufficientBalanceError)) (\<lambda>_.
     throwIfCannotBeApplied_base E t sender)))"

definition registrationGuard :: "env \<Rightarrow> transaction \<Rightarrow> nat \<Rightarrow> unit wprog" where
  "registrationGuard E t sender =
     andThen (senderOf E (data t)) (\<lambda>r.
     andThen (wal r) (\<lambda>sw.
     andThen (throwIf (hasMultiSignature sw)
        (CryptoError NotSupportedForMultiSignatureWalletError)) (\<lambda>_.
     andThen (defined AssertionException (as_username (asset (data t)))) (\<lambda>username.
     andThen (wal sender) (\<lambda>w.
     andThen (throwIf (isValidator w) (CryptoError WalletIsAlreadyValidatorError)) (\<lambda>_.
     andThen (hasByUsername Chain username) (\<lambda>h.
     andThen (throwIf h (CryptoError (WalletUsernameAlreadyRegisteredError username))) (\<lambda>_.
     throwIfCannotBeApplied_base E t sender))))))))"

text \<open>The validators that have not resigned, over the usernames index.\<close>

definition activeValidatorCount :: "int wprog" where
  "activeValidatorCount = reads (\<lambda>s.
     int (length (filter (\<lambda>r. \<not> hasResigned (objs s r)) (ix_values (idx s Chain Usernames)))))"

definition resignationGuard :: "env \<Rightarrow> transaction \<Rightarrow> nat \<Rightarrow> unit wprog" where
  "resignationGuard E t sender =
     andThen (wal sender) (\<lambda>w.
     andThen (throwIf (\<not> isValidator w) (CryptoError WalletNotAValidatorError)) (\<lambda>_.
     andThen (throwIf (hasResigned w) (CryptoError WalletAlreadyResignedError)) (\<lambda>_.
     andThen activeValidatorCount (\<lambda>n.
     andThen (throwIf (n - 1 < e_activeValidators E) (CryptoError NotEnoughValidatorsError)) (\<lambda>_.
     throwIfCannotBeApplied_base E t sender)))))"

definition checkVoteAsset :: "string list \<Rightarrow> string list \<Rightarrow> unit wprog" where
  "checkVoteAsset votes unvotes =
     andThen (throwIf (length votes > 1) (CryptoError MaxVotesExceeededError)) (\<lambda>_.
     andThen (throwIf (length unvotes > 1) (CryptoError MaxUnvotesExceeededError)) (\<lambda>_.
     throwIf (length votes + length unvotes = 0) (CryptoError EmptyVoteError)))"

text \<open>The loop over the unvotes; \<open>walletVote\<close> is the local variable it overwrites.\<close>

fun unvoteChecks :: "env \<Rightarrow> string list \<Rightarrow> string option \<Rightarrow> string option wprog" where
  "unvoteChecks E [] walletVote = ret walletVote"
| "unvoteChecks E (u # us) walletVote =
     andThen (byKey E u) (\<lambda>r.
     andThen (throwIf (\<not> truthyStr walletVote) (CryptoError NoVoteError)) (\<lambda>_.
     andThen (throwIf (walletVote \<noteq> Some u) (CryptoError UnvoteMismatchError)) (\<lambda>_.
     andThen (wal r) (\<lambda>v.
     andThen (throwIf (\<not> isValidator v) (CryptoError (VotedForNonValidatorError u))) (\<lambda>_.
     unvoteChecks E us None)))))"

definition voteCheck :: "env \<Rightarrow> string option \<Rightarrow> string \<Rightarrow> unit wprog" where
  "voteCheck E walletVote vote =
     andThen (byKey E vote) (\<lambda>r.
     andThen (throwIf (truthyStr walletVote) (CryptoError AlreadyVotedError)) (\<lambda>_.
     andThen (wal r) (\<lambda>v.
     andThen (throwIf (\<not> isValidator v) (CryptoError (VotedForNonValidatorError vote))) (\<lambda>_.
     throwIf (hasResigned v) (CryptoError (VotedForResignedValidatorError vote))))))"

definition voteGuard :: "env \<Rightarrow> transaction \<Rightarrow> nat \<Rightarrow> unit wprog" where
  "voteGuard E t sender =
     andThen (defined AssertionException (as_votes (asset (data t)))) (\<lambda>votes.
     andThen (defined AssertionException (as_unvotes (asset (data t)))) (\<lambda>unvotes.
     andThen (checkVoteAsset votes unvotes) (\<lambda>_.
     andThen (wal sender) (\<lambda>w.
     andThen (unvoteChecks E unvotes (wvote w)) (\<lambda>walletVote.
     andThen (forEach (voteCheck E walletVote) votes) (\<lambda>_.
     throwIfCannotBeApplied_base E t sender))))))"

definition multiSignatureGuard :: "env \<Rightarrow> transaction \<Rightarrow> nat \<Rightarrow> unit wprog" where
  "multiSignatureGuard E t sender =
     andThen (defined AssertionException (as_multiSignature (asset (data t)))) (\<lambda>ms.
     andThen (throwIf (ms_min ms < 1 \<or> ms_min ms > int (length (ms_publicKeys ms)) \<or> ms_min ms > 16)
        (CryptoError MultiSignatureMinimumKeysError)) (\<lambda>_.
     andThen (defined AssertionException (signatures (data t))) (\<lambda>sigs.
     andThen (throwIf (length (ms_publicKeys ms) \<noteq> length sigs)
        (CryptoError MultiSignatureKeyCountMismatchError)) (\<lambda>_.
     andThen (liftE (e_multiSigKey E ms)) (\<lambda>mpk.
     andThen (byKey E mpk) (\<lambda>rr.
     andThen (wal rr) (\<lambda>recipient.
     andThen (throwIf (hasMultiSignature recipient)
        (CryptoError MultiSignatureAlreadyRegisteredError)) (\<lambda>_.
     andThen (throwIf (notPromise (e_verifySignatures E (data t) ms))
        (CryptoError InvalidMultiSignatureError)) (\<lambda>_.
     throwIfCannotBeApplied_base E t sender)))))))))"

fun throwIfCannotBeApplied :: "env \<Rightarrow> handler \<Rightarrow> transaction \<Rightarrow> nat \<Rightarrow> unit wprog" where
  "throwIfCannotBeApplied E Transfer t r = throwIfCannotBeApplied_base E t r"
| "throwIfCannotBeApplied E MultiPayment t r = multiPaymentGuard E t r"
| "throwIfCannotBeApplied E ValidatorRegistration t r = registrationGuard E t r"
| "throwIfCannotBeApplied E ValidatorResignation t r = resignationGuard E t r"
| "throwIfCannotBeApplied E Vote t r = voteGuard E t r"
| "throwIfCannotBeApplied E MultiSignature t r = multiSignatureGuard E t r"

section \<open>Applying and reverting\<close>

definition applyToSender_base :: "env \<Rightarrow> handler \<Rightarrow> transaction \<Rightarrow> unit wprog" where
  "applyToSender_base E h t =
     andThen (senderOf E (data t)) (\<lambda>sender.
     andThen (throwIfCannotBeApplied E h t sender) (\<lambda>_.
     andThen
       (if truthyNum (version (data t)) then
          andThen (wal sender) (\<lambda>w.
          andThen (verifyTransactionNonceApply w (data t)) (\<lambda>_.
          andThen (defined AssertionException (nonce (data t))) (\<lambda>n.
          updW sender (setNonce n))))
        else updW sender increaseNonce) (\<lambda>_.
     updW sender (\<lambda>w. setBalance (wbalance w - amount (data t) - fee (data t)) w))))"

definition revertForSender_base :: "env \<Rightarrow> transaction \<Rightarrow> unit wprog" where
  "revertForSender_base E t =
     andThen (senderOf E (data t)) (\<lambda>sender.
     andThen (updW sender (increaseBalance (amount (data t) + fee (data t)))) (\<lambda>_.
     andThen (wal sender) (\<lambda>w.
     andThen (verifyTransactionNonceRevert w (data t)) (\<lambda>_.
     updW sender decreaseNonce))))"

text \<open>What each type does to the sender after the base class.\<close>

definition registerValidator :: "string \<Rightarrow> wallet \<Rightarrow> wallet" where
  "registerValidator username w = w\<lparr>wvalidator := Some (noValidator
     \<lparr>va_round := Some 0, va_username := Some username, va_voteBalance := Some 0\<rparr>)\<rparr>"

definition multiPayment_applyToSender :: "env \<Rightarrow> transaction \<Rightarrow> unit wprog" where
  "multiPayment_applyToSender E t =
     andThen (paymentsOf (data t)) (\<lambda>ps.
     andThen (senderOf E (data t)) (\<lambda>r. updW r (decreaseBalance (totalPayments ps))))"

definition registration_applyToSender :: "env \<Rightarrow> transaction \<Rightarrow> unit wprog" where
  "registration_applyToSender E t =
     andThen (senderOf E (data t)) (\<lambda>r.
     andThen (defined AssertionException (as_username (asset (data t)))) (\<lambda>username.
     andThen (updW r (registerValidator username)) (\<lambda>_.
     indexWallet Chain r)))"

definition resignation_applyToSender :: "env \<Rightarrow> transaction \<Rightarrow> unit wprog" where
  "resignation_applyToSender E t =
     andThen (senderOf E (data t)) (\<lambda>r.
     andThen (updW r (setValidatorAttr (\<lambda>v. v\<lparr>va_resigned := True\<rparr>))) (\<lambda>_.
     indexWallet Chain r))"

definition vote_applyToSender :: "env \<Rightarrow> transaction \<Rightarrow> unit wprog" where
  "vote_applyToSender E t =
     andThen (senderOf E (data t)) (\<lambda>r.
     andThen (defined AssertionException (as_votes (asset (data t)))) (\<lambda>votes.
     andThen (defined AssertionException (as_unvotes (asset (data t)))) (\<lambda>unvotes.
     andThen (whenever (unvotes \<noteq> []) (updW r (\<lambda>w. w\<lparr>wvote := None\<rparr>))) (\<lambda>_.
     forEach (\<lambda>v. updW r (\<lambda>w. w\<lparr>wvote := Some v\<rparr>)) votes))))"

declare multiPayment_applyToSender_def [simp] registration_applyToSender_def [simp] resignation_applyToSender_def [simp] vote_applyToSender_def [simp]

fun applySenderExtra :: "env \<Rightarrow> handler \<Rightarrow> transaction \<Rightarrow> unit wprog" where
  "applySenderExtra E Transfer t = ret ()"
| "applySenderExtra E MultiSignature t = ret ()"
| "applySenderExtra E MultiPayment t = multiPayment_applyToSender E t"
| "applySenderExtra E ValidatorRegistration t = registration_applyToSender E t"
| "applySenderExtra E ValidatorResignation t = resignation_applyToSender E t"
| "applySenderExtra E Vote t = vote_applyToSender E t"

definition multiPayment_revertForSender :: "env \<Rightarrow> transaction \<Rightarrow> unit wprog" where
  "multiPayment_revertForSender E t =
     andThen (paymentsOf (data t)) (\<lambda>ps.
     andThen (senderOf E (data t)) (\<lambda>r. updW r (increaseBalance (totalPayments ps))))"

definition registration_revertForSender :: "env \<Rightarrow> transaction \<Rightarrow> unit wprog" where
  "registration_revertForSender E t =
     andThen (senderOf E (data t)) (\<lambda>r.
     andThen (updW r (\<lambda>w. w\<lparr>wvalidator := None\<rparr>)) (\<lambda>_.
     indexWallet Chain r))"

definition resignation_revertForSender :: "env \<Rightarrow> transaction \<Rightarrow> unit wprog" where
  "resignation_revertForSender E t =
     andThen (senderOf E (data t)) (\<lambda>r.
     andThen (updW r (forgetValidatorAttr (\<lambda>v. v\<lparr>va_resigned := False\<rparr>))) (\<lambda>_.
     indexWallet Chain r))"

definition vote_revertForSender :: "env \<Rightarrow> transaction \<Rightarrow> unit wprog" where
  "vote_revertForSender E t =
     andThen (senderOf E (data t)) (\<lambda>r.
     andThen (defined AssertionException (as_votes (asset (data t)))) (\<lambda>votes.
     andThen (defined AssertionException (as_unvotes (asset (data t)))) (\<lambda>unvotes.
     andThen (whenever (votes \<noteq> []) (updW r (\<lambda>w. w\<lparr>wvote := None\<rparr>))) (\<lambda>_.
     forEach (\<lambda>v. updW r (\<lambda>w. w\<lparr>wvote := Some v\<rparr>)) unvotes))))"

declare multiPayment_revertForSender_def [simp] registration_revertForSender_def [simp] resignation_revertForSender_def [simp] vote_revertForSender_def [simp]

fun revertSenderExtra :: "env \<Rightarrow> handler \<Rightarrow> transaction \<Rightarrow> unit wprog" where
  "revertSenderExtra E Transfer t = ret ()"
| "revertSenderExtra E MultiSignature t = ret ()"
| "revertSenderExtra E MultiPayment t = multiPayment_revertForSender E t"
| "revertSenderExtra E ValidatorRegistration t = registration_revertForSender E t"
| "revertSenderExtra E ValidatorResignation t = resignation_revertForSender E t"
| "revertSenderExtra E Vote t = vote_revertForSender E t"

definition applyToSender :: "env \<Rightarrow> handler \<Rightarrow> transaction \<Rightarrow> unit wprog" where
  "applyToSender E h t = andThen (applyToSender_base E h t) (\<lambda>_. applySenderExtra E h t)"

definition revertForSender :: "env \<Rightarrow> handler \<Rightarrow> transaction \<Rightarrow> unit wprog" where
  "revertForSender E h t = andThen (revertForSender_base E t) (\<lambda>_. revertSenderExtra E h t)"

definition creditAddress :: "string \<Rightarrow> int \<Rightarrow> unit wprog" where
  "creditAddress a n = andThen (byAddress a) (\<lambda>r. updW r (increaseBalance n))"

definition debitAddress :: "string \<Rightarrow> int \<Rightarrow> unit wprog" where
  "debitAddress a n = andThen (byAddress a) (\<lambda>r. updW r (decreaseBalance n))"

definition multiSigWallet :: "env \<Rightarrow> txdata \<Rightarrow> (multisig_asset \<times> nat) wprog" where
  "multiSigWallet E d =
     andThen (defined AssertionException (as_multiSignature (asset d))) (\<lambda>ms.
     andThen (liftE (e_multiSigKey E ms)) (\<lambda>k.
     andThen (byKey E k) (\<lambda>r. ret (ms, r))))"

definition transfer_applyToRecipient :: "transaction \<Rightarrow> unit wprog" where
  "transfer_applyToRecipient t =
     andThen (defined AssertionException (recipientId (data t)))
       (\<lambda>a. creditAddress a (amount (data t)))"

definition multiPayment_applyToRecipient :: "transaction \<Rightarrow> unit wprog" where
  "multiPayment_applyToRecipient t =
     andThen (paymentsOf (data t))
       (forEach (\<lambda>p. creditAddress (pay_recipientId p) (pay_amount p)))"

definition multiSignature_applyToRecipient :: "env \<Rightarrow> transaction \<Rightarrow> unit wprog" where
  "multiSignature_applyToRecipient E t =
     andThen (multiSigWallet E (data t)) (\<lambda>(ms, r). updW r (\<lambda>w. w\<lparr>wmultiSignature := Some ms\<rparr>))"

declare transfer_applyToRecipient_def [simp] multiPayment_applyToRecipient_def [simp] multiSignature_applyToRecipient_def [simp]

fun applyToRecipient :: "env \<Rightarrow> handler \<Rightarrow> transaction \<Rightarrow> unit wprog" where
  "applyToRecipient E Transfer t = transfer_applyToRecipient t"
| "applyToRecipient E MultiPayment t = multiPayment_applyToRecipient t"
| "applyToRecipient E MultiSignature t = multiSignature_applyToRecipient E t"
| "applyToRecipient E ValidatorRegistration t = ret ()"
| "applyToRecipient E ValidatorResignation t = ret ()"
| "applyToRecipient E Vote t = ret ()"

definition transfer_revertForRecipient :: "transaction \<Rightarrow> unit wprog" where
  "transfer_revertForRecipient t =
     andThen (defined AssertionException (recipientId (data t)))
       (\<lambda>a. debitAddress a (amount (data t)))"

definition multiPayment_revertForRecipient :: "transaction \<Rightarrow> unit wprog" where
  "multiPayment_revertForRecipient t =
     andThen (paymentsOf (data t))
       (forEach (\<lambda>p. debitAddress (pay_recipientId p) (pay_amount p)))"

definition multiSignature_revertForRecipient :: "env \<Rightarrow> transaction \<Rightarrow> unit wprog" where
  "multiSignature_revertForRecipient E t =
     andThen (multiSigWallet E (data t)) (\<lambda>(ms, r). updW r (\<lambda>w. w\<lparr>wmultiSignature := None\<rparr>))"

declare transfer_revertForRecipient_def [simp] multiPayment_revertForRecipient_def [simp] multiSignature_revertForRecipient_def [simp]

fun revertForRecipient :: "env \<Rightarrow> handler \<Rightarrow> transaction \<Rightarrow> unit wprog" where
  "revertForRecipient E Transfer t = transfer_revertForRecipient t"
| "revertForRecipient E MultiPayment t = multiPayment_revertForRecipient t"
| "revertForRecipient E MultiSignature t = multiSignature_revertForRecipient E t"
| "revertForRecipient E ValidatorRegistration t = ret ()"
| "revertForRecipient E ValidatorResignation t = ret ()"
| "revertForRecipient E Vote t = ret ()"

definition applyTx :: "env \<Rightarrow> handler \<Rightarrow> transaction \<Rightarrow> unit wprog" where
  "applyTx E h t = andThen (applyToSender E h t) (\<lambda>_. applyToRecipient E h t)"

definition revertTx :: "env \<Rightarrow> handler \<Rightarrow> transaction \<Rightarrow> unit wprog" where
  "revertTx E h t = andThen (revertForSender E h t) (\<lambda>_. revertForRecipient E h t)"

section \<open>Entering the pool\<close>

definition sameKind :: "transaction \<Rightarrow> transaction \<Rightarrow> bool" where
  "sameKind t q \<longleftrightarrow> ttype (data q) = ttype (data t) \<and> typeGroup (data q) = typeGroup (data t)"

text \<open>\<open>poolQuery.getAllBySender(...).whereKind(transaction).has()\<close>, the first guard of four types.\<close>

definition noPendingOfSender :: "env \<Rightarrow> transaction \<Rightarrow> unit wprog" where
  "noPendingOfSender E t =
     andThen (defined AssertionException (senderPublicKey (data t))) (\<lambda>pk.
     throwIf (list_ex (sameKind t) (e_poolBySender E pk)) (PoolErrorOf ''ERR_PENDING''))"

definition transfer_throwIfCannotEnterPool :: "env \<Rightarrow> transaction \<Rightarrow> unit wprog" where
  "transfer_throwIfCannotEnterPool E t =
     andThen (defined AssertionException (recipientId (data t))) (\<lambda>a.
     throwIf (\<not> e_validAddress E a) (PoolErrorOf ''ERR_INVALID_RECIPIENT''))"

definition registration_throwIfCannotEnterPool :: "env \<Rightarrow> transaction \<Rightarrow> unit wprog" where
  "registration_throwIfCannotEnterPool E t =
     andThen (noPendingOfSender E t) (\<lambda>_.
     andThen (defined AssertionException (as_username (asset (data t)))) (\<lambda>username.
     throwIf (list_ex (\<lambda>q. sameKind t q \<and> as_username (asset (data q)) = Some username) (e_poolAll E))
       (PoolErrorOf ''ERR_PENDING'')))"

definition resignation_throwIfCannotEnterPool :: "env \<Rightarrow> transaction \<Rightarrow> unit wprog" where
  "resignation_throwIfCannotEnterPool E t =
     andThen (defined AssertionException (senderPublicKey (data t))) (\<lambda>pk.
     whenever (list_ex (sameKind t) (e_poolBySender E pk))
       (andThen (byKey E pk) (\<lambda>r. andThen (wal r) (\<lambda>w.
        andThen (defined AssertionException (validatorAttr va_username w)) (\<lambda>_.
        throw (PoolErrorOf ''ERR_PENDING''))))))"

definition multiSignature_throwIfCannotEnterPool :: "env \<Rightarrow> transaction \<Rightarrow> unit wprog" where
  "multiSignature_throwIfCannotEnterPool E t =
     andThen (defined AssertionException (senderPublicKey (data t))) (\<lambda>pk.
     andThen (defined AssertionException (as_multiSignature (asset (data t)))) (\<lambda>ms.
     andThen (noPendingOfSender E t) (\<lambda>_.
     throwIf (list_ex (\<lambda>q. sameKind t q \<and>
         (case as_multiSignature (asset (data q)) of None \<Rightarrow> False
          | Some m \<Rightarrow> e_multiSigAddress E m = e_multiSigAddress E ms)) (e_poolAll E))
       (PoolErrorOf ''ERR_PENDING''))))"

declare transfer_throwIfCannotEnterPool_def [simp] registration_throwIfCannotEnterPool_def [simp] resignation_throwIfCannotEnterPool_def [simp] multiSignature_throwIfCannotEnterPool_def [simp]

fun throwIfCannotEnterPool :: "env \<Rightarrow> handler \<Rightarrow> transaction \<Rightarrow> unit wprog" where
  "throwIfCannotEnterPool E MultiPayment t = ret ()"
| "throwIfCannotEnterPool E Transfer t = transfer_throwIfCannotEnterPool E t"
| "throwIfCannotEnterPool E Vote t = noPendingOfSender E t"
| "throwIfCannotEnterPool E ValidatorRegistration t = registration_throwIfCannotEnterPool E t"
| "throwIfCannotEnterPool E ValidatorResignation t = resignation_throwIfCannotEnterPool E t"
| "throwIfCannotEnterPool E MultiSignature t = multiSignature_throwIfCannotEnterPool E t"

section \<open>Bootstrap\<close>

fun typeOf :: "handler \<Rightarrow> int" where
  "typeOf Transfer = T_Transfer"
| "typeOf ValidatorRegistration = T_ValidatorRegistration"
| "typeOf Vote = T_Vote"
| "typeOf MultiSignature = T_MultiSignature"
| "typeOf MultiPayment = T_MultiPayment"
| "typeOf ValidatorResignation = T_ValidatorResignation"

definition allTransactions :: "handler \<Rightarrow> transaction list \<Rightarrow> txdata list" where
  "allTransactions h ts = map data (filter (\<lambda>t. isCore (typeOf h) (data t)) ts)"

fun bootstrapUnvotes :: "nat \<Rightarrow> string list \<Rightarrow> unit wprog" where
  "bootstrapUnvotes r [] = ret ()"
| "bootstrapUnvotes r (u # us) =
     andThen (wal r) (\<lambda>w.
     andThen (throwIf (\<not> hasVoted w) (CryptoError NoVoteError)) (\<lambda>_.
     andThen (throwIf (wvote w \<noteq> Some u) (CryptoError UnvoteMismatchError)) (\<lambda>_.
     andThen (updW r (\<lambda>w. w\<lparr>wvote := None\<rparr>)) (\<lambda>_.
     bootstrapUnvotes r us))))"

definition bootstrapVote :: "nat \<Rightarrow> string \<Rightarrow> unit wprog" where
  "bootstrapVote r v =
     andThen (wal r) (\<lambda>w.
     andThen (throwIf (hasVoted w) (CryptoError AlreadyVotedError)) (\<lambda>_.
     updW r (\<lambda>w. w\<lparr>wvote := Some v\<rparr>)))"

definition transfer_bootstrapOne :: "txdata \<Rightarrow> unit wprog" where
  "transfer_bootstrapOne d =
     andThen (byAddress (case recipientId d of None \<Rightarrow> '''' | Some a \<Rightarrow> a)) (\<lambda>r.
     updW r (increaseBalance (amount d)))"

definition multiPayment_bootstrapOne :: "env \<Rightarrow> txdata \<Rightarrow> unit wprog" where
  "multiPayment_bootstrapOne E d =
     andThen (defined AssertionException (senderPublicKey d)) (\<lambda>pk.
     andThen (paymentsOf d) (\<lambda>ps.
     andThen (byKey E pk) (\<lambda>sender.
     forEach (\<lambda>p. andThen (creditAddress (pay_recipientId p) (pay_amount p)) (\<lambda>_.
       updW sender (decreaseBalance (pay_amount p)))) ps)))"

definition registration_bootstrapOne :: "env \<Rightarrow> txdata \<Rightarrow> unit wprog" where
  "registration_bootstrapOne E d =
     andThen (defined AssertionException (senderPublicKey d)) (\<lambda>pk.
     andThen (defined AssertionException (as_username (asset d))) (\<lambda>username.
     andThen (byKey E pk) (\<lambda>r.
     andThen (updW r (\<lambda>w. w\<lparr>wvalidator := Some (noValidator
        \<lparr>va_username := Some username, va_voteBalance := Some 0\<rparr>)\<rparr>)) (\<lambda>_.
     indexWallet Chain r))))"

definition resignation_bootstrapOne :: "env \<Rightarrow> txdata \<Rightarrow> unit wprog" where
  "resignation_bootstrapOne E d =
     andThen (senderOf E d) (\<lambda>r.
     andThen (updW r (setValidatorAttr (\<lambda>v. v\<lparr>va_resigned := True\<rparr>))) (\<lambda>_.
     indexWallet Chain r))"

definition vote_bootstrapOne :: "env \<Rightarrow> txdata \<Rightarrow> unit wprog" where
  "vote_bootstrapOne E d =
     andThen (defined AssertionException (senderPublicKey d)) (\<lambda>pk.
     andThen (defined AssertionException (as_votes (asset d))) (\<lambda>votes.
     andThen (defined AssertionException (as_unvotes (asset d))) (\<lambda>unvotes.
     andThen (checkVoteAsset votes unvotes) (\<lambda>_.
     andThen (byKey E pk) (\<lambda>r.
     andThen (bootstrapUnvotes r unvotes) (\<lambda>_.
     forEach (bootstrapVote r) votes))))))"

definition multiSignature_bootstrapOne :: "env \<Rightarrow> txdata \<Rightarrow> unit wprog" where
  "multiSignature_bootstrapOne E d =
     andThen (multiSigWallet E d) (\<lambda>(ms, r).
     andThen (wal r) (\<lambda>w.
     andThen (throwIf (hasMultiSignature w) (CryptoError MultiSignatureAlreadyRegisteredError)) (\<lambda>_.
     andThen (updW r (\<lambda>w. w\<lparr>wmultiSignature := Some ms\<rparr>)) (\<lambda>_.
     indexWallet Chain r))))"

declare transfer_bootstrapOne_def [simp] multiPayment_bootstrapOne_def [simp] registration_bootstrapOne_def [simp] resignation_bootstrapOne_def [simp] vote_bootstrapOne_def [simp] multiSignature_bootstrapOne_def [simp]

fun bootstrapOne :: "env \<Rightarrow> handler \<Rightarrow> txdata \<Rightarrow> unit wprog" where
  "bootstrapOne E Transfer d = transfer_bootstrapOne d"
| "bootstrapOne E MultiPayment d = multiPayment_bootstrapOne E d"
| "bootstrapOne E ValidatorRegistration d = registration_bootstrapOne E d"
| "bootstrapOne E ValidatorResignation d = resignation_bootstrapOne E d"
| "bootstrapOne E Vote d = vote_bootstrapOne E d"
| "bootstrapOne E MultiSignature d = multiSignature_bootstrapOne E d"

definition bootstrap :: "env \<Rightarrow> handler \<Rightarrow> transaction list \<Rightarrow> unit wprog" where
  "bootstrap E h ts = forEach (bootstrapOne E h) (allTransactions h ts)"

section \<open>The handler registry (handler-provider.ts, handler-registry.ts)\<close>

text \<open>A handler constructor with what the provider reads of it; \<open>hc_id\<close> is its identity.\<close>

record hctor =
  hc_id :: nat
  hc_name :: string
  hc_type :: "int option"
  hc_group :: "int option"
  hc_version :: int
  hc_deps :: "string list"
  hc_attributes :: "string list"

text \<open>\<open>InternalTransactionType.from\<close>: the interned pair, with the core group as default.\<close>

definition internalType :: "int \<Rightarrow> int option \<Rightarrow> int \<times> int" where
  "internalType t g = (t, case g of None \<Rightarrow> G_Core | Some x \<Rightarrow> x)"

fun hasOtherHandlerHandling :: "hctor list \<Rightarrow> hctor \<Rightarrow> int \<times> int \<Rightarrow> int \<Rightarrow> error + bool" where
  "hasOtherHandlerHandling [] c it v = Inr False"
| "hasOtherHandlerHandling (d # ds) c it v =
     (if hc_id d = hc_id c then hasOtherHandlerHandling ds c it v
      else (case (hc_type d, hc_group d) of
              (Some t, Some g) \<Rightarrow>
                if internalType t (Some g) = it \<and> hc_version d = v then Inr True
                else hasOtherHandlerHandling ds c it v
            | _ \<Rightarrow> Inl AssertionException))"

definition hasOtherHandler :: "hctor list \<Rightarrow> hctor \<Rightarrow> string \<Rightarrow> bool" where
  "hasOtherHandler cs c dep \<longleftrightarrow> list_ex (\<lambda>d. hc_name d \<noteq> hc_name c \<and> hc_name d = dep) cs"

text \<open>Registering one handler extends the known attributes or throws.\<close>

definition registerHandler :: "hctor list \<Rightarrow> hctor \<Rightarrow> (string list, error, unit) prog" where
  "registerHandler cs c =
     andThen (defined AssertionException (hc_type c)) (\<lambda>t.
     andThen (defined AssertionException (hc_group c)) (\<lambda>g.
     andThen (liftE (hasOtherHandlerHandling cs c (internalType t (Some g)) (hc_version c))) (\<lambda>dup.
     andThen (throwIf dup (CryptoError (AlreadyRegisteredError t g))) (\<lambda>_.
     andThen (throwIf (list_ex (\<lambda>d. \<not> hasOtherHandler cs c d) (hc_deps c))
        (CryptoError (UnsatisfiedDependencyError t g))) (\<lambda>_.
     modify (addAttributes (hc_attributes c)))))))"

definition registerHandlers :: "hctor list \<Rightarrow> (string list, error, unit) prog" where
  "registerHandlers cs = forEach (registerHandler cs) cs"

definition coreHandler :: "nat \<Rightarrow> string \<Rightarrow> int \<Rightarrow> string list \<Rightarrow> string list \<Rightarrow> hctor" where
  "coreHandler i n t ds as = \<lparr>hc_id = i, hc_name = n, hc_type = Some t, hc_group = Some G_Core,
     hc_version = 1, hc_deps = ds, hc_attributes = as\<rparr>"

fun ctorOf :: "handler \<Rightarrow> hctor" where
  "ctorOf Transfer = coreHandler 0 ''TransferTransactionHandler'' T_Transfer [] []"
| "ctorOf ValidatorRegistration = coreHandler 1 ''ValidatorRegistrationTransactionHandler''
     T_ValidatorRegistration [] registrationAttributes"
| "ctorOf Vote = coreHandler 2 ''VoteTransactionHandler'' T_Vote
     [''ValidatorRegistrationTransactionHandler''] voteAttributes"
| "ctorOf MultiSignature = coreHandler 3 ''MultiSignatureRegistrationTransactionHandler''
     T_MultiSignature [] multiSignatureAttributes"
| "ctorOf MultiPayment = coreHandler 4 ''MultiPaymentTransactionHandler'' T_MultiPayment [] []"
| "ctorOf ValidatorResignation = coreHandler 5 ''ValidatorResignationTransactionHandler''
     T_ValidatorResignation [''ValidatorRegistrationTransactionHandler''] resignationAttributes"

text \<open>The lookup of a handler: registered in this order, all of them activated.\<close>

fun registeredHandlerByType :: "handler list \<Rightarrow> int \<times> int \<Rightarrow> int \<Rightarrow> error + handler" where
  "registeredHandlerByType [] it v = Inl (CryptoError (InvalidTransactionTypeError (fst it) (snd it)))"
| "registeredHandlerByType (h # hs) it v =
     (case (hc_type (ctorOf h), hc_group (ctorOf h)) of
        (Some t, Some g) \<Rightarrow>
          if internalType t (Some g) = it \<and> hc_version (ctorOf h) = v then Inr h
          else registeredHandlerByType hs it v
      | _ \<Rightarrow> Inl AssertionException)"

definition isActivated :: "handler \<Rightarrow> bool" where
  "isActivated h = True"

definition activatedHandlerByType :: "handler list \<Rightarrow> int \<times> int \<Rightarrow> int \<Rightarrow> error + handler" where
  "activatedHandlerByType hs it v =
     (case registeredHandlerByType hs it v of
        Inl e \<Rightarrow> Inl e
      | Inr h \<Rightarrow> if isActivated h then Inr h
                 else Inl (CryptoError (DeactivatedTransactionHandlerError (fst it) (snd it))))"

definition activatedHandlerForData :: "handler list \<Rightarrow> txdata \<Rightarrow> error + handler" where
  "activatedHandlerForData hs d =
     activatedHandlerByType hs (internalType (ttype d) (typeGroup d))
       (case version d of None \<Rightarrow> 1 | Some v \<Rightarrow> v)"

definition coreHandlers :: "handler list" where
  "coreHandlers = [Transfer, ValidatorRegistration, Vote, MultiSignature, MultiPayment, ValidatorResignation]"

end
