(* ===== verification/Ledger.thy ===== *)
theory Ledger
  imports Handlers
begin

text \<open>
  What the transaction handlers guarantee: the heap invariant and the total balance
  (conservation up to the fee), the exact effect on known wallets, reverting as the inverse of
  applying, and the guards.
\<close>

section \<open>Guards keep the invariant and the balances\<close>

definition unchanged :: "nat set \<Rightarrow> int \<Rightarrow> 'a wprog \<Rightarrow> bool" where
  "unchanged R c m \<longleftrightarrow> triple (holds R c) m (\<lambda>_. holds R c) (\<lambda>_. holds {} c)"

named_theorems unchanged_intros \<open>programs that keep the invariant and the total balance\<close>

lemma unchanged_andThen [unchanged_intros]:
  "unchanged R c m \<Longrightarrow> (\<And>x. unchanged R c (f x)) \<Longrightarrow> unchanged R c (andThen m f)"
  unfolding unchanged_def by (rule triple_andThen)

lemma unchanged_pure [unchanged_intros]:
  "unchanged R c (ret x)" "unchanged R c (throw e)" "unchanged R c (throwIf b e)"
  "unchanged R c (defined e v)" "unchanged R c (liftE q)" "unchanged R c (reads g)"
  "unchanged R c (wal r)" "unchanged R c (hasByIndex rp n k)" "unchanged R c (Pair (Inr x))"
  by (auto simp: unchanged_def triple_def wal_def hasByIndex_def defined_def
      holds_def split: option.splits sum.splits)

lemma unchanged_if [unchanged_intros]:
  "unchanged R c m \<Longrightarrow> unchanged R c n \<Longrightarrow> unchanged R c (if b then m else n)"
  by simp

lemma unchanged_whenever [unchanged_intros]: "unchanged R c m \<Longrightarrow> unchanged R c (whenever b m)"
  by (auto simp: unchanged_def triple_def)

lemma unchanged_forEach [unchanged_intros]:
  "(\<And>x. x \<in> set xs \<Longrightarrow> unchanged R c (f x)) \<Longrightarrow> unchanged R c (forEach f xs)"
  unfolding unchanged_def by (rule triple_forEach) auto

lemma unchanged_byAddress [unchanged_intros]: "unchanged R c (byAddress a)"
  unfolding unchanged_def byAddress_def
  by (rule triple_conseq[OF triple_findByAddress[of R c]]) (auto intro: holds_weaken)

lemma unchanged_byKey [unchanged_intros]: "unchanged R c (byKey E k)"
  unfolding unchanged_def byKey_def
  by (rule triple_conseq[OF triple_findByPublicKey[of R c]]) (auto intro: holds_weaken)

lemma unchanged_senderOf [unchanged_intros]: "unchanged R c (senderOf E d)"
  unfolding senderOf_def by (intro unchanged_intros)

lemma unchanged_base [unchanged_intros]: "unchanged R c (throwIfCannotBeApplied_base E t r)"
  unfolding throwIfCannotBeApplied_base_def verifyTransactionNonceApply_def hasByPublicKey_def
  by (intro unchanged_intros)

lemma unchanged_unvoteChecks [unchanged_intros]: "unchanged R c (unvoteChecks E us v)"
  by (induction E us v rule: unvoteChecks.induct) (auto intro!: unchanged_intros)

lemma unchanged_guard: "unchanged R c (throwIfCannotBeApplied E h t r)"
  by (cases h)
    (auto simp: multiPaymentGuard_def registrationGuard_def resignationGuard_def voteGuard_def
      multiSignatureGuard_def checkVoteAsset_def voteCheck_def paymentsOf_def hasByUsername_def
      activeValidatorCount_def intro!: unchanged_intros)

section \<open>Conservation of the total balance\<close>

text \<open>What a transaction takes out of the total balance: its fee, and an amount nobody is credited.\<close>

fun burned :: "handler \<Rightarrow> txdata \<Rightarrow> int" where
  "burned Transfer d = fee d"
| "burned _ d = amount d + fee d"

definition moves :: "nat set \<Rightarrow> int \<Rightarrow> int \<Rightarrow> unit wprog \<Rightarrow> bool" where
  "moves R c d m \<longleftrightarrow> triple (holds R c) m (\<lambda>_. holds R (c + d)) (\<lambda>_ s. repo_ok s)"

lemma moves_andThen:
  "moves R c d m \<Longrightarrow> moves R (c + d) d' n \<Longrightarrow> d'' = d + d' \<Longrightarrow> moves R c d'' (andThen m (\<lambda>_. n))"
  unfolding moves_def by (rule triple_andThen, assumption) (simp add: add.assoc)

lemma unchanged_moves: "unchanged R c m \<Longrightarrow> moves R c 0 m"
  unfolding unchanged_def moves_def by (erule triple_conseq) (auto simp: holds_def)

lemma unchanged_then_moves:
  "unchanged R c m \<Longrightarrow> (\<And>x. moves R c d (f x)) \<Longrightarrow> moves R c d (andThen m f)"
  unfolding unchanged_def moves_def
  by (rule triple_andThen[of _ _ "\<lambda>_. holds R c"]) (auto elim!: triple_conseq simp: holds_def)

lemma triple_senderOf:
  "triple (holds R c) (senderOf E d) (\<lambda>r. holds (insert r R) c) (\<lambda>_ s. repo_ok s)"
  unfolding senderOf_def byKey_def
  by (rule triple_andThen[of _ _ "\<lambda>_. holds R c"])
    (auto intro!: triple_defined triple_conseq[OF triple_findByPublicKey] simp: holds_def)

lemma find_then_moves:
  assumes "triple (holds R c) m (\<lambda>r. holds (insert r R) c) (\<lambda>_ s. repo_ok s)"
    and "\<And>r. moves (insert r R) c d (f r)"
  shows "moves R c d (andThen m f)"
  unfolding moves_def
proof (rule triple_andThen[OF assms(1)])
  show "triple (holds (insert r R) c) (f r) (\<lambda>_. holds R (c + d)) (\<lambda>_ s. repo_ok s)" for r
    using assms(2)[of r] unfolding moves_def by (rule triple_conseq) (auto intro: holds_weaken)
qed

lemma sender_then_moves:
  "(\<And>r. moves (insert r R) c d (f r)) \<Longrightarrow> moves R c d (andThen (senderOf E x) f)"
  by (rule find_then_moves[OF triple_senderOf])

lemma address_then_moves:
  "(\<And>r. moves (insert r R) c d (f r)) \<Longrightarrow> moves R c d (andThen (byAddress a) f)"
  unfolding byAddress_def
  by (rule find_then_moves[OF triple_conseq[OF triple_findByAddress]]) (auto simp: holds_def)

lemma key_then_moves:
  "(\<And>r. moves (insert r R) c d (f r)) \<Longrightarrow> moves R c d (andThen (byKey E k) f)"
  unfolding byKey_def
  by (rule find_then_moves[OF triple_conseq[OF triple_findByPublicKey]]) (auto simp: holds_def)

lemma moves_updW:
  assumes "\<And>w. wbalance (f w) = wbalance w + d" and "\<And>w. waddress (f w) = waddress w" and "r \<in> R"
  shows "moves R c d (updW r f)"
  unfolding moves_def by (rule triple_noError[OF triple_updW[OF assms]])

lemma moves_ret: "moves R c 0 (ret ())" "moves R c 0 (Pair (Inr ()))"
  by (simp_all add: moves_def triple_def)

lemma moves_index: "r \<in> R \<Longrightarrow> moves R c 0 (indexWallet rp r)"
  unfolding moves_def by (rule triple_conseq[OF triple_indexWallet]) (auto simp: holds_def)

lemma moves_forEach:
  assumes "\<And>x c. moves R c (g x) (f x)"
  shows "moves R c (sum_list (map g xs)) (forEach f xs)"
proof (induction xs arbitrary: c)
  case Nil
  then show ?case using moves_ret by simp
next
  case (Cons x xs)
  show ?case using moves_andThen[OF assms[of c x] Cons.IH[of "c + g x"]] by simp
qed

lemma moves_forEach0: "(\<And>x c. moves R c 0 (f x)) \<Longrightarrow> moves R c 0 (forEach f xs)"
  using moves_forEach[of R "\<lambda>_. 0" f c xs] by simp

lemma moves_whenever0: "moves R c 0 m \<Longrightarrow> moves R c 0 (whenever b m)"
  using moves_ret by (auto simp: whenever_def)

lemma moves_credit: "moves R c n (creditAddress a n)"
  unfolding creditAddress_def
  by (rule address_then_moves, rule moves_updW) (auto simp: wallet_ops)

lemma moves_debit: "moves R c (- n) (debitAddress a n)"
  unfolding debitAddress_def
  by (rule address_then_moves, rule moves_updW) (auto simp: wallet_ops)

lemma moves_applySender_base:
  "moves R c (- amount (data t) - fee (data t)) (applyToSender_base E h t)"
proof -
  have nonceStep: "moves (insert r R) c 0
      (if truthyNum (version (data t)) then
          andThen (wal r) (\<lambda>w. andThen (verifyTransactionNonceApply w (data t)) (\<lambda>_.
          andThen (defined AssertionException (nonce (data t))) (\<lambda>n. updW r (setNonce n))))
        else updW r increaseNonce)" for r
    unfolding verifyTransactionNonceApply_def
    by (auto simp: wallet_ops intro!: unchanged_then_moves[OF unchanged_pure(7)]
        unchanged_then_moves[OF unchanged_pure(3)] unchanged_then_moves[OF unchanged_pure(4)] moves_updW)
  show ?thesis unfolding applyToSender_base_def
    by (rule sender_then_moves, rule unchanged_then_moves[OF unchanged_guard],
        rule moves_andThen[OF nonceStep moves_updW]) (auto simp: wallet_ops)
qed

lemma moves_revertSender_base:
  "moves R c (amount (data t) + fee (data t)) (revertForSender_base E t)"
  unfolding revertForSender_base_def verifyTransactionNonceRevert_def
  by (rule sender_then_moves,
      rule moves_andThen[where d = "amount (data t) + fee (data t)" and d' = 0,
        OF moves_updW unchanged_then_moves])
    (auto simp: wallet_ops intro!: unchanged_pure unchanged_then_moves[OF unchanged_pure(3)] moves_updW)

text \<open>The total of a multi-payment's payments, zero for the other types.\<close>

definition paid :: "handler \<Rightarrow> txdata \<Rightarrow> int" where
  "paid h d = (if h = MultiPayment then
     (case as_payments (asset d) of None \<Rightarrow> 0 | Some ps \<Rightarrow> totalPayments ps) else 0)"

lemma defined_then_moves:
  "(\<And>x. v = Some x \<Longrightarrow> moves R c d (f x)) \<Longrightarrow> moves R c d (andThen (defined e v) f)"
  by (cases v) (auto simp: defined_def moves_def triple_def holds_def)

lemma moves_applyExtra: "moves R c (- paid h (data t)) (applySenderExtra E h t)"
  by (cases h)
    (auto simp: paid_def paymentsOf_def wallet_ops registerValidator_def
      intro!: moves_ret defined_then_moves sender_then_moves moves_updW moves_forEach0
        moves_andThen[of _ _ 0 _ 0] moves_whenever0 moves_index)

lemma moves_revertExtra: "moves R c (paid h (data t)) (revertSenderExtra E h t)"
  by (cases h)
    (auto simp: paid_def paymentsOf_def wallet_ops
      intro!: moves_ret defined_then_moves sender_then_moves moves_updW moves_forEach0
        moves_andThen[of _ _ 0 _ 0] moves_whenever0 moves_index)

fun credited :: "handler \<Rightarrow> txdata \<Rightarrow> int" where
  "credited Transfer d = amount d"
| "credited h d = paid h d"

lemma multiSig_then_moves:
  "(\<And>ms r. moves (insert r R) c d (f (ms, r))) \<Longrightarrow> moves R c d (andThen (multiSigWallet E x) f)"
  unfolding multiSigWallet_def andThen_assoc
  by (auto intro!: defined_then_moves unchanged_then_moves[OF unchanged_pure(5)] key_then_moves)

lemma moves_applyRecipient: "moves R c (credited h (data t)) (applyToRecipient E h t)"
  using moves_forEach[of R pay_amount "\<lambda>p. creditAddress (pay_recipientId p) (pay_amount p)" c]
  by (cases h) (auto simp: paid_def paymentsOf_def moves_credit
      intro!: moves_ret defined_then_moves multiSig_then_moves moves_updW)

lemma sum_list_neg: "(\<Sum>x\<leftarrow>xs. - f x) = - (\<Sum>x\<leftarrow>xs. f x :: int)"
  by (induction xs) auto

lemma moves_revertRecipient: "moves R c (- credited h (data t)) (revertForRecipient E h t)"
  using moves_forEach[of R "\<lambda>p. - pay_amount p"
      "\<lambda>p. debitAddress (pay_recipientId p) (pay_amount p)" c]
  by (cases h) (auto simp: paid_def paymentsOf_def moves_debit sum_list_neg
      intro!: moves_ret defined_then_moves multiSig_then_moves moves_updW)

lemma moves_applyTx: "moves R c (- burned h (data t)) (applyTx E h t)"
  unfolding applyTx_def applyToSender_def
  by (rule moves_andThen[OF moves_andThen[OF moves_applySender_base moves_applyExtra refl]
        moves_applyRecipient]) (cases h; simp add: paid_def)

lemma moves_revertTx: "moves R c (burned h (data t)) (revertTx E h t)"
  unfolding revertTx_def revertForSender_def
  by (rule moves_andThen[OF moves_andThen[OF moves_revertSender_base moves_revertExtra refl]
        moves_revertRecipient]) (cases h; simp add: paid_def)

lemma moves_total:
  assumes "moves {} (totalBalance s) d m" and "repo_ok s"
  shows "case m s of (Inr u, s') \<Rightarrow> repo_ok s' \<and> totalBalance s' = totalBalance s + d
    | (Inl e, s') \<Rightarrow> repo_ok s'"
proof -
  have h: "holds {} (totalBalance s) s" using assms(2) by (simp add: holds_def)
  note t = assms(1)[unfolded moves_def]
  show ?thesis
  proof (cases "m s")
    case (Pair x s')
    then show ?thesis
      using triple_InrD [OF t h, of _ s'] triple_InlD [OF t h, of _ s']
      by (cases x) (simp_all add: holds_def)
  qed
qed

section \<open>The base guard on known wallets\<close>

text \<open>A wallet of the blockchain repository that its address and its public key both find.\<close>

definition indexed :: "wstate \<Rightarrow> string \<Rightarrow> nat \<Rightarrow> bool" where
  "indexed s pk r \<longleftrightarrow> lookup s Chain PublicKeys pk = Some r \<and> wpublicKey (objs s r) = Some pk \<and>
     lookup s Chain Addresses (waddress (objs s r)) = Some r"

text \<open>The first rule a transaction of a known sender breaks, in the order of the code.\<close>

definition baseCheck :: "wallet \<Rightarrow> txdata \<Rightarrow> error option" where
  "baseCheck w d =
     (if wnonce w + 1 \<noteq> nonceOf d
        then Some (CryptoError (UnexpectedNonceError (nonceOf d) (wnonce w) False))
      else if wbalance w - amount d - fee d < 0 then Some (CryptoError InsufficientBalanceError)
      else if hasMultiSignature w then Some AssertionException
      else if signatures d \<noteq> None \<and> \<not> isCore T_MultiSignature d
        then Some (CryptoError UnsupportedMultiSignatureRegistrationTransactionError)
      else None)"

lemma legacy_unknown: "am_has knownAttributes ps ''multiSignature.legacy'' = Inl AssertionException"
  by (simp add: am_has_def knownAttributes_def addAttributes_def registrationAttributes_def
      resignationAttributes_def voteAttributes_def multiSignatureAttributes_def js_add_def)

lemma byKey_known: "lookup s Chain PublicKeys k = Some r \<Longrightarrow> byKey E k s = (Inr r, s)"
  by (simp add: byKey_def)

lemma byAddress_known: "lookup s Chain Addresses a = Some r \<Longrightarrow> byAddress a s = (Inr r, s)"
  by (simp add: byAddress_def)

lemma senderOf_known:
  "senderPublicKey d = Some pk \<Longrightarrow> lookup s Chain PublicKeys pk = Some r \<Longrightarrow>
    senderOf E d s = (Inr r, s)"
  by (simp add: senderOf_def andThen_def byKey_known)

lemma hasByPublicKey_apply: "hasByPublicKey rp k s = (Inr (lookup s rp PublicKeys k \<noteq> None), s)"
  by (simp add: hasByPublicKey_def hasByIndex_def ix_has_get lookup_def)

lemmas run_simps = andThen_def byKey_known byAddress_known senderOf_known hasByPublicKey_apply

lemma base_known:
  assumes "indexed s pk r" and "senderPublicKey (data t) = Some pk"
  shows "throwIfCannotBeApplied_base E t r s =
    (case baseCheck (objs s r) (data t) of None \<Rightarrow> (Inr (), s) | Some e \<Rightarrow> (Inl e, s))"
  using assms
  by (simp add: throwIfCannotBeApplied_base_def run_simps indexed_def baseCheck_def
      verifyTransactionNonceApply_def legacy_unknown)

section \<open>Transfers\<close>

text \<open>The effect of a transfer on the heap: the sender pays, then the recipient is credited.\<close>

definition transferHeap :: "txdata \<Rightarrow> nat \<Rightarrow> nat \<Rightarrow> (nat \<Rightarrow> wallet) \<Rightarrow> nat \<Rightarrow> wallet" where
  "transferHeap d r q h =
     (let h1 = h(r := (h r)\<lparr>wnonce := nonceOf d, wbalance := wbalance (h r) - amount d - fee d\<rparr>)
      in h1(q := (h1 q)\<lparr>wbalance := wbalance (h1 q) + amount d\<rparr>))"

text \<open>What the base class leaves in the heap when it does not throw, and what its guard ensured.\<close>

definition paidHeap :: "txdata \<Rightarrow> nat \<Rightarrow> (nat \<Rightarrow> wallet) \<Rightarrow> nat \<Rightarrow> wallet" where
  "paidHeap d r h = h(r := (h r)\<lparr>wnonce := nonceOf d, wbalance := wbalance (h r) - amount d - fee d\<rparr>)"

lemma applyBase_Inr:
  assumes "indexed s pk r" and "senderPublicKey (data t) = Some pk"
    and guard: "\<And>x s'. throwIfCannotBeApplied E h t r s = (x, s') \<Longrightarrow> s' = s"
    and ok: "\<And>u. throwIfCannotBeApplied E h t r s = (Inr u, s) \<Longrightarrow> baseCheck (objs s r) (data t) = None"
    and "applyToSender_base E h t s = (Inr u, s')"
  shows "s' = s\<lparr>objs := paidHeap (data t) r (objs s)\<rparr> \<and>
    throwIfCannotBeApplied E h t r s = (Inr (), s) \<and> baseCheck (objs s r) (data t) = None \<and>
    wnonce (objs s r) + 1 = nonceOf (data t)"
proof -
  have pk: "lookup s Chain PublicKeys pk = Some r" using assms(1) by (simp add: indexed_def)
  obtain x where g: "throwIfCannotBeApplied E h t r s = (x, s)"
    using guard by (metis surj_pair)
  then have x: "x = Inr ()"
    using assms(5) assms(2) pk by (cases x) (auto simp: applyToSender_base_def run_simps)
  have b: "baseCheck (objs s r) (data t) = None" using ok g x by simp
  then have n: "wnonce (objs s r) + 1 = nonceOf (data t)"
    by (auto simp: baseCheck_def split: if_splits)
  have "s' = s\<lparr>objs := paidHeap (data t) r (objs s)\<rparr>"
    using assms(5) assms(2) pk g x n
    by (cases "nonce (data t)") (auto simp: applyToSender_base_def run_simps wallet_ops paidHeap_def
        verifyTransactionNonceApply_def nonceOf_def split: if_splits)
  then show ?thesis using g x b n by simp
qed

lemma applyToSender_known:
  assumes "indexed s pk r" and "senderPublicKey (data t) = Some pk" and "nonce (data t) \<noteq> None"
    and "throwIfCannotBeApplied E h t r s = (Inr (), s)" and "wnonce (objs s r) + 1 = nonceOf (data t)"
  shows "applyToSender_base E h t s =
    (Inr (), s\<lparr>objs := (objs s)(r := (objs s r)\<lparr>wnonce := nonceOf (data t),
       wbalance := wbalance (objs s r) - amount (data t) - fee (data t)\<rparr>)\<rparr>)"
  using assms
  by (auto simp: applyToSender_base_def run_simps indexed_def verifyTransactionNonceApply_def
      wallet_ops nonceOf_def)

lemma transfer_apply:
  assumes "indexed s pk r" and "senderPublicKey (data t) = Some pk" and "nonce (data t) \<noteq> None"
    and "recipientId (data t) = Some a" and "lookup s Chain Addresses a = Some q"
    and "baseCheck (objs s r) (data t) = None"
  shows "applyTx E Transfer t s = (Inr (), s\<lparr>objs := transferHeap (data t) r q (objs s)\<rparr>)"
proof -
  have "throwIfCannotBeApplied E Transfer t r s = (Inr (), s)"
    using base_known[OF assms(1,2)] assms(6) by simp
  moreover have "wnonce (objs s r) + 1 = nonceOf (data t)"
    using assms(6) by (auto simp: baseCheck_def split: if_splits)
  ultimately show ?thesis
    using applyToSender_known[OF assms(1-3)] assms(4,5)
    by (simp add: applyTx_def applyToSender_def creditAddress_def run_simps transferHeap_def Let_def
        wallet_ops)
qed

lemma transfer_rejected:
  assumes "indexed s pk r" and "senderPublicKey (data t) = Some pk"
    and "baseCheck (objs s r) (data t) = Some e"
  shows "applyTx E Transfer t s = (Inl e, s)"
  using base_known[OF assms(1,2)] assms
  by (simp add: applyTx_def applyToSender_def applyToSender_base_def run_simps indexed_def)

lemma transfer_revert_apply:
  assumes "indexed s pk r" and "senderPublicKey (data t) = Some pk" and "nonce (data t) \<noteq> None"
    and "recipientId (data t) = Some a" and "lookup s Chain Addresses a = Some q"
    and "baseCheck (objs s r) (data t) = None"
  shows "revertTx E Transfer t (snd (applyTx E Transfer t s)) = (Inr (), s)"
proof -
  have n: "wnonce (objs s r) + 1 = nonceOf (data t)"
    using assms(6) by (auto simp: baseCheck_def split: if_splits)
  have pk: "lookup s Chain PublicKeys pk = Some r" using assms(1) by (simp add: indexed_def)
  show ?thesis
    unfolding transfer_apply[OF assms]
    using assms(2-5) pk n[symmetric]
    by (auto simp: revertTx_def revertForSender_def revertForSender_base_def debitAddress_def
        run_simps transferHeap_def Let_def wallet_ops verifyTransactionNonceRevert_def fun_upd_twist
        intro!: wstate.equality)
qed

section \<open>Reverting undoes applying\<close>

text \<open>Balance changes as one pointwise shift of the heap.\<close>

definition shiftBal :: "(nat \<Rightarrow> int) \<Rightarrow> (nat \<Rightarrow> wallet) \<Rightarrow> nat \<Rightarrow> wallet" where
  "shiftBal f h = (\<lambda>q. (h q)\<lparr>wbalance := wbalance (h q) + f q\<rparr>)"

lemma shiftBal_shift: "shiftBal f (shiftBal g h) = shiftBal (\<lambda>q. g q + f q) h"
  by (simp add: shiftBal_def fun_eq_iff)

lemma shiftBal_zero: "shiftBal (\<lambda>_. 0) h = h"
  by (simp add: shiftBal_def)

lemma shiftBal_update:
  "(shiftBal f h)(r := (shiftBal f h r)\<lparr>wnonce := n, wbalance := wbalance (shiftBal f h r) + d\<rparr>) =
   shiftBal (f(r := f r + d)) (h(r := (h r)\<lparr>wnonce := n\<rparr>))"
  by (simp add: shiftBal_def fun_eq_iff)

definition paymentsTo :: "wstate \<Rightarrow> payment list \<Rightarrow> nat \<Rightarrow> int" where
  "paymentsTo s ps q = (\<Sum>p\<leftarrow>ps. if lookup s Chain Addresses (pay_recipientId p) = Some q
     then pay_amount p else 0)"

lemma paymentsTo_objs [simp]: "paymentsTo (s\<lparr>objs := h\<rparr>) ps = paymentsTo s ps"
  by (simp add: paymentsTo_def fun_eq_iff)

definition allKnown :: "wstate \<Rightarrow> payment list \<Rightarrow> bool" where
  "allKnown s ps \<longleftrightarrow> (\<forall>p \<in> set ps. lookup s Chain Addresses (pay_recipientId p) \<noteq> None)"

lemma credit_known:
  "lookup s Chain Addresses a = Some q \<Longrightarrow>
    creditAddress a n s = (Inr (), s\<lparr>objs := (objs s)(q := increaseBalance n (objs s q))\<rparr>)"
  by (simp add: creditAddress_def run_simps)

lemma debit_known:
  "lookup s Chain Addresses a = Some q \<Longrightarrow>
    debitAddress a n s = (Inr (), s\<lparr>objs := (objs s)(q := decreaseBalance n (objs s q))\<rparr>)"
  by (simp add: debitAddress_def run_simps)

lemma forEach_credit:
  "allKnown s ps \<Longrightarrow> forEach (\<lambda>p. creditAddress (pay_recipientId p) (pay_amount p)) ps s =
    (Inr (), s\<lparr>objs := shiftBal (paymentsTo s ps) (objs s)\<rparr>)"
proof (induction ps arbitrary: s)
  case Nil
  then show ?case by (simp add: paymentsTo_def shiftBal_zero)
next
  case (Cons p ps)
  then obtain q where q: "lookup s Chain Addresses (pay_recipientId p) = Some q"
    by (auto simp: allKnown_def)
  let ?s = "s\<lparr>objs := (objs s)(q := increaseBalance (pay_amount p) (objs s q))\<rparr>"
  have "forEach (\<lambda>p. creditAddress (pay_recipientId p) (pay_amount p)) (p # ps) s =
      (Inr (), ?s\<lparr>objs := shiftBal (paymentsTo s ps) (objs ?s)\<rparr>)"
    using Cons.IH[of ?s] Cons.prems credit_known[OF q, of "pay_amount p"]
    by (simp add: allKnown_def andThen_Inr fun_upd_def)
  moreover have "shiftBal (paymentsTo s ps) (objs ?s) = shiftBal (paymentsTo s (p # ps)) (objs s)"
    using q by (auto simp: shiftBal_def fun_eq_iff paymentsTo_def wallet_ops)
  ultimately show ?case by simp
qed

lemma forEach_debit:
  "allKnown s ps \<Longrightarrow> forEach (\<lambda>p. debitAddress (pay_recipientId p) (pay_amount p)) ps s =
    (Inr (), s\<lparr>objs := shiftBal (\<lambda>q. - paymentsTo s ps q) (objs s)\<rparr>)"
proof (induction ps arbitrary: s)
  case Nil
  then show ?case by (simp add: paymentsTo_def shiftBal_zero)
next
  case (Cons p ps)
  then obtain q where q: "lookup s Chain Addresses (pay_recipientId p) = Some q"
    by (auto simp: allKnown_def)
  let ?s = "s\<lparr>objs := (objs s)(q := decreaseBalance (pay_amount p) (objs s q))\<rparr>"
  have "forEach (\<lambda>p. debitAddress (pay_recipientId p) (pay_amount p)) (p # ps) s =
      (Inr (), ?s\<lparr>objs := shiftBal (\<lambda>q. - paymentsTo s ps q) (objs ?s)\<rparr>)"
    using Cons.IH[of ?s] Cons.prems debit_known[OF q, of "pay_amount p"]
    by (simp add: allKnown_def andThen_Inr fun_upd_def)
  moreover have "shiftBal (\<lambda>q. - paymentsTo s ps q) (objs ?s) =
      shiftBal (\<lambda>q. - paymentsTo s (p # ps) q) (objs s)"
    using q by (auto simp: shiftBal_def fun_eq_iff paymentsTo_def wallet_ops)
  ultimately show ?case by simp
qed

text \<open>The wallets a transaction touches, all known to the repository.\<close>

fun touchesKnown :: "env \<Rightarrow> wstate \<Rightarrow> handler \<Rightarrow> txdata \<Rightarrow> bool" where
  "touchesKnown E s Transfer d \<longleftrightarrow>
     (\<exists>a. recipientId d = Some a \<and> lookup s Chain Addresses a \<noteq> None)"
| "touchesKnown E s MultiPayment d \<longleftrightarrow>
     (\<exists>ps. as_payments (asset d) = Some ps \<and> allKnown s ps)"
| "touchesKnown E s Vote d \<longleftrightarrow>
     (\<exists>vs us. as_votes (asset d) = Some vs \<and> as_unvotes (asset d) = Some us \<and>
       (\<forall>k \<in> set vs \<union> set us. lookup s Chain PublicKeys k \<noteq> None))"
| "touchesKnown E s MultiSignature d \<longleftrightarrow>
     (\<exists>ms k. as_multiSignature (asset d) = Some ms \<and> e_multiSigKey E ms = Inr k \<and>
       lookup s Chain PublicKeys k \<noteq> None)"
| "touchesKnown E s _ d \<longleftrightarrow> True"

lemma revertBase_known:
  assumes "senderPublicKey (data t) = Some pk" and "lookup s Chain PublicKeys pk = Some r"
    and "wnonce (objs s r) = nonceOf (data t)"
  shows "revertForSender_base E t s = (Inr (), s\<lparr>objs := (objs s)(r := (objs s r)
    \<lparr>wbalance := wbalance (objs s r) + (amount (data t) + fee (data t)), wnonce := nonceOf (data t) - 1\<rparr>)\<rparr>)"
  using assms
  by (simp add: revertForSender_base_def run_simps wallet_ops verifyTransactionNonceRevert_def)

lemma multiPayment_guard_known:
  assumes "indexed s pk r" and "senderPublicKey (data t) = Some pk"
    and "as_payments (asset (data t)) = Some ps"
  shows "throwIfCannotBeApplied E MultiPayment t r s =
    (if wbalance (objs s r) - totalPayments ps - fee (data t) < 0
     then (Inl (CryptoError InsufficientBalanceError), s)
     else (case baseCheck (objs s r) (data t) of None \<Rightarrow> (Inr (), s) | Some e \<Rightarrow> (Inl e, s)))"
  using assms base_known[OF assms(1,2)]
  by (simp add: multiPaymentGuard_def paymentsOf_def run_simps)

lemma multiPayment_result:
  assumes "indexed s pk r" and "senderPublicKey (data t) = Some pk"
    and "as_payments (asset (data t)) = Some ps" and "allKnown s ps"
    and "applyTx E MultiPayment t s = (Inr u, s')"
  shows "wnonce (objs s r) + 1 = nonceOf (data t)"
    and "s' = s\<lparr>objs := shiftBal (\<lambda>q. (if q = r then - amount (data t) - fee (data t) - totalPayments ps else 0)
      + paymentsTo s ps q) ((objs s)(r := (objs s r)\<lparr>wnonce := nonceOf (data t)\<rparr>))\<rparr>"
proof -
  let ?d = "data t"
  have pk: "lookup s Chain PublicKeys pk = Some r" using assms(1) by (simp add: indexed_def)
  obtain s1 where s1: "applyToSender_base E MultiPayment t s = (Inr (), s1)"
    using assms(5) by (auto simp: applyTx_def applyToSender_def elim!: andThen_InrE)
  have base: "s1 = s\<lparr>objs := paidHeap ?d r (objs s)\<rparr>" "wnonce (objs s r) + 1 = nonceOf ?d"
  proof -
    note guard = multiPayment_guard_known[OF assms(1-3), of E]
    have "s2 = s" if "throwIfCannotBeApplied E MultiPayment t r s = (x, s2)" for x s2
      using that unfolding guard by (simp split: if_splits option.splits)
    moreover have "baseCheck (objs s r) ?d = None"
      if "throwIfCannotBeApplied E MultiPayment t r s = (Inr v, s)" for v
      using that unfolding guard by (simp split: if_splits option.splits)
    ultimately show "s1 = s\<lparr>objs := paidHeap ?d r (objs s)\<rparr>" "wnonce (objs s r) + 1 = nonceOf ?d"
      using applyBase_Inr[OF assms(1,2) _ _ s1] by blast+
  qed
  let ?h = "(objs s)(r := (objs s r)\<lparr>wnonce := nonceOf ?d\<rparr>)"
  show "s' = s\<lparr>objs := shiftBal (\<lambda>q. (if q = r then - amount ?d - fee ?d - totalPayments ps else 0)
      + paymentsTo s ps q) ?h\<rparr>"
  proof -
    let ?h2 = "(objs s1)(r := decreaseBalance (totalPayments ps) (objs s1 r))"
    have "applySenderExtra E MultiPayment t s1 = (Inr (), s1\<lparr>objs := ?h2\<rparr>)"
      using assms(2,3) pk by (simp add: run_simps paymentsOf_def base)
    moreover have "applyToRecipient E MultiPayment t (s1\<lparr>objs := ?h2\<rparr>) =
        (Inr (), s1\<lparr>objs := shiftBal (paymentsTo s ps) ?h2\<rparr>)"
      using forEach_credit[of "s1\<lparr>objs := ?h2\<rparr>" ps] assms(3,4)
      by (simp add: paymentsOf_def base allKnown_def)
    ultimately have "s' = s1\<lparr>objs := shiftBal (paymentsTo s ps) ?h2\<rparr>"
      using assms(5) s1 by (simp add: applyTx_def applyToSender_def andThen_def)
    moreover have "shiftBal (paymentsTo s ps) ?h2 =
        shiftBal (\<lambda>q. (if q = r then - amount ?d - fee ?d - totalPayments ps else 0)
          + paymentsTo s ps q) ?h"
      by (auto simp: shiftBal_def base paidHeap_def wallet_ops)
    ultimately show ?thesis by (simp add: base)
  qed
  show "wnonce (objs s r) + 1 = nonceOf ?d" by (fact base(2))
qed

lemma multiPayment_accepted:
  assumes "indexed s pk r" and "senderPublicKey (data t) = Some pk" and "nonce (data t) \<noteq> None"
    and "as_payments (asset (data t)) = Some ps" and "allKnown s ps"
    and "baseCheck (objs s r) (data t) = None"
    and "0 \<le> wbalance (objs s r) - totalPayments ps - fee (data t)"
  shows "\<exists>s'. applyTx E MultiPayment t s = (Inr (), s')"
proof -
  have "throwIfCannotBeApplied E MultiPayment t r s = (Inr (), s)"
    using multiPayment_guard_known [OF assms(1,2,4)] assms(6,7) by simp
  moreover have "wnonce (objs s r) + 1 = nonceOf (data t)"
    using assms(6) by (auto simp: baseCheck_def split: if_splits)
  ultimately have base: "applyToSender_base E MultiPayment t s = (Inr (), s\<lparr>objs := (objs s)(r := (objs s r)
      \<lparr>wnonce := nonceOf (data t), wbalance := wbalance (objs s r) - amount (data t) - fee (data t)\<rparr>)\<rparr>)"
    by (rule applyToSender_known [OF assms(1-3)])
  have pk: "lookup s Chain PublicKeys pk = Some r" using assms(1) by (simp add: indexed_def)
  have ak: "allKnown (s\<lparr>objs := h\<rparr>) ps" for h using assms(5) by (simp add: allKnown_def)
  show ?thesis
    using assms(2,4) pk forEach_credit [OF ak]
    by (simp add: applyTx_def applyToSender_def base run_simps paymentsOf_def)
qed

lemma multiPayment_revert_apply:
  assumes "indexed s pk r" and "senderPublicKey (data t) = Some pk"
    and "as_payments (asset (data t)) = Some ps" and "allKnown s ps"
    and "applyTx E MultiPayment t s = (Inr u, s')"
  shows "revertTx E MultiPayment t s' = (Inr (), s)"
proof -
  let ?d = "data t"
  let ?h = "(objs s)(r := (objs s r)\<lparr>wnonce := nonceOf ?d\<rparr>)"
  have pk: "lookup s Chain PublicKeys pk = Some r" using assms(1) by (simp add: indexed_def)
  note base = refl multiPayment_result(1)[OF assms]
  note s' = multiPayment_result(2)[OF assms]
  have "wnonce (objs s' r) = nonceOf ?d" "lookup s' Chain PublicKeys pk = Some r"
    using pk by (simp_all add: s' shiftBal_def)
  note rb = revertBase_known[OF assms(2) this(2,1), of E]
  have ak: "allKnown (s'\<lparr>objs := h\<rparr>) ps" for h using assms(4) by (simp add: allKnown_def s')
  have "revertTx E MultiPayment t s' = (Inr (), s'\<lparr>objs := shiftBal (\<lambda>q. - paymentsTo s ps q)
     ((objs s')(r := (objs s' r)\<lparr>wnonce := nonceOf ?d - 1,
        wbalance := wbalance (objs s' r) + (amount ?d + fee ?d) + totalPayments ps\<rparr>))\<rparr>)"
    (is "_ = (_, ?s2)")
  proof -
    let ?h1 = "(objs s')(r := (objs s' r)\<lparr>wbalance := wbalance (objs s' r) + (amount ?d + fee ?d),
      wnonce := nonceOf ?d - 1\<rparr>)"
    let ?h2 = "?h1(r := increaseBalance (totalPayments ps) (?h1 r))"
    have "revertSenderExtra E MultiPayment t (s'\<lparr>objs := ?h1\<rparr>) = (Inr (), s'\<lparr>objs := ?h2\<rparr>)"
      using assms(2,3) pk by (simp add: run_simps paymentsOf_def s')
    then have "revertTx E MultiPayment t s' =
        (Inr (), s'\<lparr>objs := shiftBal (\<lambda>q. - paymentsTo s' ps q) ?h2\<rparr>)"
      using rb forEach_debit[OF ak] assms(3)
      by (simp add: revertTx_def revertForSender_def andThen_def paymentsOf_def)
    moreover have "paymentsTo s' ps = paymentsTo s ps" by (simp add: s')
    moreover have "?h2 = (objs s')(r := (objs s' r)\<lparr>wnonce := nonceOf ?d - 1,
        wbalance := wbalance (objs s' r) + (amount ?d + fee ?d) + totalPayments ps\<rparr>)"
      by (simp add: wallet_ops)
    ultimately show ?thesis by simp
  qed
  also have "?s2 = s"
  proof -
    have "objs ?s2 q = objs s q" for q
      using base(2)[symmetric] by (simp add: s' shiftBal_def)
    then show ?thesis by (simp add: s' fun_eq_iff)
  qed
  finally show ?thesis .
qed

definition keysKnown :: "wstate \<Rightarrow> string list \<Rightarrow> bool" where
  "keysKnown s ks \<longleftrightarrow> (\<forall>k \<in> set ks. lookup s Chain PublicKeys k \<noteq> None)"

text \<open>Programs that, from a given state, read and throw but write nothing.\<close>

definition pureAt :: "wstate \<Rightarrow> 'a wprog \<Rightarrow> bool" where
  "pureAt s m \<longleftrightarrow> snd (m s) = s"

lemma pureAt_andThen:
  "pureAt s m \<Longrightarrow> (\<And>x. pureAt s (f x)) \<Longrightarrow> pureAt s (andThen m f)"
  by (auto simp: pureAt_def andThen_def split: prod.splits sum.splits)

lemma pureAt_prims:
  "pureAt s (ret x)" "pureAt s (Pair (Inr x))" "pureAt s (throw e)" "pureAt s (throwIf b e)"
  "pureAt s (defined e v)" "pureAt s (wal r)" "pureAt s (liftE q)" "pureAt s (hasByPublicKey rp k)"
  by (simp_all add: pureAt_def defined_def wal_def hasByPublicKey_apply split: option.split)

lemma pureAt_byKey: "lookup s Chain PublicKeys k \<noteq> None \<Longrightarrow> pureAt s (byKey E k)"
  by (auto simp: pureAt_def byKey_known)

lemma pureAt_forEach: "(\<And>x. x \<in> set xs \<Longrightarrow> pureAt s (f x)) \<Longrightarrow> pureAt s (forEach f xs)"
  by (induction xs) (auto intro: pureAt_andThen pureAt_prims)

lemma pureAt_base:
  "indexed s pk r \<Longrightarrow> senderPublicKey (data t) = Some pk \<Longrightarrow> pureAt s (throwIfCannotBeApplied_base E t r)"
  by (simp add: pureAt_def base_known split: option.split)

lemma pureAt_unvotes: "keysKnown s us \<Longrightarrow> pureAt s (unvoteChecks E us v)"
  by (induction us arbitrary: v) (auto simp: keysKnown_def intro!: pureAt_andThen pureAt_prims pureAt_byKey)

lemma pureAt_voteGuard:
  assumes "indexed s pk r" and "senderPublicKey (data t) = Some pk"
    and "as_votes (asset (data t)) = Some vs" and "as_unvotes (asset (data t)) = Some us"
    and "keysKnown s vs" and "keysKnown s us"
  shows "pureAt s (voteGuard E t r)"
  unfolding voteGuard_def checkVoteAsset_def voteCheck_def using assms(3-6)
  by (auto simp: keysKnown_def intro!: pureAt_andThen pureAt_prims pureAt_byKey pureAt_forEach
      pureAt_unvotes pureAt_base[OF assms(1,2)])

lemma pureD: "pureAt s m \<Longrightarrow> andThen m f s = (Inr y, s') \<Longrightarrow> \<exists>x. m s = (Inr x, s) \<and> f x s = (Inr y, s')"
  unfolding pureAt_def by (erule andThen_InrE) force

text \<open>What an accepted vote transaction satisfies.\<close>

lemma voteGuard_Inr:
  assumes "indexed s pk r" and "senderPublicKey (data t) = Some pk"
    and "as_votes (asset (data t)) = Some vs" and "as_unvotes (asset (data t)) = Some us"
    and "keysKnown s vs" and "keysKnown s us" and "voteGuard E t r s = (Inr u, s')"
  shows "baseCheck (objs s r) (data t) = None" and "length vs \<le> 1" and "length us \<le> 1"
    and "us \<noteq> [] \<Longrightarrow> wvote (objs s r) = Some (hd us)"
    and "us = [] \<Longrightarrow> vs \<noteq> [] \<Longrightarrow> \<not> truthyStr (wvote (objs s r))"
    and "us \<noteq> [] \<or> vs \<noteq> []"
proof -
  show "us \<noteq> [] \<or> vs \<noteq> []"
    using assms(3,4,7) by (auto simp: voteGuard_def checkVoteAsset_def andThen_def split: if_splits)
  have 1: "length vs \<le> 1" "length us \<le> 1"
    using assms(3,4,7) by (auto simp: voteGuard_def checkVoteAsset_def andThen_def split: if_splits)
  obtain wv where wv: "unvoteChecks E us (wvote (objs s r)) s = (Inr wv, s)"
    and rest: "andThen (forEach (voteCheck E wv) vs) (\<lambda>_. throwIfCannotBeApplied_base E t r) s = (Inr u, s')"
  proof -
    have "voteGuard E t r s = andThen (unvoteChecks E us (wvote (objs s r)))
        (\<lambda>wv. andThen (forEach (voteCheck E wv) vs) (\<lambda>_. throwIfCannotBeApplied_base E t r)) s"
      using assms(3,4,7) 1
      by (auto simp: voteGuard_def checkVoteAsset_def andThen_def split: if_splits)
    then show ?thesis
      using assms(7) pureD[OF pureAt_unvotes[OF assms(6)]] that by (metis (no_types, lifting))
  qed
  have "pureAt s (forEach (voteCheck E wv) vs)"
    unfolding voteCheck_def using assms(5)
    by (auto simp: keysKnown_def intro!: pureAt_forEach pureAt_andThen pureAt_prims pureAt_byKey)
  then obtain x where votes: "forEach (voteCheck E wv) vs s = (Inr x, s)"
    and base: "throwIfCannotBeApplied_base E t r s = (Inr u, s')"
    using rest by (auto dest!: pureD)
  show "baseCheck (objs s r) (data t) = None"
    using base base_known[OF assms(1,2), of E] by (simp split: option.splits)
  show "length vs \<le> 1" "length us \<le> 1" by (fact 1)+
  show "wvote (objs s r) = Some (hd us)" if "us \<noteq> []"
    using wv that assms(6)
    by (cases us) (auto simp: keysKnown_def run_simps split: if_splits)
  show "\<not> truthyStr (wvote (objs s r))" if "us = []" "vs \<noteq> []"
    using wv votes that assms(5)
    by (cases vs) (auto simp: keysKnown_def voteCheck_def run_simps split: if_splits)
qed

text \<open>The vote a wallet ends up with: dropping \<open>us\<close>, then casting \<open>vs\<close>.\<close>

definition newVote :: "string list \<Rightarrow> string list \<Rightarrow> string option \<Rightarrow> string option" where
  "newVote us vs old = (if vs \<noteq> [] then Some (last vs) else if us \<noteq> [] then None else old)"

lemma setVotes:
  "forEach (\<lambda>v. updW r (\<lambda>w. w\<lparr>wvote := Some v\<rparr>)) vs s =
    (Inr (), s\<lparr>objs := (objs s)(r := (objs s r)\<lparr>wvote := newVote [] vs (wvote (objs s r))\<rparr>)\<rparr>)"
  by (induction vs arbitrary: s) (auto simp: andThen_def newVote_def)

lemma voteExtra_known:
  assumes "senderPublicKey (data t) = Some pk" and "lookup s Chain PublicKeys pk = Some r"
    and "as_votes (asset (data t)) = Some vs" and "as_unvotes (asset (data t)) = Some us"
  shows "applySenderExtra E Vote t s =
      (Inr (), s\<lparr>objs := (objs s)(r := (objs s r)\<lparr>wvote := newVote us vs (wvote (objs s r))\<rparr>)\<rparr>)"
    and "revertSenderExtra E Vote t s =
      (Inr (), s\<lparr>objs := (objs s)(r := (objs s r)\<lparr>wvote := newVote vs us (wvote (objs s r))\<rparr>)\<rparr>)"
  using assms by (auto simp: run_simps setVotes newVote_def)

lemma vote_result:
  assumes "indexed s pk r" and "senderPublicKey (data t) = Some pk"
    and "as_votes (asset (data t)) = Some vs" and "as_unvotes (asset (data t)) = Some us"
    and "keysKnown s vs" and "keysKnown s us" and "wvote (objs s r) \<noteq> Some ''''"
    and "applyTx E Vote t s = (Inr u, s')"
  shows "wnonce (objs s r) + 1 = nonceOf (data t)"
    and "throwIfCannotBeApplied E Vote t r s = (Inr (), s)"
    and "s' = s\<lparr>objs := (objs s)(r := (objs s r)\<lparr>wnonce := nonceOf (data t),
      wbalance := wbalance (objs s r) - amount (data t) - fee (data t),
      wvote := newVote us vs (wvote (objs s r))\<rparr>)\<rparr>"
proof -
  let ?d = "data t"
  have pk: "lookup s Chain PublicKeys pk = Some r" using assms(1) by (simp add: indexed_def)
  obtain s1 where s1: "applyToSender_base E Vote t s = (Inr (), s1)"
    using assms(8) by (auto simp: applyTx_def applyToSender_def elim!: andThen_InrE)
  note acc = voteGuard_Inr[OF assms(1-6)]
  have "s2 = s" if "throwIfCannotBeApplied E Vote t r s = (x, s2)" for x s2
    using that pureAt_voteGuard[OF assms(1-6), of E] by (simp add: pureAt_def)
  then have base: "s1 = s\<lparr>objs := paidHeap ?d r (objs s)\<rparr>" "wnonce (objs s r) + 1 = nonceOf ?d"
      "throwIfCannotBeApplied E Vote t r s = (Inr (), s)"
    using applyBase_Inr[OF assms(1,2) _ _ s1] acc(1) by simp_all
  let ?v = "newVote us vs (wvote (objs s r))"
  let ?w = "(objs s r)\<lparr>wnonce := nonceOf ?d, wbalance := wbalance (objs s r) - amount ?d - fee ?d,
    wvote := ?v\<rparr>"
  show "s' = s\<lparr>objs := (objs s)(r := ?w)\<rparr>"
    using assms(8) s1 voteExtra_known(1)[OF assms(2) _ assms(3,4), of s1 r E] pk
    by (simp add: applyTx_def applyToSender_def andThen_def base(1) paidHeap_def)
  show "wnonce (objs s r) + 1 = nonceOf ?d" "throwIfCannotBeApplied E Vote t r s = (Inr (), s)"
    by (fact base(2,3))+
qed

lemma vote_revert_apply:
  assumes "indexed s pk r" and "senderPublicKey (data t) = Some pk"
    and "as_votes (asset (data t)) = Some vs" and "as_unvotes (asset (data t)) = Some us"
    and "keysKnown s vs" and "keysKnown s us" and "wvote (objs s r) \<noteq> Some ''''"
    and "applyTx E Vote t s = (Inr u, s')"
  shows "revertTx E Vote t s' = (Inr (), s)"
proof -
  let ?d = "data t" and ?v = "newVote us vs (wvote (objs s r))"
  have pk: "lookup s Chain PublicKeys pk = Some r" using assms(1) by (simp add: indexed_def)
  note acc = voteGuard_Inr[OF assms(1-6)]
  note base = refl vote_result(1,2)[OF assms]
  note s' = vote_result(3)[OF assms]
  have "revertForSender_base E t s' = (Inr (), s\<lparr>objs := (objs s)(r := (objs s r)\<lparr>wvote := ?v\<rparr>)\<rparr>)"
    using revertBase_known[OF assms(2), of s' r E] pk base(2)[symmetric] by (simp add: s')
  then have "revertTx E Vote t s' = (Inr (), s\<lparr>objs := (objs s)(r := (objs s r)
      \<lparr>wvote := newVote vs us ?v\<rparr>)\<rparr>)"
    using voteExtra_known(2)[OF assms(2) _ assms(3,4), of
        "s\<lparr>objs := (objs s)(r := (objs s r)\<lparr>wvote := ?v\<rparr>)\<rparr>" r E] pk
    by (simp add: revertTx_def revertForSender_def andThen_def)
  moreover have "newVote vs us ?v = wvote (objs s r)"
    using acc(3-5)[of E u] base(3) assms(7)
    by (cases us; cases vs; cases "wvote (objs s r)") (auto simp: newVote_def)
  ultimately show ?thesis by simp
qed

section \<open>Multi-signature wallets\<close>

text \<open>An allocated wallet with a multi-signature asset stays one whatever is looked up.\<close>

definition isMultiSig :: "nat \<Rightarrow> wstate \<Rightarrow> bool" where
  "isMultiSig r s \<longleftrightarrow> r < nextRef s \<and> hasMultiSignature (objs s r)"

lemma keeps_multiSig_updW:
  "(\<And>w. wmultiSignature (f w) = wmultiSignature w) \<Longrightarrow> keeps (isMultiSig r) (updW q f)"
  by (auto simp: keeps_def isMultiSig_def hasMultiSignature_def)

lemma keeps_multiSig_prims:
  "keeps (isMultiSig r) (onIndex rp n g)" "keeps (isMultiSig r) (createWallet a)"
  "keeps (isMultiSig r) (hasByIndex rp n k)" "keeps (isMultiSig r) (wal q)"
  by (auto simp: keeps_def isMultiSig_def onIndex_def createWallet_def alloc_def hasByIndex_def)

lemma keeps_multiSig_find [keeps_intros]: "keeps (isMultiSig r) (findByAddress rp a)"
  "keeps (isMultiSig r) (findByPublicKey f rp k)"
proof -
  show a: "keeps (isMultiSig r) (findByAddress rp a)" for rp a
    unfolding findByAddress_def setOnIndex_def by (intro keeps_intros keeps_multiSig_prims)
  show "keeps (isMultiSig r) (findByPublicKey f rp k)"
    unfolding findByPublicKey_def setOnIndex_def hasByPublicKey_def
    by (intro keeps_intros keeps_multiSig_prims keeps_multiSig_updW a) (simp_all add: setPublicKey_def)
qed

lemma keeps_multiSig_senderOf [keeps_intros]: "keeps (isMultiSig r) (senderOf E d)"
  unfolding senderOf_def byKey_def by (intro keeps_intros)

lemma keeps_multiSig_byKey [keeps_intros]: "keeps (isMultiSig r) (byKey E k)"
  unfolding byKey_def by (intro keeps_intros)

text \<open>A program that never returns normally from the states of \<open>P\<close>.\<close>

definition blocked :: "('s \<Rightarrow> bool) \<Rightarrow> ('s, 'e, 'a) prog \<Rightarrow> bool" where
  "blocked P m \<longleftrightarrow> (\<forall>s x s'. P s \<longrightarrow> m s \<noteq> (Inr x, s'))"

lemma blocked_after: "keeps P m \<Longrightarrow> (\<And>x. blocked P (f x)) \<Longrightarrow> blocked P (andThen m f)"
  unfolding blocked_def by (metis andThen_InrE keepsD)

lemma blocked_first: "blocked P m \<Longrightarrow> blocked P (andThen m f)"
  unfolding blocked_def by (metis andThen_InrE)

lemma base_multiSig: "blocked (isMultiSig r) (throwIfCannotBeApplied_base E t r)"
proof -
  have "throwIfCannotBeApplied_base E t r s \<noteq> (Inr x, s')" if "isMultiSig r s" for s x s'
  proof
    assume run: "throwIfCannotBeApplied_base E t r s = (Inr x, s')"
    obtain q s1 where s1: "byAddress (waddress (objs s r)) s = (Inr q, s1)"
      using run by (auto simp: throwIfCannotBeApplied_base_def andThen_def split: prod.splits sum.splits)
    have "isMultiSig r s1"
      using keepsD[OF keeps_multiSig_find(1) that s1[unfolded byAddress_def]] .
    then show False
      using run s1
      by (cases "wpublicKey (objs s1 r)")
        (auto simp: throwIfCannotBeApplied_base_def andThen_def isMultiSig_def hasByPublicKey_apply
          verifyTransactionNonceApply_def legacy_unknown split: if_splits prod.splits sum.splits)
  qed
  then show ?thesis by (simp add: blocked_def)
qed

lemma guard_multiSig: "blocked (isMultiSig r) (throwIfCannotBeApplied E h t r)"
proof -
  note base = base_multiSig[of r E t]
  have unvotes: "keeps (isMultiSig r) (unvoteChecks E us v)" for us v
    by (induction E us v rule: unvoteChecks.induct) (auto intro!: keeps_intros keeps_multiSig_prims simp: keeps_def[of _ "Pair _"])
  show ?thesis
    by (cases h)
      (auto simp: multiPaymentGuard_def registrationGuard_def resignationGuard_def voteGuard_def
        multiSignatureGuard_def checkVoteAsset_def voteCheck_def paymentsOf_def hasByUsername_def
        activeValidatorCount_def
        intro!: blocked_after base keeps_intros keeps_multiSig_prims unvotes)
qed

section \<open>Indexing a wallet\<close>

text \<open>The key under which an index holds a wallet.\<close>

fun keyOf :: "index_name \<Rightarrow> wallet \<Rightarrow> string option" where
  "keyOf Addresses w = (if waddress w = '''' then None else Some (waddress w))"
| "keyOf PublicKeys w = (if truthyStr (wpublicKey w) then wpublicKey w else None)"
| "keyOf Usernames w = (if isValidator w then validatorAttr va_username w else None)"
| "keyOf Resignations w = (if hasResigned w then validatorAttr va_username w else None)"

lemma onIndex_apply: "onIndex rp n f s = (Inr (), s\<lparr>idx := (idx s)(rp := (idx s rp)(n := f (idx s rp n)))\<rparr>)"
  by (simp add: onIndex_def)

lemma hasResigned_isValidator: "hasResigned w \<Longrightarrow> isValidator w"
  by (auto simp: hasResigned_def isValidator_def split: option.splits)

definition putKey :: "string option \<Rightarrow> nat \<Rightarrow> windex \<Rightarrow> windex" where
  "putKey k r i = (case k of None \<Rightarrow> i | Some k \<Rightarrow> ix_set k r i)"

lemma indexer_apply:
  assumes "isValidator (objs s r) \<Longrightarrow> validatorAttr va_username (objs s r) \<noteq> None"
  shows "indexer rp n r s =
    (Inr (), s\<lparr>idx := (idx s)(rp := (idx s rp)(n := putKey (keyOf n (objs s r)) r (idx s rp n)))\<rparr>)"
  using assms hasResigned_isValidator[of "objs s r"]
  by (cases n; cases "wpublicKey (objs s r)"; cases "validatorAttr va_username (objs s r)")
    (auto simp: putKey_def setOnIndex_def onIndex_apply andThen_def truthyStr_def whenever_def)

definition reindex :: "nat \<Rightarrow> wallet \<Rightarrow> index_name \<Rightarrow> windex \<Rightarrow> windex" where
  "reindex r w n i = putKey (keyOf n w) r (ix_forgetWallet r i)"

lemma indexWallet_apply:
  assumes "isValidator (objs s r) \<Longrightarrow> validatorAttr va_username (objs s r) \<noteq> None"
  shows "indexWallet rp r s =
    (Inr (), s\<lparr>idx := (idx s)(rp := (\<lambda>n. reindex r (objs s r) n (idx s rp n)))\<rparr>)"
proof -
  have step: "andThen (onIndex rp n (ix_forgetWallet r)) (\<lambda>_. indexer rp n r) s' =
      (Inr (), s'\<lparr>idx := (idx s')(rp := (idx s' rp)(n := reindex r (objs s r) n (idx s' rp n)))\<rparr>)"
    if "objs s' = objs s" for s' n
    using assms indexer_apply[of "s'\<lparr>idx := (idx s')(rp := (idx s' rp)(n := ix_forgetWallet r (idx s' rp n)))\<rparr>" r rp n]
    by (simp add: andThen_def onIndex_apply that reindex_def)
  have all: "(f(Addresses := g Addresses (f Addresses), PublicKeys := g PublicKeys (f PublicKeys),
      Usernames := g Usernames (f Usernames), Resignations := g Resignations (f Resignations)))
      = (\<lambda>n. g n (f n))" for f and g :: "index_name \<Rightarrow> windex \<Rightarrow> windex"
  proof
    fix n show "(f(Addresses := g Addresses (f Addresses), PublicKeys := g PublicKeys (f PublicKeys),
      Usernames := g Usernames (f Usernames), Resignations := g Resignations (f Resignations))) n
      = g n (f n)" by (cases n) simp_all
  qed
  show ?thesis
    unfolding indexWallet_def allIndexes_def
    by (simp del: indexer.simps add: andThen_Inr[OF step] all)
qed

lemma lookup_reindex:
  assumes "ix_inv i"
  shows "ix_get (reindex r w n i) k =
    (if keyOf n w = Some k then Some r else if ix_get i k = Some r then None else ix_get i k)"
  using assms windex.reindex_look[OF assms, of _ r] windex.look_delWallet[OF assms]
  by (auto simp: reindex_def putKey_def split: option.splits)

section \<open>Registering and resigning\<close>

text \<open>The wallet is found exactly under its own keys.\<close>

definition ownKeys :: "wstate \<Rightarrow> nat \<Rightarrow> bool" where
  "ownKeys s r \<longleftrightarrow> (\<forall>n. ix_inv (idx s Chain n)) \<and>
     (\<forall>n k. lookup s Chain n k = Some r \<longleftrightarrow> keyOf n (objs s r) = Some k)"

text \<open>Equal up to the iteration order of the indexes.\<close>

definition sameRepo :: "wstate \<Rightarrow> wstate \<Rightarrow> bool" where
  "sameRepo s s' \<longleftrightarrow> objs s' = objs s \<and> nextRef s' = nextRef s \<and> lookup s' = lookup s"

lemma lookup_reindexed:
  assumes "\<forall>n. ix_inv (idx s Chain n)"
  shows "lookup (s\<lparr>idx := (idx s)(Chain := (\<lambda>n. reindex r w n (idx s Chain n)))\<rparr>) rp n k =
    (if rp = Chain then
       (if keyOf n w = Some k then Some r else if lookup s Chain n k = Some r then None
        else lookup s Chain n k)
     else lookup s rp n k)"
  using assms by (simp add: lookup_def lookup_reindex)

lemma reindexed_inv: "ix_inv i \<Longrightarrow> ix_inv (reindex r w n i)"
  by (simp add: reindex_def putKey_def ix_inv_set ix_inv_forgetWallet split: option.split)

lemma hasByUsername_apply: "hasByUsername rp k s = (Inr (lookup s rp Usernames k \<noteq> None), s)"
  by (simp add: hasByUsername_def hasByIndex_def ix_has_get lookup_def)

lemma registrationGuard_known:
  assumes "indexed s pk r" and "senderPublicKey (data t) = Some pk"
    and "as_username (asset (data t)) = Some un"
  shows "registrationGuard E t r s =
    (if hasMultiSignature (objs s r) then (Inl (CryptoError NotSupportedForMultiSignatureWalletError), s)
     else if isValidator (objs s r) then (Inl (CryptoError WalletIsAlreadyValidatorError), s)
     else if lookup s Chain Usernames un \<noteq> None
       then (Inl (CryptoError (WalletUsernameAlreadyRegisteredError un)), s)
     else (case baseCheck (objs s r) (data t) of None \<Rightarrow> (Inr (), s) | Some e \<Rightarrow> (Inl e, s)))"
proof -
  have pk: "lookup s Chain PublicKeys pk = Some r" using assms(1) by (simp add: indexed_def)
  show ?thesis
    using assms(2,3) pk base_known[OF assms(1,2), of E]
    by (simp add: registrationGuard_def run_simps hasByUsername_apply)
qed

lemma registration_apply:
  assumes "indexed s pk r" and "senderPublicKey (data t) = Some pk"
    and "as_username (asset (data t)) = Some un" and "\<forall>n. ix_inv (idx s Chain n)"
    and "applyTx E ValidatorRegistration t s = (Inr u, s')"
  shows "lookup s Chain Usernames un = None" and "\<not> isValidator (objs s r)"
    and "wnonce (objs s r) + 1 = nonceOf (data t)"
    and "s' = (let w = registerValidator un (paidHeap (data t) r (objs s) r) in
      s\<lparr>objs := (objs s)(r := w), idx := (idx s)(Chain := (\<lambda>n. reindex r w n (idx s Chain n)))\<rparr>)"
proof -
  let ?d = "data t"
  have pk: "lookup s Chain PublicKeys pk = Some r" using assms(1) by (simp add: indexed_def)
  obtain s1 where s1: "applyToSender_base E ValidatorRegistration t s = (Inr (), s1)"
    using assms(5) by (auto simp: applyTx_def applyToSender_def elim!: andThen_InrE)
  note guard = registrationGuard_known[OF assms(1-3), of E]
  have "s2 = s" if "throwIfCannotBeApplied E ValidatorRegistration t r s = (x, s2)" for x s2
    using that by (simp add: guard split: if_splits option.splits)
  moreover have ok: "lookup s Chain Usernames un = None \<and> \<not> isValidator (objs s r) \<and>
      baseCheck (objs s r) ?d = None"
    if "throwIfCannotBeApplied E ValidatorRegistration t r s = (Inr v, s)" for v
    using that by (simp add: guard split: if_splits option.splits)
  ultimately have base: "s1 = s\<lparr>objs := paidHeap ?d r (objs s)\<rparr>" "wnonce (objs s r) + 1 = nonceOf ?d"
      "throwIfCannotBeApplied E ValidatorRegistration t r s = (Inr (), s)"
    using applyBase_Inr[OF assms(1,2) _ _ s1] by simp_all
  show "lookup s Chain Usernames un = None" "\<not> isValidator (objs s r)"
      "wnonce (objs s r) + 1 = nonceOf ?d"
    using ok base by simp_all
  let ?w = "registerValidator un (paidHeap ?d r (objs s) r)"
  have "validatorAttr va_username ?w \<noteq> None"
    by (simp add: registerValidator_def validatorAttr_def)
  then have "applySenderExtra E ValidatorRegistration t s1 =
      (Inr (), s\<lparr>objs := (objs s)(r := ?w), idx := (idx s)(Chain := (\<lambda>n. reindex r ?w n (idx s Chain n)))\<rparr>)"
    using assms(2,3) pk
    by (simp add: run_simps base(1) indexWallet_apply) (simp add: paidHeap_def)
  then show "s' = (let w = ?w in
      s\<lparr>objs := (objs s)(r := w), idx := (idx s)(Chain := (\<lambda>n. reindex r w n (idx s Chain n)))\<rparr>)"
    using assms(5) s1 by (simp add: applyTx_def applyToSender_def andThen_def Let_def)
qed

lemma applyTx_guarded:
  assumes "senderPublicKey (data t) = Some pk" and "lookup s Chain PublicKeys pk = Some r"
    and "throwIfCannotBeApplied E h t r s = (Inl e, s)"
  shows "applyTx E h t s = (Inl e, s)"
  using assms by (simp add: applyTx_def applyToSender_def applyToSender_base_def run_simps)

lemma registration_accepted:
  assumes "indexed s pk r" and "senderPublicKey (data t) = Some pk" and "nonce (data t) \<noteq> None"
    and "as_username (asset (data t)) = Some un"
    and "registrationGuard E t r s = (Inr (), s)" and "baseCheck (objs s r) (data t) = None"
  shows "\<exists>s'. applyTx E ValidatorRegistration t s = (Inr (), s')"
proof -
  have "wnonce (objs s r) + 1 = nonceOf (data t)"
    using assms(6) by (auto simp: baseCheck_def split: if_splits)
  then have base: "applyToSender_base E ValidatorRegistration t s = (Inr (), s\<lparr>objs := (objs s)(r := (objs s r)
      \<lparr>wnonce := nonceOf (data t), wbalance := wbalance (objs s r) - amount (data t) - fee (data t)\<rparr>)\<rparr>)"
    using applyToSender_known [OF assms(1-3), of E ValidatorRegistration] assms(5) by simp
  have "lookup s Chain PublicKeys pk = Some r" using assms(1) by (simp add: indexed_def)
  moreover have "validatorAttr va_username (registerValidator un w) \<noteq> None" for w
    by (simp add: registerValidator_def validatorAttr_def)
  ultimately show ?thesis
    using assms(2,4) by (simp add: applyTx_def applyToSender_def base run_simps indexWallet_apply)
qed

text \<open>What a registration does, on every branch of its guard.\<close>

definition registrationResult :: "wstate \<Rightarrow> txdata \<Rightarrow> nat \<Rightarrow> string \<Rightarrow> (error + unit) \<times> wstate" where
  "registrationResult s d r un =
    (if hasMultiSignature (objs s r) then (Inl (CryptoError NotSupportedForMultiSignatureWalletError), s)
     else if isValidator (objs s r) then (Inl (CryptoError WalletIsAlreadyValidatorError), s)
     else if lookup s Chain Usernames un \<noteq> None
       then (Inl (CryptoError (WalletUsernameAlreadyRegisteredError un)), s)
     else case baseCheck (objs s r) d of
       Some e \<Rightarrow> (Inl e, s)
     | None \<Rightarrow> (Inr (), let w = registerValidator un (paidHeap d r (objs s) r) in
         s\<lparr>objs := (objs s)(r := w), idx := (idx s)(Chain := (\<lambda>n. reindex r w n (idx s Chain n)))\<rparr>))"

lemma registration_spec:
  assumes "indexed s pk r" and "senderPublicKey (data t) = Some pk" and "nonce (data t) \<noteq> None"
    and "as_username (asset (data t)) = Some un" and "\<forall>n. ix_inv (idx s Chain n)"
  shows "applyTx E ValidatorRegistration t s = registrationResult s (data t) r un"
proof -
  have pk: "lookup s Chain PublicKeys pk = Some r" using assms(1) by (simp add: indexed_def)
  note guard = registrationGuard_known [OF assms(1,2,4), of E]
  note rejected = applyTx_guarded [OF assms(2) pk, of E ValidatorRegistration]
  show ?thesis
  proof (cases "registrationGuard E t r s = (Inr (), s)")
    case True
    then have "baseCheck (objs s r) (data t) = None" and fresh: "\<not> hasMultiSignature (objs s r)"
        "\<not> isValidator (objs s r)" "lookup s Chain Usernames un = None"
      by (simp_all add: guard split: if_splits option.splits)
    moreover obtain s' where s': "applyTx E ValidatorRegistration t s = (Inr (), s')"
      using registration_accepted [OF assms(1-4) True] calculation(1) by blast
    ultimately show ?thesis
      using registration_apply(4) [OF assms(1,2,4,5) s'] by (simp add: registrationResult_def)
  next
    case False
    then show ?thesis using rejected
      by (simp add: guard registrationResult_def split: if_splits option.splits)
  qed
qed

lemma registration_revert_apply:
  assumes "indexed s pk r" and "senderPublicKey (data t) = Some pk" and "ownKeys s r"
    and "as_username (asset (data t)) = Some un"
    and "applyTx E ValidatorRegistration t s = (Inr u, s')"
  shows "\<exists>s''. revertTx E ValidatorRegistration t s' = (Inr (), s'') \<and> sameRepo s s''"
proof -
  let ?d = "data t" and ?w = "registerValidator un (paidHeap (data t) r (objs s) r)"
  have inv: "\<forall>n. ix_inv (idx s Chain n)" using assms(3) by (simp add: ownKeys_def)
  note app = registration_apply[OF assms(1,2,4) inv assms(5)]
  have s': "s' = s\<lparr>objs := (objs s)(r := ?w),
      idx := (idx s)(Chain := (\<lambda>n. reindex r ?w n (idx s Chain n)))\<rparr>"
    using app(4) by (simp add: Let_def)
  have keys: "keyOf n (objs s r) = Some k \<Longrightarrow> keyOf n ?w = Some k" for n k
    using app(2) hasResigned_isValidator[of "objs s r"]
    by (cases n) (auto simp: registerValidator_def paidHeap_def isValidator_def split: if_splits)
  have pk: "lookup s Chain PublicKeys pk = Some r" using assms(1) by (simp add: indexed_def)
  have "keyOf PublicKeys ?w = Some pk"
    using pk assms(3) keys by (simp add: ownKeys_def del: keyOf.simps)
  then have pk': "lookup s' Chain PublicKeys pk = Some r"
    using lookup_reindexed[OF inv, of r ?w Chain PublicKeys pk]
    by (simp add: s' lookup_def del: keyOf.simps)
  have "wnonce (objs s' r) = nonceOf ?d" by (simp add: s' registerValidator_def paidHeap_def)
  note rb = revertBase_known[OF assms(2) pk' this, of E]
  let ?s2 = "s'\<lparr>objs := objs s, idx := (idx s')(Chain := (\<lambda>n. reindex r (objs s r) n (idx s' Chain n)))\<rparr>"
  have w: "(objs s r)\<lparr>wvalidator := None\<rparr> = objs s r" using app(2) by (simp add: isValidator_def)
  have "revertTx E ValidatorRegistration t s' = (Inr (), ?s2)"
  proof -
    let ?h = "(objs s')(r := (objs s' r)\<lparr>wbalance := wbalance (objs s' r) + (amount ?d + fee ?d),
        wnonce := nonceOf ?d - 1\<rparr>)"
    have h: "?h(r := (?h r)\<lparr>wvalidator := None\<rparr>) = objs s"
      using app(2) app(3)[symmetric]
      by (auto simp: s' registerValidator_def paidHeap_def fun_eq_iff isValidator_def)
    have "revertSenderExtra E ValidatorRegistration t (s'\<lparr>objs := ?h\<rparr>) = (Inr (), ?s2)"
      using assms(2) pk' h app(2) indexWallet_apply[of "s'\<lparr>objs := objs s\<rparr>" r Chain]
      by (simp add: run_simps)
    then show ?thesis using rb by (simp add: revertTx_def revertForSender_def andThen_def)
  qed
  moreover have "lookup ?s2 rp n k = lookup s rp n k" for rp n k
  proof -
    have inv': "\<forall>n. ix_inv (idx s' Chain n)" using inv by (simp add: s' reindexed_inv)
    have l1: "lookup s' rp n k = (if rp = Chain then
        (if keyOf n ?w = Some k then Some r else if lookup s Chain n k = Some r then None
         else lookup s Chain n k) else lookup s rp n k)"
      using lookup_reindexed[OF inv, of r ?w rp n k] by (simp add: s' lookup_def del: keyOf.simps)
    have l2: "lookup ?s2 rp n k = (if rp = Chain then
        (if keyOf n (objs s r) = Some k then Some r else if lookup s' Chain n k = Some r then None
         else lookup s' Chain n k) else lookup s' rp n k)"
      using lookup_reindexed[OF inv', of r "objs s r" rp n k] by (simp add: lookup_def del: keyOf.simps)
    have own: "lookup s Chain n k = Some r \<longleftrightarrow> keyOf n (objs s r) = Some k"
      using assms(3) by (simp add: ownKeys_def)
    have fresh: "keyOf n ?w = Some k \<Longrightarrow> keyOf n (objs s r) = Some k \<or> lookup s Chain n k = None"
      using app(1) by (cases n)
        (auto simp: registerValidator_def paidHeap_def isValidator_def hasResigned_def
          validatorAttr_def noValidator_def split: if_splits)
    show ?thesis
    proof (cases "rp = Chain")
      case True
      then show ?thesis
        unfolding l2 using l1 own fresh keys[of n k]
        by (cases "keyOf n (objs s r) = Some k"; cases "keyOf n ?w = Some k") (simp_all del: keyOf.simps)
    next
      case False
      then show ?thesis unfolding l2 using l1 by simp
    qed
  qed
  ultimately show ?thesis by (auto simp: sameRepo_def s' fun_eq_iff)
qed

end
