(* ===== verification/Config.thy ===== *)
theory Config
  imports Types
begin

text \<open>
  \<open>Configuration\<close> of packages/core-crypto-config: the milestones, their validation and merging,
  the cursor that \<open>getMilestone\<close> moves, and the search for the next milestone that changes a key.
  A milestone is a record of the keys the program reads; a key a milestone does not set is \<open>None\<close>.
\<close>

section \<open>Milestones\<close>

record milestone =
  m_height :: int
  m_activeValidators :: "int option"
  m_blockTime :: "int option"
  m_reward :: "int option"
  m_maxPayload :: "int option"
  m_maxTransactions :: "int option"
  m_blockVersion :: "int option"
  m_epoch :: "int option"
  m_vendorFieldLength :: "int option"
  m_multiPaymentLimit :: "int option"

definition override :: "'a option \<Rightarrow> 'a option \<Rightarrow> 'a option" where
  "override old new = (case new of None \<Rightarrow> old | Some v \<Rightarrow> Some v)"

text \<open>\<open>deepmerge(previous, next)\<close>: a key the next milestone sets wins.\<close>

definition mergeMilestone :: "milestone \<Rightarrow> milestone \<Rightarrow> milestone" where
  "mergeMilestone a b =
     \<lparr>m_height = m_height b,
      m_activeValidators = override (m_activeValidators a) (m_activeValidators b),
      m_blockTime = override (m_blockTime a) (m_blockTime b),
      m_reward = override (m_reward a) (m_reward b),
      m_maxPayload = override (m_maxPayload a) (m_maxPayload b),
      m_maxTransactions = override (m_maxTransactions a) (m_maxTransactions b),
      m_blockVersion = override (m_blockVersion a) (m_blockVersion b),
      m_epoch = override (m_epoch a) (m_epoch b),
      m_vendorFieldLength = override (m_vendorFieldLength a) (m_vendorFieldLength b),
      m_multiPaymentLimit = override (m_multiPaymentLimit a) (m_multiPaymentLimit b)\<rparr>"

fun mergeFrom :: "milestone \<Rightarrow> milestone list \<Rightarrow> milestone list" where
  "mergeFrom prev [] = []"
| "mergeFrom prev (m # ms) = (let m' = mergeMilestone prev m in m' # mergeFrom m' ms)"

definition mergeAll :: "milestone list \<Rightarrow> milestone list" where
  "mergeAll ms = (case ms of [] \<Rightarrow> [] | m # rest \<Rightarrow> m # mergeFrom m rest)"

section \<open>The configuration object\<close>

text \<open>\<open>cursor\<close> is \<open>#milestone.index\<close>; it can become \<open>-1\<close> when a lookup fails.\<close>

record cfg =
  milestones :: "milestone list option"
  cursor :: int
  cheight :: "int option"

definition newCfg :: cfg where
  "newCfg = \<lparr>milestones = None, cursor = 0, cheight = None\<rparr>"

definition sortMilestones :: "milestone list \<Rightarrow> milestone list" where
  "sortMilestones ms = sort_key m_height ms"

text \<open>\<open>#validateMilestones\<close>: the validator count may change only at the start of a round.\<close>

fun validateFrom :: "milestone \<Rightarrow> milestone list \<Rightarrow> error + unit" where
  "validateFrom previous [] = Inr ()"
| "validateFrom previous (current # rest) =
     (if m_activeValidators previous = m_activeValidators current then validateFrom current rest
      else if jsMod (m_height current - m_height previous) (the (m_activeValidators previous)) \<noteq> 0
        then Inl (CryptoError (InvalidMilestoneConfigurationError (m_height current)))
      else validateFrom current rest)"

definition validateMilestones :: "milestone list \<Rightarrow> error + unit" where
  "validateMilestones ms =
     (case filter (\<lambda>m. truthyNum (m_activeValidators m)) (sortMilestones ms) of
        [] \<Rightarrow> Inr () | m # rest \<Rightarrow> validateFrom m rest)"

definition setConfig :: "milestone list \<Rightarrow> cfg \<Rightarrow> (error + unit) \<times> cfg" where
  "setConfig ms c =
     (case validateMilestones ms of
        Inl e \<Rightarrow> (Inl e, c)
      | Inr _ \<Rightarrow> (Inr (), c\<lparr>milestones := Some (mergeAll (sortMilestones ms)), cursor := 0\<rparr>))"

definition setHeight :: "int \<Rightarrow> cfg \<Rightarrow> cfg" where
  "setHeight h c = c\<lparr>cheight := Some h\<rparr>"

definition isNewMilestone :: "int option \<Rightarrow> cfg \<Rightarrow> error + bool" where
  "isNewMilestone h c =
     (let height = (if truthyNum h then h else cheight c)
      in case milestones c of
           None \<Rightarrow> Inl (PlainError '''')
         | Some ms \<Rightarrow> Inr (list_ex (\<lambda>m. Some (m_height m) = height) ms))"

text \<open>The two loops of \<open>getMilestone\<close>: the cursor climbs, then descends.\<close>

function climb :: "milestone list \<Rightarrow> int \<Rightarrow> int \<Rightarrow> int" where
  "climb ms h i =
     (if i < int (length ms) - 1 \<and> m_height (ms ! nat (i + 1)) \<le> h then climb ms h (i + 1) else i)"
  by auto
termination by (relation "measure (\<lambda>(ms, h, i). nat (int (length ms) - i))") auto

function descend :: "milestone list \<Rightarrow> int \<Rightarrow> int \<Rightarrow> int" where
  "descend ms h i = (if 0 \<le> i \<and> h < m_height (ms ! nat i) then descend ms h (i - 1) else i)"
  by auto
termination by (relation "measure (\<lambda>(ms, h, i). nat (i + 1))") auto

declare climb.simps [simp del] descend.simps [simp del]

text \<open>
  An index of \<open>-1\<close> reads \<open>undefined\<close>: the comparison in the second loop throws, with the cursor
  left there. With no milestones at all the first access of the second loop throws.
\<close>

definition getMilestone :: "int option \<Rightarrow> cfg \<Rightarrow> (error + milestone) \<times> cfg" where
  "getMilestone h c =
     (case milestones c of
        None \<Rightarrow> (Inl (PlainError ''''), c)
      | Some ms \<Rightarrow>
          (let h1 = (if \<not> truthyNum h \<and> truthyNum (cheight c) then cheight c else h);
               height = (if truthyNum h1 then the h1 else 1);
               i = climb ms height (cursor c);
               j = (if int (length ms) \<le> i then i else descend ms height i)
           in if j < 0 \<or> int (length ms) \<le> j then (Inl JsTypeError, c\<lparr>cursor := j\<rparr>)
              else (Inr (ms ! nat j), c\<lparr>cursor := j\<rparr>)))"

section \<open>The milestone in force at a height\<close>

text \<open>The abstract meaning: the last milestone that starts at or below the height.\<close>

definition milestoneAt :: "milestone list \<Rightarrow> int \<Rightarrow> milestone option" where
  "milestoneAt ms h =
     (case filter (\<lambda>m. m_height m \<le> h) ms of [] \<Rightarrow> None | xs \<Rightarrow> Some (last xs))"

definition ascending :: "milestone list \<Rightarrow> bool" where
  "ascending ms \<longleftrightarrow> sorted (map m_height ms)"

lemma ascending_nth: "ascending ms \<Longrightarrow> i \<le> j \<Longrightarrow> j < length ms \<Longrightarrow> m_height (ms ! i) \<le> m_height (ms ! j)"
  using sorted_nth_mono[of "map m_height ms" i j] by (simp add: ascending_def)

lemma climb_spec:
  assumes "ascending ms" and "- 1 \<le> i" and "i < int (length ms)"
    and "i = - 1 \<or> m_height (ms ! nat i) \<le> h \<or> True"
  shows "i \<le> climb ms h i \<and> climb ms h i < int (length ms) \<and>
    (climb ms h i < int (length ms) - 1 \<longrightarrow> h < m_height (ms ! nat (climb ms h i + 1))) \<and>
    (climb ms h i \<noteq> i \<longrightarrow> m_height (ms ! nat (climb ms h i)) \<le> h)"
  using assms
proof (induction ms h i rule: climb.induct)
  case (1 ms h i)
  show ?case
  proof (cases "i < int (length ms) - 1 \<and> m_height (ms ! nat (i + 1)) \<le> h")
    case True
    then have "climb ms h i = climb ms h (i + 1)" by (subst climb.simps) simp
    moreover have "i + 1 \<le> climb ms h (i + 1) \<and> climb ms h (i + 1) < int (length ms) \<and>
      (climb ms h (i + 1) < int (length ms) - 1 \<longrightarrow> h < m_height (ms ! nat (climb ms h (i + 1) + 1))) \<and>
      (climb ms h (i + 1) \<noteq> i + 1 \<longrightarrow> m_height (ms ! nat (climb ms h (i + 1))) \<le> h)"
      using 1 True by simp
    ultimately show ?thesis using True by (cases "climb ms h (i + 1) = i + 1") auto
  next
    case False
    then have "climb ms h i = i" by (subst climb.simps) auto
    then show ?thesis using 1 False by auto
  qed
qed

lemma descend_spec:
  assumes "i < int (length ms)" and "- 1 \<le> i"
    and "i < int (length ms) - 1 \<longrightarrow> h < m_height (ms ! nat (i + 1))"
  shows "- 1 \<le> descend ms h i \<and> descend ms h i \<le> i \<and>
    (descend ms h i < int (length ms) - 1 \<longrightarrow> h < m_height (ms ! nat (descend ms h i + 1))) \<and>
    (0 \<le> descend ms h i \<longrightarrow> m_height (ms ! nat (descend ms h i)) \<le> h)"
  using assms
proof (induction ms h i rule: descend.induct)
  case (1 ms h i)
  show ?case
  proof (cases "0 \<le> i \<and> h < m_height (ms ! nat i)")
    case True
    then have "descend ms h i = descend ms h (i - 1)" by (subst descend.simps) simp
    then show ?thesis using 1 True by simp
  next
    case False
    then have "descend ms h i = i" by (subst descend.simps) auto
    then show ?thesis using 1 False by auto
  qed
qed

text \<open>Between a milestone at or below the height and one above it, the first is in force.\<close>

lemma milestoneAt_nth:
  assumes "ascending ms" and "j < length ms" and "m_height (ms ! j) \<le> h"
    and "Suc j < length ms \<Longrightarrow> h < m_height (ms ! Suc j)"
  shows "milestoneAt ms h = Some (ms ! j)"
proof -
  have "filter (\<lambda>m. m_height m \<le> h) (take (Suc j) ms) = take (Suc j) ms"
  proof (rule filter_True, rule ballI)
    fix m assume "m \<in> set (take (Suc j) ms)"
    then obtain k where "k \<le> j" "m = ms ! k" using assms(2) by (fastforce simp: in_set_conv_nth less_Suc_eq_le)
    then show "m_height m \<le> h" using ascending_nth[OF assms(1), of k j] assms(2,3) by simp
  qed
  moreover have "filter (\<lambda>m. m_height m \<le> h) (drop (Suc j) ms) = []"
  proof -
    have "h < m_height (drop (Suc j) ms ! k)" if "k < length (drop (Suc j) ms)" for k
    proof -
      have k: "Suc j < length ms" "Suc j + k < length ms" using that by auto
      then have "m_height (ms ! Suc j) \<le> m_height (ms ! (Suc j + k))"
        by (intro ascending_nth[OF assms(1)]) auto
      then show ?thesis using assms(4)[OF k(1)] k by (simp add: nth_drop)
    qed
    then show ?thesis by (auto simp: filter_empty_conv in_set_conv_nth not_le)
  qed
  ultimately have "filter (\<lambda>m. m_height m \<le> h) ms = take (Suc j) ms"
    by (metis append_Nil2 append_take_drop_id filter_append)
  then have eq: "filter (\<lambda>m. m_height m \<le> h) ms = take j ms @ [ms ! j]"
    using assms(2) by (simp add: take_Suc_conv_app_nth)
  obtain x xs where "take j ms @ [ms ! j] = x # xs" by (cases "take j ms @ [ms ! j]") auto
  moreover have "last (take j ms @ [ms ! j]) = ms ! j" by simp
  ultimately show ?thesis by (simp only: milestoneAt_def eq list.case)
qed

lemma milestoneAt_below:
  assumes "ascending ms" and "ms \<noteq> []" and "h < m_height (ms ! 0)"
  shows "milestoneAt ms h = None"
proof -
  have "h < m_height (ms ! k)" if "k < length ms" for k
    using ascending_nth[OF assms(1), of 0 k] that assms(3) by simp
  then have "filter (\<lambda>m. m_height m \<le> h) ms = []"
    by (auto simp: filter_empty_conv in_set_conv_nth not_le)
  then show ?thesis by (simp add: milestoneAt_def)
qed

definition cfg_ok :: "cfg \<Rightarrow> bool" where
  "cfg_ok c \<longleftrightarrow> (case milestones c of None \<Rightarrow> True
     | Some ms \<Rightarrow> ascending ms \<and> ms \<noteq> [] \<and> - 1 \<le> cursor c \<and> cursor c < int (length ms))"

text \<open>The height a call asks about: the argument, else the current height, else 1.\<close>

definition askedHeight :: "int option \<Rightarrow> cfg \<Rightarrow> int" where
  "askedHeight h c = (if truthyNum h then the h else if truthyNum (cheight c) then the (cheight c) else 1)"

lemma getMilestone_at:
  assumes "cfg_ok c" and "milestones c = Some ms"
  shows "fst (getMilestone h c) = (case milestoneAt ms (askedHeight h c) of
      None \<Rightarrow> Inl JsTypeError | Some m \<Rightarrow> Inr m) \<and>
    cfg_ok (snd (getMilestone h c)) \<and> milestones (snd (getMilestone h c)) = Some ms"
proof -
  let ?h = "askedHeight h c" and ?i = "climb ms (askedHeight h c) (cursor c)"
  let ?j = "descend ms ?h ?i"
  have ok: "ascending ms" "ms \<noteq> []" "- 1 \<le> cursor c" "cursor c < int (length ms)"
    using assms by (simp_all add: cfg_ok_def)
  have i: "- 1 \<le> ?i" "?i < int (length ms)" "?i < int (length ms) - 1 \<longrightarrow> h' < m_height (ms ! nat (?i + 1))"
    if "h' = ?h" for h' using climb_spec[OF ok(1,3,4), of ?h] ok(3) that by auto
  note j = descend_spec[OF i(2)[OF refl] i(1)[OF refl] i(3)[OF refl]]
  have run: "getMilestone h c = (if ?j < 0 \<or> int (length ms) \<le> ?j then (Inl JsTypeError, c\<lparr>cursor := ?j\<rparr>)
      else (Inr (ms ! nat ?j), c\<lparr>cursor := ?j\<rparr>))"
    using assms(2) i(2)[OF refl] by (auto simp: getMilestone_def askedHeight_def Let_def)
  have keep: "cfg_ok (c\<lparr>cursor := ?j\<rparr>)"
    using assms ok j i(2)[OF refl] by (simp add: cfg_ok_def)
  show ?thesis
  proof (cases "0 \<le> ?j")
    case True
    have n: "nat (?j + 1) = Suc (nat ?j)" using True by simp
    have "milestoneAt ms ?h = Some (ms ! nat ?j)"
      using milestoneAt_nth[OF ok(1), of "nat ?j" ?h] j i(2)[OF refl] True n by auto
    then show ?thesis using run keep True j i(2)[OF refl] assms(2) by simp
  next
    case False
    then have "?j = - 1" using j by simp
    then have "milestoneAt ms ?h = None"
      using milestoneAt_below[OF ok(1,2), of ?h] j ok(2) by (cases "length ms = 1") auto
    then show ?thesis using run keep False assms(2) by simp
  qed
qed

section \<open>The next milestone that changes a key\<close>

record mresult =
  mr_found :: bool
  mr_height :: int
  mr_data :: int

text \<open>
  \<open>getNextMilestoneWithNewKey\<close> over the merged milestones, for a numeric key; the result's data
  is \<open>null\<close> (here 0) when nothing is found.
\<close>

definition nextMilestoneWithNewKey ::
    "(milestone \<Rightarrow> int option) \<Rightarrow> milestone list \<Rightarrow> int \<Rightarrow> mresult" where
  "nextMilestoneWithNewKey key ms prev =
     (case find (\<lambda>m. truthyNum (key m) \<and>
          key m \<noteq> Option.bind (milestoneAt ms (if prev = 0 then 1 else prev)) key \<and> prev < m_height m) ms of
        Some m \<Rightarrow> \<lparr>mr_found = True, mr_height = m_height m, mr_data = the (key m)\<rparr>
      | None \<Rightarrow> \<lparr>mr_found = False, mr_height = prev, mr_data = 0\<rparr>)"

lemma next_found:
  assumes "mr_found (nextMilestoneWithNewKey key ms prev)"
  shows "prev < mr_height (nextMilestoneWithNewKey key ms prev)"
    and "mr_data (nextMilestoneWithNewKey key ms prev) \<noteq> 0"
    and "mr_height (nextMilestoneWithNewKey key ms prev) \<in> m_height ` set ms"
proof -
  let ?P = "\<lambda>m. truthyNum (key m) \<and>
    key m \<noteq> Option.bind (milestoneAt ms (if prev = 0 then 1 else prev)) key \<and> prev < m_height m"
  obtain m where m: "find ?P ms = Some m"
    using assms by (cases "find ?P ms") (simp_all add: nextMilestoneWithNewKey_def)
  then have "?P m" "m \<in> set ms"
    by (auto simp: find_Some_iff)
  moreover have "nextMilestoneWithNewKey key ms prev =
      \<lparr>mr_found = True, mr_height = m_height m, mr_data = the (key m)\<rparr>"
    unfolding nextMilestoneWithNewKey_def m by simp
  ultimately show "prev < mr_height (nextMilestoneWithNewKey key ms prev)"
    "mr_data (nextMilestoneWithNewKey key ms prev) \<noteq> 0"
    "mr_height (nextMilestoneWithNewKey key ms prev) \<in> m_height ` set ms"
    by (auto simp: truthyNum_def split: option.splits)
qed

lemma next_not_found: "\<not> mr_found (nextMilestoneWithNewKey key ms prev) \<Longrightarrow>
    mr_height (nextMilestoneWithNewKey key ms prev) = prev"
  by (auto simp: nextMilestoneWithNewKey_def split: option.splits)

text \<open>
  The loop that collects all of them: the heights increase, so the milestones above the current
  one shrink.
\<close>

function spansFrom :: "(milestone \<Rightarrow> int option) \<Rightarrow> milestone list \<Rightarrow> int \<Rightarrow> mresult list" where
  "spansFrom key ms prev =
     (let nx = nextMilestoneWithNewKey key ms prev
      in if mr_found nx then nx # spansFrom key ms (mr_height nx) else [])"
  by auto
termination
proof (relation "measure (\<lambda>(key, ms, prev). length (filter (\<lambda>m. prev < m_height m) ms))")
  fix key :: "milestone \<Rightarrow> int option" and ms prev nx
  assume nx: "nx = nextMilestoneWithNewKey key ms prev" and found: "mr_found nx"
  obtain m where m: "m \<in> set ms" "m_height m = mr_height nx" "prev < m_height m"
    using next_found[of key ms prev] found nx by auto
  have "filter (\<lambda>m. mr_height nx < m_height m) ms =
      filter (\<lambda>m. mr_height nx < m_height m) (filter (\<lambda>m. prev < m_height m) ms)"
    using m by (auto intro: filter_cong)
  also have "length \<dots> < length (filter (\<lambda>m. prev < m_height m) ms)"
    using m by (intro length_filter_less[of m]) auto
  finally show "((key, ms, mr_height nx), key, ms, prev)
      \<in> measure (\<lambda>(key, ms, prev). length (filter (\<lambda>m. prev < m_height m) ms))" by simp
qed simp

declare spansFrom.simps [simp del]

section \<open>Validated milestones\<close>

lemma ascending_sorted: "ascending (sortMilestones ms)"
  by (simp add: ascending_def sortMilestones_def)

lemma height_merge [simp]: "m_height (mergeMilestone a b) = m_height b"
  by (simp add: mergeMilestone_def)

lemma heights_mergeFrom: "map m_height (mergeFrom prev ms) = map m_height ms"
  by (induction prev ms rule: mergeFrom.induct) (auto simp: Let_def)

lemma heights_mergeAll: "map m_height (mergeAll ms) = map m_height ms"
  by (cases ms) (simp_all add: mergeAll_def heights_mergeFrom)

lemma setConfig_ok:
  assumes "fst (setConfig ms c) = Inr ()" and "ms \<noteq> []"
  shows "cfg_ok (snd (setConfig ms c))"
proof -
  have "ascending (mergeAll (sortMilestones ms))"
    using ascending_sorted[of ms] by (simp add: ascending_def heights_mergeAll)
  moreover have "length (mergeAll (sortMilestones ms)) = length ms"
    using heights_mergeAll[of "sortMilestones ms"] by (metis length_map length_sort sortMilestones_def)
  ultimately show ?thesis
    using assms by (auto simp: setConfig_def cfg_ok_def split: sum.splits)
qed

section \<open>What validation and merging come to\<close>

text \<open>The milestones that set the number of validators, by height, and the rule they have to keep.\<close>

definition countMilestones :: "milestone list \<Rightarrow> milestone list" where
  "countMilestones ms = filter (\<lambda>m. truthyNum (m_activeValidators m)) (sort_key m_height ms)"

definition startsRound :: "milestone \<Rightarrow> milestone \<Rightarrow> bool" where
  "startsRound a b \<longleftrightarrow> m_activeValidators a = m_activeValidators b \<or>
     the (m_activeValidators a) dvd (m_height b - m_height a)"

text \<open>The keys of a milestone, and what the milestones up to an index say of one: the last that sets it.\<close>

definition milestoneKeys :: "(milestone \<Rightarrow> int option) list" where
  "milestoneKeys = [m_activeValidators, m_blockTime, m_reward, m_maxPayload, m_maxTransactions,
     m_blockVersion, m_epoch, m_vendorFieldLength, m_multiPaymentLimit]"

definition lastSet :: "(milestone \<Rightarrow> int option) \<Rightarrow> milestone list \<Rightarrow> int option" where
  "lastSet key ms = (case filter (\<lambda>m. key m \<noteq> None) ms of [] \<Rightarrow> None | xs \<Rightarrow> key (last xs))"

lemma lastSet_snoc: "lastSet key (ms @ [m]) = override (lastSet key ms) (key m)"
proof (cases "key m")
  case None
  then show ?thesis by (simp add: lastSet_def override_def)
next
  case (Some v)
  let ?xs = "filter (\<lambda>m. key m \<noteq> None) ms"
  have "filter (\<lambda>m. key m \<noteq> None) (ms @ [m]) = ?xs @ [m]" using Some by simp
  moreover obtain y ys where "?xs @ [m] = y # ys" by (cases "?xs @ [m]") auto
  moreover have "last (?xs @ [m]) = m" by simp
  ultimately show ?thesis using Some by (simp only: lastSet_def list.case) (simp add: override_def)
qed

lemma lastSet_single [simp]: "lastSet key [m] = key m"
  by (cases "key m") (auto simp: lastSet_def)

lemma key_merge: "key \<in> set milestoneKeys \<Longrightarrow> key (mergeMilestone a b) = override (key a) (key b)"
  by (auto simp: milestoneKeys_def mergeMilestone_def)

lemma mergeFrom_keys:
  assumes "key \<in> set milestoneKeys" and "key prev = lastSet key before" and "i < length ms"
  shows "key (mergeFrom prev ms ! i) = lastSet key (before @ take (Suc i) ms)"
  using assms(2,3)
proof (induction prev ms arbitrary: before i rule: mergeFrom.induct)
  case (2 prev m ms)
  have m': "key (mergeMilestone prev m) = lastSet key (before @ [m])"
    using 2(2) by (simp add: key_merge[OF assms(1)] lastSet_snoc)
  show ?case
  proof (cases i)
    case 0
    then show ?thesis using m' by (simp add: Let_def)
  next
    case (Suc j)
    then show ?thesis using 2(1)[OF refl m', of j] 2(3) by (simp add: Let_def)
  qed
qed simp

lemma mergeAll_keys:
  assumes "key \<in> set milestoneKeys" and "i < length ms"
  shows "key (mergeAll ms ! i) = lastSet key (take (Suc i) ms)"
proof (cases ms)
  case (Cons m rest)
  show ?thesis
  proof (cases i)
    case (Suc j)
    then show ?thesis
      using mergeFrom_keys[OF assms(1), of m "[m]" j rest] assms(2) Cons by (simp add: mergeAll_def)
  qed (simp add: Cons mergeAll_def)
qed (use assms in simp)

lemma jsMod_dvd: "b \<noteq> 0 \<Longrightarrow> jsMod a b = 0 \<longleftrightarrow> b dvd a"
  by (cases "a = 0") (auto simp: jsMod_def dvd_eq_mod_eq_0[symmetric] sgn_if)

text \<open>Validation finds the first neighbours that break the rule, and only those.\<close>

lemma validateFrom_spec:
  assumes "\<forall>m \<in> set (prev # ms). truthyNum (m_activeValidators m)"
  shows "case validateFrom prev ms of
      Inr u \<Rightarrow> \<forall>i < length ms. startsRound ((prev # ms) ! i) (ms ! i)
    | Inl e \<Rightarrow> \<exists>i < length ms. \<not> startsRound ((prev # ms) ! i) (ms ! i) \<and>
        e = CryptoError (InvalidMilestoneConfigurationError (m_height (ms ! i)))"
  using assms
proof (induction prev ms rule: validateFrom.induct)
  case (2 prev m ms)
  have nz: "the (m_activeValidators prev) \<noteq> 0"
    using 2(3) by (auto simp: truthyNum_def split: option.splits)
  show ?case
  proof (cases "startsRound prev m")
    case True
    then have "validateFrom prev (m # ms) = validateFrom m ms"
      using jsMod_dvd[OF nz, of "m_height m - m_height prev"] by (auto simp: startsRound_def)
    moreover have "case validateFrom m ms of
        Inr u \<Rightarrow> \<forall>i < length ms. startsRound ((m # ms) ! i) (ms ! i)
      | Inl e \<Rightarrow> \<exists>i < length ms. \<not> startsRound ((m # ms) ! i) (ms ! i) \<and>
          e = CryptoError (InvalidMilestoneConfigurationError (m_height (ms ! i)))"
      using 2 True jsMod_dvd[OF nz, of "m_height m - m_height prev"] by (auto simp: startsRound_def)
    ultimately show ?thesis
      using True by (cases "validateFrom m ms") (simp_all only: sum.case length_Cons Ex_less_Suc2 All_less_Suc2 nth_Cons_0 nth_Cons_Suc simp_thms)
  next
    case False
    then have "validateFrom prev (m # ms) = Inl (CryptoError (InvalidMilestoneConfigurationError (m_height m)))"
      using jsMod_dvd[OF nz, of "m_height m - m_height prev"] by (auto simp: startsRound_def)
    then show ?thesis using False by auto
  qed
qed simp

lemma validateMilestones_spec:
  "case validateMilestones ms of
      Inr u \<Rightarrow> \<forall>i. Suc i < length (countMilestones ms) \<longrightarrow>
        startsRound (countMilestones ms ! i) (countMilestones ms ! Suc i)
    | Inl e \<Rightarrow> \<exists>i. Suc i < length (countMilestones ms) \<and>
        \<not> startsRound (countMilestones ms ! i) (countMilestones ms ! Suc i) \<and>
        e = CryptoError (InvalidMilestoneConfigurationError (m_height (countMilestones ms ! Suc i)))"
proof (cases "countMilestones ms")
  case Nil
  then show ?thesis by (simp add: validateMilestones_def countMilestones_def sortMilestones_def)
next
  case (Cons m rest)
  have "set (countMilestones ms) \<subseteq> {m. truthyNum (m_activeValidators m)}"
    by (auto simp: countMilestones_def)
  then have "\<forall>x \<in> set (m # rest). truthyNum (m_activeValidators x)" using Cons by auto
  from validateFrom_spec[OF this] show ?thesis
    using Cons by (auto simp: validateMilestones_def countMilestones_def sortMilestones_def split: sum.splits)
qed

lemma setConfig_cases:
  "case setConfig ms c of
      (Inr u, c') \<Rightarrow>
        (\<forall>i. Suc i < length (countMilestones ms) \<longrightarrow>
          startsRound (countMilestones ms ! i) (countMilestones ms ! Suc i)) \<and>
        (\<exists>merged. milestones c' = Some merged \<and> map m_height merged = sort (map m_height ms) \<and>
          (\<forall>i < length ms. \<forall>key \<in> set milestoneKeys.
            key (merged ! i) = lastSet key (take (Suc i) (sort_key m_height ms)))) \<and>
        cheight c' = cheight c \<and> (ms \<noteq> [] \<longrightarrow> cfg_ok c')
    | (Inl e, c') \<Rightarrow> c' = c \<and> (\<exists>i. Suc i < length (countMilestones ms) \<and>
        \<not> startsRound (countMilestones ms ! i) (countMilestones ms ! Suc i) \<and>
        e = CryptoError (InvalidMilestoneConfigurationError (m_height (countMilestones ms ! Suc i))))"
proof (cases "validateMilestones ms")
  case (Inl e)
  then show ?thesis using validateMilestones_spec[of ms] by (simp add: setConfig_def)
next
  case (Inr u)
  have heights: "map m_height (mergeAll (sortMilestones ms)) = sort (map m_height ms)"
    by (metis ascending_def ascending_sorted heights_mergeAll mset_map mset_sort properties_for_sort sortMilestones_def)
  have keys: "\<forall>i < length ms. \<forall>key \<in> set milestoneKeys.
      key (mergeAll (sortMilestones ms) ! i) = lastSet key (take (Suc i) (sort_key m_height ms))"
    using mergeAll_keys[of _ _ "sortMilestones ms"] by (simp add: sortMilestones_def)
  have "ms \<noteq> [] \<longrightarrow> cfg_ok (snd (setConfig ms c))" using setConfig_ok[of ms c] Inr by (simp add: setConfig_def)
  then show ?thesis
    using Inr validateMilestones_spec[of ms] heights keys by (simp add: setConfig_def)
qed

end
