(* ===== verification/Collections.thy ===== *)
theory Collections
  imports Types
begin

text \<open>
  The bounded containers: \<open>CappedMap\<close> and \<open>CappedSet\<close> of packages/utils and \<open>ChunkCache\<close> of
  packages/core-p2p. The locale \<open>bounded_store\<close> is the contract they share (an insertion is
  visible, never brings in a foreign key and respects the bound), interpreted on both maps.
\<close>

section \<open>CappedMap (utils/source/capped-map.ts)\<close>

record ('k, 'v) capped_map =
  cm_store :: "('k, 'v) jsmap"
  cm_maxSize :: int

definition cm_new :: "int \<Rightarrow> ('k, 'v) capped_map" where
  "cm_new n = \<lparr>cm_store = [], cm_maxSize = n\<rparr>"

definition cm_get :: "('k, 'v) capped_map \<Rightarrow> 'k \<Rightarrow> 'v option" where
  "cm_get c k = jm_get (cm_store c) k"

text \<open>
  \<open>set\<close>: at the bound the first entry is dropped before the new one is stored; an empty store
  has no first entry, so with a bound below one the access throws a \<open>TypeError\<close>.
\<close>

definition cm_set :: "'k \<Rightarrow> 'v \<Rightarrow> ('k, 'v) capped_map \<Rightarrow> error + ('k, 'v) capped_map" where
  "cm_set k v c =
     (if int (length (cm_store c)) \<ge> cm_maxSize c
      then (case cm_store c of
              [] \<Rightarrow> Inl JsTypeError
            | (k0, v0) # rest \<Rightarrow> Inr (c\<lparr>cm_store := jm_set k v (jm_delete k0 (cm_store c))\<rparr>))
      else Inr (c\<lparr>cm_store := jm_set k v (cm_store c)\<rparr>))"

definition cm_has :: "('k, 'v) capped_map \<Rightarrow> 'k \<Rightarrow> bool" where
  "cm_has c k \<longleftrightarrow> jm_has (cm_store c) k"

text \<open>\<open>delete\<close> also answers whether the key was there.\<close>

definition cm_delete :: "'k \<Rightarrow> ('k, 'v) capped_map \<Rightarrow> bool \<times> ('k, 'v) capped_map" where
  "cm_delete k c =
     (if \<not> jm_has (cm_store c) k then (False, c)
      else let c' = c\<lparr>cm_store := jm_delete k (cm_store c)\<rparr>
           in (\<not> jm_has (cm_store c') k, c'))"

definition cm_clear :: "('k, 'v) capped_map \<Rightarrow> ('k, 'v) capped_map" where
  "cm_clear c = c\<lparr>cm_store := []\<rparr>"

text \<open>\<open>xs.slice(-n)\<close> for \<open>n \<ge> 0\<close>: \<open>slice(-0)\<close> is \<open>slice(0)\<close>, the whole array.\<close>

definition sliceLast :: "nat \<Rightarrow> 'a list \<Rightarrow> 'a list" where
  "sliceLast n xs = (if n = 0 then xs else drop (length xs - n) xs)"

definition cm_resize :: "int \<Rightarrow> ('k, 'v) capped_map \<Rightarrow> ('k, 'v) capped_map" where
  "cm_resize n c =
     (let c' = c\<lparr>cm_maxSize := n\<rparr>
      in if int (length (cm_store c')) > n
         then c'\<lparr>cm_store := sliceLast (nat (max 0 n)) (cm_store c')\<rparr> else c')"

definition cm_first :: "('k, 'v) capped_map \<Rightarrow> error + 'v" where
  "cm_first c = (case cm_store c of [] \<Rightarrow> Inl JsTypeError | (_, v) # _ \<Rightarrow> Inr v)"

definition cm_last :: "('k, 'v) capped_map \<Rightarrow> error + 'v" where
  "cm_last c = (case rev (cm_store c) of [] \<Rightarrow> Inl JsTypeError | (_, v) # _ \<Rightarrow> Inr v)"

definition cm_keys :: "('k, 'v) capped_map \<Rightarrow> 'k list" where
  "cm_keys c = jm_keys (cm_store c)"

definition cm_values :: "('k, 'v) capped_map \<Rightarrow> 'v list" where
  "cm_values c = jm_values (cm_store c)"

definition cm_count :: "('k, 'v) capped_map \<Rightarrow> int" where
  "cm_count c = int (length (cm_store c))"

text \<open>Well-formed: the keys are distinct and, with a positive bound, it is respected.\<close>

definition cm_inv :: "('k, 'v) capped_map \<Rightarrow> bool" where
  "cm_inv c \<longleftrightarrow> jm_inv (cm_store c) \<and> 0 < cm_maxSize c \<and> cm_count c \<le> cm_maxSize c"

fun cm_setAll :: "('k \<times> 'v) list \<Rightarrow> ('k, 'v) capped_map \<Rightarrow> error + ('k, 'v) capped_map" where
  "cm_setAll [] c = Inr c"
| "cm_setAll ((k, v) # ps) c =
     (case cm_set k v c of Inl e \<Rightarrow> Inl e | Inr c' \<Rightarrow> cm_setAll ps c')"

lemma cm_set_total:
  assumes "cm_inv c"
  obtains c' where "cm_set k v c = Inr c'" and "cm_inv c'" and "cm_maxSize c' = cm_maxSize c"
proof (cases "int (length (cm_store c)) \<ge> cm_maxSize c")
  case True
  then obtain k0 v0 rest where st: "cm_store c = (k0, v0) # rest"
    using assms by (cases "cm_store c") (auto simp: cm_inv_def)
  then have del: "jm_delete k0 (cm_store c) = rest"
    using assms by (auto simp: cm_inv_def jm_inv_Cons jm_delete_absent jm_delete_def[of k0 "_ # _"]
        simp flip: jm_delete_def)
  have "cm_set k v c = Inr (c\<lparr>cm_store := jm_set k v rest\<rparr>)"
    using True st del by (simp add: cm_set_def)
  moreover have "cm_inv (c\<lparr>cm_store := jm_set k v rest\<rparr>)"
    using assms st by (auto simp: cm_inv_def cm_count_def jm_inv_Cons length_jm_set)
  ultimately show ?thesis using that by simp
next
  case False
  then have "cm_set k v c = Inr (c\<lparr>cm_store := jm_set k v (cm_store c)\<rparr>)"
    by (simp add: cm_set_def)
  moreover have "cm_inv (c\<lparr>cm_store := jm_set k v (cm_store c)\<rparr>)"
    using assms False by (auto simp: cm_inv_def cm_count_def length_jm_set)
  ultimately show ?thesis using that by simp
qed

lemma cm_get_set: "cm_set k v c = Inr c' \<Longrightarrow> cm_get c' k = Some v"
  by (auto simp: cm_set_def cm_get_def split: if_splits list.splits)

lemma cm_get_set_other:
  "cm_set k v c = Inr c' \<Longrightarrow> k' \<noteq> k \<Longrightarrow> cm_get c' k' = Some w \<Longrightarrow> cm_get c k' = Some w"
  by (auto simp: cm_set_def cm_get_def split: if_splits list.splits)

text \<open>A fresh key: the oldest entry leaves when the map is full, the new one comes last.\<close>

lemma cm_keys_set_fresh:
  assumes "cm_inv c" and "\<not> cm_has c k" and "cm_set k v c = Inr c'"
  shows "cm_keys c' = (if cm_count c = cm_maxSize c then tl (cm_keys c) else cm_keys c) @ [k]"
proof (cases "int (length (cm_store c)) \<ge> cm_maxSize c")
  case True
  then obtain k0 v0 rest where st: "cm_store c = (k0, v0) # rest"
    using assms(1) by (cases "cm_store c") (auto simp: cm_inv_def)
  have "filter (\<lambda>k'. k' \<noteq> k0) (jm_keys rest) = jm_keys rest"
    using assms(1) st by (auto simp: cm_inv_def jm_inv_def jm_keys_def filter_id_conv)
  then have "jm_keys (jm_delete k0 (cm_store c)) = jm_keys rest"
    using st by (simp add: jm_keys_delete) (simp add: jm_keys_def)
  moreover have "\<not> jm_has (jm_delete k0 (cm_store c)) k"
    using assms(2) by (simp add: cm_has_def)
  ultimately have "cm_keys c' = jm_keys rest @ [k]"
    using assms(3) True st by (auto simp: cm_set_def cm_keys_def jm_keys_set)
  moreover have "cm_count c = cm_maxSize c"
    using True assms(1) by (simp add: cm_inv_def cm_count_def)
  ultimately show ?thesis
    using st by (simp add: cm_keys_def jm_keys_def)
next
  case False
  then show ?thesis
    using assms(2,3) by (auto simp: cm_set_def cm_keys_def cm_has_def cm_count_def jm_keys_set)
qed

section \<open>CappedSet (utils/source/capped-set.ts)\<close>

record 'a capped_set =
  cs_data :: "'a list"
  cs_maxSize :: int

definition cs_new :: "int \<Rightarrow> 'a capped_set" where
  "cs_new n = \<lparr>cs_data = [], cs_maxSize = n\<rparr>"

text \<open>On an empty set the oldest element is \<open>undefined\<close> and deleting it does nothing.\<close>

definition cs_add :: "'a \<Rightarrow> 'a capped_set \<Rightarrow> 'a capped_set" where
  "cs_add x c =
     (let d = (if int (length (cs_data c)) \<ge> cs_maxSize c
               then (case cs_data c of [] \<Rightarrow> [] | o1 # _ \<Rightarrow> js_delete o1 (cs_data c))
               else cs_data c)
      in c\<lparr>cs_data := js_add x d\<rparr>)"

definition cs_has :: "'a capped_set \<Rightarrow> 'a \<Rightarrow> bool" where
  "cs_has c x \<longleftrightarrow> x \<in> set (cs_data c)"

definition cs_inv :: "'a capped_set \<Rightarrow> bool" where
  "cs_inv c \<longleftrightarrow> distinct (cs_data c) \<and> 0 < cs_maxSize c \<and> int (length (cs_data c)) \<le> cs_maxSize c"

lemma js_delete_hd: "distinct (x # xs) \<Longrightarrow> js_delete x (x # xs) = xs"
  by (auto simp: js_delete_def filter_id_conv)

lemma cs_add_fresh:
  assumes "cs_inv c" and "\<not> cs_has c x"
  shows "cs_data (cs_add x c) =
    (if int (length (cs_data c)) = cs_maxSize c then tl (cs_data c) else cs_data c) @ [x]"
proof (cases "cs_data c")
  case Nil
  then show ?thesis using assms by (auto simp: cs_add_def cs_inv_def js_add_def)
next
  case (Cons o1 d)
  then have "js_delete o1 (cs_data c) = d"
    using assms(1) js_delete_hd[of o1 d] by (simp add: cs_inv_def)
  then show ?thesis
    using assms Cons by (auto simp: cs_add_def cs_inv_def cs_has_def js_add_def)
qed

lemma cs_add_inv:
  assumes "cs_inv c" shows "cs_inv (cs_add x c) \<and> cs_has (cs_add x c) x"
proof (cases "cs_data c")
  case Nil
  then show ?thesis using assms by (auto simp: cs_add_def cs_inv_def js_add_def cs_has_def)
next
  case (Cons o1 d)
  then have "js_delete o1 (cs_data c) = d"
    using assms js_delete_hd[of o1 d] by (simp add: cs_inv_def)
  then show ?thesis
    using assms Cons by (auto simp: cs_add_def cs_inv_def cs_has_def js_add_def Let_def)
qed

section \<open>ChunkCache (core-p2p/source/chunk-cache.ts)\<close>

type_synonym 'b chunk_cache = "(string \<times> 'b) list"

definition chunkCacheMax :: nat where "chunkCacheMax = 100"

definition cc_has :: "'b chunk_cache \<Rightarrow> string \<Rightarrow> bool" where
  "cc_has c k \<longleftrightarrow> (\<exists>e \<in> set c. fst e = k)"

definition cc_get :: "'b chunk_cache \<Rightarrow> string \<Rightarrow> error + 'b" where
  "cc_get c k =
     (case find (\<lambda>e. fst e = k) c of
        None \<Rightarrow> Inl (PlainError ''Downloaded chunk is not defined.'')
      | Some e \<Rightarrow> Inr (snd e))"

definition cc_set :: "string \<Rightarrow> 'b \<Rightarrow> 'b chunk_cache \<Rightarrow> 'b chunk_cache" where
  "cc_set k d c =
     (let c' = c @ [(k, d)] in if length c' > chunkCacheMax then tl c' else c')"

definition cc_remove :: "string \<Rightarrow> 'b chunk_cache \<Rightarrow> 'b chunk_cache" where
  "cc_remove k c = filter (\<lambda>e. fst e \<noteq> k) c"

definition cc_lookup :: "'b chunk_cache \<Rightarrow> string \<Rightarrow> 'b option" where
  "cc_lookup c k = (case cc_get c k of Inl _ \<Rightarrow> None | Inr d \<Rightarrow> Some d)"

text \<open>
  Well-formed: within the bound, no key twice. The cache itself does not check for a stored key;
  its caller asks \<open>has\<close> first.
\<close>

definition cc_inv :: "'b chunk_cache \<Rightarrow> bool" where
  "cc_inv c \<longleftrightarrow> length c \<le> chunkCacheMax \<and> distinct (map fst c)"

lemma cc_lookup_map_of: "cc_lookup c k = map_of c k"
  by (induction c) (auto simp: cc_lookup_def cc_get_def)

lemma cc_has_lookup: "cc_has c k \<longleftrightarrow> cc_lookup c k \<noteq> None"
  by (auto simp: cc_has_def cc_lookup_map_of map_of_eq_None_iff)

lemma cc_set_below: "length c < chunkCacheMax \<Longrightarrow> cc_set k d c = c @ [(k, d)]"
  by (simp add: cc_set_def)

lemma cc_set_above: "length c \<ge> chunkCacheMax \<Longrightarrow> cc_set k d c = tl c @ [(k, d)]"
  by (cases c) (simp_all add: cc_set_def chunkCacheMax_def)

lemma fst_set_tl: "k \<notin> fst ` set c \<Longrightarrow> k \<notin> fst ` set (tl c)"
  by (cases c) auto

lemma cc_inv_set:
  assumes "cc_inv c" and "cc_lookup c k = None" shows "cc_inv (cc_set k d c)"
proof (cases "length c < chunkCacheMax")
  case True
  then show ?thesis
    using assms by (simp add: cc_inv_def cc_set_below cc_lookup_map_of map_of_eq_None_iff)
next
  case False
  then have "cc_set k d c = tl c @ [(k, d)]" and "length c = chunkCacheMax"
    using assms(1) by (simp_all add: cc_set_above cc_inv_def)
  then show ?thesis
    using assms fst_set_tl[of k c]
    by (cases c)
      (auto simp: cc_inv_def cc_lookup_map_of map_of_eq_None_iff chunkCacheMax_def split: if_splits)
qed

lemma cc_get_set:
  assumes "cc_lookup c k = None" shows "cc_lookup (cc_set k d c) k = Some d"
proof -
  have "map_of c k = None" "map_of (tl c) k = None"
    using assms fst_set_tl[of k c] by (simp_all add: cc_lookup_map_of map_of_eq_None_iff)
  then show ?thesis
    by (cases "length c < chunkCacheMax")
      (simp_all add: cc_set_below cc_set_above cc_lookup_map_of map_add_def)
qed

lemma map_of_tl:
  assumes "distinct (map fst c)" and "map_of (tl c) k = Some w" shows "map_of c k = Some w"
proof (cases c)
  case (Cons e c')
  have "(k, w) \<in> set c'" using assms(2) Cons by (auto dest: map_of_SomeD)
  then have "fst e \<noteq> k" using assms(1) Cons by (auto simp: image_iff)
  then show ?thesis using assms(2) Cons by (cases e) auto
qed (use assms in simp)

lemma cc_get_set_other:
  assumes "cc_inv c" and "k' \<noteq> k" and "cc_lookup (cc_set k d c) k' = Some w"
  shows "cc_lookup c k' = Some w"
  using assms map_of_tl[of c k' w]
  by (cases "length c < chunkCacheMax")
    (auto simp: cc_set_below cc_set_above cc_lookup_map_of map_add_def cc_inv_def
      split: option.splits)

lemma cc_has_remove: "cc_has (cc_remove k c) k' \<longleftrightarrow> k' \<noteq> k \<and> cc_has c k'"
  by (induction c) (auto simp: cc_has_def cc_remove_def)

section \<open>The contract of the bounded stores\<close>

text \<open>
  What the callers rely on: an entry stored under a new key is found again, no other key appears
  and nothing stored under another key changes its value, and the invariant (with the bound) is
  kept. A run of insertions of new keys is then a bounded memory of what was inserted.
\<close>

locale bounded_store =
  fixes ins :: "'k \<Rightarrow> 'v \<Rightarrow> 's \<Rightarrow> 's"
    and look :: "'s \<Rightarrow> 'k \<Rightarrow> 'v option"
    and inv :: "'s \<Rightarrow> bool"
    and cap :: "'s \<Rightarrow> int"
    and size_of :: "'s \<Rightarrow> int"
  assumes inv_ins: "inv s \<Longrightarrow> look s k = None \<Longrightarrow> inv (ins k v s)"
    and look_ins: "inv s \<Longrightarrow> look s k = None \<Longrightarrow> look (ins k v s) k = Some v"
    and look_other: "inv s \<Longrightarrow> look s k = None \<Longrightarrow> k' \<noteq> k \<Longrightarrow>
      look (ins k v s) k' = Some w \<Longrightarrow> look s k' = Some w"
    and inv_cap: "inv s \<Longrightarrow> size_of s \<le> cap s"
    and cap_ins: "cap (ins k v s) = cap s"
begin

fun insAll :: "('k \<times> 'v) list \<Rightarrow> 's \<Rightarrow> 's" where
  "insAll [] s = s"
| "insAll ((k, v) # ps) s = insAll ps (ins k v s)"

lemma look_absent:
  "inv s \<Longrightarrow> look s k = None \<Longrightarrow> k' \<noteq> k \<Longrightarrow> look s k' = None \<Longrightarrow> look (ins k v s) k' = None"
  using look_other[of s k k' v] by (cases "look (ins k v s) k'") auto

text \<open>
  After a run over distinct new keys the bound still holds, and whatever is found was there
  before or was inserted.
\<close>

lemma insAll_sound:
  assumes "inv s" and "distinct (map fst ps)" and "\<forall>k \<in> set (map fst ps). look s k = None"
  shows "inv (insAll ps s) \<and> size_of (insAll ps s) \<le> cap s \<and>
    (\<forall>k v. look (insAll ps s) k = Some v \<longrightarrow> look s k = Some v \<or> (k, v) \<in> set ps)"
  using assms
proof (induction ps arbitrary: s)
  case Nil
  then show ?case using inv_cap by simp
next
  case (Cons p ps)
  obtain k1 v1 where p: "p = (k1, v1)" by fastforce
  let ?s = "ins k1 v1 s"
  have none1: "look s k1 = None" using Cons.prems(3) p by simp
  have none: "look ?s k' = None" if "k' \<in> set (map fst ps)" for k'
  proof -
    have "k' \<noteq> k1" "look s k' = None" using that Cons.prems(2,3) p by auto
    then show ?thesis using look_absent[OF Cons.prems(1) none1] by blast
  qed
  have IH: "inv (insAll ps ?s) \<and> size_of (insAll ps ?s) \<le> cap ?s \<and>
    (\<forall>k v. look (insAll ps ?s) k = Some v \<longrightarrow> look ?s k = Some v \<or> (k, v) \<in> set ps)"
    using Cons.IH[of ?s] Cons.prems none1 none p inv_ins by simp
  have old: "look s k = Some v \<or> (k, v) = p" if "look ?s k = Some v" for k v
    using that look_ins[OF Cons.prems(1) none1] look_other[OF Cons.prems(1) none1] p
    by (cases "k = k1") auto
  show ?case using IH old p cap_ins by fastforce
qed

end

definition cm_ins :: "'k \<Rightarrow> 'v \<Rightarrow> ('k, 'v) capped_map \<Rightarrow> ('k, 'v) capped_map" where
  "cm_ins k v c = (case cm_set k v c of Inl _ \<Rightarrow> c | Inr c' \<Rightarrow> c')"

interpretation capped: bounded_store cm_ins cm_get cm_inv cm_maxSize cm_count
proof unfold_locales
  fix s :: "('k, 'v) capped_map" and k v
  assume s: "cm_inv s"
  obtain c' where c': "cm_set k v s = Inr c'" "cm_inv c'"
    using cm_set_total[OF s] by metis
  then show "cm_inv (cm_ins k v s)" by (simp add: cm_ins_def)
  show "cm_get (cm_ins k v s) k = Some v" using c' cm_get_set by (fastforce simp: cm_ins_def)
next
  fix s :: "('k, 'v) capped_map" and k v k' w
  assume "cm_inv s" "k' \<noteq> k" "cm_get (cm_ins k v s) k' = Some w"
  then show "cm_get s k' = Some w"
    using cm_get_set_other by (fastforce simp: cm_ins_def split: sum.splits)
next
  fix s :: "('k, 'v) capped_map"
  assume "cm_inv s"
  then show "cm_count s \<le> cm_maxSize s" by (simp add: cm_inv_def)
next
  fix s :: "('k, 'v) capped_map" and k v
  show "cm_maxSize (cm_ins k v s) = cm_maxSize s"
    by (auto simp: cm_ins_def cm_set_def split: list.splits)
qed

interpretation chunks: bounded_store cc_set cc_lookup cc_inv
  "\<lambda>_. int chunkCacheMax" "\<lambda>c. int (length c)"
  by unfold_locales (auto simp: cc_inv_set cc_get_set cc_get_set_other, simp add: cc_inv_def)

end
