(* ===== verification/StateStore.thy ===== *)
theory StateStore
  imports Config Collections
begin

text \<open>
  The stores of packages/core-state/source/stores: \<open>StateStore\<close> (the last blocks in an ordered map,
  the cached transaction ids in an ordered set, the counters and flags of the state machine, and
  the configuration whose height it moves), \<open>BlockStore\<close> and \<open>TransactionStore\<close> (bounded maps).
  Dispatched events are appended to a trace; the clock is an argument.
\<close>

section \<open>StateStore (state.ts)\<close>

record blockPing =
  bp_block :: blockdata
  bp_count :: int
  bp_first :: int
  bp_last :: int
  bp_fromForger :: bool

record store =
  st_genesis :: "block option"
  st_lastDownloaded :: "blockdata option"
  st_lastStoredHeight :: int
  st_blockPing :: "blockPing option"
  st_started :: bool
  st_forked :: "block option"
  st_wakeUp :: bool
  st_noBlockCounter :: int
  st_p2pUpdateCounter :: int
  st_rollback :: int
  st_networkStart :: bool
  st_restoredIntegrity :: bool
  st_lastBlocks :: "(int, block) jsmap"
  st_cachedIds :: "string list"
  st_config :: cfg
  st_maxLastBlocks :: int
  st_maxLastIds :: int
  st_events :: "string list"

definition newStore :: "cfg \<Rightarrow> int \<Rightarrow> int \<Rightarrow> store" where
  "newStore c mb mi = \<lparr>st_genesis = None, st_lastDownloaded = None, st_lastStoredHeight = 1,
     st_blockPing = None, st_started = False, st_forked = None, st_wakeUp = False,
     st_noBlockCounter = 0, st_p2pUpdateCounter = 0, st_rollback = 0, st_networkStart = False,
     st_restoredIntegrity = False, st_lastBlocks = [], st_cachedIds = [], st_config = c,
     st_maxLastBlocks = mb, st_maxLastIds = mi, st_events = []\<rparr>"

type_synonym 'a sprog = "(store, error, 'a) prog"

definition getGenesisBlock :: "block sprog" where
  "getGenesisBlock = andThen (reads st_genesis) (defined AssertionException)"

definition lastOf :: "(int, block) jsmap \<Rightarrow> block option" where
  "lastOf m = (if m = [] then None else Some (snd (last m)))"

definition getLastBlock :: "block sprog" where
  "getLastBlock = andThen (reads (\<lambda>s. lastOf (st_lastBlocks s))) (defined AssertionException)"

definition getLastHeight :: "int sprog" where
  "getLastHeight = andThen getLastBlock (\<lambda>b. ret (height (bdata b)))"

text \<open>Dropping the blocks at or above the new height, after asserting there is no gap.\<close>

definition trimBlocks :: "int \<Rightarrow> unit sprog" where
  "trimBlocks h =
     andThen (reads (\<lambda>s. lastOf (st_lastBlocks s))) (\<lambda>l.
       case l of
         None \<Rightarrow> ret ()
       | Some b \<Rightarrow> whenever (height (bdata b) \<noteq> h - 1)
           (andThen (throwIf (\<not> h - 1 \<le> height (bdata b)) AssertionException) (\<lambda>_.
            modify (\<lambda>s. s\<lparr>st_lastBlocks := filter (\<lambda>(_, x). height (bdata x) < h) (st_lastBlocks s)\<rparr>))))"

text \<open>Deleting the oldest block when the size exceeds the maximum.\<close>

definition capBlocks :: "int \<Rightarrow> (int, block) jsmap \<Rightarrow> (int, block) jsmap" where
  "capBlocks mx m =
     (if int (length m) > mx
      then (case m of [] \<Rightarrow> m | (_, b0) # _ \<Rightarrow> jm_delete (height (bdata b0)) m) else m)"

definition setLastBlock :: "block \<Rightarrow> unit sprog" where
  "setLastBlock b =
     (let h = height (bdata b) in
      andThen (trimBlocks h) (\<lambda>_.
      andThen (modify (\<lambda>s. s\<lparr>st_lastBlocks := jm_set h b (st_lastBlocks s),
                              st_config := setHeight h (st_config s)\<rparr>)) (\<lambda>_.
      andThen (\<lambda>s. (isNewMilestone None (st_config s), s)) (\<lambda>new.
      andThen (whenever new (modify (\<lambda>s. s\<lparr>st_events := st_events s @ [''crypto.milestone.changed'']\<rparr>))) (\<lambda>_.
      modify (\<lambda>s. s\<lparr>st_lastBlocks := capBlocks (st_maxLastBlocks s) (st_lastBlocks s),
                      st_noBlockCounter := 0, st_p2pUpdateCounter := 0\<rparr>))))))"

definition getLastBlocks :: "store \<Rightarrow> block list" where
  "getLastBlocks s = rev (jm_values (st_lastBlocks s))"

text \<open>Block data with its transactions' data, or without them when only headers are asked for.\<close>

type_synonym blockview = "blockdata \<times> txdata list option"

definition mapToBlockData :: "bool \<Rightarrow> block \<Rightarrow> blockview" where
  "mapToBlockData headersOnly b =
     (bdata b, if headersOnly then None else Some (map data (transactions b)))"

definition getLastBlocksData :: "bool \<Rightarrow> store \<Rightarrow> blockview list" where
  "getLastBlocksData headersOnly s = map (mapToBlockData headersOnly) (getLastBlocks s)"

definition allDefined :: "'a option list \<Rightarrow> error + 'a list" where
  "allDefined xs = (if list_all (\<lambda>x. x \<noteq> None) xs then Inr (map the xs) else Inl AssertionException)"

definition getLastBlockIds :: "store \<Rightarrow> error + string list" where
  "getLastBlockIds s = allDefined (map (\<lambda>b. bid (bdata b)) (getLastBlocks s))"

definition getLastBlocksByHeight :: "int \<Rightarrow> int option \<Rightarrow> bool \<Rightarrow> store \<Rightarrow> blockview list" where
  "getLastBlocksByHeight start endH headersOnly s =
     (let tail = (if truthyNum endH then the endH else start)
      in map (mapToBlockData headersOnly)
           (filter (\<lambda>b. start \<le> height (bdata b) \<and> height (bdata b) \<le> tail) (jm_values (st_lastBlocks s))))"

definition getCommonBlocks :: "string list \<Rightarrow> store \<Rightarrow> error + blockview list" where
  "getCommonBlocks ids s =
     (let bs = getLastBlocksData True s
      in if list_all (\<lambda>v. bid (fst v) \<noteq> None) bs
         then Inr (filter (\<lambda>v. the (bid (fst v)) \<in> set ids) bs) else Inl AssertionException)"

text \<open>\<open>cacheTransactions\<close>: the new ones and the known ones, and the cache capped to its last ids.\<close>

definition cacheTransactions :: "txdata list \<Rightarrow> (txdata list \<times> txdata list) sprog" where
  "cacheTransactions txs = (\<lambda>s.
     if \<not> list_all (\<lambda>t. tid t \<noteq> None) txs then (Inl AssertionException, s)
     else let cached = st_cachedIds s;
              added = filter (\<lambda>t. the (tid t) \<notin> set cached) txs;
              notAdded = filter (\<lambda>t. the (tid t) \<in> set cached) txs;
              c1 = fold (\<lambda>t c. js_add (the (tid t)) c) added cached;
              c2 = (if int (length c1) > st_maxLastIds s
                    then drop (length c1 - nat (st_maxLastIds s)) c1 else c1)
          in (Inr (added, notAdded), s\<lparr>st_cachedIds := c2\<rparr>))"

definition clearCachedTransactionIds :: "store \<Rightarrow> store" where
  "clearCachedTransactionIds s = s\<lparr>st_cachedIds := []\<rparr>"

definition pingBlock :: "int \<Rightarrow> blockdata \<Rightarrow> bool sprog" where
  "pingBlock now b = (\<lambda>s.
     case st_blockPing s of
       None \<Rightarrow> (Inr False, s)
     | Some p \<Rightarrow>
         if height (bp_block p) = height b \<and> bid (bp_block p) = bid b
         then (Inr True, s\<lparr>st_blockPing := Some (p\<lparr>bp_count := bp_count p + 1, bp_last := now\<rparr>)\<rparr>)
         else (Inr False, s))"

definition pushPingBlock :: "int \<Rightarrow> blockdata \<Rightarrow> bool \<Rightarrow> store \<Rightarrow> store" where
  "pushPingBlock now b fromForger s =
     s\<lparr>st_blockPing := Some \<lparr>bp_block = b, bp_count = (if fromForger then 0 else 1), bp_first = now,
        bp_last = now, bp_fromForger = fromForger\<rparr>\<rparr>"

definition setForkedBlock :: "block \<Rightarrow> store \<Rightarrow> store" where
  "setForkedBlock b s = s\<lparr>st_forked := Some b\<rparr>"

definition clearForkedBlock :: "store \<Rightarrow> store" where
  "clearForkedBlock s = s\<lparr>st_forked := None\<rparr>"

text \<open>The timer is a flag; firing clears it before the callback runs.\<close>

definition setWakeUpTimeout :: "store \<Rightarrow> store" where
  "setWakeUpTimeout s = s\<lparr>st_wakeUp := True\<rparr>"

definition clearWakeUpTimeout :: "store \<Rightarrow> store" where
  "clearWakeUpTimeout s = (if st_wakeUp s then s\<lparr>st_wakeUp := False\<rparr> else s)"

section \<open>The last blocks\<close>

text \<open>Consecutive heights in ascending order, each block under its height, within the bound.\<close>

fun consecutive :: "int list \<Rightarrow> bool" where
  "consecutive [] = True"
| "consecutive [x] = True"
| "consecutive (x # y # xs) \<longleftrightarrow> y = x + 1 \<and> consecutive (y # xs)"

definition heights :: "(int, block) jsmap \<Rightarrow> int list" where
  "heights m = map (\<lambda>(_, b). height (bdata b)) m"

definition store_ok :: "store \<Rightarrow> bool" where
  "store_ok s \<longleftrightarrow> jm_keys (st_lastBlocks s) = heights (st_lastBlocks s) \<and>
     consecutive (heights (st_lastBlocks s)) \<and> 0 < st_maxLastBlocks s \<and>
     int (length (st_lastBlocks s)) \<le> st_maxLastBlocks s \<and> milestones (st_config s) \<noteq> None"

lemma consecutive_nth: "consecutive xs \<Longrightarrow> i < length xs \<Longrightarrow> xs ! i = hd xs + int i"
proof (induction xs arbitrary: i rule: consecutive.induct)
  case (3 x y xs)
  then show ?case by (cases i) auto
qed auto

lemma consecutive_snoc: "consecutive (xs @ [y]) \<longleftrightarrow> consecutive xs \<and> (xs = [] \<or> y = last xs + 1)"
  by (induction xs rule: consecutive.induct) auto

lemma consecutive_tl: "consecutive xs \<Longrightarrow> consecutive (tl xs)"
  by (cases xs rule: consecutive.cases) auto

lemma consecutive_sorted: "consecutive xs \<Longrightarrow> sorted xs \<and> distinct xs"
proof (induction xs rule: consecutive.induct)
  case (3 x y xs)
  then have "sorted (y # xs) \<and> distinct (y # xs)" by auto
  moreover have "y = x + 1" using 3 by simp
  ultimately show ?case by auto
qed auto

lemma sorted_le_last: "sorted xs \<Longrightarrow> x \<in> set xs \<Longrightarrow> x \<le> last xs"
  by (induction xs) auto

lemma filter_above:
  assumes "consecutive (x # xs)" and "\<not> x < h" shows "filter (\<lambda>x. x < h) (x # xs) = []"
proof -
  have "\<forall>z \<in> set (x # xs). x \<le> z" using consecutive_sorted[OF assms(1)] by simp
  then show ?thesis using assms(2) by (auto simp: filter_empty_conv)
qed

lemma filter_consecutive:
  assumes "consecutive xs"
  shows "consecutive (filter (\<lambda>x. x < h) xs) \<and>
    (filter (\<lambda>x. x < h) xs = [] \<or> last xs < h \<or> last (filter (\<lambda>x. x < h) xs) = h - 1)"
  using assms
proof (induction xs rule: consecutive.induct)
  case (3 x y xs)
  show ?case
  proof (cases "x < h")
    case True
    have y: "y = x + 1" "consecutive (y # xs)" using 3(2) by auto
    show ?thesis
    proof (cases "y < h")
      case True
      then show ?thesis using 3 \<open>x < h\<close> by auto
    next
      case False
      then have "filter (\<lambda>x. x < h) (y # xs) = []" using filter_above[OF y(2)] by blast
      then have "filter (\<lambda>x. x < h) (x # y # xs) = [x]" using True by simp
      then show ?thesis using True False y(1) by simp
    qed
  next
    case False
    then show ?thesis using filter_above[OF 3(2)] by simp
  qed
qed auto

lemma heights_filter:
  "heights (filter (\<lambda>(_, x). height (bdata x) < h) m) = filter (\<lambda>x. x < h) (heights m)"
  by (induction m) (auto simp: heights_def)

lemma keys_filter_heights:
  "jm_keys m = heights m \<Longrightarrow>
    jm_keys (filter (\<lambda>(_, x). height (bdata x) < h) m) = heights (filter (\<lambda>(_, x). height (bdata x) < h) m)"
  by (induction m) (auto simp: jm_keys_def heights_def)

lemma jm_set_fresh: "\<not> jm_has m k \<Longrightarrow> jm_set k v m = m @ [(k, v)]"
  by (induction k v m rule: jm_set.induct) (auto simp: jm_has_def)

lemma lastOf_heights: "lastOf m = Some b \<Longrightarrow> m \<noteq> [] \<and> last (heights m) = height (bdata b)"
  by (auto simp: lastOf_def heights_def last_map case_prod_beta split: if_splits)

text \<open>After trimming, the blocks end just below the new height (or there are none).\<close>

lemma trim_spec:
  assumes "store_ok s" and "trimBlocks h s = (Inr u, s')"
  shows "store_ok s' \<and> (heights (st_lastBlocks s') = [] \<or> last (heights (st_lastBlocks s')) = h - 1)"
proof (cases "lastOf (st_lastBlocks s)")
  case None
  then have "st_lastBlocks s = []" by (simp add: lastOf_def split: if_splits)
  then show ?thesis using assms None by (simp add: trimBlocks_def heights_def)
next
  case (Some b)
  note lb = lastOf_heights[OF Some]
  show ?thesis
  proof (cases "height (bdata b) = h - 1")
    case True
    then show ?thesis using assms Some lb by (simp add: trimBlocks_def)
  next
    case False
    then have s': "s' = s\<lparr>st_lastBlocks := filter (\<lambda>(_, x). height (bdata x) < h) (st_lastBlocks s)\<rparr>"
      and le: "h - 1 \<le> height (bdata b)"
      using assms(2) Some by (auto simp: trimBlocks_def split: if_splits)
    have c: "consecutive (heights (st_lastBlocks s))" using assms(1) by (simp add: store_ok_def)
    have "int (length (filter (\<lambda>(_, x). height (bdata x) < h) (st_lastBlocks s))) \<le> st_maxLastBlocks s"
      using length_filter_le[of "\<lambda>(_, x). height (bdata x) < h" "st_lastBlocks s"] assms(1)
      unfolding store_ok_def by linarith
    then show ?thesis
      using filter_consecutive[OF c, of h] assms(1) False le lb keys_filter_heights
      by (auto simp: s' store_ok_def heights_filter)
  qed
qed

lemma setLastBlock_ok:
  assumes "store_ok s" and "setLastBlock b s = (Inr u, s')"
  shows "store_ok s' \<and> lastOf (st_lastBlocks s') = Some b \<and>
    cheight (st_config s') = Some (height (bdata b)) \<and> st_noBlockCounter s' = 0"
proof -
  let ?h = "height (bdata b)"
  obtain s1 where t: "trimBlocks ?h s = (Inr (), s1)"
    using assms(2) by (auto simp: setLastBlock_def Let_def elim!: andThen_InrE)
  note s1 = trim_spec[OF assms(1) t]
  let ?m = "st_lastBlocks s1"
  have keys: "jm_keys ?m = heights ?m" and cons: "consecutive (heights ?m)"
    using s1 by (simp_all add: store_ok_def)
  have "\<not> jm_has ?m ?h"
  proof
    assume "jm_has ?m ?h"
    then have m: "?h \<in> set (heights ?m)" using keys set_jm_keys[of ?m] by simp
    then have "last (heights ?m) = ?h - 1" using s1 by auto
    moreover have "?h \<le> last (heights ?m)"
      using m consecutive_sorted[OF cons] sorted_le_last by blast
    ultimately show False by simp
  qed
  then have set: "jm_set ?h b ?m = ?m @ [(?h, b)]" by (rule jm_set_fresh)
  have h': "heights (?m @ [(?h, b)]) = heights ?m @ [?h]" by (simp add: heights_def)
  have cons': "consecutive (heights (?m @ [(?h, b)]))"
    using cons s1 by (auto simp: h' consecutive_snoc)
  have keys': "jm_keys (?m @ [(?h, b)]) = heights (?m @ [(?h, b)])"
    using keys by (simp add: jm_keys_def heights_def)
  have max: "0 < st_maxLastBlocks s1" "int (length ?m) \<le> st_maxLastBlocks s1"
    using s1 by (simp_all add: store_ok_def)
  define m' where "m' = capBlocks (st_maxLastBlocks s1) (?m @ [(?h, b)])"
  have m': "(m' = ?m @ [(?h, b)] \<and> int (length m') \<le> st_maxLastBlocks s1) \<or> (?m \<noteq> [] \<and> m' = tl (?m @ [(?h, b)]) \<and>
      int (length ?m) = st_maxLastBlocks s1)"
  proof (cases "int (length (?m @ [(?h, b)])) > st_maxLastBlocks s1")
    case True
    then obtain k0 b0 rest where m0: "?m = (k0, b0) # rest" using max by (cases ?m) auto
    have "height (bdata b0) = k0" using keys m0 by (simp add: jm_keys_def heights_def)
    moreover have "k0 \<notin> set (map fst (rest @ [(?h, b)]))"
    proof -
      have "distinct (jm_keys (?m @ [(?h, b)]))" unfolding keys' using consecutive_sorted[OF cons'] ..
      then show ?thesis using m0 by (simp add: jm_keys_def)
    qed
    ultimately have "jm_delete (height (bdata b0)) (?m @ [(?h, b)]) = rest @ [(?h, b)]"
      using m0 by (auto simp: jm_delete_def filter_id_conv image_iff)
    then show ?thesis using True m0 max by (simp add: m'_def capBlocks_def)
  qed (simp add: m'_def capBlocks_def)
  have last': "lastOf m' = Some b" using m' by (auto simp: lastOf_def last_tl)
  have ok': "jm_keys m' = heights m'" "consecutive (heights m')" "int (length m') \<le> st_maxLastBlocks s1"
  proof -
    show "jm_keys m' = heights m'"
    proof -
      have "jm_keys (tl (?m @ [(?h, b)])) = heights (tl (?m @ [(?h, b)]))"
        using keys' unfolding jm_keys_def heights_def by (simp only: map_tl)
      then show ?thesis using m' keys' by metis
    qed
    show "consecutive (heights m')"
      using m' cons' consecutive_tl[OF cons'] by (auto simp: heights_def map_tl)
    show "int (length m') \<le> st_maxLastBlocks s1"
      using m' max by auto
  qed
  have run: "st_lastBlocks s' = m' \<and> st_maxLastBlocks s' = st_maxLastBlocks s1 \<and>
      st_config s' = setHeight ?h (st_config s1) \<and> st_noBlockCounter s' = 0"
  proof -
    obtain new where "isNewMilestone None (setHeight ?h (st_config s1)) = Inr new"
      using assms(2) t by (auto simp: setLastBlock_def Let_def andThen_def split: sum.splits)
    then show ?thesis
      using assms(2) t set by (cases new) (auto simp: setLastBlock_def Let_def andThen_def m'_def)
  qed
  then show ?thesis
    using ok' last' s1 by (simp add: store_ok_def setHeight_def)
qed

section \<open>BlockStore and TransactionStore (blocks.ts, transactions.ts)\<close>

record blockStore =
  bs_byId :: "(string, blockdata) capped_map"
  bs_byHeight :: "(int, blockdata) capped_map"
  bs_last :: "block option"

definition bs_new :: "int \<Rightarrow> blockStore" where
  "bs_new n = \<lparr>bs_byId = cm_new n, bs_byHeight = cm_new n, bs_last = None\<rparr>"

definition bs_set :: "block \<Rightarrow> (blockStore, error, unit) prog" where
  "bs_set b =
     andThen (reads bs_last) (\<lambda>lb.
     andThen (throwIf (height (bdata b) \<noteq> 1 \<and> lb = None) AssertionException) (\<lambda>_.
     andThen (throwIf (height (bdata b) \<noteq> (case lb of None \<Rightarrow> 1 | Some l \<Rightarrow> height (bdata l) + 1))
        AssertionException) (\<lambda>_.
     andThen (defined AssertionException (bid (bdata b))) (\<lambda>i.
     andThen (reads bs_byId) (\<lambda>m1. andThen (liftE (cm_set i (bdata b) m1)) (\<lambda>m1'.
     andThen (modify (\<lambda>s. s\<lparr>bs_byId := m1'\<rparr>)) (\<lambda>_.
     andThen (reads bs_byHeight) (\<lambda>m2. andThen (liftE (cm_set (height (bdata b)) (bdata b) m2)) (\<lambda>m2'.
     modify (\<lambda>s. s\<lparr>bs_byHeight := m2', bs_last := Some b\<rparr>))))))))))"

definition bs_has :: "blockdata \<Rightarrow> blockStore \<Rightarrow> error + bool" where
  "bs_has b s = (case bid b of None \<Rightarrow> Inl AssertionException
     | Some i \<Rightarrow> Inr (cm_has (bs_byId s) i \<or> cm_has (bs_byHeight s) (height b)))"

definition bs_delete :: "blockdata \<Rightarrow> blockStore \<Rightarrow> error + blockStore" where
  "bs_delete b s = (case bid b of None \<Rightarrow> Inl AssertionException
     | Some i \<Rightarrow> Inr (s\<lparr>bs_byId := snd (cm_delete i (bs_byId s)),
                        bs_byHeight := snd (cm_delete (height b) (bs_byHeight s))\<rparr>))"

definition bs_clear :: "blockStore \<Rightarrow> blockStore" where
  "bs_clear s = s\<lparr>bs_byId := cm_clear (bs_byId s), bs_byHeight := cm_clear (bs_byHeight s)\<rparr>"

definition bs_resize :: "int \<Rightarrow> blockStore \<Rightarrow> blockStore" where
  "bs_resize n s = s\<lparr>bs_byId := cm_resize n (bs_byId s), bs_byHeight := cm_resize n (bs_byHeight s)\<rparr>"

definition ts_push :: "txdata \<Rightarrow> (string, txdata) capped_map \<Rightarrow> error + (string, txdata) capped_map" where
  "ts_push t c = (case tid t of None \<Rightarrow> Inl AssertionException | Some i \<Rightarrow> cm_set i t c)"

lemma bs_set_sequence:
  assumes "bs_set b s = (Inr u, s')"
  shows "bs_last s' = Some b" and "height (bdata b) = (case bs_last s of None \<Rightarrow> 1 | Some l \<Rightarrow> height (bdata l) + 1)"
    and "cm_get (bs_byHeight s') (height (bdata b)) = Some (bdata b)"
    and "bid (bdata b) = Some i \<Longrightarrow> cm_get (bs_byId s') i = Some (bdata b)"
  using assms
  by (auto simp: bs_set_def andThen_def cm_get_set defined_def throw_def ret_def
      split: if_splits option.splits sum.splits)

end
