(* ===== verification/BlockState.thy ===== *)
theory BlockState
  imports Ledger StateStore
begin

text \<open>
  Applying and reverting blocks (packages/core-state/source/block-state.ts), the validator mutators
  (core-state/source/mutators, core-fees-burn/source/mutator.ts) and the vote balances. The state
  is the wallets together with the state store.
\<close>

section \<open>State\<close>

record chain_state =
  ch_wallets :: wstate
  ch_store :: store

type_synonym 'a cprog = "(chain_state, error, 'a) prog"

definition onWallets :: "'a wprog \<Rightarrow> 'a cprog" where
  "onWallets m = (\<lambda>s. case m (ch_wallets s) of (r, w) \<Rightarrow> (r, s\<lparr>ch_wallets := w\<rparr>))"

definition onStore :: "'a sprog \<Rightarrow> 'a cprog" where
  "onStore m = (\<lambda>s. case m (ch_store s) of (r, st) \<Rightarrow> (r, s\<lparr>ch_store := st\<rparr>))"

section \<open>Mutators\<close>

datatype mutator = AttributeMutator | BalanceMutator | BurnFeeMutator int

text \<open>\<open>getAttribute("validator.voteBalance")\<close> without a default throws when it is missing.\<close>

definition addToVoteBalance :: "env \<Rightarrow> nat \<Rightarrow> int \<Rightarrow> unit wprog" where
  "addToVoteBalance E r d =
     andThen (wal r) (\<lambda>w.
     case wvote w of
       None \<Rightarrow> ret ()
     | Some v \<Rightarrow>
         andThen (byKey E v) (\<lambda>q.
         andThen (wal q) (\<lambda>vw.
         andThen (defined AssertionException (validatorAttr va_voteBalance vw)) (\<lambda>b.
         updW q (setVoteBalance (b + d))))))"

text \<open>The fee of the burn mutator: all of it less the percentage, when that is one.\<close>

definition burnAmount :: "int \<Rightarrow> blockdata \<Rightarrow> int" where
  "burnAmount p b = (if 0 \<le> p \<and> p \<le> 100 then bigDiv (totalFee b * (100 - p)) 100 else totalFee b)"

definition attribute_apply :: "nat \<Rightarrow> blockdata \<Rightarrow> unit wprog" where
  "attribute_apply r b =
     andThen (wal r) (\<lambda>w. andThen (defined AssertionException (wvalidator w)) (\<lambda>v.
       updW r (\<lambda>w. w\<lparr>wvalidator := Some (v\<lparr>va_lastBlock := Some b\<rparr>)\<rparr>)))"

definition attribute_revert :: "nat \<Rightarrow> blockdata \<Rightarrow> unit wprog" where
  "attribute_revert r b =
     andThen (wal r) (\<lambda>w. andThen (defined AssertionException (wvalidator w)) (\<lambda>v.
       updW r (\<lambda>w. w\<lparr>wvalidator := Some (v\<lparr>va_lastBlock := None\<rparr>)\<rparr>)))"

definition balance_apply :: "env \<Rightarrow> nat \<Rightarrow> blockdata \<Rightarrow> unit wprog" where
  "balance_apply E r b =
     andThen (addToVoteBalance E r (reward b + totalFee b)) (\<lambda>_.
     updW r (increaseBalance (reward b + totalFee b)))"

definition balance_revert :: "env \<Rightarrow> nat \<Rightarrow> blockdata \<Rightarrow> unit wprog" where
  "balance_revert E r b =
     andThen (addToVoteBalance E r (- (reward b + totalFee b))) (\<lambda>_.
     updW r (decreaseBalance (reward b + totalFee b)))"

definition burn_apply :: "env \<Rightarrow> int \<Rightarrow> nat \<Rightarrow> blockdata \<Rightarrow> unit wprog" where
  "burn_apply E p r b =
     andThen (addToVoteBalance E r (- burnAmount p b)) (\<lambda>_.
     updW r (decreaseBalance (burnAmount p b)))"

definition burn_revert :: "env \<Rightarrow> int \<Rightarrow> nat \<Rightarrow> blockdata \<Rightarrow> unit wprog" where
  "burn_revert E p r b =
     andThen (addToVoteBalance E r (burnAmount p b)) (\<lambda>_.
     updW r (increaseBalance (burnAmount p b)))"

declare attribute_apply_def [simp] attribute_revert_def [simp] balance_apply_def [simp]
  balance_revert_def [simp] burn_apply_def [simp] burn_revert_def [simp]

fun mutatorApply :: "env \<Rightarrow> mutator \<Rightarrow> nat \<Rightarrow> blockdata \<Rightarrow> unit wprog" where
  "mutatorApply E AttributeMutator r b = attribute_apply r b"
| "mutatorApply E BalanceMutator r b = balance_apply E r b"
| "mutatorApply E (BurnFeeMutator p) r b = burn_apply E p r b"

fun mutatorRevert :: "env \<Rightarrow> mutator \<Rightarrow> nat \<Rightarrow> blockdata \<Rightarrow> unit wprog" where
  "mutatorRevert E AttributeMutator r b = attribute_revert r b"
| "mutatorRevert E BalanceMutator r b = balance_revert E r b"
| "mutatorRevert E (BurnFeeMutator p) r b = burn_revert E p r b"

section \<open>Vote balances (#updateVoteBalances)\<close>

text \<open>\<open>getAttribute("validator.voteBalance", ZERO)\<close>.\<close>

definition voteBalanceOf :: "wallet \<Rightarrow> int" where
  "voteBalanceOf w = (case validatorAttr va_voteBalance w of None \<Rightarrow> 0 | Some b \<Rightarrow> b)"

definition bumpVoteBalance :: "env \<Rightarrow> string \<Rightarrow> int \<Rightarrow> unit wprog" where
  "bumpVoteBalance E v d =
     andThen (byKey E v) (\<lambda>q. updW q (\<lambda>w. setVoteBalance (voteBalanceOf w + d) w))"

text \<open>A wallet's validator gains or loses \<open>d\<close>, when the wallet has voted.\<close>

definition settle :: "env \<Rightarrow> nat \<Rightarrow> int \<Rightarrow> unit wprog" where
  "settle E r d =
     andThen (wal r) (\<lambda>w. case wvote w of None \<Rightarrow> ret () | Some v \<Rightarrow> bumpVoteBalance E v d)"

definition flipIf :: "bool \<Rightarrow> int \<Rightarrow> int" where
  "flipIf rv d = (if rv then - d else d)"

definition voteBalancesOfVote :: "env \<Rightarrow> nat \<Rightarrow> txdata \<Rightarrow> bool \<Rightarrow> unit wprog" where
  "voteBalancesOfVote E sender d rv =
     andThen (defined AssertionException (as_votes (asset d))) (\<lambda>votes.
     andThen (wal sender) (\<lambda>w.
     let amt = wbalance w - (if rv then fee d else 0) in
     andThen (defined JsTypeError (as_unvotes (asset d))) (\<lambda>unvotes.
     andThen (whenever (unvotes \<noteq> [])
        (bumpVoteBalance E (hd unvotes) (flipIf rv (- (amt + fee d))))) (\<lambda>_.
     whenever (votes \<noteq> []) (bumpVoteBalance E (hd votes) (flipIf rv amt))))))"

definition isMultiPayment :: "txdata \<Rightarrow> bool" where
  "isMultiPayment d \<longleftrightarrow> isCore T_MultiPayment d"

definition voteBalancesOfPayments :: "env \<Rightarrow> nat \<Rightarrow> nat option \<Rightarrow> txdata \<Rightarrow> bool \<Rightarrow> unit wprog" where
  "voteBalancesOfPayments E sender recipient d rv =
     andThen (wal sender) (\<lambda>w.
     andThen (case wvote w of
        None \<Rightarrow> ret ()
      | Some v \<Rightarrow>
          andThen (byKey E v) (\<lambda>q.
          andThen (if isMultiPayment d then andThen (paymentsOf d) (\<lambda>ps. ret (totalPayments ps))
                   else ret (amount d)) (\<lambda>amt.
          updW q (\<lambda>w. setVoteBalance (voteBalanceOf w - flipIf rv (amt + fee d)) w)))) (\<lambda>_.
     andThen (whenever (isMultiPayment d)
        (andThen (paymentsOf d) (forEach (\<lambda>p.
           andThen (byAddress (pay_recipientId p)) (\<lambda>r. settle E r (flipIf rv (pay_amount p))))))) (\<lambda>_.
     case recipient of
       None \<Rightarrow> ret ()
     | Some r \<Rightarrow> settle E r (flipIf rv (amount d)))))"

definition updateVoteBalances :: "env \<Rightarrow> nat \<Rightarrow> nat option \<Rightarrow> txdata \<Rightarrow> bool \<Rightarrow> unit wprog" where
  "updateVoteBalances E sender recipient d rv =
     (if isCore T_Vote d then voteBalancesOfVote E sender d rv
      else voteBalancesOfPayments E sender recipient d rv)"

section \<open>Transactions and blocks\<close>

definition recipientOf :: "txdata \<Rightarrow> nat option wprog" where
  "recipientOf d =
     (if truthyStr (recipientId d)
      then andThen (byAddress (the (recipientId d))) (\<lambda>r. ret (Some r)) else ret None)"

definition applyTransaction :: "env \<Rightarrow> handler list \<Rightarrow> transaction \<Rightarrow> unit wprog" where
  "applyTransaction E hs t =
     andThen (liftE (activatedHandlerForData hs (data t))) (\<lambda>h.
     andThen (applyTx E h t) (\<lambda>_.
     andThen (senderOf E (data t)) (\<lambda>sender.
     andThen (recipientOf (data t)) (\<lambda>recipient.
     updateVoteBalances E sender recipient (data t) False))))"

definition revertTransaction :: "env \<Rightarrow> handler list \<Rightarrow> transaction \<Rightarrow> unit wprog" where
  "revertTransaction E hs t =
     andThen (liftE (activatedHandlerForData hs (data t))) (\<lambda>h.
     andThen (senderOf E (data t)) (\<lambda>sender.
     andThen (recipientOf (data t)) (\<lambda>recipient.
     andThen (revertTx E h t) (\<lambda>_.
     updateVoteBalances E sender recipient (data t) True))))"

text \<open>
  \<open>#initGenesisForgerWallet\<close>: the injected \<open>addressFactory\<close> is the block factory, which has no
  \<open>fromPublicKey\<close>, so for an unknown forger the call is a \<open>TypeError\<close>.
\<close>

definition initGenesisForgerWallet :: "string \<Rightarrow> unit wprog" where
  "initGenesisForgerWallet k =
     andThen (hasByPublicKey Chain k) (\<lambda>h. if h then ret () else throw JsTypeError)"

text \<open>The loop in the \<open>try\<close>: the error it ends with, if any, and the transactions before it.\<close>

fun applyAll :: "env \<Rightarrow> handler list \<Rightarrow> transaction list \<Rightarrow> transaction list \<Rightarrow>
    (error option \<times> transaction list) wprog" where
  "applyAll E hs [] dn = ret (None, dn)"
| "applyAll E hs (t # ts) dn = (\<lambda>s.
     case applyTransaction E hs t s of
       (Inl e, s') \<Rightarrow> (Inr (Some e, dn), s')
     | (Inr _, s') \<Rightarrow> applyAll E hs ts (dn @ [t]) s')"

fun revertAll :: "env \<Rightarrow> handler list \<Rightarrow> transaction list \<Rightarrow> transaction list \<Rightarrow>
    (error option \<times> transaction list) wprog" where
  "revertAll E hs [] dn = ret (None, dn)"
| "revertAll E hs (t # ts) dn = (\<lambda>s.
     case revertTransaction E hs t s of
       (Inl e, s') \<Rightarrow> (Inr (Some e, dn), s')
     | (Inr _, s') \<Rightarrow> revertAll E hs ts (dn @ [t]) s')"

definition forgerApply :: "env \<Rightarrow> mutator list \<Rightarrow> nat \<Rightarrow> blockdata \<Rightarrow> unit wprog" where
  "forgerApply E ms r b = forEach (\<lambda>m. mutatorApply E m r b) ms"

definition forgerRevert :: "env \<Rightarrow> mutator list \<Rightarrow> nat \<Rightarrow> blockdata \<Rightarrow> unit wprog" where
  "forgerRevert E ms r b = forEach (\<lambda>m. mutatorRevert E m r b) ms"

text \<open>\<open>try\<close> a program, giving its error to the handler.\<close>

definition catchE :: "('s, 'e, unit) prog \<Rightarrow> ('s, 'e, 'e option) prog" where
  "catchE m = (\<lambda>s. case m s of (Inl e, s') \<Rightarrow> (Inr (Some e), s') | (Inr _, s') \<Rightarrow> (Inr None, s'))"

text \<open>The \<open>try\<close> block: what it ends with and the transactions it had applied.\<close>

definition tryApply :: "env \<Rightarrow> handler list \<Rightarrow> mutator list \<Rightarrow> block \<Rightarrow> nat \<Rightarrow>
    (error option \<times> transaction list) cprog" where
  "tryApply E hs ms b forger =
     andThen (onWallets (applyAll E hs (transactions b) [])) (\<lambda>(err, dn).
     case err of
       Some e \<Rightarrow> ret (Some e, dn)
     | None \<Rightarrow>
         andThen (catchE (andThen (onWallets (forgerApply E ms forger (bdata b)))
                            (\<lambda>_. onStore (setLastBlock b)))) (\<lambda>err2. ret (err2, dn)))"

text \<open>The \<open>catch\<close> block: the applied transactions are reverted, the error is thrown again.\<close>

definition catchApply :: "env \<Rightarrow> handler list \<Rightarrow> block \<Rightarrow> error option \<times> transaction list \<Rightarrow> unit cprog" where
  "catchApply E hs previous res =
     (case res of
        (None, _) \<Rightarrow> ret ()
      | (Some e, dn) \<Rightarrow>
          andThen (onWallets (forEach (revertTransaction E hs) (rev dn))) (\<lambda>_.
          andThen (onStore (setLastBlock previous)) (\<lambda>_. throw e)))"

definition applyBlock :: "env \<Rightarrow> handler list \<Rightarrow> mutator list \<Rightarrow> block \<Rightarrow> unit cprog" where
  "applyBlock E hs ms b =
     andThen (whenever (height (bdata b) = 1)
        (onWallets (initGenesisForgerWallet (generatorPublicKey (bdata b))))) (\<lambda>_.
     andThen (onStore getLastBlock) (\<lambda>previous.
     andThen (onWallets (byKey E (generatorPublicKey (bdata b)))) (\<lambda>forger.
     andThen (tryApply E hs ms b forger) (catchApply E hs previous))))"

definition revertBlock :: "env \<Rightarrow> handler list \<Rightarrow> mutator list \<Rightarrow> block \<Rightarrow> unit cprog" where
  "revertBlock E hs ms b =
     andThen (onWallets (byKey E (generatorPublicKey (bdata b)))) (\<lambda>forger.
     andThen (catchE (onWallets (forgerRevert E ms forger (bdata b)))) (\<lambda>err0.
     andThen (case err0 of
        Some e \<Rightarrow> ret (Some e, [])
      | None \<Rightarrow> onWallets (revertAll E hs (rev (transactions b)) [])) (\<lambda>(err, dn).
     case err of
       None \<Rightarrow> ret ()
     | Some e \<Rightarrow>
         andThen (onWallets (forEach (applyTransaction E hs) (rev dn))) (\<lambda>_. throw e))))"

section \<open>The total balance over a block\<close>

lemma moves_bump: "moves R c 0 (bumpVoteBalance E v d)"
  unfolding bumpVoteBalance_def
  by (rule key_then_moves, rule moves_updW) (auto simp: wallet_ops)

lemma moves_settle: "moves R c 0 (settle E r d)"
  unfolding settle_def
  by (rule unchanged_then_moves[OF unchanged_pure(7)]) (auto intro: moves_bump moves_ret split: option.splits)

lemma moves_addToVoteBalance: "moves R c 0 (addToVoteBalance E r d)"
  unfolding addToVoteBalance_def
  by (rule unchanged_then_moves[OF unchanged_pure(7)])
    (auto simp: wallet_ops split: option.splits intro!: moves_ret key_then_moves moves_updW
      unchanged_then_moves[OF unchanged_pure(7)] unchanged_then_moves[OF unchanged_pure(4)])

lemma moves_votes: "moves R c 0 (voteBalancesOfVote E r d rv)"
  unfolding voteBalancesOfVote_def Let_def
  by (intro unchanged_then_moves[OF unchanged_pure(4)] unchanged_then_moves[OF unchanged_pure(7)]
      moves_andThen[of _ _ 0 _ 0] moves_whenever0 moves_bump) simp_all

lemma moves_payments: "moves R c 0 (voteBalancesOfPayments E r q d rv)"
proof -
  have first: "moves R c' 0 (case wvote w of None \<Rightarrow> ret ()
      | Some v \<Rightarrow> andThen (byKey E v) (\<lambda>q.
          andThen (if isMultiPayment d then andThen (paymentsOf d) (\<lambda>ps. ret (totalPayments ps))
                   else ret (amount d)) (\<lambda>amt.
          updW q (\<lambda>w. setVoteBalance (voteBalanceOf w - flipIf rv (amt + fee d)) w))))" for w c'
    by (auto simp: wallet_ops paymentsOf_def simp del: updW_apply split: option.splits
        intro!: moves_ret key_then_moves moves_updW unchanged_then_moves unchanged_intros)
  have second: "moves R c' 0 (whenever (isMultiPayment d) (andThen (paymentsOf d) (forEach (\<lambda>p.
      andThen (byAddress (pay_recipientId p)) (\<lambda>r. settle E r (flipIf rv (pay_amount p)))))))" for c'
    by (auto simp: paymentsOf_def intro!: moves_whenever0 unchanged_then_moves[OF unchanged_pure(4)]
        moves_forEach0 address_then_moves moves_settle)
  have third: "moves R c' 0 (case q of None \<Rightarrow> ret () | Some r \<Rightarrow> settle E r (flipIf rv (amount d)))" for c'
    by (auto split: option.splits intro: moves_ret moves_settle)
  show ?thesis unfolding voteBalancesOfPayments_def
    by (rule unchanged_then_moves[OF unchanged_pure(7)], rule moves_andThen[OF first moves_andThen[OF second third]])
      simp_all
qed

lemma moves_updateVoteBalances: "moves R c 0 (updateVoteBalances E r q d rv)"
  by (simp add: updateVoteBalances_def moves_votes moves_payments)

lemma unchanged_recipientOf [unchanged_intros]: "unchanged R c (recipientOf d)"
  unfolding recipientOf_def by (intro unchanged_intros)

definition burnedBy :: "handler list \<Rightarrow> txdata \<Rightarrow> int" where
  "burnedBy hs d = (case activatedHandlerForData hs d of Inl _ \<Rightarrow> 0 | Inr h \<Rightarrow> burned h d)"

lemma moves_applyTransaction: "moves R c (- burnedBy hs (data t)) (applyTransaction E hs t)"
proof (cases "activatedHandlerForData hs (data t)")
  case (Inl e)
  then show ?thesis
    by (simp add: applyTransaction_def moves_def triple_def holds_def)
next
  case (Inr h)
  have rest: "moves R c' 0 (andThen (senderOf E (data t)) (\<lambda>sender.
      andThen (recipientOf (data t)) (\<lambda>recipient.
      updateVoteBalances E sender recipient (data t) False)))" for c'
    by (intro unchanged_then_moves[OF unchanged_senderOf] unchanged_then_moves[OF unchanged_recipientOf]
        moves_updateVoteBalances)
  show ?thesis
    using moves_andThen[OF moves_applyTx rest] Inr by (simp add: applyTransaction_def burnedBy_def)
qed

lemma applyAll_total:
  assumes "holds R c s" and "applyAll E hs ts dn s = (Inr (None, dn'), s')"
  shows "holds R (c - (\<Sum>t\<leftarrow>ts. burnedBy hs (data t))) s' \<and> dn' = dn @ ts"
  using assms
proof (induction ts arbitrary: dn s c)
  case (Cons t ts)
  obtain s1 where s1: "applyTransaction E hs t s = (Inr (), s1)"
    and rest: "applyAll E hs ts (dn @ [t]) s1 = (Inr (None, dn'), s')"
    using Cons.prems(2) by (auto split: prod.splits sum.splits)
  have "holds R (c + - burnedBy hs (data t)) s1"
    using triple_InrD[OF moves_applyTransaction[unfolded moves_def] Cons.prems(1) s1] .
  then show ?case using Cons.IH[OF _ rest, of "c - burnedBy hs (data t)"] by (simp add: diff_diff_eq)
qed simp

fun minted :: "mutator \<Rightarrow> blockdata \<Rightarrow> int" where
  "minted AttributeMutator b = 0"
| "minted BalanceMutator b = reward b + totalFee b"
| "minted (BurnFeeMutator p) b = - burnAmount p b"

lemma moves_mutator:
  assumes "r \<in> R"
  shows "moves R c (minted m b) (mutatorApply E m r b)" "moves R c (- minted m b) (mutatorRevert E m r b)"
  using assms
  by (cases m; auto simp: wallet_ops intro!: unchanged_then_moves[OF unchanged_pure(7)]
      unchanged_then_moves[OF unchanged_pure(4)] moves_updW moves_andThen[OF moves_addToVoteBalance])+

lemma moves_forgerApply:
  "r \<in> R \<Longrightarrow> moves R c (\<Sum>m\<leftarrow>ms. minted m b) (forgerApply E ms r b)"
  unfolding forgerApply_def by (rule moves_forEach) (rule moves_mutator(1))

lemma onWallets_Inr: "onWallets m s = (Inr x, s') \<Longrightarrow> \<exists>w. m (ch_wallets s) = (Inr x, w) \<and> s' = s\<lparr>ch_wallets := w\<rparr>"
  by (auto simp: onWallets_def split: prod.splits)

lemma onStore_Inr: "onStore m s = (Inr x, s') \<Longrightarrow> \<exists>st. m (ch_store s) = (Inr x, st) \<and> s' = s\<lparr>ch_store := st\<rparr>"
  by (auto simp: onStore_def split: prod.splits)

text \<open>
  An accepted block: every transaction was applied, the forger credited, the block is the last
  one, and the total balance has changed by what the mutators mint less what is burned.
\<close>

lemma applyBlock_Inr:
  assumes "repo_ok (ch_wallets s)" and "store_ok (ch_store s)"
    and "applyBlock E hs ms b s = (Inr u, s')"
  shows "repo_ok (ch_wallets s')" and "store_ok (ch_store s')"
    and "lastOf (st_lastBlocks (ch_store s')) = Some b"
    and "totalBalance (ch_wallets s') = totalBalance (ch_wallets s)
      - (\<Sum>t\<leftarrow>transactions b. burnedBy hs (data t)) + (\<Sum>m\<leftarrow>ms. minted m (bdata b))"
    and "cheight (st_config (ch_store s')) = Some (height (bdata b))"
proof -
  let ?k = "generatorPublicKey (bdata b)" and ?c = "totalBalance (ch_wallets s)"
  let ?T = "\<Sum>t\<leftarrow>transactions b. burnedBy hs (data t)"
  obtain u1 s1 p s2 f s3 res s4
    where i: "whenever (height (bdata b) = 1) (onWallets (initGenesisForgerWallet ?k)) s = (Inr u1, s1)"
      and p: "onStore getLastBlock s1 = (Inr p, s2)" and f: "onWallets (byKey E ?k) s2 = (Inr f, s3)"
      and t: "tryApply E hs ms b f s3 = (Inr res, s4)" and c: "catchApply E hs p res s4 = (Inr u, s')"
    using assms(3) unfolding applyBlock_def by (elim andThen_InrE) blast
  have "s1 = s"
    using i by (auto simp: initGenesisForgerWallet_def onWallets_def andThen_def hasByPublicKey_apply
        split: if_splits)
  moreover have "s2 = s1"
    using p by (cases "lastOf (st_lastBlocks (ch_store s1))") (auto simp: onStore_def getLastBlock_def)
  ultimately obtain w3 where w3: "byKey E ?k (ch_wallets s) = (Inr f, w3)" "s3 = s\<lparr>ch_wallets := w3\<rparr>"
    using onWallets_Inr[OF f] by blast
  have h3: "holds {f} ?c w3"
    using triple_InrD[OF triple_findByPublicKey _ w3(1)[unfolded byKey_def], of "{}" ?c] assms(1)
    by (simp add: holds_def)
  obtain dn where res: "res = (None, dn)" and s': "s' = s4"
    using c by (cases res; cases "fst res")
      (auto simp: catchApply_def elim!: andThen_InrE)
  obtain w5 where w5: "applyAll E hs (transactions b) [] w3 = (Inr (None, dn), w5)"
    and body: "catchE (andThen (onWallets (forgerApply E ms f (bdata b))) (\<lambda>_. onStore (setLastBlock b)))
      (s\<lparr>ch_wallets := w5\<rparr>) = (Inr None, s4)"
    using t res by (auto simp: tryApply_def w3(2) onWallets_def elim!: andThen_InrE
        split: prod.splits option.splits)
  have h5: "holds {f} (?c - ?T) w5" using applyAll_total[OF h3 w5] by simp
  obtain w6 st6 where w6: "forgerApply E ms f (bdata b) w5 = (Inr (), w6)"
    and st6: "setLastBlock b (ch_store s) = (Inr (), st6)"
    and s4: "s4 = s\<lparr>ch_wallets := w6, ch_store := st6\<rparr>"
    using body by (auto simp: catchE_def andThen_def onWallets_def onStore_def split: prod.splits sum.splits)
  have "holds {f} (?c - ?T + (\<Sum>m\<leftarrow>ms. minted m (bdata b))) w6"
    using triple_InrD[OF moves_forgerApply[unfolded moves_def] h5 w6] by simp
  then show "repo_ok (ch_wallets s')"
    "totalBalance (ch_wallets s') = ?c - ?T + (\<Sum>m\<leftarrow>ms. minted m (bdata b))"
    by (simp_all add: s' s4 holds_def)
  show "store_ok (ch_store s')" "lastOf (st_lastBlocks (ch_store s')) = Some b"
      "cheight (st_config (ch_store s')) = Some (height (bdata b))"
    using setLastBlock_ok[OF assms(2) st6] by (simp_all add: s' s4)
qed

end
