(* ===== verification/VoteBalance.thy ===== *)
theory VoteBalance
  imports BlockState
begin

text \<open>
  The vote balances the ranking of validators rests on: a validator's \<open>validator.voteBalance\<close> is
  the sum of the balances of the wallets that vote for it. The incremental updates of
  \<open>BlockState\<close> are shown to keep this for transfers, multi-payments and votes, from any state in
  which it holds.
\<close>

section \<open>The specification\<close>

definition votesFor :: "string \<Rightarrow> wallet \<Rightarrow> int" where
  "votesFor pk w = (if wvote w = Some pk then wbalance w else 0)"

definition voteSum :: "wstate \<Rightarrow> string \<Rightarrow> int" where
  "voteSum s pk = (\<Sum>r<nextRef s. votesFor pk (objs s r))"

definition recorded :: "wstate \<Rightarrow> string \<Rightarrow> int" where
  "recorded s pk = (case lookup s Chain PublicKeys pk of None \<Rightarrow> 0 | Some q \<Rightarrow> voteBalanceOf (objs s q))"

text \<open>What is missing in the record; zero for every key when the vote balances are right.\<close>

definition drift :: "wstate \<Rightarrow> string \<Rightarrow> int" where
  "drift s pk = voteSum s pk - recorded s pk"

definition votes_ok :: "wstate \<Rightarrow> bool" where
  "votes_ok s \<longleftrightarrow> (\<forall>pk. recorded s pk = voteSum s pk)"

text \<open>Different keys find different wallets, references are allocated, and votes are for known keys.\<close>

definition keys_ok :: "wstate \<Rightarrow> bool" where
  "keys_ok s \<longleftrightarrow>
     (\<forall>k k' q. lookup s Chain PublicKeys k = Some q \<and> lookup s Chain PublicKeys k' = Some q \<longrightarrow> k = k') \<and>
     (\<forall>n k q. lookup s Chain n k = Some q \<longrightarrow> q < nextRef s) \<and>
     (\<forall>r v. wvote (objs s r) = Some v \<longrightarrow> lookup s Chain PublicKeys v \<noteq> None)"

lemma votes_ok_drift: "votes_ok s \<longleftrightarrow> (\<forall>pk. drift s pk = 0)"
  by (auto simp: votes_ok_def drift_def)

section \<open>Elementary updates\<close>

lemma sum_change:
  fixes f g :: "nat \<Rightarrow> int"
  assumes "r < n" and "\<And>q. q \<noteq> r \<Longrightarrow> g q = f q"
  shows "(\<Sum>q<n. g q) = (\<Sum>q<n. f q) - f r + g r"
proof -
  have "g = f(r := g r)" using assms(2) by auto
  then have "(\<Sum>q<n. g q) = (\<Sum>q<n. (f(r := g r)) q)" by simp
  also have "\<dots> = (\<Sum>q<n. f q) - f r + g r" by (rule sum_fun_upd_nat) (use assms(1) in auto)
  finally show ?thesis .
qed

lemma drift_update:
  assumes "r < nextRef s" and "wvalidator w = wvalidator (objs s r)"
  shows "drift (s\<lparr>objs := (objs s)(r := w)\<rparr>) pk = drift s pk
    - (if wvote (objs s r) = Some pk then wbalance (objs s r) else 0)
    + (if wvote w = Some pk then wbalance w else 0)"
proof -
  have "voteSum (s\<lparr>objs := (objs s)(r := w)\<rparr>) pk =
      voteSum s pk - votesFor pk (objs s r) + votesFor pk w"
    using sum_change[OF assms(1), of "\<lambda>q. votesFor pk (((objs s)(r := w)) q)" "\<lambda>q. votesFor pk (objs s q)"]
    by (simp add: voteSum_def)
  moreover have "recorded (s\<lparr>objs := (objs s)(r := w)\<rparr>) pk = recorded s pk"
    using assms(2) by (auto simp: recorded_def voteBalanceOf_def validatorAttr_def split: option.split)
  ultimately show ?thesis by (simp add: drift_def votesFor_def)
qed

lemma drift_balance:
  assumes "r < nextRef s" and "wvalidator w = wvalidator (objs s r)" and "wvote w = wvote (objs s r)"
  shows "drift (s\<lparr>objs := (objs s)(r := w)\<rparr>) pk = drift s pk
    + (if wvote (objs s r) = Some pk then wbalance w - wbalance (objs s r) else 0)"
  using drift_update[OF assms(1,2), of pk] assms(3) by simp

text \<open>The same wallets up to their validator attributes.\<close>

definition sameMoney :: "wstate \<Rightarrow> wstate \<Rightarrow> bool" where
  "sameMoney s s' \<longleftrightarrow> nextRef s' = nextRef s \<and> lookup s' = lookup s \<and>
     (\<forall>r. wvote (objs s' r) = wvote (objs s r) \<and> wbalance (objs s' r) = wbalance (objs s r))"

lemma sameMoney_refl: "sameMoney s s"
  by (simp add: sameMoney_def)

lemma sameMoney_trans: "sameMoney s t \<Longrightarrow> sameMoney t u \<Longrightarrow> sameMoney s u"
  by (simp add: sameMoney_def)

lemma sameMoney_keys: "sameMoney s s' \<Longrightarrow> keys_ok s \<Longrightarrow> keys_ok s'"
  by (simp add: sameMoney_def keys_ok_def)

lemma voteBalance_set [simp]: "voteBalanceOf (setVoteBalance b w) = b"
  by (simp add: voteBalanceOf_def validatorAttr_def wallet_ops)

lemma bump_known:
  assumes "keys_ok s" and "lookup s Chain PublicKeys v = Some q"
  shows "\<exists>s'. updW q (\<lambda>w. setVoteBalance (voteBalanceOf w + d) w) s = (Inr (), s') \<and> sameMoney s s' \<and>
    (\<forall>pk. drift s' pk = drift s pk - (if pk = v then d else 0))"
proof -
  let ?s = "s\<lparr>objs := (objs s)(q := setVoteBalance (voteBalanceOf (objs s q) + d) (objs s q))\<rparr>"
  have money: "sameMoney s ?s"
    by (auto simp: sameMoney_def wallet_ops)
  have "recorded ?s pk = recorded s pk + (if pk = v then d else 0)" for pk
  proof (cases "pk = v")
    case True
    then show ?thesis using assms(2) by (simp add: recorded_def)
  next
    case False
    then have "lookup s Chain PublicKeys pk \<noteq> Some q"
      using assms by (auto simp: keys_ok_def)
    then show ?thesis using False by (auto simp: recorded_def split: option.split)
  qed
  moreover have "voteSum ?s pk = voteSum s pk" for pk
    by (auto simp: voteSum_def votesFor_def wallet_ops intro!: sum.cong)
  ultimately show ?thesis using money by (simp add: drift_def)
qed

lemma bumpVoteBalance_known:
  assumes "keys_ok s" and "lookup s Chain PublicKeys v \<noteq> None"
  shows "\<exists>s'. bumpVoteBalance E v d s = (Inr (), s') \<and> sameMoney s s' \<and>
    (\<forall>pk. drift s' pk = drift s pk - (if pk = v then d else 0))"
proof -
  obtain q where q: "lookup s Chain PublicKeys v = Some q" using assms(2) by blast
  show ?thesis using bump_known[OF assms(1) q, of d] q
    by (simp add: bumpVoteBalance_def andThen_def byKey_known)
qed

lemma settle_known:
  assumes "keys_ok s"
  shows "\<exists>s'. settle E r d s = (Inr (), s') \<and> sameMoney s s' \<and>
    (\<forall>pk. drift s' pk = drift s pk - (if wvote (objs s r) = Some pk then d else 0))"
proof (cases "wvote (objs s r)")
  case None
  then show ?thesis by (simp add: settle_def andThen_def sameMoney_refl)
next
  case (Some v)
  then have "lookup s Chain PublicKeys v \<noteq> None" using assms by (simp add: keys_ok_def)
  from bumpVoteBalance_known[OF assms this, of E d] show ?thesis
    using Some by (auto simp: settle_def andThen_def)
qed

text \<open>Outside multi-payments the sender's part of the update is a settlement.\<close>

lemma senderPart_settle:
  assumes "isMultiPayment d \<Longrightarrow> as_payments (asset d) = Some ps"
    and "amt = (if isMultiPayment d then totalPayments ps else amount d)"
  shows "(case wvote (objs s r) of None \<Rightarrow> ret ()
      | Some v \<Rightarrow> andThen (byKey E v) (\<lambda>q.
          andThen (if isMultiPayment d then andThen (paymentsOf d) (\<lambda>ps. ret (totalPayments ps))
                   else ret (amount d)) (\<lambda>amt.
          updW q (\<lambda>w. setVoteBalance (voteBalanceOf w - flipIf rv (amt + fee d)) w)))) s
    = settle E r (- flipIf rv (amt + fee d)) s"
  using assms
  by (auto simp: settle_def bumpVoteBalance_def paymentsOf_def andThen_def
      split: option.split sum.split prod.split)

section \<open>Payments\<close>

text \<open>What the payments pay to wallets that vote for a key.\<close>

definition paidToVoters :: "wstate \<Rightarrow> payment list \<Rightarrow> string \<Rightarrow> int" where
  "paidToVoters s ps pk = (\<Sum>p\<leftarrow>ps. case lookup s Chain Addresses (pay_recipientId p) of None \<Rightarrow> 0
     | Some q \<Rightarrow> if wvote (objs s q) = Some pk then pay_amount p else 0)"

lemma paidToVoters_same: "sameMoney s s' \<Longrightarrow> paidToVoters s' ps pk = paidToVoters s ps pk"
  by (simp add: paidToVoters_def sameMoney_def cong: option.case_cong)

lemma settlePayments_known:
  assumes "keys_ok s" and "allKnown s ps"
  shows "\<exists>s'. forEach (\<lambda>p. andThen (byAddress (pay_recipientId p))
      (\<lambda>r. settle E r (pay_amount p))) ps s = (Inr (), s') \<and> sameMoney s s' \<and>
    (\<forall>pk. drift s' pk = drift s pk - paidToVoters s ps pk)"
  using assms
proof (induction ps arbitrary: s)
  case Nil
  then show ?case by (simp add: sameMoney_refl paidToVoters_def)
next
  case (Cons p ps)
  obtain q where q: "lookup s Chain Addresses (pay_recipientId p) = Some q"
    using Cons.prems(2) by (auto simp: allKnown_def)
  obtain s1 where s1: "settle E q (pay_amount p) s = (Inr (), s1)" "sameMoney s s1"
    "\<And>pk. drift s1 pk = drift s pk - (if wvote (objs s q) = Some pk then pay_amount p else 0)"
    using settle_known[OF Cons.prems(1)] by metis
  have "allKnown s1 ps" using Cons.prems(2) s1(2) by (simp add: allKnown_def sameMoney_def)
  from Cons.IH[OF sameMoney_keys[OF s1(2) Cons.prems(1)] this] obtain s2 where s2:
    "forEach (\<lambda>p. andThen (byAddress (pay_recipientId p)) (\<lambda>r. settle E r (pay_amount p))) ps s1 = (Inr (), s2)"
    "sameMoney s1 s2" "\<And>pk. drift s2 pk = drift s1 pk - paidToVoters s1 ps pk" by metis
  have "paidToVoters s (p # ps) pk = (if wvote (objs s q) = Some pk then pay_amount p else 0)
      + paidToVoters s1 ps pk" for pk
    using q paidToVoters_same[OF s1(2), of ps pk] by (simp add: paidToVoters_def)
  then show ?case
    using s1 s2 q sameMoney_trans[OF s1(2) s2(2)] by (simp add: andThen_def byAddress_known)
qed

lemma drift_shift:
  "drift (s\<lparr>objs := shiftBal F (objs s)\<rparr>) pk =
    drift s pk + (\<Sum>r<nextRef s. if wvote (objs s r) = Some pk then F r else 0)"
proof -
  have "voteSum (s\<lparr>objs := shiftBal F (objs s)\<rparr>) pk = voteSum s pk +
      (\<Sum>r<nextRef s. if wvote (objs s r) = Some pk then F r else 0)"
    by (simp add: voteSum_def votesFor_def shiftBal_def flip: sum.distrib) (rule sum.cong; simp)
  moreover have "recorded (s\<lparr>objs := shiftBal F (objs s)\<rparr>) pk = recorded s pk"
    by (auto simp: recorded_def shiftBal_def voteBalanceOf_def validatorAttr_def split: option.split)
  ultimately show ?thesis by (simp add: drift_def)
qed

lemma sum_paymentsTo:
  assumes "\<And>a q. lookup s Chain Addresses a = Some q \<Longrightarrow> q < nextRef s"
  shows "(\<Sum>r<nextRef s. if wvote (objs s r) = Some pk then paymentsTo s ps r else 0) = paidToVoters s ps pk"
proof (induction ps)
  case Nil
  show ?case by (auto simp: paymentsTo_def paidToVoters_def intro!: sum.neutral)
next
  case (Cons p ps)
  let ?V = "\<lambda>r. wvote (objs s r) = Some pk"
  let ?one = "\<lambda>r. if lookup s Chain Addresses (pay_recipientId p) = Some r then pay_amount p else 0"
  have split: "(\<Sum>r<nextRef s. if ?V r then paymentsTo s (p # ps) r else 0) =
      (\<Sum>r<nextRef s. if ?V r then ?one r else 0) + (\<Sum>r<nextRef s. if ?V r then paymentsTo s ps r else 0)"
    unfolding sum.distrib[symmetric] by (rule sum.cong) (auto simp: paymentsTo_def)
  have "(\<Sum>r<nextRef s. if ?V r then ?one r else 0) =
      (case lookup s Chain Addresses (pay_recipientId p) of None \<Rightarrow> 0
       | Some q \<Rightarrow> if ?V q then pay_amount p else 0)"
  proof (cases "lookup s Chain Addresses (pay_recipientId p)")
    case (Some q)
    have "(\<Sum>r<nextRef s. if ?V r then ?one r else 0) =
        (\<Sum>r<nextRef s. if r = q then (if ?V q then pay_amount p else 0) else 0)"
      using Some by (intro sum.cong) auto
    then show ?thesis using assms[OF Some] Some by simp
  qed (auto intro!: sum.neutral)
  then show ?case using split Cons by (simp add: paidToVoters_def)
qed

section \<open>The three kinds of transactions that move votes\<close>

text \<open>What \<open>recipientOf\<close> finds for a transfer whose recipient is known.\<close>

lemma recipientOf_known:
  assumes "recipientId d = Some a" and "a \<noteq> ''''" and "lookup s Chain Addresses a = Some q"
  shows "recipientOf d s = (Inr (Some q), s)"
  using assms by (simp add: recipientOf_def andThen_def byAddress_known)

lemma recipientOf_none: "\<not> truthyStr (recipientId d) \<Longrightarrow> recipientOf d s = (Inr None, s)"
  by (simp add: recipientOf_def)

text \<open>Where the payments of a transaction leave the drift, and the updates that remove it again.\<close>

lemma payments_settled:
  assumes "keys_ok s" and "isMultiPayment d \<Longrightarrow> as_payments (asset d) = Some ps \<and> allKnown s ps"
    and "\<And>pk. drift s pk = (if wvote (objs s r) = Some pk
        then - ((if isMultiPayment d then totalPayments ps else amount d) + fee d) else 0)
      + (if isMultiPayment d then paidToVoters s ps pk else 0)
      + (case q of None \<Rightarrow> 0 | Some q \<Rightarrow> if wvote (objs s q) = Some pk then amount d else 0)"
  shows "\<exists>s'. voteBalancesOfPayments E r q d False s = (Inr (), s') \<and> sameMoney s s' \<and> votes_ok s'"
proof -
  let ?amt = "if isMultiPayment d then totalPayments ps else amount d"
  obtain s1 where s1: "settle E r (- (?amt + fee d)) s = (Inr (), s1)" "sameMoney s s1"
    "\<And>pk. drift s1 pk = drift s pk - (if wvote (objs s r) = Some pk then - (?amt + fee d) else 0)"
    using settle_known[OF assms(1)] by metis
  have k1: "keys_ok s1" using sameMoney_keys[OF s1(2) assms(1)] .
  have "\<exists>s2. whenever (isMultiPayment d) (andThen (paymentsOf d) (forEach (\<lambda>p.
      andThen (byAddress (pay_recipientId p)) (\<lambda>r. settle E r (flipIf False (pay_amount p)))))) s1 =
      (Inr (), s2) \<and> sameMoney s1 s2 \<and>
      (\<forall>pk. drift s2 pk = drift s1 pk - (if isMultiPayment d then paidToVoters s ps pk else 0))"
  proof (cases "isMultiPayment d")
    case True
    then have "allKnown s1 ps" using assms(2) s1(2) by (simp add: allKnown_def sameMoney_def)
    from settlePayments_known[OF k1 this, of E] show ?thesis
      using True assms(2) paidToVoters_same[OF s1(2)]
      by (simp add: paymentsOf_def flipIf_def)
  qed (simp add: sameMoney_refl)
  then obtain s2 where s2: "whenever (isMultiPayment d) (andThen (paymentsOf d) (forEach (\<lambda>p.
      andThen (byAddress (pay_recipientId p)) (\<lambda>r. settle E r (flipIf False (pay_amount p)))))) s1 =
      (Inr (), s2)" "sameMoney s1 s2"
      "\<And>pk. drift s2 pk = drift s1 pk - (if isMultiPayment d then paidToVoters s ps pk else 0)" by blast
  have k2: "keys_ok s2" using sameMoney_keys[OF s2(2) k1] .
  have m2: "sameMoney s s2" using sameMoney_trans[OF s1(2) s2(2)] .
  have "\<exists>s3. (case q of None \<Rightarrow> ret () | Some q \<Rightarrow> settle E q (flipIf False (amount d))) s2 = (Inr (), s3) \<and>
      sameMoney s2 s3 \<and> (\<forall>pk. drift s3 pk = drift s2 pk -
        (case q of None \<Rightarrow> 0 | Some q \<Rightarrow> if wvote (objs s q) = Some pk then amount d else 0))"
  proof (cases q)
    case (Some q')
    then show ?thesis using settle_known[OF k2, of E q' "amount d"] m2
      by (simp add: flipIf_def sameMoney_def)
  qed (simp add: sameMoney_refl)
  then obtain s3 where s3: "(case q of None \<Rightarrow> ret () | Some q \<Rightarrow> settle E q (flipIf False (amount d))) s2 = (Inr (), s3)"
      "sameMoney s2 s3" "\<And>pk. drift s3 pk = drift s2 pk -
        (case q of None \<Rightarrow> 0 | Some q \<Rightarrow> if wvote (objs s q) = Some pk then amount d else 0)" by blast
  have "drift s3 pk = 0" for pk
    using s1(3)[of pk] s2(3)[of pk] s3(3)[of pk] assms(3)[of pk] by simp
  moreover have "voteBalancesOfPayments E r q d False s = (Inr (), s3)"
    using senderPart_settle[where d = d and ps = ps and amt = ?amt and r = r and E = E and rv = False and s = s]
      assms(2) s1(1) s2(1) s3(1)
    unfolding voteBalancesOfPayments_def by (simp add: andThen_def flipIf_def)
  ultimately show ?thesis using sameMoney_trans[OF m2 s3(2)] by (auto simp: votes_ok_drift)
qed

text \<open>A transfer.\<close>

lemma transfer_votes:
  assumes "indexed s pk r" and "senderPublicKey (data t) = Some pk" and "nonce (data t) \<noteq> None"
    and "recipientId (data t) = Some a" and "a \<noteq> ''''" and "lookup s Chain Addresses a = Some q"
    and "baseCheck (objs s r) (data t) = None" and "keys_ok s" and "votes_ok s"
    and "activatedHandlerForData hs (data t) = Inr Transfer" and "isCore T_Transfer (data t)"
  shows "\<exists>s'. applyTransaction E hs t s = (Inr (), s') \<and> votes_ok s'"
proof -
  let ?d = "data t"
  let ?w = "(objs s r)\<lparr>wnonce := nonceOf ?d, wbalance := wbalance (objs s r) - amount ?d - fee ?d\<rparr>"
  let ?s1 = "s\<lparr>objs := (objs s)(r := ?w)\<rparr>"
  let ?v = "(objs ?s1 q)\<lparr>wbalance := wbalance (objs ?s1 q) + amount ?d\<rparr>"
  let ?s2 = "s\<lparr>objs := transferHeap ?d r q (objs s)\<rparr>"
  have s2: "?s2 = ?s1\<lparr>objs := (objs ?s1)(q := ?v)\<rparr>"
    by (simp add: transferHeap_def Let_def)
  have pk: "lookup s Chain PublicKeys pk = Some r" using assms(1) by (simp add: indexed_def)
  have refs: "r < nextRef s" "q < nextRef s" using assms(6,8) pk by (auto simp: keys_ok_def)
  have d1: "drift ?s1 k = (if wvote (objs s r) = Some k then - (amount ?d + fee ?d) else 0)" for k
    using drift_balance[OF refs(1), of ?w k] assms(9) by (simp add: votes_ok_drift)
  have d2: "drift ?s2 k = drift ?s1 k + (if wvote (objs s q) = Some k then amount ?d else 0)" for k
    unfolding s2 using drift_balance[of q ?s1 ?v k] refs(2) by auto
  have votes: "wvote (objs ?s2 x) = wvote (objs s x)" for x
    by (auto simp: transferHeap_def Let_def)
  have k2: "keys_ok ?s2" using assms(8) votes by (auto simp: keys_ok_def)
  have nmp: "\<not> isMultiPayment ?d" "\<not> isCore T_Vote ?d"
    using assms(11) by (auto simp: isMultiPayment_def isCore_def type_defs)
  have "drift ?s2 k = (if wvote (objs ?s2 r) = Some k
        then - ((if isMultiPayment ?d then totalPayments [] else amount ?d) + fee ?d) else 0)
      + (if isMultiPayment ?d then paidToVoters ?s2 [] k else 0)
      + (case Some q of None \<Rightarrow> 0 | Some q \<Rightarrow> if wvote (objs ?s2 q) = Some k then amount ?d else 0)" for k
    unfolding d2 d1 votes by (simp add: nmp(1))
  then obtain s' where s': "voteBalancesOfPayments E r (Some q) ?d False ?s2 = (Inr (), s')" "votes_ok s'"
    using payments_settled[OF k2, of ?d "[]" r "Some q" E] nmp(1) by blast
  have "recipientOf ?d ?s2 = (Inr (Some q), ?s2)"
    using recipientOf_known[OF assms(4,5), of ?s2 q] assms(6) by simp
  moreover have "senderOf E ?d ?s2 = (Inr r, ?s2)"
    using senderOf_known[OF assms(2), of ?s2 r E] pk by simp
  ultimately have "applyTransaction E hs t s = (Inr (), s')"
    using transfer_apply[OF assms(1-4,6,7), of E] assms(10) nmp s'(1)
    by (simp add: applyTransaction_def andThen_def updateVoteBalances_def)
  then show ?thesis using s'(2) by blast
qed

text \<open>A multi-payment, whose own amount is zero and which has no recipient.\<close>

lemma multiPayment_votes:
  assumes "indexed s pk r" and "senderPublicKey (data t) = Some pk"
    and "as_payments (asset (data t)) = Some ps" and "allKnown s ps" and "keys_ok s" and "votes_ok s"
    and "activatedHandlerForData hs (data t) = Inr MultiPayment" and "isMultiPayment (data t)"
    and "amount (data t) = 0" and "\<not> truthyStr (recipientId (data t))"
    and "applyTx E MultiPayment t s = (Inr u, s2)"
  shows "\<exists>s'. applyTransaction E hs t s = (Inr (), s') \<and> votes_ok s'"
proof -
  let ?d = "data t"
  let ?F = "\<lambda>q. (if q = r then - amount ?d - fee ?d - totalPayments ps else 0) + paymentsTo s ps q"
  let ?h = "(objs s)(r := (objs s r)\<lparr>wnonce := nonceOf ?d\<rparr>)" and ?s1 = "s\<lparr>objs := (objs s)(r := (objs s r)\<lparr>wnonce := nonceOf ?d\<rparr>)\<rparr>"
  have s2: "s2 = ?s1\<lparr>objs := shiftBal ?F (objs ?s1)\<rparr>"
    using multiPayment_result(2)[OF assms(1-4,11)] by simp
  have pk: "lookup s Chain PublicKeys pk = Some r" using assms(1) by (simp add: indexed_def)
  have ref: "r < nextRef s" using assms(5) pk by (auto simp: keys_ok_def)
  have addr: "lookup s Chain Addresses a = Some q \<Longrightarrow> q < nextRef s" for a q
    using assms(5) by (auto simp: keys_ok_def)
  have d1: "drift ?s1 k = 0" for k
    using drift_balance[OF ref, of "(objs s r)\<lparr>wnonce := nonceOf ?d\<rparr>" k] assms(6) by (simp add: votes_ok_drift)
  have votes: "wvote (objs s2 x) = wvote (objs s x)" "wvote (objs ?s1 x) = wvote (objs s x)" for x
    by (simp_all add: s2 shiftBal_def)
  have "(\<Sum>q<nextRef s. if wvote (objs s q) = Some k then ?F q else 0) =
      (\<Sum>q<nextRef s. if q = r then (if wvote (objs s r) = Some k then - (totalPayments ps + fee ?d) else 0) else 0)
      + (\<Sum>q<nextRef s. if wvote (objs s q) = Some k then paymentsTo s ps q else 0)" for k
    unfolding sum.distrib[symmetric] using assms(9) by (intro sum.cong) auto
  then have "(\<Sum>q<nextRef ?s1. if wvote (objs ?s1 q) = Some k then ?F q else 0) =
      (if wvote (objs s r) = Some k then - (totalPayments ps + fee ?d) else 0) + paidToVoters s ps k" for k
    unfolding votes using ref sum_paymentsTo[OF addr, where pk = k and ps = ps] by simp
  then have "drift s2 k = (if wvote (objs s2 r) = Some k
        then - ((if isMultiPayment ?d then totalPayments ps else amount ?d) + fee ?d) else 0)
      + (if isMultiPayment ?d then paidToVoters s2 ps k else 0)
      + (case None of None \<Rightarrow> 0 | Some q \<Rightarrow> if wvote (objs s2 q) = Some k then amount ?d else 0)" for k
    using drift_shift[where s = ?s1 and F = ?F and pk = k] d1[of k] assms(8) votes(1)
    unfolding s2[symmetric] by (simp add: paidToVoters_def s2 cong: option.case_cong)
  moreover have k2: "keys_ok s2" using assms(5) votes(1) by (auto simp: keys_ok_def s2)
  moreover have "allKnown s2 ps" using assms(4) by (simp add: allKnown_def s2)
  ultimately obtain s' where s': "voteBalancesOfPayments E r None ?d False s2 = (Inr (), s')" "votes_ok s'"
    using payments_settled[of s2 ?d ps r None E] assms(3) by blast
  have "senderOf E ?d s2 = (Inr r, s2)"
    using senderOf_known[OF assms(2), of s2 r E] pk by (simp add: s2)
  moreover have "\<not> isCore T_Vote ?d"
    using assms(8) by (auto simp: isMultiPayment_def isCore_def type_defs)
  ultimately have "applyTransaction E hs t s = (Inr (), s')"
    using assms(7,10,11) s'(1) recipientOf_none[OF assms(10)]
    by (simp add: applyTransaction_def andThen_def updateVoteBalances_def)
  then show ?thesis using s'(2) by blast
qed

text \<open>A vote: the old validator loses the balance before, the new one gains the balance after.\<close>

lemma vote_votes:
  assumes "indexed s pk r" and "senderPublicKey (data t) = Some pk"
    and "as_votes (asset (data t)) = Some vs" and "as_unvotes (asset (data t)) = Some us"
    and "keysKnown s vs" and "keysKnown s us" and "wvote (objs s r) \<noteq> Some ''''"
    and "keys_ok s" and "votes_ok s" and "activatedHandlerForData hs (data t) = Inr Vote"
    and "isCore T_Vote (data t)" and "amount (data t) = 0" and "\<not> truthyStr (recipientId (data t))"
    and "applyTx E Vote t s = (Inr u, s2)"
  shows "\<exists>s'. applyTransaction E hs t s = (Inr (), s') \<and> votes_ok s'"
proof -
  let ?d = "data t" and ?old = "wvote (objs s r)" and ?new = "newVote us vs (wvote (objs s r))"
  let ?b = "wbalance (objs s r)" and ?b' = "wbalance (objs s r) - fee (data t)"
  note acc = voteGuard_Inr[OF assms(1-6)]
  note result = vote_result[OF assms(1-7,14)]
  have len: "length vs \<le> 1" "length us \<le> 1" using acc(2,3)[of E] result(2) by simp_all
  have pk: "lookup s Chain PublicKeys pk = Some r" using assms(1) by (simp add: indexed_def)
  have ref: "r < nextRef s" using assms(8) pk by (auto simp: keys_ok_def)
  have d2: "drift s2 k = - (if ?old = Some k then ?b else 0) + (if ?new = Some k then ?b' else 0)" for k
    unfolding result(3) using assms(9,12) by (subst drift_update[OF ref]) (auto simp: votes_ok_drift)
  have lk: "lookup s2 = lookup s" "nextRef s2 = nextRef s" by (simp_all add: result(3))
  have "wvote (objs s2 x) = Some v \<Longrightarrow> lookup s Chain PublicKeys v \<noteq> None" for x v
    using assms(5,6,8) by (cases "x = r"; cases vs rule: rev_cases)
      (auto simp: result(3) newVote_def keysKnown_def keys_ok_def split: if_splits)
  then have k2: "keys_ok s2" using assms(8) by (simp add: keys_ok_def lk)
  have bal: "wbalance (objs s2 r) = ?b'" using assms(12) by (simp add: result(3))
  have "\<exists>s3. whenever (us \<noteq> []) (bumpVoteBalance E (hd us) (flipIf False (- (?b' + fee ?d)))) s2 = (Inr (), s3)
      \<and> sameMoney s2 s3 \<and> (\<forall>k. drift s3 k = drift s2 k - (if us \<noteq> [] \<and> hd us = k then - ?b else 0))"
  proof (cases us)
    case (Cons x xs)
    then have "lookup s2 Chain PublicKeys x \<noteq> None" using assms(6) by (simp add: keysKnown_def lk)
    from bumpVoteBalance_known[OF k2 this, of E "- ?b"] show ?thesis
      using Cons by (auto simp: flipIf_def)
  qed (simp add: sameMoney_refl)
  then obtain s3 where s3: "whenever (us \<noteq> []) (bumpVoteBalance E (hd us) (flipIf False (- (?b' + fee ?d)))) s2 = (Inr (), s3)"
    "sameMoney s2 s3" "\<And>k. drift s3 k = drift s2 k - (if us \<noteq> [] \<and> hd us = k then - ?b else 0)" by blast
  have "\<exists>s4. whenever (vs \<noteq> []) (bumpVoteBalance E (hd vs) (flipIf False ?b')) s3 = (Inr (), s4)
      \<and> (\<forall>k. drift s4 k = drift s3 k - (if vs \<noteq> [] \<and> hd vs = k then ?b' else 0))"
  proof (cases vs)
    case (Cons x xs)
    then have "lookup s3 Chain PublicKeys x \<noteq> None"
      using assms(5) s3(2) by (simp add: keysKnown_def sameMoney_def lk)
    from bumpVoteBalance_known[OF sameMoney_keys[OF s3(2) k2] this, of E ?b'] show ?thesis
      using Cons by (auto simp: flipIf_def)
  qed simp
  then obtain s4 where s4: "whenever (vs \<noteq> []) (bumpVoteBalance E (hd vs) (flipIf False ?b')) s3 = (Inr (), s4)"
    "\<And>k. drift s4 k = drift s3 k - (if vs \<noteq> [] \<and> hd vs = k then ?b' else 0)" by blast
  have "drift s4 k = 0" for k
  proof -
    have "throwIfCannotBeApplied E Vote t r s = voteGuard E t r s" by simp
    note g = acc(4-6)[OF result(2)[unfolded this]]
    show ?thesis
    proof (cases us)
      case Nil
      then obtain y where vs: "vs = [y]" using g(3) len(1) by (cases vs) auto
      then have "?old = None" using g(2) Nil assms(7) by (cases ?old) auto
      then show ?thesis using d2[of k] s3(3)[of k] s4(2)[of k] Nil vs by (simp add: newVote_def)
    next
      case (Cons x xs)
      then have us: "us = [x]" "?old = Some x" using g(1) len(2) by auto
      then show ?thesis using d2[of k] s3(3)[of k] s4(2)[of k] len(1)
        by (cases vs) (auto simp: newVote_def)
    qed
  qed
  moreover have "updateVoteBalances E r None ?d False s2 = (Inr (), s4)"
    using s3(1) s4(1) bal assms(3,4,11)
    by (cases us; cases vs) (simp_all add: updateVoteBalances_def voteBalancesOfVote_def andThen_def)
  then have "applyTransaction E hs t s = (Inr (), s4)"
    using assms(10,14) recipientOf_none[OF assms(13)] senderOf_known[OF assms(2), of s2 r E] pk lk
    by (simp add: applyTransaction_def andThen_def)
  ultimately show ?thesis by (auto simp: votes_ok_drift)
qed

end
