(* ===== verification/Rounds.thy ===== *)
theory Rounds
  imports Config
begin

text \<open>
  Rounds of validators (packages/core-kernel/source/utils/round-calculator.ts and the milestone
  list of calculate-forging-info.ts). A round is as many blocks as the milestone in force has
  active validators; the loops walk the milestones that change that number. The lookups of the
  configuration are those of \<open>Config\<close> on the merged milestones, with \<open>getMilestone\<close> replaced by
  the milestone in force, which it is proved to return whatever its cursor was.
\<close>

section \<open>isNewRound\<close>

text \<open>The backwards loop: the first milestone that introduced the validator count of the height.\<close>

fun countMilestone :: "int \<Rightarrow> milestone list \<Rightarrow> milestone option \<Rightarrow> milestone option" where
  "countMilestone h [] acc = acc"
| "countMilestone h (t # ts) acc =
     (if h < m_height t then countMilestone h ts acc
      else case acc of
             None \<Rightarrow> countMilestone h ts (Some t)
           | Some m \<Rightarrow> if m_activeValidators t = m_activeValidators m
                       then countMilestone h ts (Some t) else acc)"

definition isNewRound :: "milestone list \<Rightarrow> int \<Rightarrow> error + bool" where
  "isNewRound ms h =
     (if h = 1 then Inr True
      else case countMilestone h (rev ms) None of
             None \<Rightarrow> Inl JsTypeError
           | Some m \<Rightarrow> (case m_activeValidators m of
                          None \<Rightarrow> Inr False
                        | Some v \<Rightarrow> Inr (v \<noteq> 0 \<and> jsMod (h - m_height m) v = 0)))"

section \<open>calculateRound\<close>

record roundInfo =
  ri_round :: int
  ri_roundHeight :: int
  ri_nextRound :: int
  ri_maxValidators :: int

definition activeValidatorsAt :: "milestone list \<Rightarrow> int \<Rightarrow> int" where
  "activeValidatorsAt ms h =
     (case Option.bind (milestoneAt ms h) m_activeValidators of None \<Rightarrow> 0 | Some v \<Rightarrow> v)"

abbreviation nextCount :: "milestone list \<Rightarrow> int \<Rightarrow> mresult" where
  "nextCount \<equiv> nextMilestoneWithNewKey m_activeValidators"

definition validatorMilestones :: "milestone list \<Rightarrow> mresult list" where
  "validatorMilestones ms =
     \<lparr>mr_found = True, mr_height = 1, mr_data = activeValidatorsAt ms 1\<rparr>
       # spansFrom m_activeValidators ms 1"

text \<open>The loop's variables: the round so far, the validator count and the span's first height.\<close>

fun roundLoop :: "milestone list \<Rightarrow> int \<Rightarrow> nat \<Rightarrow> mresult \<Rightarrow> int \<times> int \<times> int \<Rightarrow>
    error + int \<times> int \<times> int" where
  "roundLoop ms h 0 nx acc = Inr acc"
| "roundLoop ms h (Suc n) nx (rnd, av, mh) =
     (if h < mr_height nx then Inr (rnd, av, mh)
      else let span = mr_height nx - mh
           in if jsMod span av \<noteq> 0 then Inl (CryptoError (InvalidMilestoneConfigurationError h))
              else roundLoop ms h n (nextCount ms (mr_height nx))
                     (rnd + span div av, mr_data nx, mr_height nx))"

definition roundResult :: "int \<Rightarrow> int \<times> int \<times> int \<Rightarrow> roundInfo" where
  "roundResult h acc =
     (case acc of (rnd, av, mh) \<Rightarrow>
        let heightFromLastSpan = h - mh;
            roundIncrease = heightFromLastSpan div av;
            nextRoundIncrease = (if jsMod (heightFromLastSpan + 1) av = 0 then 1 else 0)
        in \<lparr>ri_round = rnd + roundIncrease,
            ri_roundHeight = mh + roundIncrease * av,
            ri_nextRound = rnd + roundIncrease + nextRoundIncrease,
            ri_maxValidators = av\<rparr>)"

definition calculateRound :: "milestone list \<Rightarrow> int \<Rightarrow> error + roundInfo" where
  "calculateRound ms h =
     (case roundLoop ms h (length (validatorMilestones ms) - 1) (nextCount ms 1)
             (1, activeValidatorsAt ms 1, 1) of
        Inl e \<Rightarrow> Inl e
      | Inr acc \<Rightarrow> Inr (roundResult h acc))"

section \<open>The loop\<close>

text \<open>\<open>n\<close> further milestones that change the count, from a given height on.\<close>

fun chain :: "milestone list \<Rightarrow> nat \<Rightarrow> int \<Rightarrow> bool" where
  "chain ms 0 prev = True"
| "chain ms (Suc n) prev \<longleftrightarrow> mr_found (nextCount ms prev) \<and> chain ms n (mr_height (nextCount ms prev))"

lemma chain_spans: "chain ms (length (spansFrom m_activeValidators ms prev)) prev"
proof (induction "m_activeValidators :: milestone \<Rightarrow> int option" ms prev rule: spansFrom.induct)
  case (1 ms prev)
  then show ?case
    by (cases "mr_found (nextCount ms prev)")
      (simp_all add: spansFrom.simps[of m_activeValidators ms prev] Let_def)
qed

text \<open>Every milestone that sets a count sets a positive one.\<close>

definition positiveCounts :: "milestone list \<Rightarrow> bool" where
  "positiveCounts ms \<longleftrightarrow> (\<forall>m \<in> set ms. \<forall>v. m_activeValidators m = Some v \<longrightarrow> 0 < v)"

lemma next_data_pos:
  assumes "positiveCounts ms" and "mr_found (nextCount ms prev)"
  shows "0 < mr_data (nextCount ms prev)"
proof -
  let ?P = "\<lambda>m. truthyNum (m_activeValidators m) \<and> m_activeValidators m \<noteq>
    Option.bind (milestoneAt ms (if prev = 0 then 1 else prev)) m_activeValidators \<and> prev < m_height m"
  obtain m where m: "find ?P ms = Some m"
    using assms(2) by (cases "find ?P ms") (simp_all add: nextMilestoneWithNewKey_def)
  then have "m \<in> set ms" "?P m" by (auto simp: find_Some_iff)
  moreover have "mr_data (nextCount ms prev) = the (m_activeValidators m)"
    unfolding nextMilestoneWithNewKey_def m by simp
  ultimately show ?thesis
    using assms(1) by (cases "m_activeValidators m") (auto simp: positiveCounts_def)
qed

lemma roundLoop_bounds:
  assumes "positiveCounts ms" and "chain ms n mh" and "nx = nextCount ms mh" and "0 < av" and "mh \<le> h"
    and "roundLoop ms h n nx (rnd, av, mh) = Inr (rnd', av', mh')"
  shows "0 < av' \<and> mh' \<le> h"
  using assms
proof (induction ms h n nx "(rnd, av, mh)" arbitrary: rnd av mh rule: roundLoop.induct)
  case (2 ms h n nx rnd av mh)
  show ?case
  proof (cases "h < mr_height nx")
    case False
    have "0 < mr_data nx" using next_data_pos 2 by simp
    then show ?thesis
      using 2 False by (auto simp: Let_def split: if_splits)
  qed (use 2 in simp)
qed simp

lemma roundResult_bounds:
  assumes "0 < av" and "mh \<le> h"
  shows "ri_roundHeight (roundResult h (rnd, av, mh)) \<le> h \<and>
    h < ri_roundHeight (roundResult h (rnd, av, mh)) + ri_maxValidators (roundResult h (rnd, av, mh))"
proof -
  define q r where "q = (h - mh) div av" and "r = (h - mh) mod av"
  have "q * av + r = h - mh" by (simp add: q_def r_def)
  then have "mh + q * av = h - r" by simp
  moreover have "0 \<le> r" "r < av" using assms by (simp_all add: r_def)
  ultimately show ?thesis by (simp add: roundResult_def Let_def q_def[symmetric])
qed

lemma calculateRound_bounds:
  assumes "positiveCounts ms" and "0 < activeValidatorsAt ms 1" and "1 \<le> h"
    and "calculateRound ms h = Inr i"
  shows "ri_roundHeight i \<le> h \<and> h < ri_roundHeight i + ri_maxValidators i"
proof -
  obtain rnd av mh where loop: "roundLoop ms h (length (validatorMilestones ms) - 1) (nextCount ms 1)
      (1, activeValidatorsAt ms 1, 1) = Inr (rnd, av, mh)" and i: "i = roundResult h (rnd, av, mh)"
    using assms(4) by (auto simp: calculateRound_def split: sum.splits)
  have "0 < av \<and> mh \<le> h"
    using roundLoop_bounds[OF assms(1) _ refl assms(2,3)] chain_spans[of ms 1] loop
    by (simp add: validatorMilestones_def)
  then show ?thesis using roundResult_bounds i by blast
qed

text \<open>
  One block later: the loop stops with the same variables, or it has just entered the next span,
  whose first height that block is.
\<close>

lemma roundLoop_start:
  assumes "chain ms n h" and "nx = nextCount ms h"
  shows "roundLoop ms h n nx (rnd, av, h) = Inr (rnd, av, h)"
  using assms next_found(1)[of m_activeValidators ms h] by (cases n) auto

lemma roundLoop_next:
  assumes "chain ms n mh" and "nx = nextCount ms mh"
    and "roundLoop ms h n nx (rnd, av, mh) = Inr (rnd1, av1, mh1)"
    and "roundLoop ms (h + 1) n nx (rnd, av, mh) = Inr (rnd2, av2, mh2)"
  shows "(rnd2, av2, mh2) = (rnd1, av1, mh1) \<or>
    (mh2 = h + 1 \<and> jsMod (mh2 - mh1) av1 = 0 \<and> rnd2 = rnd1 + (mh2 - mh1) div av1)"
  using assms
proof (induction n arbitrary: nx rnd av mh)
  case (Suc n)
  let ?H = "mr_height nx"
  have chain: "chain ms n ?H" and found: "mr_found nx" using Suc.prems(1,2) by simp_all
  consider "h + 1 < ?H" | "h + 1 = ?H" | "?H \<le> h" by linarith
  then show ?case
  proof cases
    case 1
    then show ?thesis using Suc.prems(3,4) by simp
  next
    case 2
    have ok: "jsMod (?H - mh) av = 0"
      using Suc.prems(4) 2 by (auto simp: Let_def split: if_splits)
    have "roundLoop ms (h + 1) n (nextCount ms ?H) (rnd + (?H - mh) div av, mr_data nx, ?H) =
        Inr (rnd + (?H - mh) div av, mr_data nx, ?H)"
      using roundLoop_start[OF chain refl] 2 by simp
    then have "rnd2 = rnd + (?H - mh) div av \<and> mh2 = ?H"
      using Suc.prems(4) 2 ok by (auto simp: Let_def)
    moreover have "rnd1 = rnd \<and> av1 = av \<and> mh1 = mh" using Suc.prems(3) 2 by simp
    ultimately show ?thesis using ok 2 by simp
  next
    case 3
    then have ok: "jsMod (?H - mh) av = 0"
      using Suc.prems(3) by (auto simp: Let_def split: if_splits)
    show ?thesis
      using Suc.IH[OF chain refl] Suc.prems(3,4) 3 ok by (simp add: Let_def)
  qed
qed simp

lemma div_succ: "0 < av \<Longrightarrow> 0 \<le> d \<Longrightarrow> (d + 1) div av = d div av + (if (d + 1) mod av = 0 then 1 else (0::int))"
proof -
  assume av: "0 < av" and d: "0 \<le> d"
  define q r where "q = d div av" and "r = d mod av"
  have dq: "d = q * av + r" by (simp add: q_def r_def)
  have r: "0 \<le> r" "r < av" using av by (simp_all add: r_def)
  show ?thesis
  proof (cases "r + 1 = av")
    case True
    then have "d + 1 = (q + 1) * av" using dq by (simp add: algebra_simps)
    then show ?thesis using av q_def by simp
  next
    case False
    then have "(d + 1) div av = q" "(d + 1) mod av = r + 1"
      using dq r by (auto intro!: int_div_pos_eq[where r = "r + 1"] int_mod_pos_eq[where q = q]
        simp: algebra_simps)
    then show ?thesis using r q_def by simp
  qed
qed

text \<open>The round of the next block is the one announced as \<open>nextRound\<close>.\<close>

lemma calculateRound_next:
  assumes "positiveCounts ms" and "0 < activeValidatorsAt ms 1" and "1 \<le> h"
    and "calculateRound ms h = Inr i" and "calculateRound ms (h + 1) = Inr j"
  shows "ri_round j = ri_nextRound i"
proof -
  let ?n = "length (validatorMilestones ms) - 1"
  have chain: "chain ms ?n 1" using chain_spans[of ms 1] by (simp add: validatorMilestones_def)
  obtain rnd1 av1 mh1 where l1: "roundLoop ms h ?n (nextCount ms 1) (1, activeValidatorsAt ms 1, 1) =
      Inr (rnd1, av1, mh1)" and i: "i = roundResult h (rnd1, av1, mh1)"
    using assms(4) by (auto simp: calculateRound_def split: sum.splits)
  obtain rnd2 av2 mh2 where l2: "roundLoop ms (h + 1) ?n (nextCount ms 1) (1, activeValidatorsAt ms 1, 1) =
      Inr (rnd2, av2, mh2)" and j: "j = roundResult (h + 1) (rnd2, av2, mh2)"
    using assms(5) by (auto simp: calculateRound_def split: sum.splits)
  have b1: "0 < av1" "mh1 \<le> h"
    using roundLoop_bounds[OF assms(1) chain refl assms(2,3) l1] by simp_all
  have b2: "0 < av2" using roundLoop_bounds[OF assms(1) chain refl assms(2) _ l2] assms(3) by simp
  have m: "jsMod x av1 = x mod av1" if "0 \<le> x" for x using that b1 by (simp add: jsMod_nonneg)
  show ?thesis
    using roundLoop_next[OF chain refl l1 l2]
  proof
    assume "(rnd2, av2, mh2) = (rnd1, av1, mh1)"
    then show ?thesis
      using i j b1 div_succ[of av1 "h - mh1"] by (simp add: roundResult_def Let_def m algebra_simps)
  next
    assume e: "mh2 = h + 1 \<and> jsMod (mh2 - mh1) av1 = 0 \<and> rnd2 = rnd1 + (mh2 - mh1) div av1"
    then have "jsMod (mh2 - mh1) av1 = 0" by blast
    moreover have "0 \<le> mh2 - mh1" using e b1 by simp
    ultimately have "(mh2 - mh1) mod av1 = 0" using m by metis
    then have "(h - mh1 + 1) mod av1 = 0" using e by (simp add: algebra_simps)
    then show ?thesis
      using e i j b1 div_succ[of av1 "h - mh1"] by (simp add: roundResult_def Let_def m algebra_simps)
  qed
qed

end
