(* ===== verification/Slots.thy ===== *)
theory Slots
  imports Rounds
begin

text \<open>
  Slots in time (packages/core-crypto-time) and what is computed from them: the forging order of a
  round (core-kernel/source/utils/calculate-forging-info.ts) and whether a block follows another
  (is-block-chained.ts). The clock and the timestamps of stored blocks are parameters.
\<close>

section \<open>Block times (block-time-calculator.ts, block-time-lookup.ts)\<close>

text \<open>The loop runs from the last milestone down; the argument is the reversed list.\<close>

fun newBlockTimeMilestone :: "int \<Rightarrow> milestone list \<Rightarrow> milestone option \<Rightarrow> milestone option" where
  "newBlockTimeMilestone h [] acc = acc"
| "newBlockTimeMilestone h (t # ts) acc =
     (if h < m_height t then newBlockTimeMilestone h ts acc
      else if acc = None \<or> m_blockTime t = Option.bind acc m_blockTime
        then newBlockTimeMilestone h ts (if truthyNum (m_blockTime t) then Some t else acc)
      else acc)"

definition isNewBlockTime :: "milestone list \<Rightarrow> int \<Rightarrow> bool" where
  "isNewBlockTime ms h \<longleftrightarrow>
     h = 1 \<or> (case newBlockTimeMilestone h (rev ms) None of None \<Rightarrow> False
              | Some m \<Rightarrow> h - m_height m = 0)"

definition calculateBlockTime :: "milestone list \<Rightarrow> int \<Rightarrow> error + int" where
  "calculateBlockTime ms h =
     (case find (\<lambda>m. m_height m \<le> h \<and> truthyNum (m_blockTime m)) (rev ms) of
        None \<Rightarrow> Inl (PlainError ''No milestones specifying any height were found'')
      | Some m \<Rightarrow> Inr (the (m_blockTime m)))"

abbreviation nextBlockTime :: "milestone list \<Rightarrow> int \<Rightarrow> mresult" where
  "nextBlockTime \<equiv> nextMilestoneWithNewKey m_blockTime"

text \<open>The table of span ends; height 1 always has timestamp 0.\<close>

fun lookupTable :: "(int \<Rightarrow> error + int) \<Rightarrow> int \<Rightarrow> mresult list \<Rightarrow> (int, int) jsmap \<Rightarrow>
    error + (int, int) jsmap" where
  "lookupTable db h [] m = Inr m"
| "lookupTable db h (nx # nxs) m =
     (if h < mr_height nx then Inr m
      else case db (mr_height nx - 1) of
             Inl e \<Rightarrow> Inl e
           | Inr t \<Rightarrow> lookupTable db h nxs (jm_set (mr_height nx - 1) t m))"

definition getBlockTimeLookup :: "milestone list \<Rightarrow> (int \<Rightarrow> error + int) \<Rightarrow> int \<Rightarrow> error + int" where
  "getBlockTimeLookup ms db h =
     (case lookupTable db h (spansFrom m_blockTime ms 1) [(1, 0)] of
        Inl e \<Rightarrow> Inl e
      | Inr m \<Rightarrow> (case jm_get m h of
           None \<Rightarrow> Inl (PlainError ''Attempted lookup of block height for milestone span calculation, but none exists.'')
         | Some t \<Rightarrow> Inr t))"

section \<open>Slots (slots.ts)\<close>

record slots_env =
  se_milestones :: "milestone list"
  se_height :: "int option"
  se_now :: int
  se_lookup :: "int \<Rightarrow> error + int"

definition getLatestHeight :: "slots_env \<Rightarrow> int option \<Rightarrow> int" where
  "getLatestHeight E h =
     (if truthyNum h then the h else if truthyNum (se_height E) then the (se_height E) else 1)"

definition getTime :: "slots_env \<Rightarrow> int option \<Rightarrow> int" where
  "getTime E t = (case t of None \<Rightarrow> se_now E | Some t \<Rightarrow> t)"

definition epochAt :: "slots_env \<Rightarrow> int" where
  "epochAt E = (case Option.bind (milestoneAt (se_milestones E) (getLatestHeight E None)) m_epoch of
     None \<Rightarrow> 0 | Some e \<Rightarrow> e)"

definition blockTimeMilestones :: "slots_env \<Rightarrow> mresult list" where
  "blockTimeMilestones E =
     \<lparr>mr_found = True, mr_height = 1,
      mr_data = (case Option.bind (milestoneAt (se_milestones E) 1) m_blockTime of None \<Rightarrow> 0 | Some v \<Rightarrow> v)\<rparr>
       # spansFrom m_blockTime (se_milestones E) 1"

text \<open>The variables of the loop that \<open>getSlotInfo\<close> and \<open>#calculateSlotTime\<close> share.\<close>

record span =
  sp_blockTime :: int
  sp_totalSlots :: int
  sp_lastEnd :: int
  sp_height :: int

fun spanLoop :: "slots_env \<Rightarrow> int \<Rightarrow> nat \<Rightarrow> mresult \<Rightarrow> span \<Rightarrow> error + span" where
  "spanLoop E h 0 nx s = Inr s"
| "spanLoop E h (Suc n) nx s =
     (if h < mr_height nx then Inr s
      else case se_lookup E (sp_height s) of
             Inl e \<Rightarrow> Inl e
           | Inr start \<Rightarrow>
               (case se_lookup E (mr_height nx - 1) of
                  Inl e \<Rightarrow> Inl e
                | Inr t \<Rightarrow>
                    (let lastEnd = t + sp_blockTime s
                     in spanLoop E h n (nextBlockTime (se_milestones E) (mr_height nx))
                          \<lparr>sp_blockTime = mr_data nx,
                           sp_totalSlots = sp_totalSlots s + (lastEnd - start) div sp_blockTime s,
                           sp_lastEnd = lastEnd, sp_height = mr_height nx\<rparr>)))"

definition spanAt :: "slots_env \<Rightarrow> int \<Rightarrow> error + span" where
  "spanAt E h =
     (case calculateBlockTime (se_milestones E) 1 of
        Inl e \<Rightarrow> Inl e
      | Inr bt \<Rightarrow> spanLoop E h (length (blockTimeMilestones E) - 1) (nextBlockTime (se_milestones E) 1)
          \<lparr>sp_blockTime = bt, sp_totalSlots = 0, sp_lastEnd = epochAt E, sp_height = 1\<rparr>)"

record slotInfo =
  si_blockTime :: int
  si_startTime :: int
  si_endTime :: int
  si_slotNumber :: int
  si_forgingStatus :: bool

definition slotInfoIn :: "span \<Rightarrow> int \<Rightarrow> slotInfo" where
  "slotInfoIn s t =
     (let upTo = (t - sp_lastEnd s) div sp_blockTime s;
          start = sp_lastEnd s + upTo * sp_blockTime s
      in \<lparr>si_blockTime = sp_blockTime s,
          si_startTime = start,
          si_endTime = start + sp_blockTime s - 1,
          si_slotNumber = sp_totalSlots s + upTo,
          si_forgingStatus = (t < start + sp_blockTime s div 2)\<rparr>)"

definition getSlotInfo :: "slots_env \<Rightarrow> int option \<Rightarrow> int option \<Rightarrow> error + slotInfo" where
  "getSlotInfo E t h =
     (case spanAt E (getLatestHeight E h) of
        Inl e \<Rightarrow> Inl e | Inr s \<Rightarrow> Inr (slotInfoIn s (getTime E t)))"

definition getSlotNumber :: "slots_env \<Rightarrow> int option \<Rightarrow> int option \<Rightarrow> error + int" where
  "getSlotNumber E t h = (case getSlotInfo E (Some (getTime E t)) h of
     Inl e \<Rightarrow> Inl e | Inr i \<Rightarrow> Inr (si_slotNumber i))"

definition getSlotTime :: "slots_env \<Rightarrow> int \<Rightarrow> int option \<Rightarrow> error + int" where
  "getSlotTime E slot h =
     (case spanAt E (getLatestHeight E h) of
        Inl e \<Rightarrow> Inl e
      | Inr s \<Rightarrow> Inr (sp_lastEnd s + (slot - sp_totalSlots s) * sp_blockTime s))"

definition getNextSlot :: "slots_env \<Rightarrow> error + int" where
  "getNextSlot E = (case getSlotNumber E None None of Inl e \<Rightarrow> Inl e | Inr n \<Rightarrow> Inr (n + 1))"

definition getTimeInMsUntilNextSlot :: "slots_env \<Rightarrow> error + int" where
  "getTimeInMsUntilNextSlot E =
     (case getNextSlot E of Inl e \<Rightarrow> Inl e
      | Inr n \<Rightarrow> (case getSlotTime E n None of Inl e \<Rightarrow> Inl e
                  | Inr t \<Rightarrow> Inr ((t - getTime E None) * 1000)))"

definition isForgingAllowed :: "slots_env \<Rightarrow> int option \<Rightarrow> int option \<Rightarrow> error + bool" where
  "isForgingAllowed E t h = (case getSlotInfo E (Some (getTime E t)) h of
     Inl e \<Rightarrow> Inl e | Inr i \<Rightarrow> Inr (si_forgingStatus i))"

section \<open>Lemmas on slots\<close>

definition positiveTimes :: "milestone list \<Rightarrow> bool" where
  "positiveTimes ms \<longleftrightarrow> (\<forall>m \<in> set ms. \<forall>v. m_blockTime m = Some v \<longrightarrow> 0 < v)"

lemma calculateBlockTime_pos:
  assumes "positiveTimes ms" and "calculateBlockTime ms h = Inr bt" shows "0 < bt"
proof -
  obtain m where m: "find (\<lambda>m. m_height m \<le> h \<and> truthyNum (m_blockTime m)) (rev ms) = Some m"
    using assms(2) by (auto simp: calculateBlockTime_def split: option.splits)
  then have "m \<in> set ms" "truthyNum (m_blockTime m)"
    using find_SomeD[OF m] by simp_all
  moreover have "bt = the (m_blockTime m)"
    using assms(2) unfolding calculateBlockTime_def m by simp
  ultimately show ?thesis
    using assms(1) by (cases "m_blockTime m") (auto simp: positiveTimes_def)
qed

lemma next_time_pos:
  assumes "positiveTimes ms" and "mr_found (nextBlockTime ms prev)"
  shows "0 < mr_data (nextBlockTime ms prev)"
proof -
  let ?P = "\<lambda>m. truthyNum (m_blockTime m) \<and> m_blockTime m \<noteq>
    Option.bind (milestoneAt ms (if prev = 0 then 1 else prev)) m_blockTime \<and> prev < m_height m"
  obtain m where m: "find ?P ms = Some m"
    using assms(2) by (cases "find ?P ms") (simp_all add: nextMilestoneWithNewKey_def)
  then have "m \<in> set ms" "?P m" by (auto simp: find_Some_iff)
  moreover have "mr_data (nextBlockTime ms prev) = the (m_blockTime m)"
    unfolding nextMilestoneWithNewKey_def m by simp
  ultimately show ?thesis
    using assms(1) by (cases "m_blockTime m") (auto simp: positiveTimes_def)
qed

fun timeChain :: "milestone list \<Rightarrow> nat \<Rightarrow> int \<Rightarrow> bool" where
  "timeChain ms 0 prev = True"
| "timeChain ms (Suc n) prev \<longleftrightarrow>
     mr_found (nextBlockTime ms prev) \<and> timeChain ms n (mr_height (nextBlockTime ms prev))"

lemma timeChain_spans: "timeChain ms (length (spansFrom m_blockTime ms prev)) prev"
proof (induction "m_blockTime :: milestone \<Rightarrow> int option" ms prev rule: spansFrom.induct)
  case (1 ms prev)
  then show ?case
    by (cases "mr_found (nextBlockTime ms prev)")
      (simp_all add: spansFrom.simps[of m_blockTime ms prev] Let_def)
qed

lemma spanLoop_pos:
  assumes "positiveTimes (se_milestones E)" and "timeChain (se_milestones E) n prev"
    and "nx = nextBlockTime (se_milestones E) prev" and "0 < sp_blockTime s"
    and "spanLoop E h n nx s = Inr s'"
  shows "0 < sp_blockTime s'"
  using assms
proof (induction E h n nx s arbitrary: prev rule: spanLoop.induct)
  case (2 E h n nx s)
  show ?case
  proof (cases "h < mr_height nx")
    case False
    obtain start t where lk: "se_lookup E (sp_height s) = Inr start" "se_lookup E (mr_height nx - 1) = Inr t"
      using "2.prems"(5) False by (auto split: sum.splits)
    have "0 < mr_data nx" using next_time_pos "2.prems" by simp
    then show ?thesis
      using "2.IH"[OF False lk refl "2.prems"(1) _ refl] "2.prems" False lk by (simp add: Let_def)
  qed (use 2 in simp)
qed simp

lemma spanAt_pos:
  assumes "positiveTimes (se_milestones E)" and "spanAt E h = Inr s" shows "0 < sp_blockTime s"
proof -
  obtain bt where bt: "calculateBlockTime (se_milestones E) 1 = Inr bt"
    using assms(2) by (auto simp: spanAt_def split: sum.splits)
  have chain: "timeChain (se_milestones E) (length (blockTimeMilestones E) - 1) 1"
    using timeChain_spans[of "se_milestones E" 1] by (simp add: blockTimeMilestones_def)
  have loop: "spanLoop E h (length (blockTimeMilestones E) - 1) (nextBlockTime (se_milestones E) 1)
      \<lparr>sp_blockTime = bt, sp_totalSlots = 0, sp_lastEnd = epochAt E, sp_height = 1\<rparr> = Inr s"
    using assms(2) bt by (simp add: spanAt_def)
  show ?thesis
    using calculateBlockTime_pos[OF assms(1) bt] by (intro spanLoop_pos[OF assms(1) chain refl _ loop]) simp
qed

lemma slotInfoIn_bounds:
  assumes "0 < sp_blockTime s"
  shows "si_startTime (slotInfoIn s t) \<le> t \<and> t \<le> si_endTime (slotInfoIn s t)"
proof -
  let ?b = "sp_blockTime s"
  define q r where "q = (t - sp_lastEnd s) div ?b" and "r = (t - sp_lastEnd s) mod ?b"
  have "q * ?b + r = t - sp_lastEnd s" by (simp add: q_def r_def)
  then have "sp_lastEnd s + q * ?b = t - r" by simp
  moreover have "0 \<le> r" "r < ?b" using assms by (simp_all add: r_def)
  ultimately show ?thesis by (simp add: slotInfoIn_def Let_def q_def[symmetric])
qed

lemma slotInfoIn_mono:
  "0 < sp_blockTime s \<Longrightarrow> t \<le> t' \<Longrightarrow> si_slotNumber (slotInfoIn s t) \<le> si_slotNumber (slotInfoIn s t')"
  by (simp add: slotInfoIn_def Let_def zdiv_mono1)

lemma slotInfoIn_slotTime:
  assumes "0 < sp_blockTime s"
  shows "si_slotNumber (slotInfoIn s (sp_lastEnd s + (slot - sp_totalSlots s) * sp_blockTime s)) = slot"
  using assms by (simp add: slotInfoIn_def Let_def)

text \<open>A timestamp has the number of a slot exactly between the slot's start and end.\<close>

lemma slotNumber_iff:
  assumes "0 < sp_blockTime s"
  shows "si_slotNumber (slotInfoIn s u) = si_slotNumber (slotInfoIn s t) \<longleftrightarrow>
    si_startTime (slotInfoIn s t) \<le> u \<and> u \<le> si_endTime (slotInfoIn s t)"
proof -
  have "si_slotNumber (slotInfoIn s u) = si_slotNumber (slotInfoIn s t) \<longleftrightarrow>
      si_startTime (slotInfoIn s u) = si_startTime (slotInfoIn s t)"
    using assms by (auto simp: slotInfoIn_def Let_def)
  moreover have "si_startTime (slotInfoIn s u) = si_startTime (slotInfoIn s t)"
    if b: "si_startTime (slotInfoIn s t) \<le> u" "u \<le> si_endTime (slotInfoIn s t)"
  proof -
    have "(u - sp_lastEnd s) div sp_blockTime s = (t - sp_lastEnd s) div sp_blockTime s"
      using b assms by (intro int_div_pos_eq[where r = "u - si_startTime (slotInfoIn s t)"])
        (auto simp: slotInfoIn_def Let_def algebra_simps)
    then show ?thesis by (simp add: slotInfoIn_def Let_def)
  qed
  moreover have "si_endTime (slotInfoIn s u) = si_startTime (slotInfoIn s u) + sp_blockTime s - 1" for u
    by (simp add: slotInfoIn_def Let_def)
  ultimately show ?thesis using slotInfoIn_bounds[OF assms, of u] by auto
qed

lemma slotInfoIn_shape:
  "si_endTime (slotInfoIn s t) = si_startTime (slotInfoIn s t) + si_blockTime (slotInfoIn s t) - 1"
  "si_forgingStatus (slotInfoIn s t) \<longleftrightarrow> t < si_startTime (slotInfoIn s t) + si_blockTime (slotInfoIn s t) div 2"
  "sp_lastEnd s + (si_slotNumber (slotInfoIn s t) - sp_totalSlots s) * sp_blockTime s = si_startTime (slotInfoIn s t)"
  by (simp_all add: slotInfoIn_def Let_def)

section \<open>The forging order (calculate-forging-info.ts)\<close>

text \<open>
  \<open>getBlockTimeLookup\<close> hands \<open>getSlotInfo\<close> whatever it answers without awaiting it (its type is
  \<open>any\<close>): a number, or the promise of one. Arithmetic on a promise gives \<open>NaN\<close> (\<open>None\<close> here).
\<close>

datatype js_time = Seconds int | Promise "error + int"

primrec toNumber :: "js_time \<Rightarrow> int option" where
  "toNumber (Seconds t) = Some t"
| "toNumber (Promise p) = None"

fun findLoop :: "(int \<Rightarrow> error + js_time) \<Rightarrow> slots_env \<Rightarrow> int \<Rightarrow> nat \<Rightarrow> mresult \<Rightarrow> int option \<times> int \<Rightarrow>
    error + int option \<times> int" where
  "findLoop L E h 0 nx acc = Inr acc"
| "findLoop L E h (Suc n) nx (lastSlot, av) =
     (if h < mr_height nx then Inr (lastSlot, av)
      else case L (mr_height nx - 1) of
             Inl e \<Rightarrow> Inl e
           | Inr lastSpanEndTime \<Rightarrow>
               (case spanAt E (getLatestHeight E (Some (mr_height nx - 1))) of
                  Inl e \<Rightarrow> Inl e
                | Inr s \<Rightarrow> findLoop L E h n (nextCount (se_milestones E) (mr_height nx))
                    (map_option (\<lambda>t. si_slotNumber (slotInfoIn s t) + 1) (toNumber lastSpanEndTime),
                     mr_data nx)))"

definition findIndex :: "(int \<Rightarrow> error + js_time) \<Rightarrow> slots_env \<Rightarrow> int \<Rightarrow> int \<Rightarrow> error + int option \<times> int option" where
  "findIndex L E h slot =
     (case findLoop L E h (length (validatorMilestones (se_milestones E)) - 1)
             (nextCount (se_milestones E) 1) (Some 0, activeValidatorsAt (se_milestones E) 1) of
        Inl e \<Rightarrow> Inl e
      | Inr (lastSlot, av) \<Rightarrow>
          (let cur = map_option (\<lambda>l. jsMod (slot - l) av) lastSlot
           in Inr (cur, map_option (\<lambda>c. jsMod (c + 1) av) cur)))"

record forgingInfo =
  fi_blockTimestamp :: int
  fi_canForge :: bool
  fi_currentForger :: "int option"
  fi_nextForger :: "int option"

definition forgingInfoWith :: "(int \<Rightarrow> error + js_time) \<Rightarrow> slots_env \<Rightarrow> int \<Rightarrow> int \<Rightarrow> error + forgingInfo" where
  "forgingInfoWith L E t h =
     (case getSlotInfo E (Some t) (Some h) of
        Inl e \<Rightarrow> Inl e
      | Inr i \<Rightarrow> (case findIndex L E h (si_slotNumber i) of
           Inl e \<Rightarrow> Inl e
         | Inr (c, n) \<Rightarrow> Inr \<lparr>fi_blockTimestamp = si_startTime i, fi_canForge = si_forgingStatus i,
              fi_currentForger = c, fi_nextForger = n\<rparr>))"

text \<open>
  In a running node the lookup is the asynchronous method of block-time-lookup.ts: it does not throw,
  it answers at once with the promise of what \<open>se_lookup\<close> resolves to.
\<close>

definition asyncLookup :: "slots_env \<Rightarrow> int \<Rightarrow> error + js_time" where
  "asyncLookup E h = Inr (Promise (se_lookup E h))"

definition calculateForgingInfo :: "slots_env \<Rightarrow> int \<Rightarrow> int \<Rightarrow> error + forgingInfo" where
  "calculateForgingInfo E t h = forgingInfoWith (asyncLookup E) E t h"

text \<open>The changes of the validator count at or before a height.\<close>

definition countChanges :: "slots_env \<Rightarrow> int \<Rightarrow> mresult list" where
  "countChanges E h = takeWhile (\<lambda>n. mr_height n \<le> h) (spansFrom m_activeValidators (se_milestones E) 1)"

lemma findLoop_changes:
  assumes "findLoop L E h (length (spansFrom m_activeValidators (se_milestones E) prev))
      (nextCount (se_milestones E) prev) acc = Inr (l, av)"
    and "xs = takeWhile (\<lambda>n. mr_height n \<le> h) (spansFrom m_activeValidators (se_milestones E) prev)"
  shows "if xs = [] then (l, av) = acc
    else av = mr_data (last xs) \<and> (\<exists>v s. L (mr_height (last xs) - 1) = Inr v \<and>
      spanAt E (getLatestHeight E (Some (mr_height (last xs) - 1))) = Inr s \<and>
      l = map_option (\<lambda>t. si_slotNumber (slotInfoIn s t) + 1) (toNumber v))"
  using assms
proof (induction "m_activeValidators :: milestone \<Rightarrow> int option" "se_milestones E" prev
    arbitrary: acc xs rule: spansFrom.induct)
  case (1 prev)
  let ?ms = "se_milestones E" and ?nx = "nextCount (se_milestones E) prev"
  obtain l0 a0 where acc: "acc = (l0, a0)" by (cases acc)
  note spans = spansFrom.simps[of m_activeValidators ?ms prev]
  show ?case
  proof (cases "mr_found ?nx \<and> mr_height ?nx \<le> h")
    case False
    then show ?thesis using 1(2,3) acc spans by (auto simp: Let_def split: if_splits)
  next
    case True
    let ?ys = "takeWhile (\<lambda>n. mr_height n \<le> h) (spansFrom m_activeValidators ?ms (mr_height ?nx))"
    have xs: "xs = ?nx # ?ys" using True spans 1(3) by (simp add: Let_def)
    have len: "length (spansFrom m_activeValidators ?ms prev) = Suc (length (spansFrom m_activeValidators ?ms (mr_height ?nx)))"
      using True spans by (simp add: Let_def)
    obtain v s where v: "L (mr_height ?nx - 1) = Inr v"
        and s: "spanAt E (getLatestHeight E (Some (mr_height ?nx - 1))) = Inr s"
        and run: "findLoop L E h (length (spansFrom m_activeValidators ?ms (mr_height ?nx)))
          (nextCount ?ms (mr_height ?nx))
          (map_option (\<lambda>t. si_slotNumber (slotInfoIn s t) + 1) (toNumber v), mr_data ?nx) = Inr (l, av)"
      using 1(2) True unfolding len acc by (auto split: sum.splits)
    show ?thesis
      using 1(1)[OF refl conjunct1[OF True] run refl] v s xs by (cases "?ys = []") auto
  qed
qed

text \<open>
  The index of the forger counts the slots after the last change of the validator count, modulo that
  count; the time of the change is taken as the lookup answered it.
\<close>

lemma forgingInfoWith_index:
  assumes "forgingInfoWith L E t h = Inr i"
  shows "\<exists>slot. getSlotInfo E (Some t) (Some h) = Inr slot \<and>
    fi_blockTimestamp i = si_startTime slot \<and> fi_canForge i = si_forgingStatus slot \<and>
    (if countChanges E h = []
     then fi_currentForger i = Some (jsMod (si_slotNumber slot) (activeValidatorsAt (se_milestones E) 1)) \<and>
       fi_nextForger i = map_option (\<lambda>c. jsMod (c + 1) (activeValidatorsAt (se_milestones E) 1)) (fi_currentForger i)
     else let change = last (countChanges E h) in
       fi_nextForger i = map_option (\<lambda>c. jsMod (c + 1) (mr_data change)) (fi_currentForger i) \<and>
       (\<exists>v. L (mr_height change - 1) = Inr v \<and>
         (case v of Promise p \<Rightarrow> fi_currentForger i = None
          | Seconds stop \<Rightarrow> \<exists>n. getSlotNumber E (Some stop) (Some (mr_height change - 1)) = Inr n \<and>
              fi_currentForger i = Some (jsMod (si_slotNumber slot - (n + 1)) (mr_data change)))))"
proof -
  let ?ms = "se_milestones E"
  obtain slot c c' where slot: "getSlotInfo E (Some t) (Some h) = Inr slot"
      and fi: "findIndex L E h (si_slotNumber slot) = Inr (c, c')"
      and i: "i = \<lparr>fi_blockTimestamp = si_startTime slot, fi_canForge = si_forgingStatus slot,
        fi_currentForger = c, fi_nextForger = c'\<rparr>"
    using assms by (auto simp: forgingInfoWith_def split: sum.splits)
  obtain l a where loop: "findLoop L E h (length (spansFrom m_activeValidators ?ms 1)) (nextCount ?ms 1)
        (Some 0, activeValidatorsAt ?ms 1) = Inr (l, a)"
      and c: "c = map_option (\<lambda>l. jsMod (si_slotNumber slot - l) a) l" "c' = map_option (\<lambda>c. jsMod (c + 1) a) c"
    using fi by (auto simp: findIndex_def validatorMilestones_def Let_def split: sum.splits)
  note spec = findLoop_changes[OF loop, folded countChanges_def, OF refl]
  show ?thesis
  proof (cases "countChanges E h = []")
    case True
    then show ?thesis using spec slot i c by simp
  next
    case False
    let ?H = "mr_height (last (countChanges E h)) - 1"
    obtain v s where v: "a = mr_data (last (countChanges E h))" "L ?H = Inr v"
        "spanAt E (getLatestHeight E (Some ?H)) = Inr s"
        "l = map_option (\<lambda>t. si_slotNumber (slotInfoIn s t) + 1) (toNumber v)"
      using spec False by auto
    show ?thesis
      using False slot i c v by (cases v) (simp_all add: Let_def getSlotNumber_def getSlotInfo_def getTime_def)
  qed
qed

section \<open>Chained blocks (is-block-chained.ts)\<close>

record chainedDetails =
  cd_followsPrevious :: bool
  cd_isPlusOne :: bool
  cd_previousSlot :: int
  cd_nextSlot :: int

definition cd_isAfterPreviousSlot :: "chainedDetails \<Rightarrow> bool" where
  "cd_isAfterPreviousSlot d \<longleftrightarrow> cd_previousSlot d < cd_nextSlot d"

definition cd_isChained :: "chainedDetails \<Rightarrow> bool" where
  "cd_isChained d \<longleftrightarrow> cd_followsPrevious d \<and> cd_isPlusOne d \<and> cd_isAfterPreviousSlot d"

definition blockChainedDetails :: "slots_env \<Rightarrow> blockdata \<Rightarrow> blockdata \<Rightarrow> error + chainedDetails" where
  "blockChainedDetails E prev nxt =
     (case getSlotNumber E (Some (timestamp prev)) None of
        Inl e \<Rightarrow> Inl e
      | Inr ps \<Rightarrow> (case getSlotNumber E (Some (timestamp nxt)) None of
           Inl e \<Rightarrow> Inl e
         | Inr ns \<Rightarrow> Inr \<lparr>cd_followsPrevious = (Some (previousBlock nxt) = bid prev),
              cd_isPlusOne = (height nxt = height prev + 1), cd_previousSlot = ps, cd_nextSlot = ns\<rparr>))"

definition isBlockChained :: "slots_env \<Rightarrow> blockdata \<Rightarrow> blockdata \<Rightarrow> error + bool" where
  "isBlockChained E prev nxt =
     (case blockChainedDetails E prev nxt of Inl e \<Rightarrow> Inl e | Inr d \<Rightarrow> Inr (cd_isChained d))"

datatype notChained = IdMismatch | HeightNotPlusOne | SlotNotSmaller int int

definition blockNotChainedMessage :: "slots_env \<Rightarrow> blockdata \<Rightarrow> blockdata \<Rightarrow> error + notChained" where
  "blockNotChainedMessage E prev nxt =
     (case blockChainedDetails E prev nxt of
        Inl e \<Rightarrow> Inl e
      | Inr d \<Rightarrow>
          if cd_isChained d then Inl (PlainError ''Block had no chain error'')
          else if \<not> cd_followsPrevious d then Inr IdMismatch
          else if \<not> cd_isPlusOne d then Inr HeightNotPlusOne
          else Inr (SlotNotSmaller (cd_previousSlot d) (cd_nextSlot d)))"

lemma slotNumber_mono:
  assumes "positiveTimes (se_milestones E)" and "getSlotNumber E (Some t) h = Inr n"
    and "getSlotNumber E (Some t') h = Inr n'" and "t \<le> t'"
  shows "n \<le> n'"
proof -
  obtain s where s: "spanAt E (getLatestHeight E h) = Inr s"
    using assms(2) by (auto simp: getSlotNumber_def getSlotInfo_def split: sum.splits)
  show ?thesis
    using assms(2-4) s slotInfoIn_mono[OF spanAt_pos[OF assms(1) s]]
    by (auto simp: getSlotNumber_def getSlotInfo_def getTime_def)
qed

text \<open>A chained block has a later timestamp than its predecessor.\<close>

lemma chained_later:
  assumes "positiveTimes (se_milestones E)" and "isBlockChained E prev nxt = Inr True"
  shows "timestamp prev < timestamp nxt"
proof (rule ccontr)
  assume "\<not> timestamp prev < timestamp nxt"
  then show False
    using slotNumber_mono[OF assms(1), of "timestamp nxt" None _ "timestamp prev"] assms(2)
    by (fastforce simp: isBlockChained_def blockChainedDetails_def cd_isChained_def
        cd_isAfterPreviousSlot_def split: sum.splits)
qed

end
