(* ===== verification/Examples.thy ===== *)
theory Examples
  imports VoteBalance Slots
begin

text \<open>
  A small concrete chain the properties are exercised on: two wallets, Alice who holds 100 and
  votes for Bob, and Bob, a validator who holds 50 and has a vote balance of 100; transactions and
  a block on them; a configuration whose validator count changes once.
\<close>

section \<open>Wallets\<close>

definition alice :: wallet where
  "alice = (newWallet ''A'')\<lparr>wpublicKey := Some ''a'', wbalance := 100, wvote := Some ''b''\<rparr>"

definition bob :: wallet where
  "bob = (newWallet ''B'')\<lparr>wpublicKey := Some ''b'', wbalance := 50,
     wvalidator := Some (noValidator\<lparr>va_username := Some ''bob'', va_voteBalance := Some 100\<rparr>)\<rparr>"

definition indexOf :: "string \<Rightarrow> string \<Rightarrow> windex" where
  "indexOf k0 k1 = \<lparr>walletByKey = [(k0, 0), (k1, 1)], keysByWallet = [(0, [k0]), (1, [k1])]\<rparr>"

definition bobOnly :: "windex" where
  "bobOnly = \<lparr>walletByKey = [(''bob'', 1)], keysByWallet = [(1, [''bob''])]\<rparr>"

definition demoIndex :: "index_name \<Rightarrow> windex" where
  "demoIndex n = (case n of Addresses \<Rightarrow> indexOf ''A'' ''B'' | PublicKeys \<Rightarrow> indexOf ''a'' ''b''
     | Usernames \<Rightarrow> bobOnly | Resignations \<Rightarrow> ix_new)"

definition demo :: wstate where
  "demo = \<lparr>objs = (\<lambda>r. if r = 0 then alice else if r = 1 then bob else newWallet ''''),
     nextRef = 2, idx = (\<lambda>rp. if rp = Chain then demoIndex else (\<lambda>_. ix_new))\<rparr>"

definition demoEnv :: env where
  "demoEnv = \<lparr>e_address = (\<lambda>k. Inr (''addr-'' @ k)), e_multiSigKey = (\<lambda>m. Inr (concat (ms_publicKeys m))),
     e_multiSigAddress = (\<lambda>m. concat (ms_publicKeys m)), e_validAddress = (\<lambda>_. True),
     e_verifyHash = (\<lambda>_. True), e_verifySignatures = (\<lambda>_ _. True), e_activeValidators = 1,
     e_poolAll = [], e_poolBySender = (\<lambda>_. [])\<rparr>"

definition demoTx :: "int \<Rightarrow> string \<Rightarrow> tx_asset \<Rightarrow> transaction" where
  "demoTx ty sender a = \<lparr>data = \<lparr>version = Some 1, network = Some 30, typeGroup = Some 1, ttype = ty,
     nonce = Some 1, senderPublicKey = Some sender, fee = 10, amount = 0, expiration = None,
     recipientId = None, asset = a, vendorField = None, tid = Some ''t'', signature = Some ''s'',
     signatures = None\<rparr>, serialized = []\<rparr>"

definition demoTransfer :: transaction where
  "demoTransfer = (let t = demoTx 0 ''a'' noAsset
     in t\<lparr>data := (data t)\<lparr>amount := 20, recipientId := Some ''B''\<rparr>\<rparr>)"

definition demoPayments :: "payment list" where
  "demoPayments = [\<lparr>pay_amount = 5, pay_recipientId = ''B''\<rparr>, \<lparr>pay_amount = 7, pay_recipientId = ''A''\<rparr>]"

definition demoMultiPayment :: transaction where
  "demoMultiPayment = demoTx 6 ''a'' (noAsset\<lparr>as_payments := Some demoPayments\<rparr>)"

definition demoUnvote :: transaction where
  "demoUnvote = demoTx 3 ''a'' (noAsset\<lparr>as_votes := Some [], as_unvotes := Some [''b'']\<rparr>)"

definition demoRegistration :: transaction where
  "demoRegistration = demoTx 2 ''a'' (noAsset\<lparr>as_username := Some ''alice''\<rparr>)"

lemmas tx_defs = demoTx_def demoTransfer_def demoMultiPayment_def demoUnvote_def demoRegistration_def
  demoPayments_def noAsset_def

lemma two: "{..<2::nat} = {0, 1}"
  by auto

lemma demo_objs [simp]: "objs demo 0 = alice" "objs demo 1 = bob" "objs demo (Suc 0) = bob" "nextRef demo = 2"
  by (simp_all add: demo_def)

lemma demo_objs_cases: "objs demo r = (if r = 0 then alice else if r = 1 then bob else newWallet '''')"
  by (simp add: demo_def)

lemma alice_fields [simp]: "waddress alice = ''A''" "wpublicKey alice = Some ''a''" "wbalance alice = 100"
  "wnonce alice = 0" "wvote alice = Some ''b''" "wvalidator alice = None" "wmultiSignature alice = None" "voteBalanceOf alice = 0"
  by (simp_all add: alice_def newWallet_def voteBalanceOf_def validatorAttr_def)

lemma bob_fields [simp]: "waddress bob = ''B''" "wpublicKey bob = Some ''b''" "wbalance bob = 50"
  "wnonce bob = 0" "wvote bob = None" "wmultiSignature bob = None" "isValidator bob" "\<not> hasResigned bob"
  "voteBalanceOf bob = 100" "validatorAttr va_username bob = Some ''bob''"
  by (simp_all add: bob_def newWallet_def isValidator_def hasResigned_def voteBalanceOf_def
      validatorAttr_def noValidator_def)

lemma plain_wallets [simp]: "\<not> hasMultiSignature alice" "\<not> hasMultiSignature bob" "\<not> isValidator alice" "\<not> hasResigned alice"
  by (simp_all add: hasMultiSignature_def isValidator_def hasResigned_def)


lemma new_fields [simp]: "wvote (newWallet a) = None" "wvalidator (newWallet a) = None"
  "wbalance (newWallet a) = 0" "waddress (newWallet a) = a"
  by (simp_all add: newWallet_def)

lemma get_indexOf: "ix_get (indexOf k0 k1) k = (if k = k0 then Some 0 else if k = k1 then Some 1 else None)"
  by (simp add: indexOf_def ix_get_def)

lemma get_bobOnly: "ix_get bobOnly k = (if k = ''bob'' then Some 1 else None)"
  by (simp add: bobOnly_def ix_get_def)

lemma get_new: "ix_get ix_new k = None"
  by (simp add: ix_new_def ix_get_def)

lemma demo_lookup [simp]:
  "lookup demo Chain Addresses k = (if k = ''A'' then Some 0 else if k = ''B'' then Some 1 else None)"
  "lookup demo Chain PublicKeys k = (if k = ''a'' then Some 0 else if k = ''b'' then Some 1 else None)"
  "lookup demo Chain Usernames k = (if k = ''bob'' then Some 1 else None)"
  "lookup demo Chain Resignations k = None"
  "lookup demo Copy n k = None" "lookup demo Forgets n k = None"
  by (simp_all add: lookup_def demo_def demoIndex_def get_indexOf get_bobOnly get_new)

lemma keys_indexOf: "ix_walletKeys (indexOf k0 k1) r = (if r = 0 then [k0] else if r = 1 then [k1] else [])"
  by (simp add: ix_walletKeys_def indexOf_def)

lemma keys_bobOnly: "ix_walletKeys bobOnly r = (if r = 1 then [''bob''] else [])"
  by (simp add: ix_walletKeys_def bobOnly_def)

lemma inv_indexOf: "k0 \<noteq> k1 \<Longrightarrow> ix_inv (indexOf k0 k1)"
  unfolding ix_inv_def by (auto simp: get_indexOf keys_indexOf) (simp_all add: indexOf_def jm_inv_def jm_keys_def)

lemma inv_bobOnly: "ix_inv bobOnly"
  unfolding ix_inv_def by (auto simp: get_bobOnly keys_bobOnly) (simp_all add: bobOnly_def jm_inv_def jm_keys_def)

lemma demo_inv: "ix_inv (idx demo rp n)"
  by (cases n) (simp_all add: demo_def demoIndex_def inv_indexOf inv_bobOnly ix_inv_new)

lemma demo_lookup_any:
  "lookup demo rp n k = Some q \<Longrightarrow> q < 2 \<and> (n = Addresses \<longrightarrow> waddress (objs demo q) = k)"
  by (cases rp; cases n) (auto split: if_splits)

lemma demo_ok: "repo_ok demo"
  using demo_inv demo_lookup_any by (auto simp: repo_ok_def)

lemma demo_total: "totalBalance demo = 150"
  by (simp add: totalBalance_def two)

lemma demo_indexed: "indexed demo ''a'' 0" "indexed demo ''b'' 1"
  by (simp_all add: indexed_def)

lemma demo_keys: "keys_ok demo"
proof -
  have "lookup demo Chain n k = Some q \<Longrightarrow> q < 2" for n k q using demo_lookup_any by blast
  then show ?thesis by (auto simp: keys_ok_def demo_objs_cases split: if_splits)
qed

lemma demo_votes: "votes_ok demo"
  by (auto simp: votes_ok_def recorded_def voteSum_def votesFor_def two split: option.split)

lemma demo_own: "ownKeys demo 0"
  unfolding ownKeys_def
proof (intro conjI allI)
  fix n k show "lookup demo Chain n k = Some 0 \<longleftrightarrow> keyOf n (objs demo 0) = Some k"
    by (cases n) (auto simp: isValidator_def hasResigned_def)
qed (simp add: demo_inv)

lemma demo_baseCheck: "baseCheck (objs demo 0) (data demoTransfer) = None"
  by (simp add: baseCheck_def tx_defs Let_def nonceOf_def hasMultiSignature_def)

lemma demo_handlers: "activatedHandlerForData coreHandlers (data demoTransfer) = Inr Transfer"
  "activatedHandlerForData coreHandlers (data demoMultiPayment) = Inr MultiPayment"
  "activatedHandlerForData coreHandlers (data demoUnvote) = Inr Vote"
  "activatedHandlerForData coreHandlers (data demoRegistration) = Inr ValidatorRegistration"
  by (simp_all add: tx_defs Let_def activatedHandlerForData_def activatedHandlerByType_def coreHandlers_def
      coreHandler_def internalType_def type_defs isActivated_def)

section \<open>Milestones, slots and blocks\<close>

definition demoMilestone :: milestone where
  "demoMilestone = \<lparr>m_height = 1, m_activeValidators = Some 2, m_blockTime = Some 8, m_reward = Some 0,
     m_maxPayload = Some 1000, m_maxTransactions = Some 10, m_blockVersion = Some 0, m_epoch = Some 100,
     m_vendorFieldLength = Some 64, m_multiPaymentLimit = Some 4\<rparr>"

text \<open>From height 5 on there are four validators.\<close>

definition demoMilestones :: "milestone list" where
  "demoMilestones = [demoMilestone, demoMilestone\<lparr>m_height := 5, m_activeValidators := Some 4\<rparr>]"

definition demoCfg :: cfg where
  "demoCfg = \<lparr>milestones = Some demoMilestones, cursor = 0, cheight = Some 1\<rparr>"

definition demoSlots :: slots_env where
  "demoSlots = \<lparr>se_milestones = demoMilestones, se_height = Some 1, se_now = 120, se_lookup = (\<lambda>_. Inr 0)\<rparr>"

text \<open>The milestones of calculate-forging-info.test.ts, with the lookup its test puts in place.\<close>

definition shiftMilestones :: "milestone list" where
  "shiftMilestones =
     [demoMilestone\<lparr>m_activeValidators := Some 4, m_blockTime := Some 4\<rparr>,
      demoMilestone\<lparr>m_height := 4, m_activeValidators := Some 4, m_blockTime := Some 3\<rparr>,
      demoMilestone\<lparr>m_height := 5, m_activeValidators := Some 5, m_blockTime := Some 5\<rparr>]"

definition shiftTimes :: "int \<Rightarrow> error + int" where
  "shiftTimes h = (if h = 1 then Inr 100 else if h = 3 then Inr 108 else if h = 4 then Inr 112
     else Inl (PlainError ''Test scenarios should not hit this line''))"

definition shiftSlots :: slots_env where
  "shiftSlots = \<lparr>se_milestones = shiftMilestones, se_height = Some 1, se_now = 100, se_lookup = shiftTimes\<rparr>"

definition stubbedLookup :: "int \<Rightarrow> error + js_time" where
  "stubbedLookup h = (case shiftTimes h of Inl e \<Rightarrow> Inl e | Inr t \<Rightarrow> Inr (Seconds t))"

definition demoHeader :: "int \<Rightarrow> int \<Rightarrow> string \<Rightarrow> string \<Rightarrow> blockdata" where
  "demoHeader h ts i prev = \<lparr>bid = Some i, timestamp = ts, bversion = 0, height = h, previousBlock = prev,
     numberOfTransactions = 0, totalAmount = 0, totalFee = 0, reward = 2, payloadLength = 0,
     payloadHash = '''', generatorPublicKey = ''b'', blockSignature = None\<rparr>"

definition demoGenesis :: block where
  "demoGenesis = \<lparr>bdata = demoHeader 1 100 ''g'' ''0'', transactions = []\<rparr>"

definition demoBlock :: block where
  "demoBlock = \<lparr>bdata = demoHeader 2 108 ''h'' ''g'', transactions = []\<rparr>"

definition demoStore :: store where
  "demoStore = (newStore demoCfg 10 10)\<lparr>st_lastBlocks := [(1, demoGenesis)]\<rparr>"

definition demoChain :: chain_state where
  "demoChain = \<lparr>ch_wallets = demo, ch_store = demoStore\<rparr>"

lemmas chain_defs = demoMilestone_def demoMilestones_def demoCfg_def demoSlots_def demoHeader_def
  demoGenesis_def demoBlock_def demoStore_def demoChain_def newStore_def

lemma demo_store_ok: "store_ok demoStore"
  by (simp add: store_ok_def chain_defs heights_def jm_keys_def)

lemma demo_positive: "positiveCounts demoMilestones" "positiveTimes demoMilestones"
    "0 < activeValidatorsAt demoMilestones 1"
  by (simp_all add: positiveCounts_def positiveTimes_def chain_defs activeValidatorsAt_def milestoneAt_def)

lemma demo_cfg_ok: "cfg_ok demoCfg"
  by (simp add: cfg_ok_def chain_defs ascending_def)


end
