(* ===== verification/Dpos.thy ===== *)
theory Dpos
  imports VoteBalance Rounds "HOL-Library.List_Lexorder" "HOL-Library.Char_ord" "HOL-Library.Product_Lexorder"
begin

text \<open>
  The ranking of the validators (packages/core-state/source/dpos/dpos.ts). The wallets are
  references into the heap of the repository the object is tagged with. Public keys are compared
  as strings of equal case, where \<open>localeCompare\<close> with locale \<open>en\<close> is the order of the characters;
  the sort calls its comparator on every pair that ties, so a tie it cannot break always throws.
\<close>

section \<open>State\<close>

record dpos =
  dp_wallets :: wstate
  dp_info :: "roundInfo option"
  dp_active :: "nat list"
  dp_round :: "nat list"

type_synonym 'a dprog = "(dpos, error, 'a) prog"

definition newDpos :: "wstate \<Rightarrow> dpos" where
  "newDpos s = \<lparr>dp_wallets = s, dp_info = None, dp_active = [], dp_round = []\<rparr>"

definition onW :: "'a wprog \<Rightarrow> 'a dprog" where
  "onW m = (\<lambda>s. case m (dp_wallets s) of (r, w) \<Rightarrow> (r, s\<lparr>dp_wallets := w\<rparr>))"

definition getRoundInfo :: "roundInfo dprog" where
  "getRoundInfo = andThen (reads dp_info) (defined AssertionException)"

definition getAllValidators :: "nat list dprog" where
  "getAllValidators = onW (allByIndex Chain Usernames)"

section \<open>Vote balances on boot\<close>

definition buildVoteBalance :: "env \<Rightarrow> nat \<Rightarrow> unit wprog" where
  "buildVoteBalance E r =
     andThen (wal r) (\<lambda>voter.
     case wvote voter of
       None \<Rightarrow> ret ()
     | Some v \<Rightarrow>
         andThen (byKey E v) (\<lambda>q.
         andThen (wal q) (\<lambda>vw.
         andThen (defined AssertionException (validatorAttr va_voteBalance vw)) (\<lambda>b.
         updW q (setVoteBalance (b + wbalance voter))))))"

definition buildVoteBalances :: "env \<Rightarrow> unit wprog" where
  "buildVoteBalances E = andThen (allByIndex Chain PublicKeys) (forEach (buildVoteBalance E))"

section \<open>The ranking\<close>

definition pkOf :: "wallet \<Rightarrow> string" where
  "pkOf w = (case wpublicKey w of None \<Rightarrow> '''' | Some k \<Rightarrow> k)"

text \<open>Descending vote balance, then ascending public key.\<close>

definition rankKey :: "wallet \<Rightarrow> int \<times> string" where
  "rankKey w = (- voteBalanceOf w, pkOf w)"

text \<open>Two places of the list whose vote balances tie.\<close>

definition tied :: "(nat \<Rightarrow> wallet) \<Rightarrow> nat list \<Rightarrow> (nat \<times> nat) list" where
  "tied h rs = [(rs ! i, rs ! j). i \<leftarrow> [0..<length rs], j \<leftarrow> [Suc i..<length rs],
     voteBalanceOf (h (rs ! i)) = voteBalanceOf (h (rs ! j))]"

definition rankError :: "(nat \<Rightarrow> wallet) \<Rightarrow> nat list \<Rightarrow> error option" where
  "rankError h rs =
     (if 2 \<le> length rs \<and> list_ex (\<lambda>r. validatorAttr va_voteBalance (h r) = None) rs then Some AssertionException
      else if list_ex (\<lambda>(a, b). wpublicKey (h a) = None \<or> wpublicKey (h b) = None) (tied h rs)
        then Some AssertionException
      else if list_ex (\<lambda>(a, b). wpublicKey (h a) = wpublicKey (h b)) (tied h rs)
        then Some (PlainError ''The balance and public key of both validators are identical!'')
      else None)"

text \<open>A resigned validator loses its rank, another one is a candidate.\<close>

definition classify :: "nat \<Rightarrow> unit dprog" where
  "classify r =
     andThen (onW (wal r)) (\<lambda>w.
     if hasResigned w then onW (updW r (forgetValidatorAttr (\<lambda>v. v\<lparr>va_rank := None\<rparr>)))
     else modify (\<lambda>s. s\<lparr>dp_active := dp_active s @ [r]\<rparr>))"

definition sortActive :: "unit dprog" where
  "sortActive =
     andThen (reads (\<lambda>s. rankError (objs (dp_wallets s)) (dp_active s))) (\<lambda>e.
     case e of
       Some e \<Rightarrow> throw e
     | None \<Rightarrow> modify (\<lambda>s. s\<lparr>dp_active := sort_key (\<lambda>r. rankKey (objs (dp_wallets s) r)) (dp_active s)\<rparr>))"

definition setRank :: "nat \<times> nat \<Rightarrow> unit dprog" where
  "setRank ir = onW (updW (snd ir) (setValidatorAttr (\<lambda>v. v\<lparr>va_rank := Some (int (fst ir) + 1)\<rparr>)))"

definition buildValidatorRanking :: "unit dprog" where
  "buildValidatorRanking =
     andThen (modify (\<lambda>s. s\<lparr>dp_active := []\<rparr>)) (\<lambda>_.
     andThen getAllValidators (\<lambda>vs.
     andThen (forEach classify vs) (\<lambda>_.
     andThen sortActive (\<lambda>_.
     andThen (reads (\<lambda>s. enumerate 0 (dp_active s))) (forEach setRank)))))"

section \<open>The validators of a round\<close>

definition markRound :: "int \<Rightarrow> nat \<Rightarrow> unit dprog" where
  "markRound round r =
     andThen (onW (updW r (setValidatorAttr (\<lambda>v. v\<lparr>va_round := Some round\<rparr>)))) (\<lambda>_.
     modify (\<lambda>s. s\<lparr>dp_round := dp_round s @ [r]\<rparr>))"

definition setValidatorsRound :: "roundInfo \<Rightarrow> unit dprog" where
  "setValidatorsRound i =
     andThen (reads dp_active) (\<lambda>act.
     andThen (throwIf (int (length act) < ri_maxValidators i)
        (PlainError ''Expected to find more validators'')) (\<lambda>_.
     andThen (modify (\<lambda>s. s\<lparr>dp_info := Some i, dp_round := []\<rparr>)) (\<lambda>_.
     forEach (markRound (ri_round i)) (take (nat (ri_maxValidators i)) act))))"

section \<open>Lemmas\<close>

lemma onW_updW [simp]:
  "onW (updW r f) s = (Inr (), s\<lparr>dp_wallets := (dp_wallets s)\<lparr>objs := (objs (dp_wallets s))(r := f (objs (dp_wallets s) r))\<rparr>\<rparr>)"
  by (simp add: onW_def)

lemma onW_wal [simp]: "onW (wal r) s = (Inr (objs (dp_wallets s) r), s)"
  by (simp add: onW_def)

text \<open>The heap after the resigned validators among \<open>rs\<close> lost their ranks.\<close>

definition unrank :: "nat list \<Rightarrow> (nat \<Rightarrow> wallet) \<Rightarrow> nat \<Rightarrow> wallet" where
  "unrank rs h r = (if r \<in> set rs \<and> hasResigned (h r)
     then forgetValidatorAttr (\<lambda>v. v\<lparr>va_rank := None\<rparr>) (h r) else h r)"

definition setHeap :: "(nat \<Rightarrow> wallet) \<Rightarrow> dpos \<Rightarrow> dpos" where
  "setHeap h s = s\<lparr>dp_wallets := (dp_wallets s)\<lparr>objs := h\<rparr>\<rparr>"

lemma setHeap_simps [simp]:
  "objs (dp_wallets (setHeap h s)) = h" "dp_active (setHeap h s) = dp_active s"
  "dp_round (setHeap h s) = dp_round s" "dp_info (setHeap h s) = dp_info s"
  "setHeap h (setHeap g s) = setHeap h s" "setHeap (objs (dp_wallets s)) s = s"
  "nextRef (dp_wallets (setHeap h s)) = nextRef (dp_wallets s)"
  "lookup (dp_wallets (setHeap h s)) = lookup (dp_wallets s)"
  "idx (dp_wallets (setHeap h s)) = idx (dp_wallets s)"
  by (simp_all add: setHeap_def lookup_def fun_eq_iff)

lemma hasResigned_unrank: "hasResigned (forgetValidatorAttr (\<lambda>v. v\<lparr>va_rank := None\<rparr>) w) = hasResigned w"
  by (simp add: hasResigned_def forgetValidatorAttr_def split: option.split)

lemma forget_twice: "forgetValidatorAttr (\<lambda>v. v\<lparr>va_rank := None\<rparr>) (forgetValidatorAttr (\<lambda>v. v\<lparr>va_rank := None\<rparr>) w)
    = forgetValidatorAttr (\<lambda>v. v\<lparr>va_rank := None\<rparr>) w"
  by (simp add: forgetValidatorAttr_def option.map_comp comp_def)

lemma classify_all:
  "forEach classify rs s = (Inr (), (setHeap (unrank rs (objs (dp_wallets s))) s)
     \<lparr>dp_active := dp_active s @ filter (\<lambda>r. \<not> hasResigned (objs (dp_wallets s) r)) rs\<rparr>)"
proof (induction rs arbitrary: s)
  case Nil
  have "unrank [] h = h" for h by (simp add: unrank_def fun_eq_iff)
  then show ?case by simp
next
  case (Cons r rs)
  let ?h = "objs (dp_wallets s)" and ?f = "forgetValidatorAttr (\<lambda>v. v\<lparr>va_rank := None\<rparr>)"
  show ?case
  proof (cases "hasResigned (?h r)")
    case True
    define g where "g = ?h(r := ?f (?h r))"
    have "classify r s = (Inr (), setHeap g s)"
      using True by (simp add: classify_def andThen_def setHeap_def g_def)
    moreover have "unrank rs g = unrank (r # rs) ?h"
      using True by (auto simp: unrank_def fun_eq_iff hasResigned_unrank forget_twice g_def)
    moreover have "filter (\<lambda>q. \<not> hasResigned (g q)) rs = filter (\<lambda>q. \<not> hasResigned (?h q)) rs"
      by (rule filter_cong) (auto simp: hasResigned_unrank g_def)
    ultimately show ?thesis
      using Cons.IH [of "setHeap g s"] True by (simp add: andThen_Inr)
  next
    case False
    have "classify r s = (Inr (), s\<lparr>dp_active := dp_active s @ [r]\<rparr>)"
      using False by (simp add: classify_def andThen_def)
    moreover have "unrank rs ?h = unrank (r # rs) ?h"
      using False by (auto simp: unrank_def fun_eq_iff)
    ultimately show ?thesis
      using Cons.IH [of "s\<lparr>dp_active := dp_active s @ [r]\<rparr>"] False by (simp add: andThen_Inr setHeap_def)
  qed
qed

lemma tiedI:
  assumes "i < j" and "j < length rs" and "voteBalanceOf (h (rs ! i)) = voteBalanceOf (h (rs ! j))"
  shows "(rs ! i, rs ! j) \<in> set (tied h rs)"
proof -
  have "i \<in> set [0..<length rs]" "j \<in> set [Suc i..<length rs]" using assms by auto
  then show ?thesis using assms(3) unfolding tied_def by fastforce
qed

lemma rankError_None:
  assumes "rankError h rs = None"
  shows "distinct rs" and "\<And>i j. i < j \<Longrightarrow> j < length rs \<Longrightarrow>
    voteBalanceOf (h (rs ! i)) = voteBalanceOf (h (rs ! j)) \<Longrightarrow> pkOf (h (rs ! i)) \<noteq> pkOf (h (rs ! j))"
proof -
  show keys: "pkOf (h (rs ! i)) \<noteq> pkOf (h (rs ! j))"
    if "i < j" "j < length rs" "voteBalanceOf (h (rs ! i)) = voteBalanceOf (h (rs ! j))" for i j
    using tiedI [OF that] assms
    by (auto simp: rankError_def list_ex_iff pkOf_def split: if_splits option.splits)
  have "rs ! i \<noteq> rs ! j" if "i < j" "j < length rs" for i j
    using keys [OF that] by auto
  then show "distinct rs"
    by (metis distinct_conv_nth linorder_neqE_nat)
qed

fun rankHeap :: "nat \<Rightarrow> nat list \<Rightarrow> (nat \<Rightarrow> wallet) \<Rightarrow> nat \<Rightarrow> wallet" where
  "rankHeap k [] h = h"
| "rankHeap k (r # rs) h =
     rankHeap (Suc k) rs (h(r := setValidatorAttr (\<lambda>v. v\<lparr>va_rank := Some (int k + 1)\<rparr>) (h r)))"

lemma setRank_all: "forEach setRank (enumerate k rs) s = (Inr (), setHeap (rankHeap k rs (objs (dp_wallets s))) s)"
proof (induction rs arbitrary: k s)
  case (Cons r rs)
  define g where "g = (objs (dp_wallets s))(r := setValidatorAttr (\<lambda>v. v\<lparr>va_rank := Some (int k + 1)\<rparr>) (objs (dp_wallets s) r))"
  have "setRank (k, r) s = (Inr (), setHeap g s)" by (simp add: setRank_def setHeap_def g_def)
  then show ?case using Cons.IH [of "Suc k" "setHeap g s"] by (simp add: andThen_Inr g_def [symmetric])
qed simp

lemma rankHeap_other: "q \<notin> set rs \<Longrightarrow> rankHeap k rs h q = h q"
  by (induction rs arbitrary: k h) auto

lemma rankHeap_rank:
  assumes "distinct rs" and "i < length rs"
  shows "validatorAttr va_rank (rankHeap k rs h (rs ! i)) = Some (int (k + i) + 1)"
  using assms
proof (induction rs arbitrary: k h i)
  case (Cons r rs)
  show ?case
  proof (cases i)
    case 0
    then show ?thesis using Cons.prems by (simp add: rankHeap_other setValidatorAttr_def validatorAttr_def)
  next
    case (Suc j)
    then show ?thesis using Cons.IH [of j "Suc k"] Cons.prems by simp
  qed
qed simp

text \<open>What the ranking leaves alone in a wallet.\<close>

definition sameButRank :: "wallet \<Rightarrow> wallet \<Rightarrow> bool" where
  "sameButRank v w \<longleftrightarrow> waddress w = waddress v \<and> wpublicKey w = wpublicKey v \<and> wbalance w = wbalance v \<and>
     wnonce w = wnonce v \<and> wvote w = wvote v \<and> voteBalanceOf w = voteBalanceOf v \<and>
     hasResigned w = hasResigned v \<and> validatorAttr va_username w = validatorAttr va_username v"

lemma sameButRank_trans: "sameButRank u v \<Longrightarrow> sameButRank v w \<Longrightarrow> sameButRank u w"
  by (simp add: sameButRank_def)

lemma sameButRank_set:
  "sameButRank w w" "sameButRank w (setValidatorAttr (\<lambda>v. v\<lparr>va_rank := x\<rparr>) w)"
  "sameButRank w (forgetValidatorAttr (\<lambda>v. v\<lparr>va_rank := x\<rparr>) w)"
  by (cases "wvalidator w"; simp add: sameButRank_def setValidatorAttr_def forgetValidatorAttr_def
      voteBalanceOf_def validatorAttr_def hasResigned_def noValidator_def)+

lemma rankHeap_same: "sameButRank (h q) (rankHeap k rs h q)"
proof (induction rs arbitrary: k h)
  case (Cons r rs)
  let ?w = "setValidatorAttr (\<lambda>v. v\<lparr>va_rank := Some (int k + 1)\<rparr>) (h r)"
  have "sameButRank (h q) ((h(r := ?w)) q)" by (simp add: sameButRank_set)
  then show ?case unfolding rankHeap.simps by (rule sameButRank_trans [OF _ Cons.IH])
qed (simp add: sameButRank_set)

lemma forget_rank: "validatorAttr va_rank (forgetValidatorAttr (\<lambda>v. v\<lparr>va_rank := None\<rparr>) w) = None"
  by (cases "wvalidator w") (simp_all add: validatorAttr_def forgetValidatorAttr_def)

lemma rankKey_same: "sameButRank v w \<Longrightarrow> rankKey w = rankKey v"
  by (simp add: sameButRank_def rankKey_def pkOf_def)

text \<open>The ranking, when it does not throw.\<close>

lemma ranking_Inr:
  assumes "buildValidatorRanking s = (Inr u, s')"
  defines "vs \<equiv> ix_values (idx (dp_wallets s) Chain Usernames)" and "h \<equiv> objs (dp_wallets s)"
  defines "act \<equiv> sort_key (\<lambda>r. rankKey (h r)) (filter (\<lambda>r. \<not> hasResigned (h r)) vs)"
  shows "dp_active s' = act" and "distinct act" and "dp_round s' = dp_round s" and "dp_info s' = dp_info s"
    and "objs (dp_wallets s') = rankHeap 0 act (unrank vs h)" and "s' = setHeap (objs (dp_wallets s')) s\<lparr>dp_active := act\<rparr>"
proof -
  let ?c = "filter (\<lambda>r. \<not> hasResigned (h r)) vs" and ?g = "unrank vs h"
  define s1 where "s1 = (setHeap ?g s)\<lparr>dp_active := ?c\<rparr>"
  have "sameButRank (h r) (?g r)" for r by (simp add: unrank_def sameButRank_set)
  then have key: "rankKey (?g r) = rankKey (h r)" for r by (rule rankKey_same)
  have cl: "forEach classify vs (s\<lparr>dp_active := []\<rparr>) = (Inr (), s1)"
    by (simp add: classify_all s1_def h_def setHeap_def)
  have all: "getAllValidators (s\<lparr>dp_active := []\<rparr>) = (Inr vs, s\<lparr>dp_active := []\<rparr>)"
    by (simp add: getAllValidators_def onW_def allByIndex_def vs_def)
  have run: "buildValidatorRanking s = andThen sortActive
      (\<lambda>_. andThen (reads (\<lambda>s. enumerate 0 (dp_active s))) (forEach setRank)) s1"
    by (simp add: buildValidatorRanking_def andThen_Inr all cl)
  have e: "rankError ?g ?c = None"
    using assms(1) by (cases "rankError ?g ?c") (simp_all add: run sortActive_def s1_def andThen_def)
  then have s': "s' = setHeap (rankHeap 0 act ?g) (s1\<lparr>dp_active := act\<rparr>)"
    using assms(1)
    by (simp add: run sortActive_def s1_def andThen_def setRank_all act_def key)
  show "dp_active s' = act" "dp_round s' = dp_round s" "dp_info s' = dp_info s"
      "objs (dp_wallets s') = rankHeap 0 act ?g" "s' = setHeap (objs (dp_wallets s')) s\<lparr>dp_active := act\<rparr>"
    by (simp_all add: s' s1_def setHeap_def)
  show "distinct act" using rankError_None(1) [OF e] by (simp add: act_def)
qed

lemma ranking_spec:
  assumes "buildValidatorRanking s = (Inr u, s')"
  defines "vs \<equiv> ix_values (idx (dp_wallets s) Chain Usernames)" and "h \<equiv> objs (dp_wallets s)"
    and "h' \<equiv> objs (dp_wallets s')"
  shows "mset (dp_active s') = mset (filter (\<lambda>r. \<not> hasResigned (h r)) vs)" and "distinct (dp_active s')"
    and "sorted (map (\<lambda>r. rankKey (h' r)) (dp_active s'))"
    and "\<forall>i < length (dp_active s'). validatorAttr va_rank (h' (dp_active s' ! i)) = Some (int i + 1)"
    and "\<forall>r \<in> set vs. hasResigned (h r) \<longrightarrow> validatorAttr va_rank (h' r) = None"
    and "\<forall>r. sameButRank (h r) (h' r)"
proof -
  note r = ranking_Inr [OF assms(1), folded vs_def h_def]
  let ?act = "sort_key (\<lambda>r. rankKey (h r)) (filter (\<lambda>r. \<not> hasResigned (h r)) vs)"
  have same: "sameButRank (h q) (h' q)" for q
    unfolding h'_def r(5) by (rule sameButRank_trans [OF _ rankHeap_same]) (simp add: unrank_def sameButRank_set)
  then show "\<forall>r. sameButRank (h r) (h' r)" by blast
  show "mset (dp_active s') = mset (filter (\<lambda>r. \<not> hasResigned (h r)) vs)" "distinct (dp_active s')"
    using r(1,2) by simp_all
  show "sorted (map (\<lambda>r. rankKey (h' r)) (dp_active s'))"
    using sorted_sort_key [of "\<lambda>r. rankKey (h r)"] by (simp add: r(1) rankKey_same [OF same])
  show "\<forall>i < length (dp_active s'). validatorAttr va_rank (h' (dp_active s' ! i)) = Some (int i + 1)"
    using rankHeap_rank [OF r(2), of _ 0 "unrank vs h"] by (simp add: r(1) h'_def r(5))
  show "\<forall>r \<in> set vs. hasResigned (h r) \<longrightarrow> validatorAttr va_rank (h' r) = None"
    by (simp add: h'_def r(5) rankHeap_other unrank_def forget_rank)
qed


text \<open>The round takes the first validators of the ranking, or none when there are too few.\<close>

lemma markRound_all:
  "forEach (markRound rnd) rs s = (Inr (), (setHeap (\<lambda>q. if q \<in> set rs
      then setValidatorAttr (\<lambda>v. v\<lparr>va_round := Some rnd\<rparr>) (objs (dp_wallets s) q)
      else objs (dp_wallets s) q) s)\<lparr>dp_round := dp_round s @ rs\<rparr>)"
proof (induction rs arbitrary: s)
  case (Cons r rs)
  let ?f = "setValidatorAttr (\<lambda>v. v\<lparr>va_round := Some rnd\<rparr>)"
  define g where "g = (objs (dp_wallets s))(r := ?f (objs (dp_wallets s) r))"
  have step: "markRound rnd r s = (Inr (), (setHeap g s)\<lparr>dp_round := dp_round s @ [r]\<rparr>)"
    by (simp add: markRound_def andThen_def setHeap_def g_def)
  have "?f (?f w) = ?f w" for w by (simp add: setValidatorAttr_def)
  then have "(\<lambda>q. if q \<in> set rs then ?f (g q) else g q) =
      (\<lambda>q. if q \<in> set (r # rs) then ?f (objs (dp_wallets s) q) else objs (dp_wallets s) q)"
    by (auto simp: g_def fun_eq_iff)
  then show ?case
    using Cons.IH [of "(setHeap g s)\<lparr>dp_round := dp_round s @ [r]\<rparr>"] step
    by (simp add: andThen_Inr setHeap_def cong: if_cong)
qed (simp add: setHeap_def)

lemma setValidatorsRound_spec:
  "setValidatorsRound i s =
    (if int (length (dp_active s)) < ri_maxValidators i
     then (Inl (PlainError ''Expected to find more validators''), s)
     else (let rs = take (nat (ri_maxValidators i)) (dp_active s) in
       (Inr (), (setHeap (\<lambda>q. if q \<in> set rs
           then setValidatorAttr (\<lambda>v. v\<lparr>va_round := Some (ri_round i)\<rparr>) (objs (dp_wallets s) q)
           else objs (dp_wallets s) q) s)\<lparr>dp_info := Some i, dp_round := rs\<rparr>)))"
  by (simp add: setValidatorsRound_def andThen_def markRound_all setHeap_def Let_def cong: if_cong)

section \<open>Rebuilding the vote balances\<close>

text \<open>Every validator somebody votes for has a vote balance.\<close>

definition balances_set :: "wstate \<Rightarrow> bool" where
  "balances_set s \<longleftrightarrow> (\<forall>r v q. wvote (objs s r) = Some v \<and> lookup s Chain PublicKeys v = Some q \<longrightarrow>
     validatorAttr va_voteBalance (objs s q) \<noteq> None)"

lemma buildVoteBalance_known:
  assumes "keys_ok s" and "balances_set s"
  shows "\<exists>s'. buildVoteBalance E r s = (Inr (), s') \<and> sameMoney s s' \<and> balances_set s' \<and>
    (\<forall>pk. drift s' pk = drift s pk - votesFor pk (objs s r))"
proof (cases "wvote (objs s r)")
  case None
  then show ?thesis using assms(2)
    by (simp add: buildVoteBalance_def andThen_def sameMoney_refl votesFor_def)
next
  case (Some v)
  then have "lookup s Chain PublicKeys v \<noteq> None" using assms(1) by (simp add: keys_ok_def)
  then obtain q where q: "lookup s Chain PublicKeys v = Some q" by blast
  then obtain b where b: "validatorAttr va_voteBalance (objs s q) = Some b"
    using assms(2) Some by (fastforce simp: balances_set_def)
  let ?s = "s\<lparr>objs := (objs s)(q := setVoteBalance (b + wbalance (objs s r)) (objs s q))\<rparr>"
  have "voteBalanceOf (objs s q) = b" using b by (simp add: voteBalanceOf_def)
  moreover have "buildVoteBalance E r s = (Inr (), ?s)"
    using Some q b by (simp add: buildVoteBalance_def andThen_def byKey_known)
  moreover have "balances_set ?s"
    using assms(2) by (auto simp: balances_set_def wallet_ops validatorAttr_def)
  ultimately show ?thesis
    using bump_known [OF assms(1) q, of "wbalance (objs s r)"] Some by (auto simp: votesFor_def)
qed

lemma buildVoteBalances_all:
  assumes "keys_ok s" and "balances_set s"
  shows "\<exists>s'. forEach (buildVoteBalance E) rs s = (Inr (), s') \<and> sameMoney s s' \<and> balances_set s' \<and>
    (\<forall>pk. drift s' pk = drift s pk - (\<Sum>r\<leftarrow>rs. votesFor pk (objs s r)))"
  using assms
proof (induction rs arbitrary: s)
  case (Cons r rs)
  obtain t where t: "buildVoteBalance E r s = (Inr (), t)" "sameMoney s t" "balances_set t"
      "\<And>pk. drift t pk = drift s pk - votesFor pk (objs s r)"
    using buildVoteBalance_known [OF Cons.prems, of E r] by blast
  obtain s' where s': "forEach (buildVoteBalance E) rs t = (Inr (), s')" "sameMoney t s'" "balances_set s'"
      "\<And>pk. drift s' pk = drift t pk - (\<Sum>r\<leftarrow>rs. votesFor pk (objs t r))"
    using Cons.IH [OF sameMoney_keys [OF t(2) Cons.prems(1)] t(3)] by blast
  have "votesFor pk (objs t q) = votesFor pk (objs s q)" for pk q
    using t(2) by (simp add: votesFor_def sameMoney_def)
  then show ?case using t s' sameMoney_trans [OF t(2) s'(2)] by (simp add: andThen_Inr)
qed (simp add: sameMoney_refl)

text \<open>The public key index lists every voter, once.\<close>

definition votersListed :: "wstate \<Rightarrow> bool" where
  "votersListed s \<longleftrightarrow> (let rs = ix_values (idx s Chain PublicKeys) in distinct rs \<and> set rs \<subseteq> {..<nextRef s} \<and>
     (\<forall>r < nextRef s. wvote (objs s r) \<noteq> None \<longrightarrow> r \<in> set rs))"

lemma buildVoteBalances_adds:
  assumes "keys_ok s" and "balances_set s" and "votersListed s"
  shows "\<exists>s'. buildVoteBalances E s = (Inr (), s') \<and> sameMoney s s' \<and> balances_set s' \<and>
    (\<forall>pk. recorded s' pk = recorded s pk + voteSum s pk)"
proof -
  let ?rs = "ix_values (idx s Chain PublicKeys)"
  obtain s' where s': "forEach (buildVoteBalance E) ?rs s = (Inr (), s')" "sameMoney s s'" "balances_set s'"
      "\<And>pk. drift s' pk = drift s pk - (\<Sum>r\<leftarrow>?rs. votesFor pk (objs s r))"
    using buildVoteBalances_all [OF assms(1,2), of E ?rs] by blast
  have "(\<Sum>r\<leftarrow>?rs. votesFor pk (objs s r)) = voteSum s pk" for pk
  proof -
    have "(\<Sum>r\<leftarrow>?rs. votesFor pk (objs s r)) = (\<Sum>r\<in>set ?rs. votesFor pk (objs s r))"
      using assms(3) by (simp add: sum_list_distinct_conv_sum_set votersListed_def Let_def)
    also have "\<dots> = voteSum s pk"
      unfolding voteSum_def using assms(3)
      by (intro sum.mono_neutral_left) (auto simp: votersListed_def Let_def votesFor_def split: if_splits)
    finally show ?thesis .
  qed
  moreover have "voteSum s' pk = voteSum s pk" for pk
    using s'(2) by (simp add: voteSum_def votesFor_def sameMoney_def cong: if_cong)
  ultimately have "recorded s' pk = recorded s pk + voteSum s pk" for pk
    using s'(4) [of pk] by (simp add: drift_def)
  then show ?thesis using s' by (simp add: buildVoteBalances_def allByIndex_def)
qed


end
