(* ===== verification/Database.thy ===== *)
theory Database
  imports Types
begin

text \<open>
  The database service (packages/core-database/source/database-service.ts). The four LMDB
  storages are maps whose keys iterate in ascending order; decoding the stored bytes is the block
  factory's, a parameter \<open>dec\<close> here, and \<open>enc\<close> stands for a block's serialized form.
\<close>

section \<open>State\<close>

record round_row =
  rr_balance :: int
  rr_publicKey :: string
  rr_round :: int

record database =
  db_blocks :: "(string, byte list) jsmap"
  db_heights :: "(int, string) jsmap"
  db_transactions :: "(string, byte list) jsmap"
  db_rounds :: "(int, round_row list) jsmap"

type_synonym 'a dbprog = "(database, error, 'a) prog"

definition emptyDb :: database where
  "emptyDb = \<lparr>db_blocks = [], db_heights = [], db_transactions = [], db_rounds = []\<rparr>"

section \<open>Decoding lists\<close>

text \<open>\<open>#map\<close> with an asynchronous callback: the first error ends it.\<close>

fun mapE :: "('a \<Rightarrow> error + 'b) \<Rightarrow> 'a list \<Rightarrow> error + 'b list" where
  "mapE f [] = Inr []"
| "mapE f (x # xs) = (case f x of Inl e \<Rightarrow> Inl e
     | Inr y \<Rightarrow> (case mapE f xs of Inl e \<Rightarrow> Inl e | Inr ys \<Rightarrow> Inr (y # ys)))"

fun catOptions :: "'a option list \<Rightarrow> 'a list" where
  "catOptions [] = []"
| "catOptions (None # xs) = catOptions xs"
| "catOptions (Some x # xs) = x # catOptions xs"

section \<open>Blocks\<close>

definition getBlock :: "(byte list \<Rightarrow> error + block) \<Rightarrow> string \<Rightarrow> database \<Rightarrow> error + block option" where
  "getBlock dec i db = (case jm_get (db_blocks db) i of
     None \<Rightarrow> Inr None
   | Some bytes \<Rightarrow> (case dec bytes of Inl e \<Rightarrow> Inl e | Inr b \<Rightarrow> Inr (Some b)))"

text \<open>The bytes stored for a height; a height without an id, or an id without a block, is skipped.\<close>

definition bytesAt :: "database \<Rightarrow> int \<Rightarrow> byte list option" where
  "bytesAt db h = Option.bind (jm_get (db_heights db) h) (jm_get (db_blocks db))"

definition findBlocksByHeightRange ::
    "(byte list \<Rightarrow> error + block) \<Rightarrow> int \<Rightarrow> int \<Rightarrow> database \<Rightarrow> error + block list" where
  "findBlocksByHeightRange dec start stop db =
     (case mapE dec (catOptions (map (bytesAt db) [start..stop])) of
        Inl e \<Rightarrow> Inl e
      | Inr bs \<Rightarrow> Inr (sort_key (\<lambda>b. height (bdata b)) bs))"

definition getBlocks :: "(byte list \<Rightarrow> error + block) \<Rightarrow> int \<Rightarrow> int \<Rightarrow> database \<Rightarrow> error + blockdata list" where
  "getBlocks dec start stop db =
     (case findBlocksByHeightRange dec start stop db of Inl e \<Rightarrow> Inl e | Inr bs \<Rightarrow> Inr (map bdata bs))"

definition getBlocksForDownload ::
    "(byte list \<Rightarrow> error + block) \<Rightarrow> int \<Rightarrow> int \<Rightarrow> database \<Rightarrow> error + (blockdata \<times> byte list list) list" where
  "getBlocksForDownload dec offset limit db =
     (case findBlocksByHeightRange dec offset (offset + limit - 1) db of
        Inl e \<Rightarrow> Inl e
      | Inr bs \<Rightarrow> Inr (map (\<lambda>b. (bdata b, map serialized (transactions b))) bs))"

text \<open>Decoding a missing entry (\<open>undefined\<close>) is a TypeError of the factory.\<close>

definition decodeId :: "(byte list \<Rightarrow> error + block) \<Rightarrow> database \<Rightarrow> string \<Rightarrow> error + block" where
  "decodeId dec db i = (case jm_get (db_blocks db) i of None \<Rightarrow> Inl JsTypeError | Some bytes \<Rightarrow> dec bytes)"

definition findBlockByHeights :: "(byte list \<Rightarrow> error + block) \<Rightarrow> int list \<Rightarrow> database \<Rightarrow> error + block list" where
  "findBlockByHeights dec hs db = mapE (decodeId dec db) (catOptions (map (jm_get (db_heights db)) hs))"

text \<open>\<open>getRange(limit 1, reverse)\<close>: the entry of the greatest height.\<close>

definition lastHeightId :: "database \<Rightarrow> string option" where
  "lastHeightId db = (if db_heights db = [] then None
     else jm_get (db_heights db) (Max (set (jm_keys (db_heights db)))))"

definition db_getLastBlock :: "(byte list \<Rightarrow> error + block) \<Rightarrow> database \<Rightarrow> block option" where
  "db_getLastBlock dec db = (case lastHeightId db of None \<Rightarrow> None
     | Some i \<Rightarrow> (case decodeId dec db i of Inl _ \<Rightarrow> None | Inr b \<Rightarrow> Some b))"

definition findBlocksByIds :: "(byte list \<Rightarrow> error + block) \<Rightarrow> string list \<Rightarrow> database \<Rightarrow> error + blockdata list" where
  "findBlocksByIds dec ids db =
     (case mapE dec (catOptions (map (jm_get (db_blocks db)) ids)) of
        Inl e \<Rightarrow> Inl e | Inr bs \<Rightarrow> Inr (map bdata bs))"

definition putTransaction :: "transaction \<Rightarrow> unit dbprog" where
  "putTransaction t =
     andThen (defined JsTypeError (tid (data t))) (\<lambda>i.
     modify (\<lambda>db. db\<lparr>db_transactions := jm_set i (serialized t) (db_transactions db)\<rparr>))"

definition saveBlock :: "(block \<Rightarrow> byte list) \<Rightarrow> block \<Rightarrow> unit dbprog" where
  "saveBlock enc b =
     andThen (throwIf (\<not> truthyStr (bid (bdata b))) (PlainError ''Failed to store block because it has no ID.'')) (\<lambda>_.
     let i = the (bid (bdata b)) in
     andThen (reads (\<lambda>db. jm_has (db_blocks db) i)) (\<lambda>known.
     whenever (\<not> known)
       (andThen (modify (\<lambda>db. db\<lparr>db_blocks := jm_set i (enc b) (db_blocks db),
                                  db_heights := jm_set (height (bdata b)) i (db_heights db)\<rparr>)) (\<lambda>_.
        forEach putTransaction (transactions b)))))"

definition saveBlocks :: "(block \<Rightarrow> byte list) \<Rightarrow> block list \<Rightarrow> unit dbprog" where
  "saveBlocks enc bs = forEach (saveBlock enc) bs"

section \<open>Transactions\<close>

definition getTransaction :: "(byte list \<Rightarrow> error + transaction) \<Rightarrow> string \<Rightarrow> database \<Rightarrow> error + transaction option" where
  "getTransaction dec i db = (case jm_get (db_transactions db) i of
     None \<Rightarrow> Inr None
   | Some bytes \<Rightarrow> (case dec bytes of Inl e \<Rightarrow> Inl e | Inr t \<Rightarrow> Inr (Some t)))"

definition getForgedTransactionsIds :: "string list \<Rightarrow> database \<Rightarrow> string list" where
  "getForgedTransactionsIds ids db = filter (jm_has (db_transactions db)) ids"

section \<open>Rounds\<close>

text \<open>
  \<open>sortBy(sortByDesc(rows, "balance"), "publicKey")\<close> of the third-party sort: \<open>byBalance\<close> is the
  inner order, the outer one is by public key and stable.
\<close>

definition db_getRound :: "(round_row list \<Rightarrow> round_row list) \<Rightarrow> int \<Rightarrow> database \<Rightarrow> round_row list" where
  "db_getRound byBalance r db = (case jm_get (db_rounds db) r of
     None \<Rightarrow> [] | Some rows \<Rightarrow> sort_key rr_publicKey (byBalance rows))"

definition saveRound :: "round_row list \<Rightarrow> unit dbprog" where
  "saveRound rows = (case rows of
     [] \<Rightarrow> throw JsTypeError
   | row # _ \<Rightarrow>
       andThen (reads (\<lambda>db. jm_has (db_rounds db) (rr_round row))) (\<lambda>known.
       whenever (\<not> known) (modify (\<lambda>db. db\<lparr>db_rounds := jm_set (rr_round row) rows (db_rounds db)\<rparr>))))"

definition deleteRound :: "int \<Rightarrow> unit dbprog" where
  "deleteRound r = modify (\<lambda>db. db\<lparr>db_rounds := filter (\<lambda>(k, _). k < r) (db_rounds db)\<rparr>)"

section \<open>Lemmas\<close>

lemma mapE_Inr: "(\<And>x. x \<in> set xs \<Longrightarrow> f x = Inr (g x)) \<Longrightarrow> mapE f xs = Inr (map g xs)"
  by (induction xs) simp_all

lemma catOptions_map: "(\<And>x. x \<in> set xs \<Longrightarrow> f x = Some (g x)) \<Longrightarrow> catOptions (map f xs) = map g xs"
  by (induction xs) simp_all

lemma set_catOptions: "set (catOptions xs) = {x. Some x \<in> set xs}"
  by (induction xs rule: catOptions.induct) auto

lemma putTransactions_keep:
  assumes "forEach putTransaction ts db = (Inr u, db')"
  shows "db_blocks db' = db_blocks db \<and> db_heights db' = db_heights db \<and> db_rounds db' = db_rounds db"
  using assms
proof (induction ts arbitrary: db)
  case (Cons t ts)
  obtain i where i: "tid (data t) = Some i"
    using Cons.prems by (cases "tid (data t)") (simp_all add: putTransaction_def andThen_def)
  let ?db = "db\<lparr>db_transactions := jm_set i (serialized t) (db_transactions db)\<rparr>"
  have "putTransaction t db = (Inr (), ?db)" using i by (simp add: putTransaction_def)
  then show ?case using Cons.prems Cons.IH [of ?db] by (simp add: andThen_Inr)
qed simp

text \<open>The database holds, under each height, a block of that height: what \<open>saveBlocks\<close> keeps.\<close>

definition db_ok :: "(byte list \<Rightarrow> error + block) \<Rightarrow> database \<Rightarrow> bool" where
  "db_ok dec db \<longleftrightarrow> (\<forall>h i. jm_get (db_heights db) h = Some i \<longrightarrow>
     (\<exists>bytes b. jm_get (db_blocks db) i = Some bytes \<and> dec bytes = Inr b \<and>
        height (bdata b) = h \<and> bid (bdata b) = Some i))"

lemma db_okD:
  "db_ok dec db \<Longrightarrow> jm_get (db_heights db) h = Some i \<Longrightarrow> \<exists>bytes b. jm_get (db_blocks db) i = Some bytes \<and>
    dec bytes = Inr b \<and> height (bdata b) = h \<and> bid (bdata b) = Some i"
  by (simp add: db_ok_def)

lemma saveBlock_ok:
  assumes "db_ok dec db" and "dec (enc b) = Inr b" and "saveBlock enc b db = (Inr u, db')"
  shows "db_ok dec db'"
proof -
  obtain i where i: "bid (bdata b) = Some i" "i \<noteq> ''''"
    using assms(3) by (cases "bid (bdata b)") (auto simp: saveBlock_def split: if_splits)
  show ?thesis
  proof (cases "jm_has (db_blocks db) i")
    case True
    then show ?thesis using assms(1,3) i by (simp add: saveBlock_def andThen_def)
  next
    case False
    let ?db = "db\<lparr>db_blocks := jm_set i (enc b) (db_blocks db),
      db_heights := jm_set (height (bdata b)) i (db_heights db)\<rparr>"
    have "forEach putTransaction (transactions b) ?db = (Inr u, db')"
      using assms(3) i False by (simp add: saveBlock_def andThen_def)
    note kept = putTransactions_keep [OF this]
    have other: "j \<noteq> i" if "jm_get (db_heights db) h = Some j" for h j
      using that assms(1) False by (fastforce simp: db_ok_def jm_has_def)
    show ?thesis unfolding db_ok_def
    proof (intro allI impI)
      fix h j assume j: "jm_get (db_heights db') h = Some j"
      show "\<exists>bytes c. jm_get (db_blocks db') j = Some bytes \<and> dec bytes = Inr c \<and>
          height (bdata c) = h \<and> bid (bdata c) = Some j"
      proof (cases "h = height (bdata b)")
        case True
        then show ?thesis using j kept assms(2) i(1) by (simp add: jm_get_set)
      next
        case h: False
        then have "jm_get (db_heights db) h = Some j" using j kept by (simp add: jm_get_set)
        then show ?thesis using other assms(1) kept by (simp add: jm_get_set db_ok_def)
      qed
    qed
  qed
qed

lemma saveBlocks_ok:
  assumes "db_ok dec db" and "\<And>b. b \<in> set bs \<Longrightarrow> dec (enc b) = Inr b" and "saveBlocks enc bs db = (Inr u, db')"
  shows "db_ok dec db'"
  using assms
proof (induction bs arbitrary: db)
  case (Cons b bs)
  obtain t where t: "saveBlock enc b db = (Inr (), t)" "forEach (saveBlock enc) bs t = (Inr u, db')"
    using Cons.prems(3) by (auto simp: saveBlocks_def elim!: andThen_InrE)
  have "db_ok dec t" using saveBlock_ok [OF Cons.prems(1) _ t(1)] Cons.prems(2) by simp
  then show ?case using Cons.IH Cons.prems(2) t(2) by (simp add: saveBlocks_def)
qed (simp add: saveBlocks_def)

text \<open>A range query returns the stored blocks of the range, in ascending order of height.\<close>

lemma rangeBlocks:
  assumes "db_ok dec db"
  shows "\<exists>bs. findBlocksByHeightRange dec lo hi db = Inr bs \<and>
    map (\<lambda>b. height (bdata b)) bs = filter (\<lambda>h. jm_get (db_heights db) h \<noteq> None) [lo..hi]"
proof -
  define blk where "blk h = (SOME b. \<exists>bytes. bytesAt db h = Some bytes \<and> dec bytes = Inr b \<and> height (bdata b) = h)" for h
  have blk: "\<exists>bytes. bytesAt db h = Some bytes \<and> dec bytes = Inr (blk h) \<and> height (bdata (blk h)) = h"
    if known: "jm_get (db_heights db) h \<noteq> None" for h
  proof -
    obtain i where i: "jm_get (db_heights db) h = Some i" using known by blast
    then obtain bytes b where "jm_get (db_blocks db) i = Some bytes" "dec bytes = Inr b" "height (bdata b) = h"
      using db_okD [OF assms i] by blast
    then have "\<exists>b bytes. bytesAt db h = Some bytes \<and> dec bytes = Inr b \<and> height (bdata b) = h"
      using i by (simp add: bytesAt_def)
    then show ?thesis unfolding blk_def by (rule someI_ex)
  qed
  have dec: "mapE dec (catOptions (map (bytesAt db) hs)) =
      Inr (map blk (filter (\<lambda>h. jm_get (db_heights db) h \<noteq> None) hs))" for hs
  proof (induction hs)
    case (Cons h hs)
    show ?case
    proof (cases "jm_get (db_heights db) h")
      case None
      then show ?thesis using Cons by (simp add: bytesAt_def)
    next
      case (Some i)
      then show ?thesis using Cons blk [of h] by auto
    qed
  qed simp
  let ?bs = "map blk (filter (\<lambda>h. jm_get (db_heights db) h \<noteq> None) [lo..hi])"
  have hs: "map (\<lambda>b. height (bdata b)) ?bs = filter (\<lambda>h. jm_get (db_heights db) h \<noteq> None) [lo..hi]"
    using blk by (simp add: comp_def cong: map_cong) (rule map_idI, auto)
  moreover have "sorted (map (\<lambda>b. height (bdata b)) ?bs)"
    unfolding hs by (rule sorted_wrt_filter) simp
  ultimately show ?thesis
    by (simp add: findBlocksByHeightRange_def dec sorted_sort_id sort_key_id_if_sorted)
qed

text \<open>A saved round comes back ordered by public key, whatever order it was saved in.\<close>

lemma savedRound:
  assumes "saveRound rows db = (Inr u, db')" and "\<not> jm_has (db_rounds db) (rr_round (hd rows))"
    and "distinct (map rr_publicKey rows)" and "\<And>xs. mset (byBalance xs) = mset xs"
  shows "db_getRound byBalance (rr_round (hd rows)) db' = sort_key rr_publicKey rows"
proof -
  obtain row rest where rows: "rows = row # rest"
    using assms(1) by (cases rows) (simp_all add: saveRound_def)
  have "set (byBalance rows) = set rows" using assms(4) mset_eq_setD by blast
  then have "sort_key rr_publicKey (byBalance rows) = sort_key rr_publicKey rows"
    using assms(3,4) by (intro sort_key_inj_key_eq) (simp_all add: distinct_map)
  then show ?thesis
    using assms(1,2) by (auto simp: rows saveRound_def db_getRound_def andThen_def)
qed

lemma deleteRound_spec:
  "jm_get (db_rounds (snd (deleteRound r db))) k = (if k < r then jm_get (db_rounds db) k else None)"
proof -
  have "jm_get (filter (\<lambda>(k, _). k < r) m) k = (if k < r then jm_get m k else None)" for m :: "(int, round_row list) jsmap"
    by (induction m) (auto split: prod.splits)
  then show ?thesis by (simp add: deleteRound_def)
qed


end
