(* ===== verification/RoundState.thy ===== *)
theory RoundState
  imports Dpos Slots Database
begin

text \<open>
  The rounds of validators (packages/core-state/source/round-state.ts and dpos-previous-round.ts):
  which validators forge the current round and in which order, saving and deleting rounds, and
  going back to the previous round. A forging validator is a clone, hence a wallet value. The
  state a previous round is computed in is a clone of the repository; on the functional heap that
  is the heap itself, whose changes are dropped afterwards.
\<close>

section \<open>State\<close>

datatype round_event =
    RoundApplied
  | RoundMissed "string option"
  | ForgerMissing "string option"
  | TransactionApplied txdata
  | TransactionReverted txdata
  | BlockApplied blockdata
  | BlockReverted blockdata

record round_state =
  rs_dpos :: dpos
  rs_store :: store
  rs_db :: database
  rs_blocks :: "block list"
  rs_forging :: "wallet list"
  rs_events :: "round_event list"

text \<open>
  What the class is wired to: the handlers and mutators of the block state, the clock, the hash,
  and the block factory (\<open>re_fromBytes\<close>, \<open>re_fromData\<close>).
\<close>

record round_env =
  re_env :: env
  re_handlers :: "handler list"
  re_mutators :: "mutator list"
  re_slots :: slots_env
  re_sha256 :: "byte list \<Rightarrow> byte list"
  re_byBalance :: "round_row list \<Rightarrow> round_row list"
  re_fromBytes :: "byte list \<Rightarrow> error + block"
  re_fromData :: "blockview \<Rightarrow> error + block"

type_synonym 'a rprog = "(round_state, error, 'a) prog"

definition inDpos :: "'a dprog \<Rightarrow> 'a rprog" where
  "inDpos m = (\<lambda>s. case m (rs_dpos s) of (r, d) \<Rightarrow> (r, s\<lparr>rs_dpos := d\<rparr>))"

definition inWallets :: "'a wprog \<Rightarrow> 'a rprog" where
  "inWallets m = inDpos (onW m)"

definition inStore :: "'a sprog \<Rightarrow> 'a rprog" where
  "inStore m = (\<lambda>s. case m (rs_store s) of (r, d) \<Rightarrow> (r, s\<lparr>rs_store := d\<rparr>))"

definition inDb :: "'a dbprog \<Rightarrow> 'a rprog" where
  "inDb m = (\<lambda>s. case m (rs_db s) of (r, d) \<Rightarrow> (r, s\<lparr>rs_db := d\<rparr>))"

definition emitRound :: "round_event \<Rightarrow> unit rprog" where
  "emitRound e = modify (\<lambda>s. s\<lparr>rs_events := rs_events s @ [e]\<rparr>)"

definition theMilestones :: "round_state \<Rightarrow> milestone list" where
  "theMilestones s = (case milestones (st_config (rs_store s)) of None \<Rightarrow> [] | Some ms \<Rightarrow> ms)"

definition roundOf :: "int \<Rightarrow> roundInfo rprog" where
  "roundOf h = (\<lambda>s. (calculateRound (theMilestones s) h, s))"

text \<open>\<open>#getRound(height?)\<close>: a missing or zero height is that of the last block.\<close>

definition getRoundAt :: "int option \<Rightarrow> roundInfo rprog" where
  "getRoundAt h =
     (if truthyNum h then roundOf (the h)
      else andThen (inStore getLastBlock) (\<lambda>b. roundOf (height (bdata b))))"

section \<open>The order of the round\<close>

text \<open>\<open>Buffer.from\<close> of the digits of a round number.\<close>

definition asciiBytes :: "string \<Rightarrow> byte list" where
  "asciiBytes cs = map of_char cs"

definition swap :: "nat \<Rightarrow> nat \<Rightarrow> 'a list \<Rightarrow> 'a list" where
  "swap i j xs = xs[j := xs ! i, i := xs ! j]"

definition seedAt :: "byte list \<Rightarrow> nat \<Rightarrow> nat" where
  "seedAt seed x = (if x < length seed then unat (seed ! x) else 0)"

text \<open>The inner loop: four bytes of the seed, \<open>k\<close> of them left, moving the index along.\<close>

fun shuffleInner :: "byte list \<Rightarrow> nat \<Rightarrow> nat \<Rightarrow> 'a list \<Rightarrow> nat \<times> 'a list" where
  "shuffleInner seed 0 i xs = (i, xs)"
| "shuffleInner seed (Suc k) i xs =
     (if i < length xs
      then shuffleInner seed k (Suc i) (swap i (seedAt seed (3 - k) mod length xs) xs)
      else (i, xs))"

lemma length_swap [simp]: "length (swap i j xs) = length xs"
  by (simp add: swap_def)

lemma shuffleInner_mono: "i \<le> fst (shuffleInner seed k i xs) \<and> length (snd (shuffleInner seed k i xs)) = length xs"
proof (induction seed k i xs rule: shuffleInner.induct)
  case (2 seed k i xs)
  show ?case using "2.IH" by (cases "i < length xs") auto
qed simp

function shuffleLoop :: "(byte list \<Rightarrow> byte list) \<Rightarrow> byte list \<Rightarrow> nat \<Rightarrow> 'a list \<Rightarrow> 'a list" where
  "shuffleLoop sha seed i xs =
     (if i < length xs
      then shuffleLoop sha (sha seed) (Suc (fst (shuffleInner seed 4 i xs))) (snd (shuffleInner seed 4 i xs))
      else xs)"
  by pat_completeness auto
termination
proof (relation "measure (\<lambda>(_, _, i, xs). length xs - i)")
  fix sha seed i and xs :: "'a list"
  assume "i < length xs"
  then show "((sha, sha seed, Suc (fst (shuffleInner seed 4 i xs)), snd (shuffleInner seed 4 i xs)), sha, seed, i, xs)
      \<in> measure (\<lambda>(_, _, i, xs). length xs - i)"
    using shuffleInner_mono [of i seed 4 xs] by (simp add: diff_less_mono2)
qed simp

declare shuffleLoop.simps [simp del]

definition shuffleValidators :: "(byte list \<Rightarrow> byte list) \<Rightarrow> roundInfo \<Rightarrow> 'a list \<Rightarrow> 'a list" where
  "shuffleValidators sha i xs = shuffleLoop sha (sha (asciiBytes (decimal (ri_round i)))) 0 xs"

section \<open>Active validators\<close>

definition storedValidator :: "round_env \<Rightarrow> int \<Rightarrow> round_row \<Rightarrow> wallet rprog" where
  "storedValidator R rnd row =
     andThen (inWallets (liftE (e_address (re_env R) (rr_publicKey row)))) (\<lambda>a.
     andThen (inWallets (byKey (re_env R) (rr_publicKey row))) (\<lambda>q.
     andThen (inWallets (wal q)) (\<lambda>w.
     andThen (defined AssertionException (validatorAttr va_username w)) (\<lambda>username.
     ret ((newWallet a)\<lparr>wpublicKey := Some (rr_publicKey row), wvalidator := Some (noValidator
        \<lparr>va_round := Some rnd, va_username := Some username, va_voteBalance := Some (rr_balance row)\<rparr>)\<rparr>)))))"

fun mapProg :: "('a \<Rightarrow> ('s, 'e, 'b) prog) \<Rightarrow> 'a list \<Rightarrow> ('s, 'e, 'b list) prog" where
  "mapProg f [] = ret []"
| "mapProg f (x # xs) = andThen (f x) (\<lambda>y. andThen (mapProg f xs) (\<lambda>ys. ret (y # ys)))"

lemma keeps_mapProg [keeps_intros]: "(\<And>x. keeps P (f x)) \<Longrightarrow> keeps P (mapProg f xs)"
  by (induction xs) (auto intro: keeps_intros)

definition storedValidators :: "round_env \<Rightarrow> int \<Rightarrow> wallet list rprog" where
  "storedValidators R rnd =
     andThen (reads (\<lambda>s. db_getRound (re_byBalance R) rnd (rs_db s))) (mapProg (storedValidator R rnd))"

definition getActiveValidators :: "round_env \<Rightarrow> roundInfo option \<Rightarrow> wallet list option \<Rightarrow> wallet list rprog" where
  "getActiveValidators R ri vs =
     andThen (case ri of None \<Rightarrow> getRoundAt None | Some i \<Rightarrow> ret i) (\<lambda>i.
     andThen (reads rs_forging) (\<lambda>forging.
     andThen (case forging of [] \<Rightarrow> ret False
       | v # _ \<Rightarrow> andThen (defined AssertionException (validatorAttr va_round v)) (\<lambda>r. ret (r = ri_round i))) (\<lambda>current.
     if current then ret forging
     else andThen (case vs of None \<Rightarrow> storedValidators R (ri_round i) | Some ws \<Rightarrow> ret ws) (\<lambda>ws.
       ret (shuffleValidators (re_sha256 R) i ws)))))"

definition setForgingValidatorsOfRound :: "round_env \<Rightarrow> roundInfo \<Rightarrow> wallet list option \<Rightarrow> unit rprog" where
  "setForgingValidatorsOfRound R i vs =
     andThen (getActiveValidators R (Some i) vs) (\<lambda>ws. modify (\<lambda>s. s\<lparr>rs_forging := ws\<rparr>))"

section \<open>Missed blocks and rounds\<close>

text \<open>The clock reads the milestones and the height of the configuration.\<close>

definition clockOf :: "round_env \<Rightarrow> round_state \<Rightarrow> slots_env" where
  "clockOf R s = (re_slots R)\<lparr>se_milestones := theMilestones s, se_height := cheight (st_config (rs_store s))\<rparr>"

definition reportMissed :: "int \<Rightarrow> nat \<Rightarrow> unit rprog" where
  "reportMissed lastSlot i =
     andThen (reads rs_forging) (\<lambda>forging.
     let v = forging ! nat (jsMod (lastSlot + int i + 1) (int (length forging))) in
     andThen (defined AssertionException (validatorAttr va_username v)) (\<lambda>_.
     emitRound (ForgerMissing (wpublicKey v))))"

definition detectMissedBlocks :: "round_env \<Rightarrow> block \<Rightarrow> unit rprog" where
  "detectMissedBlocks R b =
     andThen (inStore getLastBlock) (\<lambda>l.
     if height (bdata l) = 1 then ret ()
     else andThen (\<lambda>s. (getSlotNumber (clockOf R s) (Some (timestamp (bdata l))) None, s)) (\<lambda>lastSlot.
       andThen (\<lambda>s. (getSlotNumber (clockOf R s) (Some (timestamp (bdata b))) None, s)) (\<lambda>currentSlot.
       andThen (reads (\<lambda>s. min (currentSlot - lastSlot - 1) (int (length (rs_forging s))))) (\<lambda>missed.
       forEach (reportMissed lastSlot) [0..<nat missed]))))"

definition reportMissedRound :: "round_env \<Rightarrow> wallet \<Rightarrow> unit rprog" where
  "reportMissedRound R v =
     andThen (reads (\<lambda>s. list_ex (\<lambda>b. Some (generatorPublicKey (bdata b)) = wpublicKey v) (rs_blocks s))) (\<lambda>produced.
     whenever (\<not> produced)
       (andThen (defined JsTypeError (wpublicKey v)) (\<lambda>k.
        andThen (inWallets (byKey (re_env R) k)) (\<lambda>q.
        andThen (inWallets (wal q)) (\<lambda>w.
        andThen (defined AssertionException (validatorAttr va_username w)) (\<lambda>_.
        emitRound (RoundMissed (wpublicKey w))))))))"

definition detectMissedRound :: "round_env \<Rightarrow> unit rprog" where
  "detectMissedRound R = andThen (reads rs_forging) (forEach (reportMissedRound R))"

section \<open>Starting a round\<close>

definition rowOf :: "wallet \<Rightarrow> error + round_row" where
  "rowOf w = (case (validatorAttr va_voteBalance w, wpublicKey w, validatorAttr va_round w) of
     (Some b, Some k, Some r) \<Rightarrow> Inr \<lparr>rr_balance = b, rr_publicKey = k, rr_round = r\<rparr>
   | _ \<Rightarrow> Inl AssertionException)"

definition walletsOf :: "nat list \<Rightarrow> round_state \<Rightarrow> wallet list" where
  "walletsOf rs s = map (objs (dp_wallets (rs_dpos s))) rs"

definition startRound :: "round_env \<Rightarrow> roundInfo \<Rightarrow> unit rprog" where
  "startRound R i =
     andThen (detectMissedRound R) (\<lambda>_.
     andThen (inDpos buildValidatorRanking) (\<lambda>_.
     andThen (inDpos (setValidatorsRound i)) (\<lambda>_.
     andThen (reads (\<lambda>s. walletsOf (dp_round (rs_dpos s)) s)) (\<lambda>ws.
     andThen (setForgingValidatorsOfRound R i (Some ws)) (\<lambda>_.
     andThen (liftE (mapE rowOf ws)) (\<lambda>rows.
     andThen (inDb (saveRound rows)) (\<lambda>_.
     andThen (modify (\<lambda>s. s\<lparr>rs_blocks := []\<rparr>)) (\<lambda>_.
     emitRound RoundApplied))))))))"

definition applyRound :: "round_env \<Rightarrow> int \<Rightarrow> unit rprog" where
  "applyRound R h =
     andThen (\<lambda>s. (if h = 1 then Inr True else isNewRound (theMilestones s) (h + 1), s)) (\<lambda>new.
     whenever new (andThen (getRoundAt (Some (h + 1))) (startRound R)))"

definition rs_applyBlock :: "round_env \<Rightarrow> block \<Rightarrow> unit rprog" where
  "rs_applyBlock R b =
     andThen (modify (\<lambda>s. s\<lparr>rs_blocks := rs_blocks s @ [b]\<rparr>)) (\<lambda>_. applyRound R (height (bdata b)))"

section \<open>Going back a round\<close>

text \<open>The blocks of the current round, from the state store and, where it is too short, the database.\<close>

definition getBlocksForRound :: "round_env \<Rightarrow> block list rprog" where
  "getBlocksForRound R =
     andThen (inStore getLastBlock) (\<lambda>l.
     andThen (getRoundAt (Some (height (bdata l)))) (\<lambda>i.
     let maxBlocks = height (bdata l) - ri_roundHeight i + 1 in
     andThen (reads (\<lambda>s. getLastBlocksByHeight (ri_roundHeight i) (Some (ri_roundHeight i + maxBlocks - 1)) False (rs_store s))) (\<lambda>bs.
     andThen (if int (length bs) = maxBlocks then ret bs
        else andThen (\<lambda>s. (getBlocks (re_fromBytes R) (ri_roundHeight i)
                (ri_roundHeight i + maxBlocks - int (length bs) - 1) (rs_db s), s)) (\<lambda>ds.
             ret (map (\<lambda>d. (d, None)) ds @ bs))) (\<lambda>all.
     andThen (throwIf (int (length all) \<noteq> maxBlocks) AssertionException) (\<lambda>_.
     liftE (mapE (re_fromData R) all))))))"

text \<open>
  The clone of the state with the round's blocks reverted, the genesis block ending the loop, and
  the ranking and the round rebuilt on it.
\<close>

fun revertBlocks :: "round_env \<Rightarrow> block list \<Rightarrow> unit cprog" where
  "revertBlocks R [] = ret ()"
| "revertBlocks R (b # bs) =
     (if height (bdata b) = 1 then ret ()
      else andThen (revertBlock (re_env R) (re_handlers R) (re_mutators R) b) (\<lambda>_. revertBlocks R bs))"

definition previousRoundState :: "round_env \<Rightarrow> block list \<Rightarrow> roundInfo \<Rightarrow> round_state \<Rightarrow> error + dpos" where
  "previousRoundState R bs i s =
     (case revertBlocks R (rev bs) \<lparr>ch_wallets = dp_wallets (rs_dpos s), ch_store = rs_store s\<rparr> of
        (Inl e, _) \<Rightarrow> Inl e
      | (Inr _, c) \<Rightarrow>
          (case andThen buildValidatorRanking (\<lambda>_. setValidatorsRound i) (newDpos (ch_wallets c)) of
             (Inl e, _) \<Rightarrow> Inl e
           | (Inr _, d) \<Rightarrow> Inr d))"

definition restoreRank :: "wallet \<Rightarrow> unit rprog" where
  "restoreRank v =
     andThen (defined AssertionException (validatorAttr va_username v)) (\<lambda>username.
     andThen (inWallets (findByIndex Chain Usernames username)) (\<lambda>q.
     andThen (defined AssertionException (validatorAttr va_rank v)) (\<lambda>rank.
     inWallets (updW q (setValidatorAttr (\<lambda>a. a\<lparr>va_rank := Some rank\<rparr>))))))"

definition calcPreviousActiveValidators :: "round_env \<Rightarrow> roundInfo \<Rightarrow> block list \<Rightarrow> wallet list rprog" where
  "calcPreviousActiveValidators R i bs =
     andThen (\<lambda>s. (previousRoundState R bs i s, s)) (\<lambda>d.
     let h = objs (dp_wallets d) in
     andThen (forEach (\<lambda>r. restoreRank (h r)) (dp_active d)) (\<lambda>_.
     ret (map h (dp_round d))))"

definition revertRound :: "round_env \<Rightarrow> int \<Rightarrow> unit rprog" where
  "revertRound R h =
     andThen (getRoundAt (Some h)) (\<lambda>i.
     whenever (ri_nextRound i = ri_round i + 1)
       (andThen (reads rs_blocks) (\<lambda>bs.
        andThen (calcPreviousActiveValidators R i bs) (\<lambda>ws.
        andThen (setForgingValidatorsOfRound R i (Some ws)) (\<lambda>_.
        inDb (deleteRound (ri_nextRound i)))))))"

definition rs_revertBlock :: "round_env \<Rightarrow> block \<Rightarrow> unit rprog" where
  "rs_revertBlock R b =
     andThen (reads rs_blocks) (\<lambda>bs0.
     andThen (if bs0 = [] then andThen (getBlocksForRound R) (\<lambda>bs. modify (\<lambda>s. s\<lparr>rs_blocks := bs\<rparr>)) else ret ()) (\<lambda>_.
     andThen (reads rs_blocks) (\<lambda>bs.
     andThen (throwIf (bs = []) JsTypeError) (\<lambda>_.
     andThen (throwIf (bid (bdata (last bs)) \<noteq> bid (bdata b)) AssertionException) (\<lambda>_.
     andThen (revertRound R (height (bdata b))) (\<lambda>_.
     modify (\<lambda>s. s\<lparr>rs_blocks := butlast (rs_blocks s)\<rparr>)))))))"

definition restore :: "round_env \<Rightarrow> unit rprog" where
  "restore R =
     andThen (inStore getLastBlock) (\<lambda>l.
     andThen (getRoundAt (Some (height (bdata l)))) (\<lambda>i.
     andThen (getBlocksForRound R) (\<lambda>bs.
     andThen (modify (\<lambda>s. s\<lparr>rs_blocks := bs\<rparr>)) (\<lambda>_.
     andThen (setForgingValidatorsOfRound R i None) (\<lambda>_.
     andThen (inDb (deleteRound (ri_round i + 1))) (\<lambda>_.
     applyRound R (height (bdata l))))))))"

section \<open>The shuffle permutes\<close>

lemma mset_shuffleInner: "i \<le> length xs \<Longrightarrow> mset (snd (shuffleInner seed k i xs)) = mset xs"
proof (induction seed k i xs rule: shuffleInner.induct)
  case (2 seed k i xs)
  show ?case
  proof (cases "i < length xs")
    case True
    let ?j = "seedAt seed (3 - k) mod length xs"
    have "?j < length xs" using True by (intro mod_less_divisor) auto
    then have "mset (swap i ?j xs) = mset xs" using True by (simp add: swap_def mset_swap)
    then show ?thesis using "2.IH" True by simp
  qed simp
qed simp

lemma mset_shuffleLoop: "mset (shuffleLoop sha seed i xs) = mset xs"
proof (induction sha seed i xs rule: shuffleLoop.induct)
  case (1 sha seed i xs)
  show ?case
    using "1.IH" mset_shuffleInner [of i xs seed 4] by (subst shuffleLoop.simps) simp
qed

lemma mset_shuffle: "mset (shuffleValidators sha i xs) = mset xs"
  by (simp add: shuffleValidators_def mset_shuffleLoop)

lemma length_shuffle [simp]: "length (shuffleValidators sha i xs) = length xs"
  using mset_eq_length [OF mset_shuffle] .

section \<open>The start of a round\<close>

lemma rankKey_round: "rankKey (setValidatorAttr (\<lambda>v. v\<lparr>va_round := x\<rparr>) w) = rankKey w"
  by (cases "wvalidator w")
    (simp_all add: rankKey_def pkOf_def setValidatorAttr_def voteBalanceOf_def validatorAttr_def noValidator_def)

lemma inDpos_Inr: "inDpos m s = (Inr x, s') \<Longrightarrow> \<exists>d. m (rs_dpos s) = (Inr x, d) \<and> s' = s\<lparr>rs_dpos := d\<rparr>"
  by (auto simp: inDpos_def split: prod.splits)

lemma inDb_Inr: "inDb m s = (Inr x, s') \<Longrightarrow> \<exists>d. m (rs_db s) = (Inr x, d) \<and> s' = s\<lparr>rs_db := d\<rparr>"
  by (auto simp: inDb_def split: prod.splits)

lemma keeps_inDpos [keeps_intros]: "(\<And>s d. P (s\<lparr>rs_dpos := d\<rparr>) = P s) \<Longrightarrow> keeps P (inDpos m)"
  by (rule keepsI) (auto simp: inDpos_def split: prod.splits)

lemma keeps_detectMissedRound:
  assumes "\<And>s d. P (s\<lparr>rs_dpos := d\<rparr>) = P s" and "\<And>s e. P (s\<lparr>rs_events := e\<rparr>) = P s"
  shows "keeps P (detectMissedRound R)"
  unfolding detectMissedRound_def reportMissedRound_def emitRound_def inWallets_def
  by (intro keeps_andThen keeps_reads keeps_forEach keeps_whenever keeps_defined keeps_inDpos keeps_modify)
    (simp_all add: assms)

text \<open>The forging validators are those of an earlier round (or there are none yet).\<close>

definition staleForgers :: "roundInfo \<Rightarrow> round_state \<Rightarrow> bool" where
  "staleForgers i s \<longleftrightarrow> (case rs_forging s of [] \<Rightarrow> True | v # _ \<Rightarrow> validatorAttr va_round v \<noteq> Some (ri_round i))"

lemma setForging_given:
  assumes "staleForgers i s" and "setForgingValidatorsOfRound R i (Some ws) s = (Inr u, s')"
  shows "s' = s\<lparr>rs_forging := shuffleValidators (re_sha256 R) i ws\<rparr>"
proof (cases "rs_forging s")
  case Nil
  then show ?thesis using assms(2)
    by (simp add: setForgingValidatorsOfRound_def getActiveValidators_def andThen_def)
next
  case (Cons v vs)
  then show ?thesis using assms
    by (cases "validatorAttr va_round v")
      (auto simp: setForgingValidatorsOfRound_def getActiveValidators_def andThen_def staleForgers_def)
qed

lemma startRound_Inr:
  assumes "startRound R i s = (Inr u, s')" and "staleForgers i s" and "0 \<le> ri_maxValidators i"
  shows "rs_blocks s' = []"
    and "mset (rs_forging s') = mset (walletsOf (dp_round (rs_dpos s')) s')"
    and "length (rs_forging s') = nat (ri_maxValidators i)"
    and "dp_round (rs_dpos s') = take (nat (ri_maxValidators i)) (dp_active (rs_dpos s'))"
    and "dp_info (rs_dpos s') = Some i"
    and "sorted (map rankKey (walletsOf (dp_active (rs_dpos s')) s'))"
proof -
  obtain s1 s2 s3 s4 rows s5 where s1: "detectMissedRound R s = (Inr (), s1)"
      and s2: "inDpos buildValidatorRanking s1 = (Inr (), s2)"
      and s3: "inDpos (setValidatorsRound i) s2 = (Inr (), s3)"
      and s4: "setForgingValidatorsOfRound R i (Some (walletsOf (dp_round (rs_dpos s3)) s3)) s3 = (Inr (), s4)"
      and s5: "inDb (saveRound rows) s4 = (Inr (), s5)"
      and s': "s' = s5\<lparr>rs_blocks := [], rs_events := rs_events s5 @ [RoundApplied]\<rparr>"
    using assms(1) unfolding startRound_def emitRound_def by (auto elim!: andThen_InrE)
  have "keeps (\<lambda>t. rs_forging t = rs_forging s) (detectMissedRound R)"
    by (rule keeps_detectMissedRound) simp_all
  then have "rs_forging s1 = rs_forging s" using s1 by (auto dest: keepsD)
  moreover obtain d2 where d2: "buildValidatorRanking (rs_dpos s1) = (Inr (), d2)" "s2 = s1\<lparr>rs_dpos := d2\<rparr>"
    using inDpos_Inr [OF s2] by blast
  moreover obtain d3 where d3: "setValidatorsRound i d2 = (Inr (), d3)" "s3 = s2\<lparr>rs_dpos := d3\<rparr>"
    using inDpos_Inr [OF s3] d2(2) by auto
  ultimately have "staleForgers i s3" using assms(2) by (simp add: staleForgers_def)
  from setForging_given [OF this s4]
  have s4': "s4 = s3\<lparr>rs_forging := shuffleValidators (re_sha256 R) i (walletsOf (dp_round (rs_dpos s3)) s3)\<rparr>" .
  obtain db where db: "s5 = s4\<lparr>rs_db := db\<rparr>" using inDb_Inr [OF s5] by blast
  note fin = s' db s4'
  have enough: "\<not> int (length (dp_active d2)) < ri_maxValidators i"
    using d3(1) by (auto simp: setValidatorsRound_spec split: if_splits)
  have round: "dp_round d3 = take (nat (ri_maxValidators i)) (dp_active d3)" "dp_info d3 = Some i"
      "dp_active d3 = dp_active d2"
    using d3(1) enough by (auto simp: setValidatorsRound_spec Let_def setHeap_def)
  show "rs_blocks s' = []" by (simp add: fin)
  show "mset (rs_forging s') = mset (walletsOf (dp_round (rs_dpos s')) s')"
    by (simp add: fin mset_shuffle walletsOf_def)
  have "length (rs_forging s') = length (dp_round d3)"
    by (simp add: fin walletsOf_def d3(2))
  then show "length (rs_forging s') = nat (ri_maxValidators i)"
    using enough assms(3) round by simp
  show "dp_round (rs_dpos s') = take (nat (ri_maxValidators i)) (dp_active (rs_dpos s'))"
      "dp_info (rs_dpos s') = Some i"
    using round by (simp_all add: fin d3(2))
  have "rankKey (objs (dp_wallets d3) r) = rankKey (objs (dp_wallets d2) r)" for r
    using d3(1) enough by (auto simp: setValidatorsRound_spec Let_def rankKey_round setHeap_def)
  then show "sorted (map rankKey (walletsOf (dp_active (rs_dpos s')) s'))"
    using ranking_spec(3) [OF d2(1)] round(3) by (simp add: fin d3(2) walletsOf_def comp_def)
qed


end
