(* ===== verification/Interaction.thy ===== *)
theory Interaction
  imports RoundState
begin

text \<open>
  How the state, the rounds and the database work together (packages/core-state/source/
  database-interactions.ts), and the steps the state is rebuilt with on boot (state-builder.ts);
  the loop that runs them over the stored blocks is in \<open>Sync\<close>.
\<close>

section \<open>Rebuilding the state\<close>

definition buildBlockRewards :: "env \<Rightarrow> blockdata \<Rightarrow> unit wprog" where
  "buildBlockRewards E b =
     andThen (byKey E (generatorPublicKey b)) (\<lambda>r. updW r (increaseBalance (reward b)))"

definition buildSentTransaction :: "env \<Rightarrow> txdata \<Rightarrow> unit wprog" where
  "buildSentTransaction E d =
     andThen (defined JsTypeError (senderPublicKey d)) (\<lambda>k.
     andThen (byKey E k) (\<lambda>r.
     andThen (defined JsTypeError (nonce d)) (\<lambda>n.
     andThen (updW r (setNonce n)) (\<lambda>_.
     updW r (decreaseBalance (amount d + fee d))))))"

definition buildSentTransactions :: "env \<Rightarrow> transaction list \<Rightarrow> unit wprog" where
  "buildSentTransactions E ts = forEach (\<lambda>t. buildSentTransaction E (data t)) ts"

definition consistencyError :: "string list \<Rightarrow> wallet \<Rightarrow> error option" where
  "consistencyError genesisKeys w =
     (if wbalance w < 0 \<and> \<not> (case wpublicKey w of None \<Rightarrow> False | Some k \<Rightarrow> k \<in> set genesisKeys)
        then Some (PlainError ''Non-genesis wallet with negative balance.'')
      else if (case validatorAttr va_voteBalance w of None \<Rightarrow> False | Some b \<Rightarrow> b < 0)
        then Some (PlainError ''Wallet with negative vote balance.'')
      else None)"

definition verifyWallet :: "string list \<Rightarrow> nat \<Rightarrow> unit wprog" where
  "verifyWallet genesisKeys r =
     andThen (wal r) (\<lambda>w. case consistencyError genesisKeys w of None \<Rightarrow> ret () | Some e \<Rightarrow> throw e)"

definition verifyWalletsConsistency :: "string list \<Rightarrow> unit wprog" where
  "verifyWalletsConsistency genesisKeys =
     andThen (allByIndex Chain Addresses) (forEach (verifyWallet genesisKeys))"

lemma verifyWallets_iff:
  "forEach (verifyWallet ks) rs s = (Inr (), s) \<longleftrightarrow> (\<forall>r \<in> set rs. consistencyError ks (objs s r) = None)"
proof (induction rs)
  case (Cons r rs)
  then show ?case
    by (cases "consistencyError ks (objs s r)") (simp_all add: verifyWallet_def andThen_def)
qed simp

text \<open>The fees of a block: credited when the block is applied, not when the state is rebuilt.\<close>

lemma reward_gap:
  assumes "lookup s Chain PublicKeys (generatorPublicKey b) = Some r" and "wvote (objs s r) = None"
  shows "wbalance (objs (snd (balance_apply E r b s)) r) =
    wbalance (objs (snd (buildBlockRewards E b s)) r) + totalFee b"
  using assms by (simp add: buildBlockRewards_def addToVoteBalance_def andThen_def byKey_known wallet_ops)

section \<open>Applying and reverting blocks\<close>

definition inChain :: "'a cprog \<Rightarrow> 'a rprog" where
  "inChain m = (\<lambda>s. case m \<lparr>ch_wallets = dp_wallets (rs_dpos s), ch_store = rs_store s\<rparr> of
     (r, c) \<Rightarrow> (r, s\<lparr>rs_dpos := (rs_dpos s)\<lparr>dp_wallets := ch_wallets c\<rparr>, rs_store := ch_store c\<rparr>))"

definition emitTransactionEvents :: "round_env \<Rightarrow> transaction \<Rightarrow> unit rprog" where
  "emitTransactionEvents R t =
     andThen (emitRound (TransactionApplied (data t))) (\<lambda>_.
     andThen (liftE (activatedHandlerForData (re_handlers R) (data t))) (\<lambda>_. ret ()))"

definition di_applyBlock :: "round_env \<Rightarrow> block \<Rightarrow> unit rprog" where
  "di_applyBlock R b =
     andThen (detectMissedBlocks R b) (\<lambda>_.
     andThen (inChain (applyBlock (re_env R) (re_handlers R) (re_mutators R) b)) (\<lambda>_.
     andThen (rs_applyBlock R b) (\<lambda>_.
     andThen (forEach (emitTransactionEvents R) (transactions b)) (\<lambda>_.
     emitRound (BlockApplied (bdata b))))))"

definition di_revertBlock :: "round_env \<Rightarrow> block \<Rightarrow> unit rprog" where
  "di_revertBlock R b =
     andThen (rs_revertBlock R b) (\<lambda>_.
     andThen (inChain (revertBlock (re_env R) (re_handlers R) (re_mutators R) b)) (\<lambda>_.
     andThen (forEach (\<lambda>t. emitRound (TransactionReverted (data t))) (rev (transactions b))) (\<lambda>_.
     emitRound (BlockReverted (bdata b)))))"

section \<open>Starting the node\<close>

record node =
  nd_round :: round_state
  nd_blockStore :: blockStore
  nd_txStore :: "(string, txdata) capped_map"

type_synonym 'a nprog = "(node, error, 'a) prog"

definition inRound :: "'a rprog \<Rightarrow> 'a nprog" where
  "inRound m = (\<lambda>s. case m (nd_round s) of (r, d) \<Rightarrow> (r, s\<lparr>nd_round := d\<rparr>))"

definition createGenesisBlock :: "(block \<Rightarrow> byte list) \<Rightarrow> block nprog" where
  "createGenesisBlock enc =
     andThen (inRound (inStore getGenesisBlock)) (\<lambda>g.
     andThen (inRound (inDb (saveBlocks enc [g]))) (\<lambda>_. ret g))"

text \<open>\<open>Math.ceil(86_400 / blockTime)\<close> of a positive block time.\<close>

definition blocksPerDay :: "int \<Rightarrow> int" where
  "blocksPerDay blockTime = - ((- 86400) div blockTime)"

definition configureState :: "block \<Rightarrow> unit nprog" where
  "configureState b =
     andThen (inRound (inStore (setLastBlock b))) (\<lambda>_.
     andThen (inRound (inStore (\<lambda>st. case getMilestone None (st_config st) of (r, c) \<Rightarrow> (r, st\<lparr>st_config := c\<rparr>)))) (\<lambda>m.
     andThen (defined JsTypeError (m_blockTime m)) (\<lambda>bt.
     andThen (defined JsTypeError (m_maxTransactions m)) (\<lambda>mt.
     modify (\<lambda>s. s\<lparr>nd_blockStore := bs_resize (blocksPerDay bt) (nd_blockStore s),
        nd_txStore := cm_resize (blocksPerDay bt * mt) (nd_txStore s)\<rparr>)))))"

definition initializeLastBlock :: "round_env \<Rightarrow> (block \<Rightarrow> byte list) \<Rightarrow> unit nprog" where
  "initializeLastBlock R enc =
     andThen (reads (\<lambda>s. db_getLastBlock (re_fromBytes R) (rs_db (nd_round s)))) (\<lambda>l.
     andThen (inRound (inStore (modify (\<lambda>st. st\<lparr>st_config :=
        setHeight (case l of None \<Rightarrow> 1 | Some b \<Rightarrow> height (bdata b)) (st_config st)\<rparr>)))) (\<lambda>_.
     andThen (case l of None \<Rightarrow> createGenesisBlock enc | Some b \<Rightarrow> ret b) configureState))"

section \<open>The composition\<close>

lemma inChain_Inr: "inChain m s = (Inr x, s') \<Longrightarrow>
  \<exists>c. m \<lparr>ch_wallets = dp_wallets (rs_dpos s), ch_store = rs_store s\<rparr> = (Inr x, c) \<and>
    s' = s\<lparr>rs_dpos := (rs_dpos s)\<lparr>dp_wallets := ch_wallets c\<rparr>, rs_store := ch_store c\<rparr>"
  by (auto simp: inChain_def split: prod.splits)

lemma keeps_inDb [keeps_intros]: "(\<And>s d. P (s\<lparr>rs_db := d\<rparr>) = P s) \<Longrightarrow> keeps P (inDb m)"
  by (rule keepsI) (auto simp: inDb_def split: prod.splits)

lemma keeps_look [keeps_intros]: "keeps P (\<lambda>s. (f s, s))"
  by (rule keepsI) simp

lemma keeps_if [keeps_intros]: "keeps P m \<Longrightarrow> keeps P n \<Longrightarrow> keeps P (if b then m else n)"
  by simp

lemma keeps_option [keeps_intros]:
  "keeps P m \<Longrightarrow> (\<And>x. keeps P (f x)) \<Longrightarrow> keeps P (case v of None \<Rightarrow> m | Some x \<Rightarrow> f x)"
  by (cases v) simp_all

lemma keeps_list [keeps_intros]:
  "keeps P m \<Longrightarrow> (\<And>x xs. keeps P (f x xs)) \<Longrightarrow> keeps P (case v of [] \<Rightarrow> m | x # xs \<Rightarrow> f x xs)"
  by (cases v) simp_all

lemma keeps_let [keeps_intros]: "keeps P (f x) \<Longrightarrow> keeps P (let y = x in f y)"
  by simp

text \<open>Reading the last block does not change the store, and no step of the rounds does.\<close>

lemma getLastBlock_same: "getLastBlock st = (r, st') \<Longrightarrow> st' = st"
  by (auto simp: getLastBlock_def andThen_def defined_def split: option.splits)

lemma keeps_getLastBlock [keeps_intros]: "keeps P (inStore getLastBlock)"
proof (rule keepsI)
  fix s :: round_state
  assume "P s"
  then show "P (snd (inStore getLastBlock s))"
    by (cases "getLastBlock (rs_store s)") (auto simp: inStore_def dest: getLastBlock_same)
qed

text \<open>A property of the round state that only the store can change.\<close>

definition storeOnly :: "(round_state \<Rightarrow> bool) \<Rightarrow> bool" where
  "storeOnly P \<longleftrightarrow> (\<forall>s d db bs ws es. P (s\<lparr>rs_dpos := d\<rparr>) = P s \<and> P (s\<lparr>rs_db := db\<rparr>) = P s \<and>
     P (s\<lparr>rs_blocks := bs\<rparr>) = P s \<and> P (s\<lparr>rs_forging := ws\<rparr>) = P s \<and> P (s\<lparr>rs_events := es\<rparr>) = P s)"

lemma keeps_startRound:
  assumes "storeOnly P" shows "keeps P (startRound R i)"
  using assms unfolding storeOnly_def startRound_def setForgingValidatorsOfRound_def getActiveValidators_def
    storedValidators_def storedValidator_def inWallets_def getRoundAt_def roundOf_def emitRound_def
  by (intro keeps_intros keeps_detectMissedRound) simp_all

lemma keeps_rs_applyBlock:
  assumes "storeOnly P" shows "keeps P (rs_applyBlock R b)"
  using assms unfolding rs_applyBlock_def applyRound_def getRoundAt_def roundOf_def
  by (intro keeps_intros keeps_startRound) (simp_all add: storeOnly_def)

lemma keeps_detectMissedBlocks:
  assumes "\<And>s es. P (s\<lparr>rs_events := es\<rparr>) = P s"
  shows "keeps P (detectMissedBlocks R b)"
  using assms unfolding detectMissedBlocks_def reportMissed_def emitRound_def
  by (intro keeps_intros) simp_all

lemma keeps_emit:
  assumes "\<And>s es. P (s\<lparr>rs_events := es\<rparr>) = P s"
  shows "keeps P (emitRound e)" "keeps P (emitTransactionEvents R t)"
  using assms unfolding emitTransactionEvents_def emitRound_def by (intro keeps_intros; simp)+

text \<open>Whether the round ends with a block of this height.\<close>

definition roundEnds :: "milestone list \<Rightarrow> int \<Rightarrow> bool" where
  "roundEnds ms h \<longleftrightarrow> h = 1 \<or> isNewRound ms (h + 1) = Inr True"

lemma startRound_blocks:
  assumes "startRound R i s = (Inr u, s')" shows "rs_blocks s' = []"
  using assms unfolding startRound_def emitRound_def by (auto elim!: andThen_InrE)

lemma rs_applyBlock_Inr:
  assumes "rs_applyBlock R b s = (Inr u, s')"
  shows "rs_store s' = rs_store s \<and> rs_blocks s' =
    (if roundEnds (theMilestones s) (height (bdata b)) then [] else rs_blocks s @ [b])"
proof -
  let ?h = "height (bdata b)" and ?s = "s\<lparr>rs_blocks := rs_blocks s @ [b]\<rparr>"
  have "keeps (\<lambda>t. rs_store t = rs_store s) (rs_applyBlock R b)"
    by (rule keeps_rs_applyBlock) (simp add: storeOnly_def)
  then have store: "rs_store s' = rs_store s" using assms by (auto dest: keepsD)
  have run: "applyRound R ?h ?s = (Inr u, s')" using assms by (simp add: rs_applyBlock_def)
  obtain new where new: "(if ?h = 1 then Inr True else isNewRound (theMilestones ?s) (?h + 1)) = Inr new"
      and rest: "whenever new (andThen (getRoundAt (Some (?h + 1))) (startRound R)) ?s = (Inr u, s')"
    using run unfolding applyRound_def by (auto elim!: andThen_InrE)
  have same: "theMilestones ?s = theMilestones s" by (simp add: theMilestones_def)
  show ?thesis
  proof (cases new)
    case True
    then have "roundEnds (theMilestones s) ?h" using new same by (auto simp: roundEnds_def split: if_splits)
    moreover have "rs_blocks s' = []"
      using rest True by (auto elim!: andThen_InrE dest: startRound_blocks)
    ultimately show ?thesis using store by simp
  next
    case False
    then have "\<not> roundEnds (theMilestones s) ?h" using new same by (auto simp: roundEnds_def split: if_splits)
    then show ?thesis using rest False store by auto
  qed
qed

text \<open>A block accepted by the state: every component agrees on it.\<close>

lemma di_applyBlock_Inr:
  assumes "repo_ok (dp_wallets (rs_dpos s))" and "store_ok (rs_store s)" and "di_applyBlock R b s = (Inr u, s')"
  shows "store_ok (rs_store s') \<and> lastOf (st_lastBlocks (rs_store s')) = Some b \<and>
    cheight (st_config (rs_store s')) = Some (height (bdata b)) \<and>
    rs_blocks s' = (if roundEnds (theMilestones s') (height (bdata b)) then [] else rs_blocks s @ [b])"
proof -
  obtain s1 s2 s3 s4 where s1: "detectMissedBlocks R b s = (Inr (), s1)"
      and s2: "inChain (applyBlock (re_env R) (re_handlers R) (re_mutators R) b) s1 = (Inr (), s2)"
      and s3: "rs_applyBlock R b s2 = (Inr (), s3)"
      and s4: "forEach (emitTransactionEvents R) (transactions b) s3 = (Inr (), s4)"
      and s': "emitRound (BlockApplied (bdata b)) s4 = (Inr u, s')"
    using assms(3) unfolding di_applyBlock_def by (auto elim!: andThen_InrE)
  have "keeps (\<lambda>t. rs_dpos t = rs_dpos s \<and> rs_store t = rs_store s \<and> rs_blocks t = rs_blocks s) (detectMissedBlocks R b)"
    by (rule keeps_detectMissedBlocks) simp
  then have same1: "rs_dpos s1 = rs_dpos s" "rs_store s1 = rs_store s" "rs_blocks s1 = rs_blocks s"
    using s1 by (auto dest: keepsD)
  obtain c where c: "applyBlock (re_env R) (re_handlers R) (re_mutators R) b
        \<lparr>ch_wallets = dp_wallets (rs_dpos s), ch_store = rs_store s\<rparr> = (Inr (), c)"
      and s2': "rs_store s2 = ch_store c" "rs_blocks s2 = rs_blocks s"
    using inChain_Inr [OF s2] same1 by auto
  note applied = applyBlock_Inr [OF _ _ c]
  have "keeps (\<lambda>t. rs_store t = rs_store s3 \<and> rs_blocks t = rs_blocks s3) (forEach (emitTransactionEvents R) (transactions b))"
    by (intro keeps_forEach keeps_emit) simp
  then have "rs_store s4 = rs_store s3 \<and> rs_blocks s4 = rs_blocks s3" using s4 by (auto dest: keepsD)
  then have fin: "rs_store s' = rs_store s3" "rs_blocks s' = rs_blocks s3"
    using s' by (auto simp: emitRound_def)
  show ?thesis
    using rs_applyBlock_Inr [OF s3] applied assms(1,2) s2' by (simp add: fin theMilestones_def)
qed


end
