(* ===== verification/Mempool.thy ===== *)
theory Mempool
  imports Types
begin

text \<open>
  The memory side of the transaction pool (packages/core-transaction-pool/source): the state of
  one sender (sender-state.ts), its queue (sender-mempool.ts), the map of queues (mempool.ts),
  expiry (expiration-service.ts) and the ordered queries (query.ts). Transaction handlers, which
  each sender state runs on a wallet repository of its own, are fields of an environment record,
  over an arbitrary type of wallet states; so are the configuration and the last height. The
  locks serialise the operations on one queue, so an operation is one step and the counter of
  running operations is 0 between steps. Events and log lines are left out, but not the address
  computed for a log line: it may throw.
\<close>

section \<open>Environment\<close>

record ('h, 'w) pool_env =
  pe_maxTransactionBytes :: int
  pe_maxTransactionsPerSender :: int
  pe_maxTransactionsInPool :: int
  pe_maxTransactionAge :: int
  pe_allowedSenders :: "string list"
  pe_network :: "int option"
  pe_lastHeight :: int
  pe_address :: "string \<Rightarrow> error + string"
  pe_wallets :: 'w
  pe_handler :: "txdata \<Rightarrow> error + 'h"
  pe_verify :: "'h \<Rightarrow> transaction \<Rightarrow> ('w, error, bool) prog"
  pe_canEnter :: "'h \<Rightarrow> transaction \<Rightarrow> ('w, error, unit) prog"
  pe_apply :: "'h \<Rightarrow> transaction \<Rightarrow> ('w, error, unit) prog"
  pe_revert :: "'h \<Rightarrow> transaction \<Rightarrow> ('w, error, unit) prog"
  pe_fee :: "transaction \<Rightarrow> error + unit"
  pe_fromBytes :: "byte list \<Rightarrow> error + transaction"

section \<open>Expiration (expiration-service.ts)\<close>

definition canExpire :: "transaction \<Rightarrow> bool" where
  "canExpire t = truthyNum (expiration (data t))"

definition getExpirationHeight :: "transaction \<Rightarrow> error + int" where
  "getExpirationHeight t =
     (case expiration (data t) of None \<Rightarrow> Inl AssertionException | Some h \<Rightarrow> Inr h)"

definition isExpired :: "int \<Rightarrow> transaction \<Rightarrow> error + bool" where
  "isExpired lastHeight t =
     (if canExpire t
      then (case getExpirationHeight t of Inl e \<Rightarrow> Inl e | Inr h \<Rightarrow> Inr (h \<le> lastHeight + 1))
      else Inr False)"

lemma isExpired_total:
  "isExpired n t = Inr (canExpire t \<and> the (expiration (data t)) \<le> n + 1)"
  by (cases "expiration (data t)") (simp_all add: isExpired_def canExpire_def getExpirationHeight_def)

section \<open>Sender state (sender-state.ts)\<close>

record 'w sender_state =
  ss_corrupt :: bool
  ss_wallets :: 'w

definition newSenderState :: "('h, 'w) pool_env \<Rightarrow> 'w sender_state" where
  "newSenderState E = \<lparr>ss_corrupt = False, ss_wallets = pe_wallets E\<rparr>"

abbreviation onSenderWallets :: "('w, 'e, 'a) prog \<Rightarrow> ('w sender_state, 'e, 'a) prog" where
  "onSenderWallets m \<equiv> within ss_wallets (\<lambda>w s. s\<lparr>ss_wallets := w\<rparr>) m"

definition ss_apply :: "('h, 'w) pool_env \<Rightarrow> transaction \<Rightarrow> ('w sender_state, error, unit) prog" where
  "ss_apply E t =
     andThen (throwIf (int (length (serialized t)) > pe_maxTransactionBytes E)
        (TransactionExceedsMaximumByteSizeError (pe_maxTransactionBytes E))) (\<lambda>_.
     andThen (throwIf (truthyNum (network (data t)) \<and> network (data t) \<noteq> pe_network E)
        (TransactionFromWrongNetworkError (pe_network E))) (\<lambda>_.
     andThen (liftE (isExpired (pe_lastHeight E) t)) (\<lambda>expired.
     andThen (whenever expired
        (andThen (liftE (getExpirationHeight t)) (\<lambda>h. throw (TransactionHasExpiredError h)))) (\<lambda>_.
     andThen (liftE (pe_handler E (data t))) (\<lambda>h.
     andThen (onSenderWallets (pe_verify E h t)) (\<lambda>ok.
     if ok then
       andThen (reads ss_corrupt) (\<lambda>corrupt.
       andThen (throwIf corrupt RetryTransactionError) (\<lambda>_.
       catching (onSenderWallets (andThen (pe_canEnter E h t) (\<lambda>_. pe_apply E h t)))
         (\<lambda>e. throw (TransactionFailedToApplyError e))))
     else throw TransactionFailedToVerifyError))))))"

definition ss_revert :: "('h, 'w) pool_env \<Rightarrow> transaction \<Rightarrow> ('w sender_state, error, unit) prog" where
  "ss_revert E t =
     catching (andThen (liftE (pe_handler E (data t))) (\<lambda>h. onSenderWallets (pe_revert E h t)))
       (\<lambda>e. andThen (modify (\<lambda>s. s\<lparr>ss_corrupt := True\<rparr>)) (\<lambda>_. throw e))"

text \<open>A rejection is a pool error, unless the handler lookup or the verification throws.\<close>

lemma onWallets_corrupt: "onSenderWallets m s = (r, s') \<Longrightarrow> ss_corrupt s' = ss_corrupt s"
  by (auto simp: within_def split: prod.splits)

lemma ss_apply_Inr:
  assumes "ss_apply E t s = (Inr u, s')"
  obtains h w1 w2 where "int (length (serialized t)) \<le> pe_maxTransactionBytes E"
    and "truthyNum (network (data t)) \<longrightarrow> network (data t) = pe_network E"
    and "isExpired (pe_lastHeight E) t = Inr False" and "pe_handler E (data t) = Inr h"
    and "pe_verify E h t (ss_wallets s) = (Inr True, w1)" and "\<not> ss_corrupt s"
    and "pe_canEnter E h t w1 = (Inr (), w2)" and "pe_apply E h t w2 = (Inr (), ss_wallets s')"
    and "\<not> ss_corrupt s'"
  using assms unfolding ss_apply_def
  by (auto elim!: andThen_InrE simp: within_def catching_def isExpired_total liftE_def
      split: prod.splits sum.splits if_splits)

text \<open>Corruption is set by a failed revert and never cleared.\<close>

lemma ss_apply_corrupt: "ss_apply E t s = (r, s') \<Longrightarrow> ss_corrupt s' = ss_corrupt s"
  unfolding ss_apply_def
  by (auto simp: andThen_def within_def catching_def liftE_def
      split: prod.splits sum.splits if_splits)

lemma ss_revert_corrupt:
  "ss_revert E t s = (r, s') \<Longrightarrow> ss_corrupt s' \<longleftrightarrow> ss_corrupt s \<or> (\<exists>e. r = Inl e)"
  unfolding ss_revert_def
  by (auto simp: andThen_def within_def catching_def liftE_def split: prod.splits sum.splits)

lemma ss_apply_blocked: "ss_corrupt s \<Longrightarrow> \<exists>e s'. ss_apply E t s = (Inl e, s')"
proof (rule ccontr)
  assume c: "ss_corrupt s" and no: "\<nexists>e s'. ss_apply E t s = (Inl e, s')"
  obtain r s' where a: "ss_apply E t s = (r, s')" by fastforce
  then obtain u where "r = Inr u" using no by (cases r) auto
  then show False using ss_apply_Inr[of E t s u s'] a c by blast
qed

section \<open>The queue of a sender (sender-mempool.ts)\<close>

record 'w sender_mempool =
  sm_state :: "'w sender_state"
  sm_transactions :: "transaction list"

definition createSenderMempool :: "('h, 'w) pool_env \<Rightarrow> 'w sender_mempool" where
  "createSenderMempool E = \<lparr>sm_state = newSenderState E, sm_transactions = []\<rparr>"

definition isDisposable :: "'w sender_mempool \<Rightarrow> bool" where
  "isDisposable m \<longleftrightarrow> sm_transactions m = []"

definition sm_getSize :: "'w sender_mempool \<Rightarrow> nat" where
  "sm_getSize m = length (sm_transactions m)"

definition getFromEarliest :: "'w sender_mempool \<Rightarrow> transaction list" where
  "getFromEarliest m = sm_transactions m"

definition getFromLatest :: "'w sender_mempool \<Rightarrow> transaction list" where
  "getFromLatest m = rev (sm_transactions m)"

abbreviation onState :: "('w sender_state, 'e, 'a) prog \<Rightarrow> ('w sender_mempool, 'e, 'a) prog" where
  "onState m \<equiv> within sm_state (\<lambda>x s. s\<lparr>sm_state := x\<rparr>) m"

definition sm_addTransaction ::
    "('h, 'w) pool_env \<Rightarrow> transaction \<Rightarrow> ('w sender_mempool, error, unit) prog" where
  "sm_addTransaction E t =
     andThen (defined AssertionException (senderPublicKey (data t))) (\<lambda>pk.
     andThen (reads (\<lambda>m. int (length (sm_transactions m)) \<ge> pe_maxTransactionsPerSender E)) (\<lambda>full.
     andThen (throwIf (full \<and> pk \<notin> set (pe_allowedSenders E))
        (SenderExceededMaximumTransactionCountError (pe_maxTransactionsPerSender E))) (\<lambda>_.
     andThen (onState (ss_apply E t)) (\<lambda>_.
     modify (\<lambda>m. m\<lparr>sm_transactions := sm_transactions m @ [t]\<rparr>)))))"

definition revertRemoved ::
    "('h, 'w) pool_env \<Rightarrow> transaction list \<Rightarrow> ('w sender_mempool, error, unit) prog" where
  "revertRemoved E = forEach (\<lambda>t. onState (ss_revert E t))"

text \<open>
  The transaction and every later one leave the queue and are reverted, the latest first; when a
  revert fails the whole queue is given up.
\<close>

definition sm_removeTransaction ::
    "('h, 'w) pool_env \<Rightarrow> string \<Rightarrow> ('w sender_mempool, error, transaction list) prog" where
  "sm_removeTransaction E i =
     andThen (reads (\<lambda>m. find_index (\<lambda>t. txId t = Some i) (sm_transactions m))) (\<lambda>index.
     case index of None \<Rightarrow> ret []
     | Some n \<Rightarrow>
         andThen (reads (\<lambda>m. rev (drop n (sm_transactions m)))) (\<lambda>removed.
         andThen (modify (\<lambda>m. m\<lparr>sm_transactions := take n (sm_transactions m)\<rparr>)) (\<lambda>_.
         catching (andThen (revertRemoved E removed) (\<lambda>_. ret removed)) (\<lambda>_.
           andThen (reads (\<lambda>m. rev (sm_transactions m))) (\<lambda>others.
           andThen (modify (\<lambda>m. m\<lparr>sm_transactions := []\<rparr>)) (\<lambda>_.
           ret (removed @ others)))))))"

definition sm_removeForgedTransaction ::
    "string \<Rightarrow> ('w sender_mempool, error, transaction list) prog" where
  "sm_removeForgedTransaction i =
     andThen (reads (\<lambda>m. find_index (\<lambda>t. txId t = Some i) (sm_transactions m))) (\<lambda>index.
     case index of None \<Rightarrow> ret []
     | Some n \<Rightarrow>
         andThen (reads (\<lambda>m. take (n + 1) (sm_transactions m))) (\<lambda>removed.
         andThen (modify (\<lambda>m. m\<lparr>sm_transactions := drop (n + 1) (sm_transactions m)\<rparr>)) (\<lambda>_.
         ret removed)))"

lemma onState_transactions: "onState m s = (r, s') \<Longrightarrow> sm_transactions s' = sm_transactions s"
  by (auto simp: within_def split: prod.splits)

lemma revertRemoved_transactions:
  "revertRemoved E ts s = (r, s') \<Longrightarrow> sm_transactions s' = sm_transactions s"
  unfolding revertRemoved_def
proof (induction ts arbitrary: s)
  case (Cons t ts)
  obtain r1 s1 where 1: "onState (ss_revert E t) s = (r1, s1)" by fastforce
  then have "sm_transactions s1 = sm_transactions s" by (rule onState_transactions)
  with Cons 1 show ?case by (cases r1) (auto simp: andThen_def)
qed simp

lemma sm_add_Inr:
  "sm_addTransaction E t m = (Inr u, m') \<Longrightarrow> sm_transactions m' = sm_transactions m @ [t]"
  unfolding sm_addTransaction_def
  by (cases "senderPublicKey (data t)")
    (auto elim!: andThen_InrE dest!: onState_transactions split: if_splits)

lemma sm_add_Inl:
  "sm_addTransaction E t m = (Inl e, m') \<Longrightarrow> sm_transactions m' = sm_transactions m"
  unfolding sm_addTransaction_def
  by (cases "senderPublicKey (data t)")
    (auto elim!: andThen_InlE dest: onState_transactions split: if_splits)

text \<open>
  Removing never throws; it returns either the suffix of the queue from the transaction on, in
  reverse, or (a revert having failed) the whole queue.
\<close>

lemma sm_remove_cases:
  obtains "find_index (\<lambda>t. txId t = Some i) (sm_transactions m) = None"
      "sm_removeTransaction E i m = (Inr [], m)"
  | n m' where "find_index (\<lambda>t. txId t = Some i) (sm_transactions m) = Some n"
      "sm_removeTransaction E i m = (Inr (rev (drop n (sm_transactions m))), m')"
      "sm_transactions m' = take n (sm_transactions m)"
  | n m' where "find_index (\<lambda>t. txId t = Some i) (sm_transactions m) = Some n"
      "sm_removeTransaction E i m =
        (Inr (rev (drop n (sm_transactions m)) @ rev (take n (sm_transactions m))), m')"
      "sm_transactions m' = []"
proof (cases "find_index (\<lambda>t. txId t = Some i) (sm_transactions m)")
  case None
  then show ?thesis using that(1) by (simp add: sm_removeTransaction_def)
next
  case (Some n)
  let ?removed = "rev (drop n (sm_transactions m))"
  let ?m = "m\<lparr>sm_transactions := take n (sm_transactions m)\<rparr>"
  obtain r m' where r: "revertRemoved E ?removed ?m = (r, m')" by fastforce
  then have ts: "sm_transactions m' = take n (sm_transactions m)"
    using revertRemoved_transactions by fastforce
  show ?thesis
  proof (cases r)
    case (Inl e)
    have "sm_removeTransaction E i m =
        (Inr (?removed @ rev (take n (sm_transactions m))), m'\<lparr>sm_transactions := []\<rparr>)"
      using Some r Inl ts
      by (simp add: sm_removeTransaction_def catching_def andThen_def reads_def modify_def ret_def)
    then show ?thesis using that(3)[OF Some] by simp
  next
    case (Inr u)
    have "sm_removeTransaction E i m = (Inr ?removed, m')"
      using Some r Inr by (simp add: sm_removeTransaction_def catching_def andThen_def reads_def modify_def ret_def)
    then show ?thesis using that(2)[OF Some] ts by blast
  qed
qed

lemma sm_removeForged_cases:
  obtains "find_index (\<lambda>t. txId t = Some i) (sm_transactions m) = None"
      "sm_removeForgedTransaction i m = (Inr [], m)"
  | n where "find_index (\<lambda>t. txId t = Some i) (sm_transactions m) = Some n"
      "sm_removeForgedTransaction i m = (Inr (take (n + 1) (sm_transactions m)),
         m\<lparr>sm_transactions := drop (n + 1) (sm_transactions m)\<rparr>)"
  by (cases "find_index (\<lambda>t. txId t = Some i) (sm_transactions m)")
    (simp_all add: sm_removeForgedTransaction_def)

section \<open>The map of queues (mempool.ts)\<close>

type_synonym 'w mempool = "(string, 'w sender_mempool) jsmap"

definition mp_getSize :: "'w mempool \<Rightarrow> nat" where
  "mp_getSize m = fold (\<lambda>q n. n + sm_getSize q) (jm_values m) 0"

definition hasSenderMempool :: "'w mempool \<Rightarrow> string \<Rightarrow> bool" where
  "hasSenderMempool m k = jm_has m k"

definition getSenderMempool :: "'w mempool \<Rightarrow> string \<Rightarrow> error + 'w sender_mempool" where
  "getSenderMempool m k =
     (case jm_get m k of None \<Rightarrow> Inl (PlainError ''Unknown sender'') | Some q \<Rightarrow> Inr q)"

definition getSenderMempools :: "'w mempool \<Rightarrow> 'w sender_mempool list" where
  "getSenderMempools m = jm_values m"

text \<open>A call on the queue of a sender, which the map holds by reference.\<close>

definition withSender ::
    "string \<Rightarrow> ('w sender_mempool, error, 'a) prog \<Rightarrow> ('w mempool, error, 'a) prog" where
  "withSender k m = (\<lambda>s. case jm_get s k of None \<Rightarrow> (Inl JsTypeError, s)
     | Some q \<Rightarrow> (case m q of (r, q') \<Rightarrow> (r, jm_set k q' s)))"

definition logAddress :: "('h, 'w) pool_env \<Rightarrow> string \<Rightarrow> ('w mempool, error, unit) prog" where
  "logAddress E k = andThen (liftE (pe_address E k)) (\<lambda>_. ret ())"

definition disposeEmpty :: "('h, 'w) pool_env \<Rightarrow> string \<Rightarrow> ('w mempool, error, unit) prog" where
  "disposeEmpty E k =
     andThen (reads (\<lambda>s. case jm_get s k of None \<Rightarrow> False | Some q \<Rightarrow> isDisposable q)) (\<lambda>d.
     whenever d (andThen (modify (jm_delete k)) (\<lambda>_. logAddress E k)))"

definition mp_addTransaction ::
    "('h, 'w) pool_env \<Rightarrow> transaction \<Rightarrow> ('w mempool, error, unit) prog" where
  "mp_addTransaction E t =
     andThen (defined AssertionException (senderPublicKey (data t))) (\<lambda>k.
     andThen (reads (\<lambda>s. hasSenderMempool s k)) (\<lambda>known.
     andThen (whenever (\<not> known)
        (andThen (modify (jm_set k (createSenderMempool E))) (\<lambda>_. logAddress E k))) (\<lambda>_.
     finallyDo (withSender k (sm_addTransaction E t)) (disposeEmpty E k))))"

definition mp_removeTransaction ::
    "('h, 'w) pool_env \<Rightarrow> string \<Rightarrow> string \<Rightarrow> ('w mempool, error, transaction list) prog" where
  "mp_removeTransaction E k i =
     andThen (reads (\<lambda>s. hasSenderMempool s k)) (\<lambda>known.
     if \<not> known then ret []
     else finallyDo (withSender k (sm_removeTransaction E i)) (disposeEmpty E k))"

definition mp_removeForgedTransaction ::
    "('h, 'w) pool_env \<Rightarrow> string \<Rightarrow> string \<Rightarrow> ('w mempool, error, transaction list) prog" where
  "mp_removeForgedTransaction E k i =
     andThen (reads (\<lambda>s. hasSenderMempool s k)) (\<lambda>known.
     if \<not> known then ret []
     else finallyDo (withSender k (sm_removeForgedTransaction i)) (disposeEmpty E k))"

definition mp_flush :: "'w mempool \<Rightarrow> 'w mempool" where
  "mp_flush m = []"

section \<open>What the map promises: one queue of transactions per sender\<close>

type_synonym queues = "(string, transaction list) jsmap"

definition queues :: "'w mempool \<Rightarrow> queues" where
  "queues m = jm_map sm_transactions m"

definition queueOf :: "queues \<Rightarrow> string \<Rightarrow> transaction list" where
  "queueOf v k = (case jm_get v k of None \<Rightarrow> [] | Some ts \<Rightarrow> ts)"

definition putQueue :: "string \<Rightarrow> transaction list \<Rightarrow> queues \<Rightarrow> queues" where
  "putQueue k ts v = (if ts = [] then jm_delete k v else jm_set k ts v)"

definition pending :: "queues \<Rightarrow> transaction list" where
  "pending v = concat (jm_values v)"

text \<open>
  Every queue is that of its key's sender and is not empty, and no identifier occurs twice.
\<close>

definition queues_ok :: "queues \<Rightarrow> bool" where
  "queues_ok v \<longleftrightarrow> jm_inv v \<and>
     (\<forall>(k, ts) \<in> set v. ts \<noteq> [] \<and>
        (\<forall>t \<in> set ts. senderPublicKey (data t) = Some k \<and> txId t \<noteq> None)) \<and>
     distinct (map txId (pending v))"

text \<open>What a removal of an identifier may leave of a queue: the removed ones and the rest.\<close>

definition removal :: "string \<Rightarrow> transaction list \<Rightarrow> transaction list \<Rightarrow> transaction list \<Rightarrow> bool" where
  "removal i ts removed rest \<longleftrightarrow>
     (case find_index (\<lambda>t. txId t = Some i) ts of
        None \<Rightarrow> removed = [] \<and> rest = ts
      | Some n \<Rightarrow> removed = rev (drop n ts) \<and> rest = take n ts \<or> removed = rev ts \<and> rest = [])"

definition forgedRemoval :: "string \<Rightarrow> transaction list \<Rightarrow> transaction list \<times> transaction list" where
  "forgedRemoval i ts =
     (case find_index (\<lambda>t. txId t = Some i) ts of
        None \<Rightarrow> ([], ts) | Some n \<Rightarrow> (take (n + 1) ts, drop (n + 1) ts))"

lemma getSize_pending:
  fixes m :: "'w mempool" shows "mp_getSize m = length (pending (queues m))"
proof -
  have "fold (\<lambda>q n. n + sm_getSize q) qs z = z + length (concat (map sm_transactions qs))"
    for qs :: "'w sender_mempool list" and z
    by (induction qs arbitrary: z) (simp_all add: sm_getSize_def)
  then show ?thesis by (simp add: mp_getSize_def pending_def queues_def jm_values_map)
qed

lemma queues_get: "jm_get (queues m) k = map_option sm_transactions (jm_get m k)"
  by (simp add: queues_def)

lemma queues_ok_get:
  assumes "queues_ok v" and "jm_get v k = Some ts"
  shows "ts \<noteq> []" and "t \<in> set ts \<Longrightarrow> senderPublicKey (data t) = Some k \<and> txId t \<noteq> None"
proof -
  have "(k, ts) \<in> set v" using assms by (simp add: queues_ok_def in_set_jm_get)
  then show "ts \<noteq> []" and "t \<in> set ts \<Longrightarrow> senderPublicKey (data t) = Some k \<and> txId t \<noteq> None"
    using assms(1) by (auto simp: queues_ok_def)
qed

lemma queueOf_get: "t \<in> set (queueOf v k) \<longleftrightarrow> (\<exists>ts. jm_get v k = Some ts \<and> t \<in> set ts)"
  by (cases "jm_get v k") (simp_all add: queueOf_def)


lemma pending_mem: "queues_ok v \<Longrightarrow> t \<in> set (pending v) \<longleftrightarrow> (\<exists>k. t \<in> set (queueOf v k))"
proof -
  assume ok: "queues_ok v"
  have "t \<in> set (pending v) \<longleftrightarrow> (\<exists>ts \<in> set (jm_values v). t \<in> set ts)" by (simp add: pending_def)
  also have "\<dots> \<longleftrightarrow> (\<exists>ts k. jm_get v k = Some ts \<and> t \<in> set ts)"
    using ok jm_values_get[of v] by (auto simp: queues_ok_def)
  also have "\<dots> \<longleftrightarrow> (\<exists>k. t \<in> set (queueOf v k))"
    by (auto simp: queueOf_get)
  finally show ?thesis .
qed

lemma queueOf_sender:
  "queues_ok v \<Longrightarrow> t \<in> set (queueOf v k) \<Longrightarrow> senderPublicKey (data t) = Some k \<and> txId t \<noteq> None"
  using queues_ok_get(2)[of v k _ t] by (cases "jm_get v k") (auto simp: queueOf_def)

lemma queueOf_mem:
  assumes "queues_ok v"
  shows "t \<in> set (queueOf v k) \<longleftrightarrow> t \<in> set (pending v) \<and> senderPublicKey (data t) = Some k"
  using pending_mem[OF assms, of t] queueOf_sender[OF assms, of t] by (metis option.inject)

lemma mset_putQueue:
  "jm_inv v \<Longrightarrow> mset (pending (putQueue k ts v)) + mset (queueOf v k) = mset (pending v) + mset ts"
  using mset_values_set[of k ts v] mset_values_delete[of v k]
  by (auto simp: putQueue_def pending_def queueOf_def split: option.splits)

lemma queueOf_put [simp]: "queueOf (putQueue k ts v) k' = (if k' = k then ts else queueOf v k')"
  by (simp add: putQueue_def queueOf_def)

lemma putQueue_ok:
  assumes ok: "queues_ok v"
    and ts: "\<And>t. t \<in> set ts \<Longrightarrow> senderPublicKey (data t) = Some k \<and> txId t \<noteq> None"
    and fresh: "distinct (map txId (pending (putQueue k ts v)))"
  shows "queues_ok (putQueue k ts v)"
proof -
  have inv: "jm_inv (putQueue k ts v)" using ok by (simp add: putQueue_def queues_ok_def)
  have "xs \<noteq> [] \<and> (\<forall>t \<in> set xs. senderPublicKey (data t) = Some k' \<and> txId t \<noteq> None)"
    if "(k', xs) \<in> set (putQueue k ts v)" for k' xs
  proof -
    have get: "jm_get (putQueue k ts v) k' = Some xs" using that inv by (simp add: in_set_jm_get)
    then show ?thesis
      using ts queues_ok_get[OF ok, of k' xs] by (auto simp: putQueue_def split: if_splits)
  qed
  then show ?thesis using inv fresh by (auto simp: queues_ok_def)
qed

lemma putQueue_same: "queues_ok v \<Longrightarrow> putQueue k (queueOf v k) v = v"
  using queues_ok_get(1)[of v k]
  by (cases "jm_get v k")
    (auto simp: putQueue_def queueOf_def jm_set_present_id jm_has_def intro: jm_delete_absent)


lemma putQueue_sub_ok:
  assumes ok: "queues_ok v" and sub: "mset rest \<subseteq># mset (queueOf v k)"
  shows "queues_ok (putQueue k rest v)"
proof (rule putQueue_ok[OF ok])
  fix t assume "t \<in> set rest"
  then have "t \<in> set (queueOf v k)" using sub by (metis mset_subset_eqD set_mset_mset)
  then show "senderPublicKey (data t) = Some k \<and> txId t \<noteq> None" by (rule queueOf_sender[OF ok])
next
  have "mset (pending (putQueue k rest v)) + mset (queueOf v k) = mset (pending v) + mset rest"
    using ok by (simp add: mset_putQueue queues_ok_def)
  then have "mset (pending (putQueue k rest v)) \<subseteq># mset (pending v)"
    using sub by (metis mset_subset_eq_mono_add_right_cancel subset_mset.add_left_mono)
  then show "distinct (map txId (pending (putQueue k rest v)))"
    using ok by (auto simp: queues_ok_def intro: distinct_sub_mset)
qed

lemma removal_mset: "removal i ts removed rest \<Longrightarrow> mset removed + mset rest = mset ts"
  by (auto simp: removal_def split: option.splits)
    (metis append_take_drop_id mset_append union_commute)

lemma removal_found:
  assumes "removal i ts removed rest" and "t \<in> set ts" and "txId t = Some i"
  shows "\<exists>t' \<in> set removed. txId t' = Some i" and "removed \<noteq> []"
proof -
  obtain n where n: "find_index (\<lambda>t. txId t = Some i) ts = Some n"
    using assms(2,3) by (cases "find_index (\<lambda>t. txId t = Some i) ts") (auto simp: find_index_None)
  then have "n < length ts" "txId (ts ! n) = Some i" using find_index_Some by fastforce+
  moreover from this have "ts ! n \<in> set (drop n ts)" by (metis Cons_nth_drop_Suc list.set_intros(1))
  moreover have "set (drop n ts) \<subseteq> set removed"
    using assms(1) n by (auto simp: removal_def dest: in_set_dropD)
  ultimately show "\<exists>t' \<in> set removed. txId t' = Some i" by blast
  then show "removed \<noteq> []" by auto
qed


section \<open>The map refines the queues\<close>

definition addressable :: "('h, 'w) pool_env \<Rightarrow> string \<Rightarrow> bool" where
  "addressable E k \<longleftrightarrow> (\<exists>a. pe_address E k = Inr a)"

lemma logAddress_ok: "addressable E k \<Longrightarrow> logAddress E k s = (Inr (), s)"
  by (auto simp: addressable_def logAddress_def)

text \<open>A call on a stored queue, followed by its disposal when it has become empty.\<close>

lemma withSender_dispose:
  assumes "addressable E k" and q: "jm_get s k = Some q" and m: "m q = (r, q')"
  shows "finallyDo (withSender k m) (disposeEmpty E k) s =
    (r, if sm_transactions q' = [] then jm_delete k s else jm_set k q' s)"
  using assms logAddress_ok[OF assms(1)]
  by (simp add: withSender_def finallyDo_def disposeEmpty_def isDisposable_def)

lemma withSender_dispose_queues:
  assumes adr: "addressable E k" and q: "jm_get s k = Some q" and m: "m q = (r, q')"
  obtains s' where "finallyDo (withSender k m) (disposeEmpty E k) s = (r, s')"
    and "queues s' = putQueue k (sm_transactions q') (queues s)"
  using withSender_dispose[where m = m, OF adr q m] that by (auto simp: queues_def putQueue_def)

lemma mp_add_cases:
  assumes k: "senderPublicKey (data t) = Some k" and adr: "addressable E k"
    and ok: "queues_ok (queues s)"
  obtains s' where "mp_addTransaction E t s = (Inr (), s')"
      "queues s' = putQueue k (queueOf (queues s) k @ [t]) (queues s)"
  | e s' where "mp_addTransaction E t s = (Inl e, s')" "queues s' = queues s"
proof -
  define s1 where "s1 = (if jm_has s k then s else jm_set k (createSenderMempool E) s)"
  obtain q where q: "jm_get s1 k = Some q" by (cases "jm_get s k") (auto simp: s1_def jm_has_def)
  have same: "sm_transactions q = queueOf (queues s) k"
    using q by (cases "jm_get s k")
      (auto simp: s1_def jm_has_def queues_get queueOf_def createSenderMempool_def)
  have put: "putQueue k ts (queues s1) = putQueue k ts (queues s)" for ts
    by (auto simp: s1_def queues_def putQueue_def)
  have run: "mp_addTransaction E t s =
      finallyDo (withSender k (sm_addTransaction E t)) (disposeEmpty E k) s1"
    using k adr by (auto simp: mp_addTransaction_def hasSenderMempool_def s1_def logAddress_ok
        whenever_def andThen_assoc andThen_Inr[OF logAddress_ok])
  obtain r q' where m: "sm_addTransaction E t q = (r, q')" by fastforce
  obtain s' where s': "mp_addTransaction E t s = (r, s')"
    "queues s' = putQueue k (sm_transactions q') (queues s)"
    using withSender_dispose_queues[where m = "sm_addTransaction E t", OF adr q m] run put by metis
  show ?thesis
  proof (cases r)
    case (Inl e)
    then have "queues s' = queues s"
      using s' m same putQueue_same[OF ok] sm_add_Inl[of E t q e q'] by simp
    then show ?thesis using that(2) s' Inl by simp
  next
    case (Inr u)
    then show ?thesis using that(1) s' m same sm_add_Inr[of E t q u q'] by simp
  qed
qed

lemma mp_remove_cases:
  assumes adr: "addressable E k" and ok: "queues_ok (queues s)"
  obtains removed rest s' where "mp_removeTransaction E k i s = (Inr removed, s')"
    and "removal i (queueOf (queues s) k) removed rest"
    and "queues s' = putQueue k rest (queues s)"
proof (cases "jm_get s k")
  case None
  then have v: "queueOf (queues s) k = []" by (simp add: queueOf_def queues_get)
  then have "queues s = putQueue k [] (queues s)" using putQueue_same[OF ok, of k] by simp
  then show ?thesis
    using that[of "[]" s "[]"] None v
    by (simp add: mp_removeTransaction_def hasSenderMempool_def jm_has_def removal_def)
next
  case (Some q)
  then have v: "queueOf (queues s) k = sm_transactions q" by (simp add: queueOf_def queues_get)
  obtain removed q' where m: "sm_removeTransaction E i q = (Inr removed, q')"
    and r: "removal i (sm_transactions q) removed (sm_transactions q')"
    by (rule sm_remove_cases[of i q E]) (auto simp: removal_def rev_append[symmetric])
  obtain s' where "finallyDo (withSender k (sm_removeTransaction E i)) (disposeEmpty E k) s =
      (Inr removed, s')" and "queues s' = putQueue k (sm_transactions q') (queues s)"
    using withSender_dispose_queues[where m = "sm_removeTransaction E i", OF adr Some m] by metis
  then show ?thesis
    using that r v Some by (simp add: mp_removeTransaction_def hasSenderMempool_def jm_has_def)
qed

lemma mp_removeForged_cases:
  assumes adr: "addressable E k" and ok: "queues_ok (queues s)"
  obtains s' where
    "mp_removeForgedTransaction E k i s = (Inr (fst (forgedRemoval i (queueOf (queues s) k))), s')"
    and "queues s' = putQueue k (snd (forgedRemoval i (queueOf (queues s) k))) (queues s)"
proof (cases "jm_get s k")
  case None
  then have v: "queueOf (queues s) k = []" by (simp add: queueOf_def queues_get)
  then have "queues s = putQueue k [] (queues s)" using putQueue_same[OF ok, of k] by simp
  then show ?thesis
    using that[of s] None v
    by (simp add: mp_removeForgedTransaction_def hasSenderMempool_def jm_has_def forgedRemoval_def)
next
  case (Some q)
  then have v: "queueOf (queues s) k = sm_transactions q" by (simp add: queueOf_def queues_get)
  obtain q' where m: "sm_removeForgedTransaction i q = (Inr (fst (forgedRemoval i (sm_transactions q))), q')"
    and r: "sm_transactions q' = snd (forgedRemoval i (sm_transactions q))"
    by (rule sm_removeForged_cases[of i q]) (auto simp: forgedRemoval_def)
  obtain s' where "finallyDo (withSender k (sm_removeForgedTransaction i)) (disposeEmpty E k) s =
      (Inr (fst (forgedRemoval i (sm_transactions q))), s')"
    and "queues s' = putQueue k (sm_transactions q') (queues s)"
    using withSender_dispose_queues[where m = "sm_removeForgedTransaction i", OF adr Some m] by metis
  then show ?thesis
    using that r v Some by (simp add: mp_removeForgedTransaction_def hasSenderMempool_def jm_has_def)
qed

lemma forgedRemoval_append: "fst (forgedRemoval i ts) @ snd (forgedRemoval i ts) = ts"
  by (simp add: forgedRemoval_def split: option.split del: append_take_drop_id take_Suc_conv_app_nth)
    (metis append_take_drop_id)

section \<open>Queries (query.ts)\<close>

type_synonym predicate = "transaction \<Rightarrow> bool"

definition satisfiesPredicates :: "predicate list \<Rightarrow> transaction \<Rightarrow> bool" where
  "satisfiesPredicates ps t \<longleftrightarrow> (\<forall>p \<in> set ps. p t)"

record queryIterable =
  qi_transactions :: "transaction list"
  qi_predicates :: "predicate list"

definition newQuery :: "transaction list \<Rightarrow> queryIterable" where
  "newQuery ts = \<lparr>qi_transactions = ts, qi_predicates = []\<rparr>"

definition qi_all :: "queryIterable \<Rightarrow> transaction list" where
  "qi_all q = filter (satisfiesPredicates (qi_predicates q)) (qi_transactions q)"

definition qi_first :: "queryIterable \<Rightarrow> error + transaction" where
  "qi_first q = (case qi_all q of [] \<Rightarrow> Inl (PlainError ''Transaction not found'') | t # _ \<Rightarrow> Inr t)"

definition qi_has :: "queryIterable \<Rightarrow> bool" where
  "qi_has q \<longleftrightarrow> length (qi_all q) > 0"

definition wherePredicate :: "predicate \<Rightarrow> queryIterable \<Rightarrow> queryIterable" where
  "wherePredicate p q = q\<lparr>qi_predicates := qi_predicates q @ [p]\<rparr>"

definition whereId :: "string \<Rightarrow> queryIterable \<Rightarrow> queryIterable" where
  "whereId i = wherePredicate (\<lambda>t. txId t = Some i)"

definition whereType :: "int \<Rightarrow> queryIterable \<Rightarrow> queryIterable" where
  "whereType ty = wherePredicate (\<lambda>t. ttype (data t) = ty)"

definition whereTypeGroup :: "int \<Rightarrow> queryIterable \<Rightarrow> queryIterable" where
  "whereTypeGroup g = wherePredicate (\<lambda>t. typeGroup (data t) = Some g)"

definition whereVersion :: "int \<Rightarrow> queryIterable \<Rightarrow> queryIterable" where
  "whereVersion v = wherePredicate (\<lambda>t. version (data t) = Some v)"

definition whereKind :: "transaction \<Rightarrow> queryIterable \<Rightarrow> queryIterable" where
  "whereKind u = wherePredicate (\<lambda>t. ttype (data t) = ttype (data u) \<and> typeGroup (data t) = typeGroup (data u))"

text \<open>\<open>sort\<close> is stable: transactions of one fee stay in the order of the flattened queues.\<close>

definition getAll :: "'w mempool \<Rightarrow> queryIterable" where
  "getAll m = newQuery (concat (map getFromLatest (getSenderMempools m)))"

definition getAllBySender :: "string \<Rightarrow> 'w mempool \<Rightarrow> error + queryIterable" where
  "getAllBySender k m =
     (if \<not> hasSenderMempool m k then Inr (newQuery [])
      else (case getSenderMempool m k of Inl e \<Rightarrow> Inl e | Inr q \<Rightarrow> Inr (newQuery (getFromEarliest q))))"

definition getFromLowestPriority :: "'w mempool \<Rightarrow> queryIterable" where
  "getFromLowestPriority m =
     newQuery (sort_key txFee (concat (map getFromLatest (getSenderMempools m))))"

definition getFromHighestPriority :: "'w mempool \<Rightarrow> queryIterable" where
  "getFromHighestPriority m =
     newQuery (sort_key (\<lambda>t. - txFee t) (concat (map getFromEarliest (getSenderMempools m))))"

lemma qi_all_new [simp]: "qi_all (newQuery ts) = ts"
  by (simp add: qi_all_def newQuery_def satisfiesPredicates_def)

lemma qi_first_new: "qi_first (newQuery ts) = Inr t \<longleftrightarrow> (\<exists>ts'. ts = t # ts')"
  by (auto simp: qi_first_def split: list.splits)

lemma mset_latest:
  fixes m :: "'w mempool"
  shows "mset (concat (map getFromLatest (getSenderMempools m))) = mset (pending (queues m))"
proof -
  have "mset (concat (map getFromLatest qs)) = mset (concat (map sm_transactions qs))"
    for qs :: "'w sender_mempool list"
    by (induction qs) (simp_all add: getFromLatest_def)
  then show ?thesis by (simp add: getSenderMempools_def pending_def queues_def jm_values_map)
qed

lemma earliest: "concat (map getFromEarliest (getSenderMempools m)) = pending (queues m)"
  by (simp add: getFromEarliest_def[abs_def] getSenderMempools_def pending_def queues_def jm_values_map)

lemma mset_priorities:
  "mset (qi_all (getAll m)) = mset (pending (queues m))"
  "mset (qi_all (getFromLowestPriority m)) = mset (pending (queues m))"
  "mset (qi_all (getFromHighestPriority m)) = mset (pending (queues m))"
  by (simp_all add: getAll_def getFromLowestPriority_def getFromHighestPriority_def mset_latest earliest)

lemma set_all: "set (qi_all (getAll m)) = set (pending (queues m))"
  using arg_cong[OF mset_priorities(1), of set_mset] by simp

text \<open>The first of the lowest priority: a pending transaction of the least fee.\<close>

lemma lowest_first:
  assumes "pending (queues m) \<noteq> []"
  obtains t where "qi_first (getFromLowestPriority m) = Inr t" and "t \<in> set (pending (queues m))"
    and "\<forall>u \<in> set (pending (queues m)). txFee t \<le> txFee u"
proof -
  let ?ts = "qi_all (getFromLowestPriority m)"
  have set: "set ?ts = set (pending (queues m))"
    using arg_cong[OF mset_priorities(2), of set_mset] by simp
  then obtain t rest where ts: "?ts = t # rest" using assms by (cases ?ts) auto
  have "sorted (map txFee ?ts)" by (simp add: getFromLowestPriority_def)
  then have "\<forall>u \<in> set ?ts. txFee t \<le> txFee u" using ts by auto
  then show ?thesis using that[of t] ts set[symmetric] by (simp add: qi_first_def)
qed


end
