(* ===== verification/Pool.thy ===== *)
theory Pool
  imports Mempool
begin

text \<open>
  The transaction pool itself (packages/core-transaction-pool/source): the stored transactions
  (storage.ts, a table ordered by its row number), the pool service (service.ts) and the
  processor of incoming transactions (processor.ts). The service's lock lets additions and
  removals run between one another and keeps the rebuild and the flush apart; each operation is
  one program here. Events and log lines are left out.
\<close>

section \<open>Storage (storage.ts)\<close>

record stored =
  st_height :: int
  st_id :: string
  st_sender :: string
  st_serialized :: "byte list"

type_synonym table = "stored list"

definition sto_has :: "string \<Rightarrow> table \<Rightarrow> bool" where
  "sto_has i tb \<longleftrightarrow> length (filter (\<lambda>r. st_id r = i) tb) \<noteq> 0"

text \<open>The unique index on the identifier refuses a second row.\<close>

definition sto_add :: "stored \<Rightarrow> (table, error, unit) prog" where
  "sto_add r =
     andThen (reads (sto_has (st_id r))) (\<lambda>h.
     andThen (throwIf h (PlainError ''UNIQUE constraint failed'')) (\<lambda>_.
     modify (\<lambda>tb. tb @ [r])))"

definition sto_getAll :: "table \<Rightarrow> stored list" where
  "sto_getAll tb = tb"

definition sto_getOld :: "int \<Rightarrow> table \<Rightarrow> stored list" where
  "sto_getOld h tb = rev (filter (\<lambda>r. st_height r \<le> h) tb)"

definition sto_remove :: "string \<Rightarrow> table \<Rightarrow> table" where
  "sto_remove i tb = filter (\<lambda>r. st_id r \<noteq> i) tb"

definition sto_flush :: "table \<Rightarrow> table" where
  "sto_flush tb = []"

lemma sto_has_iff: "sto_has i tb \<longleftrightarrow> i \<in> st_id ` set tb"
  by (auto simp: sto_has_def filter_empty_conv)

section \<open>The pool service (service.ts)\<close>

record 'w pool =
  pl_mempool :: "'w mempool"
  pl_storage :: table
  pl_disposed :: bool

type_synonym ('w, 'a) pprog = "('w pool, error, 'a) prog"

abbreviation onMempool :: "('w mempool, error, 'a) prog \<Rightarrow> ('w, 'a) pprog" where
  "onMempool m \<equiv> within pl_mempool (\<lambda>x s. s\<lparr>pl_mempool := x\<rparr>) m"

abbreviation onStorage :: "(table, error, 'a) prog \<Rightarrow> ('w, 'a) pprog" where
  "onStorage m \<equiv> within pl_storage (\<lambda>x s. s\<lparr>pl_storage := x\<rparr>) m"

abbreviation rowsOf :: "'w pool \<Rightarrow> stored list" where
  "rowsOf s \<equiv> pl_storage s"

definition getPoolSize :: "'w pool \<Rightarrow> nat" where
  "getPoolSize s = mp_getSize (pl_mempool s)"

definition unstore :: "string \<Rightarrow> ('w, unit) pprog" where
  "unstore i = modify (\<lambda>s. s\<lparr>pl_storage := sto_remove i (pl_storage s)\<rparr>)"

text \<open>The transactions a queue gave up leave the storage.\<close>

definition dropStored :: "transaction list \<Rightarrow> ('w, unit) pprog" where
  "dropStored = forEach (\<lambda>t. andThen (defined AssertionException (txId t)) unstore)"

definition evict :: "('h, 'w) pool_env \<Rightarrow> string \<Rightarrow> string \<Rightarrow> ('w, unit) pprog" where
  "evict E k i = andThen (onMempool (mp_removeTransaction E k i)) dropStored"

definition expiredHeight :: "('h, 'w) pool_env \<Rightarrow> int" where
  "expiredHeight E = pe_lastHeight E - pe_maxTransactionAge E"

definition removeOldTransactions :: "('h, 'w) pool_env \<Rightarrow> ('w, unit) pprog" where
  "removeOldTransactions E =
     andThen (reads (\<lambda>s. sto_getOld (expiredHeight E) (pl_storage s)))
       (forEach (\<lambda>r. evict E (st_sender r) (st_id r)))"

definition removeExpired :: "('h, 'w) pool_env \<Rightarrow> transaction \<Rightarrow> ('w, unit) pprog" where
  "removeExpired E t =
     andThen (defined AssertionException (txId t)) (\<lambda>i.
     andThen (defined AssertionException (senderPublicKey (data t))) (\<lambda>k.
     andThen (liftE (isExpired (pe_lastHeight E) t)) (\<lambda>expired.
     whenever expired (evict E k i))))"

definition removeExpiredTransactions :: "('h, 'w) pool_env \<Rightarrow> ('w, unit) pprog" where
  "removeExpiredTransactions E =
     andThen (reads (\<lambda>s. qi_all (getAll (pl_mempool s)))) (forEach (removeExpired E))"

definition lowestPriority :: "('w, transaction) pprog" where
  "lowestPriority =
     andThen (reads (\<lambda>s. qi_first (getFromLowestPriority (pl_mempool s)))) liftE"

definition removeLowestPriorityTransaction :: "('h, 'w) pool_env \<Rightarrow> ('w, unit) pprog" where
  "removeLowestPriorityTransaction E =
     andThen (reads getPoolSize) (\<lambda>n.
     whenever (n \<noteq> 0)
       (andThen lowestPriority (\<lambda>t.
        andThen (defined AssertionException (txId t)) (\<lambda>i.
        andThen (defined AssertionException (senderPublicKey (data t))) (\<lambda>k.
        evict E k i)))))"

text \<open>
  The \<open>while\<close> loop, with fuel: every round takes a transaction out of a consistent pool, so its
  size is enough (\<open>lowestLoop_ends\<close>); a round too many is the outcome \<open>OutOfFuel\<close>.
\<close>

fun lowestLoop :: "('h, 'w) pool_env \<Rightarrow> nat \<Rightarrow> ('w, unit) pprog" where
  "lowestLoop E fuel =
     andThen (reads getPoolSize) (\<lambda>n.
     whenever (int n > pe_maxTransactionsInPool E)
       (case fuel of 0 \<Rightarrow> throw OutOfFuel
        | Suc f \<Rightarrow> andThen (removeLowestPriorityTransaction E) (\<lambda>_. lowestLoop E f)))"

declare lowestLoop.simps [simp del]

definition removeLowestPriorityTransactions :: "('h, 'w) pool_env \<Rightarrow> ('w, unit) pprog" where
  "removeLowestPriorityTransactions E = andThen (reads getPoolSize) (lowestLoop E)"

definition makeRoom :: "('h, 'w) pool_env \<Rightarrow> ('w, unit) pprog" where
  "makeRoom E =
     andThen (removeOldTransactions E) (\<lambda>_.
     andThen (removeExpiredTransactions E) (\<lambda>_.
     removeLowestPriorityTransactions E))"

definition addTransactionToMempool :: "('h, 'w) pool_env \<Rightarrow> transaction \<Rightarrow> ('w, unit) pprog" where
  "addTransactionToMempool E t =
     andThen (defined AssertionException (senderPublicKey (data t))) (\<lambda>_.
     andThen (reads getPoolSize) (\<lambda>n.
     andThen (whenever (int n \<ge> pe_maxTransactionsInPool E) (makeRoom E)) (\<lambda>_.
     andThen (reads getPoolSize) (\<lambda>n'.
     andThen (whenever (int n' \<ge> pe_maxTransactionsInPool E)
        (andThen lowestPriority (\<lambda>lowest.
         andThen (throwIf (txFee t \<le> txFee lowest) (TransactionPoolFullError (txFee lowest))) (\<lambda>_.
         removeLowestPriorityTransaction E)))) (\<lambda>_.
     onMempool (mp_addTransaction E t))))))"

definition unlessDisposed :: "('w, unit) pprog \<Rightarrow> ('w, unit) pprog" where
  "unlessDisposed m = andThen (reads pl_disposed) (\<lambda>d. whenever (\<not> d) m)"

definition poolRow :: "('h, 'w) pool_env \<Rightarrow> string \<Rightarrow> string \<Rightarrow> transaction \<Rightarrow> stored" where
  "poolRow E i k t = \<lparr>st_height = pe_lastHeight E, st_id = i, st_sender = k, st_serialized = serialized t\<rparr>"

definition asPoolError :: "error \<Rightarrow> error" where
  "asPoolError e = (if poolErrorType e \<noteq> None then e else PoolErrorOf ''ERR_OTHER'')"

definition addTransaction :: "('h, 'w) pool_env \<Rightarrow> transaction \<Rightarrow> ('w, unit) pprog" where
  "addTransaction E t = unlessDisposed
     (andThen (defined AssertionException (txId t)) (\<lambda>i.
      andThen (defined AssertionException (senderPublicKey (data t))) (\<lambda>k.
      andThen (reads (\<lambda>s. sto_has i (pl_storage s))) (\<lambda>h.
      andThen (throwIf h TransactionAlreadyInPoolError) (\<lambda>_.
      andThen (onStorage (sto_add (poolRow E i k t))) (\<lambda>_.
      catching (andThen (liftE (pe_fee E t)) (\<lambda>_. addTransactionToMempool E t))
        (\<lambda>e. andThen (unstore i) (\<lambda>_. throw (asPoolError e)))))))))"

text \<open>
  The rebuild: the mempool is emptied, the forged transactions of reverted blocks are added again
  first, then every stored one that is not too old; what fails leaves the storage.
\<close>

definition readdForged :: "('h, 'w) pool_env \<Rightarrow> transaction \<Rightarrow> ('w, string) pprog" where
  "readdForged E t0 =
     andThen (liftE (pe_fromBytes E (serialized t0))) (\<lambda>t.
     andThen (defined AssertionException (txId t)) (\<lambda>i.
     andThen (defined AssertionException (senderPublicKey (data t))) (\<lambda>k.
     andThen (addTransactionToMempool E t) (\<lambda>_.
     andThen (onStorage (sto_add (poolRow E i k t))) (\<lambda>_.
     ret i)))))"

fun readdAllForged :: "('h, 'w) pool_env \<Rightarrow> transaction list \<Rightarrow> string list \<Rightarrow> ('w, string list) pprog" where
  "readdAllForged E [] ids = ret ids"
| "readdAllForged E (t # ts) ids =
     andThen (catching (andThen (readdForged E t) (\<lambda>i. ret (ids @ [i]))) (\<lambda>_. ret ids))
       (readdAllForged E ts)"

definition readdStored :: "('h, 'w) pool_env \<Rightarrow> string list \<Rightarrow> stored \<Rightarrow> ('w, unit) pprog" where
  "readdStored E ids r =
     whenever (st_id r \<notin> set ids)
       (if st_height r > expiredHeight E
        then catching (andThen (liftE (pe_fromBytes E (st_serialized r))) (addTransactionToMempool E))
               (\<lambda>_. unstore (st_id r))
        else unstore (st_id r))"

definition flushMempool :: "('w, unit) pprog" where
  "flushMempool = modify (\<lambda>s. s\<lparr>pl_mempool := mp_flush (pl_mempool s)\<rparr>)"

definition readdTransactions :: "('h, 'w) pool_env \<Rightarrow> transaction list \<Rightarrow> ('w, unit) pprog" where
  "readdTransactions E forged = unlessDisposed
     (andThen flushMempool (\<lambda>_.
      andThen (readdAllForged E forged []) (\<lambda>ids.
      andThen (reads (\<lambda>s. sto_getAll (pl_storage s))) (forEach (readdStored E ids)))))"

definition removeTransaction :: "('h, 'w) pool_env \<Rightarrow> transaction \<Rightarrow> ('w, unit) pprog" where
  "removeTransaction E t = unlessDisposed
     (andThen (defined AssertionException (txId t)) (\<lambda>i.
      andThen (defined AssertionException (senderPublicKey (data t))) (\<lambda>k.
      andThen (reads (\<lambda>s. sto_has i (pl_storage s))) (\<lambda>h.
      whenever h
        (andThen (onMempool (mp_removeTransaction E k i)) (\<lambda>removed.
         andThen (dropStored removed) (\<lambda>_.
         whenever (\<not> (\<exists>u \<in> set removed. txId u = Some i)) (unstore i))))))))"

definition removeForgedTransaction :: "('h, 'w) pool_env \<Rightarrow> transaction \<Rightarrow> ('w, unit) pprog" where
  "removeForgedTransaction E t = unlessDisposed
     (andThen (defined AssertionException (txId t)) (\<lambda>i.
      andThen (defined AssertionException (senderPublicKey (data t))) (\<lambda>k.
      andThen (reads (\<lambda>s. sto_has i (pl_storage s))) (\<lambda>h.
      whenever h
        (andThen (onMempool (mp_removeForgedTransaction E k i)) (\<lambda>removed.
         andThen (dropStored removed) (\<lambda>_.
         whenever (\<not> (\<exists>u \<in> set removed. txId u = Some i)) (unstore i))))))))"

definition cleanUp :: "('h, 'w) pool_env \<Rightarrow> ('w, unit) pprog" where
  "cleanUp E = unlessDisposed (makeRoom E)"

definition flush :: "('w, unit) pprog" where
  "flush = unlessDisposed
     (andThen flushMempool (\<lambda>_. modify (\<lambda>s. s\<lparr>pl_storage := sto_flush (pl_storage s)\<rparr>)))"

definition dispose :: "('w, unit) pprog" where
  "dispose = modify (\<lambda>s. s\<lparr>pl_disposed := True\<rparr>)"

text \<open>The events the service listens to (\<open>handle\<close>), and the reset at boot.\<close>

datatype pool_event = BuilderFinished | MilestoneChanged | BlockApplied | OtherEvent

fun handle :: "('h, 'w) pool_env \<Rightarrow> pool_event \<Rightarrow> ('w, unit) pprog" where
  "handle E BuilderFinished = readdTransactions E []"
| "handle E MilestoneChanged = readdTransactions E []"
| "handle E BlockApplied = cleanUp E"
| "handle E OtherEvent = ret ()"

definition bootPool :: "bool \<Rightarrow> ('w, unit) pprog" where
  "bootPool reset = whenever reset flush"

end
