(* ===== verification/PoolInvariant.thy ===== *)
theory PoolInvariant
  imports Pool
begin

text \<open>
  The pool's own invariant: the storage has exactly one row for every pending transaction, under
  its identifier and sender, the queues are those of their senders, and no identifier occurs
  twice. Every operation keeps it; an eviction only takes transactions away, so the loop that
  makes room ends, and an accepted transaction leaves the pool within its bound.
\<close>

section \<open>Storage and mempool agree\<close>

abbreviation view :: "'w pool \<Rightarrow> queues" where
  "view s \<equiv> queues (pl_mempool s)"

definition pairOf :: "transaction \<Rightarrow> string \<times> string" where
  "pairOf t = (the (txId t), the (senderPublicKey (data t)))"

definition rowPair :: "stored \<Rightarrow> string \<times> string" where
  "rowPair r = (st_id r, st_sender r)"

text \<open>
  The rows are those of the pending transactions and those of \<open>X\<close>: the transactions stored
  already and not yet in a queue.
\<close>

definition synced :: "(string \<times> string) set \<Rightarrow> 'w pool \<Rightarrow> bool" where
  "synced X s \<longleftrightarrow> queues_ok (view s) \<and> distinct (map st_id (rowsOf s)) \<and>
     rowPair ` set (rowsOf s) = pairOf ` set (pending (view s)) \<union> X \<and>
     fst ` X \<inter> fst ` pairOf ` set (pending (view s)) = {}"

definition pool_ok :: "'w pool \<Rightarrow> bool" where
  "pool_ok s \<longleftrightarrow> synced {} s"

definition emptyPool :: "'w pool" where
  "emptyPool = \<lparr>pl_mempool = [], pl_storage = [], pl_disposed = False\<rparr>"

lemma pool_ok_empty: "pool_ok emptyPool"
  by (simp add: pool_ok_def synced_def emptyPool_def queues_ok_def queues_def pending_def jm_values_def)

lemma pending_id:
  "queues_ok v \<Longrightarrow> t \<in> set (pending v) \<Longrightarrow> txId t = Some (fst (pairOf t))"
  "queues_ok v \<Longrightarrow> t \<in> set (pending v) \<Longrightarrow> senderPublicKey (data t) = Some (snd (pairOf t))"
  using queueOf_sender[of v t] by (auto simp: pending_mem pairOf_def)

lemma stored_iff_pending:
  assumes "pool_ok s" shows "sto_has i (rowsOf s) \<longleftrightarrow> Some i \<in> txId ` set (pending (view s))"
proof -
  have ok: "queues_ok (view s)" and rows: "rowPair ` set (rowsOf s) = pairOf ` set (pending (view s))"
    using assms by (simp_all add: pool_ok_def synced_def)
  have "st_id ` set (rowsOf s) = fst ` rowPair ` set (rowsOf s)" by (simp add: image_image rowPair_def)
  also have "\<dots> = fst ` pairOf ` set (pending (view s))" by (simp add: rows)
  finally show ?thesis
    unfolding sto_has_iff using pending_id(1)[OF ok] by (force simp: image_iff)
qed

text \<open>What remains when a part of the pending transactions is taken away.\<close>

lemma remaining:
  assumes "mset A + mset R = mset B" and "distinct (map f B)"
  shows "set A = {t \<in> set B. f t \<notin> f ` set R}"
proof -
  have eq: "mset (A @ R) = mset B" using assms(1) by simp
  then have "distinct (map f (A @ R))" by (intro distinct_sub_mset[OF assms(2)]) simp
  moreover have set: "set (A @ R) = set B" using eq by (rule mset_eq_setD)
  ultimately have "f ` set A \<inter> f ` set R = {}" by simp
  then show ?thesis using set by auto
qed

lemma synced_remove:
  assumes s: "synced X s"
    and sum: "mset removed + mset rest = mset (queueOf (view s) k)"
    and v: "view s' = putQueue k rest (view s)"
    and rows: "rowsOf s' = filter (\<lambda>r. Some (st_id r) \<notin> txId ` set removed) (rowsOf s)"
  shows "synced X s'" and "mset (pending (view s')) + mset removed = mset (pending (view s))"
proof -
  have ok: "queues_ok (view s)" using s by (simp add: synced_def)
  have "mset (pending (view s')) + mset (queueOf (view s) k) = mset (pending (view s)) + mset rest"
    using mset_putQueue[of "view s" k rest] ok v by (simp add: queues_ok_def)
  then have "mset (pending (view s')) + mset removed + mset rest = mset (pending (view s)) + mset rest"
    unfolding sum[symmetric] by (simp add: union_assoc)
  then show sum': "mset (pending (view s')) + mset removed = mset (pending (view s))" by simp
  have "distinct (map txId (pending (view s)))" using ok by (simp add: queues_ok_def)
  then have left: "set (pending (view s')) =
      {t \<in> set (pending (view s)). txId t \<notin> txId ` set removed}"
    using remaining[OF sum'] by simp
  have sub: "set removed \<subseteq> set (pending (view s))"
    using arg_cong[OF sum', of set_mset] by auto
  have ok': "queues_ok (view s')"
    unfolding v by (rule putQueue_sub_ok[OF ok]) (simp add: sum[symmetric])
  have fresh: "Some (fst p) \<notin> txId ` set removed" if "p \<in> X" for p
  proof
    assume "Some (fst p) \<in> txId ` set removed"
    then obtain t where t: "t \<in> set (pending (view s))" "txId t = Some (fst p)" using sub by auto
    then have "fst p = fst (pairOf t)" using pending_id(1)[OF ok t(1)] by simp
    then show False using s that t(1) by (auto simp: synced_def)
  qed
  have pid: "Some (fst (pairOf t)) = txId t" if "t \<in> set (pending (view s))" for t
    using pending_id(1)[OF ok that] by simp
  have "rowPair ` set (rowsOf s') =
      {p \<in> rowPair ` set (rowsOf s). Some (fst p) \<notin> txId ` set removed}"
    by (auto simp: rows rowPair_def)
  also have "\<dots> = {p \<in> pairOf ` set (pending (view s)) \<union> X. Some (fst p) \<notin> txId ` set removed}"
    using s by (simp add: synced_def)
  also have "\<dots> = pairOf ` set (pending (view s')) \<union> X"
    using fresh pid by (auto simp: left)
  finally show "synced X s'"
    using s ok' rows left by (auto simp: synced_def distinct_map_filter)
qed

section \<open>Evictions\<close>

text \<open>Public keys reach the pool with their schema checked, so each has an address.\<close>

definition goodEnv :: "('h, 'w) pool_env \<Rightarrow> bool" where
  "goodEnv E \<longleftrightarrow> (\<forall>k. addressable E k)"

lemma andThen_unstore [simp]:
  "andThen (unstore i) f s = f () (s\<lparr>pl_storage := sto_remove i (pl_storage s)\<rparr>)"
  by (simp add: unstore_def)

lemma dropStored_run:
  "(\<And>t. t \<in> set ts \<Longrightarrow> txId t \<noteq> None) \<Longrightarrow> dropStored ts s =
    (Inr (), s\<lparr>pl_storage := filter (\<lambda>r. Some (st_id r) \<notin> txId ` set ts) (rowsOf s)\<rparr>)"
proof (induction ts arbitrary: s)
  case (Cons t ts)
  then obtain i where "txId t = Some i" by fastforce
  then show ?case
    using Cons.IH Cons.prems
    by (auto simp: dropStored_def sto_remove_def intro!: arg_cong[of _ _ "\<lambda>x. s\<lparr>pl_storage := x\<rparr>"]
        filter_cong)
qed (simp add: dropStored_def)

lemma onMempool_run: "m (pl_mempool s) = (r, x) \<Longrightarrow> onMempool m s = (r, s\<lparr>pl_mempool := x\<rparr>)"
  by (simp add: within_def)

lemma removed_ids:
  assumes "queues_ok v" and "mset removed + mset rest = mset (queueOf v k)" and "t \<in> set removed"
  shows "txId t \<noteq> None" and "senderPublicKey (data t) = Some k"
proof -
  have "set (queueOf v k) = set removed \<union> set rest"
    using arg_cong[OF assms(2), of set_mset] by simp
  then show "txId t \<noteq> None" "senderPublicKey (data t) = Some k"
    using queueOf_sender[OF assms(1)] assms(3) by auto
qed

lemma evict_run:
  assumes E: "goodEnv E" and s: "synced X s"
  obtains removed rest s' where "evict E k i s = (Inr (), s')"
    and "removal i (queueOf (view s) k) removed rest"
    and "synced X s'" and "mset (pending (view s')) + mset removed = mset (pending (view s))"
    and "pl_disposed s' = pl_disposed s"
proof -
  have ok: "queues_ok (view s)" using s by (simp add: synced_def)
  have adr: "addressable E k" using E by (simp add: goodEnv_def)
  obtain removed rest m' where m: "mp_removeTransaction E k i (pl_mempool s) = (Inr removed, m')"
    and r: "removal i (queueOf (view s) k) removed rest"
    and v: "queues m' = putQueue k rest (view s)"
    by (rule mp_remove_cases[OF adr ok])
  define s' where "s' = s\<lparr>pl_mempool := m',
    pl_storage := filter (\<lambda>r. Some (st_id r) \<notin> txId ` set removed) (rowsOf s)\<rparr>"
  have "txId t \<noteq> None" if "t \<in> set removed" for t
    using removed_ids(1)[OF ok removal_mset[OF r]] that by simp
  then have run: "evict E k i s = (Inr (), s')"
    using onMempool_run[where m = "mp_removeTransaction E k i", OF m]
    by (simp add: evict_def andThen_Inr dropStored_run s'_def)
  have v': "view s' = putQueue k rest (view s)" and
    rows: "rowsOf s' = filter (\<lambda>r. Some (st_id r) \<notin> txId ` set removed) (rowsOf s)"
    by (simp_all add: s'_def v)
  show ?thesis
    using that[OF run r synced_remove[OF s removal_mset[OF r] v' rows]] by (simp add: s'_def)
qed

text \<open>
  Evictions keep the agreement and only take pending transactions away; they never throw.
\<close>

definition shrunk ::
    "(string \<times> string) set \<Rightarrow> transaction multiset \<Rightarrow> bool \<Rightarrow> 'w pool \<Rightarrow> bool" where
  "shrunk X M d s \<longleftrightarrow> synced X s \<and> mset (pending (view s)) \<subseteq># M \<and> pl_disposed s = d"

lemma triple_evict:
  fixes E :: "('h, 'w) pool_env"
  assumes "goodEnv E"
  shows "triple (shrunk X M d) (evict E k i) (\<lambda>_. shrunk X M d) (\<lambda>_ _. False)"
proof (unfold triple_def, intro allI impI)
  fix s :: "'w pool" assume sh: "shrunk X M d s"
  then have "synced X s" by (simp add: shrunk_def)
  then obtain removed rest s' where run: "evict E k i s = (Inr (), s')" and "synced X s'"
    and sum: "mset (pending (view s')) + mset removed = mset (pending (view s))"
    and "pl_disposed s' = pl_disposed s"
    using evict_run[OF assms] by metis
  moreover have "mset (pending (view s')) \<subseteq># mset (pending (view s))" by (simp add: sum[symmetric])
  ultimately have "shrunk X M d s'" using sh by (auto simp: shrunk_def intro: subset_mset.order_trans)
  then show "case evict E k i s of (Inl e, s') \<Rightarrow> False | (Inr x, s') \<Rightarrow> shrunk X M d s'"
    by (simp add: run)
qed

lemma triple_removeOld:
  assumes "goodEnv E"
  shows "triple (shrunk X M d) (removeOldTransactions E) (\<lambda>_. shrunk X M d) (\<lambda>_ _. False)"
  unfolding removeOldTransactions_def
  by (rule triple_andThen[of _ _ "\<lambda>_. shrunk X M d"])
    (auto intro: triple_reads triple_forEach triple_evict[OF assms])

lemma shrunk_ids:
  "shrunk X M d s \<Longrightarrow> t \<in> set (pending (view s)) \<Longrightarrow>
    txId t = Some (fst (pairOf t)) \<and> senderPublicKey (data t) = Some (snd (pairOf t))"
  using pending_id[of "view s" t] by (simp add: shrunk_def synced_def)

lemma triple_removeExpired:
  assumes "goodEnv E"
  shows "triple (shrunk X M d) (removeExpiredTransactions E) (\<lambda>_. shrunk X M d) (\<lambda>_ _. False)"
  unfolding removeExpiredTransactions_def
proof (rule triple_andThen)
  let ?R = "\<lambda>ts s. shrunk X M d s \<and> (\<forall>t \<in> set ts. txId t = Some (fst (pairOf t)) \<and>
    senderPublicKey (data t) = Some (snd (pairOf t)))"
  show "triple (shrunk X M d) (reads (\<lambda>s. qi_all (getAll (pl_mempool s)))) ?R (\<lambda>_ _. False)"
    by (rule triple_reads) (auto simp: set_all shrunk_ids)
  fix ts :: "transaction list"
  have one: "triple (shrunk X M d) (removeExpired E t) (\<lambda>_. shrunk X M d) (\<lambda>_ _. False)"
    if "txId t = Some i" "senderPublicKey (data t) = Some k" for t i k
    using that triple_evict[OF assms, of X M d k i]
    by (cases "canExpire t \<and> the (expiration (data t)) \<le> pe_lastHeight E + 1")
      (simp_all add: removeExpired_def isExpired_total triple_def)
  show "triple (?R ts) (forEach (removeExpired E) ts) (\<lambda>_. shrunk X M d) (\<lambda>_ _. False)"
  proof (cases "\<forall>t \<in> set ts. txId t = Some (fst (pairOf t)) \<and>
      senderPublicKey (data t) = Some (snd (pairOf t))")
    case True
    then have "triple (shrunk X M d) (forEach (removeExpired E) ts) (\<lambda>_. shrunk X M d) (\<lambda>_ _. False)"
      using one by (auto intro!: triple_forEach)
    then show ?thesis by (rule triple_pre) simp
  qed (auto simp: triple_def)
qed

lemma getPoolSize_pending: "getPoolSize s = length (pending (view s))"
  by (simp add: getPoolSize_def getSize_pending)

lemma lowestPriority_run:
  "qi_first (getFromLowestPriority (pl_mempool s)) = Inr t \<Longrightarrow> lowestPriority s = (Inr t, s)"
  by (simp add: lowestPriority_def)

text \<open>A round of the loop takes at least the transaction of the lowest priority away.\<close>

lemma removeLowest_run:
  assumes E: "goodEnv E" and s: "shrunk X M d s" and n: "getPoolSize s \<noteq> 0"
  obtains s' where "removeLowestPriorityTransaction E s = (Inr (), s')" and "shrunk X M d s'"
    and "getPoolSize s' < getPoolSize s"
proof -
  have sy: "synced X s" using s by (simp add: shrunk_def)
  have ok: "queues_ok (view s)" using sy by (simp add: synced_def)
  have "pending (view s) \<noteq> []" using n by (auto simp: getPoolSize_pending)
  then obtain t where t: "qi_first (getFromLowestPriority (pl_mempool s)) = Inr t"
    and mem: "t \<in> set (pending (view s))"
    using lowest_first by metis
  let ?i = "fst (pairOf t)" and ?k = "snd (pairOf t)"
  obtain removed rest s' where run: "evict E ?k ?i s = (Inr (), s')"
    and r: "removal ?i (queueOf (view s) ?k) removed rest"
    and sum: "mset (pending (view s')) + mset removed = mset (pending (view s))"
    using evict_run[OF E sy] by metis
  have "t \<in> set (queueOf (view s) ?k)" using queueOf_mem[OF ok] mem pending_id(2)[OF ok mem] by blast
  then have "removed \<noteq> []" using removal_found(2)[OF r _ pending_id(1)[OF ok mem]] by blast
  then have smaller: "getPoolSize s' < getPoolSize s"
    using arg_cong[OF sum, of size] by (cases removed) (simp_all add: getPoolSize_pending)
  have "shrunk X M d s'" using triple_InrD[OF triple_evict[OF E] s run] .
  moreover have "removeLowestPriorityTransaction E s = (Inr (), s')"
    using n t pending_id[OF ok mem] run
    by (simp add: removeLowestPriorityTransaction_def whenever_def
        andThen_Inr[where m = lowestPriority, OF lowestPriority_run[OF t]])
  ultimately show ?thesis using that smaller by blast
qed

lemma lowestLoop_ends:
  assumes E: "goodEnv E" and max: "0 \<le> pe_maxTransactionsInPool E"
  shows "shrunk X M d s \<Longrightarrow> getPoolSize s \<le> fuel \<Longrightarrow>
    \<exists>s'. lowestLoop E fuel s = (Inr (), s') \<and> shrunk X M d s' \<and>
      int (getPoolSize s') \<le> pe_maxTransactionsInPool E"
proof (induction fuel arbitrary: s)
  case 0
  then show ?case using max by (simp add: lowestLoop.simps)
next
  case (Suc fuel)
  show ?case
  proof (cases "int (getPoolSize s) > pe_maxTransactionsInPool E")
    case True
    then have "getPoolSize s \<noteq> 0" using max by auto
    then obtain s1 where s1: "removeLowestPriorityTransaction E s = (Inr (), s1)" "shrunk X M d s1"
      "getPoolSize s1 < getPoolSize s"
      using removeLowest_run[OF E Suc.prems(1)] by metis
    then have "lowestLoop E (Suc fuel) s = lowestLoop E fuel s1"
      using True by (simp add: lowestLoop.simps[of E "Suc fuel"] andThen_Inr)
    then show ?thesis using Suc.IH[of s1] s1 Suc.prems(2) by simp
  next
    case False
    then show ?thesis using Suc.prems(1) by (simp add: lowestLoop.simps[of E "Suc fuel"])
  qed
qed

lemma makeRoom_run:
  assumes E: "goodEnv E" and max: "0 \<le> pe_maxTransactionsInPool E" and s: "shrunk X M d s"
  obtains s' where "makeRoom E s = (Inr (), s')" and "shrunk X M d s'"
    and "int (getPoolSize s') \<le> pe_maxTransactionsInPool E"
proof -
  obtain s1 where 1: "removeOldTransactions E s = (Inr (), s1)" "shrunk X M d s1"
    using triple_run[OF triple_removeOld[OF E] s] by (metis old.unit.exhaust)
  obtain s2 where 2: "removeExpiredTransactions E s1 = (Inr (), s2)" "shrunk X M d s2"
    using triple_run[OF triple_removeExpired[OF E] 1(2)] by (metis old.unit.exhaust)
  obtain s3 where "lowestLoop E (getPoolSize s2) s2 = (Inr (), s3)" "shrunk X M d s3"
    "int (getPoolSize s3) \<le> pe_maxTransactionsInPool E"
    using lowestLoop_ends[OF E max 2(2) le_refl] by blast
  then show ?thesis
    using that[of s3] 1 2 by (simp add: makeRoom_def andThen_Inr removeLowestPriorityTransactions_def)
qed


section \<open>Additions\<close>

text \<open>
  Adding to the mempool first makes room; then the transaction is appended to its sender's queue
  or rejected, with the queues that the evictions left.
\<close>

lemma addToMempool_cases:
  fixes E :: "('h, 'w) pool_env" and s :: "'w pool"
  assumes E: "goodEnv E" and max: "1 \<le> pe_maxTransactionsInPool E"
    and s: "shrunk X M d s" and k: "senderPublicKey (data t) = Some k"
  obtains s1 m' where "addTransactionToMempool E t s = (Inr (), s1\<lparr>pl_mempool := m'\<rparr>)"
      "shrunk X M d s1" "int (getPoolSize s1) < pe_maxTransactionsInPool E"
      "queues m' = putQueue k (queueOf (view s1) k @ [t]) (view s1)"
  | e s' where "addTransactionToMempool E t s = (Inl e, s')" "shrunk X M d s'"
proof -
  let ?max = "pe_maxTransactionsInPool E"
  obtain s1 where s1: "whenever (int (getPoolSize s) \<ge> ?max) (makeRoom E) s = (Inr (), s1)"
    "shrunk X M d s1" "int (getPoolSize s1) \<le> ?max"
  proof (cases "int (getPoolSize s) \<ge> ?max")
    case True
    have "0 \<le> ?max" using max by simp
    then obtain s' where "makeRoom E s = (Inr (), s')" "shrunk X M d s'" "int (getPoolSize s') \<le> ?max"
      using makeRoom_run[OF E _ s] by metis
    then show ?thesis using that True by simp
  qed (use that s in simp)
  define room :: "('w, unit) pprog" where "room = whenever (int (getPoolSize s1) \<ge> ?max)
    (andThen lowestPriority (\<lambda>lowest.
     andThen (throwIf (txFee t \<le> txFee lowest) (TransactionPoolFullError (txFee lowest))) (\<lambda>_.
     removeLowestPriorityTransaction E)))"
  have run: "addTransactionToMempool E t s =
      andThen room (\<lambda>_. onMempool (mp_addTransaction E t)) s1"
    using k s1(1) by (simp add: addTransactionToMempool_def room_def andThen_Inr)
  have sy: "queues_ok (view s1)" using s1(2) by (simp add: shrunk_def synced_def)
  consider e where "room s1 = (Inl e, s1)" | s2 where "room s1 = (Inr (), s2)" "shrunk X M d s2"
      "int (getPoolSize s2) < ?max"
  proof (cases "int (getPoolSize s1) \<ge> ?max")
    case True
    then have n: "getPoolSize s1 \<noteq> 0" using max by auto
    then have "pending (view s1) \<noteq> []" by (auto simp: getPoolSize_pending)
    then obtain u where u: "lowestPriority s1 = (Inr u, s1)"
      using lowest_first lowestPriority_run by metis
    obtain s2 where "removeLowestPriorityTransaction E s1 = (Inr (), s2)" "shrunk X M d s2"
      "getPoolSize s2 < getPoolSize s1"
      using removeLowest_run[OF E s1(2) n] by metis
    then show ?thesis
      using that True s1(3) by (cases "txFee t \<le> txFee u")
        (simp_all add: room_def whenever_def andThen_Inr[where m = lowestPriority, OF u])
  next
    case False
    then show ?thesis using that(2)[of s1] s1(2) by (simp add: room_def whenever_def)
  qed
  then show ?thesis
  proof cases
    case 1
    then show ?thesis using that(2)[of e s1] run s1(2) by (simp add: andThen_def)
  next
    case 2
    have sy2: "queues_ok (view s2)" using 2(2) by (simp add: shrunk_def synced_def)
    have adr: "addressable E k" using E by (simp add: goodEnv_def)
    have run2: "addTransactionToMempool E t s = onMempool (mp_addTransaction E t) s2"
      using run 2(1) by (simp add: andThen_def)
    show ?thesis
    proof (rule mp_add_cases[OF k adr sy2])
      fix m' assume "mp_addTransaction E t (pl_mempool s2) = (Inr (), m')"
        "queues m' = putQueue k (queueOf (view s2) k @ [t]) (view s2)"
      then show ?thesis using that(1)[of m' s2] 2 run2 by (simp add: within_def)
    next
      fix e m' assume "mp_addTransaction E t (pl_mempool s2) = (Inl e, m')" "queues m' = view s2"
      then show ?thesis using that(2)[of e "s2\<lparr>pl_mempool := m'\<rparr>"] 2 run2
        by (simp add: within_def shrunk_def synced_def)
    qed
  qed
qed

text \<open>A stored transaction enters its queue.\<close>

lemma synced_append:
  assumes s: "synced X s" and X: "(i, k) \<in> X"
    and t: "txId t = Some i" "senderPublicKey (data t) = Some k"
    and v: "view s' = putQueue k (queueOf (view s) k @ [t]) (view s)" and rows: "rowsOf s' = rowsOf s"
  shows "synced (X - {(i, k)}) s'" and "mset (pending (view s')) = add_mset t (mset (pending (view s)))"
proof -
  have ok: "queues_ok (view s)" using s by (simp add: synced_def)
  have sum: "mset (pending (view s')) + mset (queueOf (view s) k) =
      mset (pending (view s)) + mset (queueOf (view s) k @ [t])"
    using mset_putQueue[of "view s"] ok v by (simp add: queues_ok_def)
  then show pend: "mset (pending (view s')) = add_mset t (mset (pending (view s)))" by simp
  have set: "set (pending (view s')) = insert t (set (pending (view s)))"
    by (metis pend set_mset_add_mset_insert set_mset_mset)
  have "i \<notin> fst ` pairOf ` set (pending (view s))" using s X by (force simp: synced_def)
  then have fresh: "Some i \<notin> txId ` set (pending (view s))"
    using pending_id(1)[OF ok] by (force simp: image_iff)
  have "mset (map txId (pending (view s'))) = mset (Some i # map txId (pending (view s)))"
    using arg_cong[OF pend, of "image_mset txId"] t(1) by simp
  moreover have "distinct (Some i # map txId (pending (view s)))"
    using fresh ok by (simp add: queues_ok_def)
  ultimately have dist: "distinct (map txId (pending (view s')))"
    by (metis mset_eq_imp_distinct_iff)
  have ok': "queues_ok (view s')" unfolding v
  proof (rule putQueue_ok[OF ok])
    fix u assume "u \<in> set (queueOf (view s) k @ [t])"
    then show "senderPublicKey (data u) = Some k \<and> txId u \<noteq> None"
      using queueOf_sender[OF ok, of u k] t by auto
  qed (use dist v in simp)
  have pair: "pairOf t = (i, k)" using t by (simp add: pairOf_def)
  have one: "k' = k" if "(i, k') \<in> X" for k'
  proof -
    have "(i, k') \<in> rowPair ` set (rowsOf s)" "(i, k) \<in> rowPair ` set (rowsOf s)"
      using s X that by (auto simp: synced_def)
    then obtain r r' where "r \<in> set (rowsOf s)" "rowPair r = (i, k')"
      "r' \<in> set (rowsOf s)" "rowPair r' = (i, k)" by (metis imageE)
    then show ?thesis using s by (auto simp: synced_def rowPair_def distinct_map dest: inj_onD)
  qed
  then have "i \<notin> fst ` (X - {(i, k)})" by force
  then show "synced (X - {(i, k)}) s'"
    using s ok' X by (auto simp: synced_def rows set pair)
qed


text \<open>A stored transaction that does not enter a queue leaves the storage again.\<close>

lemma synced_unstore:
  assumes s: "synced X s" and X: "(i, k) \<in> X"
  shows "synced (X - {(i, k)}) (s\<lparr>pl_storage := sto_remove i (pl_storage s)\<rparr>)"
proof -
  have fresh: "i \<notin> fst ` pairOf ` set (pending (view s))" using s X by (force simp: synced_def)
  have in_rows: "p \<in> rowPair ` set (rowsOf s)" if "p \<in> X" for p using s that by (auto simp: synced_def)
  have one: "p = (i, k)" if p: "p \<in> X" "fst p = i" for p
  proof -
    obtain r r' where r: "r \<in> set (rowsOf s)" "rowPair r = p" "r' \<in> set (rowsOf s)" "rowPair r' = (i, k)"
      using in_rows[OF p(1)] in_rows[OF X] by (metis imageE)
    then have "st_id r = st_id r'" using p(2) by (auto simp: rowPair_def)
    then have "r = r'" using s r(1,3) by (auto simp: synced_def distinct_map dest: inj_onD)
    then show ?thesis using r by simp
  qed
  have "rowPair ` set (sto_remove i (rowsOf s)) = {p \<in> rowPair ` set (rowsOf s). fst p \<noteq> i}"
    unfolding sto_remove_def by (rule image_filter) (simp add: rowPair_def)
  also have "\<dots> = {p \<in> pairOf ` set (pending (view s)) \<union> X. fst p \<noteq> i}"
    using s by (simp add: synced_def)
  also have "\<dots> = pairOf ` set (pending (view s)) \<union> (X - {(i, k)})"
  proof -
    have a: "fst p \<noteq> i" if "p \<in> pairOf ` set (pending (view s))" for p
      using fresh that by blast
    have "p \<noteq> (i, k)" if "fst p \<noteq> i" for p using that by auto
    then show ?thesis using a one by blast
  qed
  finally have rows: "rowPair ` set (sto_remove i (rowsOf s)) =
      pairOf ` set (pending (view s)) \<union> (X - {(i, k)})" .
  have "fst ` (X - {(i, k)}) \<inter> fst ` pairOf ` set (pending (view s)) = {}"
    using s by (auto simp: synced_def)
  then show ?thesis
    using s rows by (simp add: synced_def sto_remove_def distinct_map_filter)
qed

lemma synced_store:
  assumes s: "synced X s" and i: "\<not> sto_has i (rowsOf s)" and r: "st_id r = i" "st_sender r = k"
  shows "onStorage (sto_add r) s = (Inr (), s\<lparr>pl_storage := rowsOf s @ [r]\<rparr>)"
    and "synced (insert (i, k) X) (s\<lparr>pl_storage := rowsOf s @ [r]\<rparr>)"
proof -
  show "onStorage (sto_add r) s = (Inr (), s\<lparr>pl_storage := rowsOf s @ [r]\<rparr>)"
    using i r by (simp add: within_def sto_add_def)
  have new: "i \<notin> st_id ` set (rowsOf s)" using i by (simp add: sto_has_iff)
  have "fst ` rowPair ` set (rowsOf s) = st_id ` set (rowsOf s)" by (simp add: image_image rowPair_def)
  then have "i \<notin> fst ` pairOf ` set (pending (view s))"
    using new s by (metis UnCI image_Un synced_def)
  then have "fst ` insert (i, k) X \<inter> fst ` pairOf ` set (pending (view s)) = {}"
    using s by (auto simp: synced_def)
  moreover have "rowPair r = (i, k)" using r by (simp add: rowPair_def)
  ultimately show "synced (insert (i, k) X) (s\<lparr>pl_storage := rowsOf s @ [r]\<rparr>)"
    using s new r by (auto simp: synced_def)
qed

lemma asPoolError_type: "poolErrorType (asPoolError e) \<noteq> None"
  by (auto simp: asPoolError_def)

lemma addTransaction_cases:
  fixes E :: "('h, 'w) pool_env" and s :: "'w pool"
  assumes E: "goodEnv E" and max: "1 \<le> pe_maxTransactionsInPool E"
    and s: "pool_ok s" and live: "\<not> pl_disposed s"
    and t: "txId t = Some i" "senderPublicKey (data t) = Some k"
  obtains "addTransaction E t s = (Inl TransactionAlreadyInPoolError, s)" "sto_has i (rowsOf s)"
  | s' where "addTransaction E t s = (Inr (), s')" "\<not> sto_has i (rowsOf s)" "pool_ok s'"
      "t \<in> set (pending (view s'))" "mset (pending (view s')) \<subseteq># add_mset t (mset (pending (view s)))"
      "int (getPoolSize s') \<le> pe_maxTransactionsInPool E"
  | e s' where "addTransaction E t s = (Inl e, s')" "\<not> sto_has i (rowsOf s)" "pool_ok s'"
      "mset (pending (view s')) \<subseteq># mset (pending (view s))" "poolErrorType e \<noteq> None"
proof (cases "sto_has i (rowsOf s)")
  case True
  then show ?thesis
    using that(1) live t by (simp add: addTransaction_def unlessDisposed_def whenever_def)
next
  case False
  let ?M = "mset (pending (view s))" and ?r = "poolRow E i k t"
  have sy: "synced {} s" using s by (simp add: pool_ok_def)
  have r: "st_id ?r = i" "st_sender ?r = k" by (simp_all add: poolRow_def)
  define s1 where "s1 = s\<lparr>pl_storage := rowsOf s @ [?r]\<rparr>"
  have store: "onStorage (sto_add ?r) s = (Inr (), s1)" and sh: "shrunk {(i, k)} ?M False s1"
    using synced_store[OF sy False r] live by (simp_all add: s1_def shrunk_def)
  define body where "body = andThen (liftE (pe_fee E t)) (\<lambda>_. addTransactionToMempool E t)"
  have run: "addTransaction E t s =
      catching body (\<lambda>e. andThen (unstore i) (\<lambda>_. throw (asPoolError e))) s1"
    using live t False store by (simp add: addTransaction_def unlessDisposed_def whenever_def body_def
        andThen_Inr[where m = "onStorage (sto_add ?r)"])
  note rejected = that(3)
  have fails: ?thesis if "body s1 = (Inl e, s2)" "shrunk {(i, k)} ?M False s2" for e s2
  proof -
    have "synced {(i, k)} s2" using that(2) by (simp add: shrunk_def)
    then have "pool_ok (s2\<lparr>pl_storage := sto_remove i (pl_storage s2)\<rparr>)" (is "pool_ok ?s'")
      using synced_unstore[of "{(i, k)}" s2 i k] by (simp add: pool_ok_def)
    moreover have "addTransaction E t s = (Inl (asPoolError e), ?s')"
      by (simp add: run catching_Inl[where m = body, OF that(1)])
    moreover have "mset (pending (view ?s')) \<subseteq># ?M" using that(2) by (simp add: shrunk_def)
    ultimately show ?thesis using rejected[of "asPoolError e" ?s'] False asPoolError_type by blast
  qed
  show ?thesis
  proof (cases "pe_fee E t")
    case (Inl e)
    then show ?thesis using fails[of e s1] sh by (simp add: body_def)
  next
    case (Inr u)
    then have body: "body s1 = addTransactionToMempool E t s1" by (simp add: body_def)
    show ?thesis
    proof (rule addToMempool_cases[OF E max sh t(2)])
      fix s2 :: "'w pool" and m'
      let ?s' = "s2\<lparr>pl_mempool := m'\<rparr>"
      assume add: "addTransactionToMempool E t s1 = (Inr (), ?s')" and sh2: "shrunk {(i, k)} ?M False s2"
        and size: "int (getPoolSize s2) < pe_maxTransactionsInPool E"
        and v: "queues m' = putQueue k (queueOf (view s2) k @ [t]) (view s2)"
      have sy2: "synced {(i, k)} s2" using sh2 by (simp add: shrunk_def)
      have v': "view ?s' = putQueue k (queueOf (view s2) k @ [t]) (view s2)" by (simp add: v)
      have "synced ({(i, k)} - {(i, k)}) ?s'"
        and sum: "mset (pending (view ?s')) = add_mset t (mset (pending (view s2)))"
        using synced_append[OF sy2 _ t v'] by simp_all
      then have "pool_ok ?s'" by (simp add: pool_ok_def)
      moreover have "t \<in> set (pending (view ?s'))"
        using arg_cong[OF sum, of set_mset] by (simp only: set_mset_mset) simp
      moreover have "mset (pending (view ?s')) \<subseteq># add_mset t ?M"
        using sum sh2 by (simp add: shrunk_def)
      moreover have "int (getPoolSize ?s') \<le> pe_maxTransactionsInPool E"
        using size arg_cong[OF sum, of size] by (simp add: getPoolSize_pending)
      moreover have "addTransaction E t s = (Inr (), ?s')"
        using run body add by (simp add: catching_def)
      ultimately show ?thesis using that(2) False by blast
    next
      fix e s2 assume "addTransactionToMempool E t s1 = (Inl e, s2)" "shrunk {(i, k)} ?M False s2"
      then show ?thesis using fails body by simp
    qed
  qed
qed


section \<open>Removals and the rebuild\<close>

text \<open>
  A removal by identifier: whatever the queue gave up leaves the storage, and so does the
  identifier itself.
\<close>

definition givesUp :: "(string \<Rightarrow> string \<Rightarrow> ('w mempool, error, transaction list) prog) \<Rightarrow> 'w pool \<Rightarrow> bool" where
  "givesUp rem s \<longleftrightarrow> (\<forall>k i. \<exists>removed rest m'. rem k i (pl_mempool s) = (Inr removed, m') \<and>
     mset removed + mset rest = mset (queueOf (view s) k) \<and> queues m' = putQueue k rest (view s) \<and>
     (\<forall>t \<in> set (queueOf (view s) k). txId t = Some i \<longrightarrow> (\<exists>u \<in> set removed. txId u = Some i)))"

lemma givesUp_remove:
  assumes "goodEnv E" and "queues_ok (view s)" shows "givesUp (mp_removeTransaction E) s"
  unfolding givesUp_def
proof (intro allI)
  fix k i
  have "addressable E k" using assms(1) by (simp add: goodEnv_def)
  then obtain removed rest m' where "mp_removeTransaction E k i (pl_mempool s) = (Inr removed, m')"
    and r: "removal i (queueOf (view s) k) removed rest" and "queues m' = putQueue k rest (view s)"
    using mp_remove_cases[OF _ assms(2)] by metis
  moreover have "mset removed + mset rest = mset (queueOf (view s) k)" by (rule removal_mset[OF r])
  moreover have "\<forall>t \<in> set (queueOf (view s) k). txId t = Some i \<longrightarrow> (\<exists>u \<in> set removed. txId u = Some i)"
    using removal_found(1)[OF r] by blast
  ultimately show "\<exists>removed rest m'. mp_removeTransaction E k i (pl_mempool s) = (Inr removed, m') \<and>
     mset removed + mset rest = mset (queueOf (view s) k) \<and> queues m' = putQueue k rest (view s) \<and>
     (\<forall>t \<in> set (queueOf (view s) k). txId t = Some i \<longrightarrow> (\<exists>u \<in> set removed. txId u = Some i))"
    by blast
qed

lemma forgedRemoval_found:
  assumes "t \<in> set ts" and "txId t = Some i"
  shows "\<exists>u \<in> set (fst (forgedRemoval i ts)). txId u = Some i"
proof -
  obtain n where n: "find_index (\<lambda>t. txId t = Some i) ts = Some n"
    using assms by (cases "find_index (\<lambda>t. txId t = Some i) ts") (auto simp: find_index_None)
  then have "n < length ts" "txId (ts ! n) = Some i" using find_index_Some by fastforce+
  then have "ts ! n \<in> set (take (n + 1) ts)" by (auto simp: in_set_conv_nth)
  then show ?thesis using n \<open>txId (ts ! n) = Some i\<close> by (auto simp: forgedRemoval_def)
qed

lemma givesUp_forged:
  assumes "goodEnv E" and "queues_ok (view s)" shows "givesUp (mp_removeForgedTransaction E) s"
  unfolding givesUp_def
proof (intro allI)
  fix k i
  let ?ts = "queueOf (view s) k"
  have "addressable E k" using assms(1) by (simp add: goodEnv_def)
  then obtain m' where
    "mp_removeForgedTransaction E k i (pl_mempool s) = (Inr (fst (forgedRemoval i ?ts)), m')"
    and "queues m' = putQueue k (snd (forgedRemoval i ?ts)) (view s)"
    using mp_removeForged_cases[OF _ assms(2)] by metis
  moreover have "mset (fst (forgedRemoval i ?ts)) + mset (snd (forgedRemoval i ?ts)) = mset ?ts"
    by (metis forgedRemoval_append mset_append)
  ultimately show "\<exists>removed rest m'. mp_removeForgedTransaction E k i (pl_mempool s) = (Inr removed, m') \<and>
     mset removed + mset rest = mset ?ts \<and> queues m' = putQueue k rest (view s) \<and>
     (\<forall>t \<in> set ?ts. txId t = Some i \<longrightarrow> (\<exists>u \<in> set removed. txId u = Some i))"
    using forgedRemoval_found by blast
qed

lemma remove_run:
  fixes s :: "'w pool"
  assumes s: "pool_ok s" and rem: "givesUp rem s" and i: "sto_has i (rowsOf s)"
    and k: "\<And>t. t \<in> set (pending (view s)) \<Longrightarrow> txId t = Some i \<Longrightarrow> senderPublicKey (data t) = Some k"
  obtains s' where "andThen (onMempool (rem k i)) (\<lambda>removed. andThen (dropStored removed) (\<lambda>_.
      whenever (\<not> (\<exists>u \<in> set removed. txId u = Some i)) (unstore i))) s = (Inr (), s')"
    and "pool_ok s'" and "\<not> sto_has i (rowsOf s')"
    and "mset (pending (view s')) \<subseteq># mset (pending (view s))" and "pl_disposed s' = pl_disposed s"
proof -
  have sy: "synced {} s" using s by (simp add: pool_ok_def)
  have ok: "queues_ok (view s)" using sy by (simp add: synced_def)
  obtain removed rest m' where m: "rem k i (pl_mempool s) = (Inr removed, m')"
    and sum: "mset removed + mset rest = mset (queueOf (view s) k)"
    and v: "queues m' = putQueue k rest (view s)"
    and found: "\<And>t. t \<in> set (queueOf (view s) k) \<Longrightarrow> txId t = Some i \<Longrightarrow> \<exists>u \<in> set removed. txId u = Some i"
    using rem unfolding givesUp_def by metis
  define s' where "s' = s\<lparr>pl_mempool := m',
    pl_storage := filter (\<lambda>r. Some (st_id r) \<notin> txId ` set removed) (rowsOf s)\<rparr>"
  obtain t where t: "t \<in> set (pending (view s))" "txId t = Some i"
    using i stored_iff_pending[OF s] by auto
  then have hit: "\<exists>u \<in> set removed. txId u = Some i"
    using found[of t] k queueOf_mem[OF ok] by blast
  have "txId u \<noteq> None" if "u \<in> set removed" for u using removed_ids(1)[OF ok sum that] .
  then have run: "andThen (onMempool (rem k i)) (\<lambda>removed. andThen (dropStored removed) (\<lambda>_.
      whenever (\<not> (\<exists>u \<in> set removed. txId u = Some i)) (unstore i))) s = (Inr (), s')"
    using onMempool_run[where m = "rem k i", OF m] hit
    by (auto simp: andThen_Inr dropStored_run whenever_def s'_def)
  have v': "view s' = putQueue k rest (view s)"
    and rows: "rowsOf s' = filter (\<lambda>r. Some (st_id r) \<notin> txId ` set removed) (rowsOf s)"
    by (simp_all add: s'_def v)
  have "pool_ok s'" and sum': "mset (pending (view s')) + mset removed = mset (pending (view s))"
    using synced_remove[OF sy sum v' rows] by (simp_all add: pool_ok_def)
  moreover have "\<not> sto_has i (rowsOf s')"
    using hit by (force simp: sto_has_iff rows)
  moreover have "mset (pending (view s')) \<subseteq># mset (pending (view s))" by (simp add: sum'[symmetric])
  ultimately show ?thesis using that run by (simp add: s'_def)
qed

text \<open>
  The rebuild, over rows whose bytes decode to the transaction they were stored for: the rows not
  yet visited are those of \<open>X\<close>.
\<close>

definition decodes :: "('h, 'w) pool_env \<Rightarrow> stored \<Rightarrow> bool" where
  "decodes E r \<longleftrightarrow> (\<forall>t. pe_fromBytes E (st_serialized r) = Inr t \<longrightarrow>
     txId t = Some (st_id r) \<and> senderPublicKey (data t) = Some (st_sender r))"

lemma readdStored_run:
  fixes E :: "('h, 'w) pool_env" and s :: "'w pool"
  assumes E: "goodEnv E" and max: "1 \<le> pe_maxTransactionsInPool E"
    and s: "synced X s" and X: "rowPair r \<in> X" and d: "decodes E r"
    and fresh: "st_id r \<notin> set ids"
  obtains s' where "readdStored E ids r s = (Inr (), s')" and "synced (X - {rowPair r}) s'"
    and "pl_disposed s' = pl_disposed s"
proof (cases "st_height r > expiredHeight E")
  case False
  then have "readdStored E ids r s = (Inr (), s\<lparr>pl_storage := sto_remove (st_id r) (rowsOf s)\<rparr>)"
    by (simp add: readdStored_def unstore_def whenever_def fresh)
  then show ?thesis using that synced_unstore[OF s, of "st_id r" "st_sender r"] X
    by (simp add: rowPair_def)
next
  case True
  define body where "body = andThen (liftE (pe_fromBytes E (st_serialized r))) (addTransactionToMempool E)"
  have run: "readdStored E ids r s = catching body (\<lambda>_. unstore (st_id r)) s"
    using True fresh by (simp add: readdStored_def body_def whenever_def)
  note result = that
  have fails: ?thesis if "body s = (Inl e, s2)" "synced X s2" "pl_disposed s2 = pl_disposed s" for e s2
  proof -
    have "readdStored E ids r s = (Inr (), s2\<lparr>pl_storage := sto_remove (st_id r) (rowsOf s2)\<rparr>)"
      by (simp add: run catching_Inl[where m = body, OF that(1)] unstore_def)
    then show ?thesis
      using result synced_unstore[OF that(2), of "st_id r" "st_sender r"] X that(3) by (simp add: rowPair_def)
  qed
  show ?thesis
  proof (cases "pe_fromBytes E (st_serialized r)")
    case (Inl e)
    then show ?thesis using fails[of e s] s by (simp add: body_def)
  next
    case (Inr t)
    then have t: "txId t = Some (st_id r)" "senderPublicKey (data t) = Some (st_sender r)"
      using d by (simp_all add: decodes_def)
    have body: "body s = addTransactionToMempool E t s" by (simp add: body_def Inr)
    have sh: "shrunk X (mset (pending (view s))) (pl_disposed s) s" using s by (simp add: shrunk_def)
    show ?thesis
    proof (rule addToMempool_cases[OF E max sh t(2)])
      fix s2 :: "'w pool" and m'
      let ?s' = "s2\<lparr>pl_mempool := m'\<rparr>"
      assume add: "addTransactionToMempool E t s = (Inr (), ?s')"
        and sh2: "shrunk X (mset (pending (view s))) (pl_disposed s) s2"
        and v: "queues m' = putQueue (st_sender r) (queueOf (view s2) (st_sender r) @ [t]) (view s2)"
      have v': "view ?s' = putQueue (st_sender r) (queueOf (view s2) (st_sender r) @ [t]) (view s2)"
        by (simp add: v)
      have "synced X s2" using sh2 by (simp add: shrunk_def)
      then have "synced (X - {rowPair r}) ?s'"
        using synced_append(1)[OF _ _ t v'] X by (simp add: rowPair_def)
      then show ?thesis using that[of ?s'] run body add sh2 by (simp add: catching_def shrunk_def)
    next
      fix e s2 assume "addTransactionToMempool E t s = (Inl e, s2)"
        "shrunk X (mset (pending (view s))) (pl_disposed s) s2"
      then show ?thesis using fails body by (simp add: shrunk_def)
    qed
  qed
qed

text \<open>Nothing that an addition to the mempool does writes a row.\<close>

lemma keeps_onMempool: "keeps (\<lambda>s. set (rowsOf s) \<subseteq> R) (onMempool m)"
  by (auto simp: keeps_def within_def split: prod.splits)

lemma keeps_unstore: "keeps (\<lambda>s. set (rowsOf s) \<subseteq> R) (unstore i)"
  by (auto simp: keeps_def unstore_def modify_def sto_remove_def)

lemma keeps_evict: "keeps (\<lambda>s. set (rowsOf s) \<subseteq> R) (evict E k i)"
  unfolding evict_def dropStored_def by (intro keeps_intros keeps_onMempool keeps_unstore)

lemma keeps_removeLowest: "keeps (\<lambda>s. set (rowsOf s) \<subseteq> R) (removeLowestPriorityTransaction E)"
  unfolding removeLowestPriorityTransaction_def lowestPriority_def by (intro keeps_intros keeps_evict)

lemma keeps_lowestLoop: "keeps (\<lambda>s. set (rowsOf s) \<subseteq> R) (lowestLoop E n)"
proof (induction n)
  case 0
  show ?case by (subst lowestLoop.simps) (auto intro!: keeps_intros)
next
  case (Suc n)
  then show ?case by (subst lowestLoop.simps) (auto intro!: keeps_intros keeps_removeLowest)
qed

lemma keeps_makeRoom: "keeps (\<lambda>s. set (rowsOf s) \<subseteq> R) (makeRoom E)"
  unfolding makeRoom_def removeOldTransactions_def removeExpiredTransactions_def removeExpired_def
    removeLowestPriorityTransactions_def
  by (intro keeps_intros keeps_evict keeps_lowestLoop)

lemma keeps_addToMempool: "keeps (\<lambda>s. set (rowsOf s) \<subseteq> R) (addTransactionToMempool E t)"
  unfolding addTransactionToMempool_def lowestPriority_def
  by (intro keeps_intros keeps_makeRoom keeps_removeLowest keeps_onMempool)

text \<open>
  A forged transaction of a reverted block is queued and then stored; when it cannot be queued
  nothing is stored. Its identifier must not be that of a row.
\<close>

definition forgedId :: "('h, 'w) pool_env \<Rightarrow> transaction \<Rightarrow> string option" where
  "forgedId E t = (case pe_fromBytes E (serialized t) of Inl e \<Rightarrow> None
     | Inr u \<Rightarrow> (case senderPublicKey (data u) of None \<Rightarrow> None | Some k \<Rightarrow> txId u))"

definition reforging :: "(string \<times> string) set \<Rightarrow> stored set \<Rightarrow> bool \<Rightarrow> string set \<Rightarrow> 'w pool \<Rightarrow> bool" where
  "reforging X R d ids s \<longleftrightarrow> synced X s \<and> pl_disposed s = d \<and> (\<forall>t \<in> set (pending (view s)). fst (pairOf t) \<in> ids) \<and>
     {r \<in> set (rowsOf s). st_id r \<notin> ids} \<subseteq> R"

lemma synced_ids: "synced X s \<Longrightarrow> st_id ` set (rowsOf s) = fst ` (pairOf ` set (pending (view s)) \<union> X)"
  by (metis (no_types, lifting) fst_conv image_cong image_image rowPair_def synced_def)

lemma readdForged_run:
  fixes E :: "('h, 'w) pool_env" and s :: "'w pool"
  assumes E: "goodEnv E" and max: "1 \<le> pe_maxTransactionsInPool E"
    and s: "reforging X R d ids s" and new: "\<And>i. forgedId E t0 = Some i \<Longrightarrow> i \<notin> ids \<union> fst ` X"
  obtains e s' where "readdForged E t0 s = (Inl e, s')" "reforging X R d ids s'"
  | i s' where "readdForged E t0 s = (Inr i, s')" "forgedId E t0 = Some i" "reforging X R d (insert i ids) s'"
proof (cases "forgedId E t0")
  case None
  then show ?thesis
    using s that(1) by (cases "pe_fromBytes E (serialized t0)"; cases "txId (projr (pe_fromBytes E (serialized t0)))")
      (auto simp: forgedId_def readdForged_def defined_def split: option.splits)
next
  case (Some i)
  then obtain t k where bytes: "pe_fromBytes E (serialized t0) = Inr t"
      and t: "txId t = Some i" "senderPublicKey (data t) = Some k"
    by (auto simp: forgedId_def split: sum.splits option.splits)
  let ?r = "poolRow E i k t" and ?M = "mset (pending (view s))" and ?R = "set (rowsOf s)"
  have run: "readdForged E t0 s = andThen (addTransactionToMempool E t) (\<lambda>_.
      andThen (onStorage (sto_add ?r)) (\<lambda>_. ret i)) s"
    using bytes t by (simp add: readdForged_def)
  have sh: "shrunk X ?M d s" using s by (simp add: shrunk_def reforging_def)
  have rows: "set (rowsOf s') \<subseteq> ?R" if "addTransactionToMempool E t s = (r, s')" for r s'
    using keepsD[OF keeps_addToMempool[of ?R] _ that] by simp
  have kept: "reforging X R d ids s'" if "shrunk X ?M d s'" "set (rowsOf s') \<subseteq> ?R" for s'
  proof -
    have "set (pending (view s')) \<subseteq> set (pending (view s))"
      using that(1) by (metis set_mset_mono set_mset_mset shrunk_def)
    then show ?thesis using s that by (auto simp: reforging_def shrunk_def)
  qed
  show ?thesis
  proof (rule addToMempool_cases[OF E max sh t(2)])
    fix s1 :: "'w pool" and m'
    assume add: "addTransactionToMempool E t s = (Inr (), s1\<lparr>pl_mempool := m'\<rparr>)" and sh1: "shrunk X ?M d s1"
      and v: "queues m' = putQueue k (queueOf (view s1) k @ [t]) (view s1)"
    have sub: "set (rowsOf s1) \<subseteq> ?R" using rows[OF add] by simp
    have k1: "reforging X R d ids s1" by (rule kept[OF sh1 sub])
    have sy1: "synced X s1" using sh1 by (simp add: shrunk_def)
    have i: "i \<notin> ids" "i \<notin> fst ` X" using new[OF Some] by auto
    have "st_id ` set (rowsOf s1) \<subseteq> ids \<union> fst ` X"
      using synced_ids[OF sy1] k1 by (auto simp: reforging_def)
    then have free: "\<not> sto_has i (rowsOf s1)" using i by (auto simp: sto_has_iff)
    have r: "st_id ?r = i" "st_sender ?r = k" by (simp_all add: poolRow_def)
    let ?u = "s1\<lparr>pl_storage := rowsOf s1 @ [?r]\<rparr>" and ?s' = "s1\<lparr>pl_mempool := m', pl_storage := rowsOf s1 @ [?r]\<rparr>"
    have su: "synced (insert (i, k) X) ?u" by (rule synced_store(2)[OF sy1 free r])
    have v': "view ?s' = putQueue k (queueOf (view ?u) k @ [t]) (view ?u)" using v by simp
    have app: "synced (insert (i, k) X - {(i, k)}) ?s'"
        "mset (pending (view ?s')) = add_mset t (mset (pending (view ?u)))"
      using synced_append[OF su _ t v'] by simp_all
    have "insert (i, k) X - {(i, k)} = X" using i(2) by force
    moreover have "set (pending (view ?s')) = insert t (set (pending (view s1)))"
      using arg_cong[OF app(2), of set_mset] by simp
    moreover have "pairOf t = (i, k)" using t by (simp add: pairOf_def)
    ultimately have "reforging X R d (insert i ids) ?s'"
      using app(1) k1 r sh1 by (auto simp: reforging_def shrunk_def)
    moreover have "readdForged E t0 s = (Inr i, ?s')"
      using free r unfolding run andThen_def add by (simp add: within_def sto_add_def)
    ultimately show ?thesis using that(2) Some by blast
  next
    fix e s' assume add: "addTransactionToMempool E t s = (Inl e, s')" and sh': "shrunk X ?M d s'"
    then show ?thesis
      using that(1)[of e s'] kept[OF sh' rows[OF add]] by (simp add: run andThen_def)
  qed
qed

lemma readdAllForged_run:
  fixes E :: "('h, 'w) pool_env" and s :: "'w pool"
  assumes E: "goodEnv E" and max: "1 \<le> pe_maxTransactionsInPool E"
  shows "reforging X R d (set ids) s \<Longrightarrow> set ids \<inter> fst ` X = {} \<Longrightarrow> distinct (ids @ List.map_filter (forgedId E) ts) \<Longrightarrow>
    set (List.map_filter (forgedId E) ts) \<inter> fst ` X = {} \<Longrightarrow>
    \<exists>ids' s'. readdAllForged E ts ids s = (Inr ids', s') \<and> reforging X R d (set ids') s' \<and> set ids' \<inter> fst ` X = {}"
proof (induction ts arbitrary: ids s)
  case (Cons t ts)
  have new: "i \<notin> set ids \<union> fst ` X" if "forgedId E t = Some i" for i
    using Cons.prems(3,4) that by (auto simp: List.map_filter_simps)
  have rest: "distinct (ids @ List.map_filter (forgedId E) ts)" "set (List.map_filter (forgedId E) ts) \<inter> fst ` X = {}"
    using Cons.prems(3,4) by (auto simp: List.map_filter_simps split: option.splits)
  show ?case
  proof (rule readdForged_run[OF E max Cons.prems(1), of t])
    fix e s' assume "readdForged E t s = (Inl e, s')" "reforging X R d (set ids) s'"
    then show ?thesis
      using Cons.IH[of ids s'] Cons.prems(2) rest by (simp add: andThen_def catching_def)
  next
    fix i s' assume run: "readdForged E t s = (Inr i, s')" "forgedId E t = Some i" "reforging X R d (insert i (set ids)) s'"
    then show ?thesis
      using Cons.IH[of "ids @ [i]" s'] Cons.prems(2,3) rest new[OF run(2)]
      by (simp add: andThen_def catching_def List.map_filter_simps)
  qed (rule new)
qed simp

lemma readdAllStored_run:
  assumes E: "goodEnv E" and max: "1 \<le> pe_maxTransactionsInPool E"
  shows "distinct (map st_id rs) \<Longrightarrow> synced (rowPair ` {r \<in> set rs. st_id r \<notin> set ids}) s \<Longrightarrow>
    \<forall>r \<in> set rs. st_id r \<notin> set ids \<longrightarrow> decodes E r \<Longrightarrow>
    \<exists>s'. forEach (readdStored E ids) rs s = (Inr (), s') \<and> synced {} s' \<and> pl_disposed s' = pl_disposed s"
proof (induction rs arbitrary: s)
  case (Cons r rs)
  let ?X = "\<lambda>rs. rowPair ` {r \<in> set rs. st_id r \<notin> set ids}"
  have "\<exists>s1. readdStored E ids r s = (Inr (), s1) \<and> synced (?X rs) s1 \<and> pl_disposed s1 = pl_disposed s"
  proof (cases "st_id r \<in> set ids")
    case True
    then have "?X (r # rs) = ?X rs" by auto
    then show ?thesis using True Cons.prems(2) by (simp add: readdStored_def whenever_def)
  next
    case False
    then obtain s1 where s1: "readdStored E ids r s = (Inr (), s1)"
      and sy: "synced (?X (r # rs) - {rowPair r}) s1" and d: "pl_disposed s1 = pl_disposed s"
      using readdStored_run[OF E max Cons.prems(2), of r ids] Cons.prems(3) by auto
    have "rowPair r \<notin> rowPair ` set rs" using Cons.prems(1) by (auto simp: rowPair_def)
    then have "?X (r # rs) - {rowPair r} = ?X rs" using False by auto
    then show ?thesis using s1 sy d by auto
  qed
  then obtain s1 where s1: "readdStored E ids r s = (Inr (), s1)" "synced (?X rs) s1" "pl_disposed s1 = pl_disposed s"
    by blast
  have "distinct (map st_id rs)" "\<forall>r \<in> set rs. st_id r \<notin> set ids \<longrightarrow> decodes E r" using Cons.prems(1,3) by simp_all
  from Cons.IH[OF this(1) s1(2) this(2)] show ?case using s1(1,3) by (simp add: andThen_Inr)
qed simp

text \<open>
  The rebuild of a consistent pool: the forged transactions decode to pairwise distinct
  identifiers, none of which is stored.
\<close>

definition freshForged :: "('h, 'w) pool_env \<Rightarrow> 'w pool \<Rightarrow> transaction list \<Rightarrow> bool" where
  "freshForged E s ts \<longleftrightarrow> distinct (List.map_filter (forgedId E) ts) \<and>
     (\<forall>i \<in> set (List.map_filter (forgedId E) ts). \<not> sto_has i (rowsOf s))"

lemma readd_run:
  assumes E: "goodEnv E" and max: "1 \<le> pe_maxTransactionsInPool E"
    and s: "pool_ok s" and live: "\<not> pl_disposed s" and d: "\<forall>r \<in> set (rowsOf s). decodes E r"
    and forged: "freshForged E s ts"
  obtains s' where "readdTransactions E ts s = (Inr (), s')" and "pool_ok s'" and "\<not> pl_disposed s'"
proof -
  define s1 where "s1 = s\<lparr>pl_mempool := []\<rparr>"
  let ?X = "rowPair ` set (rowsOf s)"
  have dist: "distinct (map st_id (rowsOf s))" using s by (simp add: pool_ok_def synced_def)
  have start: "reforging ?X (set (rowsOf s)) False (set []) s1"
    using dist live by (auto simp: reforging_def synced_def s1_def queues_ok_def queues_def pending_def jm_values_def)
  have "fst ` ?X = st_id ` set (rowsOf s)" by (simp add: image_image rowPair_def)
  then have new: "set (List.map_filter (forgedId E) ts) \<inter> fst ` ?X = {}"
    using forged by (auto simp: freshForged_def sto_has_iff)
  have "distinct ([] @ List.map_filter (forgedId E) ts)" using forged by (simp add: freshForged_def)
  then obtain ids s2 where f: "readdAllForged E ts [] s1 = (Inr ids, s2)"
      "reforging ?X (set (rowsOf s)) False (set ids) s2" "set ids \<inter> fst ` ?X = {}"
    using readdAllForged_run[OF E max start _ _ new] by auto
  have sy: "synced ?X s2" using f(2) by (simp add: reforging_def)
  have rows: "rowPair ` set (rowsOf s2) = pairOf ` set (pending (view s2)) \<union> ?X" using sy by (simp add: synced_def)
  have left: "rowPair ` {r \<in> set (rowsOf s2). st_id r \<notin> set ids} = ?X"
  proof -
    have "rowPair ` {r \<in> set (rowsOf s2). st_id r \<notin> set ids} = {p \<in> rowPair ` set (rowsOf s2). fst p \<notin> set ids}"
      by (auto simp: rowPair_def)
    also have "\<dots> = ?X"
    proof -
      have "fst p \<in> set ids" if "p \<in> pairOf ` set (pending (view s2))" for p
        using f(2) that unfolding reforging_def by blast
      then show ?thesis using f(3) unfolding rows by blast
    qed
    finally show ?thesis .
  qed
  have "distinct (map st_id (rowsOf s2))" using sy by (simp add: synced_def)
  moreover have "\<forall>r \<in> set (rowsOf s2). st_id r \<notin> set ids \<longrightarrow> decodes E r"
    using f(2) d by (auto simp: reforging_def)
  moreover have "synced (rowPair ` {r \<in> set (rowsOf s2). st_id r \<notin> set ids}) s2" using sy by (simp add: left)
  ultimately obtain s' where "forEach (readdStored E ids) (rowsOf s2) s2 = (Inr (), s')" "synced {} s'"
    "pl_disposed s' = pl_disposed s2"
    using readdAllStored_run[OF E max, of "rowsOf s2" ids s2] by blast
  moreover have "readdTransactions E ts s = forEach (readdStored E ids) (rowsOf s2) s2"
    using live f(1) by (simp add: readdTransactions_def unlessDisposed_def whenever_def flushMempool_def
        mp_flush_def s1_def[symmetric] sto_getAll_def andThen_Inr)
  ultimately show ?thesis using that f(2) by (simp add: pool_ok_def reforging_def)
qed


section \<open>Reachable pools\<close>

text \<open>
  A pool after any sequence of the service's operations, each under an environment of its own:
  heights advance and configurations may change between them. A removal names a transaction
  under the sender it was pending with.
\<close>

definition sameSender :: "'w pool \<Rightarrow> transaction \<Rightarrow> bool" where
  "sameSender s t \<longleftrightarrow> (\<forall>u \<in> set (pending (view s)). txId u = txId t \<longrightarrow>
     senderPublicKey (data u) = senderPublicKey (data t))"

inductive poolStep :: "('h, 'w) pool_env \<Rightarrow> 'w pool \<Rightarrow> 'w pool \<Rightarrow> bool" where
  add: "goodEnv E \<Longrightarrow> 1 \<le> pe_maxTransactionsInPool E \<Longrightarrow> poolStep E s (snd (addTransaction E t s))"
| remove: "goodEnv E \<Longrightarrow> sameSender s t \<Longrightarrow> poolStep E s (snd (removeTransaction E t s))"
| forged: "goodEnv E \<Longrightarrow> sameSender s t \<Longrightarrow> poolStep E s (snd (removeForgedTransaction E t s))"
| clean: "goodEnv E \<Longrightarrow> 1 \<le> pe_maxTransactionsInPool E \<Longrightarrow> poolStep E s (snd (cleanUp E s))"
| readd: "goodEnv E \<Longrightarrow> 1 \<le> pe_maxTransactionsInPool E \<Longrightarrow> \<forall>r \<in> set (rowsOf s). decodes E r \<Longrightarrow>
    freshForged E s forged \<Longrightarrow> poolStep E s (snd (readdTransactions E forged s))"
| flushed: "poolStep E s (snd (flush s))"
| disposed: "poolStep E s (snd (dispose s))"

inductive reachablePool :: "('h, 'w) pool_env set \<Rightarrow> 'w pool \<Rightarrow> bool" for Es where
  start: "reachablePool Es emptyPool"
| step: "reachablePool Es s \<Longrightarrow> E \<in> Es \<Longrightarrow> poolStep E s s' \<Longrightarrow> reachablePool Es s'"

lemma unlessDisposed_skip: "pl_disposed s \<Longrightarrow> unlessDisposed m s = (Inr (), s)"
  by (simp add: unlessDisposed_def)

lemma unlessDisposed_live: "\<not> pl_disposed s \<Longrightarrow> unlessDisposed m s = m s"
  by (simp add: unlessDisposed_def whenever_def)

lemma cleanUp_run:
  assumes "goodEnv E" and "0 \<le> pe_maxTransactionsInPool E" and "pool_ok s" and "\<not> pl_disposed s"
  obtains s' where "cleanUp E s = (Inr (), s')" and "pool_ok s'"
    and "int (getPoolSize s') \<le> pe_maxTransactionsInPool E"
    and "mset (pending (view s')) \<subseteq># mset (pending (view s))"
proof -
  have "shrunk {} (mset (pending (view s))) False s"
    using assms(3,4) by (simp add: shrunk_def pool_ok_def)
  then obtain s' where "makeRoom E s = (Inr (), s')" "shrunk {} (mset (pending (view s))) False s'"
    "int (getPoolSize s') \<le> pe_maxTransactionsInPool E"
    using makeRoom_run[OF assms(1,2)] by metis
  then show ?thesis
    using that assms(4) by (simp add: cleanUp_def unlessDisposed_live shrunk_def pool_ok_def)
qed

lemma addTransaction_keeps:
  assumes "goodEnv E" and "1 \<le> pe_maxTransactionsInPool E" and "pool_ok s"
  shows "pool_ok (snd (addTransaction E t s))"
proof (cases "pl_disposed s \<or> txId t = None \<or> senderPublicKey (data t) = None")
  case True
  then show ?thesis using assms(3)
    by (cases "txId t"; cases "senderPublicKey (data t)")
      (auto simp: addTransaction_def unlessDisposed_skip unlessDisposed_def whenever_def)
next
  case False
  then obtain i k where t: "txId t = Some i" "senderPublicKey (data t) = Some k"
    and live: "\<not> pl_disposed s" by auto
  show ?thesis by (rule addTransaction_cases[OF assms live t]) (simp_all add: assms(3))
qed

lemma removal_keeps:
  fixes rem :: "string \<Rightarrow> string \<Rightarrow> ('w mempool, error, transaction list) prog" and s :: "'w pool"
  assumes "givesUp rem s" and "pool_ok s" and "sameSender s t"
  shows "pool_ok (snd (unlessDisposed
     (andThen (defined AssertionException (txId t)) (\<lambda>i.
      andThen (defined AssertionException (senderPublicKey (data t))) (\<lambda>k.
      andThen (reads (\<lambda>s. sto_has i (pl_storage s))) (\<lambda>h.
      whenever h
        (andThen (onMempool (rem k i)) (\<lambda>removed.
         andThen (dropStored removed) (\<lambda>_.
         whenever (\<not> (\<exists>u \<in> set removed. txId u = Some i)) (unstore i)))))))) s))"
proof (cases "pl_disposed s \<or> txId t = None \<or> senderPublicKey (data t) = None")
  case True
  then show ?thesis using assms(2)
    by (cases "txId t"; cases "senderPublicKey (data t)")
      (auto simp: unlessDisposed_skip unlessDisposed_def whenever_def)
next
  case False
  then obtain i k where t: "txId t = Some i" "senderPublicKey (data t) = Some k" and d: "\<not> pl_disposed s"
    by auto
  show ?thesis
  proof (cases "sto_has i (rowsOf s)")
    case True
    have sender: "senderPublicKey (data u) = Some k" if "u \<in> set (pending (view s))" "txId u = Some i" for u
      using assms(3) that t by (simp add: sameSender_def)
    obtain s' where "andThen (onMempool (rem k i)) (\<lambda>removed. andThen (dropStored removed) (\<lambda>_.
      whenever (\<not> (\<exists>u \<in> set removed. txId u = Some i)) (unstore i))) s = (Inr (), s')" "pool_ok s'"
      by (rule remove_run[where rem = rem and k = k, OF assms(2,1) True sender])
    then show ?thesis using True t d by (simp add: unlessDisposed_live whenever_def)
  next
    case False
    then show ?thesis using t d assms(2) by (simp add: unlessDisposed_live whenever_def)
  qed
qed

lemma poolStep_ok: "poolStep E s s' \<Longrightarrow> pool_ok s \<Longrightarrow> pool_ok s'"
proof (induction rule: poolStep.induct)
  case (add E s t)
  then show ?case by (simp add: addTransaction_keeps)
next
  case (remove E s t)
  have "queues_ok (view s)" using remove.prems by (simp add: pool_ok_def synced_def)
  then show ?case using removal_keeps[OF givesUp_remove[OF remove.hyps(1)] remove.prems remove.hyps(2)]
    by (simp add: removeTransaction_def)
next
  case (forged E s t)
  have "queues_ok (view s)" using forged.prems by (simp add: pool_ok_def synced_def)
  then show ?case using removal_keeps[OF givesUp_forged[OF forged.hyps(1)] forged.prems forged.hyps(2)]
    by (simp add: removeForgedTransaction_def)
next
  case (clean E s)
  then have "0 \<le> pe_maxTransactionsInPool E" by simp
  then show ?case using cleanUp_run[OF clean.hyps(1) _ clean.prems]
    by (cases "pl_disposed s") (fastforce simp: cleanUp_def unlessDisposed_skip clean.prems)+
next
  case (readd E s forged)
  then show ?case using readd_run[OF readd.hyps(1,2) readd.prems _ readd.hyps(3,4)]
    by (cases "pl_disposed s") (fastforce simp: readdTransactions_def unlessDisposed_skip)+
next
  case (flushed E s)
  then show ?case
    by (cases "pl_disposed s")
      (auto simp: flush_def unlessDisposed_skip unlessDisposed_live flushMempool_def mp_flush_def
        sto_flush_def pool_ok_def synced_def queues_ok_def queues_def pending_def jm_values_def)
next
  case (disposed E s)
  then show ?case by (simp add: dispose_def pool_ok_def synced_def)
qed

lemma reachable_pool_ok: "reachablePool Es s \<Longrightarrow> pool_ok s"
  by (induction rule: reachablePool.induct) (auto simp: pool_ok_empty poolStep_ok)


end
