(* ===== verification/BlockVerifier.thy ===== *)
theory BlockVerifier
  imports Config Mempool
begin

text \<open>
  The verifier of blocks (packages/core-crypto-block/source/verifier.ts): a run over the block that
  collects errors, in the order of the code, and stops at an exception. The milestone of a height
  is \<open>milestoneAt\<close>, which \<open>getMilestone\<close> computes; hashes, sizes and the check of a transaction's
  signature come from other packages and are fields of an environment.
\<close>

section \<open>The verification\<close>

datatype block_fault =
    InvalidPreviousBlock
  | InvalidReward int int
  | SignatureFault
  | InvalidVersion
  | InvalidTimestamp
  | PayloadTooLarge int int
  | UnverifiedTransactions "byte list list"
  | InvalidCount
  | TooManyTransactions
  | DuplicateTransaction string
  | ExpiredTransaction string
  | InvalidTotalAmount
  | InvalidTotalFee
  | InvalidPayloadHash
  | Caught error

record verification =
  vr_multi :: bool
  vr_errors :: "block_fault list"
  vr_verified :: bool

record verifier_env =
  ve_milestones :: "milestone list"
  ve_now :: int
  ve_size :: "block \<Rightarrow> int"
  ve_verifyHash :: "txdata \<Rightarrow> error + bool"
  ve_fromHex :: "string \<Rightarrow> byte list"
  ve_sha256Hex :: "byte list list \<Rightarrow> string"
  ve_signature :: "block \<Rightarrow> error + bool"

type_synonym 'a vprog = "(verification, error, 'a) prog"

definition fault :: "block_fault \<Rightarrow> unit vprog" where
  "fault e = modify (\<lambda>v. v\<lparr>vr_errors := vr_errors v @ [e]\<rparr>)"

definition faultIf :: "bool \<Rightarrow> block_fault \<Rightarrow> unit vprog" where
  "faultIf b e = whenever b (fault e)"

text \<open>A promise is a truthy value whatever it resolves to.\<close>

definition promiseIsTruthy :: "error + bool \<Rightarrow> bool" where
  "promiseIsTruthy r = True"

text \<open>The transactions whose own signature does not verify, in order.\<close>

fun invalidTransactions :: "verifier_env \<Rightarrow> transaction list \<Rightarrow> error + transaction list" where
  "invalidTransactions V [] = Inr []"
| "invalidTransactions V (t # ts) =
     (case ve_verifyHash V (data t) of Inl e \<Rightarrow> Inl e
      | Inr ok \<Rightarrow> (case invalidTransactions V ts of Inl e \<Rightarrow> Inl e
                  | Inr bad \<Rightarrow> Inr (if ok then bad else t # bad)))"

definition checkSignatures :: "verifier_env \<Rightarrow> block \<Rightarrow> unit vprog" where
  "checkSignatures V b =
     andThen (liftE (invalidTransactions V (transactions b))) (\<lambda>bad.
     whenever (bad \<noteq> [])
       (andThen (fault (UnverifiedTransactions (map serialized bad))) (\<lambda>_.
        modify (\<lambda>v. v\<lparr>vr_multi := list_ex (\<lambda>t. signatures (data t) \<noteq> None) bad\<rparr>))))"

text \<open>The sums of the block's transactions and their identifiers, checked on the way.\<close>

record payload =
  pl_amount :: int
  pl_fee :: int
  pl_ids :: "string list"

definition addToPayload :: "transaction \<Rightarrow> string \<Rightarrow> payload \<Rightarrow> payload" where
  "addToPayload t i p = \<lparr>pl_amount = pl_amount p + amount (data t), pl_fee = pl_fee p + txFee t,
     pl_ids = pl_ids p @ [i]\<rparr>"

definition expiredAt :: "int \<Rightarrow> txdata \<Rightarrow> bool" where
  "expiredAt h d \<longleftrightarrow> truthyNum (expiration d) \<and> the (expiration d) > 0 \<and> the (expiration d) \<le> h"

fun payloadLoop :: "int \<Rightarrow> transaction list \<Rightarrow> payload \<Rightarrow> payload vprog" where
  "payloadLoop h [] p = ret p"
| "payloadLoop h (t # ts) p =
     andThen (throwIf (\<not> truthyStr (txId t)) (PlainError '''')) (\<lambda>_.
     let i = the (txId t) in
     andThen (faultIf (i \<in> set (pl_ids p)) (DuplicateTransaction i)) (\<lambda>_.
     andThen (faultIf (expiredAt h (data t)) (ExpiredTransaction i)) (\<lambda>_.
     payloadLoop h ts (addToPayload t i p))))"

definition emptyPayload :: payload where
  "emptyPayload = \<lparr>pl_amount = 0, pl_fee = 0, pl_ids = []\<rparr>"

definition exceeds :: "int \<Rightarrow> int option \<Rightarrow> bool" where
  "exceeds n bound = (case bound of None \<Rightarrow> False | Some m \<Rightarrow> n > m)"

definition verifyBody :: "verifier_env \<Rightarrow> block \<Rightarrow> unit vprog" where
  "verifyBody V b =
     (let d = bdata b in
      andThen (defined (CryptoError (InvalidMilestoneConfigurationError (height d)))
         (milestoneAt (ve_milestones V) (height d))) (\<lambda>c.
      andThen (faultIf (height d \<noteq> 1 \<and> previousBlock d = '''') InvalidPreviousBlock) (\<lambda>_.
      andThen (defined JsTypeError (m_reward c)) (\<lambda>rw.
      andThen (faultIf (reward d \<noteq> rw) (InvalidReward (reward d) rw)) (\<lambda>_.
      andThen (faultIf (\<not> promiseIsTruthy (ve_signature V b)) SignatureFault) (\<lambda>_.
      andThen (faultIf (Some (bversion d) \<noteq> m_blockVersion c) InvalidVersion) (\<lambda>_.
      andThen (faultIf (exceeds (timestamp d) (map_option (\<lambda>bt. ve_now V + bt) (m_blockTime c)))
         InvalidTimestamp) (\<lambda>_.
      andThen (faultIf (exceeds (ve_size V b) (m_maxPayload c))
         (PayloadTooLarge (ve_size V b) (the (m_maxPayload c)))) (\<lambda>_.
      andThen (checkSignatures V b) (\<lambda>_.
      andThen (faultIf (int (length (transactions b)) \<noteq> numberOfTransactions d) InvalidCount) (\<lambda>_.
      andThen (faultIf (exceeds (int (length (transactions b))) (m_maxTransactions c) \<and> height d > 1)
         TooManyTransactions) (\<lambda>_.
      andThen (payloadLoop (height d) (transactions b) emptyPayload) (\<lambda>p.
      andThen (faultIf (pl_amount p \<noteq> totalAmount d) InvalidTotalAmount) (\<lambda>_.
      andThen (faultIf (pl_fee p \<noteq> totalFee d) InvalidTotalFee) (\<lambda>_.
      faultIf (ve_sha256Hex V (map (ve_fromHex V) (pl_ids p)) \<noteq> payloadHash d) InvalidPayloadHash)))))))))))))))"

definition noVerification :: verification where
  "noVerification = \<lparr>vr_multi = False, vr_errors = [], vr_verified = False\<rparr>"

definition verifyBlock :: "verifier_env \<Rightarrow> block \<Rightarrow> verification" where
  "verifyBlock V b =
     (case catching (verifyBody V b) (\<lambda>e. fault (Caught e)) noVerification of
        (_ :: error + unit, v) \<Rightarrow> v\<lparr>vr_verified := (vr_errors v = [])\<rparr>)"

section \<open>What a verified block is\<close>

definition goodTransactions :: "verifier_env \<Rightarrow> int \<Rightarrow> transaction list \<Rightarrow> bool" where
  "goodTransactions V h ts \<longleftrightarrow>
     (\<forall>t \<in> set ts. ve_verifyHash V (data t) = Inr True \<and> truthyStr (txId t) \<and> \<not> expiredAt h (data t)) \<and>
     distinct (map txId ts)"

definition validBlock :: "verifier_env \<Rightarrow> block \<Rightarrow> bool" where
  "validBlock V b \<longleftrightarrow>
     (case milestoneAt (ve_milestones V) (height (bdata b)) of None \<Rightarrow> False
      | Some c \<Rightarrow>
          (height (bdata b) = 1 \<or> previousBlock (bdata b) \<noteq> '''') \<and>
          m_reward c = Some (reward (bdata b)) \<and> m_blockVersion c = Some (bversion (bdata b)) \<and>
          (\<forall>bt. m_blockTime c = Some bt \<longrightarrow> timestamp (bdata b) \<le> ve_now V + bt) \<and>
          (\<forall>n. m_maxPayload c = Some n \<longrightarrow> ve_size V b \<le> n) \<and>
          (\<forall>n. m_maxTransactions c = Some n \<and> height (bdata b) > 1 \<longrightarrow> int (length (transactions b)) \<le> n) \<and>
          numberOfTransactions (bdata b) = int (length (transactions b)) \<and>
          goodTransactions V (height (bdata b)) (transactions b) \<and>
          totalAmount (bdata b) = sum_list (map (\<lambda>t. amount (data t)) (transactions b)) \<and>
          totalFee (bdata b) = sum_list (map txFee (transactions b)) \<and>
          payloadHash (bdata b) =
            ve_sha256Hex V (map (\<lambda>t. ve_fromHex V (the (txId t))) (transactions b)))"

text \<open>
  A step that adds no error exactly when \<open>P\<close> holds, and then yields \<open>x\<close>. Errors stay once added.
\<close>

definition noisy :: "verification \<Rightarrow> bool" where
  "noisy v \<longleftrightarrow> vr_errors v \<noteq> []"

definition silent :: "'a vprog \<Rightarrow> bool \<Rightarrow> 'a \<Rightarrow> bool" where
  "silent m P x \<longleftrightarrow> keeps noisy m \<and> (\<forall>v. \<not> noisy v \<longrightarrow>
     (if P then fst (m v) = Inr x \<and> \<not> noisy (snd (m v))
      else (\<exists>e. fst (m v) = Inl e) \<or> noisy (snd (m v))))"

lemma silentD:
  assumes "silent m P x" and "\<not> noisy v"
  shows "P \<Longrightarrow> \<exists>v'. m v = (Inr x, v') \<and> \<not> noisy v'"
    and "\<not> P \<Longrightarrow> m v = (Inr y, v') \<Longrightarrow> noisy v'"
  using assms by (cases "m v"; fastforce simp: silent_def)+

lemma silent_andThen:
  assumes m: "silent m P x" and f: "P \<Longrightarrow> silent (f x) Q y" and k: "\<And>z. keeps noisy (f z)"
  shows "silent (andThen m f) (P \<and> Q) y"
  unfolding silent_def
proof (intro conjI allI impI)
  show "keeps noisy (andThen m f)" using m k by (intro keeps_andThen) (simp_all add: silent_def)
  fix v :: verification
  assume v: "\<not> noisy v"
  show "if P \<and> Q then fst (andThen m f v) = Inr y \<and> \<not> noisy (snd (andThen m f v))
    else (\<exists>e. fst (andThen m f v) = Inl e) \<or> noisy (snd (andThen m f v))"
  proof (cases P)
    case True
    then obtain v' where v': "m v = (Inr x, v')" "\<not> noisy v'" using silentD(1)[OF m v] by blast
    then show ?thesis using f[OF True] True by (auto simp: andThen_Inr silent_def)
  next
    case False
    obtain r v' where r: "m v = (r, v')" by fastforce
    show ?thesis
    proof (cases r)
      case (Inl e)
      then show ?thesis using False r by (simp add: andThen_Inl)
    next
      case (Inr z)
      then have "noisy v'" using silentD(2)[OF m v False] r by blast
      then have "noisy (snd (f z v'))" using k[of z] by (simp add: keeps_def)
      then show ?thesis using False r Inr by (simp add: andThen_Inr)
    qed
  qed
qed

lemma noisy_more: "noisy (v\<lparr>vr_errors := vr_errors v @ [e]\<rparr>)"
  by (simp add: noisy_def)

lemma keeps_fault [keeps_intros]: "keeps noisy (fault e)"
  by (simp add: keeps_def fault_def noisy_def)

lemma keeps_faultIf [keeps_intros]: "keeps noisy (faultIf b e)"
  by (simp add: faultIf_def keeps_intros)

lemma silent_faultIf: "P \<longleftrightarrow> \<not> b \<Longrightarrow> silent (faultIf b e) P ()"
  using keeps_faultIf[of b e] by (auto simp: silent_def faultIf_def fault_def noisy_def)

lemma silent_throwIf: "P \<longleftrightarrow> \<not> b \<Longrightarrow> silent (throwIf b e) P ()"
  using keeps_throwIf[of noisy b e] by (auto simp: silent_def)

lemma silent_defined: "silent (defined e v) (v \<noteq> None) (the v)"
  using keeps_defined[of noisy e v] by (cases v) (auto simp: silent_def)

lemma silent_ret: "silent (ret x) True x"
  using keeps_ret[of noisy x] by (simp add: silent_def)

lemma keeps_checkSignatures [keeps_intros]: "keeps noisy (checkSignatures V b)"
  unfolding checkSignatures_def by (intro keeps_intros) (simp_all add: noisy_def)

lemma keeps_payloadLoop [keeps_intros]: "keeps noisy (payloadLoop h ts p)"
proof (induction h ts p rule: payloadLoop.induct)
  case (2 h t ts p)
  then show ?case unfolding payloadLoop.simps Let_def by (intro keeps_intros 2[OF refl])
qed (simp only: payloadLoop.simps keeps_ret)

lemma invalidTransactions_iff:
  "invalidTransactions V ts = Inr [] \<longleftrightarrow> (\<forall>t \<in> set ts. ve_verifyHash V (data t) = Inr True)"
  by (induction ts) (auto split: sum.splits if_splits)

lemma silent_checkSignatures:
  "silent (checkSignatures V b) (\<forall>t \<in> set (transactions b). ve_verifyHash V (data t) = Inr True) ()"
  using keeps_checkSignatures[of V b] invalidTransactions_iff[of V "transactions b"]
  by (cases "invalidTransactions V (transactions b)")
    (auto simp: silent_def checkSignatures_def fault_def noisy_def)

fun payloadOk :: "int \<Rightarrow> transaction list \<Rightarrow> string list \<Rightarrow> bool" where
  "payloadOk h [] ids \<longleftrightarrow> True"
| "payloadOk h (t # ts) ids \<longleftrightarrow> truthyStr (txId t) \<and> the (txId t) \<notin> set ids \<and> \<not> expiredAt h (data t) \<and>
     payloadOk h ts (ids @ [the (txId t)])"

lemma silent_payloadLoop:
  "silent (payloadLoop h ts p) (payloadOk h ts (pl_ids p))
     \<lparr>pl_amount = pl_amount p + sum_list (map (\<lambda>t. amount (data t)) ts),
      pl_fee = pl_fee p + sum_list (map txFee ts), pl_ids = pl_ids p @ map (\<lambda>t. the (txId t)) ts\<rparr>"
proof (induction h ts p rule: payloadLoop.induct)
  case (1 h p)
  have "p = \<lparr>pl_amount = pl_amount p + sum_list (map (\<lambda>t. amount (data t)) []),
      pl_fee = pl_fee p + sum_list (map txFee []), pl_ids = pl_ids p @ map (\<lambda>t. the (txId t)) []\<rparr>"
    by simp
  then show ?case unfolding payloadLoop.simps payloadOk.simps by (rule subst) (rule silent_ret)
next
  case (2 h t ts p)
  let ?i = "the (txId t)"
  have ih: "silent (payloadLoop h ts (addToPayload t ?i p)) (payloadOk h ts (pl_ids p @ [?i]))
     \<lparr>pl_amount = pl_amount p + sum_list (map (\<lambda>t. amount (data t)) (t # ts)),
      pl_fee = pl_fee p + sum_list (map txFee (t # ts)),
      pl_ids = pl_ids p @ map (\<lambda>t. the (txId t)) (t # ts)\<rparr>"
    using 2 by (simp add: addToPayload_def add.assoc)
  show ?case unfolding payloadLoop.simps payloadOk.simps Let_def
    by (intro silent_andThen ih keeps_intros) (rule silent_throwIf silent_faultIf; simp)+
qed

lemma payloadOk_iff:
  "payloadOk h ts ids \<longleftrightarrow> (\<forall>t \<in> set ts. truthyStr (txId t) \<and> \<not> expiredAt h (data t) \<and> the (txId t) \<notin> set ids) \<and>
     distinct (map txId ts)"
proof (induction ts arbitrary: ids)
  case (Cons t ts)
  have some: "txId u = Some (the (txId u))" if "truthyStr (txId u)" for u
    using that by (cases "txId u") auto
  have "(\<forall>u \<in> set ts. the (txId u) \<noteq> the (txId t)) \<longleftrightarrow> txId t \<notin> txId ` set ts"
    if "truthyStr (txId t)" "\<forall>u \<in> set ts. truthyStr (txId u)"
    using that some by (auto simp: image_iff) (metis option.sel)+
  then show ?case using Cons.IH[of "ids @ [the (txId t)]"] by auto
qed simp

lemma exceeds_iff: "\<not> exceeds n b \<longleftrightarrow> (\<forall>m. b = Some m \<longrightarrow> n \<le> m)"
  by (cases b) (auto simp: exceeds_def)

lemma silent_verifyBody: "silent (verifyBody V b) (validBlock V b) ()"
proof -
  let ?d = "bdata b" and ?ts = "transactions b"
  let ?c = "milestoneAt (ve_milestones V) (height ?d)"
  have len: "silent (payloadLoop (height ?d) ?ts emptyPayload) (payloadOk (height ?d) ?ts [])
     \<lparr>pl_amount = sum_list (map (\<lambda>t. amount (data t)) ?ts), pl_fee = sum_list (map txFee ?ts),
      pl_ids = map (\<lambda>t. the (txId t)) ?ts\<rparr>"
    using silent_payloadLoop[of "height ?d" ?ts emptyPayload] by (simp add: emptyPayload_def)
  let ?p = "\<lparr>pl_amount = sum_list (map (\<lambda>t. amount (data t)) ?ts), pl_fee = sum_list (map txFee ?ts),
      pl_ids = map (\<lambda>t. the (txId t)) ?ts\<rparr>"
  let ?P = "?c \<noteq> None \<and> \<not> (height ?d \<noteq> 1 \<and> previousBlock ?d = '''') \<and> m_reward (the ?c) \<noteq> None \<and>
    \<not> reward ?d \<noteq> the (m_reward (the ?c)) \<and> \<not> \<not> promiseIsTruthy (ve_signature V b) \<and>
    \<not> Some (bversion ?d) \<noteq> m_blockVersion (the ?c) \<and>
    \<not> exceeds (timestamp ?d) (map_option (\<lambda>bt. ve_now V + bt) (m_blockTime (the ?c))) \<and>
    \<not> exceeds (ve_size V b) (m_maxPayload (the ?c)) \<and>
    (\<forall>t \<in> set ?ts. ve_verifyHash V (data t) = Inr True) \<and>
    \<not> int (length ?ts) \<noteq> numberOfTransactions ?d \<and>
    \<not> (exceeds (int (length ?ts)) (m_maxTransactions (the ?c)) \<and> height ?d > 1) \<and>
    payloadOk (height ?d) ?ts [] \<and> \<not> pl_amount ?p \<noteq> totalAmount ?d \<and> \<not> pl_fee ?p \<noteq> totalFee ?d \<and>
    \<not> ve_sha256Hex V (map (ve_fromHex V) (pl_ids ?p)) \<noteq> payloadHash ?d"
  have "silent (verifyBody V b) ?P ()"
    unfolding verifyBody_def Let_def
    by (rule silent_andThen[OF silent_defined] silent_andThen[OF silent_faultIf[OF refl]]
        silent_andThen[OF silent_checkSignatures] silent_andThen[OF len] silent_faultIf[OF refl]
      | (intro keeps_intros)[1])+
  moreover have "?P \<longleftrightarrow> validBlock V b"
    unfolding validBlock_def goodTransactions_def payloadOk_iff exceeds_iff
    by (cases ?c) (auto simp: promiseIsTruthy_def exceeds_iff comp_def)
  ultimately show ?thesis by simp
qed

lemma verified_iff: "vr_verified (verifyBlock V b) \<longleftrightarrow> validBlock V b"
proof -
  have q: "\<not> noisy noVerification" by (simp add: noisy_def noVerification_def)
  obtain r v where r: "verifyBody V b noVerification = (r, v)" by fastforce
  show ?thesis
  proof (cases r)
    case (Inl e)
    then have "\<not> validBlock V b" using silentD(1)[OF silent_verifyBody q] r by fastforce
    then show ?thesis using r Inl by (simp add: verifyBlock_def catching_def fault_def)
  next
    case (Inr u)
    have "noisy v \<longleftrightarrow> \<not> validBlock V b"
      using silentD[OF silent_verifyBody q, of V b] r Inr by fastforce
    then show ?thesis using r Inr by (simp add: verifyBlock_def catching_def noisy_def)
  qed
qed

end
