(* ===== verification/Machine.thy ===== *)
theory Machine
  imports Prelude
begin

text \<open>
  The state machine of the blockchain (packages/core-blockchain/source/state-machine): its states,
  the transitions of machine.ts with the actions run on entry, and the dispatch of events
  (state-machine.ts). An action is resolved by name and queued (\<open>setImmediate\<close>); a name without a
  class is logged and skipped. The actions themselves, which dispatch further events, are modelled
  in Blockchain; here an action may dispatch what its class can.
\<close>

section \<open>States, events and actions (machine.ts)\<close>

datatype sync_state = Syncing | SyncIdle | DownloadBlocks | DownloadFinished | DownloadPaused
  | ProcessFinished | SyncEnd

datatype mstate = Uninitialised | InitState | Idle | NewBlock | ForkState | StoppedState | ExitState
  | SyncWithNetwork sync_state

datatype mevent = E_START | E_STOP | E_FAILURE | E_SUCCESS | E_NETWORKSTART | E_STARTED | E_NEWBLOCK
  | E_WAKEUP | E_FORK | E_PROCESSFINISHED | E_SYNCFINISHED | E_TEST | E_DOWNLOADED | E_NOBLOCK
  | E_NOTSYNCED | E_SYNCED | E_NETWORKHALTED | E_PAUSED | E_ROLLBACK

datatype maction = A_exitApp | A_startForkRecovery | A_checkLater | A_blockchainReady | A_init
  | A_stopped | A_downloadBlocks | A_downloadFinished | A_downloadPaused | A_syncingComplete
  | A_checkLastBlockSynced | A_checkLastDownloadedBlockSynced

text \<open>The \<open>on\<close> tables of the sub-states of \<open>syncWithNetwork\<close> and of the states.\<close>

fun syncTable :: "sync_state \<Rightarrow> (mevent \<times> sync_state) list" where
  "syncTable DownloadBlocks =
     [(E_DOWNLOADED, Syncing), (E_NOBLOCK, Syncing), (E_PROCESSFINISHED, DownloadFinished)]"
| "syncTable DownloadFinished = [(E_PROCESSFINISHED, ProcessFinished)]"
| "syncTable DownloadPaused = [(E_PROCESSFINISHED, ProcessFinished)]"
| "syncTable SyncEnd = []"
| "syncTable SyncIdle = [(E_DOWNLOADED, DownloadBlocks)]"
| "syncTable ProcessFinished = [(E_NOTSYNCED, DownloadBlocks), (E_SYNCED, SyncEnd)]"
| "syncTable Syncing = [(E_NETWORKHALTED, SyncEnd), (E_NOTSYNCED, DownloadBlocks),
     (E_PAUSED, DownloadPaused), (E_SYNCED, DownloadFinished)]"

definition syncInitial :: mstate where
  "syncInitial = SyncWithNetwork Syncing"

fun stateTable :: "mstate \<Rightarrow> (mevent \<times> mstate) list" where
  "stateTable ExitState = []"
| "stateTable ForkState = [(E_FAILURE, ExitState), (E_STOP, StoppedState), (E_SUCCESS, syncInitial)]"
| "stateTable Idle = [(E_FORK, ForkState), (E_NEWBLOCK, NewBlock), (E_STOP, StoppedState),
     (E_WAKEUP, syncInitial)]"
| "stateTable InitState = [(E_FAILURE, ExitState), (E_NETWORKSTART, Idle), (E_STARTED, syncInitial),
     (E_STOP, StoppedState)]"
| "stateTable NewBlock = [(E_FORK, ForkState), (E_PROCESSFINISHED, Idle), (E_STOP, StoppedState)]"
| "stateTable StoppedState = []"
| "stateTable (SyncWithNetwork x) = [(E_FORK, ForkState), (E_STOP, StoppedState),
     (E_SYNCFINISHED, Idle), (E_TEST, Idle)]"
| "stateTable Uninitialised = [(E_START, InitState), (E_STOP, StoppedState)]"

text \<open>A sub-state handles an event first, its parent otherwise.\<close>

definition syncOn :: "mstate \<Rightarrow> mevent \<Rightarrow> mstate option" where
  "syncOn m e = (case m of
     SyncWithNetwork x \<Rightarrow> map_option SyncWithNetwork (map_of (syncTable x) e) | _ \<Rightarrow> None)"

definition machineOn :: "mstate \<Rightarrow> mevent \<Rightarrow> mstate option" where
  "machineOn m e = (case syncOn m e of Some m' \<Rightarrow> Some m' | None \<Rightarrow> map_of (stateTable m) e)"

fun onEntry :: "mstate \<Rightarrow> maction list" where
  "onEntry ExitState = [A_exitApp]"
| "onEntry ForkState = [A_startForkRecovery]"
| "onEntry Idle = [A_checkLater, A_blockchainReady]"
| "onEntry InitState = [A_init]"
| "onEntry StoppedState = [A_stopped]"
| "onEntry (SyncWithNetwork DownloadBlocks) = [A_downloadBlocks]"
| "onEntry (SyncWithNetwork DownloadFinished) = [A_downloadFinished]"
| "onEntry (SyncWithNetwork DownloadPaused) = [A_downloadPaused]"
| "onEntry (SyncWithNetwork SyncEnd) = [A_syncingComplete]"
| "onEntry (SyncWithNetwork ProcessFinished) = [A_checkLastBlockSynced]"
| "onEntry (SyncWithNetwork Syncing) = [A_checkLastDownloadedBlockSynced]"
| "onEntry _ = []"

definition machineTransition :: "mstate \<Rightarrow> mevent \<Rightarrow> mstate \<times> maction list" where
  "machineTransition m e = (case machineOn m e of None \<Rightarrow> (m, []) | Some m' \<Rightarrow> (m', onEntry m'))"

section \<open>Dispatching events (state-machine.ts, actions/index.ts)\<close>

text \<open>The actions that have a class; \<open>startForkRecovery\<close> has none.\<close>

definition resolvable :: "maction \<Rightarrow> bool" where
  "resolvable a \<longleftrightarrow> a \<noteq> A_startForkRecovery"

record machine =
  mc_state :: mstate
  mc_pending :: "maction list"

definition newMachine :: machine where
  "newMachine = \<lparr>mc_state = Uninitialised, mc_pending = []\<rparr>"

definition transition :: "mevent \<Rightarrow> machine \<Rightarrow> machine" where
  "transition e m = (case machineTransition (mc_state m) e of
     (s, as) \<Rightarrow> \<lparr>mc_state = s, mc_pending = mc_pending m @ filter resolvable as\<rparr>)"

text \<open>The events each action's class may dispatch.\<close>

fun mayDispatch :: "maction \<Rightarrow> mevent list" where
  "mayDispatch A_init = [E_ROLLBACK, E_FAILURE, E_STARTED]"
| "mayDispatch A_downloadBlocks = [E_DOWNLOADED, E_NOBLOCK]"
| "mayDispatch A_downloadFinished = [E_SYNCFINISHED, E_PROCESSFINISHED]"
| "mayDispatch A_syncingComplete = [E_SYNCFINISHED]"
| "mayDispatch A_checkLastBlockSynced = [E_SYNCED, E_NOTSYNCED]"
| "mayDispatch A_checkLastDownloadedBlockSynced =
     [E_NOTSYNCED, E_PAUSED, E_NETWORKHALTED, E_FORK, E_SYNCED, E_TEST]"
| "mayDispatch _ = []"

text \<open>
  The events the blockchain service dispatches: on boot and disposal, when its queue drains, on
  the wake-up timer, for a received block and for a fork.
\<close>

definition external :: "mevent set" where
  "external = {E_START, E_STOP, E_PROCESSFINISHED, E_WAKEUP, E_NEWBLOCK, E_FORK}"

inductive machineStep :: "machine \<Rightarrow> machine \<Rightarrow> bool" where
  outside: "e \<in> external \<Longrightarrow> machineStep m (transition e m)"
| quiet: "mc_pending m = a # as \<Longrightarrow> machineStep m (m\<lparr>mc_pending := as\<rparr>)"
| acts: "mc_pending m = a # as \<Longrightarrow> e \<in> set (mayDispatch a) \<Longrightarrow>
    machineStep m (transition e (m\<lparr>mc_pending := as\<rparr>))"

inductive_cases machineStepE: "machineStep m m'"

inductive machineSteps :: "machine \<Rightarrow> machine \<Rightarrow> bool" where
  stays: "machineSteps m m"
| follows: "machineSteps m m' \<Longrightarrow> machineStep m' m'' \<Longrightarrow> machineSteps m m''"

section \<open>What the machine can reach\<close>

text \<open>Every transition of the machine leads to a state of a table.\<close>

lemma machineOn_target:
  assumes "machineOn m e = Some m'"
  shows "(e, m') \<in> set (stateTable m) \<or> (\<exists>x y. m = SyncWithNetwork x \<and> m' = SyncWithNetwork y)"
proof (cases "syncOn m e")
  case None
  then have "map_of (stateTable m) e = Some m'" using assms by (simp add: machineOn_def)
  then show ?thesis by (blast dest: map_of_SomeD)
next
  case (Some m1)
  then show ?thesis using assms by (auto simp: machineOn_def syncOn_def split: mstate.splits)
qed

lemma final_states: "machineOn StoppedState e = None" "machineOn ExitState e = None"
  by (simp_all add: machineOn_def syncOn_def)

lemma resolvable_entry: "A_init \<in> set (filter resolvable (onEntry m)) \<longleftrightarrow> m = InitState"
  by (cases m rule: onEntry.cases) (auto simp: resolvable_def)

lemma transition_state: "mc_state (transition e m) = (case machineOn (mc_state m) e of None \<Rightarrow> mc_state m | Some s \<Rightarrow> s)"
  by (simp add: transition_def machineTransition_def split: option.split)

lemma transition_pending: "mc_pending (transition e m) = mc_pending m @
    (case machineOn (mc_state m) e of None \<Rightarrow> [] | Some s \<Rightarrow> filter resolvable (onEntry s))"
  by (simp add: transition_def machineTransition_def split: option.split)

text \<open>The machine is entered once: \<open>uninitialised\<close> is left for good.\<close>

lemma not_back: "machineOn m e = Some m' \<Longrightarrow> m' \<noteq> Uninitialised \<and> (m' = InitState \<longrightarrow> m = Uninitialised)"
  by (drule machineOn_target) (cases m; auto simp: syncInitial_def)

text \<open>
  Once the machine has entered \<open>fork\<close> with no initialisation pending, nothing that the program
  dispatches takes it out again but \<open>STOP\<close>: \<open>SUCCESS\<close> is dispatched nowhere, \<open>FAILURE\<close> only by the
  initialisation, and the action that would recover from the fork has no class.
\<close>

definition forkTrap :: "machine \<Rightarrow> bool" where
  "forkTrap m \<longleftrightarrow> mc_state m \<in> {ForkState, StoppedState} \<and> A_init \<notin> set (mc_pending m)"

lemma forked_on:
  "machineOn ForkState e = (if e = E_FAILURE then Some ExitState else if e = E_STOP then Some StoppedState
     else if e = E_SUCCESS then Some syncInitial else None)"
  by (simp add: machineOn_def syncOn_def)

lemma dispatches_no_success: "E_SUCCESS \<notin> set (mayDispatch a)" "E_FAILURE \<in> set (mayDispatch a) \<Longrightarrow> a = A_init"
  by (cases a; simp)+

lemma forkTrap_transition:
  assumes "forkTrap m" and "e \<noteq> E_SUCCESS" and "e \<noteq> E_FAILURE"
  shows "forkTrap (transition e m)"
  using assms
  by (auto simp: forkTrap_def transition_state transition_pending forked_on final_states resolvable_def
      split: option.splits if_splits)

lemma forkTrap_step: "machineStep m m' \<Longrightarrow> forkTrap m \<Longrightarrow> forkTrap m'"
proof (induction rule: machineStep.induct)
  case (outside e m)
  then show ?case by (intro forkTrap_transition) (auto simp: external_def)
next
  case (quiet m a as)
  then show ?case by (simp add: forkTrap_def)
next
  case (acts m a as e)
  have "a \<noteq> A_init" using acts.hyps(1) acts.prems by (auto simp: forkTrap_def)
  then have "e \<noteq> E_SUCCESS" "e \<noteq> E_FAILURE" using acts.hyps(2) dispatches_no_success by metis+
  moreover have "forkTrap (m\<lparr>mc_pending := as\<rparr>)"
    using acts.hyps(1) acts.prems by (simp add: forkTrap_def)
  ultimately show ?case by (intro forkTrap_transition)
qed

lemma forkTrap_steps: "machineSteps m m' \<Longrightarrow> forkTrap m \<Longrightarrow> forkTrap m'"
  by (induction rule: machineSteps.induct) (auto intro: forkTrap_step)

text \<open>A failed integrity check leaves the machine in \<open>init\<close> with nothing to do.\<close>

lemma rollback_ignored: "transition E_ROLLBACK m = m"
proof -
  have "map_of (stateTable s) E_ROLLBACK = None" "syncOn s E_ROLLBACK = None" for s
  proof -
    show "map_of (stateTable s) E_ROLLBACK = None" by (cases s) simp_all
    have "map_of (syncTable x) E_ROLLBACK = None" for x by (cases x) simp_all
    then show "syncOn s E_ROLLBACK = None" by (simp add: syncOn_def split: mstate.split)
  qed
  then have "machineOn s E_ROLLBACK = None" for s by (simp add: machineOn_def)
  then show ?thesis by (simp add: transition_def machineTransition_def)
qed

end
