(* ===== verification/Jobs.thy ===== *)
theory Jobs
  imports Prelude
begin

text \<open>
  The in-memory queue of jobs (packages/core-kernel/source/services/queue/drivers/memory.ts). One
  job runs at a time; the code's loop shifts the next job when the last one has settled, and emits
  \<open>drain\<close> when it stops on an empty queue. A step of the loop is an operation here, which answers
  whether \<open>drain\<close> was emitted. The promises that wait for the running job are left out.
\<close>

record 'j queue =
  q_jobs :: "'j list"
  q_current :: "'j option"
  q_started :: bool

definition newQueue :: "'j queue" where
  "newQueue = \<lparr>q_jobs = [], q_current = None, q_started = False\<rparr>"

definition q_size :: "'j queue \<Rightarrow> nat" where
  "q_size q = length (q_jobs q)"

definition q_isRunning :: "'j queue \<Rightarrow> bool" where
  "q_isRunning q \<longleftrightarrow> q_current q \<noteq> None"

text \<open>The head of the loop: shift a job, or leave the loop.\<close>

definition q_next :: "'j queue \<Rightarrow> 'j queue \<times> bool" where
  "q_next q = (case q_jobs q of
     [] \<Rightarrow> (q\<lparr>q_current := None\<rparr>, True)
   | j # js \<Rightarrow> if q_started q then (q\<lparr>q_jobs := js, q_current := Some j\<rparr>, False)
               else (q\<lparr>q_current := None\<rparr>, False))"

definition q_processJobs :: "'j queue \<Rightarrow> 'j queue \<times> bool" where
  "q_processJobs q = (if q_isRunning q then (q, False) else q_next q)"

definition q_start :: "'j queue \<Rightarrow> 'j queue \<times> bool" where
  "q_start q = q_processJobs (q\<lparr>q_started := True\<rparr>)"

definition q_resume :: "'j queue \<Rightarrow> 'j queue \<times> bool" where
  "q_resume q = q_start q"

definition q_clear :: "'j queue \<Rightarrow> 'j queue" where
  "q_clear q = q\<lparr>q_jobs := []\<rparr>"

definition q_stop :: "'j queue \<Rightarrow> 'j queue" where
  "q_stop q = q_clear (q\<lparr>q_started := False\<rparr>)"

definition q_pause :: "'j queue \<Rightarrow> 'j queue" where
  "q_pause q = q\<lparr>q_started := False\<rparr>"

definition q_push :: "'j \<Rightarrow> 'j queue \<Rightarrow> 'j queue \<times> bool" where
  "q_push j q = q_processJobs (q\<lparr>q_jobs := q_jobs q @ [j]\<rparr>)"

definition q_bulk :: "'j list \<Rightarrow> 'j queue \<Rightarrow> 'j queue" where
  "q_bulk js q = q\<lparr>q_jobs := q_jobs q @ js\<rparr>"

text \<open>The jobs still to be done, the running one first.\<close>

definition outstanding :: "'j queue \<Rightarrow> 'j list" where
  "outstanding q = (case q_current q of None \<Rightarrow> [] | Some j \<Rightarrow> [j]) @ q_jobs q"

text \<open>A queue that is started and does not run has nothing to do.\<close>

definition busy_ok :: "'j queue \<Rightarrow> bool" where
  "busy_ok q \<longleftrightarrow> (q_started q \<and> \<not> q_isRunning q \<longrightarrow> q_jobs q = [])"

lemmas queue_defs = q_next_def q_processJobs_def q_start_def q_resume_def q_clear_def q_stop_def
  q_pause_def q_push_def q_bulk_def q_isRunning_def

lemma busy_ok_ops:
  "busy_ok newQueue"
  "busy_ok (fst (q_next q))"
  "busy_ok q \<Longrightarrow> busy_ok (fst (q_push j q))"
  "busy_ok (fst (q_resume q))"
  "busy_ok (q_clear q)" "busy_ok (q_stop q)" "busy_ok (q_pause q)"
  by (auto simp: busy_ok_def newQueue_def queue_defs split: list.splits)

text \<open>First in, first out: no operation but \<open>clear\<close> and \<open>stop\<close> loses or reorders a job.\<close>

lemma outstanding_push: "outstanding (fst (q_push j q)) = outstanding q @ [j]"
  by (auto simp: outstanding_def queue_defs split: option.splits list.splits)

lemma outstanding_resume: "outstanding (fst (q_resume q)) = outstanding q"
  by (auto simp: outstanding_def queue_defs split: option.splits list.splits)

lemma outstanding_next: "q_current q = Some j \<Longrightarrow> outstanding q = j # outstanding (fst (q_next q))"
  by (auto simp: outstanding_def queue_defs split: option.splits list.splits)

lemma push_runs: "q_isRunning (fst (q_resume (fst (q_push j q))))"
  by (auto simp: queue_defs split: option.splits list.splits)

lemma no_drain: "\<not> snd (q_push j q)" "\<not> snd (q_resume (fst (q_push j q)))"
  by (auto simp: queue_defs split: option.splits list.splits)

end
