(* ===== verification/Processor.thy ===== *)
theory Processor
  imports Interaction PoolInvariant BlockVerifier Machine Jobs
begin

text \<open>
  The block processor (packages/core-blockchain/source/processor): which handler a block is given
  to, and what the handlers do to the state, the rounds, the database, the pool and the queue. The
  state of the whole node is here too. The pool depends on the last height, the verifier on the
  milestones and the clock; the network and the clock are parameters.
\<close>

section \<open>The node\<close>

record 'w chain_node =
  bn_round :: round_state
  bn_pool :: "'w pool"
  bn_machine :: machine
  bn_queue :: "blockview list queue"
  bn_stopped :: bool
  bn_booted :: bool
  bn_missed :: int
  bn_lastHealth :: int
  bn_downloads :: "blockdata list"
  bn_broadcasts :: "block list"
  bn_exited :: bool

record ('h, 'w) chain_env =
  ce_round :: round_env
  ce_verifier :: verifier_env
  ce_pool :: "int \<Rightarrow> ('h, 'w) pool_env"
  ce_encode :: "block \<Rightarrow> byte list"
  ce_hasPeers :: bool
  ce_health :: "bool \<times> int option"
  ce_test :: bool
  ce_nethash :: string
  ce_genesisKeys :: "string list"
  ce_networkBoot :: "error + unit"
  ce_nowMs :: int
  ce_dice :: bool

type_synonym ('w, 'a) bprog = "('w chain_node, error, 'a) prog"

abbreviation onRound :: "'a rprog \<Rightarrow> ('w, 'a) bprog" where
  "onRound \<equiv> within bn_round (\<lambda>p s. s\<lparr>bn_round := p\<rparr>)"

abbreviation onPool :: "('w, 'a) pprog \<Rightarrow> ('w, 'a) bprog" where
  "onPool \<equiv> within bn_pool (\<lambda>p s. s\<lparr>bn_pool := p\<rparr>)"

abbreviation onNodeStore :: "'a sprog \<Rightarrow> ('w, 'a) bprog" where
  "onNodeStore m \<equiv> onRound (inStore m)"

abbreviation storeOf :: "'w chain_node \<Rightarrow> store" where
  "storeOf s \<equiv> rs_store (bn_round s)"

definition lastHeightOf :: "'w chain_node \<Rightarrow> int" where
  "lastHeightOf s = (case lastOf (st_lastBlocks (storeOf s)) of None \<Rightarrow> 0 | Some b \<Rightarrow> height (bdata b))"

definition verifierOf :: "('h, 'w) chain_env \<Rightarrow> 'w chain_node \<Rightarrow> verifier_env" where
  "verifierOf C s = (ce_verifier C)\<lparr>ve_milestones := theMilestones (bn_round s),
     ve_now := se_now (re_slots (ce_round C))\<rparr>"

definition slotsOf :: "('h, 'w) chain_env \<Rightarrow> 'w chain_node \<Rightarrow> slots_env" where
  "slotsOf C s = clockOf (ce_round C) (bn_round s)"

definition withPool :: "('h, 'w) chain_env \<Rightarrow> (('h, 'w) pool_env \<Rightarrow> ('w, 'a) pprog) \<Rightarrow> ('w, 'a) bprog" where
  "withPool C m = andThen (reads lastHeightOf) (\<lambda>h. onPool (m (ce_pool C h)))"

section \<open>Operations of the blockchain service the handlers use (blockchain.ts)\<close>

definition node_getLastBlock :: "('w, block) bprog" where
  "node_getLastBlock = onNodeStore getLastBlock"

definition setLastDownloadedBlock :: "blockdata \<Rightarrow> ('w, unit) bprog" where
  "setLastDownloadedBlock d = onNodeStore (modify (\<lambda>st. st\<lparr>st_lastDownloaded := Some d\<rparr>))"

definition resetLastDownloadedBlock :: "('w, unit) bprog" where
  "resetLastDownloadedBlock = andThen node_getLastBlock (\<lambda>l. setLastDownloadedBlock (bdata l))"

definition clearQueue :: "('w, unit) bprog" where
  "clearQueue = modify (\<lambda>s. s\<lparr>bn_queue := q_clear (bn_queue s)\<rparr>)"

definition setWakeUp :: "('w, unit) bprog" where
  "setWakeUp = onNodeStore (modify setWakeUpTimeout)"

definition resetWakeUp :: "('w, unit) bprog" where
  "resetWakeUp = andThen (onNodeStore (modify clearWakeUpTimeout)) (\<lambda>_. setWakeUp)"

section \<open>Handlers\<close>

datatype block_result = Accepted | DiscardedButCanBeBroadcasted | Rejected | Rollback | Reverted | Corrupted

definition verificationFailedHandler :: "('w, block_result) bprog" where
  "verificationFailedHandler = andThen resetLastDownloadedBlock (\<lambda>_. ret Rejected)"

definition incompatibleTransactionsHandler :: "('w, block_result) bprog" where
  "incompatibleTransactionsHandler = andThen resetLastDownloadedBlock (\<lambda>_. ret Rejected)"

definition nonceOutOfOrderHandler :: "('w, block_result) bprog" where
  "nonceOutOfOrderHandler = andThen resetLastDownloadedBlock (\<lambda>_. ret Rejected)"

definition invalidGeneratorHandler :: "('w, block_result) bprog" where
  "invalidGeneratorHandler = andThen resetLastDownloadedBlock (\<lambda>_. ret Rejected)"

definition alreadyForgedHandler :: "('w, block_result) bprog" where
  "alreadyForgedHandler = andThen resetLastDownloadedBlock (\<lambda>_. ret DiscardedButCanBeBroadcasted)"

text \<open>The block before the reverted one: among the last blocks, or the last one of the database.\<close>

definition previousBlockOf :: "('h, 'w) chain_env \<Rightarrow> block \<Rightarrow> ('w, block) bprog" where
  "previousBlockOf C b =
     andThen (reads (\<lambda>s. find (\<lambda>x. height (bdata x) = height (bdata b) - 1) (getLastBlocks (storeOf s)))) (\<lambda>p.
     case p of
       Some x \<Rightarrow> ret x
     | None \<Rightarrow> andThen (reads (\<lambda>s. db_getLastBlock (re_fromBytes (ce_round C)) (rs_db (bn_round s))))
                 (defined JsTypeError))"

definition tryRevert :: "('h, 'w) chain_env \<Rightarrow> block \<Rightarrow> ('w, block_result) bprog" where
  "tryRevert C b =
     andThen (onRound (di_revertBlock (ce_round C) b)) (\<lambda>_.
     andThen (forEach (\<lambda>t. withPool C (\<lambda>E. addTransaction E t)) (transactions b)) (\<lambda>_.
     andThen (previousBlockOf C b) (\<lambda>p.
     andThen (throwIf (height (bdata p) + 1 \<noteq> height (bdata b))
        (PlainError ''Previous block height is invalid.'')) (\<lambda>_.
     andThen (onNodeStore (setLastBlock p)) (\<lambda>_. ret Reverted)))))"

definition revertBlockHandler :: "('h, 'w) chain_env \<Rightarrow> block \<Rightarrow> ('w, block_result) bprog" where
  "revertBlockHandler C b = catching (tryRevert C b) (\<lambda>_. ret Corrupted)"

text \<open>Having applied a block: the fork it may end, the pool, the timer, the last download.\<close>

definition afterApply :: "('h, 'w) chain_env \<Rightarrow> block \<Rightarrow> ('w, unit) bprog" where
  "afterApply C b =
     andThen (onNodeStore (modify (\<lambda>st. case st_forked st of
        None \<Rightarrow> st
      | Some f \<Rightarrow> if height (bdata f) = height (bdata b) then clearForkedBlock st else st))) (\<lambda>_.
     andThen (forEach (\<lambda>t. withPool C (\<lambda>E. removeForgedTransaction E t)) (transactions b)) (\<lambda>_.
     andThen (reads (\<lambda>s. st_started (storeOf s))) (\<lambda>started.
     andThen (whenever started resetWakeUp) (\<lambda>_.
     andThen (reads (\<lambda>s. st_lastDownloaded (storeOf s))) (\<lambda>l.
     case l of None \<Rightarrow> ret ()
     | Some d \<Rightarrow> whenever (height d < height (bdata b)) (setLastDownloadedBlock (bdata b)))))))"

definition refuseBlock :: "('h, 'w) chain_env \<Rightarrow> block \<Rightarrow> ('w, block_result) bprog" where
  "refuseBlock C b =
     andThen resetLastDownloadedBlock (\<lambda>_.
     andThen node_getLastBlock (\<lambda>l.
     if height (bdata l) = height (bdata b)
     then andThen (revertBlockHandler C b) (\<lambda>r. ret (if r = Corrupted then r else Rejected))
     else ret Rejected))"

definition tryAccept :: "('h, 'w) chain_env \<Rightarrow> block \<Rightarrow> ('w, block_result) bprog" where
  "tryAccept C b =
     andThen (onRound (di_applyBlock (ce_round C) b)) (\<lambda>_.
     andThen (afterApply C b) (\<lambda>_. ret Accepted))"

definition acceptBlockHandler :: "('h, 'w) chain_env \<Rightarrow> block \<Rightarrow> ('w, block_result) bprog" where
  "acceptBlockHandler C b = catching (tryAccept C b) (\<lambda>_. refuseBlock C b)"

definition exceptionHandler :: "('h, 'w) chain_env \<Rightarrow> block \<Rightarrow> ('w, block_result) bprog" where
  "exceptionHandler C b =
     andThen (defined AssertionException (bid (bdata b))) (\<lambda>i.
     andThen (\<lambda>s. (getBlock (re_fromBytes (ce_round C)) i (rs_db (bn_round s)), s)) (\<lambda>forged.
     andThen node_getLastBlock (\<lambda>l.
     if forged \<noteq> None \<or> height (bdata b) \<noteq> height (bdata l) + 1
     then andThen resetLastDownloadedBlock (\<lambda>_. ret Rejected)
     else acceptBlockHandler C b)))"

datatype unchained_status = NotReadyToAcceptNewHeight | AlreadyInBlockchain | EqualToLastBlock
  | GeneratorMismatch | DoubleForging | InvalidTimestampStatus

definition checkUnchainedBlock :: "bool \<Rightarrow> blockdata \<Rightarrow> blockdata \<Rightarrow> unchained_status" where
  "checkUnchainedBlock isValidGenerator l d =
     (if height d > height l + 1 then NotReadyToAcceptNewHeight
      else if height d < height l then AlreadyInBlockchain
      else if height d = height l \<and> bid d = bid l then EqualToLastBlock
      else if timestamp d < timestamp l then InvalidTimestampStatus
      else if isValidGenerator then DoubleForging else GeneratorMismatch)"

definition unchainedHandler :: "('h, 'w) chain_env \<Rightarrow> bool \<Rightarrow> block \<Rightarrow> ('w, block_result) bprog" where
  "unchainedHandler C isValidGenerator b =
     andThen resetLastDownloadedBlock (\<lambda>_.
     andThen clearQueue (\<lambda>_.
     andThen node_getLastBlock (\<lambda>l.
     case checkUnchainedBlock isValidGenerator (bdata l) (bdata b) of
       DoubleForging \<Rightarrow>
         andThen (onRound (roundOf (height (bdata b)))) (\<lambda>i.
         andThen (onRound (getActiveValidators (ce_round C) (Some i) None)) (\<lambda>vs.
         ret (if list_ex (\<lambda>v. wpublicKey v = Some (generatorPublicKey (bdata b))) vs then Rollback else Rejected)))
     | NotReadyToAcceptNewHeight \<Rightarrow> ret Rejected
     | GeneratorMismatch \<Rightarrow> ret Rejected
     | InvalidTimestampStatus \<Rightarrow> ret Rejected
     | AlreadyInBlockchain \<Rightarrow> ret DiscardedButCanBeBroadcasted
     | EqualToLastBlock \<Rightarrow> ret DiscardedButCanBeBroadcasted)))"

section \<open>The checks (block-processor.ts)\<close>

text \<open>
  With multi-signatures among the unverified transactions, the handlers verify every transaction
  (their answer is dropped) and the verification is repeated; an error keeps the first one.
\<close>

definition verifyWithHandler :: "('h, 'w) chain_env \<Rightarrow> transaction \<Rightarrow> ('w, unit) bprog" where
  "verifyWithHandler C t =
     andThen (liftE (activatedHandlerForData (re_handlers (ce_round C)) (data t))) (\<lambda>_.
     andThen (onRound (inWallets (handlerVerify (re_env (ce_round C)) t))) (\<lambda>_. ret ()))"

definition bp_verifyBlock :: "('h, 'w) chain_env \<Rightarrow> block \<Rightarrow> ('w, bool) bprog" where
  "bp_verifyBlock C b =
     andThen (reads (\<lambda>s. verifyBlock (verifierOf C s) b)) (\<lambda>v.
     andThen (if vr_multi v
        then catching (andThen (forEach (verifyWithHandler C) (transactions b))
               (\<lambda>_. reads (\<lambda>s. verifyBlock (verifierOf C s) b))) (\<lambda>_. ret v)
        else ret v) (\<lambda>v'. ret (vr_verified v')))"

definition containsIncompatible :: "transaction list \<Rightarrow> bool" where
  "containsIncompatible ts = list_ex (\<lambda>t. version (data t) \<noteq> version (data (hd ts))) (tl ts)"

text \<open>
  The nonces: a transaction of version 1 ends the loop; one of a later version reads the nonce of
  its sender without awaiting it, and a promise has no \<open>plus\<close>.
\<close>

fun outOfOrderNonce :: "transaction list \<Rightarrow> error + bool" where
  "outOfOrderNonce [] = Inr False"
| "outOfOrderNonce (t # ts) =
     (if truthyNum (version (data t)) \<and> the (version (data t)) < 2 then Inr False
      else if senderPublicKey (data t) = None \<or> nonce (data t) = None then Inl AssertionException
      else Inl JsTypeError)"

definition validatorAt :: "wallet list \<Rightarrow> int option \<Rightarrow> wallet option" where
  "validatorAt ws i = (case i of None \<Rightarrow> None
     | Some n \<Rightarrow> if 0 \<le> n \<and> nat n < length ws then Some (ws ! nat n) else None)"

definition validateGenerator :: "('h, 'w) chain_env \<Rightarrow> block \<Rightarrow> ('w, bool) bprog" where
  "validateGenerator C b =
     (let R = ce_round C; d = bdata b in
      andThen (onRound (roundOf (height d))) (\<lambda>i.
      andThen (onRound (getActiveValidators R (Some i) None)) (\<lambda>vs.
      andThen (\<lambda>s. (calculateForgingInfo (slotsOf C s) (timestamp d) (height d), s)) (\<lambda>f.
      andThen (onRound (inWallets (byKey (re_env R) (generatorPublicKey d)))) (\<lambda>g.
      andThen (onRound (inWallets (wal g))) (\<lambda>gw.
      case validatorAttr va_username gw of None \<Rightarrow> ret False
      | Some _ \<Rightarrow>
         (case validatorAt vs (fi_currentForger f) of None \<Rightarrow> ret True
          | Some v \<Rightarrow>
             if wpublicKey v = Some (generatorPublicKey d) then ret True
             else andThen (defined AssertionException (wpublicKey v)) (\<lambda>k.
                  andThen (onRound (inWallets (byKey (re_env R) k))) (\<lambda>q.
                  andThen (onRound (inWallets (wal q))) (\<lambda>qw.
                  andThen (defined AssertionException (validatorAttr va_username qw)) (\<lambda>_. ret False)))))))))))"

definition newerBlocks :: "store \<Rightarrow> block list" where
  "newerBlocks st = filter (\<lambda>x. height (bdata x) > st_lastStoredHeight st) (getLastBlocks st)"

text \<open>The identifiers of a block found among the blocks that are not stored yet.\<close>

definition forgedInState :: "string list \<Rightarrow> store \<Rightarrow> error + string list" where
  "forgedInState ids st =
     (let ts = concat (map transactions (newerBlocks st))
      in if list_ex (\<lambda>t. txId t = None) ts then Inl AssertionException
         else Inr (filter (\<lambda>i. i \<in> set ids) (map (\<lambda>t. the (txId t)) ts)))"

definition containsForged :: "block \<Rightarrow> ('w, bool) bprog" where
  "containsForged b =
     (if transactions b = [] then ret False
      else andThen (throwIf (list_ex (\<lambda>t. txId t = None) (transactions b)) AssertionException) (\<lambda>_.
        let ids = map (\<lambda>t. the (txId t)) (transactions b) in
        andThen (reads (\<lambda>s. getForgedTransactionsIds ids (rs_db (bn_round s)))) (\<lambda>stored.
        andThen node_getLastBlock (\<lambda>l.
        andThen (\<lambda>s. (if height (bdata l) \<noteq> st_lastStoredHeight (storeOf s)
           then forgedInState ids (storeOf s) else Inr [], s)) (\<lambda>recent.
        ret (stored @ recent \<noteq> []))))))"

definition process_block :: "('h, 'w) chain_env \<Rightarrow> block \<Rightarrow> ('w, block_result) bprog" where
  "process_block C b =
     andThen (bp_verifyBlock C b) (\<lambda>verified.
     if \<not> verified then verificationFailedHandler
     else if containsIncompatible (transactions b) then incompatibleTransactionsHandler
     else andThen (liftE (outOfOrderNonce (transactions b))) (\<lambda>disorder.
     if disorder then nonceOutOfOrderHandler
     else andThen (validateGenerator C b) (\<lambda>isValidGenerator.
     andThen node_getLastBlock (\<lambda>l.
     andThen (\<lambda>s. (isBlockChained (slotsOf C s) (bdata l) (bdata b), s)) (\<lambda>chained.
     if \<not> chained then unchainedHandler C isValidGenerator b
     else if \<not> isValidGenerator then invalidGeneratorHandler
     else andThen (containsForged b) (\<lambda>forged.
     if forged then alreadyForgedHandler else acceptBlockHandler C b))))))"

section \<open>What the checks leave unchanged\<close>

text \<open>The state but for the wallets: looking a wallet up may create a cold one.\<close>

definition walletsOnly :: "'w chain_node \<Rightarrow> 'w chain_node \<Rightarrow> bool" where
  "walletsOnly s t \<longleftrightarrow> (\<exists>d. t = s\<lparr>bn_round := (bn_round s)\<lparr>rs_dpos := d\<rparr>\<rparr>)"

definition dposOnly :: "round_state \<Rightarrow> round_state \<Rightarrow> bool" where
  "dposOnly r q \<longleftrightarrow> (\<exists>d. q = r\<lparr>rs_dpos := d\<rparr>)"

lemma dposOnly_dpos [simp]: "dposOnly r (q\<lparr>rs_dpos := d\<rparr>) = dposOnly r q"
proof
  assume "dposOnly r (q\<lparr>rs_dpos := d\<rparr>)"
  then obtain d' where "q\<lparr>rs_dpos := d\<rparr> = r\<lparr>rs_dpos := d'\<rparr>" by (auto simp: dposOnly_def)
  then have "q\<lparr>rs_dpos := d\<rparr>\<lparr>rs_dpos := rs_dpos q\<rparr> = r\<lparr>rs_dpos := d'\<rparr>\<lparr>rs_dpos := rs_dpos q\<rparr>" by simp
  then show "dposOnly r q" unfolding dposOnly_def by (intro exI[of _ "rs_dpos q"]) simp
qed (auto simp: dposOnly_def)

lemma walletsOnly_refl [simp]: "walletsOnly s s"
  unfolding walletsOnly_def by (intro exI[of _ "rs_dpos (bn_round s)"]) simp

lemma walletsOnlyI: "keeps (walletsOnly s) m \<Longrightarrow> m s = (r, t) \<Longrightarrow> walletsOnly s t"
  by (rule keepsD[where m = m and P = "walletsOnly s" and s = s and r = r]) simp_all

lemma keeps_onRound_wallets [keeps_intros]:
  assumes "\<And>r. keeps (dposOnly r) m" shows "keeps (walletsOnly s) (onRound m)"
proof (rule keepsI)
  fix t assume "walletsOnly s t"
  then obtain d where t: "t = s\<lparr>bn_round := (bn_round s)\<lparr>rs_dpos := d\<rparr>\<rparr>" by (auto simp: walletsOnly_def)
  obtain r q where q: "m (bn_round t) = (r, q)" by fastforce
  have "dposOnly (bn_round t) (bn_round t)" by (auto simp: dposOnly_def intro!: exI[of _ "rs_dpos (bn_round t)"])
  then have "dposOnly (bn_round t) q" using q by (rule keepsD[OF assms])
  then show "walletsOnly s (snd (onRound m t))"
    using q t by (auto simp: within_def walletsOnly_def dposOnly_def)
qed

lemma walletsOnlyD:
  assumes "walletsOnly s t"
  shows "storeOf t = storeOf s" "rs_db (bn_round t) = rs_db (bn_round s)" "bn_pool t = bn_pool s"
    "verifierOf C t = verifierOf C s" "slotsOf C t = slotsOf C s" "bn_queue t = bn_queue s"
    "bn_machine t = bn_machine s" "rs_blocks (bn_round t) = rs_blocks (bn_round s)"
  using assms by (auto simp: walletsOnly_def verifierOf_def slotsOf_def clockOf_def theMilestones_def)

lemma keeps_inWallets: "keeps (dposOnly r) (inWallets m)"
  unfolding inWallets_def by (intro keeps_inDpos) simp

lemma keeps_roundOf: "keeps P (roundOf h)"
  by (simp add: roundOf_def keeps_look)

lemma keeps_getActive: "keeps (dposOnly r) (getActiveValidators R (Some i) vs)"
  unfolding getActiveValidators_def storedValidators_def storedValidator_def option.case
  by (intro keeps_intros keeps_inWallets)

lemma keeps_validateGenerator: "keeps (walletsOnly s) (validateGenerator C b)"
  unfolding validateGenerator_def Let_def
  by (intro keeps_intros keeps_inWallets keeps_roundOf keeps_getActive)

lemma keeps_verifyWithHandler: "keeps (walletsOnly s) (verifyWithHandler C t)"
  unfolding verifyWithHandler_def by (intro keeps_intros keeps_inWallets)

lemma node_getLastBlock_run:
  "node_getLastBlock s = (case lastOf (st_lastBlocks (storeOf s)) of
     None \<Rightarrow> (Inl AssertionException, s) | Some l \<Rightarrow> (Inr l, s))"
  by (simp add: node_getLastBlock_def getLastBlock_def within_def inStore_def split: option.splits)

lemma keeps_node_getLastBlock [keeps_intros]: "keeps P node_getLastBlock"
  by (simp add: keeps_def node_getLastBlock_run split: option.splits)

text \<open>The verification is right whatever the handlers answer.\<close>

lemma bp_verifyBlock_run:
  obtains t where "bp_verifyBlock C b s = (Inr (validBlock (verifierOf C s) b), t)" and "walletsOnly s t"
proof -
  let ?v = "verifyBlock (verifierOf C s) b"
  let ?again = "catching (andThen (forEach (verifyWithHandler C) (transactions b))
    (\<lambda>_. reads (\<lambda>s. verifyBlock (verifierOf C s) b))) (\<lambda>_. ret ?v)"
  have "\<exists>t. ?again s = (Inr ?v :: error + verification, t) \<and> walletsOnly s t"
  proof -
    obtain r t where r: "forEach (verifyWithHandler C) (transactions b) s = (r, t)" by fastforce
    have t: "walletsOnly s t"
      using r by (rule walletsOnlyI[where m = "forEach (verifyWithHandler C) (transactions b)", rotated])
        (intro keeps_forEach keeps_verifyWithHandler)
    then have same: "verifierOf C t = verifierOf C s" by (rule walletsOnlyD)
    show ?thesis using r t same by (cases r) (simp_all add: catching_def andThen_def)
  qed
  then obtain t where t: "?again s = (Inr ?v :: error + verification, t)" "walletsOnly s t" by blast
  show ?thesis
  proof (cases "vr_multi ?v")
    case True
    then have "bp_verifyBlock C b s = (Inr (vr_verified ?v), t)"
      by (simp add: bp_verifyBlock_def andThen_Inr[where m = ?again, OF t(1)])
    then show ?thesis using that[of t] t(2) by (simp add: verified_iff)
  next
    case False
    then have "bp_verifyBlock C b s = (Inr (vr_verified ?v), s)"
      by (simp add: bp_verifyBlock_def andThen_def)
    then show ?thesis using that[of s] by (simp add: verified_iff)
  qed
qed

section \<open>Which blocks are accepted\<close>

definition noneForged :: "block \<Rightarrow> 'w chain_node \<Rightarrow> bool" where
  "noneForged b s \<longleftrightarrow> fst (containsForged b s) = Inr False"

text \<open>The conditions a block has to meet to be applied at all.\<close>

definition acceptable :: "('h, 'w) chain_env \<Rightarrow> block \<Rightarrow> 'w chain_node \<Rightarrow> bool" where
  "acceptable C b s \<longleftrightarrow> validBlock (verifierOf C s) b \<and> \<not> containsIncompatible (transactions b) \<and>
     outOfOrderNonce (transactions b) = Inr False \<and>
     fst (validateGenerator C b (snd (bp_verifyBlock C b s))) = Inr True \<and>
     (\<exists>l. lastOf (st_lastBlocks (storeOf s)) = Some l \<and>
        isBlockChained (slotsOf C s) (bdata l) (bdata b) = Inr True) \<and> noneForged b s"

text \<open>What a block that is not applied cannot change.\<close>

definition chainSame :: "'w chain_node \<Rightarrow> 'w chain_node \<Rightarrow> bool" where
  "chainSame s t \<longleftrightarrow> st_lastBlocks (storeOf t) = st_lastBlocks (storeOf s) \<and>
     rs_db (bn_round t) = rs_db (bn_round s) \<and> bn_pool t = bn_pool s \<and>
     rs_blocks (bn_round t) = rs_blocks (bn_round s)"

definition refusal :: "'w chain_node \<Rightarrow> ('w, block_result) bprog \<Rightarrow> bool" where
  "refusal s m \<longleftrightarrow> keeps (chainSame s) m \<and> (\<forall>t. fst (m t) \<noteq> Inr Accepted)"

lemma chainSame_walletsOnly: "walletsOnly s t \<Longrightarrow> chainSame s t"
  by (auto simp: chainSame_def walletsOnly_def)

lemma keeps_resetLastDownloaded [keeps_intros]: "keeps (chainSame s) resetLastDownloadedBlock"
  unfolding resetLastDownloadedBlock_def setLastDownloadedBlock_def
  by (intro keeps_intros) (auto simp: keeps_def within_def inStore_def chainSame_def)

lemma refusalI:
  "refusal s (andThen resetLastDownloadedBlock (\<lambda>_. ret Rejected))"
  "refusal s (andThen resetLastDownloadedBlock (\<lambda>_. ret DiscardedButCanBeBroadcasted))"
  unfolding refusal_def
  by (intro conjI keeps_intros; auto simp: andThen_def split: prod.splits sum.splits)+

lemma keeps_chain_onRound: "(\<And>r. keeps (dposOnly r) m) \<Longrightarrow> keeps (chainSame s) (onRound m)"
proof (rule keepsI)
  fix t assume m: "\<And>r. keeps (dposOnly r) m" and t: "chainSame s t"
  have "keeps (walletsOnly t) (onRound m)" using m by (rule keeps_onRound_wallets)
  then have "walletsOnly t (snd (onRound m t))" by (simp add: keeps_def)
  then show "chainSame s (snd (onRound m t))" using t by (auto simp: chainSame_def walletsOnlyD)
qed

lemma keeps_unchained: "keeps (chainSame s) (unchainedHandler C v b)"
proof -
  have clear: "keeps (chainSame s) clearQueue"
    unfolding clearQueue_def by (intro keeps_intros) (simp add: chainSame_def)
  have "keeps (chainSame s) (case c of
       DoubleForging \<Rightarrow>
         andThen (onRound (roundOf (height (bdata b)))) (\<lambda>i.
         andThen (onRound (getActiveValidators (ce_round C) (Some i) None)) (\<lambda>vs.
         ret (if list_ex (\<lambda>v. wpublicKey v = Some (generatorPublicKey (bdata b))) vs then Rollback else Rejected)))
     | NotReadyToAcceptNewHeight \<Rightarrow> ret Rejected
     | GeneratorMismatch \<Rightarrow> ret Rejected
     | InvalidTimestampStatus \<Rightarrow> ret Rejected
     | AlreadyInBlockchain \<Rightarrow> ret DiscardedButCanBeBroadcasted
     | EqualToLastBlock \<Rightarrow> ret DiscardedButCanBeBroadcasted)" for c
    by (cases c) (simp_all only: unchained_status.case,
      (intro keeps_andThen keeps_ret keeps_chain_onRound keeps_roundOf keeps_getActive)+)
  then show ?thesis unfolding unchainedHandler_def
    by (intro keeps_andThen keeps_resetLastDownloaded clear keeps_node_getLastBlock)
qed

lemma refusal_unchained: "refusal s (unchainedHandler C v b)"
  using keeps_unchained unfolding refusal_def
  by (auto simp: unchainedHandler_def andThen_def split: prod.splits sum.splits unchained_status.splits)


lemma containsForged_same:
  assumes "walletsOnly s t" shows "containsForged b t = (fst (containsForged b s), t)"
  using walletsOnlyD(1,2)[OF assms]
  by (auto simp: containsForged_def Let_def andThen_def node_getLastBlock_run split: option.splits sum.splits)

lemma refusal_cases:
  assumes "refusal s m" and "chainSame s t" and "m t = (r, s')"
  shows "r \<noteq> Inr Accepted \<and> chainSame s s'"
  using assms by (auto simp: refusal_def keeps_def dest: spec[of _ t])

lemma walletsOnly_trans:
  assumes "walletsOnly s t" and "walletsOnly t u" shows "walletsOnly s u"
  using assms by (auto simp: walletsOnly_def)

text \<open>
  A program, run after nothing but wallets has changed, that hands over to \<open>A\<close> when \<open>P\<close> holds and
  otherwise refuses.
\<close>

definition decides :: "'w chain_node \<Rightarrow> 'w chain_node \<Rightarrow> bool \<Rightarrow> ('w, block_result) bprog \<Rightarrow>
    ('w, block_result) bprog \<Rightarrow> bool" where
  "decides s t P m A \<longleftrightarrow> (\<forall>r s'. m t = (r, s') \<longrightarrow>
     (if P then \<exists>u. walletsOnly s u \<and> A u = (r, s') else r \<noteq> Inr Accepted \<and> chainSame s s'))"

lemma decides_accept: "walletsOnly s t \<Longrightarrow> P \<Longrightarrow> decides s t P A A"
  by (auto simp: decides_def)

lemma decides_refuse:
  assumes "walletsOnly s t" and "\<not> P" and "refusal s m" shows "decides s t P m A"
  using assms refusal_cases[OF assms(3) chainSame_walletsOnly[OF assms(1)]] by (auto simp: decides_def)

lemma decides_if:
  "(c \<Longrightarrow> decides s t P m A) \<Longrightarrow> (\<not> c \<Longrightarrow> decides s t P n A) \<Longrightarrow> decides s t P (if c then m else n) A"
  by simp

lemma decides_step:
  assumes m: "m t = (v, u)" and w: "walletsOnly s u"
    and f: "\<And>x. v = Inr x \<Longrightarrow> decides s u P (f x) A" and e: "\<And>e. v = Inl e \<Longrightarrow> \<not> P"
  shows "decides s t P (andThen m f) A"
  using f e w m chainSame_walletsOnly[OF w] by (cases v) (auto simp: andThen_def decides_def)

lemma decides_look:
  assumes "walletsOnly s t" and "\<And>x. g t = Inr x \<Longrightarrow> decides s t P (f x) A" and "\<And>e. g t = Inl e \<Longrightarrow> \<not> P"
  shows "decides s t P (andThen (\<lambda>s. (g s, s)) f) A"
  by (rule decides_step[where m = "\<lambda>s. (g s, s)" and v = "g t" and u = t]) (use assms in auto)

lemma decides_fails:
  "m t = (Inl e, u) \<Longrightarrow> walletsOnly s u \<Longrightarrow> \<not> P \<Longrightarrow> decides s t P (andThen m f) A"
  by (rule decides_step[where m = m]) auto

lemma decides_forged:
  assumes "walletsOnly s t"
  shows "decides s t (noneForged b s)
    (andThen (containsForged b) (\<lambda>f. if f then alreadyForgedHandler else A)) A"
  using assms unfolding alreadyForgedHandler_def
  by (intro decides_step[where m = "containsForged b", OF containsForged_same[OF assms]] decides_if
      decides_refuse[OF _ _ refusalI(2)] decides_accept) (simp_all add: noneForged_def)

lemma decides_chained:
  fixes valid :: bool
  assumes w: "walletsOnly s t"
  shows "decides s t ((\<exists>l. lastOf (st_lastBlocks (storeOf s)) = Some l \<and>
       isBlockChained (slotsOf C s) (bdata l) (bdata b) = Inr True) \<and> valid \<and> noneForged b s)
    (andThen node_getLastBlock (\<lambda>l.
     andThen (\<lambda>s. (isBlockChained (slotsOf C s) (bdata l) (bdata b), s)) (\<lambda>chained.
     if \<not> chained then unchainedHandler C valid b
     else if \<not> valid then invalidGeneratorHandler
     else andThen (containsForged b) (\<lambda>f. if f then alreadyForgedHandler else A)))) A"
proof (cases "lastOf (st_lastBlocks (storeOf s))")
  case None
  then have "node_getLastBlock t = (Inl AssertionException, t)"
    using walletsOnlyD(1)[OF w] by (simp add: node_getLastBlock_run)
  then show ?thesis by (rule decides_fails[where m = node_getLastBlock, OF _ w]) (simp add: None)
next
  case (Some l)
  then have l: "node_getLastBlock t = (Inr l, t)"
    using walletsOnlyD(1)[OF w] by (simp add: node_getLastBlock_run)
  have forged: "decides s t (valid \<and> noneForged b s)
      (andThen (containsForged b) (\<lambda>f. if f then alreadyForgedHandler else A)) A" if valid
    using decides_forged[OF w] that by simp
  show ?thesis
    using Some walletsOnlyD(5)[OF w, of C] forged unfolding invalidGeneratorHandler_def
    by (intro decides_step[where m = node_getLastBlock, OF l w] decides_look[OF w] decides_if
        decides_refuse[OF w _ refusal_unchained] decides_refuse[OF w _ refusalI(1)]) auto
qed

text \<open>The decision of the processor, as one equation over the conditions.\<close>

lemma process_block_decides: "decides s s (acceptable C b s) (process_block C b) (acceptBlockHandler C b)"
proof -
  let ?ts = "transactions b"
  obtain t1 where t1: "bp_verifyBlock C b s = (Inr (validBlock (verifierOf C s) b), t1)" "walletsOnly s t1"
    by (rule bp_verifyBlock_run)
  obtain g t2 where t2: "validateGenerator C b t1 = (g, t2)" by fastforce
  have "walletsOnly t1 t2"
    using keeps_validateGenerator t2 by (rule walletsOnlyI[where m = "validateGenerator C b"])
  then have w2: "walletsOnly s t2" using t1(2) walletsOnly_trans by blast
  have acc: "acceptable C b s \<longleftrightarrow> validBlock (verifierOf C s) b \<and> \<not> containsIncompatible ?ts \<and>
      outOfOrderNonce ?ts = Inr False \<and> g = Inr True \<and>
      (\<exists>l. lastOf (st_lastBlocks (storeOf s)) = Some l \<and>
        isBlockChained (slotsOf C s) (bdata l) (bdata b) = Inr True) \<and> noneForged b s"
    using t1 t2 by (simp add: acceptable_def)
  have tail: "decides s t2 (acceptable C b s)
      (andThen node_getLastBlock (\<lambda>l.
       andThen (\<lambda>s. (isBlockChained (slotsOf C s) (bdata l) (bdata b), s)) (\<lambda>chained.
       if \<not> chained then unchainedHandler C valid b
       else if \<not> valid then invalidGeneratorHandler
       else andThen (containsForged b) (\<lambda>forged.
       if forged then alreadyForgedHandler else acceptBlockHandler C b)))) (acceptBlockHandler C b)"
    if "g = Inr valid" "validBlock (verifierOf C s) b" "\<not> containsIncompatible ?ts"
      "outOfOrderNonce ?ts = Inr False" for valid
    using decides_chained[OF w2, of C b valid "acceptBlockHandler C b"] that acc by (simp add: conj_commute)
  show ?thesis
    unfolding process_block_def
  proof (rule decides_step[where m = "bp_verifyBlock C b", OF t1])
    fix verified assume v: "Inr (validBlock (verifierOf C s) b) = (Inr verified :: error + bool)"
    show "decides s t1 (acceptable C b s)
      (if \<not> verified then verificationFailedHandler
       else if containsIncompatible ?ts then incompatibleTransactionsHandler
       else andThen (liftE (outOfOrderNonce ?ts)) (\<lambda>disorder.
       if disorder then nonceOutOfOrderHandler
       else andThen (validateGenerator C b) (\<lambda>isValidGenerator.
       andThen node_getLastBlock (\<lambda>l.
       andThen (\<lambda>s. (isBlockChained (slotsOf C s) (bdata l) (bdata b), s)) (\<lambda>chained.
       if \<not> chained then unchainedHandler C isValidGenerator b
       else if \<not> isValidGenerator then invalidGeneratorHandler
       else andThen (containsForged b) (\<lambda>forged.
       if forged then alreadyForgedHandler else acceptBlockHandler C b)))))) (acceptBlockHandler C b)"
      unfolding verificationFailedHandler_def incompatibleTransactionsHandler_def nonceOutOfOrderHandler_def
      by (intro decides_if decides_refuse[OF t1(2) _ refusalI(1)] tail
        decides_step[where m = "liftE (outOfOrderNonce ?ts)", OF liftE_apply t1(2)]
        decides_step[where m = "validateGenerator C b", OF t2 w2]) (use v acc in auto)
  qed simp
qed

lemma process_block_cases:
  assumes "process_block C b s = (r, s')"
  obtains (applied) t where "acceptable C b s" and "walletsOnly s t" and "acceptBlockHandler C b t = (r, s')"
    | (refused) "\<not> acceptable C b s" and "r \<noteq> Inr Accepted" and "chainSame s s'"
  using assms process_block_decides[of s C b] by (auto simp: decides_def split: if_splits)

end
