(* ===== verification/Acceptance.thy ===== *)
theory Acceptance
  imports Processor
begin

text \<open>
  What accepting a block does to the last blocks of the state, on every path of the handler: the
  block was applied, or it was refused and the chain ends where it did, or the state is reported
  corrupted. The handler always answers.
\<close>

section \<open>The store of an applied block\<close>

lemma setLastBlock_Inl:
  assumes "store_ok s" and "setLastBlock b s = (Inl e, s')" shows "s' = s"
proof -
  let ?h = "height (bdata b)"
  obtain ms where ms: "milestones (st_config s) = Some ms" using assms(1) by (auto simp: store_ok_def)
  have same: "s1 = s" if "trimBlocks ?h s = (Inl x, s1)" for x s1
    using that by (auto simp: trimBlocks_def split: option.splits if_splits)
  have conf: "st_config s1 = st_config s" if "trimBlocks ?h s = (Inr x, s1)" for x s1
    using that by (auto simp: trimBlocks_def split: option.splits if_splits)
  obtain r s1 where t: "trimBlocks ?h s = (r, s1)" by fastforce
  show ?thesis
  proof (cases r)
    case (Inl x)
    then show ?thesis using assms(2) t same by (auto simp: setLastBlock_def Let_def andThen_def)
  next
    case (Inr u)
    then have "milestones (setHeight ?h (st_config s1)) = Some ms"
      using conf t ms by (simp add: setHeight_def)
    then show ?thesis
      using assms(2) t Inr by (auto simp: setLastBlock_def Let_def andThen_def isNewMilestone_def split: if_splits)
  qed
qed

lemma keeps_setLastBlock [keeps_intros]: "keeps store_ok (setLastBlock b)"
proof (rule keepsI)
  fix s assume s: "store_ok s"
  obtain r s' where r: "setLastBlock b s = (r, s')" by fastforce
  show "store_ok (snd (setLastBlock b s))"
    using setLastBlock_Inl[OF s] setLastBlock_ok[OF s] r s by (cases r) auto
qed

text \<open>A store that is well formed and ends with a given block.\<close>

definition endsWith :: "block \<Rightarrow> store \<Rightarrow> bool" where
  "endsWith b st \<longleftrightarrow> store_ok st \<and> lastOf (st_lastBlocks st) = Some b"

lemma keeps_onWallets [keeps_intros]: "keeps (\<lambda>s. P (ch_store s)) (onWallets m)"
  by (rule keepsI) (auto simp: onWallets_def split: prod.splits)

lemma onWallets_store: "onWallets m s = (r, s') \<Longrightarrow> ch_store s' = ch_store s"
  by (auto simp: onWallets_def split: prod.splits)

lemma tryApply_store:
  assumes s: "endsWith l (ch_store s)" and run: "tryApply E hs ms b f s = (r, s')"
  shows "(\<exists>d. r = Inr (None, d) \<and> endsWith b (ch_store s')) \<or>
    ((\<forall>d. r \<noteq> Inr (None, d)) \<and> endsWith l (ch_store s'))"
proof -
  let ?body = "andThen (onWallets (forgerApply E ms f (bdata b))) (\<lambda>_. onStore (setLastBlock b))"
  obtain r1 s1 where r1: "onWallets (applyAll E hs (transactions b) []) s = (r1, s1)" by fastforce
  have s1: "endsWith l (ch_store s1)" using s by (simp add: onWallets_store[OF r1])
  obtain r2 s2 where r2: "onWallets (forgerApply E ms f (bdata b)) s1 = (r2, s2)" by fastforce
  have s2: "endsWith l (ch_store s2)" using s1 by (simp add: onWallets_store[OF r2])
  obtain r3 st where r3: "setLastBlock b (ch_store s2) = (r3, st)" by fastforce
  have stored: "endsWith b st" if "r3 = Inr x" for x
    using setLastBlock_ok[of "ch_store s2" b x st] s2 r3 that by (simp add: endsWith_def)
  have unstored: "st = ch_store s2" if "r3 = Inl x" for x
    using setLastBlock_Inl[of "ch_store s2" b x st] s2 r3 that by (simp add: endsWith_def)
  show ?thesis
  proof (cases "\<exists>d. r1 = Inr (None, d)")
    case True
    then show ?thesis
      using run r1 r2 r3 stored unstored s2
      by (cases r2; cases r3) (auto simp: tryApply_def andThen_def catchE_def onStore_def)
  next
    case False
    then show ?thesis
      using run r1 s1 by (cases r1) (auto simp: tryApply_def andThen_def split: option.splits)
  qed
qed

lemma keeps_store_wallets: "keeps (\<lambda>s. P (ch_store s)) (whenever c (onWallets m))"
  by (intro keeps_intros)

lemma catchApply_store:
  assumes "endsWith l (ch_store s)" and "catchApply E hs l (Some e, d) s = (r, s')"
  shows "endsWith l (ch_store s') \<and> (\<exists>e. r = Inl e)"
proof -
  let ?revert = "onWallets (forEach (revertTransaction E hs) (rev d))"
  obtain r1 s1 where r1: "?revert s = (r1, s1)" by fastforce
  have s1: "endsWith l (ch_store s1)" using assms(1) by (simp add: onWallets_store[OF r1])
  obtain r2 st where r2: "setLastBlock l (ch_store s1) = (r2, st)" by fastforce
  then have "endsWith l st"
    using setLastBlock_ok[of "ch_store s1" l _ st] setLastBlock_Inl[of "ch_store s1" l _ st] s1
    by (cases r2) (auto simp: endsWith_def)
  then show ?thesis
    using assms(2) r1 r2 s1 by (cases r1; cases r2) (auto simp: catchApply_def andThen_def onStore_def)
qed

text \<open>An applied block is the last one; a failure leaves the last block as it was.\<close>

lemma applyBlock_store:
  assumes s: "endsWith l (ch_store s)" and run: "applyBlock E hs ms b s = (r, s')"
  shows "(\<exists>u. r = Inr u) \<and> endsWith b (ch_store s') \<or> (\<exists>e. r = Inl e) \<and> endsWith l (ch_store s')"
proof -
  let ?k = "generatorPublicKey (bdata b)"
  let ?g = "whenever (height (bdata b) = 1) (onWallets (initGenesisForgerWallet ?k))"
  obtain r1 s1 where r1: "?g s = (r1, s1)" by fastforce
  then have s1: "ch_store s1 = ch_store s" using onWallets_store by (auto split: if_splits)
  have last: "onStore getLastBlock s1 = (Inr l, s1)"
    using s by (simp add: onStore_def getLastBlock_def s1 endsWith_def)
  obtain r2 s2 where r2: "onWallets (byKey E ?k) s1 = (r2, s2)" by fastforce
  have s2: "endsWith l (ch_store s2)" using s s1 by (simp add: onWallets_store[OF r2])
  show ?thesis
  proof (cases "(\<exists>e. r1 = Inl e) \<or> (\<exists>e. r2 = Inl e)")
    case True
    then show ?thesis using run r1 r2 last s s1 s2 by (cases r1) (auto simp: applyBlock_def andThen_def)
  next
    case False
    then obtain u f where "r1 = Inr u" "r2 = Inr f" by (cases r1; cases r2) auto
    then have rest: "andThen (tryApply E hs ms b f) (catchApply E hs l) s2 = (r, s')"
      using run r1 r2 last by (simp add: applyBlock_def andThen_def)
    obtain v s3 where v: "tryApply E hs ms b f s2 = (v, s3)" by fastforce
    consider (ok) d where "v = Inr (None, d)" "endsWith b (ch_store s3)"
      | (err) e d where "v = Inr (Some e, d)" "endsWith l (ch_store s3)"
      | (thrown) e where "v = Inl e" "endsWith l (ch_store s3)"
      using tryApply_store[OF s2 v] by (metis sum.exhaust surj_pair option.exhaust)
    then show ?thesis
    proof cases
      case err
      then show ?thesis using rest v catchApply_store[OF err(2)] by (auto simp: andThen_def)
    qed (use rest v in \<open>auto simp: andThen_def catchApply_def\<close>)
  qed
qed

section \<open>The rounds and the events keep the store\<close>

definition storeIs :: "(store \<Rightarrow> bool) \<Rightarrow> round_state \<Rightarrow> bool" where
  "storeIs P s \<longleftrightarrow> P (rs_store s)"

lemma storeOnly_storeIs: "storeOnly (storeIs P)"
  by (simp add: storeOnly_def storeIs_def)

lemma di_applyBlock_store:
  assumes s: "endsWith l (rs_store s)" and run: "di_applyBlock R b s = (r, s')"
  shows "((\<exists>u. r = Inr u) \<longrightarrow> endsWith b (rs_store s')) \<and>
    (endsWith b (rs_store s') \<or> endsWith l (rs_store s'))"
proof -
  let ?rest = "andThen (rs_applyBlock R b) (\<lambda>_. andThen (forEach (emitTransactionEvents R) (transactions b)) (\<lambda>_.
     emitRound (round_event.BlockApplied (bdata b))))"
  let ?apply = "applyBlock (re_env R) (re_handlers R) (re_mutators R) b"
  have det: "keeps (storeIs P) (detectMissedBlocks R b)" for P
    by (rule keeps_detectMissedBlocks) (simp add: storeIs_def)
  have rest: "keeps (storeIs P) ?rest" for P
    by (intro keeps_andThen keeps_rs_applyBlock[OF storeOnly_storeIs] keeps_forEach keeps_emit)
      (simp_all add: storeIs_def)
  obtain r1 s1 where r1: "detectMissedBlocks R b s = (r1, s1)" by fastforce
  have s1: "endsWith l (rs_store s1)"
    using keepsD[OF det[of "endsWith l"] _ r1] s by (simp add: storeIs_def)
  obtain r2 c where r2: "?apply \<lparr>ch_wallets = dp_wallets (rs_dpos s1), ch_store = rs_store s1\<rparr> = (r2, c)" by fastforce
  define s2 where "s2 = s1\<lparr>rs_dpos := (rs_dpos s1)\<lparr>dp_wallets := ch_wallets c\<rparr>, rs_store := ch_store c\<rparr>"
  have in2: "inChain ?apply s1 = (r2, s2)" using r2 by (simp add: inChain_def s2_def)
  have c: "(\<exists>u. r2 = Inr u) \<and> endsWith b (ch_store c) \<or> (\<exists>e. r2 = Inl e) \<and> endsWith l (ch_store c)"
    using s1 by (intro applyBlock_store[OF _ r2]) simp
  obtain r3 s3 where r3: "?rest s2 = (r3, s3)" by fastforce
  have s3: "endsWith b (rs_store s3)" if "\<exists>u. r2 = Inr u"
    using keepsD[OF rest[of "endsWith b"] _ r3] c that by (auto simp: storeIs_def s2_def)
  have eq: "di_applyBlock R b s = (case r1 of Inl e \<Rightarrow> (Inl e, s1) | Inr _ \<Rightarrow>
      (case r2 of Inl e \<Rightarrow> (Inl e, s2) | Inr _ \<Rightarrow> (r3, s3)))"
    using r1 in2 r3 by (auto simp: di_applyBlock_def andThen_def split: sum.splits)
  show ?thesis
    using run eq s1 s3 c by (cases r1; cases r2) (auto simp: s2_def)
qed

lemma keeps_getRoundAt [keeps_intros]: "keeps P (getRoundAt h)"
  unfolding getRoundAt_def roundOf_def by (intro keeps_intros)

lemma keeps_getBlocksForRound: "keeps P (getBlocksForRound R)"
  unfolding getBlocksForRound_def Let_def by (intro keeps_intros)

lemma keeps_setForging: "storeOnly P \<Longrightarrow> keeps P (setForgingValidatorsOfRound R i vs)"
  unfolding setForgingValidatorsOfRound_def getActiveValidators_def storedValidators_def storedValidator_def
    inWallets_def storeOnly_def
  by (intro keeps_intros) simp_all

lemma keeps_revertRound:
  assumes "storeOnly P" shows "keeps P (revertRound R h)"
  using assms unfolding revertRound_def calcPreviousActiveValidators_def restoreRank_def inWallets_def Let_def
  by (intro keeps_intros keeps_setForging) (simp_all add: storeOnly_def)

lemma keeps_inChain:
  assumes "keeps (\<lambda>c. P (ch_store c)) m" shows "keeps (storeIs P) (inChain m)"
proof (rule keepsI)
  fix s :: round_state assume s: "storeIs P s"
  obtain r c where r: "m \<lparr>ch_wallets = dp_wallets (rs_dpos s), ch_store = rs_store s\<rparr> = (r, c)" by fastforce
  have "P (ch_store c)" using keepsD[OF assms _ r] s by (simp add: storeIs_def)
  then show "storeIs P (snd (inChain m s))" using r by (simp add: inChain_def storeIs_def)
qed

lemma keeps_catchE [keeps_intros]:
  assumes "keeps P m" shows "keeps P (catchE m)"
proof (rule keepsI)
  fix s assume "P s"
  obtain r t where r: "m s = (r, t)" by fastforce
  have "P t" using assms \<open>P s\<close> r by (rule keepsD)
  then show "P (snd (catchE m s))" using r by (cases r) (simp_all add: catchE_def)
qed

lemma keeps_prod [keeps_intros]: "(\<And>x y. keeps P (f x y)) \<Longrightarrow> keeps P (case p of (x, y) \<Rightarrow> f x y)"
  by (cases p) simp

lemma keeps_revertBlock: "keeps (\<lambda>c. P (ch_store c)) (revertBlock E hs ms b)"
  unfolding revertBlock_def by (intro keeps_intros)

lemma keeps_di_revertBlock: "keeps (storeIs P) (di_revertBlock R b)"
  unfolding di_revertBlock_def rs_revertBlock_def
  by (intro keeps_intros keeps_revertRound[OF storeOnly_storeIs] keeps_inChain keeps_revertBlock
      keeps_emit keeps_getBlocksForRound) (simp_all add: storeIs_def)

section \<open>The handlers\<close>

definition nodeIs :: "(store \<Rightarrow> bool) \<Rightarrow> 'w chain_node \<Rightarrow> bool" where
  "nodeIs P s \<longleftrightarrow> P (storeOf s)"

lemma keeps_node_onRound: "keeps (storeIs P) m \<Longrightarrow> keeps (nodeIs P) (onRound m)"
  by (rule keepsI) (auto simp: within_def nodeIs_def storeIs_def keeps_def split: prod.splits)

lemma keeps_node_inStore: "keeps P m \<Longrightarrow> keeps (nodeIs P) (onNodeStore m)"
  by (rule keeps_node_onRound, rule keepsI) (auto simp: inStore_def storeIs_def keeps_def split: prod.splits)

lemma keeps_node_pool: "keeps (nodeIs P) (withPool C m)"
  unfolding withPool_def
  by (intro keeps_intros) (auto simp: keeps_def within_def nodeIs_def split: prod.splits)

text \<open>A property of the last blocks, the configuration and the bound.\<close>

definition blocksOnly :: "(store \<Rightarrow> bool) \<Rightarrow> bool" where
  "blocksOnly P \<longleftrightarrow> (\<forall>st l f w n. P (st\<lparr>st_lastDownloaded := l\<rparr>) = P st \<and> P (st\<lparr>st_forked := f\<rparr>) = P st \<and>
     P (st\<lparr>st_wakeUp := w\<rparr>) = P st \<and> P (st\<lparr>st_noBlockCounter := n\<rparr>) = P st \<and>
     P (st\<lparr>st_lastStoredHeight := n\<rparr>) = P st)"

lemma blocksOnly_endsWith: "blocksOnly (endsWith b)" "blocksOnly store_ok"
  by (simp_all add: blocksOnly_def endsWith_def store_ok_def)

lemma keeps_service:
  assumes "blocksOnly P"
  shows "keeps (nodeIs P) (setLastDownloadedBlock d)" "keeps (nodeIs P) resetLastDownloadedBlock"
    "keeps (nodeIs P) setWakeUp" "keeps (nodeIs P) resetWakeUp"
  using assms unfolding resetLastDownloadedBlock_def setLastDownloadedBlock_def resetWakeUp_def setWakeUp_def
  by (intro keeps_intros keeps_node_inStore;
      auto simp: blocksOnly_def setWakeUpTimeout_def clearWakeUpTimeout_def)+

lemma keeps_afterApply:
  assumes "blocksOnly P" shows "keeps (nodeIs P) (afterApply C b)"
  unfolding afterApply_def
  by (intro keeps_intros keeps_node_inStore keeps_node_pool keeps_service[OF assms])
    (use assms in \<open>auto simp: blocksOnly_def clearForkedBlock_def split: option.splits\<close>)

text \<open>Reverting ends one block earlier, or reports corruption.\<close>

lemma revertBlockHandler_outcome:
  assumes "store_ok (storeOf s)"
  obtains s' where "revertBlockHandler C b s = (Inr Corrupted, s')" and "store_ok (storeOf s')"
  | s' p where "revertBlockHandler C b s = (Inr Reverted, s')" and "endsWith p (storeOf s')"
    and "height (bdata p) + 1 = height (bdata b)"
proof -
  have prev: "keeps P (previousBlockOf C b)" for P
    unfolding previousBlockOf_def by (intro keeps_intros)
  let ?load = "andThen (onRound (di_revertBlock (ce_round C) b)) (\<lambda>_.
      andThen (forEach (\<lambda>t. withPool C (\<lambda>E. addTransaction E t)) (transactions b)) (\<lambda>_. previousBlockOf C b))"
  have load: "keeps (nodeIs store_ok) ?load"
    by (intro keeps_andThen keeps_forEach keeps_node_onRound[OF keeps_di_revertBlock] keeps_node_pool prev)
  have split: "tryRevert C b = andThen ?load (\<lambda>p.
     andThen (throwIf (height (bdata p) + 1 \<noteq> height (bdata b))
        (PlainError ''Previous block height is invalid.'')) (\<lambda>_.
     andThen (onNodeStore (setLastBlock p)) (\<lambda>_. ret Reverted)))"
    by (simp add: tryRevert_def andThen_assoc)
  obtain q u where q: "?load s = (q, u)" by fastforce
  have u: "store_ok (storeOf u)" using load assms q by (auto simp: keeps_def nodeIs_def dest: spec[of _ s])
  show thesis
  proof (cases q)
    case (Inl e)
    then have "revertBlockHandler C b s = (Inr Corrupted, u)"
      using q by (simp add: revertBlockHandler_def split catching_def andThen_def)
    then show thesis using that(1) u by blast
  next
    case (Inr p)
    show thesis
    proof (cases "height (bdata p) + 1 = height (bdata b)")
      case False
      then have "revertBlockHandler C b s = (Inr Corrupted, u)"
        using q Inr by (simp add: revertBlockHandler_def split catching_def andThen_def)
      then show thesis using that(1) u by blast
    next
      case True
      obtain r st where st: "setLastBlock p (storeOf u) = (r, st)" by fastforce
      let ?t = "u\<lparr>bn_round := (bn_round u)\<lparr>rs_store := st\<rparr>\<rparr>"
      have run: "revertBlockHandler C b s = (case r of Inl e \<Rightarrow> (Inr Corrupted, ?t) | Inr _ \<Rightarrow> (Inr Reverted, ?t))"
        using q Inr True st
        by (simp add: revertBlockHandler_def split catching_def andThen_def within_def inStore_def split: sum.splits)
      have "store_ok st" "(\<exists>x. r = Inr x) \<Longrightarrow> endsWith p st"
        using setLastBlock_ok[OF u, of p _ st] setLastBlock_Inl[OF u, of p _ st] st u
        by (cases r; auto simp: endsWith_def)+
      then show thesis using that run True by (cases r) auto
    qed
  qed
qed

text \<open>
  The handler always answers: the block is the last one, or the chain ends at the height it had,
  or the state is corrupted.
\<close>

lemma accept_outcome:
  assumes s: "endsWith l (storeOf s)" and h: "height (bdata b) = height (bdata l) + 1"
  obtains (accepted) s' where "acceptBlockHandler C b s = (Inr Accepted, s')" and "endsWith b (storeOf s')"
  | (refused) s' p where "acceptBlockHandler C b s = (Inr Rejected, s')" and "endsWith p (storeOf s')"
      and "height (bdata p) = height (bdata l)"
  | (corrupt) s' where "acceptBlockHandler C b s = (Inr Corrupted, s')" and "store_ok (storeOf s')"
proof -
  obtain r t where r: "tryAccept C b s = (r, t)" by fastforce
  obtain q d where q: "di_applyBlock (ce_round C) b (bn_round s) = (q, d)" by fastforce
  note store = di_applyBlock_store[OF s q]
  have ends: "(r = Inr Accepted \<and> endsWith b (storeOf t)) \<or>
      (\<exists>e. r = Inl e) \<and> (endsWith b (storeOf t) \<or> endsWith l (storeOf t))"
  proof (cases q)
    case (Inl e)
    then show ?thesis using r q store by (auto simp: tryAccept_def andThen_def within_def)
  next
    case (Inr u)
    obtain q2 t2 where q2: "afterApply C b (s\<lparr>bn_round := d\<rparr>) = (q2, t2)" by fastforce
    have "endsWith b (storeOf t2)"
      using keepsD[OF keeps_afterApply[OF blocksOnly_endsWith(1)] _ q2, of b] store Inr by (simp add: nodeIs_def)
    then show ?thesis using r q Inr q2 by (cases q2) (auto simp: tryAccept_def andThen_def within_def)
  qed
  show thesis
  proof (cases r)
    case (Inr x)
    then show thesis using ends accepted r by (auto simp: acceptBlockHandler_def catching_def)
  next
    case (Inl e)
    obtain e' where e': "endsWith e' (storeOf t)" "e' = b \<or> e' = l" using ends Inl by auto
    define t' where "t' = snd (resetLastDownloadedBlock t)"
    have last: "node_getLastBlock t = (Inr e', t)" using e'(1) by (simp add: node_getLastBlock_run endsWith_def)
    have reset: "resetLastDownloadedBlock t = (Inr (), t')"
      using last by (simp add: t'_def resetLastDownloadedBlock_def setLastDownloadedBlock_def andThen_def
          within_def inStore_def)
    have t': "endsWith e' (storeOf t')"
      using keepsD[OF keeps_service(2)[OF blocksOnly_endsWith(1)] _ reset, of e'] e'(1) by (simp add: nodeIs_def)
    have run: "acceptBlockHandler C b s = (if height (bdata e') = height (bdata b)
       then andThen (revertBlockHandler C b) (\<lambda>r. ret (if r = Corrupted then r else Rejected)) t'
       else (Inr Rejected, t'))"
      using t' reset by (simp add: acceptBlockHandler_def catching_def r Inl refuseBlock_def
          andThen_def node_getLastBlock_run endsWith_def)
    show thesis
    proof (cases "height (bdata e') = height (bdata b)")
      case False
      then show thesis using refused run t' e'(2) by auto
    next
      case True
      have "store_ok (storeOf t')" using t' by (simp add: endsWith_def)
      then show thesis
        by (rule revertBlockHandler_outcome[of t' C b])
          (use run True h refused corrupt in \<open>auto simp: andThen_def\<close>)
    qed
  qed
qed


end
