(* ===== verification/Blockchain.thy ===== *)
theory Blockchain
  imports Acceptance
begin

text \<open>
  The blockchain service (packages/core-blockchain/source): the job that processes a chunk of
  blocks (process-blocks-job.ts), the service (blockchain.ts) and the actions of its state machine
  (state-machine/actions), over the node of \<open>Processor\<close>. A job, an action and a received block are
  one step each; a download is two, since the node goes on while it waits for its peers.
\<close>

section \<open>Dispatching events and queueing jobs\<close>

definition node_dispatch :: "mevent \<Rightarrow> ('w, unit) bprog" where
  "node_dispatch e = modify (\<lambda>s. s\<lparr>bn_machine := transition e (bn_machine s)\<rparr>)"

text \<open>An operation of the queue; an emitted \<open>drain\<close> dispatches \<open>PROCESSFINISHED\<close>.\<close>

definition onQueue :: "(blockview list queue \<Rightarrow> blockview list queue \<times> bool) \<Rightarrow> ('w, unit) bprog" where
  "onQueue f = (\<lambda>s. case f (bn_queue s) of (q, drained) \<Rightarrow>
     whenever drained (node_dispatch E_PROCESSFINISHED) (s\<lparr>bn_queue := q\<rparr>))"

definition clearAndStopQueue :: "('w, unit) bprog" where
  "clearAndStopQueue =
     andThen node_getLastBlock (\<lambda>l.
     andThen (setLastDownloadedBlock (bdata l)) (\<lambda>_.
     andThen (modify (\<lambda>s. s\<lparr>bn_queue := q_pause (bn_queue s)\<rparr>)) (\<lambda>_.
     clearQueue)))"

definition node_forkBlock :: "block \<Rightarrow> int option \<Rightarrow> ('w, unit) bprog" where
  "node_forkBlock b n =
     andThen (onNodeStore (modify (setForkedBlock b))) (\<lambda>_.
     andThen clearAndStopQueue (\<lambda>_.
     andThen (whenever (truthyNum n) (onNodeStore (modify (\<lambda>st. st\<lparr>st_rollback := the n\<rparr>)))) (\<lambda>_.
     node_dispatch E_FORK)))"

section \<open>The job (process-blocks-job.ts)\<close>

record job_vars =
  jv_accepted :: "block list"
  jv_fork :: "block option"
  jv_result :: "block_result option"
  jv_last :: "block option"
  jv_corrupted :: bool

definition newJobVars :: job_vars where
  "newJobVars = \<lparr>jv_accepted = [], jv_fork = None, jv_result = None, jv_last = None, jv_corrupted = False\<rparr>"

text \<open>The time of an accepted block of the chunk, or that of the stored block.\<close>

definition acceptedLookup :: "block list \<Rightarrow> (int \<Rightarrow> error + int) \<Rightarrow> int \<Rightarrow> error + int" where
  "acceptedLookup acc db h =
     (case find (\<lambda>b. height (bdata b) = h) acc of None \<Rightarrow> db h | Some b \<Rightarrow> Inr (timestamp (bdata b)))"

definition jobSlots :: "('h, 'w) chain_env \<Rightarrow> block list \<Rightarrow> 'w chain_node \<Rightarrow> slots_env" where
  "jobSlots C acc s = (slotsOf C s)\<lparr>se_lookup := acceptedLookup acc (se_lookup (slotsOf C s))\<rparr>"

text \<open>What processing a block does to the variables, and whether the loop goes on.\<close>

definition jobOutcome :: "block \<Rightarrow> block_result \<Rightarrow> job_vars \<Rightarrow> job_vars \<times> bool" where
  "jobOutcome b r v =
     (let v' = v\<lparr>jv_result := Some r, jv_last := Some b\<rparr>
      in if r = Accepted then (v'\<lparr>jv_accepted := jv_accepted v' @ [b]\<rparr>, True)
         else if r = Corrupted then (v'\<lparr>jv_corrupted := True\<rparr>, False)
         else if r = Rollback then (v'\<lparr>jv_fork := Some b\<rparr>, False)
         else (v', False))"

definition processOne :: "('h, 'w) chain_env \<Rightarrow> blockview \<Rightarrow> job_vars \<Rightarrow> ('w, job_vars \<times> bool) bprog" where
  "processOne C x v =
     andThen (\<lambda>s. (getSlotNumber (jobSlots C (jv_accepted v) s) None None, s)) (\<lambda>current.
     andThen (\<lambda>s. (getSlotNumber (jobSlots C (jv_accepted v) s) (Some (timestamp (fst x))) None, s)) (\<lambda>slot.
     if slot > current then ret (v, False)
     else andThen (liftE (re_fromData (ce_round C) x)) (\<lambda>b.
       andThen (process_block C b) (\<lambda>r.
       andThen (whenever (r = Rollback) (setLastDownloadedBlock (bdata b))) (\<lambda>_.
       ret (jobOutcome b r v))))))"

text \<open>The loop, in its \<open>try\<close>: an error ends it with the variables as they are.\<close>

fun processLoop :: "('h, 'w) chain_env \<Rightarrow> blockview list \<Rightarrow> job_vars \<Rightarrow> ('w, job_vars) bprog" where
  "processLoop C [] v = ret v"
| "processLoop C (x # xs) v =
     andThen (catching (processOne C x v) (\<lambda>_. ret (v, False))) (\<lambda>(v', go).
     if go then processLoop C xs v' else ret v')"

definition handleCorrupted :: "('w, unit) bprog" where
  "handleCorrupted = modify (\<lambda>s. s\<lparr>bn_exited := True\<rparr>)"

text \<open>Reverting the accepted blocks, the newest first; the process exits at a corrupted state.\<close>

fun revertAccepted :: "('h, 'w) chain_env \<Rightarrow> block list \<Rightarrow> ('w, bool) bprog" where
  "revertAccepted C [] = ret True"
| "revertAccepted C (b # bs) =
     andThen (revertBlockHandler C b) (\<lambda>r.
     if r = Corrupted then andThen handleCorrupted (\<lambda>_. ret False) else revertAccepted C bs)"

definition job_revertBlocks :: "('h, 'w) chain_env \<Rightarrow> block list \<Rightarrow> ('w, unit) bprog" where
  "job_revertBlocks C bs =
     andThen (onRound (roundOf (height (bdata (hd bs))))) (\<lambda>i.
     andThen (revertAccepted C (rev bs)) (\<lambda>alive.
     whenever alive
       (andThen (onRound (inDb (deleteRound (ri_round i + 1)))) (\<lambda>_.
        andThen (onRound (restore (ce_round C))) (\<lambda>_.
        andThen clearQueue (\<lambda>_. resetLastDownloadedBlock))))))"

text \<open>Storing the accepted blocks; \<open>False\<close> when they had to be reverted.\<close>

definition saveAccepted :: "('h, 'w) chain_env \<Rightarrow> block list \<Rightarrow> ('w, bool) bprog" where
  "saveAccepted C bs =
     (if bs = [] then ret True
      else andThen (catching
          (andThen (onRound (inDb (saveBlocks (ce_encode C) bs))) (\<lambda>_.
           andThen (onNodeStore (modify (\<lambda>st. st\<lparr>st_lastStoredHeight := height (bdata (last bs))\<rparr>))) (\<lambda>_.
           ret True))) (\<lambda>_. ret False)) (\<lambda>ok.
        if ok then ret True else andThen (job_revertBlocks C bs) (\<lambda>_. ret False)))"

definition finishJob :: "job_vars \<Rightarrow> ('w, unit) bprog" where
  "finishJob v =
     (if jv_result v \<in> {Some Accepted, Some DiscardedButCanBeBroadcasted} \<and> jv_last v \<noteq> None
      then modify (\<lambda>s. if st_started (storeOf s) \<and> mc_state (bn_machine s) = NewBlock
             then s\<lparr>bn_broadcasts := bn_broadcasts s @ [the (jv_last v)]\<rparr> else s)
      else case jv_fork v of
        Some b \<Rightarrow> node_forkBlock b None
      | None \<Rightarrow> andThen clearQueue (\<lambda>_. resetLastDownloadedBlock))"

text \<open>
  The job. The promise of \<open>isBlockChained\<close> is negated without being awaited, so the early exit is
  never taken.
\<close>

definition job_handle :: "('h, 'w) chain_env \<Rightarrow> blockview list \<Rightarrow> ('w, unit) bprog" where
  "job_handle C xs =
     (if xs = [] then ret ()
      else andThen node_getLastBlock (\<lambda>l.
        andThen (reads (\<lambda>s. promiseIsTruthy (isBlockChained (slotsOf C s) (bdata l) (fst (hd xs))))) (\<lambda>chained.
        if \<not> chained then andThen clearQueue (\<lambda>_. resetLastDownloadedBlock)
        else andThen (processLoop C xs newJobVars) (\<lambda>v.
          if jv_corrupted v then handleCorrupted
          else andThen (saveAccepted C (jv_accepted v)) (\<lambda>saved. whenever saved (finishJob v))))))"

text \<open>The queue's loop around the running job: its error is logged, the next job follows.\<close>

definition runJob :: "('h, 'w) chain_env \<Rightarrow> ('w, unit) bprog" where
  "runJob C =
     andThen (reads (\<lambda>s. q_current (bn_queue s))) (\<lambda>j.
     case j of None \<Rightarrow> ret ()
     | Some xs \<Rightarrow> andThen (catching (job_handle C xs) (\<lambda>_. ret ())) (\<lambda>_. onQueue q_next))"

section \<open>The service (blockchain.ts)\<close>

definition createQueueJob :: "blockview list \<Rightarrow> ('w, unit) bprog" where
  "createQueueJob xs = andThen (onQueue (q_push xs)) (\<lambda>_. onQueue q_resume)"

definition node_getLastDownloadedBlock :: "('w, blockdata) bprog" where
  "node_getLastDownloadedBlock =
     andThen (reads (\<lambda>s. st_lastDownloaded (storeOf s))) (\<lambda>d.
     case d of Some x \<Rightarrow> ret x | None \<Rightarrow> andThen node_getLastBlock (\<lambda>l. ret (bdata l)))"

text \<open>
  The chunks of a download: one ends with 150 transactions, with as many blocks as the state
  keeps (100 at most), or at a milestone. The last chunk, which may be empty, always makes a job.
\<close>

fun chunks :: "int \<Rightarrow> int list \<Rightarrow> blockview list \<Rightarrow> int \<Rightarrow> blockview list \<Rightarrow> blockview list list" where
  "chunks limit ms chunk txs [] = [chunk]"
| "chunks limit ms chunk txs (x # xs) =
     (let chunk' = chunk @ [x];
          txs' = txs + numberOfTransactions (fst x);
          milestone = (case ms of [] \<Rightarrow> False | m # _ \<Rightarrow> m \<noteq> 0 \<and> m = height (fst x))
      in if txs' \<ge> 150 \<or> int (length chunk') \<ge> limit \<or> milestone
         then chunk' # chunks limit (if milestone then tl ms else ms) [] 0 xs
         else chunks limit ms chunk' txs' xs)"

definition chunksOf :: "store \<Rightarrow> blockdata \<Rightarrow> milestone list \<Rightarrow> blockview list \<Rightarrow> blockview list list" where
  "chunksOf st downloaded mss xs =
     chunks (min (st_maxLastBlocks st) 100)
       (filter (\<lambda>h. h \<ge> height downloaded) (sort (map m_height mss))) [] 0 xs"

definition enqueueBlocks :: "blockview list \<Rightarrow> ('w, unit) bprog" where
  "enqueueBlocks xs =
     (if xs = [] then ret ()
      else andThen node_getLastDownloadedBlock (\<lambda>d.
        andThen (reads (\<lambda>s. chunksOf (storeOf s) d (theMilestones (bn_round s)) xs)) (\<lambda>cs.
        forEach createQueueJob cs)))"

definition node_pushPingBlock :: "('h, 'w) chain_env \<Rightarrow> blockdata \<Rightarrow> bool \<Rightarrow> ('w, unit) bprog" where
  "node_pushPingBlock C d fromForger = onNodeStore (modify (pushPingBlock (ce_nowMs C) d fromForger))"

definition handleIncomingBlock :: "('h, 'w) chain_env \<Rightarrow> blockview \<Rightarrow> bool \<Rightarrow> ('w, unit) bprog" where
  "handleIncomingBlock C x fromForger =
     andThen (\<lambda>s. (getSlotNumber (slotsOf C s) None None, s)) (\<lambda>current.
     andThen (\<lambda>s. (getSlotNumber (slotsOf C s) (Some (timestamp (fst x))) None, s)) (\<lambda>received.
     andThen (if fromForger
        then andThen (\<lambda>s. (getTimeInMsUntilNextSlot (slotsOf C s), s)) (\<lambda>left.
             ret (current \<noteq> received \<or> left < 2000)) else ret False) (\<lambda>late.
     if late \<or> received > current then ret ()
     else andThen (node_pushPingBlock C (fst x) fromForger) (\<lambda>_.
       andThen (reads (\<lambda>s. st_started (storeOf s))) (\<lambda>started.
       whenever started (andThen (node_dispatch E_NEWBLOCK) (\<lambda>_. enqueueBlocks [x])))))))"

definition forceWakeup :: "('w, unit) bprog" where
  "forceWakeup = andThen (onNodeStore (modify clearWakeUpTimeout)) (\<lambda>_. node_dispatch E_WAKEUP)"

text \<open>The timer of \<open>setWakeUp\<close> fires once; the store forgets it before the callback runs.\<close>

definition wakeUpFires :: "('w, unit) bprog" where
  "wakeUpFires = andThen (reads (\<lambda>s. st_wakeUp (storeOf s))) (\<lambda>w. whenever w
     (andThen (onNodeStore (modify (\<lambda>st. st\<lparr>st_wakeUp := False\<rparr>))) (\<lambda>_. node_dispatch E_WAKEUP)))"

text \<open>Within three block times of the clock, or without a peer to learn otherwise from.\<close>

definition isSynced :: "('h, 'w) chain_env \<Rightarrow> blockdata option \<Rightarrow> ('w, bool) bprog" where
  "isSynced C d =
     (if \<not> ce_hasPeers C then ret True
      else andThen (case d of Some x \<Rightarrow> ret x | None \<Rightarrow> andThen node_getLastBlock (\<lambda>l. ret (bdata l))) (\<lambda>x.
        andThen (reads (\<lambda>s. Option.bind (milestoneAt (theMilestones (bn_round s)) (height x)) m_blockTime)) (\<lambda>bt.
        case bt of None \<Rightarrow> ret False
        | Some t \<Rightarrow> ret (se_now (re_slots (ce_round C)) - timestamp x < 3 * t))))"

definition setRollback :: "('h, 'w) chain_env \<Rightarrow> ('w, unit) bprog" where
  "setRollback C = onNodeStore (modify (\<lambda>st. st\<lparr>st_rollback :=
     (case snd (ce_health C) of None \<Rightarrow> 0 | Some n \<Rightarrow> n)\<rparr>))"

definition currentHeight :: "cfg \<Rightarrow> int" where
  "currentHeight c = (if truthyNum (cheight c) then the (cheight c) else 1)"

definition checkMissingBlocks :: "('h, 'w) chain_env \<Rightarrow> ('w, unit) bprog" where
  "checkMissingBlocks C =
     andThen (modify (\<lambda>s. s\<lparr>bn_missed := bn_missed s + 1\<rparr>)) (\<lambda>_.
     andThen (reads (\<lambda>s. Option.bind (milestoneAt (theMilestones (bn_round s))
        (currentHeight (st_config (storeOf s)))) m_activeValidators)) (\<lambda>av.
     andThen (reads bn_missed) (\<lambda>missed.
     whenever (av \<noteq> None \<and> 3 * missed \<ge> the av - 3 \<and> ce_dice C)
       (andThen (modify (\<lambda>s. s\<lparr>bn_missed := 0\<rparr>)) (\<lambda>_.
        andThen (reads (\<lambda>s. ce_nowMs C - bn_lastHealth s < 10 * 60 * 1000)) (\<lambda>recent.
        whenever (\<not> recent)
          (andThen (modify (\<lambda>s. s\<lparr>bn_lastHealth := ce_nowMs C\<rparr>)) (\<lambda>_.
           whenever (fst (ce_health C)) (andThen (setRollback C) (\<lambda>_. node_dispatch E_FORK))))))))))"

definition resetMissedBlocks :: "('w, unit) bprog" where
  "resetMissedBlocks = modify (\<lambda>s. s\<lparr>bn_missed := 0\<rparr>)"

definition node_boot :: "('w, unit) bprog" where
  "node_boot = andThen (modify (\<lambda>s. s\<lparr>bn_machine := newMachine\<rparr>)) (\<lambda>_. node_dispatch E_START)"

definition node_dispose :: "('w, unit) bprog" where
  "node_dispose =
     andThen (reads bn_stopped) (\<lambda>stopped.
     whenever (\<not> stopped)
       (andThen (modify (\<lambda>s. s\<lparr>bn_stopped := True\<rparr>)) (\<lambda>_.
        andThen (onNodeStore (modify clearWakeUpTimeout)) (\<lambda>_.
        andThen (node_dispatch E_STOP) (\<lambda>_.
        modify (\<lambda>s. s\<lparr>bn_queue := q_stop (bn_queue s)\<rparr>))))))"

end
