(* ===== verification/Sync.thy ===== *)
theory Sync
  imports Blockchain
begin

text \<open>
  The actions of the blockchain's state machine (packages/core-blockchain/source/state-machine/
  actions) and the node as a transition system: pending actions, the running job, downloads that
  arrive, received blocks, the wake-up timer and missed blocks, in any order.
\<close>

section \<open>Actions\<close>

definition act_blockchainReady :: "('w, unit) bprog" where
  "act_blockchainReady = onNodeStore (modify (\<lambda>st. if st_started st then st else st\<lparr>st_started := True\<rparr>))"

definition act_checkLastBlockSynced :: "('h, 'w) chain_env \<Rightarrow> ('w, unit) bprog" where
  "act_checkLastBlockSynced C =
     andThen (isSynced C None) (\<lambda>b. node_dispatch (if b then E_SYNCED else E_NOTSYNCED))"

definition networkHalted :: "('h, 'w) chain_env \<Rightarrow> ('w, mevent) bprog" where
  "networkHalted C =
     andThen (onNodeStore (modify (\<lambda>st. st\<lparr>st_noBlockCounter := 0\<rparr>))) (\<lambda>_.
     andThen (reads (\<lambda>s. st_p2pUpdateCounter (storeOf s))) (\<lambda>n.
     if n + 1 > 3
     then andThen (whenever (fst (ce_health C)) (setRollback C)) (\<lambda>_.
       andThen (onNodeStore (modify (\<lambda>st. st\<lparr>st_p2pUpdateCounter := 0\<rparr>))) (\<lambda>_.
       ret (if fst (ce_health C) then E_FORK else E_NETWORKHALTED)))
     else andThen (onNodeStore (modify (\<lambda>st. st\<lparr>st_p2pUpdateCounter := n + 1\<rparr>))) (\<lambda>_.
       ret E_NETWORKHALTED)))"

definition lastDownloadSynced :: "('h, 'w) chain_env \<Rightarrow> ('w, bool) bprog" where
  "lastDownloadSynced C =
     andThen (reads (\<lambda>s. st_lastDownloaded (storeOf s))) (\<lambda>d.
     if d = None then ret False else isSynced C d)"

definition act_checkLastDownloadedBlockSynced :: "('h, 'w) chain_env \<Rightarrow> ('w, unit) bprog" where
  "act_checkLastDownloadedBlockSynced C =
     andThen (reads (\<lambda>s. if q_size (bn_queue s) > 100 then E_PAUSED else E_NOTSYNCED)) (\<lambda>e0.
     andThen (reads (\<lambda>s. st_noBlockCounter (storeOf s) > 5 \<and> \<not> q_isRunning (bn_queue s))) (\<lambda>halted.
     andThen (if halted then networkHalted C
        else andThen (lastDownloadSynced C) (\<lambda>synced.
          if synced
          then andThen (onNodeStore (modify (\<lambda>st. st\<lparr>st_noBlockCounter := 0, st_p2pUpdateCounter := 0\<rparr>)))
                 (\<lambda>_. ret E_SYNCED)
          else ret e0)) (\<lambda>e1.
     andThen (reads (\<lambda>s. st_networkStart (storeOf s))) (\<lambda>start.
     node_dispatch (if ce_test C then E_TEST else if start then E_SYNCED else e1)))))"

definition act_checkLater :: "('w, unit) bprog" where
  "act_checkLater = andThen (reads (\<lambda>s. \<not> bn_stopped s \<and> \<not> st_wakeUp (storeOf s))) (\<lambda>b. whenever b setWakeUp)"

definition act_downloadBlocks :: "('w, unit) bprog" where
  "act_downloadBlocks =
     andThen node_getLastDownloadedBlock (\<lambda>d. modify (\<lambda>s. s\<lparr>bn_downloads := bn_downloads s @ [d]\<rparr>))"

text \<open>The rest of the action, once the peers have answered the download that began after \<open>d\<close>.\<close>

definition nothingDownloaded :: "bool \<Rightarrow> ('w, unit) bprog" where
  "nothingDownloaded isEmpty =
     andThen (whenever (\<not> isEmpty) clearQueue) (\<lambda>_.
     andThen (reads (\<lambda>s. q_size (bn_queue s) = 0)) (\<lambda>idle.
     andThen (whenever idle
        (andThen (onNodeStore (modify (\<lambda>st. st\<lparr>st_noBlockCounter := st_noBlockCounter st + 1\<rparr>))) (\<lambda>_.
         resetLastDownloadedBlock))) (\<lambda>_.
     node_dispatch E_NOBLOCK)))"

definition downloaded :: "('h, 'w) chain_env \<Rightarrow> blockdata \<Rightarrow> blockview list \<Rightarrow> ('w, unit) bprog" where
  "downloaded C d xs =
     andThen (reads (\<lambda>s. bn_stopped s \<or> (case st_lastDownloaded (storeOf s) of
        None \<Rightarrow> False | Some l \<Rightarrow> bid l \<noteq> bid d))) (\<lambda>stale.
     if stale then ret ()
     else andThen (\<lambda>s. (if xs = [] then Inr False else isBlockChained (slotsOf C s) d (fst (hd xs)), s)) (\<lambda>chained.
       if chained
       then catching
         (andThen (enqueueBlocks xs) (\<lambda>_.
          andThen (setLastDownloadedBlock (fst (last xs))) (\<lambda>_.
          node_dispatch E_DOWNLOADED)))
         (\<lambda>_. node_dispatch E_NOBLOCK)
       else nothingDownloaded (xs = [])))"

definition act_downloadFinished :: "('w, unit) bprog" where
  "act_downloadFinished =
     andThen (reads (\<lambda>s. st_networkStart (storeOf s))) (\<lambda>start.
     if start then andThen (onNodeStore (modify (\<lambda>st. st\<lparr>st_networkStart := False\<rparr>)))
         (\<lambda>_. node_dispatch E_SYNCFINISHED)
     else andThen (reads (\<lambda>s. q_isRunning (bn_queue s))) (\<lambda>running.
       whenever (\<not> running) (node_dispatch E_PROCESSFINISHED)))"

definition act_downloadPaused :: "('w, unit) bprog" where
  "act_downloadPaused = ret ()"

definition act_exitApp :: "('w, unit) bprog" where
  "act_exitApp = modify (\<lambda>s. s\<lparr>bn_exited := True\<rparr>)"

definition act_stopped :: "('w, unit) bprog" where
  "act_stopped = ret ()"

definition act_syncingComplete :: "('w, unit) bprog" where
  "act_syncingComplete = node_dispatch E_SYNCFINISHED"

section \<open>The state builder (state-builder.ts)\<close>

text \<open>
  A stored block adds its reward, its sent transactions, what the handlers bootstrap, the ranking and
  the check of the wallets; an error is logged and the next block follows. The vote balances are not
  awaited: no balance is added before the ranking and the check, which run at once, and their error is
  only logged. (With many voters their tail can run into the next block's steps.) The builder then
  tells its listeners, the pool, which rebuilds itself.
\<close>

definition rebuildBlock :: "('h, 'w) chain_env \<Rightarrow> block \<Rightarrow> ('w, unit) bprog" where
  "rebuildBlock C b =
     (let R = ce_round C in
      andThen (onRound (inWallets (buildBlockRewards (re_env R) (bdata b)))) (\<lambda>_.
      andThen (onRound (inWallets (buildSentTransactions (re_env R) (transactions b)))) (\<lambda>_.
      andThen (onRound (inWallets (forEach (\<lambda>h. bootstrap (re_env R) h (transactions b)) (re_handlers R)))) (\<lambda>_.
      andThen (onRound (inDpos buildValidatorRanking)) (\<lambda>_.
      andThen (onRound (inWallets (verifyWalletsConsistency (ce_genesisKeys C)))) (\<lambda>_.
      andThen (catching (onRound (inWallets (buildVoteBalances (re_env R)))) (\<lambda>_. ret ())) (\<lambda>_.
      withPool C (\<lambda>E. handle E BuilderFinished))))))))"

text \<open>The blocks come in the order of their keys in the storage, which are their identifiers.\<close>

definition storedBlocks :: "database \<Rightarrow> byte list list" where
  "storedBlocks db = map snd (sort_key fst (db_blocks db))"

definition rebuildState :: "('h, 'w) chain_env \<Rightarrow> ('w, unit) bprog" where
  "rebuildState C =
     andThen (reads (\<lambda>s. storedBlocks (rs_db (bn_round s)))) (forEach (\<lambda>bytes.
     andThen (liftE (re_fromBytes (ce_round C) bytes)) (\<lambda>b.
     catching (rebuildBlock C b) (\<lambda>_. ret ()))))"

section \<open>Initialisation\<close>

text \<open>Restoring the state: the builder, the rounds, the pool unless under test, and the peers.\<close>

definition restoreNode :: "('h, 'w) chain_env \<Rightarrow> bool \<Rightarrow> ('w, unit) bprog" where
  "restoreNode C readd =
     andThen (rebuildState C) (\<lambda>_.
     andThen (onRound (restore (ce_round C))) (\<lambda>_.
     andThen (whenever readd (withPool C (\<lambda>E. readdTransactions E []))) (\<lambda>_.
     andThen (liftE (ce_networkBoot C)) (\<lambda>_.
     node_dispatch E_STARTED))))"

definition tryInitialize :: "('h, 'w) chain_env \<Rightarrow> ('w, unit) bprog" where
  "tryInitialize C =
     andThen node_getLastBlock (\<lambda>b.
     if height (bdata b) = 1 \<and> payloadHash (bdata b) \<noteq> ce_nethash C then node_dispatch E_FAILURE
     else andThen (whenever (height (bdata b) = 1) (onRound (inDb (deleteRound 1)))) (\<lambda>_.
       andThen (onRound (roundOf (height (bdata b)))) (\<lambda>i.
       andThen (onRound (inDb (deleteRound (ri_round i + 1)))) (\<lambda>_.
       andThen (reads (\<lambda>s. st_networkStart (storeOf s))) (\<lambda>start.
       restoreNode C (start \<or> \<not> ce_test C))))))"

definition act_initialize :: "('h, 'w) chain_env \<Rightarrow> ('w, unit) bprog" where
  "act_initialize C = catching (tryInitialize C) (\<lambda>_. node_dispatch E_FAILURE)"

fun act :: "('h, 'w) chain_env \<Rightarrow> maction \<Rightarrow> ('w, unit) bprog" where
  "act C A_blockchainReady = act_blockchainReady"
| "act C A_checkLastBlockSynced = act_checkLastBlockSynced C"
| "act C A_checkLastDownloadedBlockSynced = act_checkLastDownloadedBlockSynced C"
| "act C A_checkLater = act_checkLater"
| "act C A_downloadBlocks = act_downloadBlocks"
| "act C A_downloadFinished = act_downloadFinished"
| "act C A_downloadPaused = act_downloadPaused"
| "act C A_exitApp = act_exitApp"
| "act C A_init = act_initialize C"
| "act C A_stopped = act_stopped"
| "act C A_syncingComplete = act_syncingComplete"
| "act C A_startForkRecovery = ret ()"

section \<open>The node as a transition system\<close>

definition popAction :: "'w chain_node \<Rightarrow> 'w chain_node" where
  "popAction s = s\<lparr>bn_machine := (bn_machine s)\<lparr>mc_pending := tl (mc_pending (bn_machine s))\<rparr>\<rparr>"

inductive nodeStep :: "('h, 'w) chain_env \<Rightarrow> 'w chain_node \<Rightarrow> 'w chain_node \<Rightarrow> bool" for C where
  acts: "mc_pending (bn_machine s) = a # as \<Longrightarrow> nodeStep C s (snd (act C a (popAction s)))"
| job: "nodeStep C s (snd (runJob C s))"
| arrives: "d \<in> set (bn_downloads s) \<Longrightarrow>
    nodeStep C s (snd (downloaded C d xs (s\<lparr>bn_downloads := remove1 d (bn_downloads s)\<rparr>)))"
| receives: "nodeStep C s (snd (handleIncomingBlock C x fromForger s))"
| wakes: "nodeStep C s (snd (wakeUpFires s))"
| forced: "nodeStep C s (snd (forceWakeup s))"
| misses: "nodeStep C s (snd (checkMissingBlocks C s))"
| roundApplied: "nodeStep C s (snd (resetMissedBlocks s))"
| boots: "nodeStep C s (snd (node_boot s))"
| disposes: "nodeStep C s (snd (node_dispose s))"

inductive reachableNode :: "('h, 'w) chain_env set \<Rightarrow> 'w chain_node set \<Rightarrow> 'w chain_node \<Rightarrow> bool" for Cs I where
  initial: "s \<in> I \<Longrightarrow> reachableNode Cs I s"
| onward: "reachableNode Cs I s \<Longrightarrow> C \<in> Cs \<Longrightarrow> nodeStep C s s' \<Longrightarrow> reachableNode Cs I s'"

end
