(* ===== verification/NodeInvariant.thy ===== *)
theory NodeInvariant
  imports Sync
begin

text \<open>
  What every step of the node keeps, whatever the peers, the clock and the handlers do: the last
  blocks of the state are consecutive, end where they should and stay within their bound, and the
  queue never leaves a job waiting while it is started and idle. Then the chunks of a download and
  the cycle of states that ends a synchronisation.
\<close>

section \<open>The invariant\<close>

definition node_ok :: "'w chain_node \<Rightarrow> bool" where
  "node_ok s \<longleftrightarrow> store_ok (storeOf s) \<and> busy_ok (bn_queue s)"

named_theorems node_intros \<open>programs that keep the invariant of the node\<close>

lemma node_onRound [node_intros]:
  assumes "keeps (storeIs store_ok) m" shows "keeps node_ok (onRound m)"
proof (rule keepsI)
  fix s :: "'w chain_node" assume s: "node_ok s"
  obtain r t where r: "m (bn_round s) = (r, t)" by fastforce
  have "storeIs store_ok t" using keepsD[OF assms _ r] s by (simp add: node_ok_def storeIs_def)
  then show "node_ok (snd (onRound m s))" using s r by (simp add: within_def node_ok_def storeIs_def)
qed

lemma round_inStore [node_intros]:
  assumes "keeps store_ok m" shows "keeps (storeIs store_ok) (inStore m)"
proof (rule keepsI)
  fix s assume s: "storeIs store_ok s"
  obtain r t where r: "m (rs_store s) = (r, t)" by fastforce
  have "store_ok t" using keepsD[OF assms _ r] s by (simp add: storeIs_def)
  then show "storeIs store_ok (snd (inStore m s))" using r by (simp add: inStore_def storeIs_def)
qed

lemma round_inDb [node_intros]: "keeps (storeIs P) (inDb m)"
  by (rule keeps_inDb) (simp add: storeIs_def)

lemma round_inWallets [node_intros]: "keeps (storeIs P) (inWallets m)"
  unfolding inWallets_def by (rule keeps_inDpos) (simp add: storeIs_def)

lemma round_getActive [node_intros]: "keeps (storeIs P) (getActiveValidators R i vs)"
  unfolding getActiveValidators_def storedValidators_def storedValidator_def
  by (intro keeps_intros round_inWallets)

lemma node_withPool [node_intros]: "keeps node_ok (withPool C m)"
  unfolding withPool_def
  by (intro keeps_intros) (auto simp: keeps_def within_def node_ok_def split: prod.splits)

lemma node_updates [node_intros]:
  "(\<And>s. storeOf (f s) = storeOf s) \<Longrightarrow> (\<And>s. bn_queue (f s) = bn_queue s) \<Longrightarrow> keeps node_ok (modify f)"
  by (auto simp: keeps_def node_ok_def)

lemma node_queue [node_intros]:
  "(\<And>q. busy_ok q \<Longrightarrow> busy_ok (f q)) \<Longrightarrow> keeps node_ok (modify (\<lambda>s. s\<lparr>bn_queue := f (bn_queue s)\<rparr>))"
  by (auto simp: keeps_def node_ok_def)

lemma node_onQueue [node_intros]:
  assumes "\<And>q. busy_ok q \<Longrightarrow> busy_ok (fst (f q))" shows "keeps node_ok (onQueue f)"
proof (rule keepsI)
  fix s :: "'w chain_node" assume "node_ok s"
  moreover obtain q d where "f (bn_queue s) = (q, d)" by fastforce
  ultimately show "node_ok (snd (onQueue f s))"
    using assms[of "bn_queue s"] by (simp add: onQueue_def node_dispatch_def node_ok_def)
qed

lemma node_dispatch_ok [node_intros]: "keeps node_ok (node_dispatch e)"
  unfolding node_dispatch_def by (intro node_intros) simp_all

lemma node_clearQueue [node_intros]: "keeps node_ok clearQueue"
  unfolding clearQueue_def by (intro node_intros) (simp add: busy_ok_ops)

lemma node_storeUpdate [node_intros]:
  "(\<And>st. store_ok (f st) = store_ok st) \<Longrightarrow> keeps node_ok (onNodeStore (modify f))"
  by (intro node_intros keeps_intros) simp

text \<open>The blocks, the bound and the milestones are all \<open>store_ok\<close> reads of the store.\<close>

lemma store_ok_fields [simp]:
  "store_ok (st\<lparr>st_lastDownloaded := d\<rparr>) = store_ok st" "store_ok (st\<lparr>st_rollback := n\<rparr>) = store_ok st"
  "store_ok (st\<lparr>st_noBlockCounter := n\<rparr>) = store_ok st" "store_ok (st\<lparr>st_p2pUpdateCounter := n\<rparr>) = store_ok st"
  "store_ok (st\<lparr>st_lastStoredHeight := n\<rparr>) = store_ok st" "store_ok (st\<lparr>st_started := b\<rparr>) = store_ok st"
  "store_ok (st\<lparr>st_networkStart := b\<rparr>) = store_ok st" "store_ok (st\<lparr>st_wakeUp := b\<rparr>) = store_ok st"
  "store_ok (st\<lparr>st_forked := f\<rparr>) = store_ok st" "store_ok (st\<lparr>st_blockPing := p\<rparr>) = store_ok st"
  "store_ok (setForkedBlock b' st) = store_ok st" "store_ok (clearForkedBlock st) = store_ok st"
  "store_ok (setWakeUpTimeout st) = store_ok st" "store_ok (clearWakeUpTimeout st) = store_ok st"
  "store_ok (pushPingBlock t x y st) = store_ok st"
  by (simp_all add: store_ok_def setForkedBlock_def clearForkedBlock_def setWakeUpTimeout_def
      clearWakeUpTimeout_def pushPingBlock_def)

lemma node_service [node_intros]:
  "keeps node_ok (setLastDownloadedBlock d)" "keeps node_ok resetLastDownloadedBlock"
  "keeps node_ok setWakeUp" "keeps node_ok resetWakeUp"
  unfolding resetLastDownloadedBlock_def resetWakeUp_def setWakeUp_def setLastDownloadedBlock_def
  by (intro keeps_intros node_storeUpdate; simp)+

section \<open>Processing blocks keeps it\<close>

lemma node_walletsOnly:
  fixes m :: "('w, 'a) bprog"
  assumes "\<And>s. keeps (walletsOnly s) m" shows "keeps node_ok m"
proof (rule keepsI)
  fix s :: "'w chain_node" assume "node_ok s"
  moreover have "walletsOnly s (snd (m s))" using assms[of s] by (simp add: keeps_def)
  ultimately show "node_ok (snd (m s))" by (auto simp: node_ok_def walletsOnly_def)
qed

lemma node_checks [node_intros]:
  "keeps node_ok (validateGenerator C b)" "keeps node_ok (containsForged b)" "keeps node_ok (bp_verifyBlock C b)"
proof -
  show "keeps node_ok (validateGenerator C b)" by (rule node_walletsOnly[OF keeps_validateGenerator])
  show "keeps node_ok (containsForged b)"
    unfolding containsForged_def Let_def by (intro keeps_intros)
  have "keeps node_ok (verifyWithHandler C t)" for t by (rule node_walletsOnly[OF keeps_verifyWithHandler])
  then show "keeps node_ok (bp_verifyBlock C b)"
    unfolding bp_verifyBlock_def by (intro keeps_intros)
qed

lemma node_refusals [node_intros]:
  "keeps node_ok verificationFailedHandler" "keeps node_ok incompatibleTransactionsHandler"
  "keeps node_ok nonceOutOfOrderHandler" "keeps node_ok invalidGeneratorHandler"
  "keeps node_ok alreadyForgedHandler"
  unfolding verificationFailedHandler_def incompatibleTransactionsHandler_def nonceOutOfOrderHandler_def
    invalidGeneratorHandler_def alreadyForgedHandler_def
  by (intro keeps_intros node_service)+

lemma node_previousBlockOf [node_intros]: "keeps P (previousBlockOf C b)"
  unfolding previousBlockOf_def by (intro keeps_intros)

lemma node_revert [node_intros]: "keeps node_ok (revertBlockHandler C b)"
  unfolding revertBlockHandler_def tryRevert_def
  by (intro keeps_intros node_intros keeps_di_revertBlock)

lemma keeps_tryApply: "keeps (\<lambda>c. store_ok (ch_store c)) (tryApply E hs ms b f)"
  unfolding tryApply_def
  by (intro keeps_intros) (rule keepsI, auto simp: onStore_def keeps_def dest: keepsD[OF keeps_setLastBlock] split: prod.splits)

lemma round_applyBlock [node_intros]: "keeps (storeIs store_ok) (di_applyBlock R b)"
proof -
  have st: "keeps (\<lambda>c. store_ok (ch_store c)) (onStore m)" if "keeps store_ok m" for m :: "'a sprog"
    by (rule keepsI) (use that in \<open>auto simp: onStore_def keeps_def split: prod.splits dest!: spec\<close>)
  have last: "keeps store_ok getLastBlock"
    unfolding getLastBlock_def by (intro keeps_intros)
  have "keeps (\<lambda>c. store_ok (ch_store c)) (catchApply E hs p v)" for E hs p v
    unfolding catchApply_def
    by (cases v; cases "fst v") (auto intro!: keeps_intros st)
  then have "keeps (\<lambda>c. store_ok (ch_store c)) (applyBlock E hs ms b)" for E hs ms
    unfolding applyBlock_def by (intro keeps_intros keeps_tryApply st last)
  moreover have "keeps (storeIs store_ok) (detectMissedBlocks R b)"
    by (rule keeps_detectMissedBlocks) (simp add: storeIs_def)
  ultimately show ?thesis
    unfolding di_applyBlock_def
    by (intro keeps_andThen keeps_inChain keeps_rs_applyBlock[OF storeOnly_storeIs] keeps_forEach keeps_emit)
      (simp_all add: storeIs_def)
qed

lemma node_afterApply [node_intros]: "keeps node_ok (afterApply C b)"
  unfolding afterApply_def by (intro keeps_intros node_intros) (auto split: option.splits)

lemma node_accept [node_intros]: "keeps node_ok (acceptBlockHandler C b)"
  unfolding acceptBlockHandler_def tryAccept_def refuseBlock_def
  by (intro keeps_intros node_intros)

lemma node_unchained [node_intros]: "keeps node_ok (unchainedHandler C v b)"
proof -
  have "keeps node_ok (case c of
       DoubleForging \<Rightarrow>
         andThen (onRound (roundOf (height (bdata b)))) (\<lambda>i.
         andThen (onRound (getActiveValidators (ce_round C) (Some i) None)) (\<lambda>vs.
         ret (if list_ex (\<lambda>v. wpublicKey v = Some (generatorPublicKey (bdata b))) vs then Rollback else Rejected)))
     | NotReadyToAcceptNewHeight \<Rightarrow> ret Rejected
     | GeneratorMismatch \<Rightarrow> ret Rejected
     | InvalidTimestampStatus \<Rightarrow> ret Rejected
     | AlreadyInBlockchain \<Rightarrow> ret DiscardedButCanBeBroadcasted
     | EqualToLastBlock \<Rightarrow> ret DiscardedButCanBeBroadcasted)" for c
    by (cases c) (simp_all only: unchained_status.case, (intro keeps_andThen keeps_ret node_onRound round_getActive keeps_roundOf)+)
  then show ?thesis unfolding unchainedHandler_def by (intro keeps_intros node_intros)
qed

lemma node_process_block [node_intros]: "keeps node_ok (process_block C b)"
  unfolding process_block_def by (intro keeps_intros node_intros)

section \<open>Jobs, the service and the actions keep it\<close>

lemma keeps_case_prod_if: "(\<And>x y. keeps P (f x y)) \<Longrightarrow> keeps P ((\<lambda>(x, y). f x y) p)"
  by (cases p) simp

lemma node_processOne [node_intros]: "keeps node_ok (processOne C x v)"
  unfolding processOne_def by (intro keeps_intros node_intros)

lemma node_processLoop [node_intros]: "keeps node_ok (processLoop C xs v)"
proof (induction xs arbitrary: v)
  case (Cons x xs)
  show ?case unfolding processLoop.simps by (intro keeps_intros node_intros Cons.IH)
qed (simp only: processLoop.simps keeps_ret)

lemma node_revertAccepted [node_intros]: "keeps node_ok (revertAccepted C bs)"
proof (induction bs)
  case (Cons b bs)
  have "keeps node_ok handleCorrupted" unfolding handleCorrupted_def by (intro node_intros) simp_all
  then show ?case unfolding revertAccepted.simps by (intro keeps_intros node_intros Cons.IH)
qed (simp only: revertAccepted.simps keeps_ret)

lemma round_restore [node_intros]: "keeps (storeIs store_ok) (restore R)"
proof -
  have "keeps (storeIs store_ok) (applyRound R h)" for h
    unfolding applyRound_def by (intro keeps_intros keeps_startRound[OF storeOnly_storeIs])
  then show ?thesis
    unfolding restore_def
    by (intro keeps_intros round_inDb keeps_setForging[OF storeOnly_storeIs] keeps_getBlocksForRound)
      (simp_all add: storeIs_def)
qed

lemma node_job_revertBlocks [node_intros]: "keeps node_ok (job_revertBlocks C bs)"
  unfolding job_revertBlocks_def by (intro keeps_intros node_intros keeps_roundOf)

lemma node_saveAccepted [node_intros]: "keeps node_ok (saveAccepted C bs)"
  unfolding saveAccepted_def by (intro keeps_intros node_intros) simp_all

lemma node_forkBlock_ok [node_intros]: "keeps node_ok (node_forkBlock b n)"
  unfolding node_forkBlock_def clearAndStopQueue_def
  by (intro keeps_intros node_intros) (simp_all add: busy_ok_ops)

lemma node_finishJob [node_intros]: "keeps node_ok (finishJob v)"
  unfolding finishJob_def by (intro keeps_intros node_intros) simp_all

lemma node_job_handle [node_intros]: "keeps node_ok (job_handle C xs)"
  unfolding job_handle_def handleCorrupted_def by (intro keeps_intros node_intros) simp_all

lemma node_runJob [node_intros]: "keeps node_ok (runJob C)"
  unfolding runJob_def by (intro keeps_intros node_intros) (simp add: busy_ok_ops)

lemma node_createQueueJob [node_intros]: "keeps node_ok (createQueueJob xs)"
  unfolding createQueueJob_def by (intro keeps_intros node_intros) (simp_all add: busy_ok_ops)

lemma node_lastDownloaded [node_intros]: "keeps P node_getLastDownloadedBlock"
  unfolding node_getLastDownloadedBlock_def by (intro keeps_intros)

lemma node_enqueueBlocks [node_intros]: "keeps node_ok (enqueueBlocks xs)"
  unfolding enqueueBlocks_def by (intro keeps_intros node_intros)

lemma node_isSynced [node_intros]: "keeps P (isSynced C d)"
  unfolding isSynced_def by (intro keeps_intros)

lemma node_events [node_intros]:
  "keeps node_ok (handleIncomingBlock C x fromForger)" "keeps node_ok forceWakeup" "keeps node_ok wakeUpFires"
  "keeps node_ok (checkMissingBlocks C)" "keeps node_ok resetMissedBlocks" "keeps node_ok node_boot"
  "keeps node_ok node_dispose" "keeps node_ok (setRollback C)"
proof -
  show roll: "keeps node_ok (setRollback C)"
    unfolding setRollback_def by (intro node_intros) simp
  show "keeps node_ok (handleIncomingBlock C x fromForger)"
    unfolding handleIncomingBlock_def node_pushPingBlock_def by (intro keeps_intros node_intros) simp
  show "keeps node_ok forceWakeup" "keeps node_ok wakeUpFires"
    unfolding forceWakeup_def wakeUpFires_def by (intro keeps_intros node_intros; simp)+
  show "keeps node_ok (checkMissingBlocks C)"
    unfolding checkMissingBlocks_def by (intro keeps_intros node_intros roll) simp_all
  show "keeps node_ok resetMissedBlocks" "keeps node_ok node_boot"
    unfolding resetMissedBlocks_def node_boot_def by (intro keeps_intros node_intros; simp)+
  show "keeps node_ok node_dispose"
    unfolding node_dispose_def by (intro keeps_intros node_intros) (simp_all add: busy_ok_ops)
qed

lemma node_downloaded [node_intros]: "keeps node_ok (downloaded C d xs)"
  unfolding downloaded_def nothingDownloaded_def by (intro keeps_intros node_intros) simp_all

lemma round_inDpos [node_intros]: "keeps (storeIs P) (inDpos m)"
  by (rule keeps_inDpos) (simp add: storeIs_def)

lemma node_rebuildState [node_intros]: "keeps node_ok (rebuildState C)"
  unfolding rebuildState_def rebuildBlock_def Let_def by (intro keeps_intros node_intros)

lemma node_restoreNode [node_intros]: "keeps node_ok (restoreNode C r)"
  unfolding restoreNode_def by (intro keeps_intros node_intros)

lemma node_act: "keeps node_ok (act C a)"
proof (cases a)
  case A_init
  then show ?thesis 
    by (simp only: act.simps act_initialize_def tryInitialize_def) (intro keeps_intros node_intros keeps_roundOf)
next
  case A_checkLastDownloadedBlockSynced
  then show ?thesis
    by (simp only: act.simps act_checkLastDownloadedBlockSynced_def networkHalted_def lastDownloadSynced_def)
      (intro keeps_intros node_intros; simp)
qed (simp_all only: act.simps act_blockchainReady_def act_checkLastBlockSynced_def act_checkLater_def
    act_downloadBlocks_def act_downloadFinished_def act_downloadPaused_def act_exitApp_def act_stopped_def
    act_syncingComplete_def, (intro keeps_intros node_intros; simp split: if_splits)+)

lemma nodeStep_ok:
  assumes "nodeStep C s s'" and "node_ok s" shows "node_ok s'"
proof -
  have ok: "node_ok (snd (m t))" if "keeps node_ok m" "node_ok t" for m :: "('b, 'c) bprog" and t
    using that by (simp add: keeps_def)
  show ?thesis using assms
  proof cases
    case (acts a as)
    have "node_ok (popAction s)" using assms(2) by (simp add: node_ok_def popAction_def)
    then show ?thesis unfolding acts by (rule ok[OF node_act])
  next
    case (arrives d xs)
    have "node_ok (s\<lparr>bn_downloads := remove1 d (bn_downloads s)\<rparr>)" using assms(2) by (simp add: node_ok_def)
    then show ?thesis unfolding arrives by (rule ok[OF node_downloaded])
  next
    case (receives x fromForger)
    then show ?thesis by (simp only: ok[OF node_events(1) assms(2)])
  qed (simp_all only: ok[OF node_runJob assms(2)] ok[OF node_events(2) assms(2)] ok[OF node_events(3) assms(2)]
      ok[OF node_events(4) assms(2)] ok[OF node_events(5) assms(2)] ok[OF node_events(6) assms(2)]
      ok[OF node_events(7) assms(2)])
qed

lemma reachable_node_ok:
  assumes "\<And>s. s \<in> I \<Longrightarrow> node_ok s" and "reachableNode Cs I s"
  shows "node_ok s"
  using assms(2) by (induction rule: reachableNode.induct) (use assms(1) nodeStep_ok in blast)+


section \<open>Queueing a download\<close>

lemma chunks_concat: "concat (chunks limit ms chunk txs xs) = chunk @ xs"
  by (induction xs arbitrary: ms chunk txs) (simp_all add: Let_def)

lemma chunks_bound:
  assumes "int (length chunk) < limit" and "c \<in> set (chunks limit ms chunk txs xs)"
  shows "int (length c) \<le> limit"
  using assms
proof (induction xs arbitrary: ms chunk txs)
  case (Cons x xs)
  have pos: "int (length ([] :: blockview list)) < limit" using Cons.prems(1) by simp
  show ?case
    using Cons.prems Cons.IH[OF pos] Cons.IH[of "chunk @ [x]"] by (auto simp: Let_def split: if_splits)
qed simp

lemma createQueueJob_run:
  obtains q where "createQueueJob c s = (Inr (), s\<lparr>bn_queue := q\<rparr>)"
    and "outstanding q = outstanding (bn_queue s) @ [c]" and "q_isRunning q"
proof -
  obtain q1 d1 where q1: "q_push c (bn_queue s) = (q1, d1)" by fastforce
  obtain q2 d2 where q2: "q_resume q1 = (q2, d2)" by fastforce
  have "\<not> d1" "\<not> d2" using no_drain[of c "bn_queue s"] q1 q2 by simp_all
  then have "createQueueJob c s = (Inr (), s\<lparr>bn_queue := q2\<rparr>)"
    using q1 q2 by (simp add: createQueueJob_def onQueue_def andThen_def)
  moreover have "outstanding q2 = outstanding (bn_queue s) @ [c]"
    using outstanding_push[of c "bn_queue s"] outstanding_resume[of q1] q1 q2 by simp
  moreover have "q_isRunning q2" using push_runs[of c "bn_queue s"] q1 q2 by simp
  ultimately show thesis using that by blast
qed

lemma createQueueJobs_run:
  assumes "cs \<noteq> []"
  shows "\<exists>q. forEach createQueueJob cs s = (Inr (), s\<lparr>bn_queue := q\<rparr>) \<and>
    outstanding q = outstanding (bn_queue s) @ cs \<and> q_isRunning q"
  using assms
proof (induction cs arbitrary: s)
  case (Cons c cs)
  obtain q where q: "createQueueJob c s = (Inr (), s\<lparr>bn_queue := q\<rparr>)"
    "outstanding q = outstanding (bn_queue s) @ [c]" "q_isRunning q"
    by (rule createQueueJob_run)
  show ?case
  proof (cases "cs = []")
    case True
    then show ?thesis using q by (intro exI[of _ q]) (simp add: andThen_def)
  next
    case False
    then obtain q' where "forEach createQueueJob cs (s\<lparr>bn_queue := q\<rparr>) = (Inr (), s\<lparr>bn_queue := q'\<rparr>)"
      "outstanding q' = outstanding q @ cs" "q_isRunning q'"
      using Cons.IH[of "s\<lparr>bn_queue := q\<rparr>"] by auto
    then show ?thesis using q by (intro exI[of _ q']) (simp add: andThen_def)
  qed
qed simp

lemma chunks_nonempty: "chunks limit ms chunk txs xs \<noteq> []"
  by (induction xs arbitrary: ms chunk txs) (simp_all add: Let_def)

text \<open>Every block of a download is queued once and in order, in chunks of bounded size.\<close>

lemma enqueueBlocks_run:
  assumes ok: "node_ok s" and last: "lastOf (st_lastBlocks (storeOf s)) \<noteq> None" and xs: "xs \<noteq> []"
  obtains q cs where "enqueueBlocks xs s = (Inr (), s\<lparr>bn_queue := q\<rparr>)"
    and "outstanding q = outstanding (bn_queue s) @ cs" and "concat cs = xs" and "q_isRunning q"
    and "\<forall>c \<in> set cs. int (length c) \<le> min (st_maxLastBlocks (storeOf s)) 100"
proof -
  obtain d where d: "node_getLastDownloadedBlock s = (Inr d, s)"
    using last by (cases "st_lastDownloaded (storeOf s)")
      (auto simp: node_getLastDownloadedBlock_def andThen_def node_getLastBlock_run)
  let ?cs = "chunksOf (storeOf s) d (theMilestones (bn_round s)) xs"
  have "?cs \<noteq> []" by (simp add: chunksOf_def chunks_nonempty)
  from createQueueJobs_run[OF this, of s] obtain q where q: "forEach createQueueJob ?cs s = (Inr (), s\<lparr>bn_queue := q\<rparr>)"
      "outstanding q = outstanding (bn_queue s) @ ?cs" "q_isRunning q" by blast
  have "0 < st_maxLastBlocks (storeOf s)" using ok by (simp add: node_ok_def store_ok_def)
  then have "\<forall>c \<in> set ?cs. int (length c) \<le> min (st_maxLastBlocks (storeOf s)) 100"
    using chunks_bound[of "[]" "min (st_maxLastBlocks (storeOf s)) 100"] by (auto simp: chunksOf_def)
  moreover have "enqueueBlocks xs s = (Inr (), s\<lparr>bn_queue := q\<rparr>)"
    using xs d q(1) by (simp add: enqueueBlocks_def andThen_def)
  ultimately show thesis using that q by (simp add: chunksOf_def chunks_concat)
qed

section \<open>A synchronised node comes to rest\<close>

text \<open>The pending actions run one after another, as \<open>setImmediate\<close> queues them.\<close>

fun runActions :: "('h, 'w) chain_env \<Rightarrow> nat \<Rightarrow> 'w chain_node \<Rightarrow> 'w chain_node" where
  "runActions C 0 s = s"
| "runActions C (Suc n) s = (case mc_pending (bn_machine s) of
     [] \<Rightarrow> s | a # _ \<Rightarrow> runActions C n (snd (act C a (popAction s))))"

lemma runActions_reachable: "reachableNode Cs I s \<Longrightarrow> C \<in> Cs \<Longrightarrow> reachableNode Cs I (runActions C n s)"
proof (induction n arbitrary: s)
  case (Suc n)
  show ?case
  proof (cases "mc_pending (bn_machine s)")
    case Nil
    then show ?thesis using Suc.prems by simp
  next
    case (Cons a as)
    have "reachableNode Cs I (snd (act C a (popAction s)))"
      using reachableNode.onward[OF Suc.prems nodeStep.acts[OF Cons]] .
    then show ?thesis using Suc.IH Suc.prems Cons by simp
  qed
qed simp

text \<open>The last block and the last download are recent, and nothing holds the node back.\<close>

definition syncedNow :: "('h, 'w) chain_env \<Rightarrow> 'w chain_node \<Rightarrow> bool" where
  "syncedNow C s \<longleftrightarrow> fst (isSynced C None s) = Inr True \<and> fst (lastDownloadSynced C s) = Inr True \<and>
     \<not> q_isRunning (bn_queue s) \<and> \<not> st_networkStart (storeOf s) \<and> \<not> ce_test C \<and>
     st_noBlockCounter (storeOf s) \<le> 5 \<and> \<not> bn_stopped s"

lemma isSynced_pure: "isSynced C d s = (fst (isSynced C d s), s)"
  by (cases d) (auto simp: isSynced_def andThen_def node_getLastBlock_run split: option.splits)

lemma isSynced_cong:
  assumes "st_lastBlocks (storeOf t) = st_lastBlocks (storeOf s)" and "st_config (storeOf t) = st_config (storeOf s)"
  shows "fst (isSynced C d t) = fst (isSynced C d s)"
  using assms by (cases d) (auto simp: isSynced_def andThen_def node_getLastBlock_run theMilestones_def split: option.splits)

lemma lastDownloadSynced_pure: "lastDownloadSynced C s = (fst (lastDownloadSynced C s), s)"
  by (simp add: lastDownloadSynced_def, subst isSynced_pure) simp

lemmas machine_simps = transition_def machineTransition_def machineOn_def syncOn_def resolvable_def
  node_dispatch_def popAction_def within_def inStore_def andThen_def

text \<open>
  From \<open>syncing\<close>, six actions bring a synchronised node to \<open>idle\<close>: nothing more is pending, the
  node is started and its wake-up timer is set.
\<close>

lemma sync_cycle:
  assumes m: "bn_machine s = \<lparr>mc_state = SyncWithNetwork Syncing, mc_pending = [A_checkLastDownloadedBlockSynced]\<rparr>"
    and synced: "syncedNow C s"
  shows "bn_machine (runActions C 6 s) = \<lparr>mc_state = Idle, mc_pending = []\<rparr> \<and>
    st_started (storeOf (runActions C 6 s)) \<and> st_wakeUp (storeOf (runActions C 6 s)) \<and>
    bn_queue (runActions C 6 s) = bn_queue s \<and> st_lastBlocks (storeOf (runActions C 6 s)) = st_lastBlocks (storeOf s)"
proof -
  let ?st = "\<lambda>t. t\<lparr>st_noBlockCounter := 0, st_p2pUpdateCounter := 0\<rparr>"
  define s1 where "s1 = s\<lparr>bn_round := (bn_round s)\<lparr>rs_store := ?st (storeOf s)\<rparr>,
    bn_machine := \<lparr>mc_state = SyncWithNetwork DownloadFinished, mc_pending = [A_downloadFinished]\<rparr>\<rparr>"
  define s2 where "s2 = s1\<lparr>bn_machine := \<lparr>mc_state = SyncWithNetwork ProcessFinished, mc_pending = [A_checkLastBlockSynced]\<rparr>\<rparr>"
  define s3 where "s3 = s1\<lparr>bn_machine := \<lparr>mc_state = SyncWithNetwork SyncEnd, mc_pending = [A_syncingComplete]\<rparr>\<rparr>"
  define s4 where "s4 = s1\<lparr>bn_machine := \<lparr>mc_state = Idle, mc_pending = [A_checkLater, A_blockchainReady]\<rparr>\<rparr>"
  note facts = synced[unfolded syncedNow_def]
  have same: "fst (lastDownloadSynced C (popAction s)) = fst (lastDownloadSynced C s)"
    by (auto simp: lastDownloadSynced_def popAction_def intro!: isSynced_cong)
  have "lastDownloadSynced C (popAction s) = (Inr True, popAction s)"
    using lastDownloadSynced_pure[of C "popAction s"] same facts by simp
  then have a1: "snd (act C A_checkLastDownloadedBlockSynced (popAction s)) = s1"
    using facts m by (simp add: act_checkLastDownloadedBlockSynced_def machine_simps s1_def)
  have a2: "snd (act C A_downloadFinished (popAction s1)) = s2"
    using facts by (simp add: act_downloadFinished_def machine_simps s1_def s2_def)
  have "fst (isSynced C None (popAction s2)) = fst (isSynced C None s)"
    by (rule isSynced_cong) (simp_all add: s2_def s1_def popAction_def)
  then have "isSynced C None (popAction s2) = (Inr True, popAction s2)"
    using isSynced_pure[of C None "popAction s2"] facts by simp
  then have a3: "snd (act C A_checkLastBlockSynced (popAction s2)) = s3"
    by (simp add: act_checkLastBlockSynced_def machine_simps s2_def s3_def s1_def)
  have a4: "snd (act C A_syncingComplete (popAction s3)) = s4"
    by (simp add: act_syncingComplete_def machine_simps s3_def s4_def s1_def)
  have "runActions C (Suc (Suc (Suc (Suc (Suc (Suc 0)))))) s =
      snd (act C A_blockchainReady (popAction (snd (act C A_checkLater (popAction s4)))))"
    using m a1 a2 a3 a4
    by (simp add: s1_def[symmetric]) (simp add: s2_def s3_def s4_def s1_def act_checkLater_def setWakeUp_def machine_simps)
  then show ?thesis
    using facts by (auto simp: numeral_eq_Suc s4_def s1_def act_checkLater_def act_blockchainReady_def
      setWakeUp_def setWakeUpTimeout_def machine_simps)
qed


end
