(* ===== verification/JobOutcome.thy ===== *)
theory JobOutcome
  imports NodeInvariant
begin

text \<open>
  What a run of the job (process-blocks-job.ts) comes to: which blocks of the chunk it applies, what
  the database and the state say of them afterwards, and when the node reports a fork or goes back.
\<close>

section \<open>The blocks of a chunk that are applied\<close>

text \<open>
  How the next block of a chunk is answered, if the job comes to process it: its slot has begun, and
  the factory makes a block of it.
\<close>

definition answer :: "('h, 'w) chain_env \<Rightarrow> block list \<Rightarrow> blockview \<Rightarrow> 'w chain_node \<Rightarrow>
    (block \<times> (error + block_result)) option" where
  "answer C acc x s =
     (case (getSlotNumber (jobSlots C acc s) None None,
            getSlotNumber (jobSlots C acc s) (Some (timestamp (fst x))) None, re_fromData (ce_round C) x) of
        (Inr current, Inr slot, Inr b) \<Rightarrow>
          if slot \<le> current then Some (b, fst (process_block C b s)) else None
      | _ \<Rightarrow> None)"

text \<open>Blocks applied one after another: each was acceptable in the state it found.\<close>

inductive acceptedRun :: "('h, 'w) chain_env \<Rightarrow> block list \<Rightarrow> blockview list \<Rightarrow> block list \<Rightarrow>
    'w chain_node \<Rightarrow> 'w chain_node \<Rightarrow> bool" for C where
  none: "acceptedRun C acc [] [] s s"
| one: "answer C acc x s = Some (b, Inr Accepted) \<Longrightarrow> acceptable C b s \<Longrightarrow>
    acceptedRun C (acc @ [b]) xs bs (snd (process_block C b s)) t \<Longrightarrow> acceptedRun C acc (x # xs) (b # bs) s t"

section \<open>What processing leaves alone\<close>

definition sameMachine :: "'w chain_node \<Rightarrow> 'w chain_node \<Rightarrow> bool" where
  "sameMachine s t \<longleftrightarrow> bn_machine t = bn_machine s \<and> bn_exited t = bn_exited s"

lemma sameMachine_refl [simp]: "sameMachine s s"
  by (simp add: sameMachine_def)

named_theorems machine_intros \<open>programs that leave the state machine alone\<close>

lemma machine_onRound [machine_intros]: "keeps (sameMachine s) (onRound m)"
  by (auto simp: keeps_def within_def sameMachine_def split: prod.splits)

lemma machine_withPool [machine_intros]: "keeps (sameMachine s) (withPool C m)"
  unfolding withPool_def
  by (intro keeps_intros) (auto simp: keeps_def within_def sameMachine_def split: prod.splits)

lemma machine_clearQueue [machine_intros]: "keeps (sameMachine s) clearQueue"
  unfolding clearQueue_def by (intro keeps_intros) (simp add: sameMachine_def)

lemma machine_service [machine_intros]:
  "keeps (sameMachine s) (setLastDownloadedBlock d)" "keeps (sameMachine s) resetLastDownloadedBlock"
  "keeps (sameMachine s) resetWakeUp"
  unfolding resetLastDownloadedBlock_def setLastDownloadedBlock_def resetWakeUp_def setWakeUp_def
  by (intro keeps_intros machine_intros)+

lemma machine_revert [machine_intros]: "keeps (sameMachine s) (revertBlockHandler C b)"
  unfolding revertBlockHandler_def tryRevert_def by (intro keeps_intros node_previousBlockOf machine_intros)

lemma machine_accept [machine_intros]: "keeps (sameMachine s) (acceptBlockHandler C b)"
  unfolding acceptBlockHandler_def tryAccept_def refuseBlock_def afterApply_def
  by (intro keeps_intros machine_intros)

lemma machine_unchained [machine_intros]: "keeps (sameMachine s) (unchainedHandler C v b)"
proof -
  have "keeps (sameMachine s) (case c of
       DoubleForging \<Rightarrow>
         andThen (onRound (roundOf (height (bdata b)))) (\<lambda>i.
         andThen (onRound (getActiveValidators (ce_round C) (Some i) None)) (\<lambda>vs.
         ret (if list_ex (\<lambda>v. wpublicKey v = Some (generatorPublicKey (bdata b))) vs then Rollback else Rejected)))
     | NotReadyToAcceptNewHeight \<Rightarrow> ret Rejected
     | GeneratorMismatch \<Rightarrow> ret Rejected
     | InvalidTimestampStatus \<Rightarrow> ret Rejected
     | AlreadyInBlockchain \<Rightarrow> ret DiscardedButCanBeBroadcasted
     | EqualToLastBlock \<Rightarrow> ret DiscardedButCanBeBroadcasted)" for c
    by (cases c) (simp_all only: unchained_status.case, (intro keeps_andThen keeps_ret machine_onRound)+)
  then show ?thesis unfolding unchainedHandler_def by (intro keeps_intros machine_intros)
qed

lemma machine_walletsOnly:
  assumes "\<And>u. keeps (walletsOnly u) m" shows "keeps (sameMachine s) m"
proof (rule keepsI)
  fix t assume "sameMachine s t"
  moreover have "walletsOnly t (snd (m t))" using assms[of t] by (simp add: keeps_def)
  ultimately show "sameMachine s (snd (m t))" by (auto simp: walletsOnly_def sameMachine_def)
qed

lemma machine_process [machine_intros]: "keeps (sameMachine s) (process_block C b)"
proof -
  have "keeps (sameMachine s) (verifyWithHandler C t)" for t by (rule machine_walletsOnly[OF keeps_verifyWithHandler])
  then have v: "keeps (sameMachine s) (bp_verifyBlock C b)"
    unfolding bp_verifyBlock_def by (intro keeps_intros)
  have f: "keeps (sameMachine s) (containsForged b)"
    unfolding containsForged_def Let_def by (intro keeps_intros)
  show ?thesis
    unfolding process_block_def verificationFailedHandler_def incompatibleTransactionsHandler_def
      nonceOutOfOrderHandler_def invalidGeneratorHandler_def alreadyForgedHandler_def
    by (intro keeps_intros machine_intros v f machine_walletsOnly[OF keeps_validateGenerator])
qed

section \<open>How a block is answered\<close>

text \<open>The chain after a block was processed: one block longer, as high as before, or corrupted.\<close>

lemma process_block_ends:
  assumes s: "node_ok s" and l: "lastOf (st_lastBlocks (storeOf s)) = Some l"
    and run: "process_block C b s = (r, s')"
  shows "sameMachine s s' \<and> node_ok s' \<and> (r = Inr Accepted \<longleftrightarrow> fst (process_block C b s) = Inr Accepted) \<and>
    (r = Inr Accepted \<longrightarrow> acceptable C b s \<and> height (bdata b) = height (bdata l) + 1 \<and> endsWith b (storeOf s')) \<and>
    (r \<noteq> Inr Accepted \<longrightarrow> r \<noteq> Inr Corrupted \<longrightarrow> (\<exists>p. endsWith p (storeOf s') \<and> height (bdata p) = height (bdata l)))"
proof -
  have frame: "sameMachine s s'" using keepsD[OF machine_process _ run, of s] by simp
  have ok: "node_ok s'" using keepsD[OF node_process_block s run] .
  have ends: "endsWith l (storeOf s)" using s l by (simp add: endsWith_def node_ok_def)
  show ?thesis
  proof (rule process_block_cases[OF run])
    fix t assume acc: "acceptable C b s" and w: "walletsOnly s t" and a: "acceptBlockHandler C b t = (r, s')"
    have h: "height (bdata b) = height (bdata l) + 1"
      using acc l by (auto simp: acceptable_def isBlockChained_def blockChainedDetails_def cd_isChained_def
          split: sum.splits)
    have "endsWith l (storeOf t)" using ends walletsOnlyD(1)[OF w] by simp
    then show ?thesis by (rule accept_outcome[OF _ h, of t C]) (use frame ok acc h a run in auto)
  next
    assume "r \<noteq> Inr Accepted" and same: "chainSame s s'"
    then have "endsWith l (storeOf s')" using ok l by (simp add: endsWith_def node_ok_def chainSame_def)
    then show ?thesis using frame ok run \<open>r \<noteq> Inr Accepted\<close> by auto
  qed
qed

text \<open>The variables of the loop after blocks were accepted, and after one was answered otherwise.\<close>

definition afterAccepted :: "job_vars \<Rightarrow> block list \<Rightarrow> job_vars" where
  "afterAccepted v bs = (if bs = [] then v
     else v\<lparr>jv_accepted := jv_accepted v @ bs, jv_result := Some Accepted, jv_last := Some (last bs)\<rparr>)"

lemma afterAccepted_sel [simp]:
  "jv_accepted (afterAccepted v bs) = jv_accepted v @ bs" "jv_fork (afterAccepted v bs) = jv_fork v"
  "jv_corrupted (afterAccepted v bs) = jv_corrupted v"
  by (simp_all add: afterAccepted_def)

lemma afterAccepted_Cons:
  "afterAccepted (fst (jobOutcome b Accepted v)) bs = afterAccepted v (b # bs)"
  by (simp add: afterAccepted_def jobOutcome_def)

text \<open>One round of the loop, in terms of the answer.\<close>

lemma processOne_run:
  "catching (processOne C x v) (\<lambda>_. ret (v, False)) s = (case answer C (jv_accepted v) x s of
     None \<Rightarrow> (Inr (v, False), s)
   | Some (b, Inl e) \<Rightarrow> (Inr (v, False), snd (process_block C b s))
   | Some (b, Inr r) \<Rightarrow> (Inr (jobOutcome b r v),
       snd (whenever (r = Rollback) (setLastDownloadedBlock (bdata b)) (snd (process_block C b s)))))"
proof -
  let ?S = "jobSlots C (jv_accepted v) s"
  have fixed: "setLastDownloadedBlock d t = (Inr (), snd (setLastDownloadedBlock d t))" for d t
    by (simp add: setLastDownloadedBlock_def within_def inStore_def)
  show ?thesis
  proof (cases "getSlotNumber ?S None None")
    case (Inl e)
    then show ?thesis by (simp add: processOne_def answer_def catching_def andThen_def)
  next
    case current: (Inr current)
    show ?thesis
    proof (cases "getSlotNumber ?S (Some (timestamp (fst x))) None")
      case (Inl e)
      then show ?thesis using current by (simp add: processOne_def answer_def catching_def andThen_def)
    next
      case slot: (Inr slot)
      show ?thesis
      proof (cases "current < slot \<or> (\<exists>e. re_fromData (ce_round C) x = Inl e)")
        case True
        then show ?thesis using current slot
          by (auto simp: processOne_def answer_def catching_def andThen_def split: sum.splits)
      next
        case False
        then obtain b where b: "re_fromData (ce_round C) x = Inr b" "\<not> current < slot"
          by (cases "re_fromData (ce_round C) x") auto
        obtain r t where r: "process_block C b s = (r, t)" by fastforce
        show ?thesis
        proof (cases r)
          case (Inl e)
          then show ?thesis using current slot b r
            by (simp add: processOne_def answer_def catching_def andThen_def)
        next
          case (Inr a)
          obtain u where u: "setLastDownloadedBlock (bdata b) t = (Inr (), u)" using fixed by blast
          show ?thesis using current slot b r Inr u
            by (simp add: processOne_def answer_def catching_def andThen_def whenever_def)
        qed
      qed
    qed
  qed
qed

text \<open>
  The whole loop: the blocks that are applied, then at most one that is answered otherwise. What
  holds of the variables and of the state it leaves is collected in \<open>loopEnd\<close>.
\<close>

definition nextAnswer :: "('h, 'w) chain_env \<Rightarrow> block list \<Rightarrow> blockview list \<Rightarrow> 'w chain_node \<Rightarrow>
    (block \<times> (error + block_result)) option" where
  "nextAnswer C acc xs s = (case xs of [] \<Rightarrow> None | x # _ \<Rightarrow> answer C acc x s)"

definition corrupting :: "(block \<times> (error + block_result)) option \<Rightarrow> bool" where
  "corrupting nxt \<longleftrightarrow> (\<exists>b. nxt = Some (b, Inr Corrupted))"

definition loopVars :: "(block \<times> (error + block_result)) option \<Rightarrow> job_vars \<Rightarrow> job_vars" where
  "loopVars nxt v = (case nxt of Some (b, Inr r) \<Rightarrow> fst (jobOutcome b r v) | _ \<Rightarrow> v)"

definition grown :: "int \<Rightarrow> 'w chain_node \<Rightarrow> bool" where
  "grown h s \<longleftrightarrow> (\<exists>p. endsWith p (storeOf s) \<and> height (bdata p) = h)"

lemma keeps_downloaded:
  "blocksOnly P \<Longrightarrow> keeps (nodeIs P) (whenever c (setLastDownloadedBlock d))"
  by (intro keeps_intros keeps_service(1))

lemma processLoop_run:
  assumes "node_ok s" and "lastOf (st_lastBlocks (storeOf s)) = Some l"
  shows "\<exists>n bs t u. n \<le> length xs \<and> acceptedRun C (jv_accepted v) (take n xs) bs s t \<and>
    (\<forall>b. nextAnswer C (jv_accepted v @ bs) (drop n xs) t \<noteq> Some (b, Inr Accepted)) \<and>
    processLoop C xs v s = (Inr (loopVars (nextAnswer C (jv_accepted v @ bs) (drop n xs) t) (afterAccepted v bs)), u) \<and>
    sameMachine s u \<and> node_ok u \<and>
    (\<not> corrupting (nextAnswer C (jv_accepted v @ bs) (drop n xs) t) \<longrightarrow> grown (height (bdata l) + int (length bs)) u) \<and>
    (bs \<noteq> [] \<longrightarrow> height (bdata (hd bs)) = height (bdata l) + 1) \<and> map (\<lambda>b. height (bdata b)) bs = map (\<lambda>i. height (bdata l) + 1 + int i) [0..<length bs]"
  using assms
proof (induction xs arbitrary: v s l)
  case Nil
  have "grown (height (bdata l)) s" using Nil by (auto simp: grown_def endsWith_def node_ok_def)
  then show ?case
    using Nil by (intro exI[of _ 0] exI[of _ "[]"] exI[of _ s])
      (auto simp: acceptedRun.none nextAnswer_def loopVars_def afterAccepted_def)
next
  case (Cons x xs)
  show ?case
  proof (cases "\<exists>b. answer C (jv_accepted v) x s = Some (b, Inr Accepted)")
    case False
    define a where "a = answer C (jv_accepted v) x s"
    obtain u where run: "catching (processOne C x v) (\<lambda>_. ret (v, False)) s = (Inr (loopVars a v, False) :: error + job_vars \<times> bool, u)"
      and u: "sameMachine s u" "node_ok u" "\<not> corrupting a \<longrightarrow> grown (height (bdata l)) u"
    proof (cases a)
      case None
      have "grown (height (bdata l)) s" using Cons.prems by (auto simp: grown_def endsWith_def node_ok_def)
      then show thesis using that[of s] None processOne_run[of C x v s] Cons.prems by (simp add: a_def loopVars_def)
    next
      case (Some p)
      obtain b r where p: "p = (b, r)" by fastforce
      have r: "fst (process_block C b s) = r"
        using Some p by (auto simp: a_def answer_def split: sum.splits if_splits)
      then have pb: "process_block C b s = (r, snd (process_block C b s))" by (metis prod.collapse)
      let ?t = "snd (process_block C b s)"
      have na: "r \<noteq> Inr Accepted" using False Some p by (auto simp: a_def)
      have t: "sameMachine s ?t" "node_ok ?t" "r \<noteq> Inr Corrupted \<longrightarrow> grown (height (bdata l)) ?t"
        using process_block_ends[OF Cons.prems pb] na by (auto simp: grown_def)
      show thesis
      proof (cases r)
        case (Inl e)
        then show thesis using that[of ?t] t Some p processOne_run[of C x v s] by (simp add: a_def[symmetric] loopVars_def)
      next
        case (Inr q)
        let ?m = "whenever (q = Rollback) (setLastDownloadedBlock (bdata b))"
        let ?u = "snd (?m ?t)"
        have "keeps (sameMachine s) ?m" by (intro keeps_intros machine_intros)
        then have u1: "sameMachine s ?u" using t(1) unfolding keeps_def by blast
        have "keeps node_ok ?m" by (intro keeps_intros node_intros)
        then have u2: "node_ok ?u" using t(2) unfolding keeps_def by blast
        have u3: "grown (height (bdata l)) ?u" if nq: "q \<noteq> Corrupted"
        proof -
          obtain p where p: "endsWith p (storeOf ?t)" "height (bdata p) = height (bdata l)"
            using t(3) Inr nq by (auto simp: grown_def)
          have "nodeIs (endsWith p) ?u"
            using keeps_downloaded[OF blocksOnly_endsWith(1)] p(1) unfolding keeps_def nodeIs_def by blast
          then show ?thesis using p(2) by (auto simp: grown_def nodeIs_def)
        qed
        have "jobOutcome b q v = (fst (jobOutcome b q v), False)"
          using na Inr by (simp add: jobOutcome_def Let_def)
        then show thesis
          using that[of ?u] u1 u2 u3 Some p Inr processOne_run[of C x v s]
          by (simp add: a_def[symmetric] loopVars_def corrupting_def)
      qed
    qed
    have "processLoop C (x # xs) v s = (Inr (loopVars a v), u)" using run by (simp add: andThen_def)
    then show ?thesis
      using u False by (intro exI[of _ 0] exI[of _ "[]"] exI[of _ s] exI[of _ u])
        (auto simp: acceptedRun.none nextAnswer_def afterAccepted_def a_def)
  next
    case True
    then obtain b where b: "answer C (jv_accepted v) x s = Some (b, Inr Accepted)" by blast
    have "fst (process_block C b s) = Inr Accepted"
      using b by (auto simp: answer_def split: sum.splits if_splits)
    then obtain t where t: "process_block C b s = (Inr Accepted, t)" by (metis prod.collapse)
    have e: "sameMachine s t" "node_ok t" "acceptable C b s" "height (bdata b) = height (bdata l) + 1"
        "lastOf (st_lastBlocks (storeOf t)) = Some b"
      using process_block_ends[OF Cons.prems t] by (auto simp: endsWith_def)
    let ?v = "fst (jobOutcome b Accepted v)"
    have v: "jobOutcome b Accepted v = (?v, True)" "jv_accepted ?v = jv_accepted v @ [b]"
      by (simp_all add: jobOutcome_def Let_def)
    have run: "catching (processOne C x v) (\<lambda>_. ret (v, False)) s = (Inr (?v, True) :: error + job_vars \<times> bool, t)"
      using processOne_run[of C x v s] b t v(1) by simp
    obtain n bs t' u where ih: "n \<le> length xs" "acceptedRun C (jv_accepted ?v) (take n xs) bs t t'"
      "\<forall>b. nextAnswer C (jv_accepted ?v @ bs) (drop n xs) t' \<noteq> Some (b, Inr Accepted)"
      "processLoop C xs ?v t = (Inr (loopVars (nextAnswer C (jv_accepted ?v @ bs) (drop n xs) t') (afterAccepted ?v bs)), u)"
      "sameMachine t u" "node_ok u"
      "\<not> corrupting (nextAnswer C (jv_accepted ?v @ bs) (drop n xs) t') \<longrightarrow> grown (height (bdata b) + int (length bs)) u"
      "map (\<lambda>b. height (bdata b)) bs = map (\<lambda>i. height (bdata b) + 1 + int i) [0..<length bs]"
      using Cons.IH[OF e(2,5), of ?v] by blast
    have "acceptedRun C (jv_accepted v) (take (Suc n) (x # xs)) (b # bs) s t'"
      using acceptedRun.one[OF b e(3)] ih(2) v(2) t by simp
    moreover have "processLoop C (x # xs) v s =
        (Inr (loopVars (nextAnswer C (jv_accepted v @ b # bs) (drop n xs) t') (afterAccepted v (b # bs))), u)"
      using ih(4) v(2) run by (simp add: andThen_def afterAccepted_Cons)
    moreover have "map (\<lambda>b. height (bdata b)) (b # bs) = map (\<lambda>i. height (bdata l) + 1 + int i) [0..<length (b # bs)]"
      using ih(8) e(4) by (simp add: upt_conv_Cons map_Suc_upt[symmetric] comp_def del: upt_Suc)
    moreover have "sameMachine s u" using e(1) ih(5) by (simp add: sameMachine_def)
    ultimately show ?thesis
      using ih(1,3,6,7) v(2) e(4)
      by (intro exI[of _ "Suc n"] exI[of _ "b # bs"] exI[of _ t'] exI[of _ u]) (simp add: add.assoc)
  qed
qed

section \<open>Storing the accepted blocks\<close>

definition storedBlock :: "block \<Rightarrow> database \<Rightarrow> bool" where
  "storedBlock b db \<longleftrightarrow> (\<exists>i. bid (bdata b) = Some i \<and> jm_has (db_blocks db) i)"

lemma saveBlock_stored:
  assumes "saveBlock enc b db = (Inr u, db')"
  shows "storedBlock b db'" and "storedBlock c db \<Longrightarrow> storedBlock c db'"
proof -
  obtain i where i: "bid (bdata b) = Some i" "i \<noteq> ''''"
    using assms by (cases "bid (bdata b)") (auto simp: saveBlock_def split: if_splits)
  have "storedBlock b db' \<and> (storedBlock c db \<longrightarrow> storedBlock c db')" for c
  proof (cases "jm_has (db_blocks db) i")
    case True
    then show ?thesis using assms i by (auto simp: saveBlock_def andThen_def storedBlock_def)
  next
    case False
    let ?db = "db\<lparr>db_blocks := jm_set i (enc b) (db_blocks db), db_heights := jm_set (height (bdata b)) i (db_heights db)\<rparr>"
    have "forEach putTransaction (transactions b) ?db = (Inr u, db')"
      using assms i False by (simp add: saveBlock_def andThen_def)
    from putTransactions_keep[OF this] have "db_blocks db' = jm_set i (enc b) (db_blocks db)" by simp
    then show ?thesis using i by (auto simp: storedBlock_def jm_has_def jm_get_set)
  qed
  then show "storedBlock b db'" "storedBlock c db \<Longrightarrow> storedBlock c db'" by blast+
qed

lemma saveBlocks_stored:
  "saveBlocks enc bs db = (Inr u, db') \<Longrightarrow>
    (\<forall>b \<in> set bs. storedBlock b db') \<and> (\<forall>c. storedBlock c db \<longrightarrow> storedBlock c db')"
proof (induction bs arbitrary: db)
  case (Cons b bs)
  obtain t where t: "saveBlock enc b db = (Inr (), t)" "forEach (saveBlock enc) bs t = (Inr u, db')"
    using Cons.prems by (auto simp: saveBlocks_def elim!: andThen_InrE)
  then show ?case using Cons.IH[of t] saveBlock_stored[OF t(1)] by (auto simp: saveBlocks_def)
qed (simp add: saveBlocks_def)

section \<open>Going back\<close>

lemma keeps_restore: "keeps (storeIs P) (restore R)"
proof -
  have "keeps (storeIs P) (applyRound R h)" for h
    unfolding applyRound_def by (intro keeps_intros keeps_startRound[OF storeOnly_storeIs])
  then show ?thesis
    unfolding restore_def
    by (intro keeps_intros round_inDb keeps_setForging[OF storeOnly_storeIs] keeps_getBlocksForRound)
      (simp_all add: storeIs_def)
qed

lemma machine_only: "(\<And>t. keeps (sameMachine t) m) \<Longrightarrow> keeps (\<lambda>t. bn_machine t = x) m"
  by (rule keepsI) (auto simp: keeps_def sameMachine_def)

text \<open>Reverting the accepted blocks ends below the first of them, unless the process exits.\<close>

lemma revertAccepted_run:
  assumes "store_ok (storeOf s)"
  shows "\<exists>alive u. revertAccepted C bs s = (Inr alive, u) \<and> bn_machine u = bn_machine s \<and>
    (alive \<longrightarrow> bn_exited u = bn_exited s \<and> (bs \<noteq> [] \<longrightarrow> grown (height (bdata (last bs)) - 1) u)) \<and> (\<not> alive \<longrightarrow> bn_exited u)"
  using assms
proof (induction bs arbitrary: s)
  case (Cons b bs)
  show ?case
  proof (rule revertBlockHandler_outcome[OF Cons.prems, of C b])
    fix u assume r: "revertBlockHandler C b s = (Inr Corrupted, u)"
    then have "sameMachine s u" using keepsD[OF machine_revert _ r, of s] by simp
    then show ?thesis using r
      by (intro exI[of _ False] exI[of _ "u\<lparr>bn_exited := True\<rparr>"]) (simp add: andThen_def handleCorrupted_def sameMachine_def)
  next
    fix u p assume r: "revertBlockHandler C b s = (Inr Reverted, u)" and p: "endsWith p (storeOf u)"
      "height (bdata p) + 1 = height (bdata b)"
    have m: "sameMachine s u" using keepsD[OF machine_revert _ r, of s] by simp
    have run: "revertAccepted C (b # bs) s = revertAccepted C bs u" using r by (simp add: andThen_def)
    have "store_ok (storeOf u)" using p(1) by (simp add: endsWith_def)
    from Cons.IH[OF this] obtain alive w where w: "revertAccepted C bs u = (Inr alive, w)"
      "bn_machine w = bn_machine u" "alive \<Longrightarrow> bn_exited w = bn_exited u"
      "alive \<Longrightarrow> bs \<noteq> [] \<Longrightarrow> grown (height (bdata (last bs)) - 1) w" "\<not> alive \<Longrightarrow> bn_exited w" by blast
    have "alive \<and> grown (height (bdata b) - 1) w" if "bs = []" "alive"
      using that w(1) p by (auto simp: grown_def)
    then show ?thesis using w m run by (cases "bs = []") (auto simp: sameMachine_def)
  qed
qed (intro exI[of _ True], simp)

lemma job_revertBlocks_run:
  assumes s: "store_ok (storeOf s)" and bs: "bs \<noteq> []" and run: "job_revertBlocks C bs s = (r, u)"
  shows "bn_machine u = bn_machine s \<and>
    (r = Inr () \<longrightarrow> bn_exited u \<or> grown (height (bdata (hd bs)) - 1) u)"
proof -
  have m: "keeps (\<lambda>t. bn_machine t = bn_machine s) (job_revertBlocks C bs)"
  proof -
    have "keeps (\<lambda>t. bn_machine t = bn_machine s) (revertAccepted C xs)" for xs
    proof (induction xs)
      case (Cons x xs)
      have "keeps (\<lambda>t. bn_machine t = bn_machine s) handleCorrupted"
        unfolding handleCorrupted_def by (intro keeps_intros) simp
      then show ?case unfolding revertAccepted.simps
        by (intro keeps_intros Cons.IH machine_only[OF machine_revert])
    qed (simp only: revertAccepted.simps keeps_ret)
    then show ?thesis unfolding job_revertBlocks_def
      by (intro keeps_intros machine_only[OF machine_onRound] machine_only[OF machine_clearQueue] machine_only[OF machine_service(2)])
  qed
  have "bn_machine u = bn_machine s" using keepsD[OF m refl run] .
  moreover have "bn_exited u \<or> grown (height (bdata (hd bs)) - 1) u" if ended: "r = Inr ()"
  proof -
    obtain i s1 where i: "onRound (roundOf (height (bdata (hd bs)))) s = (Inr i, s1)"
      and rest: "andThen (revertAccepted C (rev bs)) (\<lambda>alive.
     whenever alive
       (andThen (onRound (inDb (deleteRound (ri_round i + 1)))) (\<lambda>_.
        andThen (onRound (restore (ce_round C))) (\<lambda>_.
        andThen clearQueue (\<lambda>_. resetLastDownloadedBlock))))) s1 = (Inr (), u)"
      using run[unfolded ended job_revertBlocks_def] by (rule andThen_InrE)
    have s1: "store_ok (storeOf s1)"
      using keepsD[OF keeps_node_onRound[OF keeps_roundOf] _ i, of store_ok] s by (simp add: nodeIs_def)
    obtain alive w where w: "revertAccepted C (rev bs) s1 = (Inr alive, w)"
      "alive \<Longrightarrow> grown (height (bdata (last (rev bs))) - 1) w" "\<not> alive \<Longrightarrow> bn_exited w"
      using revertAccepted_run[OF s1, of C "rev bs"] bs by auto
    let ?m = "andThen (onRound (inDb (deleteRound (ri_round i + 1)))) (\<lambda>_.
        andThen (onRound (restore (ce_round C))) (\<lambda>_. andThen clearQueue (\<lambda>_. resetLastDownloadedBlock)))"
    have fin: "whenever alive ?m w = (Inr (), u)" using rest w(1) by (simp add: andThen_def)
    show ?thesis
    proof (cases alive)
      case False
      then show ?thesis using fin w(3) by (simp add: whenever_def)
    next
      case True
      then obtain p where p: "endsWith p (storeOf w)" "height (bdata p) = height (bdata (hd bs)) - 1"
        using w(2) bs by (auto simp: grown_def last_rev)
      have clear: "keeps (nodeIs P) clearQueue" for P
        unfolding clearQueue_def by (intro keeps_intros) (simp add: nodeIs_def)
      have "keeps (nodeIs (endsWith p)) ?m"
        by (intro keeps_andThen keeps_node_onRound round_inDb keeps_restore clear keeps_service(2)[OF blocksOnly_endsWith(1)])
      moreover have "?m w = (Inr (), u)" using fin True by simp
      ultimately have "nodeIs (endsWith p) u" using p(1) unfolding keeps_def nodeIs_def by (metis snd_conv)
      then show ?thesis using p(2) by (auto simp: grown_def nodeIs_def)
    qed
  qed
  ultimately show ?thesis by blast
qed

section \<open>The outcome of a job\<close>

definition forkReported :: "block \<Rightarrow> 'w chain_node \<Rightarrow> 'w chain_node \<Rightarrow> bool" where
  "forkReported b s s' \<longleftrightarrow> bn_machine s' = transition E_FORK (bn_machine s) \<and> st_forked (storeOf s') = Some b \<and>
     q_jobs (bn_queue s') = [] \<and> \<not> q_started (bn_queue s')"

lemma finishJob_run:
  assumes "endsWith p (storeOf s)"
  shows "\<exists>s'. finishJob v s = (Inr (), s') \<and> rs_db (bn_round s') = rs_db (bn_round s) \<and> endsWith p (storeOf s') \<and>
    st_lastStoredHeight (storeOf s') = st_lastStoredHeight (storeOf s) \<and>
    (if jv_result v \<notin> {Some Accepted, Some DiscardedButCanBeBroadcasted} \<and> jv_fork v \<noteq> None
     then forkReported (the (jv_fork v)) s s' else jv_fork v = None \<longrightarrow> bn_machine s' = bn_machine s)"
  using assms
  by (cases "jv_fork v")
    (auto simp: finishJob_def node_forkBlock_def clearAndStopQueue_def clearQueue_def setLastDownloadedBlock_def
      resetLastDownloadedBlock_def node_getLastBlock_run node_dispatch_def forkReported_def endsWith_def
      setForkedBlock_def q_clear_def q_pause_def andThen_def within_def inStore_def modify_def whenever_def)

text \<open>What holds after a job whose blocks were saved, and after one that had to go back.\<close>

definition jobSaved :: "block list \<Rightarrow> (block \<times> (error + block_result)) option \<Rightarrow> int \<Rightarrow>
    'w chain_node \<Rightarrow> 'w chain_node \<Rightarrow> bool" where
  "jobSaved bs nxt h s s' \<longleftrightarrow>
     (\<forall>b \<in> set bs. storedBlock b (rs_db (bn_round s'))) \<and>
     (bs \<noteq> [] \<longrightarrow> st_lastStoredHeight (storeOf s') = height (bdata (last bs))) \<and>
     grown (h + int (length bs)) s' \<and>
     (case nxt of Some (b, Inr Rollback) \<Rightarrow> forkReported b s s' | _ \<Rightarrow> bn_machine s' = bn_machine s)"

definition jobWentBack :: "('h, 'w) chain_env \<Rightarrow> block list \<Rightarrow> int \<Rightarrow> (error + unit) \<Rightarrow>
    'w chain_node \<Rightarrow> 'w chain_node \<Rightarrow> bool" where
  "jobWentBack C bs h r s s' \<longleftrightarrow> bs \<noteq> [] \<and> (\<exists>db e. fst (saveBlocks (ce_encode C) bs db) = Inl e) \<and>
     bn_machine s' = bn_machine s \<and> (r = Inr () \<longrightarrow> bn_exited s' \<or> grown h s')"

lemma loopVars_result:
  assumes "\<forall>b. nxt \<noteq> Some (b, Inr Accepted)"
  shows "case nxt of Some (b, Inr Rollback) \<Rightarrow>
      jv_result (loopVars nxt (afterAccepted newJobVars bs)) = Some Rollback \<and>
      jv_fork (loopVars nxt (afterAccepted newJobVars bs)) = Some b
    | _ \<Rightarrow> jv_fork (loopVars nxt (afterAccepted newJobVars bs)) = None"
  and "jv_accepted (loopVars nxt (afterAccepted newJobVars bs)) = bs"
  and "jv_corrupted (loopVars nxt (afterAccepted newJobVars bs)) \<longleftrightarrow> corrupting nxt"
  using assms
  by (auto simp: loopVars_def jobOutcome_def Let_def newJobVars_def corrupting_def split: option.splits sum.splits block_result.splits)

lemma saveAccepted_run:
  fixes C :: "('h, 'w) chain_env"
  assumes run: "saveAccepted C bs u = (r, w)" and s: "node_ok u" and e: "endsWith p (storeOf u)"
    and hd: "bs \<noteq> [] \<Longrightarrow> height (bdata (hd bs)) = h + 1"
  shows "(r = Inr True \<and> sameMachine u w \<and> endsWith p (storeOf w) \<and>
      (\<forall>b \<in> set bs. storedBlock b (rs_db (bn_round w))) \<and>
      (bs \<noteq> [] \<longrightarrow> st_lastStoredHeight (storeOf w) = height (bdata (last bs)))) \<or>
    (r \<noteq> Inr True \<and> bs \<noteq> [] \<and> (\<exists>db e. fst (saveBlocks (ce_encode C) bs db) = Inl e) \<and>
      bn_machine w = bn_machine u \<and> (\<forall>x. r = Inr x \<longrightarrow> bn_exited w \<or> grown h w))"
proof (cases "bs = []")
  case True
  then show ?thesis using run e by (auto simp: saveAccepted_def)
next
  case False
  obtain q db where q: "saveBlocks (ce_encode C) bs (rs_db (bn_round u)) = (q, db)" by fastforce
  let ?w = "u\<lparr>bn_round := (bn_round u)\<lparr>rs_db := db\<rparr>\<rparr>"
  show ?thesis
  proof (cases q)
    case (Inr x)
    then show ?thesis
      using run False q saveBlocks_stored[of "ce_encode C" bs "rs_db (bn_round u)" x db] e
      by (auto simp: saveAccepted_def andThen_def catching_def within_def inDb_def inStore_def sameMachine_def
          endsWith_def modify_def)
  next
    case (Inl er)
    obtain r1 w1 where j: "job_revertBlocks C bs ?w = (r1, w1)" by fastforce
    have "store_ok (storeOf ?w)" using s by (simp add: node_ok_def)
    from job_revertBlocks_run[OF this False j] hd[OF False]
    have b: "bn_machine w1 = bn_machine u" "r1 = Inr () \<longrightarrow> bn_exited w1 \<or> grown h w1" by simp_all
    have "saveAccepted C bs u = andThen (job_revertBlocks C bs) (\<lambda>_. ret False) ?w"
      using False q Inl by (simp add: saveAccepted_def andThen_def catching_def within_def inDb_def)
    then have rw: "r = (case r1 of Inl e \<Rightarrow> Inl e | Inr _ \<Rightarrow> Inr False)" "w = w1"
      using run j by (auto simp: andThen_def split: sum.splits)
    have "fst (saveBlocks (ce_encode C) bs (rs_db (bn_round u))) = Inl er" using q Inl by simp
    then show ?thesis using rw b False by (cases r1) auto
  qed
qed

lemma job_cases:
  fixes C :: "('h, 'w) chain_env"
  assumes s: "node_ok s" and l: "lastOf (st_lastBlocks (storeOf s)) = Some l" and xs: "xs \<noteq> []"
    and run: "job_handle C xs s = (r, s')"
  shows "\<exists>n bs t. n \<le> length xs \<and> acceptedRun C [] (take n xs) bs s t \<and>
    (\<forall>b. nextAnswer C bs (drop n xs) t \<noteq> Some (b, Inr Accepted)) \<and>
    (if corrupting (nextAnswer C bs (drop n xs) t) then r = Inr () \<and> bn_exited s' \<and> bn_machine s' = bn_machine s
     else (r = Inr () \<and> jobSaved bs (nextAnswer C bs (drop n xs) t) (height (bdata l)) s s') \<or>
       jobWentBack C bs (height (bdata l)) r s s')"
proof -
  obtain n bs t u where run1: "n \<le> length xs" "acceptedRun C [] (take n xs) bs s t"
    "\<forall>b. nextAnswer C bs (drop n xs) t \<noteq> Some (b, Inr Accepted)"
    "processLoop C xs newJobVars s = (Inr (loopVars (nextAnswer C bs (drop n xs) t) (afterAccepted newJobVars bs)), u)"
    "sameMachine s u" "node_ok u"
    "\<not> corrupting (nextAnswer C bs (drop n xs) t) \<longrightarrow> grown (height (bdata l) + int (length bs)) u"
    "bs \<noteq> [] \<longrightarrow> height (bdata (hd bs)) = height (bdata l) + 1"
    using processLoop_run[OF s l, of xs C newJobVars] by (auto simp: newJobVars_def)
  let ?a = "nextAnswer C bs (drop n xs) t"
  let ?v = "loopVars ?a (afterAccepted newJobVars bs)"
  note v = loopVars_result[OF run1(3), of bs]
  have job: "job_handle C xs s = (if corrupting ?a then handleCorrupted
      else andThen (saveAccepted C bs) (\<lambda>saved. whenever saved (finishJob ?v))) u"
    using xs l run1(4) v by (simp add: job_handle_def andThen_def node_getLastBlock_run promiseIsTruthy_def)
  show ?thesis
  proof (cases "corrupting ?a")
    case True
    then have "r = Inr () \<and> bn_exited s' \<and> bn_machine s' = bn_machine s"
      using job run run1(5) by (auto simp: handleCorrupted_def sameMachine_def)
    then show ?thesis using True run1(1-3) by (intro exI[of _ n] exI[of _ bs] exI[of _ t]) simp
  next
    case False
    then obtain p where p: "endsWith p (storeOf u)" "height (bdata p) = height (bdata l) + int (length bs)"
      using run1(7) by (auto simp: grown_def)
    obtain q w where q: "saveAccepted C bs u = (q, w)" by fastforce
    have job2: "andThen (saveAccepted C bs) (\<lambda>saved. whenever saved (finishJob ?v)) u = (r, s')"
      using job run False by simp
    have "(r = Inr () \<and> jobSaved bs ?a (height (bdata l)) s s') \<or> jobWentBack C bs (height (bdata l)) r s s'"
    proof (cases "q = Inr True")
      case True
      have w: "sameMachine u w" "endsWith p (storeOf w)" "\<forall>b \<in> set bs. storedBlock b (rs_db (bn_round w))"
          "bs \<noteq> [] \<longrightarrow> st_lastStoredHeight (storeOf w) = height (bdata (last bs))"
        using saveAccepted_run[OF q run1(6) p(1), of "height (bdata l)"] run1(8) True by auto
      have fin: "finishJob ?v w = (r, s')" using job2 q True by (simp add: andThen_def)
      have m: "bn_machine w = bn_machine s" using w(1) run1(5) by (simp add: sameMachine_def)
      have f: "r = Inr ()" "rs_db (bn_round s') = rs_db (bn_round w)" "endsWith p (storeOf s')"
          "st_lastStoredHeight (storeOf s') = st_lastStoredHeight (storeOf w)"
          "if jv_result ?v \<notin> {Some Accepted, Some DiscardedButCanBeBroadcasted} \<and> jv_fork ?v \<noteq> None
           then forkReported (the (jv_fork ?v)) w s' else jv_fork ?v = None \<longrightarrow> bn_machine s' = bn_machine w"
        using finishJob_run[OF w(2), of ?v] fin by auto
      have "case ?a of Some (b, Inr Rollback) \<Rightarrow> forkReported b s s' | _ \<Rightarrow> bn_machine s' = bn_machine s"
        using f(5) v(1) m by (auto simp: forkReported_def split: option.splits sum.splits block_result.splits)
      moreover have "grown (height (bdata l) + int (length bs)) s'" using f(3) p(2) by (auto simp: grown_def)
      ultimately show ?thesis using f w(3,4) by (simp add: jobSaved_def)
    next
      case False
      have w: "bs \<noteq> []" "\<exists>db e. fst (saveBlocks (ce_encode C) bs db) = Inl e" "bn_machine w = bn_machine u"
          "\<forall>x. q = Inr x \<longrightarrow> bn_exited w \<or> grown (height (bdata l)) w"
        using saveAccepted_run[OF q run1(6) p(1), of "height (bdata l)"] run1(8) False by auto
      have "s' = w" "r = Inr () \<longrightarrow> (\<exists>x. q = Inr x)"
        using job2 q False by (cases q; auto simp: andThen_def whenever_def)+
      then show ?thesis using w run1(5) by (auto simp: jobWentBack_def sameMachine_def)
    qed
    then show ?thesis using False run1(1-3) by (intro exI[of _ n] exI[of _ bs] exI[of _ t]) simp
  qed
qed

end
