(* ===== verification/Collation.thy ===== *)
theory Collation
  imports PoolInvariant Config Handlers "HOL-Library.Sublist"
begin

text \<open>
  What stands around the pool: the pool's environment over the handlers of this development, the
  validator of transactions (core-state/source/transaction-validator.ts), the collation of a block
  (core-transaction-pool/source/collator.ts), the processor of incoming transactions
  (processor.ts), the fee registry and matchers (core-fees, core-fees-static, core-fees-managed)
  and the merging iterator (core-transaction-pool/source/utils.ts).
\<close>

section \<open>Fees (core-fees/source/registry.ts, core-fees-static, core-fees-managed)\<close>

type_synonym fee_registry = "(string \<times> int option, int) jsmap"

definition feeOf :: "fee_registry \<Rightarrow> string \<Rightarrow> int option \<Rightarrow> int option" where
  "feeOf reg key v = jm_get reg (key, v)"

definition setFee :: "string \<Rightarrow> int option \<Rightarrow> int \<Rightarrow> fee_registry \<Rightarrow> fee_registry" where
  "setFee key v f = jm_set (key, v) f"

text \<open>An unregistered fee is \<open>undefined\<close>, which a \<open>BigNumber\<close> comparison refuses.\<close>

definition staticFeeMatcher :: "fee_registry \<Rightarrow> (transaction \<Rightarrow> string) \<Rightarrow> transaction \<Rightarrow> error + unit" where
  "staticFeeMatcher reg key t =
     (case feeOf reg (key t) (version (data t)) of
        None \<Rightarrow> Inl JsTypeError
      | Some f \<Rightarrow> if txFee t = f then Inr ()
                  else if txFee t < f then Inl TransactionFeeToLowError
                  else Inl TransactionFeeToHighError)"

text \<open>\<open>Math.round(length / 2)\<close> rounds halves up; an unregistered fee counts as zero.\<close>

definition calculateMinFee :: "fee_registry \<Rightarrow> int \<Rightarrow> (transaction \<Rightarrow> string) \<Rightarrow> transaction \<Rightarrow> int" where
  "calculateMinFee reg satoshiPerByte key t =
     ((case feeOf reg (key t) (version (data t)) of None \<Rightarrow> 0 | Some f \<Rightarrow> f)
      + (int (length (serialized t)) + 1) div 2) * satoshiPerByte"

definition managedFeeMatcher ::
    "fee_registry \<Rightarrow> int \<Rightarrow> (transaction \<Rightarrow> string) \<Rightarrow> transaction \<Rightarrow> error + unit" where
  "managedFeeMatcher reg satoshiPerByte key t =
     (if txFee t \<ge> calculateMinFee reg satoshiPerByte key t then Inr ()
      else Inl TransactionFeeToLowError)"

lemma managed_monotone:
  assumes "managedFeeMatcher reg p key t = Inr ()" and "0 \<le> p" and "key u = key t"
    and "version (data u) = version (data t)" and "txFee t \<le> txFee u"
    and "length (serialized u) \<le> length (serialized t)"
  shows "managedFeeMatcher reg p key u = Inr ()"
proof -
  have "(int (length (serialized u)) + 1) div 2 \<le> (int (length (serialized t)) + 1) div 2"
    using assms(6) by (intro zdiv_mono1) auto
  then have "calculateMinFee reg p key u \<le> calculateMinFee reg p key t"
    using assms(2-4) by (auto simp: calculateMinFee_def intro: mult_right_mono)
  then show ?thesis using assms(1,5) by (auto simp: managedFeeMatcher_def split: if_splits)
qed

section \<open>The pool over the core handlers\<close>

text \<open>
  The handlers of a sender state work on a wallet repository of its own; it takes the place of
  the blockchain repository here.
\<close>

record pool_config =
  pc_maxTransactionBytes :: int
  pc_maxTransactionsPerSender :: int
  pc_maxTransactionsInPool :: int
  pc_maxTransactionAge :: int
  pc_allowedSenders :: "string list"
  pc_network :: "int option"

definition corePool ::
    "env \<Rightarrow> pool_config \<Rightarrow> int \<Rightarrow> wstate \<Rightarrow> (transaction \<Rightarrow> error + unit) \<Rightarrow>
     (byte list \<Rightarrow> error + transaction) \<Rightarrow> (handler, wstate) pool_env" where
  "corePool E c lastHeight ws matcher decode = \<lparr>
     pe_maxTransactionBytes = pc_maxTransactionBytes c,
     pe_maxTransactionsPerSender = pc_maxTransactionsPerSender c,
     pe_maxTransactionsInPool = pc_maxTransactionsInPool c,
     pe_maxTransactionAge = pc_maxTransactionAge c,
     pe_allowedSenders = pc_allowedSenders c,
     pe_network = pc_network c,
     pe_lastHeight = lastHeight,
     pe_address = e_address E,
     pe_wallets = ws,
     pe_handler = activatedHandlerForData coreHandlers,
     pe_verify = (\<lambda>h. handlerVerify E),
     pe_canEnter = throwIfCannotEnterPool E,
     pe_apply = applyTx E,
     pe_revert = revertTx E,
     pe_fee = matcher,
     pe_fromBytes = decode\<rparr>"

section \<open>The transaction validator (transaction-validator.ts)\<close>

definition validate :: "('h, 'w) pool_env \<Rightarrow> transaction \<Rightarrow> ('w, error, unit) prog" where
  "validate E t =
     andThen (liftE (pe_fromBytes E (serialized t))) (\<lambda>d.
     andThen (throwIf (txId t \<noteq> txId d) AssertionException) (\<lambda>_.
     andThen (liftE (pe_handler E (data t))) (\<lambda>h.
     pe_apply E h t)))"

section \<open>Collating a block (collator.ts)\<close>

definition blockHeaderSize :: int where
  "blockHeaderSize = 4 + 8 + 4 + 32 + 4 + 8 + 8 + 8 + 4 + 32 + 32"

datatype collated = Stop | Failed | Taken

text \<open>One transaction: no room left ends the loop, an error marks the transaction as failed.\<close>

definition collateOne :: "('h, 'w) pool_env \<Rightarrow> int \<Rightarrow> transaction \<Rightarrow> ('w, error, collated) prog" where
  "collateOne E bytesLeft t =
     catching
       (andThen (liftE (isExpired (pe_lastHeight E) t)) (\<lambda>expired.
        andThen (whenever expired
          (andThen (liftE (getExpirationHeight t)) (\<lambda>h. throw (TransactionHasExpiredError h)))) (\<lambda>_.
        if bytesLeft - 4 - int (length (serialized t)) < 0 then ret Stop
        else andThen (validate E t) (\<lambda>_. ret Taken))))
       (\<lambda>_. ret Failed)"

definition senderFailed :: "transaction list \<Rightarrow> transaction \<Rightarrow> bool" where
  "senderFailed failed t \<longleftrightarrow>
     (\<exists>f \<in> set failed. senderPublicKey (data f) = senderPublicKey (data t))"

fun collate :: "('h, 'w) pool_env \<Rightarrow> int \<Rightarrow> transaction list \<Rightarrow> int \<Rightarrow> transaction list \<Rightarrow>
    transaction list \<Rightarrow> ('w, error, transaction list \<times> transaction list) prog" where
  "collate E maxTransactions [] bytesLeft cands failed = ret (cands, failed)"
| "collate E maxTransactions (t # ts) bytesLeft cands failed =
     (if int (length cands) = maxTransactions then ret (cands, failed)
      else if senderFailed failed t then collate E maxTransactions ts bytesLeft cands failed
      else andThen (collateOne E bytesLeft t) (\<lambda>r.
        case r of
          Stop \<Rightarrow> ret (cands, failed)
        | Failed \<Rightarrow> collate E maxTransactions ts bytesLeft cands (failed @ [t])
        | Taken \<Rightarrow> collate E maxTransactions ts (bytesLeft - 4 - int (length (serialized t)))
                    (cands @ [t]) failed))"

definition getBlockCandidateTransactions ::
    "('h, 'w) pool_env \<Rightarrow> milestone \<Rightarrow> 'w pool \<Rightarrow> ('w, error, transaction list \<times> transaction list) prog" where
  "getBlockCandidateTransactions E ms s =
     andThen (defined JsTypeError (m_maxPayload ms)) (\<lambda>maxPayload.
     andThen (defined JsTypeError (m_maxTransactions ms)) (\<lambda>maxTransactions.
     collate E maxTransactions (qi_all (getFromHighestPriority (pl_mempool s)))
       (maxPayload - blockHeaderSize) [] []))"

text \<open>What runs after the answer, unawaited: the failed transactions leave the pool.\<close>

definition removeFailed :: "('h, 'w) pool_env \<Rightarrow> transaction list \<Rightarrow> ('w, unit) pprog" where
  "removeFailed E = forEach (removeTransaction E)"

definition payloadSize :: "transaction list \<Rightarrow> int" where
  "payloadSize ts = sum_list (map (\<lambda>t. 4 + int (length (serialized t))) ts)"

lemma collateOne_Inr: "\<exists>r w'. collateOne E n t w = (Inr r, w')"
  unfolding collateOne_def catching_def by (auto split: prod.splits sum.splits)

lemma collateOne_Taken:
  assumes "collateOne E n t w = (Inr Taken, w')"
  shows "4 + int (length (serialized t)) \<le> n" and "validate E t w = (Inr (), w')"
    and "isExpired (pe_lastHeight E) t = Inr False"
  using assms unfolding collateOne_def catching_def
  by (auto simp: isExpired_total elim!: andThen_InrE split: prod.splits sum.splits if_splits)

text \<open>
  The invariant of the loop: the candidates are taken in the order of the queue, within the
  count and the bytes left, and no candidate follows a failed transaction of its sender.
\<close>

lemma collate_sound:
  assumes "collate E maxN ts n cands failed w = (Inr (cands', failed'), w')"
    and "int (length cands) \<le> maxN" and "0 \<le> n"
  shows "\<exists>new bad. cands' = cands @ new \<and> failed' = failed @ bad \<and> subseq new ts \<and> subseq bad ts \<and>
    int (length cands') \<le> maxN \<and> payloadSize new \<le> n \<and>
    (\<forall>t \<in> set new. \<not> senderFailed failed t \<and> isExpired (pe_lastHeight E) t = Inr False)"
  using assms
proof (induction ts arbitrary: n cands failed w)
  case Nil
  then show ?case by (auto simp: payloadSize_def)
next
  case (Cons t ts)
  show ?case
  proof (cases "int (length cands) = maxN")
    case True
    then show ?thesis using Cons.prems by (auto simp: payloadSize_def)
  next
    case more: False
    show ?thesis
    proof (cases "senderFailed failed t")
      case True
      then have "collate E maxN ts n cands failed w = (Inr (cands', failed'), w')"
        using Cons.prems(1) more by simp
      then show ?thesis using Cons.IH Cons.prems(2,3) by (meson list_emb_Cons)
    next
      case ok: False
      obtain r w1 where r: "collateOne E n t w = (Inr r, w1)" using collateOne_Inr[of E n t w] by auto
      show ?thesis
      proof (cases r)
        case Stop
        then show ?thesis using Cons.prems more ok r by (auto simp: andThen_def payloadSize_def)
      next
        case Failed
        then have "collate E maxN ts n cands (failed @ [t]) w1 = (Inr (cands', failed'), w')"
          using Cons.prems(1) more ok r by (simp add: andThen_def)
        then obtain new bad where *: "cands' = cands @ new" "failed' = failed @ [t] @ bad"
          "subseq new ts" "subseq bad ts" "int (length cands') \<le> maxN" "payloadSize new \<le> n"
          "\<forall>u \<in> set new. \<not> senderFailed (failed @ [t]) u \<and> isExpired (pe_lastHeight E) u = Inr False"
          using Cons.IH[of n cands "failed @ [t]" w1] Cons.prems(2,3) by auto
        have "\<forall>u \<in> set new. \<not> senderFailed failed u \<and> isExpired (pe_lastHeight E) u = Inr False"
          using *(7) by (auto simp: senderFailed_def)
        then show ?thesis using *
          by (intro exI[of _ new] exI[of _ "t # bad"]) auto
      next
        case Taken
        let ?n = "n - 4 - int (length (serialized t))"
        note tk = collateOne_Taken[OF r[unfolded Taken]]
        have "collate E maxN ts ?n (cands @ [t]) failed w1 = (Inr (cands', failed'), w')"
          using Cons.prems(1) more ok r Taken by (simp add: andThen_def)
        then obtain new bad where *: "cands' = cands @ [t] @ new" "failed' = failed @ bad"
          "subseq new ts" "subseq bad ts" "int (length cands') \<le> maxN" "payloadSize new \<le> ?n"
          "\<forall>u \<in> set new. \<not> senderFailed failed u \<and> isExpired (pe_lastHeight E) u = Inr False"
          using Cons.IH[of ?n "cands @ [t]" failed w1] Cons.prems(2) more tk(1) by auto
        then show ?thesis using ok tk(3)
          by (intro exI[of _ "t # new"] exI[of _ bad]) (auto simp: payloadSize_def)
      qed
    qed
  qed
qed

lemma collate_returns: "\<exists>c f w'. collate E maxN ts n cands failed w = (Inr (c, f), w')"
proof (induction ts arbitrary: n cands failed w)
  case (Cons t ts)
  obtain r w1 where r: "collateOne E n t w = (Inr r, w1)" using collateOne_Inr[of E n t w] by auto
  show ?case
  proof (cases r)
    case Stop then show ?thesis using Cons.IH r by (simp add: andThen_def)
  next
    case Failed then show ?thesis using Cons.IH r by (simp add: andThen_def)
  next
    case Taken then show ?thesis using Cons.IH r by (simp add: andThen_def)
  qed
qed simp

text \<open>
  A block candidate: pending transactions without repetition, the best paid first, within the
  count and the size of the milestone, none of them expired.
\<close>

lemma subseq_sorted: "subseq xs ys \<Longrightarrow> sorted (map f ys) \<Longrightarrow> sorted (map f xs)"
  by (induction rule: list_emb.induct) (auto dest: list_emb_set)

lemma subseq_mset: "subseq xs ys \<Longrightarrow> mset xs \<subseteq># mset ys"
  by (induction rule: list_emb.induct) (auto intro: subset_mset.order_trans)

lemma candidates_spec:
  fixes E :: "('h, 'w) pool_env" and s :: "'w pool"
  assumes ok: "queues_ok (view s)" and p: "m_maxPayload ms = Some p" "blockHeaderSize \<le> p"
    and n: "m_maxTransactions ms = Some n" "0 \<le> n"
  obtains cands failed w' where "getBlockCandidateTransactions E ms s w = (Inr (cands, failed), w')"
    and "mset cands \<subseteq># mset (pending (view s))" and "sorted (map (\<lambda>t. - txFee t) cands)"
    and "int (length cands) \<le> n" and "payloadSize cands \<le> p - blockHeaderSize"
    and "distinct (map txId cands)" and "\<forall>t \<in> set cands. isExpired (pe_lastHeight E) t = Inr False"
proof -
  let ?ts = "qi_all (getFromHighestPriority (pl_mempool s))"
  obtain cands failed w' where
    run: "collate E n ?ts (p - blockHeaderSize) [] [] w = (Inr (cands, failed), w')"
    using collate_returns[of E n ?ts "p - blockHeaderSize" "[]" "[]" w] by auto
  then have sub: "subseq cands ?ts" and len: "int (length cands) \<le> n"
    and size: "payloadSize cands \<le> p - blockHeaderSize"
    and live: "\<forall>t \<in> set cands. isExpired (pe_lastHeight E) t = Inr False"
    using collate_sound[OF run] p(2) n(2) by auto
  have "sorted (map (\<lambda>t. - txFee t) ?ts)" by (simp add: getFromHighestPriority_def)
  then have "sorted (map (\<lambda>t. - txFee t) cands)" by (rule subseq_sorted[OF sub])
  moreover have mset: "mset cands \<subseteq># mset (pending (view s))"
    using subseq_mset[OF sub] by (simp only: mset_priorities)
  moreover have "distinct (map txId cands)"
    using distinct_sub_mset[of txId, OF _ mset] ok by (simp add: queues_ok_def)
  moreover have "getBlockCandidateTransactions E ms s w = (Inr (cands, failed), w')"
    using run p(1) n(1) by (simp add: getBlockCandidateTransactions_def)
  ultimately show ?thesis using that len size live by blast
qed

section \<open>Incoming transactions (processor.ts)\<close>

text \<open>
  An item is a buffer or a data object. Of a buffer the common part is deserialized first, inside
  the \<open>try\<close> that turns an error into \<open>InvalidTransactionDataError\<close>; the promise of the factory is
  returned and not awaited there, so what it throws leaves as it is.
\<close>

record item =
  it_buffer :: bool
  it_id :: "string option"
  it_common :: "error + unit"
  it_transaction :: "error + transaction"

definition transactionOf :: "item \<Rightarrow> error + transaction" where
  "transactionOf x =
     (if it_buffer x then (case it_common x of Inl _ \<Rightarrow> Inl InvalidTransactionDataError
                           | Inr _ \<Rightarrow> it_transaction x)
      else it_transaction x)"

definition entryIdOf :: "nat \<Rightarrow> item \<Rightarrow> string" where
  "entryIdOf n x =
     (if it_buffer x then decimal (int n)
      else (case it_id x of None \<Rightarrow> decimal (int n) | Some i \<Rightarrow> i))"

record processed =
  pr_accept :: "string list"
  pr_broadcast :: "string list"
  pr_invalid :: "string list"
  pr_excess :: "string list"
  pr_errors :: "(string, string) jsmap"
  pr_broadcastTransactions :: "transaction list"

definition nothingProcessed :: processed where
  "nothingProcessed = \<lparr>pr_accept = [], pr_broadcast = [], pr_invalid = [], pr_excess = [],
     pr_errors = [], pr_broadcastTransactions = []\<rparr>"

definition accepted :: "bool \<Rightarrow> string \<Rightarrow> transaction \<Rightarrow> processed \<Rightarrow> processed" where
  "accepted forward i t r =
     (let r' = r\<lparr>pr_accept := pr_accept r @ [i]\<rparr>
      in if forward then r'\<lparr>pr_broadcastTransactions := pr_broadcastTransactions r' @ [t],
                           pr_broadcast := pr_broadcast r' @ [i]\<rparr> else r')"

definition refused :: "string \<Rightarrow> string \<Rightarrow> processed \<Rightarrow> processed" where
  "refused i ty r = r\<lparr>pr_invalid := pr_invalid r @ [i],
     pr_excess := (if ty = ''ERR_EXCEEDS_MAX_COUNT'' then pr_excess r @ [i] else pr_excess r),
     pr_errors := jm_set i ty (pr_errors r)\<rparr>"

text \<open>
  The loop over the entries, from index \<open>n\<close> on. An error that is not a pool error ends it and
  leaves through the caller; the transactions accepted before are broadcast all the same.
\<close>

fun processItems :: "('h, 'w) pool_env \<Rightarrow> (transaction \<Rightarrow> bool) \<Rightarrow> nat \<Rightarrow> item list \<Rightarrow>
    processed \<Rightarrow> ('w, error option \<times> processed) pprog" where
  "processItems E forward n [] r = ret (None, r)"
| "processItems E forward n (x # xs) r = (\<lambda>s.
     case andThen (liftE (transactionOf x)) (\<lambda>t. andThen (addTransaction E t) (\<lambda>_. ret t)) s of
       (Inr t, s') \<Rightarrow>
         processItems E forward (n + 1) xs (accepted (forward t) (entryIdOf n x) t r) s'
     | (Inl e, s') \<Rightarrow>
         (case poolErrorType e of
            Some ty \<Rightarrow> processItems E forward (n + 1) xs (refused (entryIdOf n x) ty r) s'
          | None \<Rightarrow> (Inr (Some e, r), s')))"

definition process :: "('h, 'w) pool_env \<Rightarrow> (transaction \<Rightarrow> bool) \<Rightarrow> item list \<Rightarrow>
    'w pool \<Rightarrow> (error + processed) \<times> transaction list \<times> 'w pool" where
  "process E forward xs s =
     (case processItems E forward 0 xs nothingProcessed s of
        (Inr (None, r), s') \<Rightarrow> (Inr r, pr_broadcastTransactions r, s')
      | (Inr (Some e, r), s') \<Rightarrow> (Inl e, pr_broadcastTransactions r, s')
      | (Inl e, s') \<Rightarrow> (Inl e, [], s'))"

text \<open>
  Every entry is answered once: accepted or invalid. What is broadcast was accepted, and the
  consistency of the pool outlives any input.
\<close>

lemma processItems_sound:
  assumes E: "goodEnv E" "1 \<le> pe_maxTransactionsInPool E"
  shows "pool_ok s \<Longrightarrow> \<exists>e r' s'. processItems E forward n xs r s = (Inr (e, r'), s') \<and> pool_ok s' \<and>
    (e = None \<longrightarrow> length (pr_accept r') + length (pr_invalid r') =
        length (pr_accept r) + length (pr_invalid r) + length xs) \<and>
    (set (pr_broadcast r) \<subseteq> set (pr_accept r) \<longrightarrow> set (pr_broadcast r') \<subseteq> set (pr_accept r')) \<and>
    length (pr_broadcastTransactions r') + length (pr_broadcast r) =
      length (pr_broadcast r') + length (pr_broadcastTransactions r)"
proof (induction xs arbitrary: n r s)
  case (Cons x xs)
  define run where "run = andThen (liftE (transactionOf x)) (\<lambda>t. andThen (addTransaction E t) (\<lambda>_. ret t)) s"
  obtain q s1 where q: "run = (q, s1)" by fastforce
  have ok1: "pool_ok s1"
  proof (cases "transactionOf x")
    case (Inr t)
    obtain u s2 where a: "addTransaction E t s = (u, s2)" by fastforce
    then have "s2 = s1" using q Inr by (cases u) (auto simp: run_def andThen_def)
    then show ?thesis using addTransaction_keeps[OF E Cons.prems, of t] a by simp
  qed (use q Cons.prems in \<open>simp add: run_def\<close>)
  show ?case
  proof (cases q)
    case (Inl e)
    show ?thesis
    proof (cases "poolErrorType e")
      case None
      then show ?thesis using q Inl ok1 by (simp add: run_def)
    next
      case (Some ty)
      then have "processItems E forward n (x # xs) r s =
          processItems E forward (n + 1) xs (refused (entryIdOf n x) ty r) s1"
        using q Inl by (simp add: run_def)
      then show ?thesis
        using Cons.IH[OF ok1, of "n + 1" "refused (entryIdOf n x) ty r"] by (auto simp: refused_def)
    qed
  next
    case (Inr t)
    then have "processItems E forward n (x # xs) r s =
        processItems E forward (n + 1) xs (accepted (forward t) (entryIdOf n x) t r) s1"
      using q by (simp add: run_def)
    then show ?thesis
      using Cons.IH[OF ok1, of "n + 1" "accepted (forward t) (entryIdOf n x) t r"]
      by (auto simp: accepted_def Let_def)
  qed
qed simp

section \<open>The merging iterator (utils.ts)\<close>

text \<open>
  An iterator is what it has still to yield. The results are those of the iterators that are not
  done, each with its current value; \<open>next\<close> takes the first least one and advances its iterator.
\<close>

type_synonym 'a results = "('a \<times> 'a list) list"

fun newIteratorMany :: "'a list list \<Rightarrow> 'a results" where
  "newIteratorMany [] = []"
| "newIteratorMany ([] # its) = newIteratorMany its"
| "newIteratorMany ((x # xs) # its) = (x, xs) # newIteratorMany its"

fun minEntry :: "('a \<Rightarrow> 'a \<Rightarrow> int) \<Rightarrow> nat \<Rightarrow> nat \<Rightarrow> 'a \<Rightarrow> 'a results \<Rightarrow> nat" where
  "minEntry cmp best i b [] = best"
| "minEntry cmp best i b ((x, _) # rs) =
     (if cmp x b < 0 then minEntry cmp i (i + 1) x rs else minEntry cmp best (i + 1) b rs)"

definition advance :: "nat \<Rightarrow> 'a results \<Rightarrow> 'a results" where
  "advance i rs = (case snd (rs ! i) of
     [] \<Rightarrow> take i rs @ drop (i + 1) rs | y # ys \<Rightarrow> rs[i := (y, ys)])"

definition im_next :: "('a \<Rightarrow> 'a \<Rightarrow> int) \<Rightarrow> 'a results \<Rightarrow> ('a \<times> 'a results) option" where
  "im_next cmp rs = (case rs of [] \<Rightarrow> None
     | (b, _) # rest \<Rightarrow> (let i = minEntry cmp 0 1 b rest in Some (fst (rs ! i), advance i rs)))"


definition remaining_of :: "'a results \<Rightarrow> 'a list" where
  "remaining_of rs = concat (map (\<lambda>(x, xs). x # xs) rs)"

lemma newIteratorMany_all: "remaining_of (newIteratorMany its) = concat its"
  by (induction its rule: newIteratorMany.induct) (simp_all add: remaining_of_def)

lemma minEntry_bound:
  "best < i \<Longrightarrow> minEntry cmp best i b rs < i + length rs"
  by (induction cmp best i b rs rule: minEntry.induct) auto

lemma mset_advance:
  "i < length rs \<Longrightarrow> add_mset (fst (rs ! i)) (mset (remaining_of (advance i rs))) = mset (remaining_of rs)"
proof (induction rs arbitrary: i)
  case (Cons r rs)
  obtain x xs where r: "r = (x, xs)" by fastforce
  show ?case
  proof (cases i)
    case 0
    then show ?thesis by (cases xs) (simp_all add: r advance_def remaining_of_def)
  next
    case (Suc j)
    have "advance i (r # rs) = r # advance j rs"
      by (simp add: Suc advance_def split: list.split)
    then show ?thesis using Cons Suc by (simp add: r remaining_of_def)
  qed
qed simp

lemma im_next_mset:
  assumes "im_next cmp rs = Some (x, rs')"
  shows "add_mset x (mset (remaining_of rs')) = mset (remaining_of rs)"
proof (cases rs)
  case (Cons p rest)
  have "minEntry cmp 0 1 (fst p) rest < length rs" using minEntry_bound[of 0 1] Cons by simp
  then show ?thesis using assms mset_advance[of _ rs] Cons
    by (auto simp: im_next_def Let_def split: prod.splits)
qed (use assms in \<open>simp add: im_next_def\<close>)

text \<open>Taking values until the iterator is done.\<close>

function drain :: "('a \<Rightarrow> 'a \<Rightarrow> int) \<Rightarrow> 'a results \<Rightarrow> 'a list" where
  "drain cmp rs = (case im_next cmp rs of None \<Rightarrow> [] | Some (x, rs') \<Rightarrow> x # drain cmp rs')"
  by pat_completeness auto
termination
proof (relation "measure (\<lambda>(cmp, rs). length (remaining_of rs))")
  fix cmp :: "'a \<Rightarrow> 'a \<Rightarrow> int" and rs p x rs'
  assume "im_next cmp rs = Some p" "(x, rs') = p"
  then have "add_mset x (mset (remaining_of rs')) = mset (remaining_of rs)" by (metis im_next_mset)
  then have "size (mset (remaining_of rs')) < size (mset (remaining_of rs))"
    by (metis lessI size_add_mset)
  then show "((cmp, rs'), (cmp, rs)) \<in> measure (\<lambda>(cmp, rs). length (remaining_of rs))" by simp
qed simp

declare drain.simps [simp del]

lemma drain_mset: "mset (drain cmp rs) = mset (remaining_of rs)"
proof (induction cmp rs rule: drain.induct)
  case (1 cmp rs)
  show ?case
  proof (cases "im_next cmp rs")
    case None
    then have "rs = []" by (auto simp: im_next_def Let_def split: list.splits)
    then show ?thesis using None by (simp add: drain.simps remaining_of_def)
  next
    case (Some p)
    then show ?thesis using 1[of p "fst p" "snd p"] im_next_mset[of cmp rs "fst p" "snd p"]
      by (simp add: drain.simps[of cmp rs] case_prod_beta)
  qed
qed

abbreviation byKeys :: "('a \<Rightarrow> int) \<Rightarrow> 'a \<Rightarrow> 'a \<Rightarrow> int" where
  "byKeys key x y \<equiv> key x - key y"

definition sources_sorted :: "('a \<Rightarrow> int) \<Rightarrow> 'a results \<Rightarrow> bool" where
  "sources_sorted key rs \<longleftrightarrow> (\<forall>(x, xs) \<in> set rs. sorted (map key (x # xs)))"

lemma minEntry_min:
  assumes "best < i" and "i \<le> length all" and "rs = drop i all" and "b = fst (all ! best)"
    and "\<forall>j < i. key b \<le> key (fst (all ! j))" and "best < length all"
  shows "\<forall>j < length all. key (fst (all ! minEntry (byKeys key) best i b rs)) \<le> key (fst (all ! j))"
  using assms
proof (induction "byKeys key" best i b rs rule: minEntry.induct)
  case (1 best i b)
  then show ?case by simp
next
  case (2 best i b x y rs)
  have i: "i < length all" using "2.prems"(3) by (metis drop_all leI list.discI)
  then have x: "fst (all ! i) = x" and rs: "rs = drop (i + 1) all"
    using "2.prems"(3) by (metis Cons_nth_drop_Suc fst_conv list.inject, metis Cons_nth_drop_Suc Suc_eq_plus1 list.inject)
  show ?case
  proof (cases "key x - key b < 0")
    case True
    have "\<forall>j < i + 1. key x \<le> key (fst (all ! j))"
    proof (intro allI impI)
      fix j assume "j < i + 1"
      then have "j = i \<or> key b \<le> key (fst (all ! j))" using "2.prems"(5) by (auto simp: less_Suc_eq)
      then show "key x \<le> key (fst (all ! j))" using True x by auto
    qed
    then have "\<forall>j < length all. key (fst (all ! minEntry (byKeys key) i (i + 1) x rs)) \<le> key (fst (all ! j))"
      by (intro 2(1)) (use True i x in \<open>simp_all add: rs\<close>)
    then show ?thesis using True by simp
  next
    case False
    have "\<forall>j < i + 1. key b \<le> key (fst (all ! j))"
      using False "2.prems"(5) x by (auto simp: less_Suc_eq)
    then have "\<forall>j < length all. key (fst (all ! minEntry (byKeys key) best (i + 1) b rs)) \<le> key (fst (all ! j))"
      by (intro 2(2)) (use False i "2.prems" in \<open>simp_all add: rs\<close>)
    then show ?thesis using False by simp
  qed
qed

lemma advance_sorted:
  assumes "sources_sorted key rs" and "i < length rs" shows "sources_sorted key (advance i rs)"
proof (cases "snd (rs ! i)")
  case Nil
  then have "set (advance i rs) \<subseteq> set rs" by (auto simp: advance_def dest: in_set_takeD in_set_dropD)
  then show ?thesis using assms(1) unfolding sources_sorted_def by (meson subsetD)
next
  case (Cons y ys)
  have "rs ! i \<in> set rs" using assms(2) by simp
  then have "sorted (map key (fst (rs ! i) # y # ys))"
    using assms(1) Cons by (auto simp: sources_sorted_def case_prod_beta)
  moreover have "set (advance i rs) \<subseteq> insert (y, ys) (set rs)"
    using Cons set_update_subset_insert[of rs i "(y, ys)"] by (simp add: advance_def)
  ultimately show ?thesis using assms(1) unfolding sources_sorted_def by fastforce
qed

lemma drain_sorted: "sources_sorted key rs \<Longrightarrow> sorted (map key (drain (byKeys key) rs))"
proof (induction "byKeys key" rs rule: drain.induct)
  case (1 rs)
  show ?case
  proof (cases rs)
    case Nil
    then show ?thesis by (simp add: drain.simps im_next_def)
  next
    case (Cons p rest)
    let ?i = "minEntry (byKeys key) 0 1 (fst p) rest"
    have i: "?i < length rs" using minEntry_bound[of 0 1] Cons by simp
    have nxt: "im_next (byKeys key) rs = Some (fst (rs ! ?i), advance ?i rs)"
      using Cons by (simp add: im_next_def Let_def case_prod_beta)
    have min: "\<forall>j < length rs. key (fst (rs ! ?i)) \<le> key (fst (rs ! j))"
      by (rule minEntry_min) (simp_all add: Cons)
    have "key (fst (rs ! ?i)) \<le> key y" if "y \<in> set (remaining_of rs)" for y
    proof -
      obtain p where "p \<in> set rs" "y \<in> set (fst p # snd p)"
        using \<open>y \<in> set (remaining_of rs)\<close> by (auto simp: remaining_of_def)
      then obtain j where j: "j < length rs" "y \<in> set (fst (rs ! j) # snd (rs ! j))"
        by (metis in_set_conv_nth)
      then have "rs ! j \<in> set rs" by simp
      then have "sorted (map key (fst (rs ! j) # snd (rs ! j)))"
        using 1(2) by (auto simp: sources_sorted_def case_prod_beta)
      then have "key (fst (rs ! j)) \<le> key y" using j(2) by auto
      then show ?thesis using min j(1) by fastforce
    qed
    moreover have "set (drain (byKeys key) (advance ?i rs)) \<subseteq> set (remaining_of rs)"
      using mset_eq_setD[OF drain_mset[of "byKeys key" "advance ?i rs"]]
        arg_cong[OF im_next_mset[OF nxt], of set_mset] by auto
    ultimately show ?thesis
      using 1(1)[OF nxt refl advance_sorted[OF 1(2) i]] nxt
      by (auto simp: drain.simps[of _ rs])
  qed
qed


end
