(* ===== verification/TxTypes.thy ===== *)
theory TxTypes
  imports Handlers
begin

text \<open>
  packages/core-crypto-transaction: the registry of transaction types (registry.ts), the type
  factory (types/factory.ts) and the constructors it resolves. A constructor is a record of the
  static fields of its class; two constructors are the same object when their records are equal.
  The schemas compiled by the validator are the list of their identifiers.
\<close>

section \<open>Constructors\<close>

datatype tx_class = TransferTransaction | ValidatorRegistrationTransaction | VoteTransaction
  | MultiSignatureRegistrationTransaction | MultiPaymentTransaction | ValidatorResignationTransaction

record tx_ctor =
  tc_class :: tx_class
  tc_type :: "int option"
  tc_typeGroup :: "int option"
  tc_version :: int
  tc_key :: string
  tc_name :: string

text \<open>The \<open>$id\<close> of a constructor's schema is its key.\<close>

definition tc_schema :: "tx_ctor \<Rightarrow> string" where
  "tc_schema c = tc_key c"

definition transferCtor :: tx_ctor where
  "transferCtor = \<lparr>tc_class = TransferTransaction, tc_type = Some T_Transfer, tc_typeGroup = Some G_Core,
     tc_version = 1, tc_key = ''transfer'', tc_name = ''TransferTransaction''\<rparr>"

definition registrationCtor :: tx_ctor where
  "registrationCtor = \<lparr>tc_class = ValidatorRegistrationTransaction, tc_type = Some T_ValidatorRegistration,
     tc_typeGroup = Some G_Core, tc_version = 1, tc_key = ''validatorRegistration'',
     tc_name = ''ValidatorRegistrationTransaction''\<rparr>"

definition voteCtor :: tx_ctor where
  "voteCtor = \<lparr>tc_class = VoteTransaction, tc_type = Some T_Vote, tc_typeGroup = Some G_Core,
     tc_version = 1, tc_key = ''vote'', tc_name = ''VoteTransaction''\<rparr>"

definition multiSignatureCtor :: tx_ctor where
  "multiSignatureCtor = \<lparr>tc_class = MultiSignatureRegistrationTransaction, tc_type = Some T_MultiSignature,
     tc_typeGroup = Some G_Core, tc_version = 1, tc_key = ''multiSignature'',
     tc_name = ''MultiSignatureRegistrationTransaction''\<rparr>"

definition multiPaymentCtor :: tx_ctor where
  "multiPaymentCtor = \<lparr>tc_class = MultiPaymentTransaction, tc_type = Some T_MultiPayment,
     tc_typeGroup = Some G_Core, tc_version = 1, tc_key = ''multiPayment'',
     tc_name = ''MultiPaymentTransaction''\<rparr>"

definition resignationCtor :: tx_ctor where
  "resignationCtor = \<lparr>tc_class = ValidatorResignationTransaction, tc_type = Some T_ValidatorResignation,
     tc_typeGroup = Some G_Core, tc_version = 1, tc_key = ''validatorResignation'',
     tc_name = ''ValidatorResignationTransaction''\<rparr>"

lemmas ctor_defs = transferCtor_def registrationCtor_def voteCtor_def multiSignatureCtor_def
  multiPaymentCtor_def resignationCtor_def

text \<open>The base class says no; the transfer overrides it.\<close>

definition hasVendorField :: "tx_class \<Rightarrow> bool" where
  "hasVendorField c \<longleftrightarrow> c = TransferTransaction"

section \<open>The registry\<close>

type_synonym tx_types = "(int \<times> int, (int, tx_ctor) jsmap) jsmap"

record tx_registry =
  tr_types :: tx_types
  tr_schemas :: "string list"
  tr_ajv :: "string list"

type_synonym 'a regprog = "(tx_registry, error, 'a) prog"

definition ajvRemove :: "string \<Rightarrow> tx_registry \<Rightarrow> tx_registry" where
  "ajvRemove i R = R\<lparr>tr_ajv := js_delete i (tr_ajv R)\<rparr>"

text \<open>\<open>addSchema\<close> of the validator throws for an identifier it already holds.\<close>

definition ajvAdd :: "string \<Rightarrow> unit regprog" where
  "ajvAdd i = (\<lambda>R. if i \<in> set (tr_ajv R) then (Inl (PlainError ''schema with key or id already exists''), R)
     else (Inr (), R\<lparr>tr_ajv := tr_ajv R @ [i]\<rparr>))"

text \<open>Removing or not, the schema is added again at the end.\<close>

definition updateSchemas :: "string \<Rightarrow> bool \<Rightarrow> unit regprog" where
  "updateSchemas i remove =
     andThen (reads (\<lambda>R. remove \<or> i \<in> set (tr_ajv R))) (\<lambda>rm.
     andThen (whenever rm (modify (\<lambda>R.
       ajvRemove (i @ ''Strict'') (ajvRemove (i @ ''Signed'') (ajvRemove i
         (R\<lparr>tr_schemas := js_delete i (tr_schemas R)\<rparr>)))))) (\<lambda>_.
     andThen (modify (\<lambda>R. R\<lparr>tr_schemas := js_add i (tr_schemas R)\<rparr>)) (\<lambda>_.
     andThen (ajvAdd i) (\<lambda>_.
     andThen (ajvAdd (i @ ''Signed'')) (\<lambda>_.
     andThen (ajvAdd (i @ ''Strict'')) (\<lambda>_.
     andThen (modify (ajvRemove ''transactions'')) (\<lambda>_.
     ajvAdd ''transactions'')))))))"

text \<open>The checks against the constructors of one type that is already registered.\<close>

definition checkRegistered :: "tx_ctor \<Rightarrow> int \<times> int \<Rightarrow> (int, tx_ctor) jsmap \<Rightarrow> error + unit" where
  "checkRegistered c it m = (case jm_values m of [] \<Rightarrow> Inr ()
     | first # _ \<Rightarrow>
        (case tc_type first of None \<Rightarrow> Inr () | Some t \<Rightarrow>
          if tc_key first = tc_key c \<and> internalType t (tc_typeGroup first) \<noteq> it
          then Inl (CryptoError (TransactionKeyAlreadyRegisteredError (tc_key first)))
          else if c \<in> set (jm_values m) then Inl (CryptoError (TransactionAlreadyRegisteredError (tc_name c)))
          else Inr ()))"

fun checkAll :: "tx_ctor \<Rightarrow> int \<times> int \<Rightarrow> (int, tx_ctor) jsmap list \<Rightarrow> error + unit" where
  "checkAll c it [] = Inr ()"
| "checkAll c it (m # ms) = (case checkRegistered c it m of Inl e \<Rightarrow> Inl e | Inr _ \<Rightarrow> checkAll c it ms)"

definition registerTransactionType :: "tx_ctor \<Rightarrow> unit regprog" where
  "registerTransactionType c =
     (case (tc_type c, tc_typeGroup c) of
       (Some t, Some g) \<Rightarrow> (let it = internalType t (Some g) in
         andThen (reads tr_types) (\<lambda>ts.
         andThen (liftE (checkAll c it (jm_values ts))) (\<lambda>_.
         andThen (case jm_get ts it of
             None \<Rightarrow> modify (\<lambda>R. R\<lparr>tr_types := jm_set it [] (tr_types R)\<rparr>)
           | Some m \<Rightarrow> throwIf (jm_has m (tc_version c))
               (CryptoError (TransactionVersionAlreadyRegisteredError (tc_name c) (tc_version c)))) (\<lambda>_.
         andThen (modify (\<lambda>R. R\<lparr>tr_types := jm_set it
             (jm_set (tc_version c) c (case jm_get (tr_types R) it of None \<Rightarrow> [] | Some m \<Rightarrow> m)) (tr_types R)\<rparr>)) (\<lambda>_.
         updateSchemas (tc_schema c) False)))))
     | _ \<Rightarrow> throw JsTypeError)"

definition deregisterTransactionType :: "tx_ctor \<Rightarrow> unit regprog" where
  "deregisterTransactionType c =
     (case (tc_type c, tc_typeGroup c) of
       (Some t, Some g) \<Rightarrow> (let it = internalType t (Some g) in
         andThen (reads tr_types) (\<lambda>ts.
         andThen (throwIf (\<not> jm_has ts it) (CryptoError UnkownTransactionError)) (\<lambda>_.
         andThen (updateSchemas (tc_schema c) True) (\<lambda>_.
         andThen (defined (CryptoError UnkownTransactionError) (jm_get ts it)) (\<lambda>m.
         andThen (throwIf (\<not> jm_has m (tc_version c)) (CryptoError UnkownTransactionError)) (\<lambda>_.
         modify (\<lambda>R. let m' = jm_delete (tc_version c) m in
           R\<lparr>tr_types := if m' = [] then jm_delete it (tr_types R) else jm_set it m' (tr_types R)\<rparr>)))))))
     | _ \<Rightarrow> throw JsTypeError)"

definition emptyRegistry :: tx_registry where
  "emptyRegistry = \<lparr>tr_types = [], tr_schemas = [], tr_ajv = []\<rparr>"

section \<open>The type factory\<close>

text \<open>\<open>get\<close>: the constructor of the version, or the first one of the type.\<close>

definition getCtor :: "tx_types \<Rightarrow> int \<Rightarrow> int option \<Rightarrow> int option \<Rightarrow> error + tx_ctor option" where
  "getCtor ts t g v = (case jm_get ts (internalType t g) of
       None \<Rightarrow> Inl (CryptoError UnkownTransactionError)
     | Some m \<Rightarrow> (case jm_get m (if truthyNum v then the v else 1) of
          Some c \<Rightarrow> Inr (Some c)
        | None \<Rightarrow> Inr (case jm_values m of [] \<Rightarrow> None | c # _ \<Rightarrow> Some c)))"

definition versionOr1 :: "txdata \<Rightarrow> int" where
  "versionOr1 d = (if truthyNum (version d) then the (version d) else 1)"

text \<open>\<open>create\<close> sets the version of the data it is given.\<close>

definition createTx :: "tx_types \<Rightarrow> (txdata, error, tx_class) prog" where
  "createTx ts =
     andThen (reads (\<lambda>d. getCtor ts (ttype d) (typeGroup d) (version d))) (\<lambda>r.
     andThen (liftE r) (\<lambda>c.
     andThen (defined JsTypeError c) (\<lambda>ctor.
     andThen (modify (\<lambda>d. d\<lparr>version := Some (versionOr1 d)\<rparr>)) (\<lambda>_.
     ret (tc_class ctor)))))"

section \<open>What the registry keeps\<close>

text \<open>
  Every registered type has a constructor, filed under its own type, group and version, and no
  key belongs to two types.
\<close>

definition filed :: "int \<times> int \<Rightarrow> tx_ctor \<Rightarrow> bool" where
  "filed it c \<longleftrightarrow> (\<exists>t g. tc_type c = Some t \<and> tc_typeGroup c = Some g \<and> internalType t (Some g) = it)"

definition entry_ok :: "int \<times> int \<Rightarrow> (int, tx_ctor) jsmap \<Rightarrow> bool" where
  "entry_ok it m \<longleftrightarrow> m \<noteq> [] \<and> jm_inv m \<and> (\<forall>v c. jm_get m v = Some c \<longrightarrow> tc_version c = v \<and> filed it c)"

definition types_ok :: "tx_types \<Rightarrow> bool" where
  "types_ok ts \<longleftrightarrow> jm_inv ts \<and> (\<forall>it m. jm_get ts it = Some m \<longrightarrow> entry_ok it m)"

lemma types_ok_empty [simp]: "types_ok []"
  by (simp add: types_ok_def)

lemma types_okD: "types_ok ts \<Longrightarrow> jm_get ts it = Some m \<Longrightarrow> entry_ok it m"
  unfolding types_ok_def by blast

lemma entry_values: "entry_ok it m \<Longrightarrow> c \<in> set (jm_values m) \<Longrightarrow> filed it c"
  unfolding entry_ok_def by (metis jm_values_get)

lemma jm_set_nonempty [simp]: "jm_set k v m \<noteq> []"
  by (cases "(k, v, m)" rule: jm_set.cases) auto

lemma entry_ok_set:
  assumes "m = [] \<or> entry_ok it m" and "filed it c"
  shows "entry_ok it (jm_set (tc_version c) c m)"
  using assms by (auto simp: entry_ok_def jm_inv_Cons)

lemma types_ok_set: "types_ok ts \<Longrightarrow> entry_ok it m \<Longrightarrow> types_ok (jm_set it m ts)"
  unfolding types_ok_def by simp

lemma types_ok_delete: "types_ok ts \<Longrightarrow> types_ok (jm_delete it ts)"
  unfolding types_ok_def by simp

lemma updateSchemas_types [simp]: "tr_types (snd (updateSchemas i b R)) = tr_types R"
  by (simp add: updateSchemas_def andThen_def ajvAdd_def ajvRemove_def)

lemma updateSchemas_keeps: "keeps (\<lambda>R. P (tr_types R)) (updateSchemas i b)"
  by (simp add: keeps_def)

text \<open>A type registered or deregistered: its three schemas are with the validator afterwards.\<close>

lemma updateSchemas_Inr:
  assumes "updateSchemas i b R = (Inr u, R')"
  shows "i \<in> set (tr_schemas R')" and "i \<noteq> ''transactions'' \<Longrightarrow> i \<in> set (tr_ajv R')"
  using assms
  by (auto simp: updateSchemas_def andThen_def ajvAdd_def ajvRemove_def split: if_splits)

text \<open>Both operations keep the registry well-formed, on their error paths too.\<close>

lemma register_keeps: "keeps (\<lambda>R. types_ok (tr_types R)) (registerTransactionType c)"
proof (rule keepsI)
  fix R :: tx_registry assume ok: "types_ok (tr_types R)"
  show "types_ok (tr_types (snd (registerTransactionType c R)))"
  proof (cases "tc_type c = None \<or> tc_typeGroup c = None")
    case True
    then show ?thesis using ok by (auto simp: registerTransactionType_def split: option.split)
  next
    case False
    then obtain t g where tg: "tc_type c = Some t" "tc_typeGroup c = Some g" by auto
    let ?it = "internalType t (Some g)"
    have filed: "filed ?it c" using tg by (simp add: filed_def)
    have new: "types_ok (jm_set ?it (jm_set (tc_version c) c m) (tr_types R))"
      if "m = [] \<or> jm_get (tr_types R) ?it = Some m" for m
      using that ok filed by (auto intro!: types_ok_set entry_ok_set dest: types_okD)
    show ?thesis
      using ok tg new new[of "[]"]
      by (auto simp: registerTransactionType_def Let_def andThen_def split: sum.split option.split if_split)
  qed
qed

lemma deregister_keeps: "keeps (\<lambda>R. types_ok (tr_types R)) (deregisterTransactionType c)"
proof (rule keepsI)
  fix R :: tx_registry assume ok: "types_ok (tr_types R)"
  show "types_ok (tr_types (snd (deregisterTransactionType c R)))"
  proof (cases "tc_type c = None \<or> tc_typeGroup c = None")
    case True
    then show ?thesis using ok by (auto simp: deregisterTransactionType_def split: option.split)
  next
    case False
    then obtain t g where tg: "tc_type c = Some t" "tc_typeGroup c = Some g" by auto
    let ?it = "internalType t (Some g)"
    have left: "types_ok (jm_set ?it m' (tr_types R))"
      if "jm_get (tr_types R) ?it = Some m" "m' = jm_delete (tc_version c) m" "m' \<noteq> []" for m m'
      using types_okD[OF ok that(1)] that(2,3) ok by (auto intro!: types_ok_set simp: entry_ok_def split: if_splits)
    obtain r R1 where u: "updateSchemas (tc_schema c) True R = (r, R1)" by fastforce
    have "tr_types R1 = tr_types R" using updateSchemas_types[of "tc_schema c" True R] u by simp
    then show ?thesis
      using ok tg left types_ok_delete[OF ok, of ?it] u
      by (cases r) (auto simp: deregisterTransactionType_def Let_def andThen_def jm_has_def split: option.split if_split)
  qed
qed

text \<open>A registered type is found under its type, group and version.\<close>

lemma register_found:
  assumes "registerTransactionType c R = (Inr u, R')" and "tc_version c \<noteq> 0"
  obtains t g where "tc_type c = Some t" "tc_typeGroup c = Some g"
    "getCtor (tr_types R') t (Some g) (Some (tc_version c)) = Inr (Some c)"
proof -
  obtain t g where tg: "tc_type c = Some t" "tc_typeGroup c = Some g"
    using assms(1) by (auto simp: registerTransactionType_def split: option.splits)
  let ?R = "R\<lparr>tr_types := jm_set (internalType t (Some g))
     (jm_set (tc_version c) c (case jm_get (tr_types R) (internalType t (Some g)) of None \<Rightarrow> [] | Some m \<Rightarrow> m))
     (tr_types R)\<rparr>"
  have "updateSchemas (tc_schema c) False ?R = (Inr u, R')"
    using assms(1) tg
    by (auto simp: registerTransactionType_def Let_def andThen_def split: sum.splits option.splits if_splits)
  then have "tr_types R' = tr_types ?R" using updateSchemas_types[of "tc_schema c" False ?R] by simp
  then show thesis using that[OF tg] assms(2) by (simp add: getCtor_def)
qed

end
