(* ===== verification/ByteBuffer.thy ===== *)
theory ByteBuffer
  imports Types
begin

text \<open>
  packages/utils/source/byte-buffer.ts: a buffer with a read and write offset and a marker. A
  \<open>Buffer\<close> of Node is a list of bytes of fixed length; the number writers of Node throw a
  \<open>RangeError\<close> for a value outside the width and for an offset past the end. On top of it:
  hexadecimal strings, the contracts of writers and readers, and the interface of a codec, proved
  once and interpreted on the number and byte operations.
\<close>

section \<open>Little-endian numbers\<close>

fun leBytes :: "nat \<Rightarrow> int \<Rightarrow> byte list" where
  "leBytes 0 v = []"
| "leBytes (Suc n) v = word_of_int v # leBytes n (v div 256)"

fun leValue :: "byte list \<Rightarrow> int" where
  "leValue [] = 0"
| "leValue (b # bs) = uint b + 256 * leValue bs"

lemma length_leBytes [simp]: "length (leBytes n v) = n"
  by (induction n v rule: leBytes.induct) auto

lemma leValue_leBytes [simp]: "0 \<le> v \<Longrightarrow> v < 256 ^ n \<Longrightarrow> leValue (leBytes n v) = v"
proof (induction n arbitrary: v)
  case (Suc n)
  have "v div 256 < 256 ^ n" using Suc.prems(2) by (simp add: div_less_iff_less_mult mult.commute)
  then have "leValue (leBytes n (v div 256)) = v div 256" using Suc by (simp add: pos_imp_zdiv_nonneg_iff)
  then show ?case by (simp add: uint_word_of_int)
qed simp

lemma leValue_nonneg [simp]: "0 \<le> leValue bs"
  by (induction bs) simp_all

lemma leValue_bound: "leValue bs < 256 ^ length bs"
proof (induction bs)
  case (Cons b bs)
  have "uint b < 256" using uint_lt2p[of b] by simp
  then show ?case using Cons by simp
qed simp

lemma leBytes_leValue [simp]: "leBytes (length bs) (leValue bs) = bs"
proof (induction bs)
  case (Cons b bs)
  have "uint b < 256" using uint_lt2p[of b] by simp
  then have "(uint b + 256 * leValue bs) div 256 = leValue bs" by simp
  moreover have "word_of_int (uint b + 256 * leValue bs) = b"
  proof -
    have zero: "(256 :: byte) = 0" by simp
    have "256 * word_of_int (leValue bs) = (0 :: byte)" by (simp only: zero mult_zero_left)
    then show ?thesis by simp
  qed
  ultimately show ?case using Cons by simp
qed simp

section \<open>The buffer\<close>

record bytebuffer =
  bb_bytes :: "byte list"
  bb_offset :: nat
  bb_marker :: nat

type_synonym 'a bufprog = "(bytebuffer, error, 'a) prog"

definition fromBuffer :: "byte list \<Rightarrow> bytebuffer" where
  "fromBuffer bs = \<lparr>bb_bytes = bs, bb_offset = 0, bb_marker = 0\<rparr>"

definition fromSize :: "nat \<Rightarrow> bytebuffer" where
  "fromSize n = fromBuffer (replicate n 0)"

definition getRemainder :: "bytebuffer \<Rightarrow> byte list" where
  "getRemainder b = drop (bb_offset b) (bb_bytes b)"

definition getRemainderLength :: "bytebuffer \<Rightarrow> int" where
  "getRemainderLength b = int (length (bb_bytes b)) - int (bb_offset b)"

definition getResult :: "bytebuffer \<Rightarrow> byte list" where
  "getResult b = take (bb_offset b) (bb_bytes b)"

definition getResultLength :: "bytebuffer \<Rightarrow> nat" where
  "getResultLength b = bb_offset b"

text \<open>
  The \<open>ArrayBuffer\<close> under a buffer made by \<open>fromSize\<close> is the whole of it, so \<open>toBuffer\<close>
  returns every byte whatever the offset.
\<close>

definition toBuffer :: "bytebuffer \<Rightarrow> byte list" where
  "toBuffer b = bb_bytes b"

text \<open>Bytes over the buffer's bytes from the offset on, and the offset moved past them.\<close>

definition overwrite :: "byte list \<Rightarrow> bytebuffer \<Rightarrow> bytebuffer" where
  "overwrite bs b =
     b\<lparr>bb_bytes := take (bb_offset b) (bb_bytes b) @ bs @ drop (bb_offset b + length bs) (bb_bytes b),
       bb_offset := bb_offset b + length bs\<rparr>"

definition bbAdvance :: "nat \<Rightarrow> bytebuffer \<Rightarrow> bytebuffer" where
  "bbAdvance n b = b\<lparr>bb_offset := bb_offset b + n\<rparr>"

text \<open>\<open>writeUInt8\<close> and its wider forms in Node: the value is checked first, then the bounds.\<close>

definition writeUint :: "nat \<Rightarrow> int \<Rightarrow> unit bufprog" where
  "writeUint n v = (\<lambda>b.
     if v < 0 \<or> 256 ^ n \<le> v then (Inl JsRangeError, b)
     else if length (bb_bytes b) < bb_offset b + n then (Inl JsRangeError, b)
     else (Inr (), overwrite (leBytes n v) b))"

definition readUint :: "nat \<Rightarrow> int bufprog" where
  "readUint n = (\<lambda>b.
     if length (bb_bytes b) < bb_offset b + n then (Inl JsRangeError, b)
     else (Inr (leValue (take n (getRemainder b))), bbAdvance n b))"

definition writeUint8 :: "int \<Rightarrow> unit bufprog" where "writeUint8 v = writeUint 1 v"
definition readUint8 :: "int bufprog" where "readUint8 = readUint 1"
definition writeUint16 :: "int \<Rightarrow> unit bufprog" where "writeUint16 v = writeUint 2 v"
definition readUint16 :: "int bufprog" where "readUint16 = readUint 2"
definition writeUint32 :: "int \<Rightarrow> unit bufprog" where "writeUint32 v = writeUint 4 v"
definition readUint32 :: "int bufprog" where "readUint32 = readUint 4"
definition writeUint64 :: "int \<Rightarrow> unit bufprog" where "writeUint64 v = writeUint 8 v"
definition readUint64 :: "int bufprog" where "readUint64 = readUint 8"

definition writeBytes :: "byte list \<Rightarrow> unit bufprog" where
  "writeBytes bs = (\<lambda>b.
     if int (length bs) > getRemainderLength b then (Inl (PlainError ''Write over buffer boundary.''), b)
     else (Inr (), overwrite bs b))"

definition readBytes :: "nat \<Rightarrow> byte list bufprog" where
  "readBytes n = (\<lambda>b.
     if int n > getRemainderLength b then (Inl (PlainError ''Read over buffer boundary.''), b)
     else (Inr (take n (getRemainder b)), bbAdvance n b))"

definition readHex :: "nat \<Rightarrow> byte list bufprog" where
  "readHex n = readBytes n"

definition mark :: "unit bufprog" where
  "mark = modify (\<lambda>b. b\<lparr>bb_marker := bb_offset b\<rparr>)"

definition reset :: "unit bufprog" where
  "reset = modify (\<lambda>b. b\<lparr>bb_offset := bb_marker b\<rparr>)"

definition skip :: "int \<Rightarrow> unit bufprog" where
  "skip n = (\<lambda>b.
     if n < - int (bb_offset b) \<or> getRemainderLength b < n
     then (Inl (PlainError ''Jump over buffer boundary.''), b)
     else (Inr (), b\<lparr>bb_offset := nat (int (bb_offset b) + n)\<rparr>))"

text \<open>\<open>for (index = 0; index < n; index++) { list.push(read()) }\<close>.\<close>

fun readTimes :: "nat \<Rightarrow> 'a bufprog \<Rightarrow> 'a list bufprog" where
  "readTimes 0 m = ret []"
| "readTimes (Suc n) m = andThen m (\<lambda>x. andThen (readTimes n m) (\<lambda>xs. ret (x # xs)))"

section \<open>Well-formed buffers\<close>

text \<open>The offset and the marker stay inside the buffer, and no operation changes its size.\<close>

definition bb_ok :: "nat \<Rightarrow> bytebuffer \<Rightarrow> bool" where
  "bb_ok n b \<longleftrightarrow> length (bb_bytes b) = n \<and> bb_offset b \<le> n \<and> bb_marker b \<le> n"

lemma bb_ok_fromSize [simp]: "bb_ok n (fromSize n)"
  by (simp add: bb_ok_def fromSize_def fromBuffer_def)

lemma bb_ok_fromBuffer [simp]: "bb_ok (length bs) (fromBuffer bs)"
  by (simp add: bb_ok_def fromBuffer_def)

lemma bb_ok_overwrite: "bb_ok n b \<Longrightarrow> bb_offset b + length bs \<le> n \<Longrightarrow> bb_ok n (overwrite bs b)"
  by (simp add: bb_ok_def overwrite_def)

lemma bb_ok_advance: "bb_ok n b \<Longrightarrow> bb_offset b + k \<le> n \<Longrightarrow> bb_ok n (bbAdvance k b)"
  by (simp add: bb_ok_def bbAdvance_def)

lemma keeps_writeUint [keeps_intros]: "keeps (bb_ok n) (writeUint k v)"
  by (rule keepsI) (auto simp: writeUint_def bb_ok_def overwrite_def)

lemma keeps_readUint [keeps_intros]: "keeps (bb_ok n) (readUint k)"
  by (rule keepsI) (auto simp: readUint_def bb_ok_def bbAdvance_def)

lemma keeps_writeBytes [keeps_intros]: "keeps (bb_ok n) (writeBytes bs)"
  by (rule keepsI) (auto simp: writeBytes_def bb_ok_def overwrite_def getRemainderLength_def)

lemma keeps_readBytes [keeps_intros]: "keeps (bb_ok n) (readBytes k)"
  by (rule keepsI) (auto simp: readBytes_def bb_ok_def bbAdvance_def getRemainderLength_def)

lemma keeps_mark [keeps_intros]: "keeps (bb_ok n) mark"
  by (simp add: mark_def keeps_def bb_ok_def)

lemma keeps_reset [keeps_intros]: "keeps (bb_ok n) reset"
  by (simp add: reset_def keeps_def bb_ok_def)

lemma keeps_skip [keeps_intros]: "keeps (bb_ok n) (skip k)"
  by (rule keepsI) (auto simp: skip_def bb_ok_def getRemainderLength_def)

lemma keeps_readTimes [keeps_intros]: "keeps P m \<Longrightarrow> keeps P (readTimes k m)"
  by (induction k) (auto intro: keeps_intros)

lemmas uint_defs = writeUint8_def writeUint16_def writeUint32_def writeUint64_def
  readUint8_def readUint16_def readUint32_def readUint64_def

section \<open>Contracts of writers and readers\<close>

text \<open>
  \<open>writes m bs\<close>: where the bytes fit, the program writes exactly them. \<open>readsAs m bs x\<close>: where
  the bytes lie ahead, the program consumes exactly them and returns \<open>x\<close>.
\<close>

definition fits :: "nat \<Rightarrow> bytebuffer \<Rightarrow> bool" where
  "fits n b \<longleftrightarrow> bb_offset b + n \<le> length (bb_bytes b)"

definition ahead :: "byte list \<Rightarrow> bytebuffer \<Rightarrow> bool" where
  "ahead bs b \<longleftrightarrow> (\<exists>rest. getRemainder b = bs @ rest) \<and> bb_offset b \<le> length (bb_bytes b)"

definition writes :: "'a bufprog \<Rightarrow> byte list \<Rightarrow> 'a \<Rightarrow> bool" where
  "writes m bs x \<longleftrightarrow> (\<forall>b. fits (length bs) b \<longrightarrow> m b = (Inr x, overwrite bs b))"

text \<open>The buffer after \<open>n\<close> bytes are read; a reader may have left a mark.\<close>

definition moved :: "nat \<Rightarrow> bytebuffer \<Rightarrow> bytebuffer \<Rightarrow> bool" where
  "moved n b b' \<longleftrightarrow> bb_bytes b' = bb_bytes b \<and> bb_offset b' = bb_offset b + n"

definition readsAs :: "'a bufprog \<Rightarrow> byte list \<Rightarrow> 'a \<Rightarrow> bool" where
  "readsAs m bs x \<longleftrightarrow> (\<forall>b. ahead bs b \<longrightarrow> (\<exists>b'. m b = (Inr x, b') \<and> moved (length bs) b b'))"

named_theorems codec_intros \<open>contracts of writers and readers\<close>

lemma writesD: "writes m bs x \<Longrightarrow> fits (length bs) b \<Longrightarrow> m b = (Inr x, overwrite bs b)"
  by (simp add: writes_def)

lemma readsAsE:
  assumes "readsAs m bs x" and "ahead bs b"
  obtains b' where "m b = (Inr x, b')" and "moved (length bs) b b'"
  using assms by (auto simp: readsAs_def)

lemma moved_0 [simp]: "moved 0 b b"
  by (simp add: moved_def)

lemma moved_advance [simp]: "moved n b (bbAdvance n b)"
  by (simp add: moved_def bbAdvance_def)

lemma moved_trans: "moved m a b \<Longrightarrow> moved n b c \<Longrightarrow> moved (m + n) a c"
  by (simp add: moved_def)

lemma overwrite_Nil [simp]: "fits 0 b \<Longrightarrow> overwrite [] b = b"
  by (simp add: overwrite_def)

lemma advance_0 [simp]: "bbAdvance 0 b = b"
  by (simp add: bbAdvance_def)

lemma advance_add [simp]: "bbAdvance m (bbAdvance n b) = bbAdvance (n + m) b"
  by (simp add: bbAdvance_def add.assoc)

lemma overwrite_append:
  "fits (length bs + length cs) b \<Longrightarrow> overwrite cs (overwrite bs b) = overwrite (bs @ cs) b"
  by (simp add: overwrite_def fits_def add.commute add.left_commute)

lemma fits_overwrite [simp]:
  "fits (length bs + n) b \<Longrightarrow> fits n (overwrite bs b)"
  by (simp add: overwrite_def fits_def)

lemma ahead_appendD: "ahead (bs @ cs) b \<Longrightarrow> ahead bs b"
  by (auto simp: ahead_def)

lemma ahead_fits: "ahead bs b \<Longrightarrow> fits (length bs) b"
  by (auto simp: ahead_def fits_def getRemainder_def dest: arg_cong[where f = length])

lemma ahead_moved:
  assumes "ahead (bs @ cs) b" and "moved (length bs) b b'" shows "ahead cs b'"
proof -
  obtain rest where r: "drop (bb_offset b) (bb_bytes b) = bs @ cs @ rest"
    using assms(1) by (auto simp: ahead_def getRemainder_def)
  have "drop (bb_offset b + length bs) (bb_bytes b) = drop (length bs) (drop (bb_offset b) (bb_bytes b))"
    by (simp add: add.commute)
  then show ?thesis using ahead_fits[OF assms(1)] assms(2) r
    by (simp add: ahead_def getRemainder_def moved_def fits_def)
qed

lemma ahead_take: "ahead bs b \<Longrightarrow> take (length bs) (getRemainder b) = bs"
  by (auto simp: ahead_def)

lemma ahead_split:
  assumes "ahead bs b"
  obtains pre rest where "bb_bytes b = pre @ bs @ rest" and "bb_offset b = length pre"
proof -
  obtain rest where "drop (bb_offset b) (bb_bytes b) = bs @ rest"
    using assms by (auto simp: ahead_def getRemainder_def)
  then have "bb_bytes b = take (bb_offset b) (bb_bytes b) @ bs @ rest" by (metis append_take_drop_id)
  moreover have "bb_offset b = length (take (bb_offset b) (bb_bytes b))" using assms by (simp add: ahead_def)
  ultimately show thesis by (rule that)
qed

lemma writes_ret [codec_intros]: "writes (ret x) [] x"
  by (simp add: writes_def)

lemma writes_andThen [codec_intros]:
  assumes "writes m bs x" and "writes (f x) cs y"
  shows "writes (andThen m f) (bs @ cs) y"
proof -
  have "andThen m f b = (Inr y, overwrite (bs @ cs) b)" if fit: "fits (length bs + length cs) b" for b
  proof -
    have "fits (length bs) b" using fit by (simp add: fits_def)
    then have "m b = (Inr x, overwrite bs b)" using assms(1) by (simp add: writes_def)
    moreover have "f x (overwrite bs b) = (Inr y, overwrite cs (overwrite bs b))"
      using assms(2) fit by (simp add: writes_def)
    ultimately show ?thesis using fit by (simp add: andThen_Inr overwrite_append)
  qed
  then show ?thesis by (simp add: writes_def)
qed

lemma readsAs_ret [codec_intros]: "readsAs (ret x) [] x"
  by (simp add: readsAs_def)

lemma readsAs_andThen [codec_intros]:
  assumes "readsAs m bs x" and "readsAs (f x) cs y"
  shows "readsAs (andThen m f) (bs @ cs) y"
  unfolding readsAs_def
proof (intro allI impI)
  fix b assume a: "ahead (bs @ cs) b"
  obtain b1 where m: "m b = (Inr x, b1)" and b1: "moved (length bs) b b1"
    using readsAsE[OF assms(1) ahead_appendD[OF a]] .
  obtain b2 where "f x b1 = (Inr y, b2)" and "moved (length cs) b1 b2"
    using readsAsE[OF assms(2) ahead_moved[OF a b1]] .
  then show "\<exists>b'. andThen m f b = (Inr y, b') \<and> moved (length (bs @ cs)) b b'"
    using m moved_trans[OF b1] by (simp add: andThen_Inr)
qed

lemma readsAs_then_ret:
  assumes "readsAs m bs x" shows "readsAs (andThen m (\<lambda>x. ret (f x))) bs (f x)"
  using readsAs_andThen[of m bs x "\<lambda>x. ret (f x)", OF assms readsAs_ret] by simp

lemma writes_whenever [codec_intros]:
  "(c \<Longrightarrow> writes m bs ()) \<Longrightarrow> writes (whenever c m) (if c then bs else []) ()"
  by (cases c) (simp_all add: whenever_def writes_ret)

lemma writes_cong: "writes m bs x \<Longrightarrow> bs = cs \<Longrightarrow> writes m cs x"
  by simp

lemma readsAs_cong: "readsAs m bs x \<Longrightarrow> bs = cs \<Longrightarrow> x = y \<Longrightarrow> readsAs m cs y"
  by simp

lemma writes_writeUint [codec_intros]:
  "0 \<le> v \<Longrightarrow> v < 256 ^ n \<Longrightarrow> writes (writeUint n v) (leBytes n v) ()"
  by (simp add: writes_def writeUint_def fits_def not_less)

text \<open>A reader of a fixed number of bytes.\<close>

lemma readsAs_fixed:
  assumes "\<And>b. fits (length bs) b \<Longrightarrow> take (length bs) (getRemainder b) = bs \<Longrightarrow> m b = (Inr x, bbAdvance (length bs) b)"
  shows "readsAs m bs x"
  unfolding readsAs_def
proof (intro allI impI)
  fix b assume a: "ahead bs b"
  show "\<exists>b'. m b = (Inr x, b') \<and> moved (length bs) b b'"
    using assms[OF ahead_fits[OF a] ahead_take[OF a]] by simp
qed

lemma readsAs_readUint [codec_intros]: "length bs = n \<Longrightarrow> readsAs (readUint n) bs (leValue bs)"
  by (rule readsAs_fixed) (auto simp: readUint_def fits_def)

lemma writes_writeBytes [codec_intros]: "writes (writeBytes bs) bs ()"
  by (auto simp: writes_def writeBytes_def fits_def getRemainderLength_def)

lemma readsAs_readBytes [codec_intros]: "length bs = n \<Longrightarrow> readsAs (readBytes n) bs bs"
  by (rule readsAs_fixed) (auto simp: readBytes_def fits_def getRemainderLength_def)

text \<open>A writer run on a fresh buffer, and a reader on the bytes written.\<close>

lemma writes_fromSize:
  assumes "writes m bs x" and "length bs \<le> n"
  obtains b where "m (fromSize n) = (Inr x, b)" "getResult b = bs" "getResultLength b = length bs"
    "toBuffer b = bs @ replicate (n - length bs) 0"
proof
  have "fits (length bs) (fromSize n)" using assms(2) by (simp add: fits_def fromSize_def fromBuffer_def)
  then show "m (fromSize n) = (Inr x, overwrite bs (fromSize n))" using assms(1) by (simp add: writes_def)
qed (simp_all add: overwrite_def fromSize_def fromBuffer_def getResult_def getResultLength_def toBuffer_def)

lemma readsAs_fromBuffer:
  assumes "readsAs m bs x"
  obtains b where "m (fromBuffer (bs @ rest)) = (Inr x, b)" "getResult b = bs" "getRemainder b = rest"
    "bb_bytes b = bs @ rest" "bb_offset b = length bs"
proof -
  have "ahead bs (fromBuffer (bs @ rest))" by (simp add: ahead_def fromBuffer_def getRemainder_def)
  then obtain b where "m (fromBuffer (bs @ rest)) = (Inr x, b)" "moved (length bs) (fromBuffer (bs @ rest)) b"
    using readsAsE[OF assms] by blast
  then show thesis using that[of b] by (simp add: moved_def getResult_def getRemainder_def fromBuffer_def)
qed

text \<open>A writer that returns has written inside the buffer: too little room is an error.\<close>

lemma writeUint_full: "\<not> fits n b \<Longrightarrow> writeUint n v b = (Inl JsRangeError, b)"
  by (simp add: writeUint_def fits_def not_le)

lemma writeBytes_full:
  "\<not> fits (length bs) b \<Longrightarrow> writeBytes bs b = (Inl (PlainError ''Write over buffer boundary.''), b)"
  by (simp add: writeBytes_def fits_def getRemainderLength_def not_le)

section \<open>Codecs\<close>

text \<open>
  What the two sides of a format promise each other: on the values the format can hold, the writer
  writes the encoding and the reader returns the value from it.
\<close>

locale codec =
  fixes put :: "'a \<Rightarrow> unit bufprog"
    and get :: "'a bufprog"
    and enc :: "'a \<Rightarrow> byte list"
    and ok :: "'a \<Rightarrow> bool"
  assumes put_writes: "ok x \<Longrightarrow> writes (put x) (enc x) ()"
    and get_reads: "ok x \<Longrightarrow> readsAs get (enc x) x"
begin

lemma round_trip:
  assumes "ok x" and "length (enc x) \<le> n"
  obtains b where "put x (fromSize n) = (Inr (), b)"
    and "fst (get (fromBuffer (getResult b @ rest))) = Inr x"
proof -
  obtain b where "put x (fromSize n) = (Inr (), b)" and "getResult b = enc x"
    using writes_fromSize[OF put_writes[OF assms(1)] assms(2)] by metis
  moreover obtain b' where "get (fromBuffer (enc x @ rest)) = (Inr x, b')"
    using readsAs_fromBuffer[OF get_reads[OF assms(1)], of rest] by metis
  ultimately show thesis using that[of b] by simp
qed

text \<open>No encoding is the start of another: a reader never mistakes one value for another.\<close>

lemma enc_prefix_free:
  assumes "ok x" and "ok y" and "enc x @ r = enc y @ s" shows "x = y \<and> r = s"
proof -
  obtain b where b: "get (fromBuffer (enc x @ r)) = (Inr x, b)"
    using readsAs_fromBuffer[OF get_reads[OF assms(1)], of r] by metis
  obtain c where "get (fromBuffer (enc y @ s)) = (Inr y, c)"
    using readsAs_fromBuffer[OF get_reads[OF assms(2)], of s] by metis
  then have "x = y" using b assms(3) by simp
  then show ?thesis using assms(3) by simp
qed

lemma list_put: "(\<And>x. x \<in> set xs \<Longrightarrow> ok x) \<Longrightarrow> writes (forEach put xs) (concat (map enc xs)) ()"
  by (induction xs) (auto intro!: writes_ret writes_andThen put_writes)

lemma list_get:
  "(\<And>x. x \<in> set xs \<Longrightarrow> ok x) \<Longrightarrow> readsAs (readTimes (length xs) get) (concat (map enc xs)) xs"
proof (induction xs)
  case (Cons x xs)
  have "readsAs (readTimes (length xs) get) (concat (map enc xs)) xs" using Cons by simp
  from readsAs_then_ret[OF this, of "(#) x"]
  show ?case using Cons.prems by (auto intro!: readsAs_andThen get_reads)
qed (simp add: readsAs_ret)

end

text \<open>The numbers a field of \<open>n\<close> bytes can hold.\<close>

definition uint_ok :: "nat \<Rightarrow> int \<Rightarrow> bool" where
  "uint_ok n v \<longleftrightarrow> 0 \<le> v \<and> v < 256 ^ n"

lemma uint_codec: "codec (writeUint n) (readUint n) (leBytes n) (uint_ok n)"
proof
  show "readsAs (readUint n) (leBytes n v) v" if "uint_ok n v" for v
    using readsAs_readUint[of "leBytes n v" n] that by (simp add: uint_ok_def)
qed (simp add: writes_writeUint uint_ok_def)

lemma uint_funs:
  "writeUint8 = writeUint 1" "readUint8 = readUint 1" "writeUint16 = writeUint 2" "readUint16 = readUint 2"
  "writeUint32 = writeUint 4" "readUint32 = readUint 4" "writeUint64 = writeUint 8" "readUint64 = readUint 8"
  by (simp_all add: uint_defs fun_eq_iff)

interpretation u8: codec writeUint8 readUint8 "leBytes 1" "uint_ok 1"
  unfolding uint_funs by (rule uint_codec)

interpretation u16: codec writeUint16 readUint16 "leBytes 2" "uint_ok 2"
  unfolding uint_funs by (rule uint_codec)

interpretation u32: codec writeUint32 readUint32 "leBytes 4" "uint_ok 4"
  unfolding uint_funs by (rule uint_codec)

interpretation u64: codec writeUint64 readUint64 "leBytes 8" "uint_ok 8"
  unfolding uint_funs by (rule uint_codec)

interpretation blob: codec writeBytes "readBytes n" "\<lambda>bs. bs" "\<lambda>bs. length bs = n" for n
  by unfold_locales (auto intro: writes_writeBytes readsAs_readBytes)

section \<open>Hexadecimal strings\<close>

definition hexDigit :: "nat \<Rightarrow> char" where
  "hexDigit n = (if n < 10 then char_of (48 + n) else char_of (87 + n))"

definition digitOf :: "char \<Rightarrow> nat option" where
  "digitOf c = (let n = of_char c :: nat in
     if 48 \<le> n \<and> n \<le> 57 then Some (n - 48)
     else if 97 \<le> n \<and> n \<le> 102 then Some (n - 87)
     else if 65 \<le> n \<and> n \<le> 70 then Some (n - 55)
     else None)"

text \<open>\<open>toString("hex")\<close>, and \<open>Buffer.from(s, "hex")\<close>, which stops at the first pair that is no byte.\<close>

definition hexOf :: "byte list \<Rightarrow> string" where
  "hexOf bs = concat (map (\<lambda>b. [hexDigit (unat b div 16), hexDigit (unat b mod 16)]) bs)"

fun fromHexString :: "string \<Rightarrow> byte list" where
  "fromHexString (c # d # s) = (case (digitOf c, digitOf d) of
     (Some x, Some y) \<Rightarrow> of_nat (16 * x + y) # fromHexString s | _ \<Rightarrow> [])"
| "fromHexString _ = []"

lemma digitOf_hexDigit [simp]: "n < 16 \<Longrightarrow> digitOf (hexDigit n) = Some n"
  by (simp add: digitOf_def hexDigit_def Let_def)

lemma fromHex_hexOf [simp]: "fromHexString (hexOf bs) = bs"
proof (induction bs)
  case (Cons b bs)
  have "unat b < 256" using unsigned_less[of b] by simp
  then have "unat b div 16 < 16" by simp
  then show ?case using Cons by (simp add: hexOf_def)
qed (simp add: hexOf_def)

lemma length_hexOf [simp]: "length (hexOf bs) = 2 * length bs"
  by (induction bs) (simp_all add: hexOf_def)

lemma hexOf_append [simp]: "hexOf (bs @ cs) = hexOf bs @ hexOf cs"
  by (simp add: hexOf_def)

lemma hexOf_inj: "hexOf bs = hexOf cs \<longleftrightarrow> bs = cs"
  by (metis fromHex_hexOf)

text \<open>The strings of the code: lower-case hexadecimal of a whole number of bytes.\<close>

definition isHex :: "nat \<Rightarrow> string \<Rightarrow> bool" where
  "isHex n s \<longleftrightarrow> hexOf (fromHexString s) = s \<and> length s = 2 * n"

lemma isHex_hexOf [simp]: "isHex n (hexOf bs) \<longleftrightarrow> length bs = n"
  by (auto simp: isHex_def)

lemma isHexD: "isHex n s \<Longrightarrow> hexOf (fromHexString s) = s" "isHex n s \<Longrightarrow> length (fromHexString s) = n"
  using length_hexOf[of "fromHexString s"] by (auto simp: isHex_def)

text \<open>\<open>Buffer.from(list.join(""), "hex")\<close> is the concatenation of the decoded elements.\<close>

lemma fromHex_append: "isHex n s \<Longrightarrow> fromHexString (s @ t) = fromHexString s @ fromHexString t"
proof (induction s arbitrary: n rule: fromHexString.induct)
  case (1 c d s)
  obtain x y where xy: "digitOf c = Some x" "digitOf d = Some y"
    using "1.prems" by (auto simp: isHex_def hexOf_def split: option.splits)
  have "hexOf (fromHexString s) = s" using "1.prems" xy by (auto simp: isHex_def hexOf_def)
  then have "isHex (length (fromHexString s)) s" using length_hexOf[of "fromHexString s"] by (simp add: isHex_def)
  from "1.IH"[OF refl xy this] show ?case using xy by simp
qed (auto simp: isHex_def hexOf_def)

lemma fromHex_concat:
  "(\<And>s. s \<in> set ss \<Longrightarrow> isHex n s) \<Longrightarrow> fromHexString (concat ss) = concat (map fromHexString ss)"
proof (induction ss)
  case (Cons s ss)
  have "isHex n s" using Cons.prems by simp
  from fromHex_append[OF this] show ?case using Cons by simp
qed simp

text \<open>A fixed number of bytes as a hexadecimal string.\<close>

definition writeHex :: "string \<Rightarrow> unit bufprog" where
  "writeHex s = writeBytes (fromHexString s)"

definition readHexString :: "nat \<Rightarrow> string bufprog" where
  "readHexString n = andThen (readBytes n) (\<lambda>bs. ret (hexOf bs))"

interpretation hex: codec writeHex "readHexString n" fromHexString "isHex n" for n
proof
  show "writes (writeHex s) (fromHexString s) ()" for s
    unfolding writeHex_def by (rule writes_writeBytes)
  show "readsAs (readHexString n) (fromHexString s) s" if "isHex n s" for s
    using readsAs_then_ret[OF readsAs_readBytes[OF isHexD(2)[OF that]], of hexOf] isHexD(1)[OF that]
    by (simp add: readHexString_def)
qed

end
