(* ===== verification/TxSerializer.thy ===== *)
theory TxSerializer
  imports TxTypes ByteBuffer
begin

text \<open>
  packages/core-crypto-transaction/source/serializer.ts and deserializer.ts, the six transaction
  classes (versions/1.ts of the core-crypto-transaction-* packages), and the serializers of
  addresses, public keys and signatures of the installed crypto packages. The address codec, the
  UTF-8 codec and the hash are parameters, for they are code outside the repository; the bound
  plugins are named by datatypes.
\<close>

section \<open>Addresses, public keys and signatures\<close>

datatype address_format = Base58 | Bech32 | Bech32m | Keccak256 | Ss58
datatype key_format = KeySchnorr | KeyEcdsa | KeyEd25519 | KeyBls
datatype signature_format = SigSchnorr | SigEcdsa | SigEd25519 | SigBls

definition base58_deserialize :: "byte list bufprog" where "base58_deserialize = readBytes 21"
definition bech32_deserialize :: "byte list bufprog" where "bech32_deserialize = readBytes 52"
definition bech32m_deserialize :: "byte list bufprog" where "bech32m_deserialize = readBytes 52"
definition keccak256_deserialize :: "byte list bufprog" where "keccak256_deserialize = readBytes 20"
definition ss58_deserialize :: "byte list bufprog" where "ss58_deserialize = readBytes 32"

text \<open>\<open>AddressSerializer\<close>, and the size bound beside it.\<close>

definition address_serialize :: "byte list \<Rightarrow> unit bufprog" where
  "address_serialize a = writeBytes a"

fun address_deserialize :: "address_format \<Rightarrow> byte list bufprog" where
  "address_deserialize Base58 = base58_deserialize"
| "address_deserialize Bech32 = bech32_deserialize"
| "address_deserialize Bech32m = bech32m_deserialize"
| "address_deserialize Keccak256 = keccak256_deserialize"
| "address_deserialize Ss58 = ss58_deserialize"

fun addressSize :: "address_format \<Rightarrow> nat" where
  "addressSize Base58 = 21"
| "addressSize Bech32 = 52"
| "addressSize Bech32m = 52"
| "addressSize Keccak256 = 20"
| "addressSize Ss58 = 32"

lemmas address_deserialize_defs = base58_deserialize_def bech32_deserialize_def bech32m_deserialize_def
  keccak256_deserialize_def ss58_deserialize_def

lemma address_deserialize_size: "address_deserialize F = readBytes (addressSize F)"
  by (cases F) (simp_all add: address_deserialize_defs)

definition schnorrKey_deserialize :: "byte list bufprog" where "schnorrKey_deserialize = readBytes 32"
definition ecdsaKey_deserialize :: "byte list bufprog" where "ecdsaKey_deserialize = readBytes 33"
definition ed25519Key_deserialize :: "byte list bufprog" where "ed25519Key_deserialize = readBytes 32"
definition blsKey_deserialize :: "byte list bufprog" where "blsKey_deserialize = readBytes 48"

definition publicKey_serialize :: "string \<Rightarrow> unit bufprog" where
  "publicKey_serialize k = writeBytes (fromHexString k)"

fun publicKey_deserialize :: "key_format \<Rightarrow> byte list bufprog" where
  "publicKey_deserialize KeySchnorr = schnorrKey_deserialize"
| "publicKey_deserialize KeyEcdsa = ecdsaKey_deserialize"
| "publicKey_deserialize KeyEd25519 = ed25519Key_deserialize"
| "publicKey_deserialize KeyBls = blsKey_deserialize"

fun publicKeySize :: "key_format \<Rightarrow> nat" where
  "publicKeySize KeySchnorr = 32"
| "publicKeySize KeyEcdsa = 33"
| "publicKeySize KeyEd25519 = 32"
| "publicKeySize KeyBls = 48"

lemma publicKey_deserialize_size: "publicKey_deserialize F = readBytes (publicKeySize F)"
  by (cases F) (simp_all add: schnorrKey_deserialize_def ecdsaKey_deserialize_def
    ed25519Key_deserialize_def blsKey_deserialize_def)

definition schnorrSig_deserialize :: "byte list bufprog" where "schnorrSig_deserialize = readBytes 64"
definition ed25519Sig_deserialize :: "byte list bufprog" where "ed25519Sig_deserialize = readBytes 64"
definition blsSig_deserialize :: "byte list bufprog" where "blsSig_deserialize = readBytes 96"

text \<open>The size of a DER signature is looked up in its second byte, without moving the offset.\<close>

definition ecdsaSignatureSize :: "nat bufprog" where
  "ecdsaSignatureSize =
     andThen mark (\<lambda>_.
     andThen (skip 1) (\<lambda>_.
     andThen (readBytes 1) (\<lambda>bs.
     andThen reset (\<lambda>_.
     ret (nat (leValue bs) + 2)))))"

definition ecdsaSig_deserialize :: "byte list bufprog" where
  "ecdsaSig_deserialize = andThen ecdsaSignatureSize readBytes"

definition signature_serialize :: "string \<Rightarrow> unit bufprog" where
  "signature_serialize s = writeBytes (fromHexString s)"

fun signature_deserialize :: "signature_format \<Rightarrow> byte list bufprog" where
  "signature_deserialize SigSchnorr = schnorrSig_deserialize"
| "signature_deserialize SigEcdsa = ecdsaSig_deserialize"
| "signature_deserialize SigEd25519 = ed25519Sig_deserialize"
| "signature_deserialize SigBls = blsSig_deserialize"

text \<open>The signatures a format can read back.\<close>

fun signatureBytes_ok :: "signature_format \<Rightarrow> byte list \<Rightarrow> bool" where
  "signatureBytes_ok SigSchnorr bs \<longleftrightarrow> length bs = 64"
| "signatureBytes_ok SigEcdsa bs \<longleftrightarrow> 2 \<le> length bs \<and> length bs = unat (bs ! 1) + 2"
| "signatureBytes_ok SigEd25519 bs \<longleftrightarrow> length bs = 64"
| "signatureBytes_ok SigBls bs \<longleftrightarrow> length bs = 96"

lemma readsAs_ecdsaSig: "signatureBytes_ok SigEcdsa bs \<Longrightarrow> readsAs ecdsaSig_deserialize bs bs"
  unfolding readsAs_def
proof (intro allI impI)
  fix b assume ok: "signatureBytes_ok SigEcdsa bs" and ah: "ahead bs b"
  obtain x y zs where bs: "bs = x # y # zs" and len: "length zs = unat y"
    using ok by (cases bs; cases "tl bs") auto
  obtain pre rest where "bb_bytes b = pre @ bs @ rest" "bb_offset b = length pre"
    using ahead_split[OF ah] .
  then obtain k where b: "b = \<lparr>bb_bytes = pre @ x # y # zs @ rest, bb_offset = length pre, bb_marker = k\<rparr>"
    using bs by (cases b) simp
  let ?c = "\<lambda>n. \<lparr>bb_bytes = pre @ x # y # zs @ rest, bb_offset = n, bb_marker = length pre\<rparr>"
  let ?b = "?c (length pre)"
  have m: "mark b = (Inr (), ?b)" using b by (simp add: mark_def)
  have sk: "skip 1 ?b = (Inr (), ?c (length pre + 1))"
    by (simp add: skip_def getRemainderLength_def nat_add_distrib)
  have rd: "readBytes 1 (?c (length pre + 1)) = (Inr [y], ?c (length pre + 2))"
    by (simp add: readBytes_def getRemainderLength_def getRemainder_def bbAdvance_def)
  have rs: "reset (?c (length pre + 2)) = (Inr (), ?b)"
    by (simp add: reset_def)
  have "nat (leValue [y]) = unat y" by simp
  then have size: "ecdsaSignatureSize b = (Inr (unat y + 2), ?b)"
    using m sk rd rs by (simp add: ecdsaSignatureSize_def andThen_def)
  have "ahead bs ?b" using bs by (simp add: ahead_def getRemainder_def)
  moreover have "length bs = unat y + 2" using bs len by simp
  ultimately obtain b' where "readBytes (unat y + 2) ?b = (Inr bs, b')" "moved (length bs) ?b b'"
    using readsAsE[OF readsAs_readBytes] by metis
  then show "\<exists>b'. ecdsaSig_deserialize b = (Inr bs, b') \<and> moved (length bs) b b'"
    using size b by (auto simp: ecdsaSig_deserialize_def andThen_Inr moved_def)
qed

lemma readsAs_signature: "signatureBytes_ok F bs \<Longrightarrow> readsAs (signature_deserialize F) bs bs"
  by (cases F) (simp_all add: schnorrSig_deserialize_def ed25519Sig_deserialize_def blsSig_deserialize_def
    readsAs_readBytes readsAs_ecdsaSig del: signatureBytes_ok.simps(2))

text \<open>The three serializers are codecs on hexadecimal strings.\<close>

definition readPublicKey :: "key_format \<Rightarrow> string bufprog" where
  "readPublicKey F = andThen (publicKey_deserialize F) (\<lambda>bs. ret (hexOf bs))"

definition readSignature :: "signature_format \<Rightarrow> string bufprog" where
  "readSignature F = andThen (signature_deserialize F) (\<lambda>bs. ret (hexOf bs))"

definition signature_ok :: "signature_format \<Rightarrow> string \<Rightarrow> bool" where
  "signature_ok F s \<longleftrightarrow> hexOf (fromHexString s) = s \<and> signatureBytes_ok F (fromHexString s)"

interpretation addressCodec: codec address_serialize "address_deserialize F" "\<lambda>a. a" "\<lambda>a. length a = addressSize F" for F
  by unfold_locales
    (auto simp: address_serialize_def address_deserialize_size intro: writes_writeBytes readsAs_readBytes)

interpretation publicKeyCodec: codec publicKey_serialize "readPublicKey F" fromHexString "isHex (publicKeySize F)" for F
proof
  show "writes (publicKey_serialize s) (fromHexString s) ()" for s
    unfolding publicKey_serialize_def by (rule writes_writeBytes)
  show "readsAs (readPublicKey F) (fromHexString s) s" if "isHex (publicKeySize F) s" for s
    using readsAs_then_ret[OF readsAs_readBytes[OF isHexD(2)[OF that]], of hexOf] isHexD(1)[OF that]
    by (simp add: readPublicKey_def publicKey_deserialize_size)
qed

interpretation signatureCodec: codec signature_serialize "readSignature F" fromHexString "signature_ok F" for F
proof
  show "writes (signature_serialize s) (fromHexString s) ()" for s
    unfolding signature_serialize_def by (rule writes_writeBytes)
  show "readsAs (readSignature F) (fromHexString s) s" if "signature_ok F s" for s
    using readsAs_then_ret[OF readsAs_signature, of F "fromHexString s" hexOf] that
    by (simp add: readSignature_def signature_ok_def)
qed

section \<open>The environment of the transaction classes\<close>

text \<open>
  \<open>te_maxPayload\<close> is \<open>getMilestone(getHeight()).block?.maxPayload\<close>, \<open>te_pubKeyHash\<close> the configured
  \<open>network.pubKeyHash\<close>; \<open>te_validate\<close> is the schema validator: whether there is an error, and the
  value it returns.
\<close>

record tx_env =
  te_types :: tx_types
  te_addressFormat :: address_format
  te_keyFormat :: key_format
  te_signatureFormat :: signature_format
  te_toBuffer :: "string \<Rightarrow> error + byte list"
  te_fromBuffer :: "byte list \<Rightarrow> error + string"
  te_utf8 :: "string \<Rightarrow> byte list"
  te_utf8String :: "byte list \<Rightarrow> string"
  te_maxPayload :: "int option"
  te_pubKeyHash :: int
  te_sha256 :: "byte list \<Rightarrow> byte list"
  te_validate :: "string \<Rightarrow> txdata \<Rightarrow> bool \<times> txdata"
  te_sign :: "byte list \<Rightarrow> byte list \<Rightarrow> error + string"
  te_verify :: "byte list \<Rightarrow> byte list \<Rightarrow> byte list \<Rightarrow> error + bool"

definition te_addressSize :: "tx_env \<Rightarrow> nat" where
  "te_addressSize V = addressSize (te_addressFormat V)"

definition te_publicKeySize :: "tx_env \<Rightarrow> nat" where
  "te_publicKeySize V = publicKeySize (te_keyFormat V)"

text \<open>A buffer of the given size, and the writes into it.\<close>

definition runWriter :: "nat \<Rightarrow> unit bufprog \<Rightarrow> error + bytebuffer" where
  "runWriter n m = (case m (fromSize n) of (Inl e, _) \<Rightarrow> Inl e | (Inr _, b) \<Rightarrow> Inr b)"

section \<open>The six classes\<close>

definition zeroOr :: "int option \<Rightarrow> int" where
  "zeroOr v = (case v of None \<Rightarrow> 0 | Some n \<Rightarrow> n)"

definition transfer_serialize :: "tx_env \<Rightarrow> txdata \<Rightarrow> error + bytebuffer" where
  "transfer_serialize V d = runWriter 64
     (andThen (writeUint64 (amount d)) (\<lambda>_.
      andThen (writeUint32 (zeroOr (expiration d))) (\<lambda>_.
      if truthyStr (recipientId d)
      then andThen (liftE (te_toBuffer V (the (recipientId d)))) address_serialize
      else ret ())))"

definition transfer_deserialize :: "tx_env \<Rightarrow> txdata \<Rightarrow> txdata bufprog" where
  "transfer_deserialize V d =
     andThen readUint64 (\<lambda>a.
     andThen readUint32 (\<lambda>e.
     andThen (address_deserialize (te_addressFormat V)) (\<lambda>bs.
     andThen (liftE (te_fromBuffer V bs)) (\<lambda>r.
     ret (d\<lparr>amount := a, expiration := Some e, recipientId := Some r\<rparr>)))))"

definition registration_serialize :: "tx_env \<Rightarrow> txdata \<Rightarrow> error + bytebuffer option" where
  "registration_serialize V d = (case as_username (asset d) of
       None \<Rightarrow> Inr None
     | Some u \<Rightarrow> (let bs = te_utf8 V u in
         map_sum id Some (runWriter (length bs + 1)
           (andThen (writeUint8 (int (length bs))) (\<lambda>_. writeBytes bs)))))"

definition registration_deserialize :: "tx_env \<Rightarrow> txdata \<Rightarrow> txdata bufprog" where
  "registration_deserialize V d =
     andThen readUint8 (\<lambda>n.
     andThen (readBytes (nat n)) (\<lambda>bs.
     ret (d\<lparr>asset := noAsset\<lparr>as_username := Some (te_utf8String V bs)\<rparr>\<rparr>)))"

definition vote_serialize :: "tx_env \<Rightarrow> txdata \<Rightarrow> error + bytebuffer" where
  "vote_serialize V d = (case (as_votes (asset d), as_unvotes (asset d)) of
       (Some vs, Some us) \<Rightarrow>
         runWriter (1 + 1 + te_publicKeySize V * length vs + te_publicKeySize V * length us)
           (andThen (writeUint8 (int (length vs))) (\<lambda>_.
            andThen (writeBytes (fromHexString (concat vs))) (\<lambda>_.
            andThen (writeUint8 (int (length us))) (\<lambda>_.
            writeBytes (fromHexString (concat us))))))
     | _ \<Rightarrow> Inl JsTypeError)"

definition vote_deserialize :: "tx_env \<Rightarrow> txdata \<Rightarrow> txdata bufprog" where
  "vote_deserialize V d =
     andThen readUint8 (\<lambda>n.
     andThen (readTimes (nat n) (readHexString (te_publicKeySize V))) (\<lambda>vs.
     andThen readUint8 (\<lambda>k.
     andThen (readTimes (nat k) (readHexString (te_publicKeySize V))) (\<lambda>us.
     ret (d\<lparr>asset := noAsset\<lparr>as_votes := Some vs, as_unvotes := Some us\<rparr>\<rparr>)))))"

definition multiSignature_serialize :: "tx_env \<Rightarrow> txdata \<Rightarrow> error + bytebuffer" where
  "multiSignature_serialize V d = (case as_multiSignature (asset d) of
       None \<Rightarrow> Inl JsTypeError
     | Some ms \<Rightarrow> runWriter (2 + length (ms_publicKeys ms) * te_publicKeySize V)
         (andThen (writeUint8 (ms_min ms)) (\<lambda>_.
          andThen (writeUint8 (int (length (ms_publicKeys ms)))) (\<lambda>_.
          forEach writeHex (ms_publicKeys ms)))))"

definition multiSignature_deserialize :: "tx_env \<Rightarrow> txdata \<Rightarrow> txdata bufprog" where
  "multiSignature_deserialize V d =
     andThen readUint8 (\<lambda>m.
     andThen readUint8 (\<lambda>n.
     andThen (readTimes (nat n) (readPublicKey (te_keyFormat V))) (\<lambda>ks.
     ret (d\<lparr>asset := noAsset\<lparr>as_multiSignature := Some \<lparr>ms_min = m, ms_publicKeys = ks\<rparr>\<rparr>\<rparr>))))"

definition writePayment :: "tx_env \<Rightarrow> payment \<Rightarrow> unit bufprog" where
  "writePayment V p =
     andThen (writeUint64 (pay_amount p)) (\<lambda>_.
     andThen (liftE (te_toBuffer V (pay_recipientId p))) writeBytes)"

definition readPayment :: "tx_env \<Rightarrow> payment bufprog" where
  "readPayment V =
     andThen readUint64 (\<lambda>a.
     andThen (address_deserialize (te_addressFormat V)) (\<lambda>bs.
     andThen (liftE (te_fromBuffer V bs)) (\<lambda>r.
     ret \<lparr>pay_amount = a, pay_recipientId = r\<rparr>)))"

definition multiPayment_serialize :: "tx_env \<Rightarrow> txdata \<Rightarrow> error + bytebuffer option" where
  "multiPayment_serialize V d = (case as_payments (asset d) of
       None \<Rightarrow> Inr None
     | Some ps \<Rightarrow> map_sum id Some (runWriter (2 + length ps * te_addressSize V + length ps * 8)
         (andThen (writeUint16 (int (length ps))) (\<lambda>_. forEach (writePayment V) ps))))"

definition multiPayment_deserialize :: "tx_env \<Rightarrow> txdata \<Rightarrow> txdata bufprog" where
  "multiPayment_deserialize V d =
     andThen readUint16 (\<lambda>n.
     andThen (readTimes (nat n) (readPayment V)) (\<lambda>ps.
     ret (d\<lparr>amount := 0, asset := noAsset\<lparr>as_payments := Some ps\<rparr>\<rparr>)))"

definition resignation_serialize :: "error + bytebuffer" where
  "resignation_serialize = Inr (fromSize 0)"

definition resignation_deserialize :: "txdata \<Rightarrow> txdata bufprog" where
  "resignation_deserialize d = ret d"

text \<open>\<open>transaction.serialize()\<close> and \<open>transaction.deserialize(buf)\<close> on the class of the object.\<close>

fun classSerialize :: "tx_env \<Rightarrow> tx_class \<Rightarrow> txdata \<Rightarrow> error + bytebuffer option" where
  "classSerialize V TransferTransaction d = map_sum id Some (transfer_serialize V d)"
| "classSerialize V ValidatorRegistrationTransaction d = registration_serialize V d"
| "classSerialize V VoteTransaction d = map_sum id Some (vote_serialize V d)"
| "classSerialize V MultiSignatureRegistrationTransaction d = map_sum id Some (multiSignature_serialize V d)"
| "classSerialize V MultiPaymentTransaction d = multiPayment_serialize V d"
| "classSerialize V ValidatorResignationTransaction d = map_sum id Some resignation_serialize"

fun classDeserialize :: "tx_env \<Rightarrow> tx_class \<Rightarrow> txdata \<Rightarrow> txdata bufprog" where
  "classDeserialize V TransferTransaction d = transfer_deserialize V d"
| "classDeserialize V ValidatorRegistrationTransaction d = registration_deserialize V d"
| "classDeserialize V VoteTransaction d = vote_deserialize V d"
| "classDeserialize V MultiSignatureRegistrationTransaction d = multiSignature_deserialize V d"
| "classDeserialize V MultiPaymentTransaction d = multiPayment_deserialize V d"
| "classDeserialize V ValidatorResignationTransaction d = resignation_deserialize d"

section \<open>serializer.ts\<close>

record ser_options =
  so_excludeSignature :: "bool option"
  so_excludeMultiSignature :: "bool option"

definition noOptions :: ser_options where
  "noOptions = \<lparr>so_excludeSignature = None, so_excludeMultiSignature = None\<rparr>"

text \<open>The version and the type group the serializer fills in, in the transaction itself.\<close>

definition withDefaults :: "txdata \<Rightarrow> txdata" where
  "withDefaults d = d\<lparr>version := Some (versionOr1 d),
     typeGroup := Some (case typeGroup d of None \<Rightarrow> G_Core | Some g \<Rightarrow> g)\<rparr>"

definition serializeCommon :: "tx_env \<Rightarrow> txdata \<Rightarrow> unit bufprog" where
  "serializeCommon V d =
     andThen (writeUint8 255) (\<lambda>_.
     andThen (writeUint8 (versionOr1 d)) (\<lambda>_.
     andThen (writeUint8 (if truthyNum (network d) then the (network d) else te_pubKeyHash V)) (\<lambda>_.
     andThen (writeUint32 (case typeGroup d of None \<Rightarrow> G_Core | Some g \<Rightarrow> g)) (\<lambda>_.
     andThen (writeUint16 (ttype d)) (\<lambda>_.
     andThen (case nonce d of None \<Rightarrow> ret () | Some n \<Rightarrow> writeUint64 n) (\<lambda>_.
     andThen (if truthyStr (senderPublicKey d) then writeHex (the (senderPublicKey d)) else ret ()) (\<lambda>_.
     writeUint64 (fee d))))))))"

definition serializeVendorField :: "tx_env \<Rightarrow> tx_class \<Rightarrow> txdata \<Rightarrow> unit bufprog" where
  "serializeVendorField V c d =
     (if hasVendorField c \<and> truthyStr (vendorField d)
      then (let vf = te_utf8 V (the (vendorField d)) in
        andThen (writeUint8 (int (length vf))) (\<lambda>_. writeBytes vf))
      else writeUint8 0)"

definition serializeSignatures :: "txdata \<Rightarrow> ser_options \<Rightarrow> unit bufprog" where
  "serializeSignatures d opts =
     andThen (whenever (truthyStr (signature d) \<and> so_excludeSignature opts \<noteq> Some True)
       (writeHex (the (signature d)))) (\<lambda>_.
     whenever (signatures d \<noteq> None \<and> so_excludeMultiSignature opts \<noteq> Some True)
       (writeHex (concat (the (signatures d)))))"

definition txBufferSize :: "tx_env \<Rightarrow> nat" where
  "txBufferSize V = nat (case te_maxPayload V of None \<Rightarrow> 8192 | Some n \<Rightarrow> n)"

definition writeTx :: "tx_env \<Rightarrow> tx_class \<Rightarrow> ser_options \<Rightarrow> txdata \<Rightarrow> unit bufprog" where
  "writeTx V c opts d =
     andThen (serializeCommon V d) (\<lambda>_.
     andThen (serializeVendorField V c d) (\<lambda>_.
     andThen (liftE (classSerialize V c (withDefaults d))) (\<lambda>s.
     andThen (defined (PlainError '''') s) (\<lambda>body.
     andThen (writeBytes (getResult body)) (\<lambda>_.
     serializeSignatures d opts)))))"

text \<open>The bytes are returned and kept in the transaction, whose data has the defaults filled in.\<close>

definition serializeTx :: "tx_env \<Rightarrow> tx_class \<Rightarrow> ser_options \<Rightarrow> (transaction, error, byte list) prog" where
  "serializeTx V c opts = (\<lambda>t.
     let d = withDefaults (data t) in
     (case runWriter (txBufferSize V) (writeTx V c opts (data t)) of
        Inl e \<Rightarrow> (Inl e, t\<lparr>data := d\<rparr>)
      | Inr b \<Rightarrow> (Inr (getResult b), t\<lparr>data := d, serialized := getResult b\<rparr>)))"

section \<open>deserializer.ts\<close>

definition blankTx :: txdata where
  "blankTx = \<lparr>version = None, network = None, typeGroup = None, ttype = 0, nonce = None,
     senderPublicKey = None, fee = 0, amount = 0, expiration = None, recipientId = None,
     asset = noAsset, vendorField = None, tid = None, signature = None, signatures = None\<rparr>"

definition deserializeCommon :: "tx_env \<Rightarrow> txdata bufprog" where
  "deserializeCommon V =
     andThen (skip 1) (\<lambda>_.
     andThen readUint8 (\<lambda>v.
     andThen readUint8 (\<lambda>n.
     andThen readUint32 (\<lambda>g.
     andThen readUint16 (\<lambda>t.
     andThen readUint64 (\<lambda>k.
     andThen (readPublicKey (te_keyFormat V)) (\<lambda>pk.
     andThen readUint64 (\<lambda>f.
     ret (blankTx\<lparr>version := Some v, network := Some n, typeGroup := Some g, ttype := t,
       nonce := Some k, senderPublicKey := Some pk, fee := f\<rparr>)))))))))"

definition deserializeVendorField :: "tx_env \<Rightarrow> tx_class \<Rightarrow> txdata \<Rightarrow> txdata bufprog" where
  "deserializeVendorField V c d =
     andThen readUint8 (\<lambda>n.
     if n > 0 then
       (if hasVendorField c
        then andThen (readBytes (nat n)) (\<lambda>bs. ret (d\<lparr>vendorField := Some (te_utf8String V bs)\<rparr>))
        else andThen (skip n) (\<lambda>_. ret d))
     else ret d)"

definition canReadNonMultiSignature :: "int \<Rightarrow> bool" where
  "canReadNonMultiSignature n \<longleftrightarrow> n \<noteq> 0 \<and> (n mod 64 = 0 \<or> n mod 65 \<noteq> 0)"

definition deserializeSignatures :: "tx_env \<Rightarrow> txdata \<Rightarrow> txdata bufprog" where
  "deserializeSignatures V d =
     andThen (reads getRemainderLength) (\<lambda>n.
     if canReadNonMultiSignature n
     then andThen (readSignature (te_signatureFormat V)) (\<lambda>s. ret (d\<lparr>signature := Some s\<rparr>))
     else ret d)"

definition readTx :: "tx_env \<Rightarrow> txdata bufprog" where
  "readTx V =
     andThen (deserializeCommon V) (\<lambda>d.
     (case createTx (te_types V) d of
        (Inl e, _) \<Rightarrow> throw e
      | (Inr c, d1) \<Rightarrow>
          andThen (deserializeVendorField V c d1) (\<lambda>d2.
          andThen (classDeserialize V c d2) (\<lambda>d3.
          deserializeSignatures V d3))))"

definition deserializeTx :: "tx_env \<Rightarrow> byte list \<Rightarrow> error + transaction" where
  "deserializeTx V bs = (case readTx V (fromBuffer bs) of
       (Inl e, _) \<Rightarrow> Inl e
     | (Inr d, b) \<Rightarrow> Inr \<lparr>data = d, serialized = getResult b\<rparr>)"


end
