(* ===== verification/TxRoundTrip.thy ===== *)
theory TxRoundTrip
  imports TxSerializer
begin

text \<open>
  What the transaction serializer promises: the bytes of a well-formed transaction read back as the
  transaction, whatever its type and whatever signature, key and address plugins are installed.
  Each part of the format is a writer and a reader of the same bytes; the parts compose by the
  rules of \<open>writes\<close> and \<open>readsAs\<close>, and lists go through the codec interface.
\<close>

section \<open>The bytes of a transaction\<close>

definition encCommon :: "txdata \<Rightarrow> byte list" where
  "encCommon d = leBytes 1 255 @ leBytes 1 (the (version d)) @ leBytes 1 (the (network d)) @
     leBytes 4 (the (typeGroup d)) @ leBytes 2 (ttype d) @ leBytes 8 (the (nonce d)) @
     fromHexString (the (senderPublicKey d)) @ leBytes 8 (fee d)"

definition encVendor :: "tx_env \<Rightarrow> tx_class \<Rightarrow> txdata \<Rightarrow> byte list" where
  "encVendor V c d =
     (if hasVendorField c \<and> truthyStr (vendorField d)
      then (let vf = te_utf8 V (the (vendorField d)) in leBytes 1 (int (length vf)) @ vf)
      else leBytes 1 0)"

definition encAddress :: "tx_env \<Rightarrow> string \<Rightarrow> byte list" where
  "encAddress V a = (case te_toBuffer V a of Inl _ \<Rightarrow> [] | Inr bs \<Rightarrow> bs)"

definition encPayment :: "tx_env \<Rightarrow> payment \<Rightarrow> byte list" where
  "encPayment V p = leBytes 8 (pay_amount p) @ encAddress V (pay_recipientId p)"

definition encKeys :: "string list \<Rightarrow> byte list" where
  "encKeys ks = concat (map fromHexString ks)"

fun encBody :: "tx_env \<Rightarrow> tx_class \<Rightarrow> txdata \<Rightarrow> byte list" where
  "encBody V TransferTransaction d =
     leBytes 8 (amount d) @ leBytes 4 (the (expiration d)) @ encAddress V (the (recipientId d))"
| "encBody V ValidatorRegistrationTransaction d =
     (let bs = te_utf8 V (the (as_username (asset d))) in leBytes 1 (int (length bs)) @ bs)"
| "encBody V VoteTransaction d =
     (let vs = the (as_votes (asset d)); us = the (as_unvotes (asset d)) in
       leBytes 1 (int (length vs)) @ encKeys vs @ leBytes 1 (int (length us)) @ encKeys us)"
| "encBody V MultiSignatureRegistrationTransaction d =
     (let ms = the (as_multiSignature (asset d)) in
       leBytes 1 (ms_min ms) @ leBytes 1 (int (length (ms_publicKeys ms))) @ encKeys (ms_publicKeys ms))"
| "encBody V MultiPaymentTransaction d =
     (let ps = the (as_payments (asset d)) in
       leBytes 2 (int (length ps)) @ concat (map (encPayment V) ps))"
| "encBody V ValidatorResignationTransaction d = []"

definition encSignature :: "txdata \<Rightarrow> byte list" where
  "encSignature d = (case signature d of None \<Rightarrow> [] | Some s \<Rightarrow> fromHexString s)"

definition encTx :: "tx_env \<Rightarrow> tx_class \<Rightarrow> txdata \<Rightarrow> byte list" where
  "encTx V c d = encCommon d @ encVendor V c d @ encBody V c d @ encSignature d"

section \<open>Well-formed transactions\<close>

definition common_ok :: "tx_env \<Rightarrow> txdata \<Rightarrow> bool" where
  "common_ok V d \<longleftrightarrow>
     (case version d of None \<Rightarrow> False | Some v \<Rightarrow> 0 < v \<and> uint_ok 1 v) \<and>
     (case network d of None \<Rightarrow> False | Some n \<Rightarrow> 0 < n \<and> uint_ok 1 n) \<and>
     (case typeGroup d of None \<Rightarrow> False | Some g \<Rightarrow> uint_ok 4 g) \<and>
     uint_ok 2 (ttype d) \<and>
     (case nonce d of None \<Rightarrow> False | Some k \<Rightarrow> uint_ok 8 k) \<and>
     (case senderPublicKey d of None \<Rightarrow> False | Some pk \<Rightarrow> isHex (te_publicKeySize V) pk) \<and>
     uint_ok 8 (fee d)"

definition vendor_ok :: "tx_env \<Rightarrow> tx_class \<Rightarrow> txdata \<Rightarrow> bool" where
  "vendor_ok V c d \<longleftrightarrow> (case vendorField d of None \<Rightarrow> True
     | Some s \<Rightarrow> hasVendorField c \<and> s \<noteq> [] \<and> te_utf8 V s \<noteq> [] \<and> length (te_utf8 V s) < 256 \<and>
         te_utf8String V (te_utf8 V s) = s)"

text \<open>An address whose bytes have the size of the format and decode to the address again.\<close>

definition address_ok :: "tx_env \<Rightarrow> string \<Rightarrow> bool" where
  "address_ok V a \<longleftrightarrow> a \<noteq> [] \<and> (case te_toBuffer V a of Inl _ \<Rightarrow> False
     | Inr bs \<Rightarrow> length bs = te_addressSize V \<and> te_fromBuffer V bs = Inr a)"

definition plain :: "txdata \<Rightarrow> tx_asset \<Rightarrow> bool" where
  "plain d a \<longleftrightarrow> amount d = 0 \<and> expiration d = None \<and> recipientId d = None \<and> asset d = a"

fun class_ok :: "tx_env \<Rightarrow> tx_class \<Rightarrow> txdata \<Rightarrow> bool" where
  "class_ok V TransferTransaction d \<longleftrightarrow> asset d = noAsset \<and> uint_ok 8 (amount d) \<and>
     (case expiration d of None \<Rightarrow> False | Some e \<Rightarrow> uint_ok 4 e) \<and>
     (case recipientId d of None \<Rightarrow> False | Some a \<Rightarrow> address_ok V a)"
| "class_ok V ValidatorRegistrationTransaction d \<longleftrightarrow>
     (case as_username (asset d) of None \<Rightarrow> False
      | Some u \<Rightarrow> plain d (noAsset\<lparr>as_username := Some u\<rparr>) \<and> length (te_utf8 V u) < 256 \<and>
          te_utf8String V (te_utf8 V u) = u)"
| "class_ok V VoteTransaction d \<longleftrightarrow>
     (case (as_votes (asset d), as_unvotes (asset d)) of
       (Some vs, Some us) \<Rightarrow> plain d (noAsset\<lparr>as_votes := Some vs, as_unvotes := Some us\<rparr>) \<and>
         length vs < 256 \<and> length us < 256 \<and> (\<forall>k \<in> set vs \<union> set us. isHex (te_publicKeySize V) k)
     | _ \<Rightarrow> False)"
| "class_ok V MultiSignatureRegistrationTransaction d \<longleftrightarrow>
     (case as_multiSignature (asset d) of None \<Rightarrow> False
      | Some ms \<Rightarrow> plain d (noAsset\<lparr>as_multiSignature := Some ms\<rparr>) \<and> uint_ok 1 (ms_min ms) \<and>
          length (ms_publicKeys ms) < 256 \<and> (\<forall>k \<in> set (ms_publicKeys ms). isHex (te_publicKeySize V) k))"
| "class_ok V MultiPaymentTransaction d \<longleftrightarrow>
     (case as_payments (asset d) of None \<Rightarrow> False
      | Some ps \<Rightarrow> plain d (noAsset\<lparr>as_payments := Some ps\<rparr>) \<and> length ps < 65536 \<and>
          (\<forall>p \<in> set ps. uint_ok 8 (pay_amount p) \<and> address_ok V (pay_recipientId p)))"
| "class_ok V ValidatorResignationTransaction d \<longleftrightarrow> plain d noAsset"

text \<open>
  A signature of the installed format, of a length the reader takes for a single signature. Multi-signatures
  are excluded: they are written, but the deserializer does not read them back.
\<close>

definition signed_ok :: "tx_env \<Rightarrow> txdata \<Rightarrow> bool" where
  "signed_ok V d \<longleftrightarrow> signatures d = None \<and> (case signature d of None \<Rightarrow> True
     | Some s \<Rightarrow> s \<noteq> [] \<and> signature_ok (te_signatureFormat V) s \<and>
         canReadNonMultiSignature (int (length (fromHexString s))))"

definition registered :: "tx_env \<Rightarrow> tx_class \<Rightarrow> txdata \<Rightarrow> bool" where
  "registered V c d \<longleftrightarrow> (case getCtor (te_types V) (ttype d) (typeGroup d) (version d) of
     Inr (Some ctor) \<Rightarrow> tc_class ctor = c | _ \<Rightarrow> False)"

definition tx_ok :: "tx_env \<Rightarrow> tx_class \<Rightarrow> txdata \<Rightarrow> bool" where
  "tx_ok V c d \<longleftrightarrow> common_ok V d \<and> vendor_ok V c d \<and> class_ok V c d \<and> signed_ok V d \<and>
     registered V c d \<and> length (encTx V c d) \<le> txBufferSize V"

lemma signature_64_ok: "canReadNonMultiSignature 64" "canReadNonMultiSignature 96"
  by (simp_all add: canReadNonMultiSignature_def)

section \<open>Parts written and read\<close>

lemma runWriter_writes:
  assumes "writes m bs ()" and "length bs \<le> n"
  obtains b where "runWriter n m = Inr b" and "getResult b = bs"
proof -
  obtain b where "m (fromSize n) = (Inr (), b)" "getResult b = bs" using writes_fromSize[OF assms] .
  then show thesis using that[of b] by (simp add: runWriter_def)
qed

lemma writes_seq: "writes m bs () \<Longrightarrow> writes (f ()) cs y \<Longrightarrow> writes (andThen m f) (bs @ cs) y"
  by (rule writes_andThen)

lemma writes_u8: "uint_ok 1 v \<Longrightarrow> writes (writeUint8 v) (leBytes 1 v) ()" by (rule u8.put_writes)
lemma writes_u16: "uint_ok 2 v \<Longrightarrow> writes (writeUint16 v) (leBytes 2 v) ()" by (rule u16.put_writes)
lemma writes_u32: "uint_ok 4 v \<Longrightarrow> writes (writeUint32 v) (leBytes 4 v) ()" by (rule u32.put_writes)
lemma writes_u64: "uint_ok 8 v \<Longrightarrow> writes (writeUint64 v) (leBytes 8 v) ()" by (rule u64.put_writes)

lemmas number_writes = writes_u8 writes_u16 writes_u32 writes_u64
lemmas number_reads = u8.get_reads u16.get_reads u32.get_reads u64.get_reads

lemma uint_ok_length: "n < 256 \<Longrightarrow> uint_ok 1 (int n)" "n < 65536 \<Longrightarrow> uint_ok 2 (int n)"
  by (simp_all add: uint_ok_def)

lemma readsAs_skip: "length bs = nat n \<Longrightarrow> 0 \<le> n \<Longrightarrow> readsAs (skip n) bs ()"
  by (rule readsAs_fixed) (auto simp: skip_def fits_def getRemainderLength_def bbAdvance_def nat_add_distrib)

lemma writes_hex: "writes (writeHex s) (fromHexString s) ()"
  unfolding writeHex_def by (rule writes_writeBytes)

text \<open>The address of a transfer or of a payment.\<close>

lemma address_okE:
  assumes "address_ok V a"
  obtains bs where "te_toBuffer V a = Inr bs" "encAddress V a = bs" "length bs = te_addressSize V"
    "te_fromBuffer V bs = Inr a" "a \<noteq> []"
  using assms by (auto simp: address_ok_def encAddress_def split: sum.splits)

definition readAddress :: "tx_env \<Rightarrow> string bufprog" where
  "readAddress V = andThen (address_deserialize (te_addressFormat V)) (\<lambda>bs. liftE (te_fromBuffer V bs))"

lemma readsAs_address: "address_ok V a \<Longrightarrow> readsAs (readAddress V) (encAddress V a) a"
  unfolding readAddress_def
  by (elim address_okE, rule readsAs_cong[where bs = "encAddress V a @ []", OF readsAs_andThen])
    (auto intro!: readsAs_ret addressCodec.get_reads simp: te_addressSize_def)

lemma writes_address:
  "address_ok V a \<Longrightarrow> writes (andThen (liftE (te_toBuffer V a)) writeBytes) (encAddress V a) ()"
  "address_ok V a \<Longrightarrow> writes (andThen (liftE (te_toBuffer V a)) address_serialize) (encAddress V a) ()"
  by (auto elim!: address_okE intro: writes_writeBytes simp: address_serialize_def)

interpretation payments: codec "writePayment V" "readPayment V" "encPayment V"
    "\<lambda>p. uint_ok 8 (pay_amount p) \<and> address_ok V (pay_recipientId p)" for V
proof
  fix p :: payment assume ok: "uint_ok 8 (pay_amount p) \<and> address_ok V (pay_recipientId p)"
  show "writes (writePayment V p) (encPayment V p) ()"
    unfolding writePayment_def encPayment_def using ok
    by (intro writes_seq number_writes writes_address) auto
  have "readsAs (andThen readUint64 (\<lambda>a. andThen (readAddress V) (\<lambda>r. ret \<lparr>pay_amount = a, pay_recipientId = r\<rparr>)))
      (encPayment V p) p"
    unfolding encPayment_def using ok
    by (intro readsAs_andThen[of _ _ "pay_amount p"] number_reads) (auto intro!: readsAs_cong[OF readsAs_then_ret] readsAs_address)
  then show "readsAs (readPayment V) (encPayment V p) p"
    by (simp add: readPayment_def readAddress_def andThen_assoc)
qed

section \<open>The body of each class\<close>

text \<open>The transaction without what its bytes do not hold: identifier and signatures.\<close>

definition unsignedTx :: "txdata \<Rightarrow> txdata" where
  "unsignedTx d = d\<lparr>tid := None, signature := None, signatures := None\<rparr>"

definition commonPart :: "txdata \<Rightarrow> txdata" where
  "commonPart d = blankTx\<lparr>version := version d, network := network d, typeGroup := typeGroup d,
     ttype := ttype d, nonce := nonce d, senderPublicKey := senderPublicKey d, fee := fee d\<rparr>"

definition headPart :: "txdata \<Rightarrow> txdata" where
  "headPart d = (commonPart d)\<lparr>vendorField := vendorField d\<rparr>"

lemma unsigned_by_parts:
  "unsignedTx d = (headPart d)\<lparr>amount := amount d, expiration := expiration d, recipientId := recipientId d,
     asset := asset d\<rparr>"
  by (cases d) (simp add: unsignedTx_def headPart_def commonPart_def blankTx_def)

lemma headPart_simps [simp]:
  "amount (headPart d) = 0" "expiration (headPart d) = None" "recipientId (headPart d) = None"
  "asset (headPart d) = noAsset"
  by (simp_all add: headPart_def commonPart_def blankTx_def)

lemma record_same [simp]:
  "amount d = x \<Longrightarrow> d\<lparr>amount := x\<rparr> = d" "expiration d = e \<Longrightarrow> d\<lparr>expiration := e\<rparr> = d"
  "recipientId d = r \<Longrightarrow> d\<lparr>recipientId := r\<rparr> = d" "asset d = a \<Longrightarrow> d\<lparr>asset := a\<rparr> = d"
  for d :: txdata
  by (cases d, simp)+

lemma unsigned_plain: "plain d a \<Longrightarrow> unsignedTx d = (headPart d)\<lparr>asset := a\<rparr>"
  by (simp add: unsigned_by_parts plain_def)

lemma keys_written: "(\<And>k. k \<in> set ks \<Longrightarrow> isHex n k) \<Longrightarrow> writes (forEach writeHex ks) (encKeys ks) ()"
  unfolding encKeys_def by (rule hex.list_put)

lemma keys_joined:
  "(\<And>k. k \<in> set ks \<Longrightarrow> isHex n k) \<Longrightarrow> writes (writeBytes (fromHexString (concat ks))) (encKeys ks) ()"
  unfolding encKeys_def using fromHex_concat[of ks n] writes_writeBytes by metis

lemma length_encKeys: "(\<And>k. k \<in> set ks \<Longrightarrow> isHex n k) \<Longrightarrow> length (encKeys ks) = n * length ks"
  by (induction ks) (auto simp: encKeys_def isHexD(2))

lemma length_encPayments:
  "(\<And>p. p \<in> set ps \<Longrightarrow> address_ok V (pay_recipientId p)) \<Longrightarrow>
    length (concat (map (encPayment V) ps)) = length ps * te_addressSize V + length ps * 8"
  by (induction ps) (auto simp: encPayment_def elim: address_okE)

lemma readTimes_nat: "readTimes (nat (int n)) m = readTimes n m"
  by simp

lemma transfer_written:
  assumes "class_ok V TransferTransaction d"
  obtains b where "transfer_serialize V d = Inr b" and "getResult b = encBody V TransferTransaction d"
proof -
  obtain e a where ea: "expiration d = Some e" "uint_ok 4 e" "recipientId d = Some a" "address_ok V a"
    using assms by (auto split: option.splits)
  have "addressSize F \<le> 52" for F by (cases F) auto
  then have "length (encBody V TransferTransaction d) \<le> 64"
    using ea by (auto elim!: address_okE simp: te_addressSize_def)
  moreover have "writes (andThen (writeUint64 (amount d)) (\<lambda>_.
      andThen (writeUint32 (zeroOr (expiration d))) (\<lambda>_.
      if truthyStr (recipientId d) then andThen (liftE (te_toBuffer V (the (recipientId d)))) address_serialize
      else ret ()))) (encBody V TransferTransaction d) ()"
    using assms ea by (auto intro!: writes_andThen number_writes writes_address simp: zeroOr_def elim: address_okE)
  ultimately show thesis using that runWriter_writes unfolding transfer_serialize_def by metis
qed

lemma transfer_read:
  assumes "class_ok V TransferTransaction d"
  shows "readsAs (transfer_deserialize V (headPart d)) (encBody V TransferTransaction d) (unsignedTx d)"
proof -
  obtain e a where ea: "expiration d = Some e" "uint_ok 4 e" "recipientId d = Some a" "address_ok V a"
    using assms by (auto split: option.splits)
  have "readsAs (andThen readUint64 (\<lambda>n. andThen readUint32 (\<lambda>e. andThen (readAddress V) (\<lambda>r.
      ret ((headPart d)\<lparr>amount := n, expiration := Some e, recipientId := Some r\<rparr>)))))
      (encBody V TransferTransaction d) (unsignedTx d)"
    using assms ea
    by (auto simp: unsigned_by_parts intro!: readsAs_andThen number_reads readsAs_cong[OF readsAs_then_ret] readsAs_address)
  then show ?thesis by (simp add: transfer_deserialize_def readAddress_def andThen_assoc)
qed

lemma registration_written:
  assumes "class_ok V ValidatorRegistrationTransaction d"
  obtains b where "registration_serialize V d = Inr (Some b)"
    and "getResult b = encBody V ValidatorRegistrationTransaction d"
proof -
  obtain u where u: "as_username (asset d) = Some u" "length (te_utf8 V u) < 256"
    using assms by (auto split: option.splits)
  have "writes (andThen (writeUint8 (int (length (te_utf8 V u)))) (\<lambda>_. writeBytes (te_utf8 V u)))
      (encBody V ValidatorRegistrationTransaction d) ()"
    using u by (auto simp: Let_def simp del: One_nat_def intro!: writes_seq number_writes writes_writeBytes uint_ok_length)
  moreover have "length (encBody V ValidatorRegistrationTransaction d) \<le> length (te_utf8 V u) + 1"
    using u by (simp add: Let_def)
  ultimately obtain b where b: "runWriter (length (te_utf8 V u) + 1) (andThen (writeUint8 (int (length (te_utf8 V u))))
      (\<lambda>_. writeBytes (te_utf8 V u))) = Inr b" and r: "getResult b = encBody V ValidatorRegistrationTransaction d"
    by (rule runWriter_writes)
  have "registration_serialize V d = Inr (Some b)"
    unfolding registration_serialize_def Let_def u option.case b by simp
  then show thesis using r by (rule that)
qed

lemma registration_read:
  assumes "class_ok V ValidatorRegistrationTransaction d"
  shows "readsAs (registration_deserialize V (headPart d)) (encBody V ValidatorRegistrationTransaction d) (unsignedTx d)"
proof -
  obtain u where u: "as_username (asset d) = Some u" "length (te_utf8 V u) < 256"
    "te_utf8String V (te_utf8 V u) = u" "plain d (noAsset\<lparr>as_username := Some u\<rparr>)"
    using assms by (auto split: option.splits)
  then show ?thesis
    unfolding registration_deserialize_def unsigned_plain[OF u(4)]
    by (auto simp: Let_def simp del: One_nat_def
      intro!: readsAs_andThen number_reads uint_ok_length readsAs_cong[OF readsAs_then_ret] readsAs_readBytes)
qed


lemma vote_written:
  assumes "class_ok V VoteTransaction d"
  obtains b where "vote_serialize V d = Inr b" and "getResult b = encBody V VoteTransaction d"
proof -
  obtain vs us where vu: "as_votes (asset d) = Some vs" "as_unvotes (asset d) = Some us"
    "length vs < 256" "length us < 256" "\<And>k. k \<in> set vs \<Longrightarrow> isHex (te_publicKeySize V) k"
    "\<And>k. k \<in> set us \<Longrightarrow> isHex (te_publicKeySize V) k"
    using assms by (auto split: option.splits)
  have "writes (andThen (writeUint8 (int (length vs))) (\<lambda>_. andThen (writeBytes (fromHexString (concat vs))) (\<lambda>_.
      andThen (writeUint8 (int (length us))) (\<lambda>_. writeBytes (fromHexString (concat us))))))
      (encBody V VoteTransaction d) ()"
    using vu by (auto simp: Let_def simp del: One_nat_def intro!: writes_seq number_writes uint_ok_length keys_joined)
  moreover have "length (encBody V VoteTransaction d) \<le>
      1 + 1 + te_publicKeySize V * length vs + te_publicKeySize V * length us"
    using vu(1,2) length_encKeys[OF vu(5)] length_encKeys[OF vu(6)] by (simp add: Let_def)
  ultimately show thesis
    using that vu(1,2) runWriter_writes unfolding vote_serialize_def by (metis (no_types, lifting) option.case(2) case_prod_conv)
qed

lemma vote_read:
  assumes "class_ok V VoteTransaction d"
  shows "readsAs (vote_deserialize V (headPart d)) (encBody V VoteTransaction d) (unsignedTx d)"
proof -
  obtain vs us where vu: "as_votes (asset d) = Some vs" "as_unvotes (asset d) = Some us"
    "plain d (noAsset\<lparr>as_votes := Some vs, as_unvotes := Some us\<rparr>)"
    "length vs < 256" "length us < 256" "\<And>k. k \<in> set vs \<Longrightarrow> isHex (te_publicKeySize V) k"
    "\<And>k. k \<in> set us \<Longrightarrow> isHex (te_publicKeySize V) k"
    using assms by (auto split: option.splits)
  have keys: "readsAs (readTimes (nat (int (length ks))) (readHexString (te_publicKeySize V))) (encKeys ks) ks"
    if "\<And>k. k \<in> set ks \<Longrightarrow> isHex (te_publicKeySize V) k" for ks
    unfolding encKeys_def readTimes_nat using that by (rule hex.list_get)
  show ?thesis
    unfolding vote_deserialize_def unsigned_plain[OF vu(3)]
    using vu by (auto simp: Let_def simp del: One_nat_def nat_int
      intro!: readsAs_andThen number_reads uint_ok_length readsAs_cong[OF readsAs_then_ret] keys)
qed

lemma multiSignature_written:
  assumes "class_ok V MultiSignatureRegistrationTransaction d"
  obtains b where "multiSignature_serialize V d = Inr b"
    and "getResult b = encBody V MultiSignatureRegistrationTransaction d"
proof -
  obtain ms where ms: "as_multiSignature (asset d) = Some ms" "uint_ok 1 (ms_min ms)"
    "length (ms_publicKeys ms) < 256" "\<And>k. k \<in> set (ms_publicKeys ms) \<Longrightarrow> isHex (te_publicKeySize V) k"
    using assms by (auto split: option.splits)
  have "writes (andThen (writeUint8 (ms_min ms)) (\<lambda>_. andThen (writeUint8 (int (length (ms_publicKeys ms)))) (\<lambda>_.
      forEach writeHex (ms_publicKeys ms)))) (encBody V MultiSignatureRegistrationTransaction d) ()"
    using ms by (auto simp: Let_def simp del: One_nat_def intro!: writes_seq number_writes uint_ok_length keys_written)
  moreover have "length (encBody V MultiSignatureRegistrationTransaction d) \<le>
      2 + length (ms_publicKeys ms) * te_publicKeySize V"
    using ms(1) length_encKeys[OF ms(4)] by (simp add: Let_def)
  ultimately show thesis
    using that ms(1) runWriter_writes unfolding multiSignature_serialize_def by (metis (no_types, lifting) option.case(2))
qed

lemma multiSignature_read:
  assumes "class_ok V MultiSignatureRegistrationTransaction d"
  shows "readsAs (multiSignature_deserialize V (headPart d)) (encBody V MultiSignatureRegistrationTransaction d) (unsignedTx d)"
proof -
  obtain ms where ms: "as_multiSignature (asset d) = Some ms" "plain d (noAsset\<lparr>as_multiSignature := Some ms\<rparr>)"
    "uint_ok 1 (ms_min ms)" "length (ms_publicKeys ms) < 256"
    "\<And>k. k \<in> set (ms_publicKeys ms) \<Longrightarrow> isHex (te_publicKeySize V) k"
    using assms by (auto split: option.splits)
  have keys: "readsAs (readTimes (nat (int (length (ms_publicKeys ms)))) (readPublicKey (te_keyFormat V)))
      (encKeys (ms_publicKeys ms)) (ms_publicKeys ms)"
    unfolding encKeys_def readTimes_nat using ms(5) by (intro publicKeyCodec.list_get) (simp add: te_publicKeySize_def)
  show ?thesis
    unfolding multiSignature_deserialize_def unsigned_plain[OF ms(2)]
    using ms by (auto simp: Let_def simp del: One_nat_def nat_int
      intro!: readsAs_andThen number_reads uint_ok_length readsAs_cong[OF readsAs_then_ret] keys)
qed

lemma multiPayment_written:
  assumes "class_ok V MultiPaymentTransaction d"
  obtains b where "multiPayment_serialize V d = Inr (Some b)"
    and "getResult b = encBody V MultiPaymentTransaction d"
proof -
  obtain ps where ps: "as_payments (asset d) = Some ps" "length ps < 65536"
    "\<And>p. p \<in> set ps \<Longrightarrow> uint_ok 8 (pay_amount p) \<and> address_ok V (pay_recipientId p)"
    using assms by (auto split: option.splits)
  have "writes (andThen (writeUint16 (int (length ps))) (\<lambda>_. forEach (writePayment V) ps))
      (encBody V MultiPaymentTransaction d) ()"
    using ps by (auto simp: Let_def simp del: One_nat_def intro!: writes_seq number_writes uint_ok_length payments.list_put)
  moreover have "length (encBody V MultiPaymentTransaction d) \<le> 2 + length ps * te_addressSize V + length ps * 8"
    using ps length_encPayments[of ps V] by (simp add: Let_def)
  ultimately obtain b where b: "runWriter (2 + length ps * te_addressSize V + length ps * 8)
      (andThen (writeUint16 (int (length ps))) (\<lambda>_. forEach (writePayment V) ps)) = Inr b"
    and r: "getResult b = encBody V MultiPaymentTransaction d"
    by (rule runWriter_writes)
  have "multiPayment_serialize V d = Inr (Some b)"
    unfolding multiPayment_serialize_def ps option.case b by simp
  then show thesis using r by (rule that)
qed

lemma multiPayment_read:
  assumes "class_ok V MultiPaymentTransaction d"
  shows "readsAs (multiPayment_deserialize V (headPart d)) (encBody V MultiPaymentTransaction d) (unsignedTx d)"
proof -
  obtain ps where ps: "as_payments (asset d) = Some ps" "plain d (noAsset\<lparr>as_payments := Some ps\<rparr>)" "length ps < 65536"
    "\<And>p. p \<in> set ps \<Longrightarrow> uint_ok 8 (pay_amount p) \<and> address_ok V (pay_recipientId p)"
    using assms by (auto split: option.splits)
  have list: "readsAs (readTimes (nat (int (length ps))) (readPayment V)) (concat (map (encPayment V) ps)) ps"
    unfolding readTimes_nat using ps(4) by (intro payments.list_get)
  show ?thesis
    unfolding multiPayment_deserialize_def unsigned_plain[OF ps(2)]
    using ps by (auto simp: Let_def simp del: One_nat_def nat_int
      intro!: readsAs_andThen number_reads uint_ok_length readsAs_cong[OF readsAs_then_ret] list)
qed

lemma class_written:
  assumes "class_ok V c d"
  obtains b where "classSerialize V c d = Inr (Some b)" and "getResult b = encBody V c d"
proof (cases c)
  case TransferTransaction
  then show thesis using that transfer_written[of V d] assms by force
next
  case ValidatorRegistrationTransaction
  then show thesis using that registration_written[of V d] assms by force
next
  case VoteTransaction
  then show thesis using that vote_written[of V d] assms by force
next
  case MultiSignatureRegistrationTransaction
  then show thesis using that multiSignature_written[of V d] assms by force
next
  case MultiPaymentTransaction
  then show thesis using that multiPayment_written[of V d] assms by force
next
  case ValidatorResignationTransaction
  then show thesis using that[of "fromSize 0"]
    by (simp add: resignation_serialize_def getResult_def fromSize_def fromBuffer_def)
qed

lemma class_read: "class_ok V c d \<Longrightarrow> readsAs (classDeserialize V c (headPart d)) (encBody V c d) (unsignedTx d)"
proof (induction c)
  case ValidatorResignationTransaction
  then have "unsignedTx d = headPart d" by (simp add: unsigned_plain)
  then show ?case by (simp only: classDeserialize.simps encBody.simps resignation_deserialize_def readsAs_ret)
qed (simp_all only: classDeserialize.simps transfer_read registration_read vote_read multiSignature_read
    multiPayment_read)


section \<open>The whole transaction\<close>

lemma common_okE:
  assumes "common_ok V d"
  obtains v n g k pk where "version d = Some v" "0 < v" "uint_ok 1 v" "network d = Some n" "0 < n" "uint_ok 1 n"
    "typeGroup d = Some g" "uint_ok 4 g" "uint_ok 2 (ttype d)" "nonce d = Some k" "uint_ok 8 k"
    "senderPublicKey d = Some pk" "isHex (te_publicKeySize V) pk" "uint_ok 8 (fee d)"
  using assms by (auto simp: common_ok_def split: option.splits)

lemma publicKeySize_pos: "0 < te_publicKeySize V"
  by (cases "te_keyFormat V") (simp_all add: te_publicKeySize_def)

lemma common_written:
  assumes "common_ok V d" shows "writes (serializeCommon V d) (encCommon d) ()"
  using assms
proof (rule common_okE)
  fix v n g k pk
  assume c: "version d = Some v" "0 < v" "uint_ok 1 v" "network d = Some n" "0 < n" "uint_ok 1 n"
    "typeGroup d = Some g" "uint_ok 4 g" "uint_ok 2 (ttype d)" "nonce d = Some k" "uint_ok 8 k"
    "senderPublicKey d = Some pk" "isHex (te_publicKeySize V) pk" "uint_ok 8 (fee d)"
  have "pk \<noteq> []" using c(13) publicKeySize_pos[of V] by (auto simp: isHex_def)
  then show ?thesis
    unfolding serializeCommon_def encCommon_def using c
    by (auto simp: versionOr1_def simp del: One_nat_def intro!: writes_seq number_writes writes_hex)
      (simp add: uint_ok_def)
qed

lemma common_read:
  assumes "common_ok V d" shows "readsAs (deserializeCommon V) (encCommon d) (commonPart d)"
  using assms
proof (rule common_okE)
  fix v n g k pk
  assume c: "version d = Some v" "0 < v" "uint_ok 1 v" "network d = Some n" "0 < n" "uint_ok 1 n"
    "typeGroup d = Some g" "uint_ok 4 g" "uint_ok 2 (ttype d)" "nonce d = Some k" "uint_ok 8 k"
    "senderPublicKey d = Some pk" "isHex (te_publicKeySize V) pk" "uint_ok 8 (fee d)"
  have "readsAs (skip 1) (leBytes 1 255) ()" by (rule readsAs_skip) simp_all
  then show ?thesis
    unfolding deserializeCommon_def encCommon_def using c
    by (auto simp: commonPart_def te_publicKeySize_def simp del: One_nat_def
      intro!: readsAs_andThen number_reads publicKeyCodec.get_reads readsAs_cong[OF readsAs_then_ret])
qed


lemma vendor_written: "vendor_ok V c d \<Longrightarrow> writes (serializeVendorField V c d) (encVendor V c d) ()"
  unfolding serializeVendorField_def encVendor_def
  by (auto simp: vendor_ok_def Let_def uint_ok_def truthyStr_def simp del: One_nat_def split: option.splits
    intro!: writes_seq number_writes writes_writeBytes uint_ok_length)

lemma vendor_read:
  assumes "vendor_ok V c d"
  shows "readsAs (deserializeVendorField V c (commonPart d)) (encVendor V c d) (headPart d)"
proof (cases "vendorField d")
  case None
  then have "headPart d = commonPart d" by (simp add: headPart_def commonPart_def blankTx_def)
  moreover have "readsAs readUint8 (leBytes 1 0) 0" by (rule u8.get_reads) (simp add: uint_ok_def)
  ultimately have "readsAs (deserializeVendorField V c (commonPart d)) (leBytes 1 0 @ []) (headPart d)"
    unfolding deserializeVendorField_def
    by (intro readsAs_andThen[where x = 0]) (simp_all only: less_irrefl if_False readsAs_ret)
  then show ?thesis using None by (simp add: encVendor_def)
next
  case (Some s)
  then have s: "hasVendorField c" "s \<noteq> []" "te_utf8 V s \<noteq> []" "length (te_utf8 V s) < 256"
      "te_utf8String V (te_utf8 V s) = s"
    using assms by (auto simp: vendor_ok_def)
  have pos: "0 < int (length (te_utf8 V s))" using s(3) by simp
  have "readsAs readUint8 (leBytes 1 (int (length (te_utf8 V s)))) (int (length (te_utf8 V s)))"
    using s(4) by (intro u8.get_reads uint_ok_length)
  moreover have "readsAs (andThen (readBytes (nat (int (length (te_utf8 V s)))))
      (\<lambda>bs. ret ((commonPart d)\<lparr>vendorField := Some (te_utf8String V bs)\<rparr>))) (te_utf8 V s) (headPart d)"
    by (rule readsAs_cong[OF readsAs_then_ret[OF readsAs_readBytes[of "te_utf8 V s"]]])
      (simp_all add: s headPart_def Some)
  ultimately have "readsAs (deserializeVendorField V c (commonPart d))
      (leBytes 1 (int (length (te_utf8 V s))) @ te_utf8 V s) (headPart d)"
    unfolding deserializeVendorField_def using s(1) pos
    by (intro readsAs_andThen[where x = "int (length (te_utf8 V s))"]) (simp_all only: if_True)
  then show ?thesis using s Some by (simp add: encVendor_def Let_def)
qed

lemma signatures_written:
  assumes "signed_ok V d" and "opts = noOptions"
  shows "writes (serializeSignatures d opts) (encSignature d) ()"
proof -
  have "writes (serializeSignatures d opts) ((if truthyStr (signature d) \<and> so_excludeSignature opts \<noteq> Some True
      then fromHexString (the (signature d)) else []) @ []) ()"
    unfolding serializeSignatures_def
    by (rule writes_seq[OF writes_whenever[OF writes_hex]])
      (use assms in \<open>simp add: whenever_def signed_ok_def writes_ret\<close>)
  then show ?thesis using assms
    by (auto simp: signed_ok_def noOptions_def encSignature_def truthyStr_def split: option.splits)
qed

text \<open>The signature is read from the end of the buffer: nothing may follow it.\<close>

lemma signatures_read:
  assumes "signed_ok V d" and "getRemainder b = encSignature d" and "bb_offset b \<le> length (bb_bytes b)"
  obtains b' where "deserializeSignatures V (unsignedTx d) b = (Inr (d\<lparr>tid := None\<rparr>), b')"
    and "bb_bytes b' = bb_bytes b" and "bb_offset b' = length (bb_bytes b)"
proof -
  have sigs: "signatures d = None" using assms(1) by (simp add: signed_ok_def)
  have len: "getRemainderLength b = int (length (encSignature d))"
    using assms(2,3) by (metis getRemainderLength_def getRemainder_def length_drop of_nat_diff)
  show thesis
  proof (cases "signature d")
    case None
    then have "unsignedTx d = d\<lparr>tid := None\<rparr>" using sigs by (cases d) (simp add: unsignedTx_def)
    moreover have "getRemainderLength b = 0" using len None by (simp add: encSignature_def)
    moreover have "deserializeSignatures V (unsignedTx d) b = (Inr (unsignedTx d), b)"
      using calculation(2) by (simp add: deserializeSignatures_def canReadNonMultiSignature_def)
    ultimately show thesis using that[of b] assms(3) by (simp only: getRemainderLength_def)
  next
    case (Some s)
    let ?bs = "fromHexString s"
    have s: "signature_ok (te_signatureFormat V) s" "canReadNonMultiSignature (int (length ?bs))"
      using assms(1) Some by (auto simp: signed_ok_def)
    have enc: "encSignature d = ?bs" using Some by (simp add: encSignature_def)
    have "ahead ?bs b" using assms(2,3) enc by (simp add: ahead_def)
    then obtain b' where b': "readSignature (te_signatureFormat V) b = (Inr s, b')" "moved (length ?bs) b b'"
      using readsAsE[OF signatureCodec.get_reads[OF s(1)]] by blast
    have "(unsignedTx d)\<lparr>signature := Some s\<rparr> = d\<lparr>tid := None\<rparr>"
      using sigs Some by (cases d) (simp add: unsignedTx_def)
    then have "deserializeSignatures V (unsignedTx d) b = (Inr (d\<lparr>tid := None\<rparr>), b')"
      using s(2) b'(1) len enc by (simp add: deserializeSignatures_def andThen_def)
    moreover have "bb_offset b' = length (bb_bytes b)"
      using b'(2) len enc by (simp add: moved_def getRemainderLength_def)
    ultimately show thesis using that[of b'] b'(2) by (simp add: moved_def)
  qed
qed

lemma createTx_commonPart:
  assumes "common_ok V d" and "registered V c d"
  shows "createTx (te_types V) (commonPart d) = (Inr c, commonPart d)"
proof -
  obtain v where v: "version d = Some v" "0 < v" using assms(1) by (rule common_okE)
  then have "(commonPart d)\<lparr>version := Some (versionOr1 (commonPart d))\<rparr> = commonPart d"
    by (simp add: commonPart_def versionOr1_def)
  then show ?thesis using assms(2) v
    by (auto simp: createTx_def registered_def commonPart_def blankTx_def split: sum.splits option.splits)
qed

lemma withDefaults_same: "common_ok V d \<Longrightarrow> withDefaults d = d"
  by (cases d) (auto simp: common_ok_def withDefaults_def versionOr1_def split: option.splits)

lemma tx_written:
  assumes "tx_ok V c d" shows "writes (writeTx V c noOptions d) (encTx V c d) ()"
proof -
  obtain b where b: "classSerialize V c d = Inr (Some b)" "getResult b = encBody V c d"
    using class_written[of V c d] assms by (auto simp: tx_ok_def)
  have d: "withDefaults d = d" using withDefaults_same assms by (auto simp: tx_ok_def)
  have "writes (andThen (writeBytes (encBody V c d)) (\<lambda>_. serializeSignatures d noOptions))
      (encBody V c d @ encSignature d) ()"
    by (rule writes_seq[OF writes_writeBytes signatures_written[of V]]) (use assms in \<open>simp_all add: tx_ok_def\<close>)
  then have tail: "writes (andThen (liftE (classSerialize V c (withDefaults d)))
      (\<lambda>s. andThen (defined (PlainError '''') s) (\<lambda>body. andThen (writeBytes (getResult body))
      (\<lambda>_. serializeSignatures d noOptions)))) (encBody V c d @ encSignature d) ()"
    using b d by simp
  have "writes (andThen (serializeVendorField V c d) (\<lambda>_. andThen (liftE (classSerialize V c (withDefaults d)))
      (\<lambda>s. andThen (defined (PlainError '''') s) (\<lambda>body. andThen (writeBytes (getResult body))
      (\<lambda>_. serializeSignatures d noOptions))))) (encVendor V c d @ encBody V c d @ encSignature d) ()"
    by (rule writes_seq[OF vendor_written tail]) (use assms in \<open>simp add: tx_ok_def\<close>)
  then show ?thesis
    unfolding writeTx_def encTx_def
    using assms \<open>writes (andThen (serializeVendorField V c d) _) _ _\<close>
    by (intro writes_seq[OF common_written]) (simp_all add: tx_ok_def)
qed

text \<open>The serializer fills the transaction with exactly the encoding.\<close>

lemma serializeTx_run:
  assumes "tx_ok V c (data t)"
  shows "serializeTx V c noOptions t = (Inr (encTx V c (data t)), t\<lparr>serialized := encTx V c (data t)\<rparr>)"
proof -
  obtain b where "runWriter (txBufferSize V) (writeTx V c noOptions (data t)) = Inr b" "getResult b = encTx V c (data t)"
    using runWriter_writes[OF tx_written[OF assms], of "txBufferSize V"] assms by (auto simp: tx_ok_def)
  moreover have "withDefaults (data t) = data t" using withDefaults_same assms by (auto simp: tx_ok_def)
  ultimately show ?thesis by (simp add: serializeTx_def Let_def)
qed

text \<open>Reading the encoding back gives the transaction, up to the identifier it does not hold.\<close>

lemma deserializeTx_enc:
  assumes ok: "tx_ok V c d"
  shows "deserializeTx V (encTx V c d) = Inr \<lparr>data = d\<lparr>tid := None\<rparr>, serialized = encTx V c d\<rparr>"
proof -
  have parts: "common_ok V d" "vendor_ok V c d" "class_ok V c d" "signed_ok V d" "registered V c d"
    using ok by (simp_all add: tx_ok_def)
  define body where "body = (\<lambda>d1. andThen (deserializeVendorField V c d1) (classDeserialize V c))"
  have "readsAs (andThen (deserializeCommon V) body) (encCommon d @ encVendor V c d @ encBody V c d) (unsignedTx d)"
    unfolding body_def
    by (intro readsAs_andThen[OF common_read] readsAs_andThen[OF vendor_read] class_read parts)
  then obtain b where b: "andThen (deserializeCommon V) body (fromBuffer (encTx V c d)) = (Inr (unsignedTx d), b)"
      "bb_bytes b = encTx V c d" "getRemainder b = encSignature d" "bb_offset b \<le> length (bb_bytes b)"
    using readsAs_fromBuffer[where rest = "encSignature d"] unfolding encTx_def
    by (metis append.assoc length_append le_add1)
  obtain b' where b': "deserializeSignatures V (unsignedTx d) b = (Inr (d\<lparr>tid := None\<rparr>), b')"
      "bb_bytes b' = encTx V c d" "bb_offset b' = length (encTx V c d)"
    using signatures_read[OF parts(4) b(3,4)] b(2) by metis
  have "readTx V (fromBuffer (encTx V c d)) = (Inr (d\<lparr>tid := None\<rparr>), b')"
  proof -
    obtain b1 where b1: "deserializeCommon V (fromBuffer (encTx V c d)) = (Inr (commonPart d), b1)"
      using readsAs_fromBuffer[OF common_read[OF parts(1)]] unfolding encTx_def by metis
    then have "andThen (deserializeVendorField V c (commonPart d)) (classDeserialize V c) b1 = (Inr (unsignedTx d), b)"
      using b(1) by (simp add: andThen_Inr body_def)
    then obtain d2 b2 where "deserializeVendorField V c (commonPart d) b1 = (Inr d2, b2)"
        "classDeserialize V c d2 b2 = (Inr (unsignedTx d), b)"
      by (rule andThen_InrE)
    then show ?thesis
      using b1 b'(1) createTx_commonPart[OF parts(1,5)] by (simp add: readTx_def andThen_def)
  qed
  then show ?thesis using b' by (simp add: deserializeTx_def getResult_def)
qed


end
