(* ===== verification/TxFactory.thy ===== *)
theory TxFactory
  imports TxRoundTrip
begin

text \<open>
  packages/core-crypto-transaction/source: utils.ts (bytes, hash and identifier of a transaction),
  verifier.ts, signer.ts and factory.ts. A call that is handed a transaction's data changes it in
  place (the version, the type group), so these are programs on the data.
\<close>

type_synonym 'a dataprog = "(txdata, error, 'a) prog"

section \<open>Bytes, hash and identifier (serializer.ts, utils.ts)\<close>

definition serializeData :: "tx_env \<Rightarrow> tx_class \<Rightarrow> ser_options \<Rightarrow> byte list dataprog" where
  "serializeData V c opts = (\<lambda>d. case serializeTx V c opts \<lparr>data = d, serialized = []\<rparr> of (r, t) \<Rightarrow> (r, data t))"

text \<open>The version is at least 1 by the default, so \<open>TransactionVersionError\<close> is never thrown.\<close>

definition getBytes :: "tx_env \<Rightarrow> ser_options \<Rightarrow> byte list dataprog" where
  "getBytes V opts =
     andThen (reads versionOr1) (\<lambda>v.
     if v \<noteq> 0 then andThen (createTx (te_types V)) (\<lambda>c. serializeData V c opts)
     else throw (CryptoError (TransactionVersionError v)))"

definition toBytes :: "tx_env \<Rightarrow> byte list dataprog" where
  "toBytes V = andThen (createTx (te_types V)) (\<lambda>c. serializeData V c noOptions)"

definition toHash :: "tx_env \<Rightarrow> ser_options \<Rightarrow> byte list dataprog" where
  "toHash V opts = andThen (getBytes V opts) (\<lambda>bs. ret (te_sha256 V bs))"

definition getId :: "tx_env \<Rightarrow> ser_options \<Rightarrow> string dataprog" where
  "getId V opts = andThen (toHash V opts) (\<lambda>h. ret (hexOf h))"

section \<open>verifier.ts\<close>

text \<open>\<open>Number.parseInt(s, 16)\<close>; \<open>None\<close> is \<open>NaN\<close>.\<close>

definition isJsSpace :: "char \<Rightarrow> bool" where
  "isJsSpace c \<longleftrightarrow> (of_char c :: nat) \<in> {9, 10, 11, 12, 13, 32, 160}"

fun stripPrefix16 :: "string \<Rightarrow> string" where
  "stripPrefix16 (c # d # s) = (if c = CHR ''0'' \<and> (d = CHR ''x'' \<or> d = CHR ''X'') then s else c # d # s)"
| "stripPrefix16 s = s"

definition unsignedHex :: "string \<Rightarrow> int option" where
  "unsignedHex s = (let ds = takeWhile (\<lambda>x. x \<noteq> None) (map digitOf (stripPrefix16 s)) in
     if ds = [] then None else Some (fold (\<lambda>x a. 16 * a + int (the x)) ds 0))"

definition parseHexInt :: "string \<Rightarrow> int option" where
  "parseHexInt s = (case dropWhile isJsSpace s of
       [] \<Rightarrow> None
     | c # t \<Rightarrow> if c = CHR ''-'' then map_option uminus (unsignedHex t)
               else if c = CHR ''+'' then unsignedHex t
               else unsignedHex (c # t))"

definition publicKeyAt :: "string list \<Rightarrow> int option \<Rightarrow> string option" where
  "publicKeyAt ks p = (case p of None \<Rightarrow> None
     | Some i \<Rightarrow> if 0 \<le> i \<and> i < int (length ks) then Some (ks ! nat i) else None)"

definition participant :: "string \<Rightarrow> int option" where
  "participant s = parseHexInt (take 2 s)"

definition partialSignature :: "string \<Rightarrow> byte list" where
  "partialSignature s = fromHexString (take 128 (drop 2 s))"

text \<open>
  The loop over the signatures: \<open>n\<close> is their number, \<open>i\<close> the index, \<open>seen\<close> the participants
  met, \<open>k\<close> the signatures verified so far. A key that is not there throws in \<open>Buffer.from\<close>.
\<close>

fun signatureLoop :: "tx_env \<Rightarrow> byte list \<Rightarrow> string list \<Rightarrow> int \<Rightarrow> int \<Rightarrow> int \<Rightarrow> int option list \<Rightarrow> int \<Rightarrow>
    string list \<Rightarrow> error + bool" where
  "signatureLoop V h ks m n i seen k [] = Inr False"
| "signatureLoop V h ks m n i seen k (s # ss) =
     (if participant s \<in> set seen then Inl (CryptoError DuplicateParticipantInMultiSignatureError)
      else case publicKeyAt ks (participant s) of None \<Rightarrow> Inl JsTypeError
      | Some key \<Rightarrow>
         (case te_verify V h (partialSignature s) (fromHexString key) of Inl e \<Rightarrow> Inl e
          | Inr ok \<Rightarrow>
             (let k' = (if ok then k + 1 else k) in
              if k' = m then Inr True
              else if n - (i + 1 - k') < m then Inr False
              else signatureLoop V h ks m n (i + 1) (participant s # seen) k' ss)))"

definition excludeBoth :: ser_options where
  "excludeBoth = \<lparr>so_excludeSignature = Some True, so_excludeMultiSignature = Some True\<rparr>"

definition tx_verifySignatures :: "tx_env \<Rightarrow> multisig_asset option \<Rightarrow> bool dataprog" where
  "tx_verifySignatures V multi =
     andThen (defined (CryptoError InvalidMultiSignatureAssetError) multi) (\<lambda>ms.
     andThen (reads signatures) (\<lambda>sigs.
     andThen (toHash V excludeBoth) (\<lambda>h.
     case sigs of None \<Rightarrow> ret False
     | Some ss \<Rightarrow> liftE (signatureLoop V h (ms_publicKeys ms) (ms_min ms) (int (length ss)) 0 [] 0 ss))))"

definition tx_verifyHash :: "tx_env \<Rightarrow> bool dataprog" where
  "tx_verifyHash V =
     andThen (reads (\<lambda>d. (signature d, senderPublicKey d))) (\<lambda>(s, pk).
     if \<not> truthyStr s \<or> \<not> truthyStr pk then ret False
     else andThen (toHash V \<lparr>so_excludeSignature = Some True, so_excludeMultiSignature = None\<rparr>) (\<lambda>h.
       liftE (te_verify V h (fromHexString (the s)) (fromHexString (the pk)))))"

text \<open>The validator's answer: whether there is an error, and the value.\<close>

definition verifySchema :: "tx_env \<Rightarrow> txdata \<Rightarrow> bool \<Rightarrow> error + bool \<times> txdata" where
  "verifySchema V d strict = (case getCtor (te_types V) (ttype d) (typeGroup d) (version d) of
       Inl e \<Rightarrow> Inl e
     | Inr None \<Rightarrow> Inl (PlainError ''Unknown transaction type'')
     | Inr (Some c) \<Rightarrow> Inr (te_validate V (if strict then tc_schema c @ ''Strict'' else tc_schema c) d))"

section \<open>signer.ts\<close>

record key_pair =
  kp_publicKey :: string
  kp_privateKey :: string

definition tx_sign :: "tx_env \<Rightarrow> key_pair \<Rightarrow> ser_options option \<Rightarrow> string dataprog" where
  "tx_sign V keys options =
     (let opts = (case options of
          None \<Rightarrow> noOptions\<lparr>so_excludeSignature := Some True\<rparr>
        | Some o1 \<Rightarrow> if so_excludeSignature o1 = None then o1\<lparr>so_excludeSignature := Some True\<rparr> else o1) in
     andThen (toHash V opts) (\<lambda>h.
     andThen (liftE (te_sign V h (fromHexString (kp_privateKey keys)))) (\<lambda>s.
     andThen (reads signature) (\<lambda>old.
     andThen (whenever (\<not> truthyStr old \<and> so_excludeMultiSignature opts \<noteq> Some True)
       (modify (\<lambda>d. d\<lparr>signature := Some s\<rparr>))) (\<lambda>_.
     ret s)))))"

text \<open>\<open>numberToHex\<close> of utils: padded to two digits; a negative repeat count is a \<open>RangeError\<close>.\<close>

fun hexNat :: "nat \<Rightarrow> string" where
  "hexNat n = (if n < 16 then [hexDigit n] else hexNat (n div 16) @ [hexDigit (n mod 16)])"

declare hexNat.simps [simp del]

definition toString16 :: "int \<Rightarrow> string" where
  "toString16 n = (if n < 0 then CHR ''-'' # hexNat (nat (- n)) else hexNat (nat n))"

definition numberToHex :: "int \<Rightarrow> nat \<Rightarrow> error + string" where
  "numberToHex n padding = (let s = toString16 n in
     if padding < length s then Inl JsRangeError
     else Inr (replicate (padding - length s) (CHR ''0'') @ s))"

definition tx_multiSign :: "tx_env \<Rightarrow> key_pair \<Rightarrow> int \<Rightarrow> string dataprog" where
  "tx_multiSign V keys index =
     andThen (modify (\<lambda>d. if signatures d = None then d\<lparr>signatures := Some []\<rparr> else d)) (\<lambda>_.
     andThen (reads (\<lambda>d. if index = - 1 then int (length (the (signatures d))) else index)) (\<lambda>i.
     andThen (toHash V excludeBoth) (\<lambda>h.
     andThen (liftE (te_sign V h (fromHexString (kp_privateKey keys)))) (\<lambda>s.
     andThen (liftE (numberToHex i 2)) (\<lambda>ix.
     andThen (modify (\<lambda>d. d\<lparr>signatures := Some (the (signatures d) @ [ix @ s])\<rparr>)) (\<lambda>_.
     ret (ix @ s)))))))"

section \<open>factory.ts\<close>

definition keepsError :: "error \<Rightarrow> bool" where
  "keepsError e \<longleftrightarrow> (case e of
     CryptoError (TransactionVersionError _) \<Rightarrow> True
   | CryptoError TransactionSchemaError \<Rightarrow> True
   | CryptoError DuplicateParticipantInMultiSignatureError \<Rightarrow> True
   | _ \<Rightarrow> False)"

definition readSerialized :: "tx_env \<Rightarrow> byte list \<Rightarrow> bool \<Rightarrow> error + transaction" where
  "readSerialized V bs strict = (case deserializeTx V bs of
       Inl e \<Rightarrow> Inl e
     | Inr t \<Rightarrow>
        (case getId V noOptions (data t) of
           (Inl e, _) \<Rightarrow> Inl e
         | (Inr i, d) \<Rightarrow>
            (let t' = t\<lparr>data := d\<lparr>tid := Some i\<rparr>\<rparr> in
             (case verifySchema V (data t') strict of
                Inl e \<Rightarrow> Inl e
              | Inr (bad, _) \<Rightarrow> if bad then Inl (CryptoError TransactionSchemaError) else Inr t'))))"

definition fromSerialized :: "tx_env \<Rightarrow> string \<Rightarrow> bool \<Rightarrow> error + transaction" where
  "fromSerialized V s strict = (case readSerialized V (fromHexString s) strict of
       Inr t \<Rightarrow> Inr t
     | Inl e \<Rightarrow> if keepsError e then Inl e else Inl (CryptoError InvalidTransactionBytesError))"

definition tx_fromHex :: "tx_env \<Rightarrow> string \<Rightarrow> error + transaction" where
  "tx_fromHex V s = fromSerialized V s True"

definition tx_fromBytes :: "tx_env \<Rightarrow> byte list \<Rightarrow> bool \<Rightarrow> error + transaction" where
  "tx_fromBytes V bs strict = fromSerialized V (hexOf bs) strict"

text \<open>An omitted \<open>strict\<close> means the plain schema for the data and the strict one for the bytes.\<close>

definition tx_fromData :: "tx_env \<Rightarrow> bool option \<Rightarrow> txdata \<Rightarrow> error + transaction" where
  "tx_fromData V strict d = (case verifySchema V d (strict = Some True) of
       Inl e \<Rightarrow> Inl e
     | Inr (bad, value) \<Rightarrow>
        if bad then Inl (CryptoError TransactionSchemaError)
        else (case toBytes V value of
            (Inl e, _) \<Rightarrow> Inl e
          | (Inr bs, _) \<Rightarrow> tx_fromBytes V bs (case strict of None \<Rightarrow> True | Some b \<Rightarrow> b)))"

text \<open>\<open>fromJson\<close> turns the strings of the amounts into numbers, which the model's data has already.\<close>

definition tx_fromJson :: "tx_env \<Rightarrow> txdata \<Rightarrow> error + transaction" where
  "tx_fromJson V d = tx_fromData V None d"

section \<open>The identifier of a well-formed transaction\<close>

lemma tx_ok_tid [simp]: "tx_ok V c (d\<lparr>tid := i\<rparr>) = tx_ok V c d"
proof -
  have "class_ok V c (d\<lparr>tid := i\<rparr>) = class_ok V c d"
    by (cases c) (simp_all add: plain_def cong: option.case_cong)
  moreover have "encBody V c (d\<lparr>tid := i\<rparr>) = encBody V c d"
    by (cases c) simp_all
  ultimately show ?thesis
    by (simp add: tx_ok_def common_ok_def vendor_ok_def signed_ok_def registered_def encTx_def encCommon_def
      encVendor_def encSignature_def)
qed

lemma encTx_tid [simp]: "encTx V c (d\<lparr>tid := i\<rparr>) = encTx V c d"
proof -
  have "encBody V c (d\<lparr>tid := i\<rparr>) = encBody V c d" by (cases c) simp_all
  then show ?thesis by (simp add: encTx_def encCommon_def encVendor_def encSignature_def)
qed

lemma createTx_ok:
  assumes "tx_ok V c d" shows "createTx (te_types V) d = (Inr c, d)"
proof -
  have ok: "common_ok V d" "registered V c d" using assms by (simp_all add: tx_ok_def)
  obtain v where v: "version d = Some v" "0 < v" using ok(1) by (rule common_okE)
  then have "d\<lparr>version := Some (versionOr1 d)\<rparr> = d" by (cases d) (simp add: versionOr1_def)
  then show ?thesis using ok(2)
    by (auto simp: createTx_def registered_def split: sum.splits option.splits)
qed

lemma serializeData_ok: "tx_ok V c d \<Longrightarrow> serializeData V c noOptions d = (Inr (encTx V c d), d)"
  using serializeTx_run[of V c "\<lparr>data = d, serialized = []\<rparr>"] by (simp add: serializeData_def)

lemma toBytes_ok: "tx_ok V c d \<Longrightarrow> toBytes V d = (Inr (encTx V c d), d)"
  by (simp add: toBytes_def andThen_def createTx_ok serializeData_ok)

lemma getBytes_ok:
  assumes "tx_ok V c d" shows "getBytes V noOptions d = (Inr (encTx V c d), d)"
proof -
  have "common_ok V d" using assms by (simp add: tx_ok_def)
  then have "versionOr1 d \<noteq> 0" by (auto simp: versionOr1_def elim: common_okE)
  then show ?thesis using assms by (simp add: getBytes_def andThen_def createTx_ok serializeData_ok)
qed

lemma getId_ok: "tx_ok V c d \<Longrightarrow> getId V noOptions d = (Inr (hexOf (te_sha256 V (encTx V c d))), d)"
  by (simp add: getId_def toHash_def andThen_def getBytes_ok)

text \<open>
  A transaction that went through the serializer comes out of the factory as it was, with its
  identifier the hash of the bytes.
\<close>

definition schemaAccepts :: "tx_env \<Rightarrow> bool \<Rightarrow> txdata \<Rightarrow> bool" where
  "schemaAccepts V strict d \<longleftrightarrow> (case verifySchema V d strict of Inl _ \<Rightarrow> False | Inr (bad, _) \<Rightarrow> \<not> bad)"

definition withId :: "tx_env \<Rightarrow> tx_class \<Rightarrow> txdata \<Rightarrow> txdata" where
  "withId V c d = d\<lparr>tid := Some (hexOf (te_sha256 V (encTx V c d)))\<rparr>"

lemma fromBytes_ok:
  assumes "tx_ok V c d" and "schemaAccepts V strict (withId V c d)"
  shows "tx_fromBytes V (encTx V c d) strict = Inr \<lparr>data = withId V c d, serialized = encTx V c d\<rparr>"
proof -
  have "getId V noOptions (d\<lparr>tid := None\<rparr>) = (Inr (hexOf (te_sha256 V (encTx V c d))), d\<lparr>tid := None\<rparr>)"
    using getId_ok[of V c "d\<lparr>tid := None\<rparr>"] assms(1) by simp
  then show ?thesis
    using assms deserializeTx_enc[OF assms(1)]
    by (auto simp: tx_fromBytes_def fromSerialized_def readSerialized_def schemaAccepts_def withId_def Let_def
      split: sum.splits)
qed

lemma fromData_ok:
  assumes "tx_ok V c d" and "verifySchema V d (strict = Some True) = Inr (False, d)"
    and "schemaAccepts V (strict \<noteq> Some False) (withId V c d)"
  shows "tx_fromData V strict d = Inr \<lparr>data = withId V c d, serialized = encTx V c d\<rparr>"
proof -
  have "(case strict of None \<Rightarrow> True | Some b \<Rightarrow> b) = (strict \<noteq> Some False)" by (cases strict) auto
  then show ?thesis
    using assms(2) toBytes_ok[OF assms(1)] fromBytes_ok[OF assms(1,3)] by (simp add: tx_fromData_def)
qed

text \<open>Whatever goes wrong with the bytes, the caller sees one of four errors.\<close>

lemma fromSerialized_errors:
  assumes "fromSerialized V s strict = Inl e"
  shows "keepsError e \<or> e = CryptoError InvalidTransactionBytesError"
  using assms by (auto simp: fromSerialized_def split: sum.splits if_splits)

section \<open>The signatures of a multi-signature wallet\<close>

text \<open>A signature whose participant is one of the keys and whose check says yes.\<close>

definition goodSignature :: "tx_env \<Rightarrow> byte list \<Rightarrow> string list \<Rightarrow> string \<Rightarrow> bool" where
  "goodSignature V h ks s \<longleftrightarrow> (case publicKeyAt ks (participant s) of None \<Rightarrow> False
     | Some key \<Rightarrow> te_verify V h (partialSignature s) (fromHexString key) = Inr True)"

definition checkable :: "tx_env \<Rightarrow> byte list \<Rightarrow> string list \<Rightarrow> string \<Rightarrow> bool" where
  "checkable V h ks s \<longleftrightarrow> (case publicKeyAt ks (participant s) of None \<Rightarrow> False
     | Some key \<Rightarrow> (case te_verify V h (partialSignature s) (fromHexString key) of Inl _ \<Rightarrow> False | Inr _ \<Rightarrow> True))"

abbreviation goodCount :: "tx_env \<Rightarrow> byte list \<Rightarrow> string list \<Rightarrow> string list \<Rightarrow> int" where
  "goodCount V h ks ss \<equiv> int (length (filter (goodSignature V h ks) ss))"

text \<open>The loop with its early exits decides whether enough of the signatures are good.\<close>

lemma signatureLoop_count:
  assumes "k < m" and "n = i + int (length ss)" and "list_all (checkable V h ks) ss"
    and "distinct (map participant ss)" and "set (map participant ss) \<inter> set seen = {}"
  shows "signatureLoop V h ks m n i seen k ss = Inr (m \<le> k + goodCount V h ks ss)"
  using assms
proof (induction ss arbitrary: i seen k)
  case (Cons s ss)
  obtain key ok where key: "publicKeyAt ks (participant s) = Some key"
      "te_verify V h (partialSignature s) (fromHexString key) = Inr ok"
    using Cons.prems(3) by (auto simp: checkable_def split: option.splits sum.splits)
  have good: "goodSignature V h ks s \<longleftrightarrow> ok" using key by (auto simp: goodSignature_def)
  let ?k = "if ok then k + 1 else k"
  have rest: "goodCount V h ks ss \<le> int (length ss)" by simp
  have IH: "signatureLoop V h ks m n (i + 1) (participant s # seen) ?k ss = Inr (m \<le> ?k + goodCount V h ks ss)"
    if "?k \<noteq> m"
    using Cons.IH[of ?k "i + 1" "participant s # seen"] Cons.prems that by auto
  have "m \<le> ?k + goodCount V h ks ss \<longleftrightarrow> ?k = m \<or> (\<not> n - (i + 1 - ?k) < m \<and> m \<le> ?k + goodCount V h ks ss)"
  proof -
    have "m \<le> ?k + g \<longleftrightarrow> ?k = m \<or> (\<not> n - (i + 1 - ?k) < m \<and> m \<le> ?k + g)"
      if "g \<le> int (length ss)" "0 \<le> g" for g
      using Cons.prems(2) that by auto
    from this[OF rest] show ?thesis by simp
  qed
  then show ?case using Cons.prems key good IH by (auto simp: Let_def)
qed simp

text \<open>Duplicates or not: an accepted set has enough distinct participants with a good signature.\<close>

lemma signatureLoop_sound:
  assumes "signatureLoop V h ks m n i seen k ss = Inr True"
  shows "\<exists>ps. set ps \<subseteq> set ss \<and> distinct (map participant ps) \<and>
    set (map participant ps) \<inter> set seen = {} \<and> list_all (goodSignature V h ks) ps \<and> m = k + int (length ps)"
  using assms
proof (induction ss arbitrary: i seen k)
  case (Cons s ss)
  obtain key ok where key: "participant s \<notin> set seen" "publicKeyAt ks (participant s) = Some key"
      "te_verify V h (partialSignature s) (fromHexString key) = Inr ok"
    using Cons.prems by (auto split: if_splits option.splits sum.splits)
  have good: "goodSignature V h ks s \<longleftrightarrow> ok" using key by (auto simp: goodSignature_def)
  let ?k = "if ok then k + 1 else k"
  let ?one = "if ok then [s] else []"
  show ?case
  proof (cases "?k = m")
    case True
    then show ?thesis using key good by (intro exI[of _ ?one]) auto
  next
    case False
    then have "signatureLoop V h ks m n (i + 1) (participant s # seen) ?k ss = Inr True"
      using Cons.prems key by (auto simp: Let_def split: if_splits)
    from Cons.IH[OF this] obtain ps where ps: "set ps \<subseteq> set ss" "distinct (map participant ps)"
      "set (map participant ps) \<inter> set (participant s # seen) = {}" "list_all (goodSignature V h ks) ps"
      "m = ?k + int (length ps)" by blast
    then show ?thesis using key good by (intro exI[of _ "?one @ ps"]) auto
  qed
qed simp

end
