(* ===== verification/BlockSerializer.thy ===== *)
theory BlockSerializer
  imports TxFactory
begin

text \<open>
  packages/core-serializer/source/serializer.ts: writing and reading the properties of an object by
  a schema; and packages/core-crypto-block/source: serializer.ts, deserializer.ts, id.factory.ts,
  block.ts, factory.ts and utils.ts. An object is a map from property names to values; a value of
  the wrong kind for its schema type counts as a \<open>TypeError\<close>, for no caller passes one.
\<close>

section \<open>Objects and schemas\<close>

datatype jsval = JNum int | JBig int | JStr string | JTxs "txdata list" | JBufs "byte list list"

type_synonym jsobj = "(string, jsval) jsmap"

datatype field_type = Uint32 | Uint64 | Bigint | Hash | AddressField | PublicKeyField | SignatureField
  | TransactionsField

record field_schema =
  fs_name :: string
  fs_type :: field_type
  fs_required :: "bool option"
  fs_size :: "nat option"

definition field :: "string \<Rightarrow> field_type \<Rightarrow> field_schema" where
  "field p t = \<lparr>fs_name = p, fs_type = t, fs_required = None, fs_size = None\<rparr>"

text \<open>A 64-bit number as a double: 53 significant bits, ties to even.\<close>

fun bitLength :: "nat \<Rightarrow> nat" where
  "bitLength n = (if n = 0 then 0 else Suc (bitLength (n div 2)))"

declare bitLength.simps [simp del]

definition toDouble :: "int \<Rightarrow> int" where
  "toDouble n = (if n < 2 ^ 53 then n else
     (let e = bitLength (nat n) - 53; q = n div 2 ^ e; r = 2 * (n mod 2 ^ e) in
       (if r > 2 ^ e \<or> (r = 2 ^ e \<and> odd q) then q + 1 else q) * 2 ^ e))"

section \<open>serialize\<close>

text \<open>The transactions of a block: the data of each is given its defaults on the way.\<close>

fun writeTransactions :: "tx_env \<Rightarrow> txdata list \<Rightarrow> txdata list bufprog" where
  "writeTransactions V [] = ret []"
| "writeTransactions V (t # ts) = (case toBytes V t of
       (Inl e, _) \<Rightarrow> throw e
     | (Inr bs, t') \<Rightarrow>
         andThen (writeUint32 (int (length bs))) (\<lambda>_.
         andThen (writeBytes bs) (\<lambda>_.
         andThen (writeTransactions V ts) (\<lambda>ts'. ret (t' # ts')))))"

text \<open>
  \<open>writeUint32(undefined)\<close> writes zero (\<open>undefined\<close> is \<open>NaN\<close>, which no range check stops); the
  other types throw for a missing property.
\<close>

definition writeField :: "tx_env \<Rightarrow> jsobj \<Rightarrow> field_schema \<Rightarrow> jsobj bufprog" where
  "writeField V obj f =
     (let v = jm_get obj (fs_name f); done = (\<lambda>m. andThen m (\<lambda>_. ret obj)) in
      if v = None \<and> fs_required f = Some False then ret obj
      else (case (fs_type f, v) of
         (Uint32, None) \<Rightarrow> done (writeUint32 0)
       | (Uint32, Some (JNum n)) \<Rightarrow> done (writeUint32 n)
       | (Uint64, Some (JNum n)) \<Rightarrow> done (writeUint64 n)
       | (Uint64, Some (JBig n)) \<Rightarrow> done (writeUint64 n)
       | (Bigint, Some (JNum n)) \<Rightarrow> done (writeUint64 n)
       | (Bigint, Some (JBig n)) \<Rightarrow> done (writeUint64 n)
       | (Hash, Some (JStr s)) \<Rightarrow> done (writeBytes (fromHexString s))
       | (AddressField, Some (JStr s)) \<Rightarrow> done (andThen (liftE (te_toBuffer V s)) address_serialize)
       | (PublicKeyField, Some (JStr s)) \<Rightarrow> done (publicKey_serialize s)
       | (SignatureField, Some (JStr s)) \<Rightarrow> done (signature_serialize s)
       | (TransactionsField, Some (JTxs ts)) \<Rightarrow>
           andThen (writeTransactions V ts) (\<lambda>ts'. ret (jm_set (fs_name f) (JTxs ts') obj))
       | _ \<Rightarrow> throw JsTypeError))"

fun writeFields :: "tx_env \<Rightarrow> field_schema list \<Rightarrow> jsobj \<Rightarrow> jsobj bufprog" where
  "writeFields V [] obj = ret obj"
| "writeFields V (f # fs) obj = andThen (writeField V obj f) (writeFields V fs)"

definition serializeObject :: "tx_env \<Rightarrow> nat \<Rightarrow> int \<Rightarrow> field_schema list \<Rightarrow> jsobj \<Rightarrow> error + byte list \<times> jsobj" where
  "serializeObject V len skipped fs obj =
     (case andThen (whenever (skipped > 0) (skip skipped)) (\<lambda>_. writeFields V fs obj) (fromSize len) of
        (Inl e, _) \<Rightarrow> Inl e
      | (Inr obj', b) \<Rightarrow> Inr (toBuffer b, obj'))"

section \<open>deserialize\<close>

definition hashSize :: nat where "hashSize = 32"

definition countOf :: "jsobj \<Rightarrow> nat" where
  "countOf obj = (case jm_get obj ''numberOfTransactions'' of Some (JNum n) \<Rightarrow> nat n | _ \<Rightarrow> 0)"

definition readBlob :: "byte list bufprog" where
  "readBlob = andThen readUint32 (\<lambda>n. readBytes (nat n))"

definition readField :: "tx_env \<Rightarrow> jsobj \<Rightarrow> field_schema \<Rightarrow> jsobj bufprog" where
  "readField V obj f =
     (case fs_type f of
         Uint32 \<Rightarrow> andThen readUint32 (\<lambda>x. ret (jm_set (fs_name f) (JNum x) obj))
       | Uint64 \<Rightarrow> andThen readUint64 (\<lambda>x. ret (jm_set (fs_name f) (JNum (toDouble x)) obj))
       | Bigint \<Rightarrow> andThen readUint64 (\<lambda>x. ret (jm_set (fs_name f) (JBig x) obj))
       | Hash \<Rightarrow> andThen (readHexString (case fs_size f of None \<Rightarrow> hashSize | Some n \<Rightarrow> n))
           (\<lambda>x. ret (jm_set (fs_name f) (JStr x) obj))
       | AddressField \<Rightarrow> andThen (readAddress V) (\<lambda>x. ret (jm_set (fs_name f) (JStr x) obj))
       | PublicKeyField \<Rightarrow> andThen (readPublicKey (te_keyFormat V)) (\<lambda>x. ret (jm_set (fs_name f) (JStr x) obj))
       | SignatureField \<Rightarrow> andThen (readSignature (te_signatureFormat V)) (\<lambda>x. ret (jm_set (fs_name f) (JStr x) obj))
       | TransactionsField \<Rightarrow> andThen (readTimes (countOf obj) readBlob)
           (\<lambda>x. ret (jm_set (fs_name f) (JBufs x) obj)))"

fun readFields :: "tx_env \<Rightarrow> field_schema list \<Rightarrow> jsobj \<Rightarrow> jsobj bufprog" where
  "readFields V [] obj = ret obj"
| "readFields V (f # fs) obj = andThen (readField V obj f) (readFields V fs)"

section \<open>Blocks as objects\<close>

type_synonym block_input = "blockdata \<times> txdata list option"

definition optionalField :: "string \<Rightarrow> jsval option \<Rightarrow> jsobj" where
  "optionalField p v = (case v of None \<Rightarrow> [] | Some x \<Rightarrow> [(p, x)])"

definition blockObject :: "block_input \<Rightarrow> jsobj" where
  "blockObject i = (case i of (d, ts) \<Rightarrow>
     [(''version'', JNum (bversion d)), (''timestamp'', JNum (timestamp d)), (''height'', JNum (height d)),
      (''previousBlock'', JStr (previousBlock d)), (''numberOfTransactions'', JNum (numberOfTransactions d)),
      (''totalAmount'', JBig (totalAmount d)), (''totalFee'', JBig (totalFee d)), (''reward'', JBig (reward d)),
      (''payloadLength'', JNum (payloadLength d)), (''payloadHash'', JStr (payloadHash d)),
      (''generatorPublicKey'', JStr (generatorPublicKey d))] @
     optionalField ''blockSignature'' (map_option JStr (blockSignature d)) @
     optionalField ''transactions'' (map_option JTxs ts))"

definition numberProp :: "jsobj \<Rightarrow> string \<Rightarrow> int" where
  "numberProp obj p = (case jm_get obj p of Some (JNum n) \<Rightarrow> n | Some (JBig n) \<Rightarrow> n | _ \<Rightarrow> 0)"

definition stringProp :: "jsobj \<Rightarrow> string \<Rightarrow> string option" where
  "stringProp obj p = (case jm_get obj p of Some (JStr s) \<Rightarrow> Some s | _ \<Rightarrow> None)"

definition objectBlock :: "jsobj \<Rightarrow> blockdata" where
  "objectBlock obj =
     \<lparr>bid = None, timestamp = numberProp obj ''timestamp'', bversion = numberProp obj ''version'',
      height = numberProp obj ''height'', previousBlock = the (stringProp obj ''previousBlock''),
      numberOfTransactions = numberProp obj ''numberOfTransactions'', totalAmount = numberProp obj ''totalAmount'',
      totalFee = numberProp obj ''totalFee'', reward = numberProp obj ''reward'',
      payloadLength = numberProp obj ''payloadLength'', payloadHash = the (stringProp obj ''payloadHash''),
      generatorPublicKey = the (stringProp obj ''generatorPublicKey''),
      blockSignature = stringProp obj ''blockSignature''\<rparr>"

section \<open>serializer.ts\<close>

definition headerFields :: "field_schema list" where
  "headerFields =
     [field ''version'' Uint32, field ''timestamp'' Uint32, field ''height'' Uint32, field ''previousBlock'' Hash,
      field ''numberOfTransactions'' Uint32, field ''totalAmount'' Bigint, field ''totalFee'' Bigint,
      field ''reward'' Bigint, field ''payloadLength'' Uint32, field ''payloadHash'' Hash,
      field ''generatorPublicKey'' PublicKeyField]"

definition bufferSize :: nat where "bufferSize = 2000000"

definition block_serialize :: "tx_env \<Rightarrow> bool \<Rightarrow> block_input \<Rightarrow> error + byte list" where
  "block_serialize V includeSignature i = map_sum id fst (serializeObject V bufferSize 0
     (headerFields @ [(field ''blockSignature'' SignatureField)\<lparr>fs_required := Some includeSignature\<rparr>])
     (blockObject i))"

definition serializeWithTransactions :: "tx_env \<Rightarrow> block_input \<Rightarrow> error + byte list" where
  "serializeWithTransactions V i = map_sum id fst (serializeObject V bufferSize 0
     (headerFields @ [field ''blockSignature'' SignatureField,
       (field ''transactions'' TransactionsField)\<lparr>fs_required := Some False\<rparr>])
     (blockObject i))"

text \<open>Twice the size, so that the half byte of a string of odd length stays a whole number.\<close>

definition twiceSize :: "block \<Rightarrow> error + int" where
  "twiceSize b = (case blockSignature (bdata b) of None \<Rightarrow> Inl JsTypeError
     | Some s \<Rightarrow> Inr (2 * (4 + 4 + 4 + 32 + 4 + 8 + 8 + 8 + 4) +
         int (length (payloadHash (bdata b))) + int (length (generatorPublicKey (bdata b))) + int (length s) +
         sum_list (map (\<lambda>t. 2 * (4 + int (length (serialized t)))) (transactions b))))"

section \<open>id.factory.ts and deserializer.ts\<close>

definition block_id :: "tx_env \<Rightarrow> block_input \<Rightarrow> error + string" where
  "block_id V i = map_sum id (\<lambda>bs. hexOf (te_sha256 V bs)) (block_serialize V True i)"

fun readAll :: "tx_env \<Rightarrow> byte list list \<Rightarrow> error + transaction list" where
  "readAll V [] = Inr []"
| "readAll V (bs # rest) = (case tx_fromBytes V bs True of Inl e \<Rightarrow> Inl e
     | Inr t \<Rightarrow> (case readAll V rest of Inl e \<Rightarrow> Inl e | Inr ts \<Rightarrow> Inr (t # ts)))"

definition blobsOf :: "jsobj \<Rightarrow> byte list list" where
  "blobsOf obj = (case jm_get obj ''transactions'' of Some (JBufs xs) \<Rightarrow> xs | _ \<Rightarrow> [])"

definition deserializeTransactions :: "tx_env \<Rightarrow> jsobj \<Rightarrow> transaction list bufprog" where
  "deserializeTransactions V obj =
     andThen (readFields V [field ''transactions'' TransactionsField] obj) (\<lambda>obj'.
     liftE (readAll V (blobsOf obj')))"

text \<open>The block's data with its identifier, its \<open>transactions\<close> property, and the transactions.\<close>

definition readBlock :: "tx_env \<Rightarrow> bool \<Rightarrow> (blockdata \<times> txdata list option \<times> transaction list) bufprog" where
  "readBlock V headerOnly =
     andThen (readFields V (headerFields @ [field ''blockSignature'' SignatureField]) []) (\<lambda>obj.
     andThen (reads (\<lambda>b. headerOnly \<or> getRemainderLength b = 0)) (\<lambda>only.
     andThen (if only then ret None else andThen (deserializeTransactions V obj) (\<lambda>ts. ret (Some ts))) (\<lambda>ts.
     (let d = objectBlock obj; datas = map_option (map data) ts in
      andThen (liftE (block_id V (d, datas))) (\<lambda>i.
      ret (d\<lparr>bid := Some i\<rparr>, datas, case ts of None \<Rightarrow> [] | Some xs \<Rightarrow> xs))))))"

definition block_deserialize :: "tx_env \<Rightarrow> byte list \<Rightarrow> bool \<Rightarrow> error + blockdata \<times> txdata list option \<times> transaction list" where
  "block_deserialize V bs headerOnly = fst (readBlock V headerOnly (fromBuffer bs))"

section \<open>factory.ts\<close>

text \<open>
  The validator's answer for a block: no error, or the transaction index its message names for each
  error (\<open>None\<close> when it names none); and the value.
\<close>

record block_env =
  be_tx :: tx_env
  be_validate :: "block_input \<Rightarrow> nat option list option \<times> block_input option"

fun fatalErrors :: "block_input \<Rightarrow> nat option list \<Rightarrow> error + unit" where
  "fatalErrors i [] = Inr ()"
| "fatalErrors i (None # ms) = Inl (CryptoError (BlockSchemaError (height (fst i))))"
| "fatalErrors i (Some k # ms) = (case snd i of
       None \<Rightarrow> fatalErrors i ms
     | Some ts \<Rightarrow> if length ts \<le> k then Inl JsTypeError
         else if tid (ts ! k) = None then Inl (CryptoError (BlockSchemaError (height (fst i))))
         else fatalErrors i ms)"

definition applySchema :: "block_env \<Rightarrow> block_input \<Rightarrow> error + block_input option" where
  "applySchema B i = (case be_validate B i of (errors, value) \<Rightarrow>
     (case errors of None \<Rightarrow> Inr value
      | Some ms \<Rightarrow> (case fatalErrors i ms of Inl e \<Rightarrow> Inl e | Inr _ \<Rightarrow> Inr value)))"

text \<open>\<open>sealBlock\<close> numbers the transactions by their index; here a transaction's number is its place.\<close>

definition sealBlock :: "blockdata \<Rightarrow> transaction list \<Rightarrow> byte list \<Rightarrow> block \<times> string" where
  "sealBlock d ts bs = (\<lparr>bdata = d, transactions = ts\<rparr>, hexOf bs)"

definition block_fromSerialized :: "block_env \<Rightarrow> byte list \<Rightarrow> error + block \<times> string" where
  "block_fromSerialized B bs = (case block_deserialize (be_tx B) bs False of
       Inl e \<Rightarrow> Inl e
     | Inr (d, datas, ts) \<Rightarrow>
        (case applySchema B (d, datas) of Inl e \<Rightarrow> Inl e
         | Inr value \<Rightarrow> Inr (sealBlock (case value of None \<Rightarrow> d | Some (d', _) \<Rightarrow> d') ts bs)))"

definition block_fromHex :: "block_env \<Rightarrow> string \<Rightarrow> error + block \<times> string" where
  "block_fromHex B s = block_fromSerialized B (fromHexString s)"

definition block_fromBytes :: "block_env \<Rightarrow> byte list \<Rightarrow> error + block \<times> string" where
  "block_fromBytes B bs = block_fromSerialized B bs"

definition block_fromData :: "block_env \<Rightarrow> block_input \<Rightarrow> error + block \<times> string" where
  "block_fromData B i = (case applySchema B i of
       Inl e \<Rightarrow> Inl e
     | Inr _ \<Rightarrow> (case serializeWithTransactions (be_tx B) i of
           Inl e \<Rightarrow> Inl e
         | Inr bs \<Rightarrow> (case block_deserialize (be_tx B) bs False of
              Inl e \<Rightarrow> Inl e
            | Inr (d, _, ts) \<Rightarrow> Inr (sealBlock d ts bs))))"

text \<open>\<open>fromJson\<close> turns the strings of amounts into numbers, which the model's data has already.\<close>

definition block_fromJson :: "block_env \<Rightarrow> block_input \<Rightarrow> error + block \<times> string" where
  "block_fromJson B i = block_fromData B i"

definition block_make :: "block_env \<Rightarrow> key_pair \<Rightarrow> (block_input, error, block \<times> string) prog" where
  "block_make B keys =
     andThen (modify (\<lambda>(d, ts). (d\<lparr>generatorPublicKey := kp_publicKey keys\<rparr>, ts))) (\<lambda>_.
     andThen (reads (block_serialize (be_tx B) False)) (\<lambda>r.
     andThen (liftE r) (\<lambda>bs.
     andThen (liftE (te_sign (be_tx B) (te_sha256 (be_tx B) bs) (fromHexString (kp_privateKey keys)))) (\<lambda>s.
     andThen (modify (\<lambda>(d, ts). (d\<lparr>blockSignature := Some s\<rparr>, ts))) (\<lambda>_.
     andThen (reads (block_id (be_tx B))) (\<lambda>ri.
     andThen (liftE ri) (\<lambda>i.
     andThen (modify (\<lambda>(d, ts). (d\<lparr>bid := Some i\<rparr>, ts))) (\<lambda>_.
     andThen (reads (block_fromData B)) liftE))))))))"

text \<open>\<open>toBytesHex\<close> of utils.ts: sixteen digits; a longer number makes the repeat count negative.\<close>

definition toBytesHex :: "int option \<Rightarrow> error + string" where
  "toBytesHex v = (let s = (case v of None \<Rightarrow> [] | Some n \<Rightarrow> if n = 0 then [] else toString16 n) in
     if 16 < length s then Inl JsRangeError else Inr (replicate (16 - length s) (CHR ''0'') @ s))"

end
