(* ===== verification/BlockRoundTrip.thy ===== *)
theory BlockRoundTrip
  imports BlockSerializer
begin

text \<open>
  What the block serializer promises: a well-formed block with its transactions reads back as it
  was, out of the buffer of fixed size the serializer returns; and where the header alone does not.
\<close>

section \<open>Fields\<close>

lemma writeFields_Cons:
  "writes (writeField V obj f) bs obj' \<Longrightarrow> writes (writeFields V fs obj') cs r \<Longrightarrow>
    writes (writeFields V (f # fs) obj) (bs @ cs) r"
  by (simp add: writes_andThen)

lemma writeFields_Nil: "writes (writeFields V [] obj) [] obj"
  by (simp only: writeFields.simps writes_ret)

lemma readFields_Cons:
  "readsAs (readField V obj f) bs obj' \<Longrightarrow> readsAs (readFields V fs obj') cs r \<Longrightarrow>
    readsAs (readFields V (f # fs) obj) (bs @ cs) r"
  by (simp add: readsAs_andThen)

lemma readFields_Nil: "readsAs (readFields V [] obj) [] obj"
  by (simp only: readFields.simps readsAs_ret)

lemma writes_done: "writes m bs () \<Longrightarrow> writes (andThen m (\<lambda>_. ret x)) bs x"
  using writes_andThen[of m bs "()" "\<lambda>_. ret x" "[]" x] writes_ret[of x] by simp

lemma field_simps [simp]:
  "fs_name (field p t) = p" "fs_type (field p t) = t" "fs_required (field p t) = None" "fs_size (field p t) = None"
  by (simp_all add: field_def)

lemma write_number:
  "jm_get obj p = Some (JNum n) \<Longrightarrow> uint_ok 4 n \<Longrightarrow> writes (writeField V obj (field p Uint32)) (leBytes 4 n) obj"
  by (simp only: writeField_def Let_def) (simp add: writes_done writes_u32)

lemma write_big:
  "jm_get obj p = Some (JBig n) \<Longrightarrow> uint_ok 8 n \<Longrightarrow> writes (writeField V obj (field p Bigint)) (leBytes 8 n) obj"
  by (simp only: writeField_def Let_def) (simp add: writes_done writes_u64)

lemma write_hash:
  "jm_get obj p = Some (JStr s) \<Longrightarrow> writes (writeField V obj (field p Hash)) (fromHexString s) obj"
  by (simp only: writeField_def Let_def) (simp add: writes_done writes_writeBytes)

lemma write_key:
  "jm_get obj p = Some (JStr s) \<Longrightarrow> writes (writeField V obj (field p PublicKeyField)) (fromHexString s) obj"
  by (simp only: writeField_def Let_def) (simp add: writes_done publicKey_serialize_def writes_writeBytes)

lemma write_signature:
  "jm_get obj (fs_name f) = Some (JStr s) \<Longrightarrow> fs_type f = SignatureField \<Longrightarrow>
    writes (writeField V obj f) (fromHexString s) obj"
  by (simp only: writeField_def Let_def) (simp add: writes_done signature_serialize_def writes_writeBytes)

lemma read_number:
  "uint_ok 4 n \<Longrightarrow> readsAs (readField V obj (field p Uint32)) (leBytes 4 n) (jm_set p (JNum n) obj)"
  unfolding readField_def field_simps field_type.case by (rule readsAs_then_ret, rule u32.get_reads)

lemma read_big:
  "uint_ok 8 n \<Longrightarrow> readsAs (readField V obj (field p Bigint)) (leBytes 8 n) (jm_set p (JBig n) obj)"
  unfolding readField_def field_simps field_type.case by (rule readsAs_then_ret, rule u64.get_reads)

lemma read_hash:
  "isHex 32 s \<Longrightarrow> readsAs (readField V obj (field p Hash)) (fromHexString s) (jm_set p (JStr s) obj)"
  unfolding readField_def field_simps field_type.case option.case hashSize_def
  by (rule readsAs_then_ret, rule hex.get_reads)

lemma read_key:
  "isHex (te_publicKeySize V) s \<Longrightarrow>
    readsAs (readField V obj (field p PublicKeyField)) (fromHexString s) (jm_set p (JStr s) obj)"
  unfolding te_publicKeySize_def readField_def field_simps field_type.case by (rule readsAs_then_ret, rule publicKeyCodec.get_reads)

lemma read_signature:
  "signature_ok (te_signatureFormat V) s \<Longrightarrow>
    readsAs (readField V obj (field p SignatureField)) (fromHexString s) (jm_set p (JStr s) obj)"
  unfolding readField_def field_simps field_type.case by (rule readsAs_then_ret, rule signatureCodec.get_reads)

section \<open>The header\<close>

definition encHeader :: "blockdata \<Rightarrow> byte list" where
  "encHeader d = leBytes 4 (bversion d) @ leBytes 4 (timestamp d) @ leBytes 4 (height d) @
     fromHexString (previousBlock d) @ leBytes 4 (numberOfTransactions d) @ leBytes 8 (totalAmount d) @
     leBytes 8 (totalFee d) @ leBytes 8 (reward d) @ leBytes 4 (payloadLength d) @
     fromHexString (payloadHash d) @ fromHexString (generatorPublicKey d) @
     fromHexString (the (blockSignature d))"

definition header_ok :: "tx_env \<Rightarrow> blockdata \<Rightarrow> bool" where
  "header_ok V d \<longleftrightarrow> uint_ok 4 (bversion d) \<and> uint_ok 4 (timestamp d) \<and> uint_ok 4 (height d) \<and>
     isHex 32 (previousBlock d) \<and> uint_ok 4 (numberOfTransactions d) \<and> uint_ok 8 (totalAmount d) \<and>
     uint_ok 8 (totalFee d) \<and> uint_ok 8 (reward d) \<and> uint_ok 4 (payloadLength d) \<and>
     isHex 32 (payloadHash d) \<and> isHex (te_publicKeySize V) (generatorPublicKey d) \<and>
     (case blockSignature d of None \<Rightarrow> False | Some s \<Rightarrow> signature_ok (te_signatureFormat V) s)"

lemma jm_get_append: "jm_get (m @ n) k = (case jm_get m k of None \<Rightarrow> jm_get n k | Some v \<Rightarrow> Some v)"
  by (induction m) auto

lemma blockObject_props:
  "jm_get (blockObject (d, ts)) ''version'' = Some (JNum (bversion d))"
  "jm_get (blockObject (d, ts)) ''timestamp'' = Some (JNum (timestamp d))"
  "jm_get (blockObject (d, ts)) ''height'' = Some (JNum (height d))"
  "jm_get (blockObject (d, ts)) ''previousBlock'' = Some (JStr (previousBlock d))"
  "jm_get (blockObject (d, ts)) ''numberOfTransactions'' = Some (JNum (numberOfTransactions d))"
  "jm_get (blockObject (d, ts)) ''totalAmount'' = Some (JBig (totalAmount d))"
  "jm_get (blockObject (d, ts)) ''totalFee'' = Some (JBig (totalFee d))"
  "jm_get (blockObject (d, ts)) ''reward'' = Some (JBig (reward d))"
  "jm_get (blockObject (d, ts)) ''payloadLength'' = Some (JNum (payloadLength d))"
  "jm_get (blockObject (d, ts)) ''payloadHash'' = Some (JStr (payloadHash d))"
  "jm_get (blockObject (d, ts)) ''generatorPublicKey'' = Some (JStr (generatorPublicKey d))"
  "jm_get (blockObject (d, ts)) ''blockSignature'' = map_option JStr (blockSignature d)"
  "jm_get (blockObject (d, ts)) ''transactions'' = map_option JTxs ts"
  by (auto simp: blockObject_def optionalField_def jm_get_append split: option.split)

text \<open>The header fields of a well-formed block, and what follows them in a schema.\<close>

lemma header_written:
  assumes "header_ok V d" and "fs_name f = ''blockSignature''" and "fs_type f = SignatureField"
    and "writes (writeFields V fs (blockObject (d, ts))) cs r"
  shows "writes (writeFields V (headerFields @ f # fs) (blockObject (d, ts))) (encHeader d @ cs) r"
proof -
  obtain s where s: "blockSignature d = Some s" using assms(1) by (auto simp: header_ok_def split: option.splits)
  have sig: "writes (writeField V (blockObject (d, ts)) f) (fromHexString (the (blockSignature d))) (blockObject (d, ts))"
    using assms(2,3) s by (intro write_signature) (simp_all add: blockObject_props)
  show ?thesis
    unfolding headerFields_def append_Cons append_Nil encHeader_def append_assoc
    using assms(1)
    by (intro writeFields_Cons[OF write_number] writeFields_Cons[OF write_big] writeFields_Cons[OF write_hash]
        writeFields_Cons[OF write_key] writeFields_Cons[OF sig] assms(4) blockObject_props)
      (simp_all add: header_ok_def)
qed

definition headerObject :: "blockdata \<Rightarrow> jsobj" where
  "headerObject d =
     [(''version'', JNum (bversion d)), (''timestamp'', JNum (timestamp d)), (''height'', JNum (height d)),
      (''previousBlock'', JStr (previousBlock d)), (''numberOfTransactions'', JNum (numberOfTransactions d)),
      (''totalAmount'', JBig (totalAmount d)), (''totalFee'', JBig (totalFee d)), (''reward'', JBig (reward d)),
      (''payloadLength'', JNum (payloadLength d)), (''payloadHash'', JStr (payloadHash d)),
      (''generatorPublicKey'', JStr (generatorPublicKey d)), (''blockSignature'', JStr (the (blockSignature d)))]"

lemma header_read:
  assumes "header_ok V d"
  shows "readsAs (readFields V (headerFields @ [field ''blockSignature'' SignatureField]) []) (encHeader d) (headerObject d)"
proof -
  obtain s where s: "blockSignature d = Some s" "signature_ok (te_signatureFormat V) s"
    using assms by (auto simp: header_ok_def split: option.splits)
  have "readsAs (readFields V (headerFields @ [field ''blockSignature'' SignatureField]) [])
      (encHeader d @ []) (jm_set ''blockSignature'' (JStr s) (jm_set ''generatorPublicKey'' (JStr (generatorPublicKey d))
      (jm_set ''payloadHash'' (JStr (payloadHash d)) (jm_set ''payloadLength'' (JNum (payloadLength d))
      (jm_set ''reward'' (JBig (reward d)) (jm_set ''totalFee'' (JBig (totalFee d)) (jm_set ''totalAmount'' (JBig (totalAmount d))
      (jm_set ''numberOfTransactions'' (JNum (numberOfTransactions d)) (jm_set ''previousBlock'' (JStr (previousBlock d))
      (jm_set ''height'' (JNum (height d)) (jm_set ''timestamp'' (JNum (timestamp d))
      (jm_set ''version'' (JNum (bversion d)) []))))))))))))"
    unfolding headerFields_def append_Cons append_Nil encHeader_def append_assoc s option.sel
    using assms s
    by (intro readFields_Cons[OF read_number] readFields_Cons[OF read_hash] readFields_Cons[OF read_big]
        readFields_Cons[OF read_key] readFields_Cons[OF read_signature] readFields_Nil)
      (simp_all add: header_ok_def)
  then show ?thesis using s by (simp add: headerObject_def)
qed

lemma objectBlock_header: "objectBlock (headerObject d) = d\<lparr>bid := None, blockSignature := Some (the (blockSignature d))\<rparr>"
  by (cases d) (simp add: objectBlock_def headerObject_def numberProp_def stringProp_def)

section \<open>The transactions of a block\<close>

definition classOf :: "tx_env \<Rightarrow> txdata \<Rightarrow> tx_class" where
  "classOf V t = (case getCtor (te_types V) (ttype t) (typeGroup t) (version t) of
     Inr (Some c) \<Rightarrow> tc_class c | _ \<Rightarrow> TransferTransaction)"

definition encTxData :: "tx_env \<Rightarrow> txdata \<Rightarrow> byte list" where
  "encTxData V t = encTx V (classOf V t) t"

text \<open>The transaction the factory makes of the bytes of \<open>t\<close>.\<close>

definition rebuilt :: "tx_env \<Rightarrow> txdata \<Rightarrow> transaction" where
  "rebuilt V t = \<lparr>data = withId V (classOf V t) t, serialized = encTxData V t\<rparr>"

definition goodTx :: "tx_env \<Rightarrow> txdata \<Rightarrow> bool" where
  "goodTx V t \<longleftrightarrow> tx_ok V (classOf V t) t \<and> schemaAccepts V True (withId V (classOf V t) t) \<and>
     length (encTxData V t) < 4294967296"

definition encBlob :: "byte list \<Rightarrow> byte list" where
  "encBlob bs = leBytes 4 (int (length bs)) @ bs"

definition encTxs :: "tx_env \<Rightarrow> txdata list \<Rightarrow> byte list" where
  "encTxs V ts = concat (map encBlob (map (encTxData V) ts))"

definition writeBlob :: "byte list \<Rightarrow> unit bufprog" where
  "writeBlob bs = andThen (writeUint32 (int (length bs))) (\<lambda>_. writeBytes bs)"

interpretation blobs: codec writeBlob readBlob encBlob "\<lambda>bs. length bs < 4294967296"
proof
  fix bs :: "byte list" assume "length bs < 4294967296"
  then have ok: "uint_ok 4 (int (length bs))" by (simp add: uint_ok_def)
  show "writes (writeBlob bs) (encBlob bs) ()"
    unfolding writeBlob_def encBlob_def using ok by (intro writes_seq writes_u32 writes_writeBytes)
  show "readsAs readBlob (encBlob bs) bs"
    unfolding readBlob_def encBlob_def
    by (rule readsAs_andThen[OF u32.get_reads[OF ok] readsAs_readBytes]) simp
qed

lemma transactions_written:
  "(\<And>t. t \<in> set ts \<Longrightarrow> goodTx V t) \<Longrightarrow> writes (writeTransactions V ts) (encTxs V ts) ts"
proof (induction ts)
  case (Cons t ts)
  have t: "toBytes V t = (Inr (encTxData V t), t)" "length (encTxData V t) < 4294967296"
    using Cons.prems toBytes_ok[of V "classOf V t" t] by (auto simp: goodTx_def encTxData_def)
  have tail: "writes (andThen (writeTransactions V ts) (\<lambda>ts'. ret (t # ts'))) (encTxs V ts @ []) (t # ts)"
    using Cons by (intro writes_andThen[where x = ts] writes_ret) simp_all
  have "writes (andThen (writeBlob (encTxData V t)) (\<lambda>_. andThen (writeTransactions V ts) (\<lambda>ts'. ret (t # ts'))))
      (encBlob (encTxData V t) @ encTxs V ts @ []) (t # ts)"
    by (rule writes_seq[OF blobs.put_writes tail]) (rule t(2))
  then show ?case using t(1) by (simp add: writeBlob_def andThen_assoc encTxs_def)
qed (simp add: encTxs_def writes_ret del: ret_apply)

lemma readAll_good:
  "(\<And>t. t \<in> set ts \<Longrightarrow> goodTx V t) \<Longrightarrow> readAll V (map (encTxData V) ts) = Inr (map (rebuilt V) ts)"
proof (induction ts)
  case (Cons t ts)
  have "tx_fromBytes V (encTxData V t) True = Inr (rebuilt V t)"
    using Cons.prems fromBytes_ok[of V "classOf V t" t True]
    by (simp add: goodTx_def encTxData_def rebuilt_def)
  then show ?case using Cons by simp
qed simp

lemma transactions_read:
  assumes good: "\<And>t. t \<in> set ts \<Longrightarrow> goodTx V t" and n: "numberOfTransactions d = int (length ts)"
  shows "readsAs (deserializeTransactions V (headerObject d)) (encTxs V ts) (map (rebuilt V) ts)"
proof -
  let ?blobs = "map (encTxData V) ts"
  let ?obj = "jm_set ''transactions'' (JBufs ?blobs) (headerObject d)"
  have count: "countOf (headerObject d) = length ?blobs" using n by (simp add: countOf_def headerObject_def)
  have "readsAs (readTimes (countOf (headerObject d)) readBlob) (encTxs V ts) ?blobs"
    unfolding count encTxs_def by (rule blobs.list_get) (use good in \<open>auto simp: goodTx_def\<close>)
  then have field: "readsAs (readField V (headerObject d) (field ''transactions'' TransactionsField)) (encTxs V ts) ?obj"
    unfolding readField_def field_simps field_type.case by (rule readsAs_then_ret)
  have blobs: "blobsOf ?obj = ?blobs" by (simp add: blobsOf_def)
  have "readsAs (readFields V [field ''transactions'' TransactionsField] (headerObject d)) (encTxs V ts @ []) ?obj"
    by (rule readFields_Cons[OF field readFields_Nil])
  moreover have "readsAs (liftE (readAll V (blobsOf ?obj)) :: transaction list bufprog) [] (map (rebuilt V) ts)"
  proof -
    have "readAll V ?blobs = Inr (map (rebuilt V) ts)" using good by (rule readAll_good)
    then show ?thesis by (simp only: blobs liftE_sum readsAs_ret)
  qed
  ultimately have "readsAs (deserializeTransactions V (headerObject d)) ((encTxs V ts @ []) @ []) (map (rebuilt V) ts)"
    unfolding deserializeTransactions_def by (rule readsAs_andThen)
  then show ?thesis by simp
qed

section \<open>The whole block\<close>

lemma serializeObject_run:
  assumes "writes (writeFields V fs obj) bs r" and "length bs \<le> n"
  shows "serializeObject V n 0 fs obj = Inr (bs @ replicate (n - length bs) 0, r)"
proof -
  obtain b where "writeFields V fs obj (fromSize n) = (Inr r, b)" "toBuffer b = bs @ replicate (n - length bs) 0"
    using writes_fromSize[OF assms] by metis
  then show ?thesis by (simp add: serializeObject_def andThen_def)
qed

definition padded :: "byte list \<Rightarrow> byte list" where
  "padded bs = bs @ replicate (bufferSize - length bs) 0"

lemma block_serialize_run:
  assumes "header_ok V d" and "length (encHeader d) \<le> bufferSize"
  shows "block_serialize V sig (d, ts) = Inr (padded (encHeader d))"
proof -
  have "writes (writeFields V (headerFields @ [(field ''blockSignature'' SignatureField)\<lparr>fs_required := Some sig\<rparr>])
      (blockObject (d, ts))) (encHeader d @ []) (blockObject (d, ts))"
    by (rule header_written[OF assms(1) _ _ writeFields_Nil]) simp_all
  then show ?thesis
    using serializeObject_run[of V _ "blockObject (d, ts)" "encHeader d" "blockObject (d, ts)" bufferSize] assms(2)
    by (simp add: block_serialize_def padded_def)
qed

definition block_ok :: "tx_env \<Rightarrow> blockdata \<Rightarrow> txdata list \<Rightarrow> bool" where
  "block_ok V d ts \<longleftrightarrow> header_ok V d \<and> (\<forall>t \<in> set ts. goodTx V t) \<and>
     numberOfTransactions d = int (length ts) \<and> length (encHeader d @ encTxs V ts) < bufferSize"

lemma serializeWithTransactions_run:
  assumes "block_ok V d ts"
  shows "serializeWithTransactions V (d, Some ts) = Inr (padded (encHeader d @ encTxs V ts))"
proof -
  let ?f = "(field ''transactions'' TransactionsField)\<lparr>fs_required := Some False\<rparr>"
  let ?obj = "blockObject (d, Some ts)"
  let ?obj' = "jm_set ''transactions'' (JTxs ts) ?obj"
  have "writes (andThen (writeTransactions V ts) (\<lambda>ts'. ret (jm_set ''transactions'' (JTxs ts') ?obj)))
      (encTxs V ts @ []) ?obj'"
    by (rule writes_andThen[OF transactions_written writes_ret]) (use assms in \<open>simp add: block_ok_def\<close>)
  then have "writes (writeField V ?obj ?f) (encTxs V ts) ?obj'"
    by (simp only: writeField_def Let_def) (simp add: blockObject_props)
  then have "writes (writeFields V [?f] ?obj) (encTxs V ts @ []) ?obj'"
    by (rule writeFields_Cons[OF _ writeFields_Nil])
  then have "writes (writeFields V (headerFields @ [field ''blockSignature'' SignatureField, ?f]) ?obj)
      (encHeader d @ encTxs V ts @ []) ?obj'"
    by (intro header_written) (use assms in \<open>simp_all add: block_ok_def\<close>)
  then show ?thesis
    using serializeObject_run[of V _ ?obj "encHeader d @ encTxs V ts" ?obj' bufferSize] assms
    by (simp add: serializeWithTransactions_def padded_def block_ok_def)
qed

definition blockIdOf :: "tx_env \<Rightarrow> blockdata \<Rightarrow> string" where
  "blockIdOf V d = hexOf (te_sha256 V (padded (encHeader d)))"

lemma block_id_run:
  assumes "header_ok V d" and "length (encHeader d) \<le> bufferSize"
  shows "block_id V (d, ts) = Inr (blockIdOf V d)"
  using block_serialize_run[OF assms] by (simp add: block_id_def blockIdOf_def)

lemma header_bid: "header_ok V d \<Longrightarrow> d\<lparr>bid := None, blockSignature := Some (the (blockSignature d))\<rparr> = d\<lparr>bid := None\<rparr>"
  by (cases d) (auto simp: header_ok_def split: option.splits)

lemma header_ok_bid [simp]: "header_ok V (d\<lparr>bid := i\<rparr>) = header_ok V d" "encHeader (d\<lparr>bid := i\<rparr>) = encHeader d"
  by (simp_all add: header_ok_def encHeader_def)

lemma blockIdOf_bid [simp]: "blockIdOf V (d\<lparr>bid := i\<rparr>) = blockIdOf V d"
  by (simp add: blockIdOf_def)

text \<open>The block's bytes read back as the block, its transactions rebuilt and its identifier computed.\<close>

lemma block_deserialize_run:
  assumes ok: "block_ok V d ts"
  shows "block_deserialize V (padded (encHeader d @ encTxs V ts)) False =
    Inr (d\<lparr>bid := Some (blockIdOf V d)\<rparr>, Some (map data (map (rebuilt V) ts)), map (rebuilt V) ts)"
proof -
  have parts: "header_ok V d" "\<And>t. t \<in> set ts \<Longrightarrow> goodTx V t" "numberOfTransactions d = int (length ts)"
      "length (encHeader d) \<le> bufferSize"
    using ok by (simp_all add: block_ok_def)
  define rest where "rest = encTxs V ts @ replicate (bufferSize - length (encHeader d @ encTxs V ts)) 0"
  have bytes: "padded (encHeader d @ encTxs V ts) = encHeader d @ rest" by (simp add: padded_def rest_def)
  obtain b1 where b1: "readFields V (headerFields @ [field ''blockSignature'' SignatureField]) [] (fromBuffer (encHeader d @ rest))
      = (Inr (headerObject d), b1)" "getRemainder b1 = rest" "bb_bytes b1 = encHeader d @ rest"
      "bb_offset b1 = length (encHeader d)"
    using readsAs_fromBuffer[OF header_read[OF parts(1)], of rest] by metis
  have "rest \<noteq> []" using ok by (simp add: rest_def block_ok_def)
  then have more: "getRemainderLength b1 \<noteq> 0" using b1(3,4) by (simp add: getRemainderLength_def)
  have "ahead (encTxs V ts) b1" using b1(2,3,4) by (simp add: ahead_def rest_def)
  then obtain b2 where b2: "deserializeTransactions V (headerObject d) b1 = (Inr (map (rebuilt V) ts), b2)"
    using readsAsE[OF transactions_read[OF parts(2,3)]] by metis
  have obj: "objectBlock (headerObject d) = d\<lparr>bid := None\<rparr>" using objectBlock_header header_bid[OF parts(1)] by simp
  have i: "block_id V (d\<lparr>bid := None\<rparr>, x) = Inr (blockIdOf V d)" for x
    using block_id_run[of V "d\<lparr>bid := None\<rparr>" x] parts(1,4) by simp
  have "fst (readBlock V False (fromBuffer (encHeader d @ rest))) =
    Inr (d\<lparr>bid := Some (blockIdOf V d)\<rparr>, Some (map data (map (rebuilt V) ts)), map (rebuilt V) ts)"
    using b1(1) b2 more by (simp add: readBlock_def andThen_def obj i Let_def)
  then show ?thesis by (simp add: block_deserialize_def bytes)
qed

text \<open>
  The bytes of the header alone are padded with zeros to the same size, and the reader takes the
  padding for transactions of length zero, which no factory accepts.
\<close>

lemma empty_bytes_rejected: "tx_fromBytes V [] strict = Inl (CryptoError InvalidTransactionBytesError)"
  by (simp add: tx_fromBytes_def fromSerialized_def readSerialized_def deserializeTx_def readTx_def
    deserializeCommon_def andThen_def skip_def fromBuffer_def getRemainderLength_def hexOf_def keepsError_def)

text \<open>The size the serializer announces is the number of bytes before the padding.\<close>

lemma length_header:
  assumes "header_ok V d"
  shows "2 * int (length (encHeader d)) = 2 * (4 + 4 + 4 + 32 + 4 + 8 + 8 + 8 + 4) + int (length (payloadHash d)) +
    int (length (generatorPublicKey d)) + 2 * int (length (fromHexString (the (blockSignature d))))"
  using assms by (auto simp: header_ok_def encHeader_def isHexD isHex_def dest: isHexD(2))

lemma signature_length: "signature_ok F s \<Longrightarrow> length s = 2 * length (fromHexString s)"
  by (metis length_hexOf signature_ok_def)

lemma length_encTxs:
  "2 * int (length (encTxs V ts)) = sum_list (map (\<lambda>t. 2 * (4 + int (length (serialized t)))) (map (rebuilt V) ts))"
  by (induction ts) (simp_all add: encTxs_def encBlob_def rebuilt_def)

lemma twiceSize_exact:
  assumes "block_ok V d ts"
  shows "twiceSize \<lparr>bdata = d, transactions = map (rebuilt V) ts\<rparr> =
    Inr (2 * int (length (encHeader d @ encTxs V ts)))"
proof -
  have ok: "header_ok V d" using assms by (simp add: block_ok_def)
  then obtain s where s: "blockSignature d = Some s" "signature_ok (te_signatureFormat V) s"
    by (auto simp: header_ok_def split: option.splits)
  show ?thesis
    using length_header[OF ok] length_encTxs[of V ts] signature_length[OF s(2)] s(1) by (simp add: twiceSize_def)
qed


lemma encBlob_Nil: "encBlob [] = replicate 4 0"
  by (simp add: encBlob_def eval_nat_numeral)

lemma empty_blobs: "concat (map encBlob (replicate n [])) = replicate (4 * n) 0"
proof (induction n)
  case (Suc n)
  have "replicate (4 * Suc n) (0 :: byte) = replicate 4 0 @ replicate (4 * n) 0"
    by (simp add: replicate_add[symmetric])
  then show ?case using Suc by (simp add: encBlob_Nil)
qed simp

lemma header_rejected:
  assumes ok: "header_ok V d" and n: "numberOfTransactions d = int (Suc n)"
    and len: "length (encHeader d) + 4 * Suc n \<le> bufferSize"
  shows "block_deserialize V (padded (encHeader d)) False = Inl (CryptoError InvalidTransactionBytesError)"
proof -
  let ?blobs = "replicate (Suc n) [] :: byte list list"
  define k where "k = bufferSize - length (encHeader d) - 4 * Suc n"
  define rest where "rest = concat (map encBlob ?blobs) @ replicate k (0 :: byte)"
  have "bufferSize - length (encHeader d) = 4 * Suc n + k" using len by (simp add: k_def)
  then have bytes: "padded (encHeader d) = encHeader d @ rest"
    by (simp only: padded_def rest_def empty_blobs replicate_add)
  obtain b1 where b1: "readFields V (headerFields @ [field ''blockSignature'' SignatureField]) [] (fromBuffer (encHeader d @ rest))
      = (Inr (headerObject d), b1)" "getRemainder b1 = rest" "bb_bytes b1 = encHeader d @ rest"
      "bb_offset b1 = length (encHeader d)"
    using readsAs_fromBuffer[OF header_read[OF ok], of rest] by metis
  have "length rest \<noteq> 0" unfolding rest_def empty_blobs by simp
  then have more: "getRemainderLength b1 \<noteq> 0" using b1(3,4) by (simp add: getRemainderLength_def)
  have count: "countOf (headerObject d) = length ?blobs" using n by (simp add: countOf_def headerObject_def)
  let ?obj = "jm_set ''transactions'' (JBufs ?blobs) (headerObject d)"
  have "readsAs (readTimes (countOf (headerObject d)) readBlob) (concat (map encBlob ?blobs)) ?blobs"
    unfolding count by (rule blobs.list_get) auto
  then have "readsAs (readField V (headerObject d) (field ''transactions'' TransactionsField))
      (concat (map encBlob ?blobs)) ?obj"
    unfolding readField_def field_simps field_type.case by (rule readsAs_then_ret)
  from readFields_Cons[OF this readFields_Nil]
  have "readsAs (readFields V [field ''transactions'' TransactionsField] (headerObject d))
      (concat (map encBlob ?blobs)) ?obj" by simp
  moreover have "ahead (concat (map encBlob ?blobs)) b1" using b1(2,3,4) by (simp add: ahead_def rest_def)
  ultimately obtain b2 where "readFields V [field ''transactions'' TransactionsField] (headerObject d) b1 = (Inr ?obj, b2)"
    by (rule readsAsE)
  moreover have "blobsOf ?obj = ?blobs" by (simp add: blobsOf_def)
  moreover have "readAll V ?blobs = Inl (CryptoError InvalidTransactionBytesError)"
    by (simp add: empty_bytes_rejected)
  ultimately have "deserializeTransactions V (headerObject d) b1 = (Inl (CryptoError InvalidTransactionBytesError), b2)"
    by (simp only: deserializeTransactions_def andThen_Inr liftE_apply)
  then show ?thesis
    using b1(1) more by (simp add: block_deserialize_def bytes readBlock_def andThen_def Let_def)
qed


end
