(* ===== verification/NodeExamples.thy ===== *)
theory NodeExamples
  imports Examples JobOutcome Collation BlockRoundTrip
begin

text \<open>
  Concrete environments for the parts above the ledger: a pool that takes every transaction, a
  node at rest with one block, and a transaction environment with a small address codec.
\<close>

section \<open>The pool\<close>

definition demoPoolEnv :: "(unit, unit) pool_env" where
  "demoPoolEnv = \<lparr>pe_maxTransactionBytes = 1000, pe_maxTransactionsPerSender = 5, pe_maxTransactionsInPool = 2,
     pe_maxTransactionAge = 100, pe_allowedSenders = [], pe_network = Some 30, pe_lastHeight = 1,
     pe_address = (\<lambda>k. Inr k), pe_wallets = (), pe_handler = (\<lambda>_. Inr ()), pe_verify = (\<lambda>_ _. ret True),
     pe_canEnter = (\<lambda>_ _. ret ()), pe_apply = (\<lambda>_ _. ret ()), pe_revert = (\<lambda>_ _. ret ()),
     pe_fee = (\<lambda>_. Inr ()), pe_fromBytes = (\<lambda>_. Inl JsTypeError)\<rparr>"

lemma demo_goodEnv: "goodEnv demoPoolEnv"
  by (simp add: goodEnv_def addressable_def demoPoolEnv_def)

lemma demo_pool_limit: "pe_maxTransactionsInPool demoPoolEnv = 2"
  by (simp add: demoPoolEnv_def)

lemma demo_pool_tx: "txId demoTransfer = Some ''t''" "senderPublicKey (data demoTransfer) = Some ''a''"
  by (simp_all add: tx_defs Let_def)

definition demoEmptyPool :: "unit pool" where
  "demoEmptyPool = emptyPool"

lemma demo_pool_ok: "pool_ok demoEmptyPool" "\<not> pl_disposed demoEmptyPool"
  unfolding demoEmptyPool_def using pool_ok_empty by (simp_all add: emptyPool_def)

text \<open>
  A sender whose transactions apply once. A forged transaction that is stored already is queued, its
  row is refused as a duplicate, and as it is not among the stored ones it is added again below: that
  fails, so its row goes while it stays queued. (\<open>freshForged\<close> excludes this.)
\<close>

definition onceEnv :: "(unit, bool) pool_env" where
  "onceEnv = \<lparr>pe_maxTransactionBytes = 1000, pe_maxTransactionsPerSender = 5, pe_maxTransactionsInPool = 2,
     pe_maxTransactionAge = 100, pe_allowedSenders = [], pe_network = Some 30, pe_lastHeight = 1,
     pe_address = (\<lambda>k. Inr k), pe_wallets = False, pe_handler = (\<lambda>_. Inr ()), pe_verify = (\<lambda>_ _. ret True),
     pe_canEnter = (\<lambda>_ _. ret ()),
     pe_apply = (\<lambda>_ _. andThen (reads (\<lambda>w. w)) (\<lambda>w. if w then throw JsTypeError else modify (\<lambda>_. True))),
     pe_revert = (\<lambda>_ _. modify (\<lambda>_. False)), pe_fee = (\<lambda>_. Inr ()), pe_fromBytes = (\<lambda>_. Inr demoTransfer)\<rparr>"

lemma forged_row_lost:
  "let s = snd (addTransaction onceEnv demoTransfer emptyPool);
       s' = snd (readdTransactions onceEnv [demoTransfer] s)
   in length (pending (view s)) = 1 \<and> length (rowsOf s) = 1 \<and> length (pending (view s')) = 1 \<and> rowsOf s' = []"
  by code_simp

section \<open>The node\<close>

definition demoRoundState :: round_state where
  "demoRoundState = \<lparr>rs_dpos = newDpos demo,
     rs_store = demoStore\<lparr>st_lastDownloaded := Some (bdata demoGenesis)\<rparr>, rs_db = emptyDb, rs_blocks = [],
     rs_forging = [], rs_events = []\<rparr>"

definition demoRoundEnv :: round_env where
  "demoRoundEnv = \<lparr>re_env = demoEnv, re_handlers = coreHandlers, re_mutators = [], re_slots = demoSlots,
     re_sha256 = (\<lambda>_. []), re_byBalance = (\<lambda>xs. xs), re_fromBytes = (\<lambda>_. Inl JsTypeError),
     re_fromData = (\<lambda>_. Inl JsTypeError)\<rparr>"

definition demoVerifier :: verifier_env where
  "demoVerifier = \<lparr>ve_milestones = demoMilestones, ve_now = 120, ve_size = (\<lambda>_. 144), ve_verifyHash = (\<lambda>_. Inr True),
     ve_fromHex = (\<lambda>_. []), ve_sha256Hex = (\<lambda>_. ''''), ve_signature = (\<lambda>_. Inr True)\<rparr>"

definition demoChainEnv :: "(unit, unit) chain_env" where
  "demoChainEnv = \<lparr>ce_round = demoRoundEnv, ce_verifier = demoVerifier,
     ce_pool = (\<lambda>h. demoPoolEnv\<lparr>pe_lastHeight := h\<rparr>), ce_encode = (\<lambda>_. []), ce_hasPeers = True,
     ce_health = (False, None), ce_test = False, ce_nethash = '''', ce_genesisKeys = [], ce_networkBoot = Inr (),
     ce_nowMs = 0, ce_dice = False\<rparr>"

definition demoNode :: "unit chain_node" where
  "demoNode = \<lparr>bn_round = demoRoundState, bn_pool = emptyPool,
     bn_machine = \<lparr>mc_state = SyncWithNetwork Syncing, mc_pending = [A_checkLastDownloadedBlockSynced]\<rparr>,
     bn_queue = newQueue, bn_stopped = False, bn_booted = True, bn_missed = 0, bn_lastHealth = 0,
     bn_downloads = [], bn_broadcasts = [], bn_exited = False\<rparr>"

lemmas node_defs = demoRoundState_def demoRoundEnv_def demoVerifier_def demoChainEnv_def demoNode_def

lemma demo_node_ok: "node_ok demoNode"
  using demo_store_ok by (simp add: node_ok_def node_defs store_ok_def busy_ok_ops(1))

lemma demo_ends: "endsWith demoGenesis (storeOf demoNode)"
  using demo_node_ok by (simp add: endsWith_def node_ok_def) (simp add: node_defs chain_defs lastOf_def)

text \<open>
  A node in its first round of 51 validators, with a chunk of two blocks: one that can be applied and
  one whose slot is yet to come.
\<close>

definition jobMilestone :: milestone where
  "jobMilestone = demoMilestone\<lparr>m_activeValidators := Some 51, m_reward := Some 2\<rparr>"

definition jobNode :: "unit chain_node" where
  "jobNode = demoNode\<lparr>bn_round := demoRoundState\<lparr>rs_store := demoStore\<lparr>
     st_config := demoCfg\<lparr>milestones := Some [jobMilestone]\<rparr>\<rparr>\<rparr>\<rparr>"

definition jobEnv :: "(unit, unit) chain_env" where
  "jobEnv = demoChainEnv\<lparr>ce_round := demoRoundEnv\<lparr>
     re_fromData := (\<lambda>x. if height (fst x) = 2 then Inr demoBlock else Inl JsTypeError)\<rparr>\<rparr>"

definition jobChunk :: "blockview list" where
  "jobChunk = [(demoHeader 2 108 ''h'' ''g'', Some []), (demoHeader 3 400 ''i'' ''h'', Some [])]"

lemma job_node_ok: "node_ok jobNode" "lastOf (st_lastBlocks (storeOf jobNode)) = Some demoGenesis"
  using demo_node_ok by (simp_all add: jobNode_def node_ok_def node_defs store_ok_def chain_defs lastOf_def)

lemma job_answer: "answer jobEnv [] (hd jobChunk) jobNode = Some (demoBlock, Inr Accepted)"
  by code_simp

text \<open>The last block is from second 100, the clock shows 120 and a block takes 8 seconds.\<close>

lemma demo_synced: "syncedNow demoChainEnv demoNode"
  by (simp add: syncedNow_def isSynced_def lastDownloadSynced_def andThen_def node_getLastBlock_run node_defs
    chain_defs lastOf_def theMilestones_def milestoneAt_def newQueue_def q_isRunning_def)

section \<open>Serialization\<close>

text \<open>An address is a string of 21 characters, its bytes their codes.\<close>

definition charBytes :: "string \<Rightarrow> byte list" where
  "charBytes s = map (\<lambda>c. of_nat (of_char c :: nat)) s"

definition byteChars :: "byte list \<Rightarrow> string" where
  "byteChars bs = map (\<lambda>b. char_of (unat b)) bs"

lemma of_char_bound: "(of_char c :: nat) < 256"
  by (metis nat_of_char_less_256)

lemma byteChars_charBytes [simp]: "byteChars (charBytes s) = s"
proof -
  have "unat (of_nat (of_char c) :: byte) = of_char c" for c
    using of_char_bound[of c] by (simp add: unat_of_nat)
  then show ?thesis by (induction s) (simp_all add: byteChars_def charBytes_def)
qed

lemma length_charBytes [simp]: "length (charBytes s) = length s"
  by (simp add: charBytes_def)

lemma charBytes_nil [simp]: "charBytes s = [] \<longleftrightarrow> s = []"
  by (simp add: charBytes_def)

definition demoTypes :: tx_types where
  "demoTypes = [((0, 1), [(1, transferCtor)]), ((3, 1), [(1, voteCtor)])]"

definition demoTxEnv :: tx_env where
  "demoTxEnv = \<lparr>te_types = demoTypes, te_addressFormat = Base58, te_keyFormat = KeySchnorr,
     te_signatureFormat = SigSchnorr,
     te_toBuffer = (\<lambda>a. if length a = 21 then Inr (charBytes a) else Inl (PlainError ''address'')),
     te_fromBuffer = (\<lambda>bs. Inr (byteChars bs)), te_utf8 = charBytes, te_utf8String = byteChars,
     te_maxPayload = Some 1000, te_pubKeyHash = 30, te_sha256 = take 32, te_validate = (\<lambda>_ d. (False, d)),
     te_sign = (\<lambda>h k. Inr (hexOf (h @ k))), te_verify = (\<lambda>h s k. Inr (s = k))\<rparr>"

lemma demoTxEnv_sel [simp]:
  "te_types demoTxEnv = demoTypes" "te_addressFormat demoTxEnv = Base58" "te_keyFormat demoTxEnv = KeySchnorr"
  "te_signatureFormat demoTxEnv = SigSchnorr" "te_utf8 demoTxEnv = charBytes" "te_utf8String demoTxEnv = byteChars"
  "te_maxPayload demoTxEnv = Some 1000" "te_pubKeyHash demoTxEnv = 30"
  by (simp_all add: demoTxEnv_def)

definition demoKey :: string where "demoKey = hexOf (replicate 32 7)"
definition demoSignature :: string where "demoSignature = hexOf (replicate 64 9)"
definition demoAddress :: string where "demoAddress = replicate 21 (CHR ''A'')"

definition demoSigned :: txdata where
  "demoSigned = \<lparr>version = Some 1, network = Some 30, typeGroup = Some 1, ttype = 0, nonce = Some 3,
     senderPublicKey = Some demoKey, fee = 10, amount = 20, expiration = Some 0, recipientId = Some demoAddress,
     asset = noAsset, vendorField = Some ''hi'', tid = None, signature = Some demoSignature, signatures = None\<rparr>"

lemma demo_hex [simp]: "isHex 32 demoKey" "fromHexString demoKey = replicate 32 7"
  "signature_ok SigSchnorr demoSignature" "fromHexString demoSignature = replicate 64 9" "demoSignature \<noteq> []" "demoKey \<noteq> []"
  using length_hexOf[of "replicate 32 7"] length_hexOf[of "replicate 64 9"]
  by (auto simp: demoKey_def demoSignature_def signature_ok_def simp del: length_hexOf)

lemma demo_signature_length: "length demoSignature = 128"
  using length_hexOf[of "replicate 64 9"] by (simp add: demoSignature_def)


lemma demo_address [simp]: "address_ok demoTxEnv demoAddress" "encAddress demoTxEnv demoAddress = charBytes demoAddress"
  "length demoAddress = 21"
  by (simp_all add: address_ok_def encAddress_def demoTxEnv_def demoAddress_def te_addressSize_def)

lemma demo_tx_ok: "tx_ok demoTxEnv TransferTransaction demoSigned"
proof -
  have "common_ok demoTxEnv demoSigned"
    by (simp add: common_ok_def demoSigned_def uint_ok_def te_publicKeySize_def)
  moreover have "vendor_ok demoTxEnv TransferTransaction demoSigned"
    by (simp add: vendor_ok_def demoSigned_def hasVendorField_def)
  moreover have "class_ok demoTxEnv TransferTransaction demoSigned"
    by (simp add: demoSigned_def uint_ok_def)
  moreover have "signed_ok demoTxEnv demoSigned"
    by (simp add: signed_ok_def demoSigned_def canReadNonMultiSignature_def)
  moreover have "registered demoTxEnv TransferTransaction demoSigned"
    by (simp add: registered_def demoSigned_def getCtor_def demoTypes_def internalType_def transferCtor_def)
  moreover have "length (encTx demoTxEnv TransferTransaction demoSigned) \<le> txBufferSize demoTxEnv"
    by (simp add: encTx_def encCommon_def encVendor_def encSignature_def demoSigned_def hasVendorField_def Let_def
      txBufferSize_def)
  ultimately show ?thesis by (simp add: tx_ok_def)
qed

lemma demo_schema: "schemaAccepts demoTxEnv strict (withId demoTxEnv TransferTransaction demoSigned)"
  by (simp add: schemaAccepts_def verifySchema_def withId_def demoSigned_def getCtor_def internalType_def)
    (simp add: demoTxEnv_def demoTypes_def)

lemma demo_class: "classOf demoTxEnv demoSigned = TransferTransaction"
  by (simp add: classOf_def demoSigned_def getCtor_def demoTypes_def internalType_def transferCtor_def)

definition demoBlockData :: blockdata where
  "demoBlockData = \<lparr>bid = None, timestamp = 108, bversion = 1, height = 2, previousBlock = hexOf (replicate 32 1),
     numberOfTransactions = 1, totalAmount = 20, totalFee = 10, reward = 2, payloadLength = 32,
     payloadHash = hexOf (replicate 32 2), generatorPublicKey = demoKey, blockSignature = Some demoSignature\<rparr>"

lemma demo_header_ok: "header_ok demoTxEnv demoBlockData"
  by (simp add: header_ok_def demoBlockData_def uint_ok_def te_publicKeySize_def)

lemma demo_enc_length: "length (encTxData demoTxEnv demoSigned) < 1000"
  unfolding encTxData_def demo_class
  by (simp add: encTx_def encCommon_def encVendor_def encSignature_def demoSigned_def hasVendorField_def Let_def)

lemma demo_block_ok: "block_ok demoTxEnv demoBlockData [demoSigned]"
proof -
  have "goodTx demoTxEnv demoSigned"
    using demo_tx_ok demo_schema demo_enc_length by (simp add: goodTx_def demo_class)
  moreover have "length (encHeader demoBlockData) < 1000" by (simp add: encHeader_def demoBlockData_def)
  moreover have "length (encTxs demoTxEnv [demoSigned]) < 1004" using demo_enc_length by (simp add: encTxs_def encBlob_def)
  ultimately show ?thesis using demo_header_ok by (simp add: block_ok_def bufferSize_def demoBlockData_def)
qed

end
