(* ===== verification/NSect.thy ===== *)
theory NSect
  imports Types
begin

text \<open>
  The n-ary search (packages/utils/source/nsect.ts). The probe is any program: it may change the
  state and fail, and between two calls it may answer as it likes. What the search finds is proved
  for a probe that answers truthfully about a property that holds up to some height.
\<close>

section \<open>nsect.ts\<close>

text \<open>The error of Node's \<open>assert\<close>.\<close>

definition JsAssertionError :: error where
  "JsAssertionError = PlainError ''AssertionError''"

text \<open>\<open>[...p]\<close> for a \<open>Set\<close> the numbers are added to in turn: the first of equal ones stays.\<close>

fun addAll :: "int list \<Rightarrow> int list \<Rightarrow> int list" where
  "addAll p [] = p"
| "addAll p (h # hs) = addAll (if h \<in> set p then p else p @ [h]) hs"

text \<open>\<open>Math.round(a / n)\<close>, the floor of the quotient and a half.\<close>

definition roundDiv :: "int \<Rightarrow> int \<Rightarrow> int" where
  "roundDiv a n = (2 * a + n) div (2 * n)"

definition probeAt :: "nat \<Rightarrow> int \<Rightarrow> int \<Rightarrow> nat \<Rightarrow> int" where
  "probeAt n low high i = low + roundDiv ((high - low) * int i) (int n)"

definition calcProbes :: "nat \<Rightarrow> int \<Rightarrow> int \<Rightarrow> error + int list" where
  "calcProbes n low high =
     (if low \<le> high then Inr (addAll [] (map (probeAt n low high) [0..<n + 1])) else Inl JsAssertionError)"

text \<open>\<open>indexOf\<close>, with \<open>None\<close> for -1.\<close>

fun indexIn :: "'a \<Rightarrow> 'a list \<Rightarrow> nat option" where
  "indexIn x [] = None"
| "indexIn x (y # ys) = (if x = y then Some 0 else map_option Suc (indexIn x ys))"

lemma indexIn_Some: "indexIn x xs = Some i \<Longrightarrow> i < length xs \<and> xs ! i = x"
  by (induction xs arbitrary: i) (auto split: if_splits)

lemma indexIn_None: "indexIn x xs = None \<longleftrightarrow> x \<notin> set xs"
  by (induction xs) auto

section \<open>The heights that are probed\<close>

lemma addAll_sorted:
  assumes "sorted (p @ hs)" and "distinct p"
  shows "sorted (addAll p hs) \<and> distinct (addAll p hs) \<and> set (addAll p hs) = set p \<union> set hs"
  using assms
proof (induction p hs rule: addAll.induct)
  case (2 p h hs)
  have "sorted ((if h \<in> set p then p else p @ [h]) @ hs)" using "2.prems"(1) by (auto simp: sorted_append)
  moreover have "distinct (if h \<in> set p then p else p @ [h])" using "2.prems"(2) by simp
  ultimately show ?case using "2.IH" by auto
qed simp

lemma roundDiv_mono: "a \<le> b \<Longrightarrow> 0 < n \<Longrightarrow> roundDiv a n \<le> roundDiv b n"
  by (simp add: roundDiv_def zdiv_mono1)

lemma roundDiv_exact: "0 < n \<Longrightarrow> roundDiv (a * n) n = a"
proof -
  assume n: "0 < n"
  have "2 * (a * n) + n = n + a * (2 * n)" by simp
  then have "roundDiv (a * n) n = (n + a * (2 * n)) div (2 * n)" by (simp only: roundDiv_def)
  also have "\<dots> = a" using n by (subst div_mult_self1) (simp_all add: div_pos_pos_trivial)
  finally show ?thesis .
qed

lemma roundDiv_step: "a \<le> n \<Longrightarrow> 0 < n \<Longrightarrow> roundDiv (b + a) n \<le> roundDiv b n + 1"
proof -
  assume a: "a \<le> n" "0 < n"
  have "(2 * (b + a) + n) div (2 * n) \<le> (2 * b + n + 1 * (2 * n)) div (2 * n)"
    using a by (intro zdiv_mono1) simp_all
  also have "\<dots> = (2 * b + n) div (2 * n) + 1" using a by (subst div_mult_self1) simp_all
  finally show ?thesis by (simp add: roundDiv_def)
qed

lemma probeAt_ends: "0 < n \<Longrightarrow> probeAt n low high 0 = low" "0 < n \<Longrightarrow> probeAt n low high n = high"
  using roundDiv_exact[of "int n" 0] roundDiv_exact[of "int n" "high - low"] by (simp_all add: probeAt_def)

lemma probeAt_mono:
  assumes "0 < n" and "low \<le> high" and "i \<le> j" shows "probeAt n low high i \<le> probeAt n low high j"
  using assms by (auto simp: probeAt_def intro!: roundDiv_mono mult_left_mono)

lemma probeAt_step:
  assumes "0 < n" and "high - low \<le> int n"
  shows "probeAt n low high (Suc i) \<le> probeAt n low high i + 1"
proof -
  have "(high - low) * int (Suc i) = (high - low) * int i + (high - low)" by (simp add: distrib_left)
  then show ?thesis using roundDiv_step[of "high - low" "int n" "(high - low) * int i"] assms
    by (simp only: probeAt_def) simp
qed

lemma step_hits:
  fixes f :: "nat \<Rightarrow> int"
  assumes "\<And>i. i < n \<Longrightarrow> f (Suc i) \<le> f i + 1" and "f 0 \<le> x" and "x \<le> f n"
  shows "\<exists>i \<le> n. f i = x"
  using assms
proof (induction n)
  case (Suc n)
  show ?case
  proof (cases "x \<le> f n")
    case True
    then obtain i where "i \<le> n" "f i = x" using Suc.IH Suc.prems(1,2) less_SucI by blast
    then show ?thesis using le_SucI by blast
  next
    case False
    then have "f (Suc n) = x" using Suc.prems(1)[of n] Suc.prems(3) by simp
    then show ?thesis by blast
  qed
qed simp

lemma probes_list:
  assumes "0 < n" and "low \<le> high"
  shows "sorted (map (probeAt n low high) [0..<n + 1])"
  using probeAt_mono[OF assms] by (auto simp: sorted_iff_nth_mono simp del: upt_Suc)

lemma calcProbes_Inr:
  assumes "0 < n" and "calcProbes n low high = Inr hs"
  shows "sorted hs" "distinct hs" "set hs \<subseteq> {low..high}" "low \<in> set hs" "high \<in> set hs" "low \<le> high"
    and "high - low \<le> int n \<Longrightarrow> set hs = {low..high}"
proof -
  let ?at = "probeAt n low high"
  have le: "low \<le> high" and hs: "hs = addAll [] (map ?at [0..<n + 1])"
    using assms(2) by (auto simp: calcProbes_def split: if_splits)
  note all = addAll_sorted[of "[]" "map ?at [0..<n + 1]", simplified append_Nil, OF probes_list[OF assms(1) le]]
  show "sorted hs" "distinct hs" "low \<le> high" using all le by (simp_all add: hs)
  have set: "set hs = ?at ` {0..n}" using all by (simp add: hs atLeastLessThanSuc_atLeastAtMost del: upt_Suc)
  show "low \<in> set hs" "high \<in> set hs"
    using probeAt_ends[OF assms(1), of low high] imageI[of 0 "{0..n}" ?at] imageI[of n "{0..n}" ?at]
    by (simp_all add: set)
  show sub: "set hs \<subseteq> {low..high}"
    using probeAt_mono[OF assms(1) le, of 0] probeAt_mono[OF assms(1) le, of _ n] probeAt_ends[OF assms(1)]
    by (force simp: set)
  show "set hs = {low..high}" if "high - low \<le> int n"
  proof
    show "{low..high} \<subseteq> set hs"
    proof
      fix x assume "x \<in> {low..high}"
      then have "\<exists>i \<le> n. ?at i = x"
        using probeAt_step[OF assms(1) that] probeAt_ends[OF assms(1)] by (intro step_hits) simp_all
      then show "x \<in> set hs" by (auto simp: set)
    qed
  qed (rule sub)
qed

section \<open>The search\<close>

text \<open>
  \<open>find\<close>: \<open>best\<close> is \<open>highestMatching\<close>. The assertions are on the index of the match and on it
  not being the last one.
\<close>

function nsectLoop :: "nat \<Rightarrow> (int list \<Rightarrow> ('s, error, int option) prog) \<Rightarrow> int \<Rightarrow> int \<Rightarrow> int option \<Rightarrow>
    ('s, error, int option) prog" where
  "nsectLoop n probe low high best s =
     (case calcProbes n low high of Inl e \<Rightarrow> (Inl e, s)
      | Inr hs \<Rightarrow>
         (case probe hs s of (Inl e, s') \<Rightarrow> (Inl e, s')
          | (Inr None, s') \<Rightarrow> (Inr best, s')
          | (Inr (Some m), s') \<Rightarrow>
              if low + int n \<ge> high then (Inr (Some m), s')
              else if m = last hs then (Inr (Some m), s')
              else (case indexIn m hs of None \<Rightarrow> (Inl JsAssertionError, s')
                | Some i \<Rightarrow>
                    if \<not> i < length hs - 1 then (Inl JsAssertionError, s')
                    else if hs ! i + 1 = hs ! (i + 1) then (Inr (Some m), s')
                    else nsectLoop n probe (m + 1) (hs ! (i + 1) - 1) (Some m) s')))"
  by pat_completeness auto
termination
proof (relation "measure (\<lambda>(n, probe, low, high, best, s). nat (high - low + 1))")
  fix n :: nat and low high :: int and hs m i
  assume hs: "calcProbes n low high = Inr hs" and i: "indexIn m hs = Some i" "\<not> \<not> i < length hs - 1"
    and far: "\<not> low + int n \<ge> high"
  have "0 < n"
  proof (rule ccontr)
    assume "\<not> 0 < n"
    then have "hs = [low]" using hs by (simp add: calcProbes_def probeAt_def roundDiv_def split: if_splits)
    then show False using i(2) by simp
  qed
  note ok = calcProbes_Inr[OF this hs]
  have "m \<in> set hs" "hs ! (i + 1) \<in> set hs" using i indexIn_Some[OF i(1)] by auto
  then have "low \<le> m" "hs ! (i + 1) \<le> high" using ok(3) by auto
  then have "nat (hs ! (i + 1) - 1 - (m + 1) + 1) < nat (high - low + 1)" using ok(6) by simp
  then show "\<And>probe best s s'. ((n, probe, m + 1, hs ! (i + 1) - 1, Some m, s'), n, probe, low, high, best, s)
      \<in> measure (\<lambda>(n, probe, low, high, best, s). nat (high - low + 1))"
    by simp
qed simp_all

declare nsectLoop.simps [simp del]

lemma nsectLoop_keeps:
  assumes "\<And>hs. keeps P (probe hs)"
  shows "P s \<Longrightarrow> P (snd (nsectLoop n probe low high best s))"
  using assms
proof (induction n probe low high best s rule: nsectLoop.induct)
  case (1 n probe low high best s)
  show ?case
  proof (cases "calcProbes n low high")
    case (Inl e)
    then show ?thesis using "1.prems" by (subst nsectLoop.simps) simp
  next
    case hs: (Inr hs)
    obtain v s' where p: "probe hs s = (v, s')" by fastforce
    then have s': "P s'" using keepsD[OF "1.prems"(2) "1.prems"(1)] by blast
    show ?thesis using "1.IH"[OF hs] "1.prems"(2) hs p s'
      by (subst nsectLoop.simps) (auto split: sum.splits option.splits)
  qed
qed


definition nsect_find :: "nat \<Rightarrow> (int list \<Rightarrow> ('s, error, int option) prog) \<Rightarrow> int \<Rightarrow> int \<Rightarrow> ('s, error, int option) prog" where
  "nsect_find n probe low high = nsectLoop n probe low high None"

lemma keeps_nsect_find [keeps_intros]: "(\<And>hs. keeps P (probe hs)) \<Longrightarrow> keeps P (nsect_find n probe low high)"
  unfolding nsect_find_def by (rule keepsI) (rule nsectLoop_keeps)


text \<open>Whatever the probe answers, as long as it names one of the distinct heights it was asked for: the assertions hold.\<close>

definition answers :: "(int list \<Rightarrow> ('s, error, int option) prog) \<Rightarrow> bool" where
  "answers probe \<longleftrightarrow> (\<forall>hs s m s'. distinct hs \<longrightarrow> probe hs s = (Inr (Some m), s') \<longrightarrow> m \<in> set hs)"

lemma sorted_last: "sorted hs \<Longrightarrow> x \<in> set hs \<Longrightarrow> x \<le> last hs"
  by (induction hs) auto

lemma index_not_last:
  assumes "indexIn m hs = Some i" and "m \<noteq> last hs" shows "i < length hs - 1"
proof -
  have i: "i < length hs" "hs ! i = m" using indexIn_Some[OF assms(1)] by auto
  then have "hs \<noteq> []" by auto
  then have "i \<noteq> length hs - 1" using i(2) assms(2) by (auto simp: last_conv_nth)
  then show ?thesis using i(1) by simp
qed

lemma next_in_range:
  assumes ok: "0 < n" "calcProbes n low high = Inr hs" and i: "indexIn m hs = Some i" "i < length hs - 1"
    and gap: "hs ! i + 1 \<noteq> hs ! (i + 1)"
  shows "m + 1 \<le> hs ! (i + 1) - 1" "low \<le> m" "hs ! (i + 1) \<le> high"
proof -
  note c = calcProbes_Inr[OF ok]
  have m: "hs ! i = m" "i < length hs" using indexIn_Some[OF i(1)] by auto
  have "hs ! i < hs ! (i + 1)"
    using sorted_wrt_nth_less[of "(<)" hs i "i + 1"] c(1,2) i(2) by (simp add: strict_sorted_iff)
  then show "m + 1 \<le> hs ! (i + 1) - 1" using gap m by simp
  have "m \<in> set hs" "hs ! (i + 1) \<in> set hs" using m i(2) by auto
  then show "low \<le> m" "hs ! (i + 1) \<le> high" using c(3) by auto
qed

definition outcome ::
    "(int list \<Rightarrow> ('s, error, int option) prog) \<Rightarrow> int \<Rightarrow> int \<Rightarrow> int option \<Rightarrow> (error + int option) \<times> 's \<Rightarrow> bool" where
  "outcome probe low high best p \<longleftrightarrow> (case p of
      (Inr None, s') \<Rightarrow> best = None
    | (Inr (Some m), s') \<Rightarrow> best = Some m \<or> low \<le> m \<and> m \<le> high
    | (Inl e, s') \<Rightarrow> \<exists>hs t. hs \<noteq> [] \<and> set hs \<subseteq> {low..high} \<and> probe hs t = (Inl e, s'))"

lemma outcome_wider:
  assumes "outcome probe low' high' (Some m) p" and "low \<le> m" and "m \<le> high" and "low \<le> low'" and "high' \<le> high"
  shows "outcome probe low high best p"
proof -
  obtain r s' where p: "p = (r, s')" by fastforce
  consider e where "r = Inl e" | "r = Inr None" | k where "r = Inr (Some k)" by (metis obj_sumE option.exhaust)
  then show ?thesis
  proof cases
    case (1 e)
    then obtain hs t where "hs \<noteq> []" "set hs \<subseteq> {low'..high'}" "probe hs t = (Inl e, s')"
      using assms(1) p by (auto simp: outcome_def)
    moreover from this have "set hs \<subseteq> {low..high}" using assms(4,5) by force
    ultimately show ?thesis using p 1 by (auto simp: outcome_def)
  qed (use assms p in \<open>auto simp: outcome_def\<close>)
qed

lemma nsectLoop_answer:
  assumes "answers probe" and "0 < n" and "low \<le> high"
  shows "outcome probe low high best (nsectLoop n probe low high best s)"
  using assms
proof (induction n probe low high best s rule: nsectLoop.induct)
  case (1 n probe low high best s)
  obtain hs where hs: "calcProbes n low high = Inr hs" using "1.prems"(3) by (simp add: calcProbes_def)
  note c = calcProbes_Inr[OF "1.prems"(2) hs]
  obtain r s' where p: "probe hs s = (r, s')" by fastforce
  consider e where "r = Inl e" | "r = Inr None" | m where "r = Inr (Some m)" by (metis obj_sumE option.exhaust)
  then show ?case
  proof cases
    case (1 e)
    then have "nsectLoop n probe low high best s = (Inl e, s')" using hs p by (subst nsectLoop.simps) simp
    moreover have "hs \<noteq> []" using c(4) by auto
    ultimately show ?thesis using c(3) p 1 by (auto simp: outcome_def)
  next
    case 2
    then have "nsectLoop n probe low high best s = (Inr best, s')" using hs p by (subst nsectLoop.simps) simp
    then show ?thesis by (simp add: outcome_def split: option.splits)
  next
    case (3 m)
    then have p: "probe hs s = (Inr (Some m), s')" using p by simp
    then have m: "m \<in> set hs" "low \<le> m" "m \<le> high" using "1.prems"(1) c(2,3) unfolding answers_def by force+
    obtain i where i: "indexIn m hs = Some i" using m(1) indexIn_None[of m hs] by fastforce
    show ?thesis
    proof (cases "low + int n \<ge> high \<or> m = last hs \<or> hs ! i + 1 = hs ! (i + 1)")
      case True
      then have "nsectLoop n probe low high best s = (Inr (Some m), s')"
        using hs p i index_not_last[OF i] by (subst nsectLoop.simps) auto
      then show ?thesis using m by (simp add: outcome_def)
    next
      case False
      then have go: "\<not> low + int n \<ge> high" "m \<noteq> last hs" "hs ! i + 1 \<noteq> hs ! (i + 1)" by blast+
      note lt = index_not_last[OF i go(2)]
      note nx = next_in_range[OF "1.prems"(2) hs i lt go(3)]
      have "nsectLoop n probe low high best s = nsectLoop n probe (m + 1) (hs ! (i + 1) - 1) (Some m) s'"
        using hs p i lt go by (subst nsectLoop.simps) simp
      moreover have "outcome probe (m + 1) (hs ! (i + 1) - 1) (Some m)
          (nsectLoop n probe (m + 1) (hs ! (i + 1) - 1) (Some m) s')"
        using "1.IH"[OF hs p[symmetric] refl refl go(1) go(2) i _ go(3) "1.prems"(1,2) nx(1)] lt by simp
      ultimately show ?thesis using nx m by (simp add: outcome_wider)
    qed
  qed
qed

lemma nsect_find_outcome:
  assumes "answers probe" and "0 < n" and "low \<le> high"
  shows "outcome probe low high None (nsect_find n probe low high s)"
  unfolding nsect_find_def using assms by (rule nsectLoop_answer)

section \<open>Searching with a truthful probe\<close>

text \<open>The greatest of the numbers (given in ascending order) with the property.\<close>

definition highest :: "(int \<Rightarrow> bool) \<Rightarrow> int list \<Rightarrow> int option" where
  "highest P xs = (case rev (filter P xs) of [] \<Rightarrow> None | x # _ \<Rightarrow> Some x)"

lemma highest_None: "highest P xs = None \<longleftrightarrow> (\<forall>x \<in> set xs. \<not> P x)"
proof -
  have "highest P xs = None \<longleftrightarrow> filter P xs = []" by (simp add: highest_def split: list.splits)
  then show ?thesis by (simp add: filter_empty_conv)
qed

lemma highest_Some:
  assumes "sorted xs"
  shows "highest P xs = Some m \<longleftrightarrow> m \<in> set xs \<and> P m \<and> (\<forall>x \<in> set xs. P x \<longrightarrow> x \<le> m)"
proof -
  have s: "sorted (filter P xs)" using assms by (rule sorted_filter[where f = id, simplified])
  show ?thesis
  proof (cases "filter P xs" rule: rev_cases)
    case Nil
    then show ?thesis by (auto simp: highest_def filter_empty_conv)
  next
    case (snoc ys y)
    have f: "{x \<in> set xs. P x} = set (ys @ [y])" using snoc by (metis set_filter)
    then have y: "y \<in> set xs" "P y" by auto
    have "x \<le> y" if "x \<in> set xs" "P x" for x
    proof -
      have "x \<in> set (ys @ [y])" using that f by blast
      then show ?thesis using s snoc by (auto simp: sorted_append)
    qed
    then show ?thesis using y by (auto simp: highest_def snoc intro: antisym)
  qed
qed

text \<open>
  The interface of the probe: asked for heights in the range, it returns the highest one with the
  property, and what it needs of the state to do so stays true. The property holds up to some
  height.
\<close>

locale probing =
  fixes P :: "int \<Rightarrow> bool" and ready :: "'s \<Rightarrow> bool" and lo hi :: int
    and probe :: "int list \<Rightarrow> ('s, error, int option) prog"
  assumes downward: "P m \<Longrightarrow> lo \<le> k \<Longrightarrow> k \<le> m \<Longrightarrow> P k"
    and truthful: "ready s \<Longrightarrow> hs \<noteq> [] \<Longrightarrow> sorted hs \<Longrightarrow> distinct hs \<Longrightarrow> set hs \<subseteq> {lo..hi} \<Longrightarrow>
      \<exists>s'. probe hs s = (Inr (highest P hs), s') \<and> ready s'"
begin

lemma highest_range:
  "highest P [a..b] = Some m \<longleftrightarrow> a \<le> m \<and> m \<le> b \<and> P m \<and> (\<forall>x. a \<le> x \<and> x \<le> b \<and> P x \<longrightarrow> x \<le> m)"
  by (subst highest_Some) auto

lemma highest_split:
  assumes "lo \<le> low" and "P m" and "low \<le> m" and "m < k" and "k \<le> high" and "\<not> P k"
  shows "highest P [low..high] = (case highest P [m + 1..k - 1] of None \<Rightarrow> Some m | Some x \<Rightarrow> Some x)"
proof -
  have above: "\<not> P x" if "k \<le> x" for x
    using that assms downward[of x k] by (meson order.trans less_imp_le)
  show ?thesis
  proof (cases "highest P [m + 1..k - 1]")
    case None
    then have "\<not> P x" if "m < x" "x \<le> high" for x
      using that above[of x] by (cases "x < k") (auto simp: highest_None)
    then have "highest P [low..high] = Some m"
      using assms by (subst highest_range) (auto simp: not_less[symmetric])
    then show ?thesis using None by simp
  next
    case (Some x)
    then have x: "m + 1 \<le> x" "x \<le> k - 1" "P x" "\<And>y. m + 1 \<le> y \<Longrightarrow> y \<le> k - 1 \<Longrightarrow> P y \<Longrightarrow> y \<le> x"
      by (auto simp: highest_range)
    have "y \<le> x" if "P y" for y
      using that above[of y] x(1) x(4)[of y] by (cases "y \<le> m"; cases "y < k") auto
    then have "highest P [low..high] = Some x" using assms x by (subst highest_range) auto
    then show ?thesis using Some by simp
  qed
qed

lemma nsectLoop_highest:
  assumes "ready s" and "0 < n" and "lo \<le> low" and "high \<le> hi" and "low \<le> high"
  shows "\<exists>s'. nsectLoop n probe low high best s =
    (Inr (case highest P [low..high] of None \<Rightarrow> best | Some x \<Rightarrow> Some x), s') \<and> ready s'"
  using assms
proof (induction "nat (high - low)" arbitrary: low high best s rule: less_induct)
  case less
  obtain hs where hs: "calcProbes n low high = Inr hs" using less.prems(5) by (simp add: calcProbes_def)
  note c = calcProbes_Inr[OF less.prems(2) hs]
  have "set hs \<subseteq> {lo..hi}" using c(3) less.prems(3,4) by force
  moreover have "hs \<noteq> []" using c(4) by auto
  ultimately obtain s' where p: "probe hs s = (Inr (highest P hs), s')" and s': "ready s'"
    using truthful[OF less.prems(1) _ c(1,2)] by blast
  show ?case
  proof (cases "highest P hs")
    case None
    then have "\<not> P low" using c(4) by (simp add: highest_None)
    then have "highest P [low..high] = None" using downward[of _ low] less.prems(3) by (auto simp: highest_None)
    then show ?thesis using hs p s' None by (subst nsectLoop.simps) simp
  next
    case (Some m)
    then have m: "m \<in> set hs" "P m" "\<And>x. x \<in> set hs \<Longrightarrow> P x \<Longrightarrow> x \<le> m"
      by (auto simp: highest_Some[OF c(1)])
    have range: "low \<le> m" "m \<le> high" using m(1) c(3) by auto
    obtain i where i: "indexIn m hs = Some i" using m(1) indexIn_None[of m hs] by fastforce
    consider (all) "low + int n \<ge> high" | (top) "\<not> low + int n \<ge> high" "m = last hs"
      | (go) "\<not> low + int n \<ge> high" "m \<noteq> last hs" by blast
    then show ?thesis
    proof cases
      case all
      then have "highest P [low..high] = Some m" using m range c(7) by (subst highest_range) auto
      moreover have "nsectLoop n probe low high best s = (Inr (Some m), s')"
        using hs p Some all by (subst nsectLoop.simps) simp
      ultimately show ?thesis using s' by simp
    next
      case top
      then have "m = high" using sorted_last[OF c(1) c(5)] range by simp
      then have "highest P [low..high] = Some m" using m range by (subst highest_range) auto
      moreover have "nsectLoop n probe low high best s = (Inr (Some m), s')"
        using hs p Some top by (subst nsectLoop.simps) simp
      ultimately show ?thesis using s' by simp
    next
      case go
      let ?k = "hs ! (i + 1)"
      note lt = index_not_last[OF i go(2)]
      have k: "?k \<in> set hs" "m < ?k"
        using lt indexIn_Some[OF i] sorted_wrt_nth_less[of "(<)" hs i "i + 1"] c(1,2) by (auto simp: strict_sorted_iff)
      then have nk: "\<not> P ?k" "?k \<le> high" using m(3)[of ?k] c(3) by auto
      note split = highest_split[OF less.prems(3) m(2) range(1) k(2) nk(2,1)]
      show ?thesis
      proof (cases "hs ! i + 1 = ?k")
        case True
        then have "highest P [m + 1..?k - 1] = None" using indexIn_Some[OF i] by (simp add: highest_None)
        moreover have "nsectLoop n probe low high best s = (Inr (Some m), s')"
          using hs p Some go i lt True by (subst nsectLoop.simps) simp
        ultimately show ?thesis using s' split by simp
      next
        case False
        note nx = next_in_range[OF less.prems(2) hs i lt False]
        have "nsectLoop n probe low high best s = nsectLoop n probe (m + 1) (?k - 1) (Some m) s'"
          using hs p Some go i lt False by (subst nsectLoop.simps) simp
        moreover have "nat (?k - 1 - (m + 1)) < nat (high - low)" using nx by simp
        moreover have "lo \<le> m + 1" "?k - 1 \<le> hi" using range nk less.prems(3,4) by simp_all
        ultimately show ?thesis
          using less.hyps[of "?k - 1" "m + 1" s' "Some m"] s' less.prems(2) nx(1) split
          by (simp split: option.splits)
      qed
    qed
  qed
qed

lemma find_highest:
  assumes "ready s" and "0 < n" and "lo \<le> hi"
  shows "\<exists>s'. nsect_find n probe lo hi s = (Inr (highest P [lo..hi]), s') \<and> ready s'"
proof -
  have "(case highest P [lo..hi] of None \<Rightarrow> None | Some x \<Rightarrow> Some x) = highest P [lo..hi]"
    by (simp split: option.splits)
  then show ?thesis using nsectLoop_highest[OF assms(1,2) order_refl order_refl assms(3), of None]
    unfolding nsect_find_def by simp
qed

end

end
