(* ===== verification/Peers.thy ===== *)
theory Peers
  imports RoundState Collections NSect
begin

text \<open>
  Peers (packages/core-p2p/source): the peer object, the repository, the connector, the rate
  limiter and the listeners. Peer objects are mutable and shared between the repository and the
  running operations, so they live in a heap and are passed by reference. Whatever happens outside
  the node (the network, the clock, the third-party rate limiter and version and address libraries)
  is a parameter: programs on an abstract world \<open>'x\<close>.
\<close>

section \<open>peer.ts\<close>

record verification_result =
  vf_myHeight :: int
  vf_hisHeight :: int
  vf_commonHeight :: int

definition forked :: "verification_result \<Rightarrow> bool" where
  "forked v \<longleftrightarrow> vf_commonHeight v \<noteq> vf_myHeight v \<and> vf_commonHeight v \<noteq> vf_hisHeight v"

record peer_state =
  ps_height :: "int option"
  ps_header :: "blockdata option"
  ps_currentSlot :: "int option"
  ps_forgingAllowed :: "bool option"

record peer =
  pr_ip :: string
  pr_port :: int
  pr_version :: "string option"
  pr_latency :: "int option"
  pr_lastPinged :: "int option"
  pr_errors :: int
  pr_verification :: "verification_result option"
  pr_state :: peer_state
  pr_plugins :: "(string, int) jsmap"
  pr_ports :: "(string, int) jsmap"

definition noState :: peer_state where
  "noState = \<lparr>ps_height = None, ps_header = None, ps_currentSlot = None, ps_forgingAllowed = None\<rparr>"

definition newPeer :: "string \<Rightarrow> int \<Rightarrow> peer" where
  "newPeer ip port = \<lparr>pr_ip = ip, pr_port = port, pr_version = None, pr_latency = None, pr_lastPinged = None,
     pr_errors = 0, pr_verification = None, pr_state = noState, pr_plugins = [], pr_ports = []\<rparr>"

definition peerUrl :: "peer \<Rightarrow> string" where
  "peerUrl p = (if jsMod (pr_port p) 443 = 0 then ''https://'' else ''http://'') @ pr_ip p @ '':'' @ decimal (pr_port p)"

definition isVerified :: "peer \<Rightarrow> bool" where
  "isVerified p \<longleftrightarrow> pr_verification p \<noteq> None"

definition isForked :: "peer \<Rightarrow> bool" where
  "isForked p \<longleftrightarrow> (case pr_verification p of None \<Rightarrow> False | Some v \<Rightarrow> forked v)"

text \<open>The difference in whole minutes, in milliseconds here.\<close>

definition recentlyPinged :: "int \<Rightarrow> peer \<Rightarrow> bool" where
  "recentlyPinged now p \<longleftrightarrow> (case pr_lastPinged p of None \<Rightarrow> False | Some t \<Rightarrow> now - t < 2 * 60000)"

definition toBroadcast :: "peer \<Rightarrow> string \<times> int" where
  "toBroadcast p = (pr_ip p, pr_port p)"

section \<open>The state of the network part\<close>

record 'x p2p =
  pp_objs :: "nat \<Rightarrow> peer"
  pp_next :: nat
  pp_peers :: "(string, nat) jsmap"
  pp_pending :: "(string, nat) jsmap"
  pp_connections :: "string list"
  pp_errors :: "(string, string) jsmap"
  pp_created :: "(string, int) jsmap"
  pp_round :: round_state
  pp_cache :: "blockview list chunk_cache"
  pp_coldStart :: bool
  pp_chunkSize :: int
  pp_initializing :: bool
  pp_scheduled :: bool
  pp_world :: 'x

type_synonym ('x, 'a) p2prog = "('x p2p, error, 'a) prog"

record peer_config =
  pc_version :: string
  pc_nethash :: string
  pc_plugins :: "(string, int) jsmap"

record common_block =
  cb_id :: string
  cb_height :: int

text \<open>A reply carries the height of its sender in the headers, if at all.\<close>

record 'r reply =
  rp_height :: "int option"
  rp_body :: 'r

record 'x p2p_env =
  px_round :: round_env
  px_now :: "'x \<Rightarrow> int"
  px_points :: "string option \<Rightarrow> string \<Rightarrow> 'x \<Rightarrow> int option"
  px_consume :: "string option \<Rightarrow> string \<Rightarrow> ('x, error, unit) prog"
  px_delay :: "int \<Rightarrow> ('x, error, unit) prog"
  px_recheck :: nat
  px_connect :: "peer \<Rightarrow> ('x, error, unit) prog"
  px_status :: "peer \<Rightarrow> ('x, error, (peer_state \<times> peer_config) option reply) prog"
  px_peerList :: "peer \<Rightarrow> ('x, error, (string \<times> int) list option reply) prog"
  px_common :: "peer \<Rightarrow> string list \<Rightarrow> ('x, error, common_block option reply) prog"
  px_blocks :: "peer \<Rightarrow> int \<Rightarrow> int \<Rightarrow> bool \<Rightarrow> ('x, error, (blockdata \<times> string list) list reply) prog"
  px_postBlock :: "peer \<Rightarrow> byte list \<Rightarrow> ('x, error, int option reply) prog"
  px_head :: "peer \<Rightarrow> int \<Rightarrow> ('x, error, int) prog"
  px_serialize :: "block \<Rightarrow> error + byte list"
  px_txFromHex :: "string \<Rightarrow> error + txdata"
  px_signature :: "block \<Rightarrow> error + bool"
  px_sameHeader :: "block \<Rightarrow> blockdata \<Rightarrow> bool"
  px_semverValid :: "string \<Rightarrow> bool"
  px_satisfies :: "bool \<Rightarrow> string \<Rightarrow> string \<Rightarrow> bool"
  px_milestoneVersions :: "round_state \<Rightarrow> string list"
  px_minimumVersions :: "string list"
  px_networkName :: "string option"
  px_nethash :: "string option"
  px_appVersion :: string
  px_serverPort :: int
  px_maxErrors :: int
  px_errorName :: "error \<Rightarrow> string"
  px_skipVerification :: bool
  px_sanitize :: "string \<Rightarrow> string option"
  px_interfaces :: "string list"
  px_isIPv6 :: "string \<Rightarrow> bool"
  px_cidr24 :: "string \<Rightarrow> string"
  px_matches :: "string \<Rightarrow> string \<Rightarrow> bool"
  px_whitelist :: "string list"
  px_blacklist :: "string list"
  px_remoteAccess :: "string list"
  px_disableDiscovery :: bool
  px_maxSameSubnet :: int
  px_verifyTimeout :: int
  px_minimumReach :: int
  px_ignoreMinimumReach :: bool
  px_networkStart :: bool
  px_skipDiscovery :: bool
  px_test :: bool
  px_seeds :: "(string \<times> int) list"
  px_seedsFromUrl :: "error + (string \<times> int) list"
  px_slots :: slots_env
  px_random :: "nat \<Rightarrow> 'x \<Rightarrow> nat \<times> 'x"

text \<open>A program of the world, run on its part of the state; and its clock.\<close>

definition inWorld :: "('x, error, 'a) prog \<Rightarrow> ('x, 'a) p2prog" where
  "inWorld = within pp_world (\<lambda>w s. s\<lparr>pp_world := w\<rparr>)"

definition onPeer :: "nat \<Rightarrow> (peer \<Rightarrow> peer) \<Rightarrow> ('x, unit) p2prog" where
  "onPeer r f = modify (\<lambda>s. s\<lparr>pp_objs := (pp_objs s)(r := f (pp_objs s r))\<rparr>)"

definition peerAt :: "nat \<Rightarrow> ('x, peer) p2prog" where
  "peerAt r = reads (\<lambda>s. pp_objs s r)"

definition nowOf :: "'x p2p_env \<Rightarrow> ('x, int) p2prog" where
  "nowOf X = reads (\<lambda>s. px_now X (pp_world s))"

text \<open>\<open>new Peer(ip, port)\<close>.\<close>

definition createPeer :: "string \<Rightarrow> int \<Rightarrow> ('x, nat) p2prog" where
  "createPeer ip port =
     andThen (reads pp_next) (\<lambda>r.
     andThen (modify (\<lambda>s. s\<lparr>pp_objs := (pp_objs s)(r := newPeer ip port), pp_next := r + 1\<rparr>)) (\<lambda>_. ret r))"

section \<open>peer-repository.ts\<close>

definition getPeers :: "'x p2p \<Rightarrow> nat list" where
  "getPeers s = jm_values (pp_peers s)"

definition hasPeers :: "'x p2p \<Rightarrow> bool" where
  "hasPeers s \<longleftrightarrow> 0 < length (pp_peers s)"

definition getPeer :: "string \<Rightarrow> ('x, nat) p2prog" where
  "getPeer ip = andThen (reads (\<lambda>s. jm_get (pp_peers s) ip)) (defined AssertionException)"

definition setPeer :: "nat \<Rightarrow> ('x, unit) p2prog" where
  "setPeer r = modify (\<lambda>s. s\<lparr>pp_peers := jm_set (pr_ip (pp_objs s r)) r (pp_peers s)\<rparr>)"

definition forgetPeer :: "nat \<Rightarrow> ('x, unit) p2prog" where
  "forgetPeer r = modify (\<lambda>s. s\<lparr>pp_peers := jm_delete (pr_ip (pp_objs s r)) (pp_peers s)\<rparr>)"

definition hasPeer :: "string \<Rightarrow> 'x p2p \<Rightarrow> bool" where
  "hasPeer ip s \<longleftrightarrow> jm_has (pp_peers s) ip"

definition getPendingPeers :: "'x p2p \<Rightarrow> nat list" where
  "getPendingPeers s = jm_values (pp_pending s)"

definition hasPendingPeers :: "'x p2p \<Rightarrow> bool" where
  "hasPendingPeers s \<longleftrightarrow> 0 < length (pp_pending s)"

definition getPendingPeer :: "string \<Rightarrow> ('x, nat) p2prog" where
  "getPendingPeer ip = andThen (reads (\<lambda>s. jm_get (pp_pending s) ip)) (defined AssertionException)"

definition setPendingPeer :: "nat \<Rightarrow> ('x, unit) p2prog" where
  "setPendingPeer r = modify (\<lambda>s. s\<lparr>pp_pending := jm_set (pr_ip (pp_objs s r)) r (pp_pending s)\<rparr>)"

definition forgetPendingPeer :: "nat \<Rightarrow> ('x, unit) p2prog" where
  "forgetPendingPeer r = modify (\<lambda>s. s\<lparr>pp_pending := jm_delete (pr_ip (pp_objs s r)) (pp_pending s)\<rparr>)"

definition hasPendingPeer :: "string \<Rightarrow> 'x p2p \<Rightarrow> bool" where
  "hasPendingPeer ip s \<longleftrightarrow> jm_has (pp_pending s) ip"

definition getSameSubnetPeers :: "'x p2p_env \<Rightarrow> string \<Rightarrow> 'x p2p \<Rightarrow> nat list" where
  "getSameSubnetPeers X ip s = filter (\<lambda>r. let q = pr_ip (pp_objs s r) in
     \<not> px_isIPv6 X q \<and> \<not> px_isIPv6 X ip \<and> px_cidr24 X q = px_cidr24 X ip) (getPeers s)"

section \<open>peer-connector.ts\<close>

definition tenSeconds :: int where "tenSeconds = 10000"

definition sinceCreated :: "'x p2p_env \<Rightarrow> string \<Rightarrow> 'x p2p \<Rightarrow> int" where
  "sinceCreated X ip s = px_now X (pp_world s) - (case jm_get (pp_created s) ip of None \<Rightarrow> 0 | Some t \<Rightarrow> t)"

definition connect :: "'x p2p_env \<Rightarrow> nat \<Rightarrow> ('x, unit) p2prog" where
  "connect X r =
     andThen (peerAt r) (\<lambda>p.
     andThen (reads (\<lambda>s. pr_ip p \<in> set (pp_connections s))) (\<lambda>known.
     andThen (whenever (\<not> known)
       (andThen (reads (sinceCreated X (pr_ip p))) (\<lambda>t.
        whenever (t < tenSeconds) (inWorld (px_delay X (tenSeconds - t)))))) (\<lambda>_.
     andThen (inWorld (px_connect X p)) (\<lambda>_.
     modify (\<lambda>s. s\<lparr>pp_connections := (if pr_ip p \<in> set (pp_connections s) then pp_connections s
          else pp_connections s @ [pr_ip p]),
        pp_created := jm_set (pr_ip p) (px_now X (pp_world s)) (pp_created s)\<rparr>)))))"

text \<open>The timer that forgets the time of the last connection, when it fires, is a step of its own.\<close>

definition disconnect :: "nat \<Rightarrow> ('x, unit) p2prog" where
  "disconnect r = modify (\<lambda>s. s\<lparr>pp_connections := removeAll (pr_ip (pp_objs s r)) (pp_connections s)\<rparr>)"

definition createdExpires :: "string \<Rightarrow> ('x, unit) p2prog" where
  "createdExpires ip = modify (\<lambda>s. if ip \<in> set (pp_connections s) then s
     else s\<lparr>pp_created := jm_delete ip (pp_created s)\<rparr>)"

definition getError :: "nat \<Rightarrow> 'x p2p \<Rightarrow> string option" where
  "getError r s = jm_get (pp_errors s) (pr_ip (pp_objs s r))"

definition setError :: "nat \<Rightarrow> string \<Rightarrow> ('x, unit) p2prog" where
  "setError r e = modify (\<lambda>s. s\<lparr>pp_errors := jm_set (pr_ip (pp_objs s r)) e (pp_errors s)\<rparr>)"

definition hasError :: "nat \<Rightarrow> string \<Rightarrow> 'x p2p \<Rightarrow> bool" where
  "hasError r e s \<longleftrightarrow> getError r s = Some e"

definition forgetError :: "nat \<Rightarrow> ('x, unit) p2prog" where
  "forgetError r = modify (\<lambda>s. s\<lparr>pp_errors := jm_delete (pr_ip (pp_objs s r)) (pp_errors s)\<rparr>)"

section \<open>listeners.ts and the version of a peer\<close>

text \<open>\<open>DisconnectPeer\<close>, the listener of the disconnect event.\<close>

definition disconnectPeer :: "nat \<Rightarrow> ('x, unit) p2prog" where
  "disconnectPeer r = andThen (disconnect r) (\<lambda>_. forgetPeer r)"

definition isValidVersion :: "'x p2p_env \<Rightarrow> nat \<Rightarrow> 'x p2p \<Rightarrow> bool" where
  "isValidVersion X r s = (case pr_version (pp_objs s r) of
     None \<Rightarrow> False
   | Some v \<Rightarrow>
       if v = '''' \<or> \<not> px_semverValid X v then False
       else (let ms = px_milestoneVersions X (pp_round s);
                 minimums = (if ms \<noteq> [] then ms else px_minimumVersions X) in
             list_ex (\<lambda>m. px_satisfies X (px_networkName X \<noteq> Some ''mainnet'') v m) minimums))"

definition disconnectInvalidPeers :: "'x p2p_env \<Rightarrow> ('x, unit) p2prog" where
  "disconnectInvalidPeers X =
     andThen (reads getPeers) (forEach (\<lambda>r.
       andThen (reads (isValidVersion X r)) (\<lambda>valid. whenever (\<not> valid) (disconnectPeer r))))"

section \<open>is-valid-peer.ts, is-whitelisted.ts and is-blacklisted.ts\<close>

definition isLocalHost :: "'x p2p_env \<Rightarrow> string \<Rightarrow> bool" where
  "isLocalHost X ip \<longleftrightarrow> take 1 ip = ''0'' \<or> ip \<in> {''127.0.0.1'', ''::ffff:127.0.0.1'', ''::1''} \<or>
     ip \<in> set (px_interfaces X)"

text \<open>The address of the peer is replaced by its sanitized form.\<close>

definition isValidPeer :: "'x p2p_env \<Rightarrow> nat \<Rightarrow> ('x, bool) p2prog" where
  "isValidPeer X r =
     andThen (peerAt r) (\<lambda>p.
     case px_sanitize X (pr_ip p) of
       None \<Rightarrow> ret False
     | Some ip \<Rightarrow>
         if ip = '''' then ret False
         else andThen (onPeer r (\<lambda>p. p\<lparr>pr_ip := ip\<rparr>)) (\<lambda>_. ret (\<not> isLocalHost X ip)))"

definition isWhitelisted :: "'x p2p_env \<Rightarrow> string list \<Rightarrow> string \<Rightarrow> bool" where
  "isWhitelisted X whitelist ip \<longleftrightarrow> whitelist = [] \<or> list_ex (px_matches X ip) whitelist"

definition isBlacklisted :: "'x p2p_env \<Rightarrow> string list \<Rightarrow> string \<Rightarrow> bool" where
  "isBlacklisted X blacklist ip \<longleftrightarrow> blacklist \<noteq> [] \<and> list_ex (px_matches X ip) blacklist"

section \<open>rate-limiter.ts and build-rate-limiter.ts\<close>

text \<open>
  The points left for an address under the global limit (\<open>None\<close>) or the limit of an endpoint, and
  consuming one, are the third-party limiter's. A limiter has the endpoints it was built with.
\<close>

definition rateLimitedEndpoints :: "string list" where
  "rateLimitedEndpoints = [''p2p.blocks.postBlock'', ''p2p.blocks.getBlocks'', ''p2p.peer.getPeers'',
     ''p2p.peer.getStatus'', ''p2p.peer.getCommonBlocks'', ''p2p.transactions.postTransactions'']"

definition rl_consume :: "'x p2p_env \<Rightarrow> string \<Rightarrow> string option \<Rightarrow> ('x, error, unit) prog" where
  "rl_consume X ip endpoint =
     andThen (px_consume X None ip) (\<lambda>_.
     whenever (truthyStr endpoint \<and> the endpoint \<in> set rateLimitedEndpoints) (px_consume X endpoint ip))"

definition hasExceededRateLimit :: "'x p2p_env \<Rightarrow> string \<Rightarrow> string option \<Rightarrow> ('x, error, bool) prog" where
  "hasExceededRateLimit X ip endpoint =
     catching (andThen (rl_consume X ip endpoint) (\<lambda>_. ret False)) (\<lambda>_. ret True)"

definition outOfPoints :: "int option \<Rightarrow> bool" where
  "outOfPoints p \<longleftrightarrow> (case p of None \<Rightarrow> False | Some n \<Rightarrow> n \<le> 0)"

definition hasExceededRateLimitNoConsume :: "'x p2p_env \<Rightarrow> string \<Rightarrow> string option \<Rightarrow> 'x \<Rightarrow> bool" where
  "hasExceededRateLimitNoConsume X ip endpoint w \<longleftrightarrow>
     outOfPoints (px_points X None ip w) \<or>
     truthyStr endpoint \<and> the endpoint \<in> set rateLimitedEndpoints \<and> outOfPoints (px_points X endpoint ip w)"

definition isBlocked :: "'x p2p_env \<Rightarrow> string \<Rightarrow> 'x \<Rightarrow> bool" where
  "isBlocked X ip w \<longleftrightarrow> outOfPoints (px_points X None ip w)"

section \<open>shuffle.ts\<close>

text \<open>\<open>Math.floor(Math.random() * (index + 1))\<close> is a number drawn by \<open>px_random\<close>.\<close>

fun shuffleFrom :: "'x p2p_env \<Rightarrow> nat \<Rightarrow> nat \<Rightarrow> 'a list \<Rightarrow> ('x, 'a list) p2prog" where
  "shuffleFrom X i 0 xs = ret xs"
| "shuffleFrom X i (Suc n) xs =
     andThen (inWorld (\<lambda>w. case px_random X i w of (k, w') \<Rightarrow> (Inr k, w'))) (\<lambda>k.
     shuffleFrom X (i + 1) n (xs[i := xs ! k, k := xs ! i]))"

definition shuffle :: "'x p2p_env \<Rightarrow> 'a list \<Rightarrow> ('x, 'a list) p2prog" where
  "shuffle X xs = shuffleFrom X 0 (length xs) xs"

section \<open>Lemmas\<close>

text \<open>The repository: every peer is filed under its own address, so no two share one.\<close>

definition repo_filed :: "'x p2p \<Rightarrow> bool" where
  "repo_filed s \<longleftrightarrow> jm_inv (pp_peers s) \<and> (\<forall>ip r. jm_get (pp_peers s) ip = Some r \<longrightarrow> pr_ip (pp_objs s r) = ip)"

lemma inWorld_apply: "px w = (r, w') \<Longrightarrow> pp_world s = w \<Longrightarrow> inWorld px s = (r, s\<lparr>pp_world := w'\<rparr>)"
  by (simp add: inWorld_def within_def)

lemma keeps_inWorld: "(\<And>s w. P s \<Longrightarrow> P (s\<lparr>pp_world := w\<rparr>)) \<Longrightarrow> keeps P (inWorld m)"
  unfolding inWorld_def by (rule keeps_within[where Q = "\<lambda>_. True"]) (simp_all add: keeps_def)

lemma repo_filed_setPeer [keeps_intros]: "keeps repo_filed (setPeer r)"
  by (rule keepsI) (auto simp: setPeer_def repo_filed_def)

lemma repo_filed_forgetPeer [keeps_intros]: "keeps repo_filed (forgetPeer r)"
  by (rule keepsI) (auto simp: forgetPeer_def repo_filed_def split: if_splits)

lemma repo_filed_onPeer: "(\<And>p. pr_ip (f p) = pr_ip p) \<Longrightarrow> keeps repo_filed (onPeer r f)"
  by (rule keepsI) (auto simp: onPeer_def repo_filed_def)

lemma repo_filed_disconnectPeer [keeps_intros]: "keeps repo_filed (disconnectPeer r)"
  unfolding disconnectPeer_def
  by (intro keeps_intros) (auto simp: disconnect_def repo_filed_def intro!: keepsI)

text \<open>Shuffling permutes.\<close>

lemma shuffleFrom_mset:
  assumes "\<And>k w. fst (px_random X k w) \<le> k" and "i + n \<le> length xs"
  shows "\<exists>ys s'. shuffleFrom X i n xs s = (Inr ys, s\<lparr>pp_world := s'\<rparr>) \<and> mset ys = mset xs"
  using assms(2)
proof (induction n arbitrary: i xs s)
  case 0
  show ?case by (rule exI[of _ xs], rule exI[of _ "pp_world s"]) simp
next
  case (Suc n)
  obtain k w' where k: "px_random X i (pp_world s) = (k, w')" by fastforce
  then have "k \<le> i" using assms(1)[of i "pp_world s"] by simp
  then have "k < length xs" "i < length xs" using Suc.prems by auto
  then have m: "mset (xs[i := xs ! k, k := xs ! i]) = mset xs" by (simp add: mset_swap)
  obtain ys s' where "shuffleFrom X (i + 1) n (xs[i := xs ! k, k := xs ! i]) (s\<lparr>pp_world := w'\<rparr>) =
      (Inr ys, s\<lparr>pp_world := w'\<rparr>\<lparr>pp_world := s'\<rparr>)" "mset ys = mset (xs[i := xs ! k, k := xs ! i])"
    using Suc.IH[of "i + 1" "xs[i := xs ! k, k := xs ! i]" "s\<lparr>pp_world := w'\<rparr>"] Suc.prems by auto
  then show ?case using k m by (auto simp: andThen_def inWorld_def within_def)
qed

lemma shuffle_run:
  assumes "\<And>k w. fst (px_random X k w) \<le> k"
  obtains ys w where "shuffle X xs s = (Inr ys, s\<lparr>pp_world := w\<rparr>)" and "mset ys = mset xs"
  using shuffleFrom_mset[OF assms, where i = 0 and n = "length xs" and xs = xs and s = s]
  by (auto simp: shuffle_def)

end
