(* ===== verification/PeerComm.thy ===== *)
theory PeerComm
  imports Peers
begin

text \<open>
  The peer communicator (packages/core-p2p/source/peer-communicator.ts): one request after the
  other, with its throttling, the bookkeeping of errors and latencies, and the disconnection of a
  peer that fails too often. Requests that run concurrently are taken one after the other. The
  queue of transactions to post is not modelled.
\<close>

section \<open>Requests\<close>

definition requestUrl :: "peer \<Rightarrow> string \<Rightarrow> string" where
  "requestUrl p path = ''http://'' @ pr_ip p @ '':4002/'' @ path"

text \<open>The loop waits until the rate limit is no longer exceeded; \<open>n\<close> bounds the number of waits.\<close>

fun throttle :: "'x p2p_env \<Rightarrow> string \<Rightarrow> string \<Rightarrow> nat \<Rightarrow> ('x, unit) p2prog" where
  "throttle X ip url n =
     andThen (reads (\<lambda>s. hasExceededRateLimitNoConsume X ip (Some url) (pp_world s))) (\<lambda>exceeded.
     whenever exceeded (case n of 0 \<Rightarrow> throw OutOfFuel
       | Suc k \<Rightarrow> andThen (inWorld (px_delay X 1000)) (\<lambda>_. throttle X ip url k)))"

declare throttle.simps [simp del]

definition setHeight_peer :: "int \<Rightarrow> peer \<Rightarrow> peer" where
  "setHeight_peer h p = p\<lparr>pr_state := (pr_state p)\<lparr>ps_height := Some h\<rparr>\<rparr>"

definition attemptRequest :: "'x p2p_env \<Rightarrow> nat \<Rightarrow> ('r reply \<Rightarrow> bool) \<Rightarrow> ('x, error, 'r reply) prog \<Rightarrow>
    ('x, 'r) p2prog" where
  "attemptRequest X r schema request =
     andThen (forgetError r) (\<lambda>_.
     andThen (nowOf X) (\<lambda>start.
     andThen (connect X r) (\<lambda>_.
     andThen (inWorld request) (\<lambda>response.
     andThen (onPeer r (\<lambda>p. p\<lparr>pr_errors := 0\<rparr>)) (\<lambda>_.
     andThen (nowOf X) (\<lambda>now.
     andThen (onPeer r (\<lambda>p. p\<lparr>pr_latency := Some (now - start)\<rparr>)) (\<lambda>_.
     andThen (case rp_height response of None \<Rightarrow> ret () | Some h \<Rightarrow> whenever (h \<noteq> 0) (onPeer r (setHeight_peer h))) (\<lambda>_.
     andThen (throwIf (\<not> schema response) (PlainError ''Response validation failed'')) (\<lambda>_.
     ret (rp_body response))))))))))"

text \<open>The listener of the disconnect event runs when the event is dispatched.\<close>

definition requestFailed :: "'x p2p_env \<Rightarrow> nat \<Rightarrow> error \<Rightarrow> ('x, 'r) p2prog" where
  "requestFailed X r e =
     andThen (setError r (px_errorName X e)) (\<lambda>_.
     andThen (onPeer r (\<lambda>p. p\<lparr>pr_errors := pr_errors p + 1\<rparr>)) (\<lambda>_.
     andThen (peerAt r) (\<lambda>p.
     andThen (whenever (pr_errors p \<ge> px_maxErrors X) (disconnectPeer r)) (\<lambda>_.
     throw e))))"

definition sendRequest :: "'x p2p_env \<Rightarrow> nat \<Rightarrow> string \<Rightarrow> ('r reply \<Rightarrow> bool) \<Rightarrow> (peer \<Rightarrow> ('x, error, 'r reply) prog) \<Rightarrow>
    ('x, 'r) p2prog" where
  "sendRequest X r path schema request =
     andThen (peerAt r) (\<lambda>p.
     let url = requestUrl p path in
     andThen (throttle X (pr_ip p) url (px_recheck X)) (\<lambda>_.
     andThen (catching (inWorld (rl_consume X (pr_ip p) (Some url))) (\<lambda>_. ret ())) (\<lambda>_.
     catching (attemptRequest X r schema (request p)) (requestFailed X r))))"

section \<open>The requests of the communicator\<close>

text \<open>The reply schemas: \<open>v\<close> is the validator's verdict on a reply of each path.\<close>

record verdicts =
  vd_status :: "(peer_state \<times> peer_config) option reply \<Rightarrow> bool"
  vd_peers :: "(string \<times> int) list option reply \<Rightarrow> bool"
  vd_common :: "common_block option reply \<Rightarrow> bool"
  vd_blocks :: "(blockdata \<times> string list) list reply \<Rightarrow> bool"
  vd_posted :: "int option reply \<Rightarrow> bool"

definition postBlock :: "'x p2p_env \<Rightarrow> verdicts \<Rightarrow> nat \<Rightarrow> block \<Rightarrow> ('x, unit) p2prog" where
  "postBlock X v r b =
     andThen (liftE (px_serialize X b)) (\<lambda>bytes.
     andThen (sendRequest X r ''blocks'' (vd_posted v) (\<lambda>p. px_postBlock X p bytes)) (\<lambda>h.
     case h of None \<Rightarrow> ret () | Some h \<Rightarrow> whenever (h \<noteq> 0) (onPeer r (setHeight_peer h))))"

definition pc_getStatus :: "'x p2p_env \<Rightarrow> verdicts \<Rightarrow> nat \<Rightarrow> ('x, (peer_state \<times> peer_config) option) p2prog" where
  "pc_getStatus X v r = sendRequest X r ''status'' (vd_status v) (px_status X)"

definition pc_getPeers :: "'x p2p_env \<Rightarrow> verdicts \<Rightarrow> nat \<Rightarrow> ('x, (string \<times> int) list option) p2prog" where
  "pc_getPeers X v r = sendRequest X r ''peers'' (vd_peers v) (px_peerList X)"

definition hasCommonBlocks :: "'x p2p_env \<Rightarrow> verdicts \<Rightarrow> nat \<Rightarrow> string list \<Rightarrow> ('x, common_block option) p2prog" where
  "hasCommonBlocks X v r ids = sendRequest X r ''blocks/common'' (vd_common v) (\<lambda>p. px_common X p ids)"

text \<open>The transactions of a block come as hexadecimal bytes; with only headers they are dropped.\<close>

definition readBlockReply :: "'x p2p_env \<Rightarrow> bool \<Rightarrow> blockdata \<times> string list \<Rightarrow> error + blockview" where
  "readBlockReply X headersOnly b =
     (if headersOnly then Inr (fst b, None)
      else case mapE (px_txFromHex X) (snd b) of Inl e \<Rightarrow> Inl e | Inr ts \<Rightarrow> Inr (fst b, Some ts))"

definition maxDownloadBlocks :: int where "maxDownloadBlocks = 400"

definition getPeerBlocks :: "'x p2p_env \<Rightarrow> verdicts \<Rightarrow> nat \<Rightarrow> int \<Rightarrow> int \<Rightarrow> bool \<Rightarrow> ('x, blockview list) p2prog" where
  "getPeerBlocks X v r from limit headersOnly =
     andThen (sendRequest X r ''blocks'' (vd_blocks v) (\<lambda>p. px_blocks X p from limit headersOnly)) (\<lambda>bs.
     liftE (mapE (readBlockReply X headersOnly) bs))"

definition pingPort :: "'x p2p_env \<Rightarrow> nat \<Rightarrow> string \<times> int \<Rightarrow> ('x, unit) p2prog" where
  "pingPort X r plugin =
     andThen (onPeer r (\<lambda>p. p\<lparr>pr_ports := jm_set (fst plugin) (- 1) (pr_ports p)\<rparr>)) (\<lambda>_.
     catching
       (andThen (peerAt r) (\<lambda>p.
        andThen (inWorld (px_head X p (snd plugin))) (\<lambda>code.
        whenever (code = 200) (onPeer r (\<lambda>p. p\<lparr>pr_ports := jm_set (fst plugin) (snd plugin) (pr_ports p)\<rparr>)))))
       (\<lambda>_. ret ()))"

definition pingPorts :: "'x p2p_env \<Rightarrow> nat \<Rightarrow> ('x, unit) p2prog" where
  "pingPorts X r = andThen (peerAt r) (\<lambda>p. forEach (pingPort X r) (pr_plugins p))"

text \<open>\<open>#validatePeerConfig\<close>: the version is kept even when the peer is refused.\<close>

definition validatePeerConfig :: "'x p2p_env \<Rightarrow> nat \<Rightarrow> peer_config \<Rightarrow> ('x, bool) p2prog" where
  "validatePeerConfig X r c =
     (if Some (pc_nethash c) \<noteq> px_nethash X then ret False
      else andThen (onPeer r (\<lambda>p. p\<lparr>pr_version := Some (pc_version c)\<rparr>)) (\<lambda>_.
        reads (isValidVersion X r)))"

section \<open>What requests leave alone\<close>

text \<open>
  A request changes the one peer it goes to, the connector, the world, and may drop that peer from
  the repository; the chain, the download cache and the other peers stay.
\<close>

definition peerFrame :: "nat \<Rightarrow> 'x p2p \<Rightarrow> 'x p2p \<Rightarrow> bool" where
  "peerFrame r s t \<longleftrightarrow> pp_pending t = pp_pending s \<and> pp_next t = pp_next s \<and>
     (\<forall>q. q \<noteq> r \<longrightarrow> pp_objs t q = pp_objs s q) \<and>
     pr_ip (pp_objs t r) = pr_ip (pp_objs s r) \<and> pr_verification (pp_objs t r) = pr_verification (pp_objs s r) \<and>
     (pp_peers t = pp_peers s \<or> pp_peers t = jm_delete (pr_ip (pp_objs s r)) (pp_peers s))"

definition requestFrame :: "nat \<Rightarrow> 'x p2p \<Rightarrow> 'x p2p \<Rightarrow> bool" where
  "requestFrame r s t \<longleftrightarrow> pp_round t = pp_round s \<and> pp_cache t = pp_cache s \<and> peerFrame r s t"

lemma requestFrame_refl [simp]: "requestFrame r s s" "peerFrame r s s"
  by (simp_all add: requestFrame_def peerFrame_def)

lemma jm_delete_twice [simp]: "jm_delete k (jm_delete k m) = jm_delete k m"
  by (simp add: jm_delete_def)

lemma peerFrame_trans: "peerFrame r s t \<Longrightarrow> peerFrame r t u \<Longrightarrow> peerFrame r s u"
  by (auto simp: peerFrame_def)

lemma requestFrame_trans: "requestFrame r s t \<Longrightarrow> requestFrame r t u \<Longrightarrow> requestFrame r s u"
  using peerFrame_trans by (auto simp: requestFrame_def)

abbreviation framed :: "nat \<Rightarrow> ('x, 'a) p2prog \<Rightarrow> bool" where
  "framed r m \<equiv> (\<forall>s. keeps (requestFrame r s) m)"

lemma framed_inWorld: "framed r (inWorld m)"
  by (auto intro: keeps_inWorld simp: requestFrame_def peerFrame_def)

lemma framed_onPeer:
  "(\<And>p. pr_ip (f p) = pr_ip p \<and> pr_verification (f p) = pr_verification p) \<Longrightarrow> framed r (onPeer r f)"
  by (auto simp: onPeer_def requestFrame_def peerFrame_def intro!: keeps_modify)

lemma framed_modify:
  "(\<And>s. pp_round (f s) = pp_round s \<and> pp_cache (f s) = pp_cache s \<and> pp_pending (f s) = pp_pending s \<and>
      pp_next (f s) = pp_next s \<and> pp_objs (f s) = pp_objs s \<and>
      (pp_peers (f s) = pp_peers s \<or> pp_peers (f s) = jm_delete (pr_ip (pp_objs s r)) (pp_peers s))) \<Longrightarrow>
    framed r (modify f)"
  by (auto simp: requestFrame_def peerFrame_def intro!: keeps_modify) (metis jm_delete_twice)+

lemmas frames = framed_inWorld framed_onPeer

lemma framed_connect: "framed r (connect X r)"
  unfolding connect_def peerAt_def
  by (auto intro!: keeps_intros framed_inWorld[rule_format] framed_modify[rule_format])

lemma framed_disconnectPeer: "framed r (disconnectPeer r)"
  unfolding disconnectPeer_def disconnect_def forgetPeer_def
  by (auto intro!: keeps_intros framed_modify[rule_format])

lemma framed_throttle: "framed r (throttle X ip url n)"
  by (induction n; subst throttle.simps) (auto intro!: keeps_intros framed_inWorld[rule_format])

lemma framed_sendRequest: "framed r (sendRequest X r path schema request)"
  unfolding sendRequest_def attemptRequest_def requestFailed_def peerAt_def nowOf_def forgetError_def setError_def
    Let_def
  by (auto intro!: keeps_intros framed_inWorld[rule_format] framed_modify[rule_format] framed_connect[rule_format]
      framed_onPeer[rule_format] framed_disconnectPeer[rule_format] framed_throttle[rule_format]
      simp: setHeight_peer_def split: option.splits)

lemma framed_peer: "framed r m \<Longrightarrow> keeps (peerFrame r s) m"
proof (rule keepsI)
  fix t assume "framed r m" and t: "peerFrame r s t"
  then have "requestFrame r t (snd (m t))" unfolding keeps_def by simp
  then show "peerFrame r s (snd (m t))" using peerFrame_trans[OF t] by (simp add: requestFrame_def)
qed

lemma peerFrame_request [keeps_intros]: "keeps (peerFrame r s) (sendRequest X r path schema request)"
  using framed_sendRequest by (rule framed_peer)

lemma peerFrame_onPeer:
  "(\<And>p. pr_ip (f p) = pr_ip p \<and> pr_verification (f p) = pr_verification p) \<Longrightarrow> keeps (peerFrame r s) (onPeer r f)"
  using framed_onPeer by (rule framed_peer)

end
