(* ===== verification/PeerVerification.thy ===== *)
theory PeerVerification
  imports PeerComm
begin

text \<open>
  The peer verifier (packages/core-p2p/source/peer-verifier.ts): the checks of the state a peer
  claims, the search for the highest common block, and the verification of blocks past it. Log
  messages are left out. What the verifier reads of the chain is the round state of the node.
\<close>

section \<open>Reading the chain\<close>

definition onRoundState :: "'a rprog \<Rightarrow> ('x, 'a) p2prog" where
  "onRoundState = within pp_round (\<lambda>p s. s\<lparr>pp_round := p\<rparr>)"

definition ourHeight :: "('x, int) p2prog" where
  "ourHeight = catching (onRoundState (inStore getLastHeight))
     (\<lambda>_. throw (PlainError ''Couldn't derive our chain height''))"

definition ourBlocksAt :: "'x p2p_env \<Rightarrow> int list \<Rightarrow> ('x, block list) p2prog" where
  "ourBlocksAt X hs = (\<lambda>s. (findBlockByHeights (re_fromBytes (px_round X)) hs (rs_db (pp_round s)), s))"

text \<open>The validators of a round by public key; a round that is not stored yet must be the current one.\<close>

definition validatorsByKey :: "wallet list \<Rightarrow> error + (string, wallet) jsmap" where
  "validatorsByKey ws = (case mapE (\<lambda>w. case wpublicKey w of None \<Rightarrow> Inl AssertionException | Some k \<Rightarrow> Inr (k, w)) ws of
     Inl e \<Rightarrow> Inl e | Inr kws \<Rightarrow> Inr (fold (\<lambda>(k, w). jm_set k w) kws []))"

definition currentRoundValidators :: "roundInfo \<Rightarrow> ('x, wallet list) p2prog" where
  "currentRoundValidators i =
     andThen (onRoundState (inDpos getRoundInfo)) (\<lambda>d.
     andThen (throwIf (ri_round d \<noteq> ri_round i) JsAssertionError) (\<lambda>_.
     andThen (throwIf (ri_maxValidators d \<noteq> ri_maxValidators i) JsAssertionError) (\<lambda>_.
     reads (\<lambda>s. map (objs (dp_wallets (rs_dpos (pp_round s)))) (dp_round (rs_dpos (pp_round s)))))))"

definition getValidatorsByRound :: "'x p2p_env \<Rightarrow> roundInfo \<Rightarrow> ('x, (string, wallet) jsmap) p2prog" where
  "getValidatorsByRound X i =
     andThen (onRoundState (getActiveValidators (px_round X) (Some i) None)) (\<lambda>stored.
     andThen (if stored = [] then currentRoundValidators i else ret stored) (\<lambda>ws.
     liftE (validatorsByKey ws)))"

section \<open>Verifying a single block\<close>

definition verifyPeerBlock :: "'x p2p_env \<Rightarrow> blockview \<Rightarrow> int \<Rightarrow> (string, wallet) jsmap \<Rightarrow> error + bool" where
  "verifyPeerBlock X d expected validators =
     (case re_fromData (px_round X) d of Inl e \<Rightarrow> Inl e
      | Inr b \<Rightarrow>
         (case px_signature X b of Inl e \<Rightarrow> Inl e
          | Inr ok \<Rightarrow> Inr (ok \<and> height (bdata b) = expected \<and> jm_has validators (generatorPublicKey (bdata b)))))"

text \<open>
  Both callers test the promise of \<open>verifyPeerBlock\<close> and not its result; a promise is truthy,
  whatever it settles to.
\<close>

definition promisedTruthy :: "error + bool \<Rightarrow> bool" where
  "promisedTruthy p = True"

section \<open>The claimed header\<close>

record claimed_state =
  cl_height :: int
  cl_header :: blockdata

definition headerVerified :: "'x p2p_env \<Rightarrow> blockdata \<Rightarrow> ('x, bool) p2prog" where
  "headerVerified X hdr =
     andThen (reads (\<lambda>s. filter (\<lambda>b. height (bdata b) = height hdr) (getLastBlocks (rs_store (pp_round s))))) (\<lambda>own.
     if own \<noteq> [] \<and> px_sameHeader X (hd own) hdr then ret True
     else andThen ourHeight (\<lambda>ours.
       if height hdr < ours
       then andThen (\<lambda>s. (calculateRound (theMilestones (pp_round s)) (height hdr), s)) (\<lambda>i.
         andThen (getValidatorsByRound X i) (\<lambda>vs.
         ret (promisedTruthy (verifyPeerBlock X (hdr, None) (height hdr) vs))))
       else andThen (liftE (re_fromData (px_round X) (hdr, None))) (\<lambda>b. liftE (px_signature X b))))"

definition checkStateHeader :: "'x p2p_env \<Rightarrow> claimed_state \<Rightarrow> ('x, bool) p2prog" where
  "checkStateHeader X c =
     (if height (cl_header c) \<noteq> cl_height c then ret False
      else catching (headerVerified X (cl_header c)) (\<lambda>_. ret False))"

definition weHavePeersHighestBlock :: "'x p2p_env \<Rightarrow> claimed_state \<Rightarrow> int \<Rightarrow> ('x, bool) p2prog" where
  "weHavePeersHighestBlock X c ours =
     (if height (cl_header c) > ours then ret False
      else andThen (ourBlocksAt X [height (cl_header c)]) (\<lambda>bs.
        andThen (throwIf (length bs \<noteq> 1) JsAssertionError) (\<lambda>_.
        ret (bid (bdata (hd bs)) = bid (cl_header c)))))"

section \<open>The highest common block\<close>

definition throwIfPastDeadline :: "'x p2p_env \<Rightarrow> int \<Rightarrow> ('x, int) p2prog" where
  "throwIfPastDeadline X deadline =
     andThen (nowOf X) (\<lambda>now.
     andThen (throwIf (deadline \<le> now) (PlainError ''timeout elapsed before successful completion of the verification''))
       (\<lambda>_. ret (deadline - now)))"

text \<open>The two tables of the probe, from the blocks of our chain.\<close>

definition idOf :: "block \<Rightarrow> error + string" where
  "idOf b = (case bid (bdata b) of None \<Rightarrow> Inl AssertionException | Some i \<Rightarrow> Inr i)"

definition heightById :: "block list \<Rightarrow> string list \<Rightarrow> (string, int) jsmap" where
  "heightById bs ids = fold (\<lambda>(b, i). jm_set i (height (bdata b))) (zip bs ids) []"

definition commonReply :: "(string, int) jsmap \<Rightarrow> common_block option \<Rightarrow> int option" where
  "commonReply byId r = (case r of None \<Rightarrow> None
     | Some c \<Rightarrow> (case jm_get byId (cb_id c) of None \<Rightarrow> None
        | Some h \<Rightarrow> if h = 0 \<or> h \<noteq> cb_height c then None else Some (cb_height c)))"

definition commonProbe :: "'x p2p_env \<Rightarrow> verdicts \<Rightarrow> nat \<Rightarrow> int \<Rightarrow> int list \<Rightarrow> ('x, int option) p2prog" where
  "commonProbe X v r deadline hs =
     andThen (ourBlocksAt X hs) (\<lambda>bs.
     andThen (throwIf (length bs \<noteq> length hs) JsAssertionError) (\<lambda>_.
     andThen (liftE (mapE idOf bs)) (\<lambda>ids.
     andThen (throwIf (\<not> set hs \<subseteq> height ` bdata ` set bs) JsAssertionError) (\<lambda>_.
     andThen (throwIf (bs = []) JsTypeError) (\<lambda>_.
     andThen (throwIfPastDeadline X deadline) (\<lambda>_.
     andThen (hasCommonBlocks X v r (jm_keys (heightById bs ids))) (\<lambda>c.
     ret (commonReply (heightById bs ids) c))))))))"

definition nAry :: nat where "nAry = 8"

definition findHighestCommonBlockHeight :: "'x p2p_env \<Rightarrow> verdicts \<Rightarrow> nat \<Rightarrow> int \<Rightarrow> int \<Rightarrow> int \<Rightarrow> ('x, int option) p2prog" where
  "findHighestCommonBlockHeight X v r claimed ours deadline =
     nsect_find nAry (commonProbe X v r deadline) 1 (min claimed ours)"

section \<open>The blocks after it\<close>

type_synonym fetched = "(int, blockview) jsmap"

definition fetchBlocksFromHeight :: "'x p2p_env \<Rightarrow> verdicts \<Rightarrow> nat \<Rightarrow> int \<Rightarrow> int \<Rightarrow> int \<Rightarrow> fetched \<Rightarrow>
    ('x, fetched option) p2prog" where
  "fetchBlocksFromHeight X v r deadline endHeight h blocks =
     andThen (catching
       (andThen (throwIfPastDeadline X deadline) (\<lambda>_.
        getPeerBlocks X v r (h - 1) (max (min (endHeight - h + 1) 400) 1) True))
       (\<lambda>_. ret [])) (\<lambda>response.
     ret (if response = [] then None
          else Some (fold (\<lambda>(i, b). jm_set (h + int i) b) (enumerate 0 response) blocks)))"

text \<open>\<open>h\<close> runs over the heights from \<open>startHeight\<close> to \<open>endHeight\<close>.\<close>

fun verifyHeights :: "'x p2p_env \<Rightarrow> verdicts \<Rightarrow> nat \<Rightarrow> int \<Rightarrow> int \<Rightarrow> (string, wallet) jsmap \<Rightarrow> int list \<Rightarrow> fetched \<Rightarrow>
    ('x, bool) p2prog" where
  "verifyHeights X v r deadline endHeight vs [] blocks = ret True"
| "verifyHeights X v r deadline endHeight vs (h # hs) blocks =
     andThen (if jm_has blocks h then ret (Some blocks) else fetchBlocksFromHeight X v r deadline endHeight h blocks)
       (\<lambda>got. case got of None \<Rightarrow> ret False
        | Some blocks' \<Rightarrow>
            andThen (defined JsAssertionError (jm_get blocks' h)) (\<lambda>b.
            if \<not> promisedTruthy (verifyPeerBlock X b h vs) then ret False
            else verifyHeights X v r deadline endHeight vs hs blocks'))"

definition verifyPeerBlocks :: "'x p2p_env \<Rightarrow> verdicts \<Rightarrow> nat \<Rightarrow> int \<Rightarrow> int \<Rightarrow> int \<Rightarrow> ('x, bool) p2prog" where
  "verifyPeerBlocks X v r start claimed deadline =
     andThen (\<lambda>s. (calculateRound (theMilestones (pp_round s)) start, s)) (\<lambda>i.
     andThen (getValidatorsByRound X i) (\<lambda>vs.
     let endHeight = min claimed (ri_roundHeight i + ri_maxValidators i - 1) in
     verifyHeights X v r deadline endHeight vs [start..endHeight] []))"

section \<open>checkState\<close>

definition checkState :: "'x p2p_env \<Rightarrow> verdicts \<Rightarrow> nat \<Rightarrow> claimed_state \<Rightarrow> int \<Rightarrow>
    ('x, verification_result option) p2prog" where
  "checkState X v r c deadline =
     andThen (checkStateHeader X c) (\<lambda>ok.
     if \<not> ok then ret None
     else andThen ourHeight (\<lambda>ours.
       let claimed = height (cl_header c) in
       andThen (weHavePeersHighestBlock X c ours) (\<lambda>have.
       if have then ret (Some \<lparr>vf_myHeight = ours, vf_hisHeight = claimed, vf_commonHeight = claimed\<rparr>)
       else andThen (findHighestCommonBlockHeight X v r claimed ours deadline) (\<lambda>common.
         case common of None \<Rightarrow> ret None
         | Some k \<Rightarrow>
             andThen (verifyPeerBlocks X v r (k + 1) claimed deadline) (\<lambda>ok.
             ret (if ok then Some \<lparr>vf_myHeight = ours, vf_hisHeight = claimed, vf_commonHeight = k\<rparr> else None))))))"

section \<open>The probe and the search\<close>

lemma jm_values_fold_set:
  "jm_get (fold (\<lambda>(b, i). jm_set i (f b)) bis m) k = Some h \<Longrightarrow>
    jm_get m k = Some h \<or> (\<exists>b. (b, k) \<in> set bis \<and> h = f b)"
proof (induction bis arbitrary: m)
  case (Cons bi bis)
  obtain b i where [simp]: "bi = (b, i)" by fastforce
  from Cons.prems have "jm_get (fold (\<lambda>(b, i). jm_set i (f b)) bis (jm_set i (f b) m)) k = Some h" by simp
  then show ?case using Cons.IH[of "jm_set i (f b) m"] by (auto split: if_splits)
qed simp

lemma heightById_height: "jm_get (heightById bs ids) k = Some h \<Longrightarrow> h \<in> height ` bdata ` set bs"
  using jm_values_fold_set[of "\<lambda>b. height (bdata b)" "zip bs ids" "[]" k h]
  by (auto simp: heightById_def dest: set_zip_leftD)

lemma commonReply_height: "commonReply byId r = Some m \<Longrightarrow> \<exists>i. jm_get byId i = Some m"
  by (auto simp: commonReply_def split: option.splits if_splits)

text \<open>
  As many blocks as heights, and every height among them: the blocks are at no other height. So
  the probe answers with one of the heights it was asked for, whatever the peer replies.
\<close>

lemma heights_covered:
  assumes "length bs = length hs" and "distinct hs" and "set hs \<subseteq> height ` bdata ` set bs"
  shows "height ` bdata ` set bs = set hs"
proof -
  have "card (height ` bdata ` set bs) \<le> length bs"
    by (metis card_image_le card_length finite_imageI finite_set order.trans)
  also have "\<dots> = card (set hs)" using assms(1,2) by (simp add: distinct_card)
  finally have "set hs = height ` bdata ` set bs" using assms(3) by (intro card_seteq) simp_all
  then show ?thesis ..
qed

lemma commonProbe_answers: "answers (commonProbe X v r deadline)"
  unfolding answers_def
proof (intro allI impI)
  fix hs s m s' assume hs: "distinct hs" and run: "commonProbe X v r deadline hs s = (Inr (Some m), s')"
  obtain bs ids c where bs: "length bs = length hs" "set hs \<subseteq> height ` bdata ` set bs"
      and m: "commonReply (heightById bs ids) c = Some m"
    using run unfolding commonProbe_def by (auto elim!: andThen_InrE split: if_splits)
  obtain i where "jm_get (heightById bs ids) i = Some m" using commonReply_height[OF m] by blast
  then show "m \<in> set hs" using heightById_height heights_covered[OF bs(1) hs bs(2)] by metis
qed

text \<open>
  Whatever the peer replies, the search ends, with a height of the range or without one; its errors
  are those of a probe: its own reads, the deadline or the requests.
\<close>

lemma find_common_outcome:
  assumes "1 \<le> claimed" and "1 \<le> ours"
  shows "outcome (commonProbe X v r deadline) 1 (min claimed ours) None
    (findHighestCommonBlockHeight X v r claimed ours deadline s)"
  unfolding findHighestCommonBlockHeight_def
  by (rule nsect_find_outcome[OF commonProbe_answers]) (use assms in \<open>simp_all add: nAry_def\<close>)

section \<open>Blocks of a peer are not checked\<close>

text \<open>
  The verification of the blocks past the common one succeeds as soon as the peer sends something
  for each height: what it sends is not looked at.
\<close>

lemma fetched_first:
  "response \<noteq> [] \<Longrightarrow> \<exists>b. jm_get (fold (\<lambda>(i, b). jm_set (h + int i) b) (enumerate n response) m) (h + int n) = Some b"
proof -
  have keep: "jm_get m k \<noteq> None \<Longrightarrow> jm_get (fold (\<lambda>(i, b). jm_set (h + int i) b) ibs m) k \<noteq> None" for ibs m k
    by (induction ibs arbitrary: m) auto
  assume "response \<noteq> []"
  then obtain b bs where "response = b # bs" by (cases response) auto
  then show ?thesis using keep[of "jm_set (h + int n) b m" "h + int n" "enumerate (Suc n) bs"] by auto
qed

lemma fetch_run:
  assumes "deadline > px_now X (pp_world s)"
    and "getPeerBlocks X v r (h - 1) (max (min (endHeight - h + 1) 400) 1) True s = (Inr response, s')"
    and "response \<noteq> []"
  shows "\<exists>blocks'. fetchBlocksFromHeight X v r deadline endHeight h blocks s = (Inr (Some blocks'), s') \<and>
    jm_get blocks' h \<noteq> None"
  using assms fetched_first[OF assms(3), of h 0 blocks]
  by (auto simp: fetchBlocksFromHeight_def throwIfPastDeadline_def nowOf_def andThen_def catching_def)

definition sendsSomething :: "'x p2p_env \<Rightarrow> verdicts \<Rightarrow> nat \<Rightarrow> int \<Rightarrow> ('x p2p \<Rightarrow> bool) \<Rightarrow> bool" where
  "sendsSomething X v r deadline R \<longleftrightarrow> (\<forall>s. R s \<longrightarrow> deadline > px_now X (pp_world s) \<and>
     (\<forall>from limit. \<exists>response s'. getPeerBlocks X v r from limit True s = (Inr response, s') \<and> response \<noteq> [] \<and> R s'))"

lemma verifyHeights_passes:
  assumes sends: "sendsSomething X v r deadline R"
  shows "R s \<Longrightarrow> \<exists>s'. verifyHeights X v r deadline endHeight vs hs blocks s = (Inr True, s') \<and> R s'"
proof (induction hs arbitrary: blocks s)
  case (Cons h hs)
  obtain response t where t: "getPeerBlocks X v r (h - 1) (max (min (endHeight - h + 1) 400) 1) True s = (Inr response, t)"
      "response \<noteq> []" "R t" "deadline > px_now X (pp_world s)"
    using sends Cons.prems unfolding sendsSomething_def by meson
  let ?m = "if jm_has blocks h then ret (Some blocks) else fetchBlocksFromHeight X v r deadline endHeight h blocks"
  obtain blocks1 u where u: "?m s = (Inr (Some blocks1), u)"
      "jm_get blocks1 h \<noteq> None" "R u"
    using fetch_run[OF t(4,1,2), of blocks] t(3) Cons.prems by (cases "jm_has blocks h") (auto simp: jm_has_def)
  then obtain b where b: "jm_get blocks1 h = Some b" by blast
  have "verifyHeights X v r deadline endHeight vs (h # hs) blocks s =
      verifyHeights X v r deadline endHeight vs hs blocks1 u"
    using b by (simp add: andThen_Inr[where m = ?m, OF u(1)] promisedTruthy_def)
  then show ?case using Cons.IH[OF u(3)] by simp
qed simp

lemma verifyPeerBlocks_passes:
  assumes "sendsSomething X v r deadline R"
    and "calculateRound (theMilestones (pp_round s)) start = Inr i"
    and "getValidatorsByRound X i s = (Inr vs, t)" and "R t"
  shows "\<exists>s'. verifyPeerBlocks X v r start claimed deadline s = (Inr True, s')"
  using verifyHeights_passes[OF assms(1,4)] assms(2,3)
  by (fastforce simp: verifyPeerBlocks_def andThen_def Let_def)

section \<open>The search with a peer that tells the truth\<close>

text \<open>The peer has our blocks up to a height; \<open>name\<close> gives the identifiers of our blocks.\<close>

definition sharedUpTo :: "(int \<Rightarrow> string) \<Rightarrow> string set \<Rightarrow> int \<Rightarrow> bool" where
  "sharedUpTo name his h \<longleftrightarrow> (\<forall>k \<in> {1..h}. name k \<in> his)"

definition rangeProbe :: "int \<Rightarrow> int list \<Rightarrow> bool" where
  "rangeProbe n hs \<longleftrightarrow> hs \<noteq> [] \<and> sorted hs \<and> distinct hs \<and> set hs \<subseteq> {1..n}"

text \<open>From this state on, every probe is answered with the highest shared height.\<close>

definition truthfulFrom :: "'x p2p_env \<Rightarrow> verdicts \<Rightarrow> nat \<Rightarrow> int \<Rightarrow> (int \<Rightarrow> bool) \<Rightarrow> int \<Rightarrow> 'x p2p \<Rightarrow> bool" where
  "truthfulFrom X v r deadline P n s \<longleftrightarrow> (\<exists>Q. Q s \<and> (\<forall>t hs. Q t \<longrightarrow> rangeProbe n hs \<longrightarrow>
     (\<exists>t'. commonProbe X v r deadline hs t = (Inr (highest P hs), t') \<and> Q t')))"

lemma truthfulFromI:
  assumes "Q s" and "\<And>t hs. Q t \<Longrightarrow> rangeProbe n hs \<Longrightarrow>
    \<exists>t'. commonProbe X v r deadline hs t = (Inr (highest P hs), t') \<and> Q t'"
  shows "truthfulFrom X v r deadline P n s"
  using assms unfolding truthfulFrom_def by blast

lemma truthfulFrom_step:
  assumes "truthfulFrom X v r deadline P n s" and "rangeProbe n hs"
  shows "\<exists>s'. commonProbe X v r deadline hs s = (Inr (highest P hs), s') \<and> truthfulFrom X v r deadline P n s'"
proof -
  obtain Q where Q: "Q s" "\<And>t hs. Q t \<Longrightarrow> rangeProbe n hs \<Longrightarrow>
      \<exists>t'. commonProbe X v r deadline hs t = (Inr (highest P hs), t') \<and> Q t'"
    using assms(1) unfolding truthfulFrom_def by blast
  obtain s' where s': "commonProbe X v r deadline hs s = (Inr (highest P hs), s')" "Q s'"
    using Q(2)[OF Q(1) assms(2)] by blast
  then show ?thesis using truthfulFromI[of Q, OF s'(2) Q(2)] by blast
qed

interpretation common: probing "sharedUpTo name his" "truthfulFrom X v r deadline (sharedUpTo name his) n" 1 n
    "commonProbe X v r deadline" for name his X v r deadline n
proof
  show "sharedUpTo name his k" if "sharedUpTo name his m" "1 \<le> k" "k \<le> m" for m k
    using that by (auto simp: sharedUpTo_def)
  show "\<exists>s'. commonProbe X v r deadline hs s = (Inr (highest (sharedUpTo name his) hs), s') \<and>
      truthfulFrom X v r deadline (sharedUpTo name his) n s'"
    if "truthfulFrom X v r deadline (sharedUpTo name his) n s" "hs \<noteq> []" "sorted hs" "distinct hs" "set hs \<subseteq> {1..n}"
    for s hs
    using that by (intro truthfulFrom_step) (simp_all add: rangeProbe_def)
qed

text \<open>Our chain is stored: every height up to \<open>n\<close> leads to its block.\<close>

definition chainStored :: "'x p2p_env \<Rightarrow> (int \<Rightarrow> string) \<Rightarrow> int \<Rightarrow> round_state \<Rightarrow> bool" where
  "chainStored X name n R \<longleftrightarrow> (\<forall>h \<in> {1..n}. jm_get (db_heights (rs_db R)) h = Some (name h) \<and>
     (\<exists>b. decodeId (re_fromBytes (px_round X)) (rs_db R) (name h) = Inr b \<and> height (bdata b) = h \<and> bid (bdata b) = Some (name h)))"

text \<open>The peer answers each question with the highest of the blocks it has, before the deadline.\<close>

definition honestPeer :: "'x p2p_env \<Rightarrow> verdicts \<Rightarrow> nat \<Rightarrow> int \<Rightarrow> (int \<Rightarrow> string) \<Rightarrow> string set \<Rightarrow> int \<Rightarrow>
    ('x p2p \<Rightarrow> bool) \<Rightarrow> bool" where
  "honestPeer X v r deadline name his n Q \<longleftrightarrow> (\<forall>s hs. Q s \<longrightarrow> rangeProbe n hs \<longrightarrow>
     px_now X (pp_world s) < deadline \<and>
     (\<exists>s'. hasCommonBlocks X v r (map name hs) s =
        (Inr (map_option (\<lambda>h. \<lparr>cb_id = name h, cb_height = h\<rparr>) (highest (\<lambda>h. name h \<in> his) hs)), s') \<and> Q s'))"

lemma keeps_hasCommonBlocks: "keeps (\<lambda>s. pp_round s = R) (hasCommonBlocks X v r ids)"
proof (rule keepsI)
  fix s :: "'a p2p" assume "pp_round s = R"
  then show "pp_round (snd (hasCommonBlocks X v r ids s)) = R"
    using framed_sendRequest[of r X "''blocks/common''" "vd_common v" "\<lambda>p. px_common X p ids"]
    unfolding hasCommonBlocks_def keeps_def by (auto simp: requestFrame_def)
qed

lemma fold_jm_set_fresh:
  "distinct (map f hs) \<Longrightarrow> \<forall>h \<in> set hs. \<not> jm_has m (f h) \<Longrightarrow>
    fold (\<lambda>h. jm_set (f h) (g h)) hs m = m @ map (\<lambda>h. (f h, g h)) hs"
proof (induction hs arbitrary: m)
  case (Cons h hs)
  have "jm_set (f h) (g h) m = m @ [(f h, g h)]" using Cons.prems(2) by (simp add: jm_set_fresh)
  moreover have "jm_has (m @ [(f h, g h)]) k \<longleftrightarrow> jm_has m k \<or> k = f h" for k
    by (auto simp: jm_has_def jm_get_def map_add_def split: option.splits)
  ultimately have "\<forall>q \<in> set hs. \<not> jm_has (jm_set (f h) (g h) m) (f q)" using Cons.prems by (auto simp: image_iff)
  then show ?case using Cons.IH[of "jm_set (f h) (g h) m"] Cons.prems by (simp add: jm_set_fresh)
qed simp

lemma chainStored_inj:
  assumes "chainStored X name n R" and "h \<in> {1..n}" and "k \<in> {1..n}" and "name h = name k" shows "h = k"
  using assms unfolding chainStored_def by (metis sum.inject(2))

lemma probe_tables:
  assumes "chainStored X name n R" and "rangeProbe n hs"
  obtains bs where "findBlockByHeights (re_fromBytes (px_round X)) hs (rs_db R) = Inr bs" and "length bs = length hs"
    and "mapE idOf bs = Inr (map name hs)" and "map (\<lambda>b. height (bdata b)) bs = hs"
    and "heightById bs (map name hs) = map (\<lambda>h. (name h, h)) hs"
proof -
  have sub: "set hs \<subseteq> {1..n}" "distinct hs" using assms(2) by (simp_all add: rangeProbe_def)
  define blk where "blk h = (SOME b. decodeId (re_fromBytes (px_round X)) (rs_db R) (name h) = Inr b \<and>
      height (bdata b) = h \<and> bid (bdata b) = Some (name h))" for h
  have blk: "decodeId (re_fromBytes (px_round X)) (rs_db R) (name h) = Inr (blk h)" "height (bdata (blk h)) = h"
      "bid (bdata (blk h)) = Some (name h)" if "h \<in> set hs" for h
  proof -
    have "\<exists>b. decodeId (re_fromBytes (px_round X)) (rs_db R) (name h) = Inr b \<and> height (bdata b) = h \<and> bid (bdata b) = Some (name h)"
      using assms(1) sub(1) that unfolding chainStored_def by blast
    from someI_ex[OF this] show "decodeId (re_fromBytes (px_round X)) (rs_db R) (name h) = Inr (blk h)"
      "height (bdata (blk h)) = h" "bid (bdata (blk h)) = Some (name h)" by (simp_all add: blk_def)
  qed
  have "catOptions (map (jm_get (db_heights (rs_db R))) hs) = map name hs"
    using assms(1) sub(1) by (intro catOptions_map) (auto simp: chainStored_def)
  moreover have "mapE (decodeId (re_fromBytes (px_round X)) (rs_db R)) (map name hs) = Inr (map blk hs)"
    using blk(1) by (induction hs) simp_all
  ultimately have "findBlockByHeights (re_fromBytes (px_round X)) hs (rs_db R) = Inr (map blk hs)"
    by (simp add: findBlockByHeights_def)
  moreover have "mapE idOf (map blk hs) = Inr (map name hs)" using blk(3) by (induction hs) (simp_all add: idOf_def)
  moreover have "map (\<lambda>b. height (bdata b)) (map blk hs) = hs" using blk(2) by (induction hs) simp_all
  moreover have "heightById (map blk hs) (map name hs) = map (\<lambda>h. (name h, h)) hs"
  proof -
    have "zip (map blk hs) (map name hs) = map (\<lambda>h. (blk h, name h)) hs" by (simp add: zip_map_map zip_same_conv_map)
    then have "heightById (map blk hs) (map name hs) = fold (\<lambda>h. jm_set (name h) (height (bdata (blk h)))) hs []"
      by (simp add: heightById_def fold_map comp_def)
    also have "\<dots> = map (\<lambda>h. (name h, height (bdata (blk h)))) hs"
      using fold_jm_set_fresh[of name hs "[]"] sub chainStored_inj[OF assms(1)]
      by (simp add: distinct_map inj_on_def subset_iff)
    finally show ?thesis using blk(2) by simp
  qed
  ultimately show ?thesis using that[of "map blk hs"] by simp
qed

lemma jm_get_named: "h \<in> set hs \<Longrightarrow> inj_on name (set hs) \<Longrightarrow> jm_get (map (\<lambda>h. (name h, h)) hs) (name h) = Some h"
  by (induction hs) (auto simp: inj_on_def)

lemma honest_probe:
  assumes chain: "chainStored X name n R" and hs: "rangeProbe n hs" and s: "pp_round s = R"
    and honest: "px_now X (pp_world s) < deadline"
      "hasCommonBlocks X v r (map name hs) s =
        (Inr (map_option (\<lambda>h. \<lparr>cb_id = name h, cb_height = h\<rparr>) (highest (\<lambda>h. name h \<in> his) hs)), s')"
  shows "commonProbe X v r deadline hs s = (Inr (highest (\<lambda>h. name h \<in> his) hs), s')"
proof -
  obtain bs where bs: "findBlockByHeights (re_fromBytes (px_round X)) hs (rs_db R) = Inr bs" "length bs = length hs"
      "mapE idOf bs = Inr (map name hs)" "map (\<lambda>b. height (bdata b)) bs = hs"
      "heightById bs (map name hs) = map (\<lambda>h. (name h, h)) hs"
    by (rule probe_tables[OF chain hs])
  have props: "sorted hs" "set hs \<subseteq> {1..n}" "hs \<noteq> []" using hs by (simp_all add: rangeProbe_def)
  have covered: "set hs \<subseteq> height ` bdata ` set bs" using bs(4) by (metis image_image list.set_map order_refl)
  have nonempty: "bs \<noteq> []" using bs(2) props(3) by auto
  have keys: "jm_keys (map (\<lambda>h. (name h, h)) hs) = map name hs" by (simp add: jm_keys_def)
  have reply: "commonReply (map (\<lambda>h. (name h, h)) hs) (map_option (\<lambda>h. \<lparr>cb_id = name h, cb_height = h\<rparr>)
      (highest (\<lambda>h. name h \<in> his) hs)) = highest (\<lambda>h. name h \<in> his) hs"
  proof (cases "highest (\<lambda>h. name h \<in> his) hs")
    case (Some m)
    then have m: "m \<in> set hs" using props(1) by (simp add: highest_Some)
    have "inj_on name (set hs)" using chainStored_inj[OF chain] props(2) by (meson inj_onI subsetD)
    then have "jm_get (map (\<lambda>h. (name h, h)) hs) (name m) = Some m" using m by (rule jm_get_named[rotated])
    then show ?thesis using Some m props(2) by (auto simp: commonReply_def)
  qed (simp add: commonReply_def)
  show ?thesis
    using s honest bs covered nonempty keys reply
    by (simp add: commonProbe_def ourBlocksAt_def throwIfPastDeadline_def nowOf_def andThen_def)
qed

lemma highest_shared:
  assumes "\<And>h k. name h \<in> his \<Longrightarrow> 1 \<le> k \<Longrightarrow> k \<le> h \<Longrightarrow> h \<le> n \<Longrightarrow> name k \<in> his" and "rangeProbe n hs"
  shows "highest (\<lambda>h. name h \<in> his) hs = highest (sharedUpTo name his) hs"
proof -
  have "(name h \<in> his) = sharedUpTo name his h" if "h \<in> set hs" for h
    using assms(1)[of h] assms(2) that by (auto simp: sharedUpTo_def rangeProbe_def)
  then show ?thesis by (simp add: highest_def cong: filter_cong)
qed

text \<open>
  With our chain stored and an honest peer whose chain is ours up to some height, the search finds
  the greatest height both have, with eight probes for each narrowing of the range.
\<close>

lemma find_common_exact:
  assumes chain: "chainStored X name n (pp_round s)" and honest: "honestPeer X v r deadline name his n Q" and "Q s"
    and prefix: "\<And>h k. name h \<in> his \<Longrightarrow> 1 \<le> k \<Longrightarrow> k \<le> h \<Longrightarrow> h \<le> n \<Longrightarrow> name k \<in> his"
    and n: "n = min claimed ours" "1 \<le> n"
  shows "\<exists>s'. findHighestCommonBlockHeight X v r claimed ours deadline s =
    (Inr (highest (sharedUpTo name his) [1..n]), s')"
proof -
  have "truthfulFrom X v r deadline (sharedUpTo name his) n s"
  proof (rule truthfulFromI[where Q = "\<lambda>t. Q t \<and> pp_round t = pp_round s"])
    fix t hs assume t: "Q t \<and> pp_round t = pp_round s" and hs: "rangeProbe n hs"
    obtain t' where t': "px_now X (pp_world t) < deadline" "hasCommonBlocks X v r (map name hs) t =
        (Inr (map_option (\<lambda>h. \<lparr>cb_id = name h, cb_height = h\<rparr>) (highest (\<lambda>h. name h \<in> his) hs)), t')" "Q t'"
      using honest t hs unfolding honestPeer_def by blast
    have "pp_round t' = pp_round s" using keepsD[OF keeps_hasCommonBlocks _ t'(2)] t by simp
    moreover have "commonProbe X v r deadline hs t = (Inr (highest (sharedUpTo name his) hs), t')"
      using honest_probe[OF chain hs _ t'(1,2)] t highest_shared[OF prefix hs] by simp
    ultimately show "\<exists>t'. commonProbe X v r deadline hs t = (Inr (highest (sharedUpTo name his) hs), t') \<and>
        Q t' \<and> pp_round t' = pp_round s"
      using t'(3) by blast
  qed (simp add: assms(3))
  then show ?thesis
    using common.find_highest[of X v r deadline name his n s nAry] n
    by (auto simp: findHighestCommonBlockHeight_def nAry_def)
qed

end
