(* ===== verification/PeerAcceptance.thy ===== *)
theory PeerAcceptance
  imports PeerVerification
begin

text \<open>
  Pinging a peer (peer-communicator.ts) and accepting new ones (peer-processor.ts) of
  packages/core-p2p/source, and what stays true of the repository: every peer is filed under its
  address, and was verified.
\<close>

section \<open>ping\<close>

definition peerStatusResponseError :: "string \<Rightarrow> error" where
  "peerStatusResponseError ip = PlainError (''Failed to retrieve status from peer '' @ ip @ ''.'')"

definition peerPingTimeoutError :: "int \<Rightarrow> error" where
  "peerPingTimeoutError ms = PlainError (''Ping timeout ('' @ decimal ms @ '' ms)'')"

definition peerVerificationFailedError :: error where
  "peerVerificationFailedError = PlainError ''Peer verification failed.''"

text \<open>Without a header or a height the two heights compared differ: one of them is no number.\<close>

definition claimOf :: "peer_state \<Rightarrow> claimed_state option" where
  "claimOf p = (case (ps_header p, ps_height p) of
     (Some hdr, Some h) \<Rightarrow> Some \<lparr>cl_height = h, cl_header = hdr\<rparr> | _ \<Rightarrow> None)"

definition verifyPeer :: "'x p2p_env \<Rightarrow> verdicts \<Rightarrow> nat \<Rightarrow> peer_state \<times> peer_config \<Rightarrow> int \<Rightarrow> int \<Rightarrow> ('x, unit) p2prog" where
  "verifyPeer X v r response deadline timeout =
     andThen (validatePeerConfig X r (snd response)) (\<lambda>valid.
     andThen (throwIf (\<not> valid) peerVerificationFailedError) (\<lambda>_.
     andThen (nowOf X) (\<lambda>now.
     andThen (throwIf (deadline \<le> now) (peerPingTimeoutError timeout)) (\<lambda>_.
     andThen (case claimOf (fst response) of None \<Rightarrow> ret None | Some c \<Rightarrow> checkState X v r c deadline) (\<lambda>result.
     andThen (onPeer r (\<lambda>p. p\<lparr>pr_verification := result\<rparr>)) (\<lambda>_.
     throwIf (result = None) peerVerificationFailedError))))))"

definition ping :: "'x p2p_env \<Rightarrow> verdicts \<Rightarrow> nat \<Rightarrow> int \<Rightarrow> bool \<Rightarrow> ('x, peer_state option) p2prog" where
  "ping X v r timeout force =
     andThen (nowOf X) (\<lambda>start.
     andThen (peerAt r) (\<lambda>p.
     if recentlyPinged start p \<and> \<not> force then ret None
     else
       andThen (pc_getStatus X v r) (\<lambda>response.
       andThen (defined (peerStatusResponseError (pr_ip p)) response) (\<lambda>(state, config).
       andThen (whenever (\<not> px_skipVerification X) (verifyPeer X v r (state, config) (start + timeout) timeout)) (\<lambda>_.
       andThen (nowOf X) (\<lambda>now.
       andThen (onPeer r (\<lambda>p. p\<lparr>pr_lastPinged := Some now, pr_state := state, pr_plugins := pc_plugins config\<rparr>)) (\<lambda>_.
       ret (Some state))))))))"

section \<open>peer-processor.ts\<close>

record accept_options =
  ao_seed :: bool
  ao_lessVerbose :: bool

definition validatePeerIp :: "'x p2p_env \<Rightarrow> nat \<Rightarrow> accept_options \<Rightarrow> ('x, bool) p2prog" where
  "validatePeerIp X r opts =
     (if px_disableDiscovery X then ret False
      else andThen (isValidPeer X r) (\<lambda>valid.
        if \<not> valid then ret False
        else andThen (peerAt r) (\<lambda>p.
          andThen (reads (hasPendingPeer (pr_ip p))) (\<lambda>pending.
          if pending then ret False
          else if \<not> isWhitelisted X (px_whitelist X) (pr_ip p) then ret False
          else if isBlacklisted X (px_blacklist X) (pr_ip p) then ret False
          else andThen (reads (getSameSubnetPeers X (pr_ip p))) (\<lambda>same.
            ret (\<not> (int (length same) \<ge> px_maxSameSubnet X \<and> \<not> ao_seed opts)))))))"

definition acceptNewPeer :: "'x p2p_env \<Rightarrow> verdicts \<Rightarrow> nat \<Rightarrow> ('x, unit) p2prog" where
  "acceptNewPeer X v r =
     andThen (peerAt r) (\<lambda>p.
     andThen (reads (hasPeer (pr_ip p))) (\<lambda>known.
     whenever (\<not> known)
       (andThen (createPeer (pr_ip p) (px_serverPort X)) (\<lambda>q.
        finallyDo
          (catching
             (andThen (setPendingPeer r) (\<lambda>_.
              andThen (ping X v q (px_verifyTimeout X) False) (\<lambda>_.
              setPeer q)))
             (\<lambda>_. disconnect q))
          (forgetPendingPeer r)))))"

definition validateAndAcceptPeer :: "'x p2p_env \<Rightarrow> verdicts \<Rightarrow> nat \<Rightarrow> accept_options \<Rightarrow> ('x, unit) p2prog" where
  "validateAndAcceptPeer X v r opts =
     andThen (validatePeerIp X r opts) (\<lambda>ok. whenever ok (acceptNewPeer X v r))"

definition pp_isWhitelisted :: "'x p2p_env \<Rightarrow> nat \<Rightarrow> 'x p2p \<Rightarrow> bool" where
  "pp_isWhitelisted X r s \<longleftrightarrow> isWhitelisted X (px_remoteAccess X) (pr_ip (pp_objs s r))"

section \<open>What a verification leaves alone\<close>

lemma peerFrame_look [keeps_intros]: "keeps P (\<lambda>s. (f s, s))"
  by (simp add: keeps_def)

lemma peerFrame_onRoundState [keeps_intros]: "keeps (peerFrame r s) (onRoundState m)"
  by (rule keepsI) (auto simp: onRoundState_def within_def peerFrame_def split: prod.splits)

lemma peerFrame_commonProbe [keeps_intros]: "keeps (peerFrame r s) (commonProbe X v r deadline hs)"
  unfolding commonProbe_def ourBlocksAt_def throwIfPastDeadline_def nowOf_def hasCommonBlocks_def
  by (intro keeps_intros)

lemma peerFrame_verifyHeights [keeps_intros]: "keeps (peerFrame r s) (verifyHeights X v r deadline e vs hs blocks)"
  by (induction hs arbitrary: blocks)
    (auto simp: fetchBlocksFromHeight_def getPeerBlocks_def throwIfPastDeadline_def nowOf_def split: option.splits
      intro!: keeps_intros)

lemma peerFrame_checkState [keeps_intros]: "keeps (peerFrame r s) (checkState X v r c deadline)"
  unfolding checkState_def checkStateHeader_def headerVerified_def weHavePeersHighestBlock_def ourHeight_def
    ourBlocksAt_def verifyPeerBlocks_def getValidatorsByRound_def currentRoundValidators_def Let_def
    findHighestCommonBlockHeight_def
  by (auto intro!: keeps_intros split: option.splits)

section \<open>Every peer of the repository was verified\<close>

text \<open>Except for \<open>E\<close>: the peer that is being pinged may have lost its verification.\<close>

definition peers_ok :: "'x p2p_env \<Rightarrow> nat set \<Rightarrow> 'x p2p \<Rightarrow> bool" where
  "peers_ok X E s \<longleftrightarrow> repo_filed s \<and> (\<forall>r \<in> set (getPeers s). r < pp_next s \<and>
     (r \<notin> E \<longrightarrow> isVerified (pp_objs s r) \<or> px_skipVerification X))"

lemma mem_getPeers: "jm_inv (pp_peers s) \<Longrightarrow> r \<in> set (getPeers s) \<longleftrightarrow> (\<exists>ip. jm_get (pp_peers s) ip = Some r)"
  by (auto simp: getPeers_def jm_values_def jm_get_def jm_inv_def jm_keys_def intro: map_of_SomeD) (metis image_eqI map_of_SomeD snd_conv)

lemma set_jm_delete: "set (jm_values (jm_delete k m)) \<subseteq> set (jm_values m)"
  by (auto simp: jm_values_def jm_delete_def)

lemma getPeers_frame: "peerFrame r s t \<Longrightarrow> set (getPeers t) \<subseteq> set (getPeers s)"
  using set_jm_delete[of "pr_ip (pp_objs s r)" "pp_peers s"] unfolding peerFrame_def getPeers_def by force

lemma peers_ok_frame:
  assumes "peers_ok X E s" and "peerFrame r s t" shows "peers_ok X E t"
proof -
  have "set (getPeers t) \<subseteq> set (getPeers s)" using assms(2) by (rule getPeers_frame)
  moreover have "pr_ip (pp_objs t q) = pr_ip (pp_objs s q)" "pr_verification (pp_objs t q) = pr_verification (pp_objs s q)" for q
    using assms(2) by (cases "q = r"; simp add: peerFrame_def)+
  moreover have "repo_filed t"
    using assms calculation(2) unfolding peers_ok_def repo_filed_def peerFrame_def by (auto split: if_splits)
  ultimately show ?thesis using assms by (auto simp: peers_ok_def peerFrame_def isVerified_def)
qed

lemma keeps_framed:
  assumes "\<forall>s t. P s \<longrightarrow> peerFrame r s t \<longrightarrow> P t" and "\<And>s. keeps (peerFrame r s) m" shows "keeps P m"
proof (rule keepsI)
  fix s assume "P s"
  moreover have "peerFrame r s (snd (m s))" using assms(2)[of s] unfolding keeps_def by simp
  ultimately show "P (snd (m s))" using assms(1) by blast
qed

lemma peers_ok_onPeer:
  assumes "\<And>p. pr_ip (f p) = pr_ip p" and "r \<in> E"
  shows "keeps (peers_ok X E) (onPeer r f)"
proof (rule keepsI)
  fix s assume ok: "peers_ok X E s"
  then have "repo_filed (snd (onPeer r f s))" using repo_filed_onPeer[OF assms(1)] by (auto simp: peers_ok_def keeps_def)
  then show "peers_ok X E (snd (onPeer r f s))"
    using ok assms by (auto simp: peers_ok_def onPeer_def getPeers_def)
qed

lemma peers_ok_weaken: "peers_ok X E s \<Longrightarrow> E \<subseteq> E' \<Longrightarrow> peers_ok X E' s"
  by (auto simp: peers_ok_def)

lemma peers_ok_verified:
  assumes "peers_ok X (insert r E) s" and "isVerified (pp_objs s r) \<or> px_skipVerification X" shows "peers_ok X E s"
  using assms by (auto simp: peers_ok_def)

lemma peerFrame_validateConfig: "keeps (peerFrame r s) (validatePeerConfig X r c)"
  unfolding validatePeerConfig_def by (auto intro!: keeps_intros peerFrame_onPeer)

text \<open>
  What a ping keeps: whatever survives a request to the peer and a change of the peer's own fields
  other than its address.
\<close>

lemma keeps_ping_gen:
  assumes frame: "\<forall>s t. P s \<longrightarrow> peerFrame r s t \<longrightarrow> P t"
    and own: "\<And>f. (\<And>p. pr_ip (f p) = pr_ip p) \<Longrightarrow> keeps P (onPeer r f)"
  shows "keeps P (ping X v r timeout force)"
proof -
  note framed = keeps_framed[where P = P, OF frame]
  have "keeps P (verifyPeer X v r response deadline timeout)" for response deadline
    unfolding verifyPeer_def nowOf_def
    by (intro keeps_intros framed[OF peerFrame_validateConfig] own; simp split: option.splits)
      (auto intro: keeps_intros framed[OF peerFrame_checkState])
  then show ?thesis
    unfolding ping_def nowOf_def peerAt_def pc_getStatus_def by (auto intro!: keeps_intros own framed[OF peerFrame_request])
qed

lemma keeps_ping: "r \<in> E \<Longrightarrow> keeps (peers_ok X E) (ping X v r timeout force)"
  using peers_ok_frame by (intro keeps_ping_gen peers_ok_onPeer) blast+

text \<open>A ping that went through leaves the peer verified, or had nothing to do.\<close>

lemma verifyPeer_verified:
  assumes "verifyPeer X v r response deadline timeout s = (Inr u, s')" shows "isVerified (pp_objs s' r)"
  using assms unfolding verifyPeer_def
  by (auto elim!: andThen_InrE simp: onPeer_def isVerified_def split: if_splits)

lemma ping_verified:
  assumes "ping X v r timeout force s = (Inr q, s')"
  shows "isVerified (pp_objs s' r) \<or> px_skipVerification X \<or>
    s' = s \<and> recentlyPinged (px_now X (pp_world s)) (pp_objs s r)"
proof (cases "recentlyPinged (px_now X (pp_world s)) (pp_objs s r) \<and> \<not> force")
  case True
  then show ?thesis using assms by (simp add: ping_def nowOf_def peerAt_def)
next
  case False
  obtain state config s1 s2 where s2: "whenever (\<not> px_skipVerification X)
        (verifyPeer X v r (state, config) (px_now X (pp_world s) + timeout) timeout) s1 = (Inr (), s2)"
      and s': "pr_verification (pp_objs s' r) = pr_verification (pp_objs s2 r)"
    using assms False unfolding ping_def nowOf_def peerAt_def
    by (auto elim!: andThen_InrE simp: onPeer_def simp del: whenever_apply)
  show ?thesis
  proof (cases "px_skipVerification X")
    case False
    then have "isVerified (pp_objs s2 r)" using s2 by (auto intro: verifyPeer_verified)
    then show ?thesis using s' by (simp add: isVerified_def)
  qed simp
qed

lemma ping_keeps_all:
  assumes ok: "peers_ok X {} s" and run: "ping X v r timeout force s = (Inr q, s')"
  shows "peers_ok X {} s'"
proof (cases "s' = s")
  case False
  have "peers_ok X {r} s" using ok by (rule peers_ok_weaken) simp
  then have "peers_ok X {r} s'" using keepsD[OF keeps_ping[of r "{r}"] _ run] by simp
  then show ?thesis using ping_verified[OF run] False by (auto intro: peers_ok_verified)
qed (use ok in simp)

text \<open>A peer that is forgotten is no longer listed: nothing else is filed under its address.\<close>

lemma forgotten:
  assumes "peers_ok X (insert r E) s" shows "peers_ok X E (snd (disconnectPeer r s))"
proof -
  let ?s = "snd (disconnectPeer r s)"
  have s: "pp_objs ?s = pp_objs s" "pp_next ?s = pp_next s" "pp_peers ?s = jm_delete (pr_ip (pp_objs s r)) (pp_peers s)"
    by (simp_all add: disconnectPeer_def disconnect_def forgetPeer_def)
  have "repo_filed s" using assms by (simp add: peers_ok_def)
  then have filed: "repo_filed ?s" using repo_filed_disconnectPeer unfolding keeps_def by blast
  have "jm_get (pp_peers ?s) ip \<noteq> Some r" for ip
  proof
    assume get: "jm_get (pp_peers ?s) ip = Some r"
    then have "pr_ip (pp_objs s r) = ip" using filed by (simp add: repo_filed_def s(1))
    then show False using get by (simp add: s(3))
  qed
  then have "r \<notin> set (getPeers ?s)" using mem_getPeers[of ?s r] filed unfolding repo_filed_def by blast
  moreover have "set (getPeers ?s) \<subseteq> set (getPeers s)"
    using subsetD[OF set_jm_delete] by (auto simp: getPeers_def s)
  ultimately show ?thesis using assms filed by (auto simp: peers_ok_def s)
qed

section \<open>Accepting peers keeps it so\<close>

lemma keeps_createPeer: "keeps (peers_ok X E) (createPeer ip port)"
proof (rule keepsI)
  fix s assume ok: "peers_ok X E s"
  have "pp_objs (snd (createPeer ip port s)) r = pp_objs s r" if "r < pp_next s" for r
    using that by (simp add: createPeer_def)
  moreover have "pp_peers (snd (createPeer ip port s)) = pp_peers s" "pp_next (snd (createPeer ip port s)) = pp_next s + 1"
    by (simp_all add: createPeer_def)
  moreover have "r < pp_next s" if "jm_get (pp_peers s) ip = Some r" for ip r
    using that ok mem_getPeers[of s] by (auto simp: peers_ok_def repo_filed_def)
  ultimately show "peers_ok X E (snd (createPeer ip port s))"
    using ok by (auto simp: peers_ok_def repo_filed_def getPeers_def)
qed

lemma keeps_pending [keeps_intros]:
  "keeps (peers_ok X E) (setPendingPeer r)" "keeps (peers_ok X E) (forgetPendingPeer r)" "keeps (peers_ok X E) (disconnect r)"
  by (auto intro!: keepsI simp: setPendingPeer_def forgetPendingPeer_def disconnect_def peers_ok_def repo_filed_def getPeers_def)

text \<open>A peer that is not listed.\<close>

definition unlisted :: "nat \<Rightarrow> 'x p2p \<Rightarrow> bool" where
  "unlisted q s \<longleftrightarrow> q \<notin> set (getPeers s) \<and> q < pp_next s"

lemma unlisted_frame: "unlisted q s \<Longrightarrow> peerFrame r s t \<Longrightarrow> unlisted q t"
  using getPeers_frame[of r s t] by (auto simp: unlisted_def peerFrame_def)

lemma keeps_unlisted_ping: "keeps (unlisted q) (ping X v r timeout force)"
proof (rule keeps_ping_gen)
  show "\<forall>s t. unlisted q s \<longrightarrow> peerFrame r s t \<longrightarrow> unlisted q t" using unlisted_frame by blast
qed (auto intro: keepsI simp: unlisted_def onPeer_def getPeers_def)

lemma peers_ok_unlisted: "peers_ok X {q} s \<Longrightarrow> unlisted q s \<Longrightarrow> peers_ok X {} s"
  by (auto simp: peers_ok_def unlisted_def)

lemma setPeer_keeps_ok:
  assumes "peers_ok X {} s" and "q < pp_next s" and "isVerified (pp_objs s q) \<or> px_skipVerification X"
  shows "peers_ok X {} (snd (setPeer q s))"
proof -
  have "repo_filed (snd (setPeer q s))" using repo_filed_setPeer assms(1) unfolding keeps_def peers_ok_def by blast
  moreover have "set (jm_values (jm_set k q m)) \<subseteq> insert q (set (jm_values m))" for k and m :: "(string, nat) jsmap"
    by (induction k q m rule: jm_set.induct) (auto simp: jm_values_def)
  then have "set (getPeers (snd (setPeer q s))) \<subseteq> insert q (set (getPeers s))" by (simp add: setPeer_def getPeers_def)
  ultimately show ?thesis using assms by (auto simp: peers_ok_def setPeer_def) 
qed

lemma keeps_acceptNewPeer: "keeps (peers_ok X {}) (acceptNewPeer X v r)"
proof (rule keepsI)
  fix s assume ok: "peers_ok X {} s"
  show "peers_ok X {} (snd (acceptNewPeer X v r s))"
  proof (cases "hasPeer (pr_ip (pp_objs s r)) s")
    case True
    then show ?thesis using ok by (simp add: acceptNewPeer_def peerAt_def)
  next
    case False
    define q where "q = pp_next s"
    define s1 where "s1 = snd (createPeer (pr_ip (pp_objs s r)) (px_serverPort X) s)"
    define s2 where "s2 = snd (setPendingPeer r s1)"
    have c: "createPeer (pr_ip (pp_objs s r)) (px_serverPort X) s = (Inr q, s1)"
      by (simp add: s1_def q_def createPeer_def)
    have p: "setPendingPeer r s1 = (Inr (), s2)" by (simp add: s2_def setPendingPeer_def)
    have ok1: "peers_ok X {} s1" using keepsD[OF keeps_createPeer ok c] .
    have "q \<notin> set (getPeers s)" using ok by (auto simp: peers_ok_def q_def)
    then have un1: "unlisted q s1" by (simp add: unlisted_def s1_def createPeer_def getPeers_def q_def)
    have ok2: "peers_ok X {} s2" using keepsD[OF keeps_pending(1) ok1 p] .
    have un2: "unlisted q s2" using un1 by (simp add: s2_def setPendingPeer_def unlisted_def getPeers_def)
    have fresh: "\<not> recentlyPinged now (pp_objs s2 q)" for now
      by (simp add: s2_def setPendingPeer_def s1_def createPeer_def q_def recentlyPinged_def newPeer_def)
    obtain a s3 where ping: "ping X v q (px_verifyTimeout X) False s2 = (a, s3)" by fastforce
    have "peers_ok X {q} s2" using ok2 by (rule peers_ok_weaken) simp
    then have "peers_ok X {q} s3" using keepsD[OF keeps_ping _ ping] by simp
    moreover have un3: "unlisted q s3" using keepsD[OF keeps_unlisted_ping un2 ping] .
    ultimately have ok3: "peers_ok X {} s3" by (rule peers_ok_unlisted)
    let ?m = "catching (andThen (setPendingPeer r) (\<lambda>_.
        andThen (ping X v q (px_verifyTimeout X) False) (\<lambda>_. setPeer q))) (\<lambda>_. disconnect q)"
    have body: "peers_ok X {} (snd (?m s1))"
    proof (cases a)
      case (Inl e)
      then have "?m s1 = disconnect q s3" using p ping by (simp add: catching_def andThen_def)
      then show ?thesis using keeps_pending(3) ok3 unfolding keeps_def by fastforce
    next
      case (Inr x)
      then have "isVerified (pp_objs s3 q) \<or> px_skipVerification X"
        using ping_verified[of X v q "px_verifyTimeout X" False s2 x s3] ping fresh by blast
      then have "peers_ok X {} (snd (setPeer q s3))" using setPeer_keeps_ok[OF ok3] un3 by (simp add: unlisted_def)
      then show ?thesis using p ping Inr by (simp add: catching_def andThen_def setPeer_def)
    qed
    obtain b s4 where m: "?m s1 = (b, s4)" by fastforce
    then have "peers_ok X {} (snd (forgetPendingPeer r s4))"
      using body keeps_pending(2) unfolding keeps_def by fastforce
    moreover have "snd (acceptNewPeer X v r s) = snd (forgetPendingPeer r s4)"
      using False c m by (simp add: acceptNewPeer_def peerAt_def andThen_def finallyDo_def forgetPendingPeer_def)
    ultimately show ?thesis by simp
  qed
qed

end
