(* ===== verification/NetworkMonitor.thy ===== *)
theory NetworkMonitor
  imports PeerAcceptance Slots Complex_Main
begin

text \<open>
  The network monitor and the state of the network (packages/core-p2p/source/network-monitor.ts,
  network-state.ts and transaction-broadcaster.ts). Operations on several peers at once are taken
  one peer after the other; downloads come with the set of jobs that had finished when the first
  one failed.
\<close>

section \<open>network-state.ts\<close>

datatype network_status = Default | BelowMinimumPeers | Test | ColdStart | Unknown

record quorum_details =
  qd_quorum :: int
  qd_noQuorum :: int
  qd_overHeight :: int
  qd_overHeightHeaders :: "(string, blockdata option) jsmap"
  qd_forked :: int
  qd_differentSlot :: int
  qd_forgingNotAllowed :: int

record network_state =
  ns_status :: network_status
  ns_nodeHeight :: "int option"
  ns_lastBlockId :: "string option"
  ns_details :: quorum_details

definition noDetails :: quorum_details where
  "noDetails = \<lparr>qd_quorum = 0, qd_noQuorum = 0, qd_overHeight = 0, qd_overHeightHeaders = [], qd_forked = 0,
     qd_differentSlot = 0, qd_forgingNotAllowed = 0\<rparr>"

text \<open>A quotient of zeros is not a number, and not finite.\<close>

definition detailsQuorum :: "quorum_details \<Rightarrow> rat" where
  "detailsQuorum q = (if qd_quorum q + qd_noQuorum q = 0 then 0
     else of_int (qd_quorum q) / of_int (qd_quorum q + qd_noQuorum q))"

definition newNetworkState :: "network_status \<Rightarrow> block option \<Rightarrow> network_state" where
  "newNetworkState status b = \<lparr>ns_status = status, ns_nodeHeight = map_option (\<lambda>b. height (bdata b)) b,
     ns_lastBlockId = Option.bind b (\<lambda>b. bid (bdata b)), ns_details = noDetails\<rparr>"

definition getQuorum :: "network_state \<Rightarrow> rat" where
  "getQuorum n = (if ns_status n = Test then 1 else detailsQuorum (ns_details n))"

definition getOverHeightBlockHeaders :: "network_state \<Rightarrow> blockdata option list" where
  "getOverHeightBlockHeaders n = jm_values (qd_overHeightHeaders (ns_details n))"

text \<open>\<open>None\<close> is the empty header \<open>{}\<close>; a missing id is the key \<open>undefined\<close>.\<close>

definition headerKey :: "blockdata option \<Rightarrow> string" where
  "headerKey hdr = (case Option.bind hdr bid of None \<Rightarrow> ''undefined'' | Some x \<Rightarrow> x)"

definition countPeer :: "int \<Rightarrow> int \<Rightarrow> peer \<Rightarrow> quorum_details \<Rightarrow> quorum_details" where
  "countPeer nodeHeight h p q =
     (let hdr = ps_header (pr_state p) in
      if h > nodeHeight then
        q\<lparr>qd_noQuorum := qd_noQuorum q + 1, qd_overHeight := qd_overHeight q + 1,
          qd_overHeightHeaders := jm_set (headerKey hdr) hdr (qd_overHeightHeaders q)\<rparr>
      else if isForked p then q\<lparr>qd_noQuorum := qd_noQuorum q + 1, qd_forked := qd_forked q + 1\<rparr>
      else q\<lparr>qd_quorum := qd_quorum q + 1\<rparr>)"

definition ns_update :: "int \<Rightarrow> peer \<Rightarrow> network_state \<Rightarrow> error + network_state" where
  "ns_update currentSlot p n =
     (case (ps_height (pr_state p), ns_nodeHeight n) of
        (Some h, Some nodeHeight) \<Rightarrow>
          (let q = countPeer nodeHeight h p (ns_details n) in
           Inr (n\<lparr>ns_details := q\<lparr>
             qd_differentSlot := qd_differentSlot q + (if ps_currentSlot (pr_state p) \<noteq> Some currentSlot then 1 else 0),
             qd_forgingNotAllowed := qd_forgingNotAllowed q + (if ps_forgingAllowed (pr_state p) = Some True then 0 else 1)\<rparr>\<rparr>))
      | _ \<Rightarrow> Inl AssertionException)"

fun updateAll :: "int \<Rightarrow> peer list \<Rightarrow> network_state \<Rightarrow> error + network_state" where
  "updateAll slot [] n = Inr n"
| "updateAll slot (p # ps) n = (case ns_update slot p n of Inl e \<Rightarrow> Inl e | Inr n' \<Rightarrow> updateAll slot ps n')"

definition analyzeNetwork :: "'x p2p_env \<Rightarrow> block \<Rightarrow> peer list \<Rightarrow> error + network_state" where
  "analyzeNetwork X b ps =
     (case getSlotNumber (px_slots X) None None of Inl e \<Rightarrow> Inl e
      | Inr slot \<Rightarrow> updateAll slot ps (newNetworkState Default (Some b)))"

definition isColdStart :: "'x p2p \<Rightarrow> bool" where
  "isColdStart s = pp_coldStart s"

definition completeColdStart :: "('x, unit) p2prog" where
  "completeColdStart = modify (\<lambda>s. s\<lparr>pp_coldStart := False\<rparr>)"

definition analyze :: "'x p2p_env \<Rightarrow> ('x, network_state) p2prog" where
  "analyze X =
     andThen (onRoundState (inStore getLastBlock)) (\<lambda>b.
     andThen (reads (\<lambda>s. map (pp_objs s) (getPeers s))) (\<lambda>ps.
     andThen (reads isColdStart) (\<lambda>cold.
     if cold then andThen completeColdStart (\<lambda>_. ret (newNetworkState ColdStart (Some b)))
     else if px_test X then ret (newNetworkState Test (Some b))
     else if int (length ps) < px_minimumReach X then ret (newNetworkState BelowMinimumPeers (Some b))
     else liftE (analyzeNetwork X b ps))))"

section \<open>The height of the network and forks\<close>

definition getNetworkHeight :: "'x p2p \<Rightarrow> int" where
  "getNetworkHeight s =
     (let medians = sort (catOptions (map (\<lambda>r. case ps_height (pr_state (pp_objs s r)) of
            None \<Rightarrow> None | Some h \<Rightarrow> if h = 0 then None else Some h) (getPeers s)))
      in if medians = [] then 0 else medians ! (length medians div 2))"

definition verificationResults :: "'x p2p \<Rightarrow> verification_result list" where
  "verificationResults s = catOptions (map (\<lambda>r. pr_verification (pp_objs s r)) (getPeers s))"

text \<open>The first occurrence of each height; then \<open>sort\<close>, which compares the decimals, and \<open>reverse\<close>.\<close>

fun firstOnes :: "'a list \<Rightarrow> 'a list" where
  "firstOnes [] = []"
| "firstOnes (x # xs) = x # filter (\<lambda>y. y \<noteq> x) (firstOnes xs)"

definition forkHeights :: "verification_result list \<Rightarrow> int list" where
  "forkHeights fs = rev (sort_key decimal (firstOnes (map vf_commonHeight fs)))"

record network_health =
  nh_forked :: bool
  nh_rollback :: "int option"

definition forkMajority :: "verification_result list \<Rightarrow> int \<Rightarrow> bool" where
  "forkMajority vs h \<longleftrightarrow> length (filter (\<lambda>v. vf_commonHeight v = h) (filter forked vs)) >
     length (filter (\<lambda>v. vf_commonHeight v > h) vs) + 1"

fun judgeForks :: "int \<Rightarrow> verification_result list \<Rightarrow> int list \<Rightarrow> network_health" where
  "judgeForks lastHeight vs [] = \<lparr>nh_forked = False, nh_rollback = None\<rparr>"
| "judgeForks lastHeight vs (h # hs) =
     (if forkMajority vs h
      then \<lparr>nh_forked = True, nh_rollback = Some (if lastHeight - h > 5000 then 5000 else lastHeight - h)\<rparr>
      else judgeForks lastHeight vs hs)"

definition judgeHealth :: "int \<Rightarrow> verification_result list \<Rightarrow> network_health" where
  "judgeHealth lastHeight vs =
     (if vs = [] then \<lparr>nh_forked = False, nh_rollback = None\<rparr>
      else judgeForks lastHeight vs (forkHeights (filter forked vs)))"

section \<open>Cleansing and discovering peers\<close>

text \<open>A peer that does not answer a ping is disconnected and forgotten by the listener of the event.\<close>

definition cleansePeer :: "'x p2p_env \<Rightarrow> verdicts \<Rightarrow> int \<Rightarrow> bool \<Rightarrow> nat \<Rightarrow> ('x, unit) p2prog" where
  "cleansePeer X v pingDelay forcePing r =
     catching (andThen (ping X v r pingDelay forcePing) (\<lambda>_. ret ())) (\<lambda>_. disconnectPeer r)"

definition cleansePeers :: "'x p2p_env \<Rightarrow> verdicts \<Rightarrow> bool \<Rightarrow> bool \<Rightarrow> int option \<Rightarrow> ('x, unit) p2prog" where
  "cleansePeers X v fast forcePing peerCount =
     andThen (reads getPeers) (\<lambda>all.
     andThen (case peerCount of None \<Rightarrow> ret all
       | Some n \<Rightarrow> if n = 0 then ret all else andThen (shuffle X all) (\<lambda>ps. ret (take (nat n) ps))) (\<lambda>peers.
     forEach (cleansePeer X v (if fast then 1500 else px_verifyTimeout X) forcePing) peers))"

definition hasMinimumPeers :: "'x p2p_env \<Rightarrow> 'x p2p \<Rightarrow> bool" where
  "hasMinimumPeers X s \<longleftrightarrow> px_ignoreMinimumReach X \<or> int (length (getPeers s)) \<ge> px_minimumReach X"

definition pingPeerPorts :: "'x p2p_env \<Rightarrow> bool \<Rightarrow> ('x, unit) p2prog" where
  "pingPeerPorts X pingAll =
     andThen (reads getPeers) (\<lambda>all.
     andThen (if pingAll then ret all
       else andThen (shuffle X all) (\<lambda>ps. ret (take (length all div 2) ps))) (\<lambda>peers.
     forEach (pingPorts X) peers))"

text \<open>The peers of up to eight of our peers, at most fifty of each; new peer objects by address.\<close>

definition peersOfPeer :: "'x p2p_env \<Rightarrow> verdicts \<Rightarrow> nat \<Rightarrow> ('x, (string \<times> int) list) p2prog" where
  "peersOfPeer X v r = catching (andThen (pc_getPeers X v r) (\<lambda>ps. ret (case ps of None \<Rightarrow> [] | Some ps \<Rightarrow> ps))) (\<lambda>_. ret [])"

fun createPeers :: "(string \<times> int) list \<Rightarrow> (string, nat) jsmap \<Rightarrow> ('x, (string, nat) jsmap) p2prog" where
  "createPeers [] m = ret m"
| "createPeers ((ip, port) # ps) m = andThen (createPeer ip port) (\<lambda>r. createPeers ps (jm_set ip r m))"

fun gatherPeers :: "'x p2p_env \<Rightarrow> (string \<times> int) list list \<Rightarrow> (string, nat) jsmap \<Rightarrow> ('x, (string, nat) jsmap) p2prog" where
  "gatherPeers X [] m = ret m"
| "gatherPeers X (ps # pss) m =
     andThen (shuffle X ps) (\<lambda>qs. andThen (createPeers (take 50 qs) m) (gatherPeers X pss))"

definition discoverPeers :: "'x p2p_env \<Rightarrow> verdicts \<Rightarrow> bool \<Rightarrow> ('x, bool) p2prog" where
  "discoverPeers X v pingAll =
     andThen (reads getPeers) (\<lambda>own.
     andThen (shuffle X own) (\<lambda>some.
     andThen (mapProg (peersOfPeer X v) (take 8 some)) (\<lambda>lists.
     andThen (gatherPeers X lists []) (\<lambda>m.
     andThen (reads (hasMinimumPeers X)) (\<lambda>enough.
     let theirs = jm_values m in
     if pingAll \<or> \<not> enough \<or> 4 * length own < 3 * length theirs
     then andThen (forEach (\<lambda>r. validateAndAcceptPeer X v r \<lparr>ao_seed = False, ao_lessVerbose = True\<rparr>) theirs) (\<lambda>_.
       andThen (pingPeerPorts X pingAll) (\<lambda>_. ret True))
     else andThen (pingPeerPorts X False) (\<lambda>_. ret False))))))"

definition checkNetworkHealth :: "'x p2p_env \<Rightarrow> verdicts \<Rightarrow> ('x, network_health) p2prog" where
  "checkNetworkHealth X v =
     andThen (discoverPeers X v True) (\<lambda>_.
     andThen (cleansePeers X v False True None) (\<lambda>_.
     andThen (onRoundState (inStore getLastBlock)) (\<lambda>b.
     andThen (reads verificationResults) (\<lambda>vs.
     ret (judgeHealth (height (bdata b)) vs)))))"

definition getNetworkState :: "'x p2p_env \<Rightarrow> verdicts \<Rightarrow> ('x, network_state) p2prog" where
  "getNetworkState X v = andThen (cleansePeers X v True True None) (\<lambda>_. analyze X)"

definition refreshPeersAfterFork :: "'x p2p_env \<Rightarrow> verdicts \<Rightarrow> ('x, unit) p2prog" where
  "refreshPeersAfterFork X v = cleansePeers X v False True None"

section \<open>The quorum\<close>

lemma countPeer_total: "qd_quorum (countPeer n h p q) + qd_noQuorum (countPeer n h p q) = qd_quorum q + qd_noQuorum q + 1"
    "qd_quorum q \<le> qd_quorum (countPeer n h p q)" "qd_noQuorum q \<le> qd_noQuorum (countPeer n h p q)"
  by (simp_all add: countPeer_def Let_def)

definition inQuorum :: "int \<Rightarrow> peer \<Rightarrow> bool" where
  "inQuorum nodeHeight p \<longleftrightarrow> (\<exists>h. ps_height (pr_state p) = Some h \<and> h \<le> nodeHeight) \<and> \<not> isForked p"

text \<open>Every peer is counted once: for the quorum when it is not ahead of us and not on a fork.\<close>

lemma updateAll_counts:
  assumes "updateAll slot ps n = Inr n'" and "ns_nodeHeight n = Some k"
  shows "qd_quorum (ns_details n') = qd_quorum (ns_details n) + int (length (filter (inQuorum k) ps)) \<and>
    qd_noQuorum (ns_details n') = qd_noQuorum (ns_details n) + int (length (filter (\<lambda>p. \<not> inQuorum k p) ps)) \<and>
    ns_status n' = ns_status n"
  using assms
proof (induction ps arbitrary: n)
  case (Cons p ps)
  obtain n1 where n1: "ns_update slot p n = Inr n1" "updateAll slot ps n1 = Inr n'"
    using Cons.prems(1) by (auto split: sum.splits)
  then obtain h where h: "ps_height (pr_state p) = Some h"
    using Cons.prems(2) by (auto simp: ns_update_def split: option.splits)
  have "ns_nodeHeight n1 = Some k" "ns_status n1 = ns_status n"
    using n1(1) h Cons.prems(2) by (auto simp: ns_update_def Let_def)
  moreover have "qd_quorum (ns_details n1) = qd_quorum (ns_details n) + (if inQuorum k p then 1 else 0)"
      "qd_noQuorum (ns_details n1) = qd_noQuorum (ns_details n) + (if inQuorum k p then 0 else 1)"
    using n1(1) h Cons.prems(2) by (auto simp: ns_update_def countPeer_def inQuorum_def Let_def)
  ultimately show ?case using Cons.IH[OF n1(2)] by simp
qed simp

lemma analyzeNetwork_quorum:
  assumes "analyzeNetwork X b ps = Inr n"
  shows "getQuorum n = (if ps = [] then 0
    else of_nat (length (filter (inQuorum (height (bdata b))) ps)) / of_nat (length ps))"
proof -
  obtain slot where "updateAll slot ps (newNetworkState Default (Some b)) = Inr n"
    using assms by (auto simp: analyzeNetwork_def split: sum.splits)
  note c = updateAll_counts[OF this, of "height (bdata b)"]
  let ?f = "filter (inQuorum (height (bdata b))) ps"
  have "int (length ?f) + int (length (filter (\<lambda>p. \<not> inQuorum (height (bdata b)) p) ps)) = int (length ps)"
    using sum_length_filter_compl[of "inQuorum (height (bdata b))" ps] by linarith
  then show ?thesis using c by (simp add: getQuorum_def detailsQuorum_def newNetworkState_def noDetails_def)
qed

section \<open>The median and the forks\<close>

lemma sorted_median:
  fixes xs :: "int list"
  assumes "sorted xs" and "k < length xs"
  shows "k < length (filter (\<lambda>x. x \<le> xs ! k) xs)" "length xs - k \<le> length (filter (\<lambda>x. xs ! k \<le> x) xs)"
proof -
  have "filter (\<lambda>x. x \<le> xs ! k) (take (k + 1) xs) = take (k + 1) xs"
    using assms by (intro filter_True) (auto simp: in_set_conv_nth sorted_iff_nth_mono)
  then have "length (take (k + 1) xs) \<le> length (filter (\<lambda>x. x \<le> xs ! k) (take (k + 1) xs @ drop (k + 1) xs))"
    by (simp del: append_take_drop_id)
  then show "k < length (filter (\<lambda>x. x \<le> xs ! k) xs)" using assms(2) by simp
  have "filter (\<lambda>x. xs ! k \<le> x) (drop k xs) = drop k xs"
    using assms by (intro filter_True) (auto simp: in_set_conv_nth sorted_iff_nth_mono)
  then have "length (drop k xs) \<le> length (filter (\<lambda>x. xs ! k \<le> x) (take k xs @ drop k xs))"
    by (simp del: append_take_drop_id)
  then show "length xs - k \<le> length (filter (\<lambda>x. xs ! k \<le> x) xs)" by simp
qed

lemma firstOnes_set: "set (firstOnes xs) = set xs" "distinct (firstOnes xs)"
  by (induction xs) auto

lemma judgeForks_forked: "nh_forked (judgeForks l vs hs) \<longleftrightarrow> (\<exists>h \<in> set hs. forkMajority vs h)"
  by (induction hs) auto

lemma judgeForks_rollback:
  "nh_rollback (judgeForks l vs hs) = Some k \<Longrightarrow> \<exists>h \<in> set hs. forkMajority vs h \<and> k = min 5000 (l - h)"
  by (induction hs) (auto split: if_splits)

lemma set_forkHeights: "set (forkHeights (filter forked vs)) = vf_commonHeight ` {v \<in> set vs. forked v}"
  by (simp add: forkHeights_def firstOnes_set)

text \<open>A fork is reported exactly when more peers share it than follow our chain past it.\<close>

lemma judgeHealth_forked:
  "nh_forked (judgeHealth l vs) \<longleftrightarrow> (\<exists>v \<in> set vs. forked v \<and> forkMajority vs (vf_commonHeight v))"
  by (auto simp: judgeHealth_def judgeForks_forked set_forkHeights)

lemma judgeHealth_rollback:
  assumes "nh_rollback (judgeHealth l vs) = Some k"
  shows "\<exists>v \<in> set vs. forked v \<and> forkMajority vs (vf_commonHeight v) \<and> k = min 5000 (l - vf_commonHeight v)"
  using assms judgeForks_rollback[of l vs "forkHeights (filter forked vs)" k]
  by (auto simp: judgeHealth_def set_forkHeights split: if_splits)

section \<open>The repository stays verified\<close>

lemma keeps_cleansePeer: "keeps (peers_ok X {}) (cleansePeer X v d forcePing r)"
proof (rule keepsI)
  fix s assume ok: "peers_ok X {} s"
  obtain a t where p: "ping X v r d forcePing s = (a, t)" by fastforce
  show "peers_ok X {} (snd (cleansePeer X v d forcePing r s))"
  proof (cases a)
    case (Inl e)
    have "peers_ok X {r} s" using ok by (rule peers_ok_weaken) simp
    then have "peers_ok X {r} t" using keepsD[OF keeps_ping _ p] by simp
    then show ?thesis using p Inl forgotten[of X r "{}"] by (simp add: cleansePeer_def catching_def andThen_def)
  next
    case (Inr q)
    then show ?thesis using p ping_keeps_all[OF ok] by (simp add: cleansePeer_def catching_def andThen_def)
  qed
qed

lemma keeps_shuffle: "(\<And>s w. P s \<Longrightarrow> P (s\<lparr>pp_world := w\<rparr>)) \<Longrightarrow> keeps P (shuffle X xs)"
proof -
  assume w: "\<And>s w. P s \<Longrightarrow> P (s\<lparr>pp_world := w\<rparr>)"
  have "keeps P (shuffleFrom X i n xs)" for i n
    by (induction n arbitrary: i xs) (auto intro!: keeps_intros keeps_inWorld w)
  then show ?thesis by (simp add: shuffle_def)
qed

lemma peers_ok_world [simp]: "peers_ok X E (s\<lparr>pp_world := w\<rparr>) = peers_ok X E s"
  by (simp add: peers_ok_def repo_filed_def getPeers_def)

lemma keeps_cleansePeers: "keeps (peers_ok X {}) (cleansePeers X v fast forcePing n)"
  unfolding cleansePeers_def
  by (auto intro!: keeps_intros keeps_cleansePeer keeps_shuffle split: option.splits)

text \<open>After a cleansing that pings every peer, those left answered it.\<close>

end
