(* ===== verification/Downloads.thy ===== *)
theory Downloads
  imports NetworkMonitor
begin

text \<open>
  Downloading blocks from several peers, broadcasting blocks and transactions, and the upkeep of
  the set of peers (network-monitor.ts and transaction-broadcaster.ts of packages/core-p2p/source).
\<close>

section \<open>Downloading blocks\<close>

text \<open>\<open>toLocaleString\<close> of a height: groups of three digits.\<close>

fun groupThree :: "string \<Rightarrow> string" where
  "groupThree (a # b # c # d # ds) = a # b # c # CHR '','' # groupThree (d # ds)"
| "groupThree ds = ds"

definition localeString :: "int \<Rightarrow> string" where
  "localeString n = rev (groupThree (rev (decimal n)))"

definition blocksRange :: "int \<Rightarrow> string \<Rightarrow> string" where
  "blocksRange start stop = ''['' @ localeString (start + 1) @ '', '' @ stop @ '']''"

definition defaultDownloadChunkSize :: int where "defaultDownloadChunkSize = 400"

text \<open>\<open>Math.ceil(a / b)\<close> for a positive \<open>b\<close>.\<close>

definition ceilDiv :: "int \<Rightarrow> int \<Rightarrow> int" where
  "ceilDiv a b = - ((- a) div b)"

definition chunksMissing :: "int \<Rightarrow> int \<Rightarrow> int \<Rightarrow> int" where
  "chunksMissing networkHeight from chunkSize =
     (if networkHeight = 0 \<or> networkHeight \<le> from then 1 else ceilDiv (networkHeight - from) chunkSize)"

text \<open>
  One job: the chunk is in the cache, or the peers are tried in turn; only the last chunk may be
  empty. A job that tried them all throws. Whether another job failed is only logged.
\<close>

fun tryPeers :: "'x p2p_env \<Rightarrow> verdicts \<Rightarrow> int \<Rightarrow> int \<Rightarrow> bool \<Rightarrow> nat list \<Rightarrow> ('x, blockview list) p2prog" where
  "tryPeers X v start chunkSize isLast [] = throw (PlainError ''Could not download blocks'')"
| "tryPeers X v start chunkSize isLast (r # rs) =
     andThen (catching
        (andThen (getPeerBlocks X v r start chunkSize False) (\<lambda>bs.
         if bs \<noteq> [] \<or> isLast then ret (Some bs) else throw (PlainError ''Peer did not return any block'')))
        (\<lambda>_. ret None)) (\<lambda>got.
     case got of Some bs \<Rightarrow> ret bs | None \<Rightarrow> tryPeers X v start chunkSize isLast rs)"

definition rangeOf :: "int \<Rightarrow> int \<Rightarrow> int \<Rightarrow> nat \<Rightarrow> string" where
  "rangeOf from chunkSize chunks i =
     (let start = from + chunkSize * int i in
      blocksRange start (if int i = chunks - 1 then ''..'' else localeString (start + chunkSize)))"

definition peersToTry :: "'x p2p_env \<Rightarrow> nat list \<Rightarrow> int \<Rightarrow> nat \<Rightarrow> ('x, nat list) p2prog" where
  "peersToTry X notForked chunks i =
     andThen (shuffle X (drop (nat chunks) notForked)) (\<lambda>others.
     if others = []
     then reads (\<lambda>s. notForked ! i # filter (\<lambda>r. pr_ip (pp_objs s r) \<noteq> pr_ip (pp_objs s (notForked ! i))) notForked)
     else ret (notForked ! i # others))"

definition downloadJob :: "'x p2p_env \<Rightarrow> verdicts \<Rightarrow> nat list \<Rightarrow> int \<Rightarrow> int \<Rightarrow> int \<Rightarrow> nat \<Rightarrow> ('x, blockview list) p2prog" where
  "downloadJob X v notForked from chunkSize chunks i =
     (let key = rangeOf from chunkSize chunks i in
      andThen (reads (\<lambda>s. cc_has (pp_cache s) key)) (\<lambda>cached.
      if cached
      then andThen (\<lambda>s. (cc_get (pp_cache s) key, s)) (\<lambda>bs.
        andThen (modify (\<lambda>s. s\<lparr>pp_cache := cc_remove key (pp_cache s)\<rparr>)) (\<lambda>_. ret bs))
      else andThen (peersToTry X notForked chunks i) (\<lambda>rs.
        tryPeers X v (from + chunkSize * int i) chunkSize (int i = chunks - 1) rs)))"

text \<open>
  All jobs are started; the first to fail ends the wait. \<open>inTime\<close> tells which jobs had finished
  by then, when one failed: the results of the others are not there yet.
\<close>

definition downloadJobs :: "'x p2p_env \<Rightarrow> verdicts \<Rightarrow> nat list \<Rightarrow> int \<Rightarrow> int \<Rightarrow> int \<Rightarrow> (nat \<Rightarrow> bool) \<Rightarrow>
    ('x, blockview list option list) p2prog" where
  "downloadJobs X v notForked from chunkSize chunks inTime =
     andThen (mapProg (\<lambda>i. catching (andThen (downloadJob X v notForked from chunkSize chunks i) (\<lambda>bs. ret (Some bs)))
         (\<lambda>_. ret None)) [0..<nat chunks]) (\<lambda>results.
     ret (if None \<in> set results
       then map (\<lambda>(i, r). if inTime i then r else None) (enumerate 0 results) else results))"

text \<open>The chunks before the first missing one are returned, those after it go to the cache.\<close>

fun assembled :: "blockview list option list \<Rightarrow> blockview list" where
  "assembled [] = []"
| "assembled (None # rs) = []"
| "assembled (Some bs # rs) = bs @ assembled rs"

fun leftOver :: "nat \<Rightarrow> blockview list option list \<Rightarrow> (nat \<times> blockview list) list" where
  "leftOver i [] = []"
| "leftOver i (Some bs # rs) = leftOver (i + 1) rs"
| "leftOver i (None # rs) = catOptions (map (\<lambda>(j, r). map_option (Pair j) r) (enumerate (i + 1) rs))"

definition cacheChunk :: "int \<Rightarrow> int \<Rightarrow> nat \<times> blockview list \<Rightarrow> ('x, unit) p2prog" where
  "cacheChunk from chunkSize chunk =
     (let start = from + chunkSize * int (fst chunk) in
      modify (\<lambda>s. s\<lparr>pp_cache := cc_set (blocksRange start (localeString (start + chunkSize))) (snd chunk) (pp_cache s)\<rparr>))"

definition downloadBlocksFromHeight :: "'x p2p_env \<Rightarrow> verdicts \<Rightarrow> int \<Rightarrow> int \<Rightarrow> (nat \<Rightarrow> bool) \<Rightarrow> ('x, blockview list) p2prog" where
  "downloadBlocksFromHeight X v from maxParallel inTime =
     andThen (reads getPeers) (\<lambda>all.
     if all = [] then ret []
     else andThen (reads (\<lambda>s. filter (\<lambda>r. \<not> isForked (pp_objs s r)) all)) (\<lambda>good.
       andThen (shuffle X good) (\<lambda>notForked.
       if notForked = [] then ret []
       else
         andThen (reads getNetworkHeight) (\<lambda>networkHeight.
         andThen (reads pp_chunkSize) (\<lambda>chunkSize.
         let chunks = min (min (chunksMissing networkHeight from chunkSize) (int (length notForked))) maxParallel in
         andThen (downloadJobs X v notForked from chunkSize chunks inTime) (\<lambda>results.
         andThen (forEach (cacheChunk from chunkSize) (leftOver 0 results)) (\<lambda>_.
         andThen (modify (\<lambda>s. s\<lparr>pp_chunkSize :=
            (if assembled results = [] then ceilDiv chunkSize 10 else defaultDownloadChunkSize)\<rparr>)) (\<lambda>_.
         ret (assembled results)))))))))"

section \<open>Broadcasting\<close>

text \<open>A rejected post rejects the whole broadcast, but the other posts have been made.\<close>

definition postToAll :: "'x p2p_env \<Rightarrow> verdicts \<Rightarrow> block \<Rightarrow> nat list \<Rightarrow> ('x, unit) p2prog" where
  "postToAll X v b rs =
     andThen (mapProg (\<lambda>r. catching (andThen (postBlock X v r b) (\<lambda>_. ret None)) (\<lambda>e. ret (Some e))) rs) (\<lambda>outcomes.
     case catOptions outcomes of [] \<Rightarrow> ret () | e # _ \<Rightarrow> throw e)"

text \<open>The number of peers for a quota of \<open>k\<close> quarters, rounded up.\<close>

definition quotaPeers :: "int \<Rightarrow> nat \<Rightarrow> nat" where
  "quotaPeers k n = (if k \<le> 0 then 0 else nat (ceilDiv (k * int n) 4))"

definition maxHop :: int where "maxHop = 4"

text \<open>
  The state of the chain may have changed during the wait of an early broadcast: \<open>later\<close> is the
  block ping found then.
\<close>

definition broadcastBlock :: "'x p2p_env \<Rightarrow> verdicts \<Rightarrow> block \<Rightarrow> blockPing option \<Rightarrow> ('x, unit) p2prog" where
  "broadcastBlock X v b later =
     andThen (reads (\<lambda>s. st_blockPing (rs_store (pp_round s)))) (\<lambda>found.
     andThen (reads getPeers) (\<lambda>peers.
     case found of
       Some p \<Rightarrow>
         if bid (bp_block p) = bid (bdata b) \<and> \<not> bp_fromForger p
         then
           let diff = bp_last p - bp_first p; quota = maxHop - bp_count p in
           andThen (if diff < 500 \<and> quota > 0
              then andThen (inWorld (px_delay X (500 - diff))) (\<lambda>_.
                andThen (defined JsTypeError later) (\<lambda>q.
                ret (if height (bp_block q) \<noteq> height (bdata b) then None else Some (maxHop - bp_count q))))
              else ret (Some quota)) (\<lambda>quota.
           case quota of None \<Rightarrow> ret ()
           | Some k \<Rightarrow>
               if k \<le> 0 then postToAll X v b []
               else andThen (shuffle X peers) (\<lambda>ps. postToAll X v b (take (quotaPeers k (length peers)) ps)))
         else postToAll X v b peers
     | None \<Rightarrow> postToAll X v b peers))"

text \<open>Broadcasting transactions: to whom, and the bytes to send. Sending is queued.\<close>

definition broadcastTransactions :: "'x p2p_env \<Rightarrow> (transaction \<Rightarrow> error + byte list) \<Rightarrow> nat \<Rightarrow> transaction list \<Rightarrow>
    ('x, nat list \<times> byte list list) p2prog" where
  "broadcastTransactions X serialize maxPeers ts =
     (if ts = [] then ret ([], [])
      else andThen (reads getPeers) (\<lambda>all.
        andThen (shuffle X all) (\<lambda>ps.
        andThen (liftE (mapE serialize ts)) (\<lambda>bytes.
        ret (take maxPeers ps, bytes)))))"

section \<open>Upkeep\<close>

text \<open>The seeds: the configured ones, then those of the list at a URL that are not among them.\<close>

definition mergeSeeds :: "(string \<times> int) list \<Rightarrow> (string \<times> int) list \<Rightarrow> (string \<times> int) list" where
  "mergeSeeds seeds fromUrl =
     fold (\<lambda>p seeds. if list_ex (\<lambda>q. fst q = fst p) seeds then seeds else seeds @ [p]) fromUrl seeds"

definition populateSeedPeer :: "'x p2p_env \<Rightarrow> verdicts \<Rightarrow> nat \<Rightarrow> ('x, unit) p2prog" where
  "populateSeedPeer X v r =
     andThen (forgetPeer r) (\<lambda>_. validateAndAcceptPeer X v r \<lparr>ao_seed = True, ao_lessVerbose = True\<rparr>)"

definition createSeed :: "'x p2p_env \<Rightarrow> string \<times> int \<Rightarrow> ('x, nat) p2prog" where
  "createSeed X seed =
     andThen (createPeer (fst seed) (snd seed)) (\<lambda>r.
     andThen (onPeer r (\<lambda>p. p\<lparr>pr_version := Some (px_appVersion X)\<rparr>)) (\<lambda>_. ret r))"

definition populateSeedPeers :: "'x p2p_env \<Rightarrow> verdicts \<Rightarrow> ('x, unit) p2prog" where
  "populateSeedPeers X v =
     andThen (mapProg (createSeed X) (mergeSeeds (px_seeds X)
        (case px_seedsFromUrl X of Inl e \<Rightarrow> [] | Inr ps \<Rightarrow> ps))) (forEach (populateSeedPeer X v))"

definition scheduleUpdate :: "('x, unit) p2prog" where
  "scheduleUpdate = modify (\<lambda>s. s\<lparr>pp_scheduled := True\<rparr>)"

definition updateNetworkStatus :: "'x p2p_env \<Rightarrow> verdicts \<Rightarrow> bool \<Rightarrow> ('x, unit) p2prog" where
  "updateNetworkStatus X v initialRun =
     (if px_test X then ret ()
      else
        andThen (whenever (px_networkStart X) (modify (\<lambda>s. s\<lparr>pp_coldStart := True\<rparr>))) (\<lambda>_.
        if px_disableDiscovery X then ret ()
        else
          andThen (catching
             (andThen (discoverPeers X v initialRun) (\<lambda>found.
              whenever found (cleansePeers X v False False None))) (\<lambda>_. ret ())) (\<lambda>_.
          andThen (reads (hasMinimumPeers X)) (\<lambda>enough.
          andThen (whenever (\<not> enough) (populateSeedPeers X v)) (\<lambda>_.
          scheduleUpdate)))))"

definition scheduledUpdate :: "'x p2p_env \<Rightarrow> verdicts \<Rightarrow> ('x, unit) p2prog" where
  "scheduledUpdate X v =
     andThen (reads pp_scheduled) (\<lambda>due.
     whenever due (andThen (modify (\<lambda>s. s\<lparr>pp_scheduled := False\<rparr>)) (\<lambda>_. updateNetworkStatus X v False)))"

definition monitorBoot :: "'x p2p_env \<Rightarrow> verdicts \<Rightarrow> ('x, unit) p2prog" where
  "monitorBoot X v =
     andThen (populateSeedPeers X v) (\<lambda>_.
     andThen (whenever (\<not> px_skipDiscovery X) (updateNetworkStatus X v True)) (\<lambda>_.
     andThen (inWorld (px_delay X 1000)) (\<lambda>_.
     modify (\<lambda>s. s\<lparr>pp_initializing := False\<rparr>))))"

section \<open>The blocks that are returned\<close>

text \<open>
  The chunks hold the heights of their ranges, all but the last one of the asked length (a peer may
  send fewer; nothing checks it). Then what is returned has no gap.
\<close>

fun fullChunks :: "int \<Rightarrow> int \<Rightarrow> blockview list option list \<Rightarrow> bool" where
  "fullChunks start n [] \<longleftrightarrow> True"
| "fullChunks start n (None # rs) \<longleftrightarrow> True"
| "fullChunks start n (Some bs # rs) \<longleftrightarrow>
     map (\<lambda>b. height (fst b)) bs = [start + 1..start + int (length bs)] \<and>
     (rs \<noteq> [] \<longrightarrow> int (length bs) = n) \<and> fullChunks (start + n) n rs"

lemma assembled_contiguous:
  "fullChunks start n rs \<Longrightarrow>
    map (\<lambda>b. height (fst b)) (assembled rs) = [start + 1..start + int (length (assembled rs))]"
proof (induction start n rs rule: fullChunks.induct)
  case (3 start n bs rs)
  let ?rest = "assembled rs"
  have bs: "map (\<lambda>b. height (fst b)) bs = [start + 1..start + int (length bs)]" using "3.prems" by simp
  show ?case
  proof (cases "rs = []")
    case False
    then have n: "int (length bs) = n" using "3.prems" by simp
    have "map (\<lambda>b. height (fst b)) ?rest = [start + n + 1..start + n + int (length ?rest)]" using "3.IH" "3.prems" by simp
    moreover have "[start + 1..start + n + int (length ?rest)] = [start + 1..start + n] @ [start + n + 1..start + n + int (length ?rest)]"
      using upto_split1[of "start + 1" "start + n + 1" "start + n + int (length ?rest)"] n
      by (cases "0 < length ?rest") auto
    ultimately show ?thesis using bs n by (simp add: add.assoc)
  qed (use bs in simp)
qed simp_all

text \<open>A chunk that was fetched is not empty, unless it is the last one.\<close>

lemma tryPeers_found: "tryPeers X v start n isLast rs s = (Inr bs, s') \<Longrightarrow> bs \<noteq> [] \<or> isLast"
  by (induction rs arbitrary: s)
    (auto elim!: andThen_InrE simp: catching_def split: prod.splits sum.splits option.splits if_splits)

text \<open>The size of the next chunks is positive.\<close>

lemma ceilDiv_bounds:
  assumes "0 < b" shows "a \<le> b * ceilDiv a b" "b * ceilDiv a b < a + b"
proof -
  let ?q = "(- a) div b"
  have "b * ?q + (- a) mod b = - a" by (rule mult_div_mod_eq)
  moreover have "0 \<le> (- a) mod b" "(- a) mod b < b" using assms by simp_all
  moreover have "b * ceilDiv a b = - (b * ?q)" by (simp add: ceilDiv_def)
  ultimately show "a \<le> b * ceilDiv a b" "b * ceilDiv a b < a + b" by linarith+
qed

lemma ceilDiv_pos:
  assumes "0 < a" and "0 < b" shows "0 < ceilDiv a b"
proof -
  have "0 < b * ceilDiv a b" using ceilDiv_bounds(1)[OF assms(2), of a] assms(1) by linarith
  then show ?thesis using assms(2) by (simp add: zero_less_mult_iff)
qed

end
