(* ===== verification/PeerInvariant.thy ===== *)
theory PeerInvariant
  imports Downloads
begin

text \<open>
  What every operation of the network part keeps: the repository lists verified peers only, each
  under its own address; and the size of the download chunks stays positive.
\<close>

section \<open>New peers are not listed\<close>

definition freshPeers :: "'x p2p_env \<Rightarrow> nat set \<Rightarrow> 'x p2p \<Rightarrow> bool" where
  "freshPeers X R s \<longleftrightarrow> peers_ok X {} s \<and> (\<forall>r \<in> R. unlisted r s)"

lemma peers_ok_next: "peers_ok X E s \<Longrightarrow> pp_next s \<notin> set (getPeers s)"
  by (auto simp: peers_ok_def)

lemma createPeer_fresh:
  assumes "freshPeers X R s"
  shows "\<exists>s'. createPeer ip port s = (Inr (pp_next s), s') \<and> freshPeers X (insert (pp_next s) R) s'"
proof -
  obtain s' where s': "createPeer ip port s = (Inr (pp_next s), s')" by (simp add: createPeer_def)
  then have "peers_ok X {} s'" using keepsD[OF keeps_createPeer _ s'] assms by (simp add: freshPeers_def)
  moreover have "getPeers s' = getPeers s" "pp_next s' = pp_next s + 1" using s' by (auto simp: createPeer_def getPeers_def)
  ultimately show ?thesis using s' assms peers_ok_next[of X "{}" s] by (auto simp: freshPeers_def unlisted_def)
qed

lemma set_jm_set: "set (jm_values (jm_set k x m)) \<subseteq> insert x (set (jm_values m))"
  by (induction k x m rule: jm_set.induct) (auto simp: jm_values_def)

lemma freshPeers_sub: "freshPeers X R s \<Longrightarrow> R' \<subseteq> R \<Longrightarrow> freshPeers X R' s"
  by (auto simp: freshPeers_def)

lemma createPeers_fresh:
  assumes "freshPeers X (set (jm_values m)) s"
  shows "\<exists>m' s'. createPeers ps m s = (Inr m', s') \<and> freshPeers X (set (jm_values m')) s'"
  using assms
proof (induction ps m arbitrary: s rule: createPeers.induct)
  case (2 ip port ps m)
  obtain s1 where s1: "createPeer ip port s = (Inr (pp_next s), s1)"
      "freshPeers X (insert (pp_next s) (set (jm_values m))) s1"
    using createPeer_fresh[OF "2.prems"] by blast
  have "freshPeers X (set (jm_values (jm_set ip (pp_next s) m))) s1"
    using s1(2) set_jm_set by (rule freshPeers_sub)
  then show ?case using "2.IH" s1(1) by (simp add: andThen_def)
qed auto

lemma freshPeers_world [simp]: "freshPeers X R (s\<lparr>pp_world := w\<rparr>) = freshPeers X R s"
  by (simp add: freshPeers_def unlisted_def getPeers_def)

lemma shuffle_returns: "\<exists>ys w. shuffle X xs s = (Inr ys, s\<lparr>pp_world := w\<rparr>)"
proof -
  have "\<exists>ys w. shuffleFrom X i n xs s = (Inr ys, s\<lparr>pp_world := w\<rparr>)" for i n
  proof (induction n arbitrary: i xs s)
    case 0
    show ?case by (rule exI[of _ xs], rule exI[of _ "pp_world s"]) simp
  next
    case (Suc n)
    obtain k w where k: "px_random X i (pp_world s) = (k, w)" by fastforce
    obtain ys w' where "shuffleFrom X (i + 1) n (xs[i := xs ! k, k := xs ! i]) (s\<lparr>pp_world := w\<rparr>) =
        (Inr ys, s\<lparr>pp_world := w\<rparr>\<lparr>pp_world := w'\<rparr>)"
      using Suc.IH by blast
    then show ?case using k by (auto simp: andThen_def inWorld_def within_def)
  qed
  then show ?thesis by (simp add: shuffle_def)
qed

lemma gatherPeers_fresh:
  assumes "freshPeers X (set (jm_values m)) s"
  shows "\<exists>m' s'. gatherPeers X pss m s = (Inr m', s') \<and> freshPeers X (set (jm_values m')) s'"
  using assms
proof (induction X pss m arbitrary: s rule: gatherPeers.induct)
  case (2 X ps pss m)
  obtain ys w where ys: "shuffle X ps s = (Inr ys, s\<lparr>pp_world := w\<rparr>)" using shuffle_returns[of X ps s] by blast
  obtain m1 s1 where m1: "createPeers (take 50 ys) m (s\<lparr>pp_world := w\<rparr>) = (Inr m1, s1)"
      "freshPeers X (set (jm_values m1)) s1"
    using createPeers_fresh[of X m "s\<lparr>pp_world := w\<rparr>" "take 50 ys"] "2.prems" by auto
  then show ?case using "2.IH"[OF m1(2)] ys by (simp add: andThen_def)
qed auto

section \<open>Accepting a peer lists no other one\<close>

lemma unlisted_world [simp]: "unlisted r (s\<lparr>pp_world := w\<rparr>) = unlisted r s"
  by (simp add: unlisted_def getPeers_def)

lemma keeps_unlisted:
  "keeps (unlisted r) (setPendingPeer q)" "keeps (unlisted r) (forgetPendingPeer q)" "keeps (unlisted r) (disconnect q)"
  "keeps (unlisted r) (onPeer q f)" "keeps (unlisted r) (createPeer ip port)"
  "q \<noteq> r \<Longrightarrow> keeps (unlisted r) (setPeer q)"
  using subsetD[OF set_jm_set]
  by (fastforce intro!: keepsI simp: unlisted_def setPendingPeer_def forgetPendingPeer_def disconnect_def onPeer_def
      createPeer_def setPeer_def getPeers_def)+

lemma keeps_finallyDo [keeps_intros]:
  assumes "keeps P m" and "keeps P f" shows "keeps P (finallyDo m f)"
proof (rule keepsI)
  fix s assume "P s"
  obtain a t where m: "m s = (a, t)" by fastforce
  have "P t" using assms(1) \<open>P s\<close> m by (rule keepsD)
  then show "P (snd (finallyDo m f s))"
    using assms(2) m by (auto simp: finallyDo_def keeps_def split: prod.splits sum.splits)
qed

lemma keeps_unlisted_accept: "keeps (unlisted r) (acceptNewPeer X v q)"
proof (rule keepsI)
  fix s :: "'a p2p" assume un: "unlisted r s"
  let ?rest = "\<lambda>q'. finallyDo (catching (andThen (setPendingPeer q) (\<lambda>_.
      andThen (ping X v q' (px_verifyTimeout X) False) (\<lambda>_. setPeer q'))) (\<lambda>_. disconnect q')) (forgetPendingPeer q)"
  obtain s1 where c: "createPeer (pr_ip (pp_objs s q)) (px_serverPort X) s = (Inr (pp_next s), s1)"
    by (simp add: createPeer_def)
  have "unlisted r s1" using keepsD[OF keeps_unlisted(5) un c] .
  moreover have "keeps (unlisted r) (?rest (pp_next s))"
    using un by (intro keeps_intros keeps_unlisted keeps_unlisted_ping) (simp add: unlisted_def)
  ultimately have "unlisted r (snd (?rest (pp_next s) s1))" unfolding keeps_def by blast
  then show "unlisted r (snd (acceptNewPeer X v q s))"
    using un c by (simp add: acceptNewPeer_def peerAt_def andThen_def)
qed

lemma keeps_fresh_accept: "keeps (freshPeers X R) (acceptNewPeer X v q)"
  using keeps_acceptNewPeer keeps_unlisted_accept unfolding keeps_def freshPeers_def by blast

lemma keeps_fresh_onPeer: "r \<in> R \<Longrightarrow> keeps (freshPeers X R) (onPeer r f)"
proof (rule keepsI)
  fix s assume r: "r \<in> R" and fresh: "freshPeers X R s"
  then have "q \<noteq> r" if "q \<in> set (getPeers s)" for q using that by (auto simp: freshPeers_def unlisted_def)
  moreover from this have "q \<noteq> r" if "jm_get (pp_peers s) ip = Some q" for ip q
    using that fresh mem_getPeers[of s] by (auto simp: freshPeers_def peers_ok_def repo_filed_def)
  ultimately show "freshPeers X R (snd (onPeer r f s))"
    using fresh by (auto simp: freshPeers_def peers_ok_def repo_filed_def unlisted_def onPeer_def getPeers_def)
qed

lemma keeps_fresh_validate: "r \<in> R \<Longrightarrow> keeps (freshPeers X R) (validateAndAcceptPeer X v r opts)"
  unfolding validateAndAcceptPeer_def validatePeerIp_def isValidPeer_def peerAt_def
  by (auto intro!: keeps_intros keeps_fresh_onPeer keeps_fresh_accept split: option.splits)

section \<open>Every operation keeps the repository verified\<close>

definition verifiedPeers :: "'x p2p_env \<Rightarrow> 'x p2p \<Rightarrow> bool" where
  "verifiedPeers X s \<longleftrightarrow> peers_ok X {} s"

lemma fresh_verified: "freshPeers X R s \<Longrightarrow> verifiedPeers X s"
  by (simp add: freshPeers_def verifiedPeers_def)

lemma keeps_verified_framed: "(\<And>s. keeps (peerFrame r s) m) \<Longrightarrow> keeps (verifiedPeers X) m"
proof (rule keeps_framed[where r = r])
  show "\<forall>s t. verifiedPeers X s \<longrightarrow> peerFrame r s t \<longrightarrow> verifiedPeers X t"
    unfolding verifiedPeers_def using peers_ok_frame by blast
qed

lemma verifiedPeers_ext:
  "pp_objs t = pp_objs s \<Longrightarrow> pp_next t = pp_next s \<Longrightarrow> pp_peers t = pp_peers s \<Longrightarrow> verifiedPeers X t = verifiedPeers X s"
  by (simp add: verifiedPeers_def peers_ok_def repo_filed_def getPeers_def)

lemma keeps_verified_world [keeps_intros]: "keeps (verifiedPeers X) (inWorld m)" "keeps (verifiedPeers X) (shuffle Y xs)"
  by (auto intro!: keeps_inWorld keeps_shuffle simp: verifiedPeers_def)

lemma keeps_verified_modify [keeps_intros]:
  "(\<And>s. pp_objs (f s) = pp_objs s \<and> pp_next (f s) = pp_next s \<and> pp_peers (f s) = pp_peers s) \<Longrightarrow>
    keeps (verifiedPeers X) (modify f)"
  using verifiedPeers_ext by (intro keeps_modify) blast

lemma keeps_verified_round [keeps_intros]: "keeps (verifiedPeers X) (onRoundState m)"
  by (rule keepsI) (auto simp: onRoundState_def within_def verifiedPeers_def peers_ok_def repo_filed_def getPeers_def
      split: prod.splits)

lemma keeps_verified_request [keeps_intros]: "keeps (verifiedPeers X) (sendRequest Y r path schema request)"
  by (rule keeps_verified_framed, rule peerFrame_request)

lemma keeps_verified_ports [keeps_intros]: "keeps (verifiedPeers X) (pingPorts Y r)"
proof -
  have "keeps (peerFrame r s) (pingPort Y r q)" for s q
    unfolding pingPort_def peerAt_def
    by (auto intro!: keeps_intros peerFrame_onPeer framed_peer[OF framed_inWorld])
  then show ?thesis unfolding pingPorts_def peerAt_def
    by (intro keeps_intros) (rule keeps_verified_framed)
qed

lemma keeps_verified_blocks [keeps_intros]: "keeps (verifiedPeers X) (getPeerBlocks Y v r from limit hdr)"
  unfolding getPeerBlocks_def by (intro keeps_intros)

lemma keeps_verified_disconnect [keeps_intros]: "keeps (verifiedPeers X) (disconnectPeer r)"
  by (rule keeps_verified_framed, rule framed_peer, rule framed_disconnectPeer)

lemma keeps_verified_cleanse [keeps_intros]: "keeps (verifiedPeers X) (cleansePeers X v fast force n)"
  using keeps_cleansePeers unfolding verifiedPeers_def .

lemma keeps_verified_pingPeerPorts [keeps_intros]: "keeps (verifiedPeers X) (pingPeerPorts X all)"
  unfolding pingPeerPorts_def by (auto intro!: keeps_intros)

lemma keeps_verified_fromFresh:
  assumes "\<And>m s'. f s = (Inr m, s') \<Longrightarrow> verifiedPeers X (snd (g m s'))" and "\<exists>m s'. f s = (Inr m, s')"
  shows "verifiedPeers X (snd (andThen f g s))"
  using assms by (auto simp: andThen_def)

lemma keeps_run: "keeps P m \<Longrightarrow> P s \<Longrightarrow> P (snd (m s))"
  by (simp add: keeps_def)

lemma accept_fresh:
  assumes "freshPeers X (set rs) s"
  shows "verifiedPeers X (snd (forEach (\<lambda>r. validateAndAcceptPeer X v r opts) rs s))"
proof -
  have "keeps (freshPeers X (set rs)) (forEach (\<lambda>r. validateAndAcceptPeer X v r opts) rs)"
    by (auto intro!: keeps_intros keeps_fresh_validate)
  then show ?thesis using assms fresh_verified unfolding keeps_def by blast
qed

lemma verified_andThen:
  assumes "verifiedPeers X (snd (m s))" and "\<And>x. keeps (verifiedPeers X) (f x)"
  shows "verifiedPeers X (snd (andThen m f s))"
  using assms by (auto simp: andThen_def keeps_def split: prod.splits sum.splits)

lemma keeps_verified_discover [keeps_intros]: "keeps (verifiedPeers X) (discoverPeers X v pingAll)"
proof (rule keepsI)
  fix s assume ok: "verifiedPeers X s"
  obtain some w where sh: "shuffle X (getPeers s) s = (Inr some, s\<lparr>pp_world := w\<rparr>)"
    using shuffle_returns[of X "getPeers s" s] by blast
  let ?s = "s\<lparr>pp_world := w\<rparr>"
  obtain a t where lists: "mapProg (peersOfPeer X v) (take 8 some) ?s = (a, t)" by fastforce
  have k: "keeps (verifiedPeers X) (mapProg (peersOfPeer X v) (take 8 some))"
    unfolding peersOfPeer_def pc_getPeers_def by (auto intro!: keeps_intros)
  have "verifiedPeers X ?s" using ok by (simp add: verifiedPeers_def)
  then have t: "verifiedPeers X t" using keepsD[where m = "mapProg (peersOfPeer X v) (take 8 some)", OF k _ lists] by blast
  have rest: "verifiedPeers X (snd (andThen (gatherPeers X xs []) (\<lambda>m.
     andThen (reads (hasMinimumPeers X)) (\<lambda>enough.
     let theirs = jm_values m in
     if pingAll \<or> \<not> enough \<or> 4 * length (getPeers s) < 3 * length theirs
     then andThen (forEach (\<lambda>r. validateAndAcceptPeer X v r \<lparr>ao_seed = False, ao_lessVerbose = True\<rparr>) theirs) (\<lambda>_.
       andThen (pingPeerPorts X pingAll) (\<lambda>_. ret True))
     else andThen (pingPeerPorts X False) (\<lambda>_. ret False))) t))" for xs
  proof -
    have "freshPeers X (set (jm_values ([] :: (string, nat) jsmap))) t"
      using t by (simp add: freshPeers_def verifiedPeers_def jm_values_def)
    then obtain m t' where m: "gatherPeers X xs [] t = (Inr m, t')" "freshPeers X (set (jm_values m)) t'"
      using gatherPeers_fresh by blast
    have "verifiedPeers X t'" using m(2) by (rule fresh_verified)
    then have "verifiedPeers X (snd (andThen (pingPeerPorts X q) (\<lambda>_. ret (b :: bool)) t'))" for q b
      by (intro keeps_run[where P = "verifiedPeers X" and m = "andThen (pingPeerPorts X q) (\<lambda>_. ret b)"] keeps_intros)
    moreover have "verifiedPeers X (snd (andThen (forEach (\<lambda>r. validateAndAcceptPeer X v r opts) (jm_values m)) (\<lambda>_.
       andThen (pingPeerPorts X pingAll) (\<lambda>_. ret True)) t'))" for opts
      using accept_fresh[OF m(2)] by (intro verified_andThen keeps_intros)
    ultimately show ?thesis using m(1) by (simp add: andThen_Inr[where m = "gatherPeers X xs []", OF m(1)] Let_def)
  qed
  then show "verifiedPeers X (snd (discoverPeers X v pingAll s))"
    using sh lists t by (cases a) (simp_all add: discoverPeers_def andThen_Inr[where m = "shuffle X (getPeers s)", OF sh]
      andThen_Inl[where m = "mapProg (peersOfPeer X v) (take 8 some)"]
      andThen_Inr[where m = "mapProg (peersOfPeer X v) (take 8 some)"])
qed

lemma keeps_verified_seeds [keeps_intros]: "keeps (verifiedPeers X) (populateSeedPeers X v)"
proof (rule keepsI)
  fix s assume ok: "verifiedPeers X s"
  let ?seeds = "mergeSeeds (px_seeds X) (case px_seedsFromUrl X of Inl e \<Rightarrow> [] | Inr ps \<Rightarrow> ps)"
  have create: "\<exists>rs s'. mapProg (createSeed X) seeds s = (Inr rs, s') \<and> freshPeers X (R \<union> set rs) s'"
    if "freshPeers X R s" for seeds R s
    using that
  proof (induction seeds arbitrary: R s)
    case (Cons seed seeds)
    obtain s1 where s1: "createPeer (fst seed) (snd seed) s = (Inr (pp_next s), s1)"
        "freshPeers X (insert (pp_next s) R) s1"
      using createPeer_fresh[OF Cons.prems] by blast
    let ?f = "\<lambda>p. p\<lparr>pr_version := Some (px_appVersion X)\<rparr>"
    obtain s2 where s2: "onPeer (pp_next s) ?f s1 = (Inr (), s2)" by (simp add: onPeer_def)
    have "freshPeers X (insert (pp_next s) R) s2"
      using keepsD[where m = "onPeer (pp_next s) ?f", OF keeps_fresh_onPeer s1(2) s2] by simp
    then obtain rs s' where "mapProg (createSeed X) seeds s2 = (Inr rs, s')" "freshPeers X (insert (pp_next s) R \<union> set rs) s'"
      using Cons.IH by blast
    moreover have "createSeed X seed s = (Inr (pp_next s), s2)" using s1(1) s2 by (simp add: createSeed_def andThen_def)
    ultimately show ?case by (auto simp: andThen_def)
  qed (auto simp: Un_absorb1)
  have "freshPeers X {} s" using ok by (simp add: freshPeers_def verifiedPeers_def)
  then obtain rs s' where rs: "mapProg (createSeed X) ?seeds s = (Inr rs, s')" "freshPeers X (set rs) s'"
    using create[of "{}" s ?seeds] by auto
  have forget: "keeps (freshPeers X (set rs)) (forgetPeer r)" for r
  proof (rule keepsI)
    fix t assume t: "freshPeers X (set rs) t"
    have "pp_objs (snd (forgetPeer r t)) = pp_objs t" "pp_next (snd (forgetPeer r t)) = pp_next t"
        "set (getPeers (snd (forgetPeer r t))) \<subseteq> set (getPeers t)" "repo_filed (snd (forgetPeer r t))"
      using repo_filed_forgetPeer t set_jm_delete[of "pr_ip (pp_objs t r)" "pp_peers t"]
      unfolding keeps_def freshPeers_def peers_ok_def
      by (auto simp: forgetPeer_def getPeers_def)
    then show "freshPeers X (set rs) (snd (forgetPeer r t))"
      using t by (auto simp: freshPeers_def peers_ok_def unlisted_def)
  qed
  have "keeps (freshPeers X (set rs)) (forEach (populateSeedPeer X v) rs)"
    unfolding populateSeedPeer_def by (auto intro!: keeps_intros keeps_fresh_validate forget)
  then have "verifiedPeers X (snd (forEach (populateSeedPeer X v) rs s'))"
    using rs(2) fresh_verified unfolding keeps_def by blast
  then show "verifiedPeers X (snd (populateSeedPeers X v s))"
    using rs(1) by (simp add: populateSeedPeers_def andThen_Inr[where m = "mapProg (createSeed X) ?seeds", OF rs(1)])
qed

lemma keeps_verified_update [keeps_intros]: "keeps (verifiedPeers X) (updateNetworkStatus X v initial)"
  unfolding updateNetworkStatus_def scheduleUpdate_def by (auto intro!: keeps_intros)

lemma keeps_verified_try: "keeps (verifiedPeers X) (tryPeers X v start n isLast rs)"
  by (induction rs) (auto intro!: keeps_intros split: option.splits)

lemma keeps_verified_download: "keeps (verifiedPeers X) (downloadBlocksFromHeight X v from maxParallel inTime)"
  unfolding downloadBlocksFromHeight_def downloadJobs_def downloadJob_def peersToTry_def cacheChunk_def Let_def
  by (auto intro!: keeps_intros keeps_verified_try peerFrame_look)

lemma keeps_verified_broadcast: "keeps (verifiedPeers X) (broadcastBlock X v b later)"
proof -
  have "keeps (verifiedPeers X) (postBlock X v r b)" for r
    unfolding postBlock_def
    by (intro keeps_intros; simp split: option.splits)
      (auto intro!: keeps_intros keeps_verified_framed[OF peerFrame_onPeer] simp: setHeight_peer_def)
  then have "keeps (verifiedPeers X) (postToAll X v b rs)" for rs
    unfolding postToAll_def by (auto intro!: keeps_intros split: list.splits)
  then show ?thesis unfolding broadcastBlock_def by (auto intro!: keeps_intros simp: Let_def split: option.splits)
qed

text \<open>The steps of the network part, in any order.\<close>

inductive p2pStep :: "'x p2p_env \<Rightarrow> 'x p2p \<Rightarrow> 'x p2p \<Rightarrow> bool" for X where
  discovers: "p2pStep X s (snd (discoverPeers X v pingAll s))"
| cleanses: "p2pStep X s (snd (cleansePeers X v fast force n s))"
| updates: "p2pStep X s (snd (updateNetworkStatus X v initial s))"
| scheduled: "p2pStep X s (snd (scheduledUpdate X v s))"
| seeds: "p2pStep X s (snd (populateSeedPeers X v s))"
| boots: "p2pStep X s (snd (monitorBoot X v s))"
| health: "p2pStep X s (snd (checkNetworkHealth X v s))"
| state: "p2pStep X s (snd (getNetworkState X v s))"
| refreshes: "p2pStep X s (snd (refreshPeersAfterFork X v s))"
| downloads: "p2pStep X s (snd (downloadBlocksFromHeight X v from maxParallel inTime s))"
| broadcasts: "p2pStep X s (snd (broadcastBlock X v b later s))"
| milestone: "p2pStep X s (snd (disconnectInvalidPeers X s))"
| timer: "p2pStep X s (snd (createdExpires ip s))"
| chain: "p2pStep X s (s\<lparr>pp_round := R\<rparr>)"
| outside: "p2pStep X s (s\<lparr>pp_world := w\<rparr>)"

inductive reachableP2p :: "'x p2p_env \<Rightarrow> 'x p2p \<Rightarrow> 'x p2p \<Rightarrow> bool" for X s where
  here: "reachableP2p X s s"
| onward: "reachableP2p X s t \<Longrightarrow> p2pStep X t u \<Longrightarrow> reachableP2p X s u"

lemma keeps_verified_others:
  "keeps (verifiedPeers X) (scheduledUpdate X v)" "keeps (verifiedPeers X) (monitorBoot X v)"
  "keeps (verifiedPeers X) (checkNetworkHealth X v)" "keeps (verifiedPeers X) (getNetworkState X v)"
  "keeps (verifiedPeers X) (disconnectInvalidPeers X)" "keeps (verifiedPeers X) (createdExpires ip)"
  "keeps (verifiedPeers X) (refreshPeersAfterFork X v)"
  unfolding scheduledUpdate_def monitorBoot_def checkNetworkHealth_def getNetworkState_def analyze_def completeColdStart_def
    disconnectInvalidPeers_def createdExpires_def refreshPeersAfterFork_def
  by (auto intro!: keeps_intros)

lemmas verified_runs = keeps_verified_others[THEN keeps_run] keeps_verified_discover[THEN keeps_run]
  keeps_verified_cleanse[THEN keeps_run] keeps_verified_update[THEN keeps_run] keeps_verified_seeds[THEN keeps_run]
  keeps_verified_download[THEN keeps_run] keeps_verified_broadcast[THEN keeps_run]

lemma p2pStep_verified: "p2pStep X s t \<Longrightarrow> verifiedPeers X s \<Longrightarrow> verifiedPeers X t"
proof (induction rule: p2pStep.induct)
  case (chain s R)
  then show ?case by (simp add: verifiedPeers_def peers_ok_def repo_filed_def getPeers_def)
next
  case (outside s w)
  then show ?case by (simp add: verifiedPeers_def)
qed (rule verified_runs, assumption)+

lemma reachableP2p_verified: "reachableP2p X s t \<Longrightarrow> verifiedPeers X s \<Longrightarrow> verifiedPeers X t"
  by (induction rule: reachableP2p.induct) (auto dest: p2pStep_verified)

end
