(* ===== verification/PeerExamples.thy ===== *)
theory PeerExamples
  imports PeerInvariant NodeExamples
begin

text \<open>
  A concrete network for the peer-to-peer part: two stored blocks, and one known peer that has the
  first of them only and answers every request at once.
\<close>

section \<open>The stored chain\<close>

definition demoName :: "int \<Rightarrow> string" where
  "demoName h = (if h = 1 then ''g'' else ''h'')"

definition demoDb :: database where
  "demoDb = \<lparr>db_blocks = [(''g'', [1]), (''h'', [2])], db_heights = [(1, ''g''), (2, ''h'')], db_transactions = [],
     db_rounds = []\<rparr>"

definition demoDecode :: "byte list \<Rightarrow> error + block" where
  "demoDecode bs = (if bs = [1] then Inr demoGenesis else if bs = [2] then Inr demoBlock else Inl JsTypeError)"

definition demoStored :: round_state where
  "demoStored = demoRoundState\<lparr>rs_db := demoDb\<rparr>"

section \<open>The peer and the services\<close>

text \<open>The reply to a question about common blocks: the last of the identifiers the peer knows.\<close>

definition demoReply :: "string list \<Rightarrow> common_block option reply" where
  "demoReply ids = \<lparr>rp_height = None,
     rp_body = (case rev (filter (\<lambda>i. i = ''g'') ids) of [] \<Rightarrow> None | i # _ \<Rightarrow> Some \<lparr>cb_id = i, cb_height = 1\<rparr>)\<rparr>"

definition demoVerdicts :: verdicts where
  "demoVerdicts = \<lparr>vd_status = (\<lambda>_. True), vd_peers = (\<lambda>_. True), vd_common = (\<lambda>_. True), vd_blocks = (\<lambda>_. True),
     vd_posted = (\<lambda>_. True)\<rparr>"

definition demoP2pEnv :: "unit p2p_env" where
  "demoP2pEnv = \<lparr>px_round = demoRoundEnv\<lparr>re_fromBytes := demoDecode\<rparr>, px_now = (\<lambda>_. 0), px_points = (\<lambda>_ _ _. None),
     px_consume = (\<lambda>_ _. ret ()), px_delay = (\<lambda>_. ret ()), px_recheck = 3, px_connect = (\<lambda>_. ret ()),
     px_status = (\<lambda>_. ret \<lparr>rp_height = None, rp_body = None\<rparr>),
     px_peerList = (\<lambda>_. ret \<lparr>rp_height = None, rp_body = Some [(''5.6.7.8'', 4002)]\<rparr>),
     px_common = (\<lambda>_ ids. ret (demoReply ids)), px_blocks = (\<lambda>_ _ _ _. ret \<lparr>rp_height = None, rp_body = []\<rparr>),
     px_postBlock = (\<lambda>_ _. ret \<lparr>rp_height = None, rp_body = None\<rparr>), px_head = (\<lambda>_ _. ret 200),
     px_serialize = (\<lambda>_. Inr []), px_txFromHex = (\<lambda>_. Inl JsTypeError), px_signature = (\<lambda>_. Inr True),
     px_sameHeader = (\<lambda>b d. bid (bdata b) = bid d), px_semverValid = (\<lambda>_. True), px_satisfies = (\<lambda>_ _ _. True),
     px_milestoneVersions = (\<lambda>_. []), px_minimumVersions = [], px_networkName = None, px_nethash = None,
     px_appVersion = ''4'', px_serverPort = 4002, px_maxErrors = 3, px_errorName = (\<lambda>_. ''Error''),
     px_skipVerification = False, px_sanitize = Some, px_interfaces = [], px_isIPv6 = (\<lambda>_. False),
     px_cidr24 = id, px_matches = (=), px_whitelist = [''*''], px_blacklist = [], px_remoteAccess = [],
     px_disableDiscovery = False, px_maxSameSubnet = 5, px_verifyTimeout = 5000, px_minimumReach = 1,
     px_ignoreMinimumReach = False, px_networkStart = False, px_skipDiscovery = False, px_test = False,
     px_seeds = [], px_seedsFromUrl = Inr [], px_slots = demoSlots, px_random = (\<lambda>_ w. (0, w))\<rparr>"

definition demoPeer :: peer where
  "demoPeer = (newPeer ''1.2.3.4'' 4002)\<lparr>pr_verification := Some \<lparr>vf_myHeight = 2, vf_hisHeight = 1, vf_commonHeight = 1\<rparr>\<rparr>"

definition demoP2p :: "unit p2p" where
  "demoP2p = \<lparr>pp_objs = (\<lambda>_. demoPeer), pp_next = 1, pp_peers = [(''1.2.3.4'', 0)], pp_pending = [],
     pp_connections = [], pp_errors = [], pp_created = [], pp_round = demoStored, pp_cache = [], pp_coldStart = False,
     pp_chunkSize = 400, pp_initializing = False, pp_scheduled = False, pp_world = ()\<rparr>"

section \<open>What holds of it\<close>

lemma demo_chainStored: "chainStored demoP2pEnv demoName 2 (pp_round demoP2p)"
proof -
  have "{1..2 :: int} = {1, 2}" by auto
  then show ?thesis
    by (simp add: chainStored_def demoP2p_def demoStored_def demoP2pEnv_def demoDb_def demoName_def demoDecode_def
        decodeId_def jm_get_def chain_defs)
qed

lemma demo_reply:
  "rp_body (demoReply (map demoName hs)) =
    map_option (\<lambda>h. \<lparr>cb_id = demoName h, cb_height = h\<rparr>) (highest (\<lambda>h. demoName h \<in> {''g''}) hs)"
proof -
  have eq: "filter (\<lambda>i. i = ''g'') (map demoName hs) = map demoName (filter (\<lambda>h. demoName h \<in> {''g''}) hs)"
    by (simp add: filter_map comp_def)
  have one: "h = 1" if "h # hs' = rev (filter (\<lambda>h. demoName h \<in> {''g''}) hs)" for h hs'
  proof -
    have "h \<in> set (rev (filter (\<lambda>h. demoName h \<in> {''g''}) hs))" using that[symmetric] by simp
    then show ?thesis by (simp add: demoName_def split: if_splits)
  qed
  show ?thesis
    using one by (cases "rev (filter (\<lambda>h. demoName h \<in> {''g''}) hs)") (simp_all add: demoReply_def highest_def eq rev_map)
qed

lemma demo_services [simp]:
  "px_now demoP2pEnv w = 0" "px_points demoP2pEnv e ip w = None" "px_consume demoP2pEnv e ip = ret ()"
  "px_delay demoP2pEnv t = ret ()" "px_connect demoP2pEnv p = ret ()" "px_common demoP2pEnv p ids = ret (demoReply ids)"
  by (simp_all add: demoP2pEnv_def)

lemma demo_throttle [simp]: "throttle demoP2pEnv ip url n s = (Inr (), s)"
  by (subst throttle.simps) (simp add: hasExceededRateLimitNoConsume_def outOfPoints_def whenever_def andThen_def)

lemma demo_asks: "\<exists>s'. hasCommonBlocks demoP2pEnv demoVerdicts r ids s = (Inr (rp_body (demoReply ids)), s')"
proof -
  have "rp_height (demoReply ids) = None" "vd_common demoVerdicts (demoReply ids)"
    by (simp_all add: demoReply_def demoVerdicts_def)
  then show ?thesis
    by (auto simp: hasCommonBlocks_def sendRequest_def attemptRequest_def connect_def forgetError_def peerAt_def
        nowOf_def onPeer_def inWorld_def within_def catching_def rl_consume_def whenever_def andThen_def Let_def)
qed

lemma demo_honest: "honestPeer demoP2pEnv demoVerdicts 0 1 demoName {''g''} 2 (\<lambda>_. True)"
  unfolding honestPeer_def demo_reply[symmetric] using demo_asks by simp

lemma demo_verified: "verifiedPeers demoP2pEnv demoP2p"
  by (simp add: verifiedPeers_def peers_ok_def repo_filed_def getPeers_def demoP2p_def demoPeer_def newPeer_def
      isVerified_def jm_values_def jm_get_def jm_inv_def jm_keys_def)

end
