(* ===== verification/Forging.thy ===== *)
theory Forging
  imports Blockchain BlockRoundTrip Downloads Collation
begin

text \<open>
  The forger (packages/core-forger/source): the validators of this node, the current round, whether
  forging is allowed, making a block from the pool and handing it to the blockchain service; and
  the tracker of packages/core-forger-tracker. A forger works on the node and on its network part,
  which share the chain. Log messages are left out, the events it dispatches are kept.
\<close>

section \<open>State\<close>

record forger_validator =
  fv_keys :: key_pair
  fv_address :: string

text \<open>What \<open>getCurrentRound\<close> returns; the index of a forger past the list gives no wallet.\<close>

record current_round =
  cr_canForge :: bool
  cr_current :: int
  cr_currentForger :: "wallet option"
  cr_lastBlock :: blockdata
  cr_nextForger :: "wallet option"
  cr_reward :: "int option"
  cr_timestamp :: int
  cr_validators :: "wallet list"

datatype forger_event =
    ForgerStarted "string list"
  | ForgerFailed error
  | BlockForged blockdata
  | TransactionForged txdata

record ('w, 'x) forger =
  fg_validators :: "forger_validator list"
  fg_usernames :: "(string, string option) jsmap"
  fg_stopped :: bool
  fg_round :: "current_round option"
  fg_initialized :: bool
  fg_logReady :: bool
  fg_timers :: "int option list"
  fg_events :: "forger_event list"
  fg_node :: "'w chain_node"
  fg_net :: "'x p2p"

text \<open>
  Third-party key derivation, and which errors are those of an unreachable host: none of the code
  modelled here throws them. \<open>fe_notReady\<close> tells whether the message says that the node is not ready,
  \<open>fe_rejects\<close> with what error a listener of an event rejects, if one does.
\<close>

record ('h, 'w, 'x) forger_env =
  fe_chain :: "('h, 'w) chain_env"
  fe_net :: "'x p2p_env"
  fe_verdicts :: verdicts
  fe_blocks :: block_env
  fe_keys :: "string \<Rightarrow> error + key_pair"
  fe_address :: "string \<Rightarrow> error + string"
  fe_unreachable :: "error \<Rightarrow> bool"
  fe_notReady :: "error \<Rightarrow> bool"
  fe_rejects :: "forger_event \<Rightarrow> error option"

type_synonym ('w, 'x, 'a) fprog = "(('w, 'x) forger, error, 'a) prog"

abbreviation onNode :: "('w, 'a) bprog \<Rightarrow> ('w, 'x, 'a) fprog" where
  "onNode \<equiv> Prelude.within fg_node (\<lambda>p s. s\<lparr>fg_node := p\<rparr>)"

text \<open>The network part reads and changes the chain of the node.\<close>

definition onNet :: "('x, 'a) p2prog \<Rightarrow> ('w, 'x, 'a) fprog" where
  "onNet = Prelude.within (\<lambda>s. (fg_net s)\<lparr>pp_round := bn_round (fg_node s)\<rparr>)
     (\<lambda>p s. s\<lparr>fg_net := p, fg_node := (fg_node s)\<lparr>bn_round := pp_round p\<rparr>\<rparr>)"

text \<open>The dispatch of an event is awaited everywhere: it rejects when a listener rejects.\<close>

definition emit :: "('h, 'w, 'x) forger_env \<Rightarrow> forger_event \<Rightarrow> ('w, 'x, unit) fprog" where
  "emit F e = andThen (modify (\<lambda>s. s\<lparr>fg_events := fg_events s @ [e]\<rparr>)) (\<lambda>_.
     case fe_rejects F e of None \<Rightarrow> ret () | Some err \<Rightarrow> throw err)"

section \<open>validator.ts\<close>

definition configureValidator :: "('h, 'w, 'x) forger_env \<Rightarrow> string \<Rightarrow> error + forger_validator" where
  "configureValidator F mnemonic = (case fe_keys F mnemonic of Inl e \<Rightarrow> Inl e
     | Inr ks \<Rightarrow> (case fe_address F (kp_publicKey ks) of Inl e \<Rightarrow> Inl e
        | Inr a \<Rightarrow> Inr \<lparr>fv_keys = ks, fv_address = a\<rparr>))"

definition makeValidators :: "('h, 'w, 'x) forger_env \<Rightarrow> string list \<Rightarrow> error + forger_validator list" where
  "makeValidators F secrets = mapE (configureValidator F) secrets"

text \<open>The totals and the payload of the transactions; an identifier that is missing ends the loop.\<close>

fun forgeTotals :: "txdata list \<Rightarrow> int \<times> int \<times> byte list list \<Rightarrow> error + int \<times> int \<times> byte list list" where
  "forgeTotals [] p = Inr p"
| "forgeTotals (t # ts) (a, f, bufs) = (case tid t of None \<Rightarrow> Inl AssertionException
     | Some i \<Rightarrow> forgeTotals ts (a + amount t, f + fee t, bufs @ [fromHexString i]))"

record forge_options =
  fo_previousHeight :: "int option"
  fo_previousId :: "string option"
  fo_reward :: "int option"
  fo_timestamp :: int

text \<open>The header handed to the factory, before it is signed.\<close>

definition forgeHeader :: "tx_env \<Rightarrow> string \<Rightarrow> txdata list \<Rightarrow> int \<times> int \<times> byte list list \<Rightarrow> int \<Rightarrow> string \<Rightarrow> int \<Rightarrow> int \<Rightarrow> blockdata" where
  "forgeHeader V key ts p prevHeight prevId rw time = (case p of (a, f, bufs) \<Rightarrow>
     \<lparr>bid = None, timestamp = time, bversion = 1, height = prevHeight + 1, previousBlock = prevId,
      numberOfTransactions = int (length ts), totalAmount = a, totalFee = f, reward = rw,
      payloadLength = 32 * int (length ts), payloadHash = hexOf (te_sha256 V (concat bufs)),
      generatorPublicKey = key, blockSignature = None\<rparr>)"

definition validator_forge :: "block_env \<Rightarrow> forger_validator \<Rightarrow> txdata list \<Rightarrow> forge_options \<Rightarrow> error + block" where
  "validator_forge B v ts opts =
     (case forgeTotals ts (0, 0, []) of Inl e \<Rightarrow> Inl e
      | Inr p \<Rightarrow> (case (fo_previousHeight opts, fo_previousId opts, fo_reward opts) of
          (Some h, Some i, Some rw) \<Rightarrow>
            map_sum id fst (fst (block_make B (fv_keys v)
              (forgeHeader (be_tx B) (kp_publicKey (fv_keys v)) ts p h i rw (fo_timestamp opts), Some ts)))
        | _ \<Rightarrow> Inl JsTypeError))"

section \<open>utils.ts and actions/get-current-round.ts\<close>

text \<open>\<open>None\<close> is \<open>NaN\<close>: a milestone without a block time.\<close>

definition getRemainingSlotTime :: "('h, 'w) chain_env \<Rightarrow> current_round \<Rightarrow> ('w, int option) bprog" where
  "getRemainingSlotTime C r =
     andThen (reads (\<lambda>s. milestoneAt (theMilestones (bn_round s)) (height (cr_lastBlock r)))) (\<lambda>m.
     andThen (defined (CryptoError (InvalidMilestoneConfigurationError (height (cr_lastBlock r)))) m) (\<lambda>c.
     ret (map_option (\<lambda>t. cr_timestamp r * 1000 + t * 1000 - ce_nowMs C) (m_blockTime c))))"

definition getCurrentRound :: "('h, 'w) chain_env \<Rightarrow> ('w, current_round) bprog" where
  "getCurrentRound C =
     andThen node_getLastBlock (\<lambda>l.
     let h = height (bdata l) + 1 in
     andThen (onRound (roundOf h)) (\<lambda>i.
     andThen (reads (\<lambda>s. milestoneAt (theMilestones (bn_round s)) h)) (\<lambda>m.
     andThen (defined (CryptoError (InvalidMilestoneConfigurationError h)) m) (\<lambda>c.
     andThen (onRound (getActiveValidators (ce_round C) (Some i) None)) (\<lambda>ws.
     andThen (throwIf (list_ex (\<lambda>w. wvalidator w = None) ws) AssertionException) (\<lambda>_.
     andThen (reads (\<lambda>s. getTime (slotsOf C s) None)) (\<lambda>now.
     andThen (\<lambda>s. (calculateForgingInfo (slotsOf C s) now h, s)) (\<lambda>f.
     ret \<lparr>cr_canForge = fi_canForge f, cr_current = ri_round i, cr_currentForger = validatorAt ws (fi_currentForger f),
        cr_lastBlock = bdata l, cr_nextForger = validatorAt ws (fi_nextForger f), cr_reward = m_reward c,
        cr_timestamp = fi_blockTimestamp f, cr_validators = ws\<rparr>))))))))"

section \<open>actions/is-forging-allowed.ts\<close>

text \<open>Headers above our height are only reported.\<close>

definition forgingAllowed :: "network_state \<Rightarrow> bool" where
  "forgingAllowed n \<longleftrightarrow> ns_status n \<notin> {Unknown, ColdStart, BelowMinimumPeers} \<and> \<not> getQuorum n < 66 / 100"

text \<open>The reports, as the log has them: the double-forged blocks of this validator.\<close>

definition doubleForged :: "network_state \<Rightarrow> forger_validator \<Rightarrow> blockdata list" where
  "doubleForged n v = filter (\<lambda>d. generatorPublicKey d = kp_publicKey (fv_keys v))
     (catOptions (getOverHeightBlockHeaders n))"

section \<open>actions/forge-new-block.ts\<close>

definition getTransactionsForForging :: "('h, 'w) chain_env \<Rightarrow> ('w, txdata list) bprog" where
  "getTransactionsForForging C =
     andThen node_getLastBlock (\<lambda>l.
     andThen (reads (\<lambda>s. milestoneAt (theMilestones (bn_round s)) (height (bdata l)))) (\<lambda>m.
     andThen (defined (CryptoError (InvalidMilestoneConfigurationError (height (bdata l)))) m) (\<lambda>c.
     andThen (withPool C (\<lambda>E p. case getBlockCandidateTransactions E c p (pe_wallets E) of
        (Inl e, _) \<Rightarrow> (Inl e, p)
      | (Inr (cands, failed), _) \<Rightarrow>
          (case removeFailed E failed p of (_, p') \<Rightarrow> (Inr cands, p')))) (\<lambda>ts.
     ret (map data ts)))))"

definition forger_broadcastBlock :: "('h, 'w, 'x) forger_env \<Rightarrow> block \<Rightarrow> ('w, 'x, unit) fprog" where
  "forger_broadcastBlock F b =
     andThen (liftE (serializeWithTransactions (be_tx (fe_blocks F)) (bdata b, Some (map data (transactions b))))) (\<lambda>bytes.
     andThen (liftE (block_deserialize (be_tx (fe_blocks F)) bytes False)) (\<lambda>(d, datas, ts).
     onNode (handleIncomingBlock (fe_chain F) (d, datas) True)))"

definition forgeNewBlock :: "('h, 'w, 'x) forger_env \<Rightarrow> forger_validator \<Rightarrow> current_round \<Rightarrow> network_state \<Rightarrow>
    ('w, 'x, unit) fprog" where
  "forgeNewBlock F v r n =
     andThen (case ns_nodeHeight n of None \<Rightarrow> ret ()
       | Some h \<Rightarrow> onNode (onNodeStore (modify (\<lambda>st. st\<lparr>st_config := setHeight h (st_config st)\<rparr>)))) (\<lambda>_.
     andThen (onNode (getTransactionsForForging (fe_chain F))) (\<lambda>ts.
     andThen (liftE (validator_forge (fe_blocks F) v ts
        \<lparr>fo_previousHeight = ns_nodeHeight n, fo_previousId = ns_lastBlockId n, fo_reward = cr_reward r,
         fo_timestamp = cr_timestamp r\<rparr>)) (\<lambda>b.
     andThen (onNode (getRemainingSlotTime (fe_chain F) r)) (\<lambda>left.
     whenever (left \<noteq> None \<and> the left \<ge> 2000)
       (andThen (forger_broadcastBlock F b) (\<lambda>_.
        andThen (emit F (BlockForged (bdata b))) (\<lambda>_.
        forEach (\<lambda>t. emit F (TransactionForged t)) ts)))))))"

section \<open>forger-service.ts\<close>

definition checkLater :: "int option \<Rightarrow> ('w, 'x, unit) fprog" where
  "checkLater t = modify (\<lambda>s. s\<lparr>fg_timers := fg_timers s @ [t]\<rparr>)"

definition isActiveValidator :: "string \<Rightarrow> ('w, 'x) forger \<Rightarrow> forger_validator option" where
  "isActiveValidator k s = find (\<lambda>v. kp_publicKey (fv_keys v) = k) (fg_validators s)"

definition usernamesOf :: "wallet list \<Rightarrow> error + (string, string option) jsmap" where
  "usernamesOf ws = (case mapE (\<lambda>w. case wpublicKey w of None \<Rightarrow> Inl AssertionException
       | Some k \<Rightarrow> Inr (k, validatorAttr va_username w)) ws of
     Inl e \<Rightarrow> Inl e | Inr kus \<Rightarrow> Inr (fold (\<lambda>(k, u). jm_set k u) kus []))"

definition loadRound :: "('h, 'w, 'x) forger_env \<Rightarrow> ('w, 'x, current_round) fprog" where
  "loadRound F =
     andThen (onNode (getCurrentRound (fe_chain F))) (\<lambda>r.
     andThen (modify (\<lambda>s. s\<lparr>fg_round := Some r\<rparr>)) (\<lambda>_.
     andThen (liftE (usernamesOf (cr_validators r))) (\<lambda>us.
     andThen (modify (\<lambda>s. s\<lparr>fg_usernames := us\<rparr>)) (\<lambda>_.
     andThen (reads fg_initialized) (\<lambda>init.
     andThen (whenever (\<not> init) (andThen (reads fg_validators) (\<lambda>vs.
        emit F (ForgerStarted (map (\<lambda>v. kp_publicKey (fv_keys v)) vs))))) (\<lambda>_.
     andThen (modify (\<lambda>s. s\<lparr>fg_initialized := True\<rparr>)) (\<lambda>_.
     ret r)))))))"

text \<open>\<open>boot\<close> waits until the end of the slot, or two seconds when the round cannot be loaded.\<close>

definition forger_boot :: "('h, 'w, 'x) forger_env \<Rightarrow> forger_validator list \<Rightarrow> ('w, 'x, unit) fprog" where
  "forger_boot F vs =
     andThen (modify (\<lambda>s. s\<lparr>fg_validators := vs\<rparr>)) (\<lambda>_.
     andThen (catching
       (andThen (loadRound F) (\<lambda>r.
        andThen (onNode (getRemainingSlotTime (fe_chain F) r)) (\<lambda>t. ret (map_option (max 0) t))))
       (\<lambda>_. ret (Some 2000))) checkLater)"

definition forger_dispose :: "('w, 'x, unit) fprog" where
  "forger_dispose = modify (\<lambda>s. s\<lparr>fg_stopped := True\<rparr>)"

text \<open>The slot of another validator: wake the node up when ours is next.\<close>

definition waitForSlot :: "('h, 'w, 'x) forger_env \<Rightarrow> current_round \<Rightarrow> ('w, 'x, unit) fprog" where
  "waitForSlot F r =
     andThen (defined JsTypeError (cr_nextForger r)) (\<lambda>w.
     andThen (defined AssertionException (wpublicKey w)) (\<lambda>k.
     andThen (reads (isActiveValidator k)) (\<lambda>v.
     whenever (v \<noteq> None) (onNode forceWakeup))))"

text \<open>The slot of one of ours.\<close>

definition useSlot :: "('h, 'w, 'x) forger_env \<Rightarrow> current_round \<Rightarrow> forger_validator \<Rightarrow> ('w, 'x, unit) fprog" where
  "useSlot F r v =
     andThen (onNet (getNetworkState (fe_net F) (fe_verdicts F))) (\<lambda>n.
     andThen (whenever (forgingAllowed n) (forgeNewBlock F v r n)) (\<lambda>_.
     modify (\<lambda>s. s\<lparr>fg_logReady := True\<rparr>)))"

definition tryCheckSlot :: "('h, 'w, 'x) forger_env \<Rightarrow> ('w, 'x, unit) fprog" where
  "tryCheckSlot F =
     andThen (reads fg_stopped) (\<lambda>stopped.
     whenever (\<not> stopped)
       (andThen (loadRound F) (\<lambda>r.
        if \<not> cr_canForge r then checkLater (Some 200)
        else andThen (defined JsTypeError (cr_currentForger r)) (\<lambda>w.
          andThen (defined AssertionException (wpublicKey w)) (\<lambda>k.
          andThen (reads (isActiveValidator k)) (\<lambda>v.
          andThen (case v of None \<Rightarrow> waitForSlot F r | Some x \<Rightarrow> useSlot F r x) (\<lambda>_.
          andThen (onNode (getRemainingSlotTime (fe_chain F) r)) checkLater)))))))"

definition slotFailed :: "('h, 'w, 'x) forger_env \<Rightarrow> error \<Rightarrow> ('w, 'x, unit) fprog" where
  "slotFailed F e =
     andThen (if fe_unreachable F e
       then whenever (fe_notReady F e) (modify (\<lambda>s. s\<lparr>fg_logReady := False\<rparr>))
       else emit F (ForgerFailed e)) (\<lambda>_.
     checkLater (Some 2000))"

definition checkSlot :: "('h, 'w, 'x) forger_env \<Rightarrow> ('w, 'x, unit) fprog" where
  "checkSlot F = catching (tryCheckSlot F) (slotFailed F)"

text \<open>A timer fires: the oldest of those set.\<close>

definition timerFires :: "('h, 'w, 'x) forger_env \<Rightarrow> ('w, 'x, unit) fprog" where
  "timerFires F =
     andThen (reads fg_timers) (\<lambda>ts.
     whenever (ts \<noteq> []) (andThen (modify (\<lambda>s. s\<lparr>fg_timers := tl ts\<rparr>)) (\<lambda>_. checkSlot F)))"

section \<open>The forged block\<close>

lemma forgeTotals_run:
  "forgeTotals ts (a, f, bufs) =
    (if list_all (\<lambda>t. tid t \<noteq> None) ts
     then Inr (a + sum_list (map amount ts), f + sum_list (map fee ts), bufs @ map (\<lambda>t. fromHexString (the (tid t))) ts)
     else Inl AssertionException)"
  by (induction ts arbitrary: a f bufs) (auto simp: add.assoc split: option.splits)

text \<open>The bytes that are signed: the header without a signature.\<close>

definition unsignedHeader :: "blockdata \<Rightarrow> byte list" where
  "unsignedHeader d = leBytes 4 (bversion d) @ leBytes 4 (timestamp d) @ leBytes 4 (height d) @
     fromHexString (previousBlock d) @ leBytes 4 (numberOfTransactions d) @ leBytes 8 (totalAmount d) @
     leBytes 8 (totalFee d) @ leBytes 8 (reward d) @ leBytes 4 (payloadLength d) @
     fromHexString (payloadHash d) @ fromHexString (generatorPublicKey d)"

lemma encHeader_signed: "encHeader (d\<lparr>blockSignature := Some sig\<rparr>) = unsignedHeader d @ fromHexString sig"
  by (simp add: encHeader_def unsignedHeader_def)

lemma unsigned_serialize:
  assumes "header_ok V (d\<lparr>blockSignature := Some sig\<rparr>)" and "blockSignature d = None"
    and "length (unsignedHeader d) \<le> bufferSize"
  shows "block_serialize V False (d, ts) = Inr (padded (unsignedHeader d))"
proof -
  let ?f = "(field ''blockSignature'' SignatureField)\<lparr>fs_required := Some False\<rparr>"
  let ?obj = "blockObject (d, ts)"
  have ok: "uint_ok 4 (bversion d)" "uint_ok 4 (timestamp d)" "uint_ok 4 (height d)" "isHex 32 (previousBlock d)"
      "uint_ok 4 (numberOfTransactions d)" "uint_ok 8 (totalAmount d)" "uint_ok 8 (totalFee d)" "uint_ok 8 (reward d)"
      "uint_ok 4 (payloadLength d)" "isHex 32 (payloadHash d)" "isHex (te_publicKeySize V) (generatorPublicKey d)"
    using assms(1) by (simp_all add: header_ok_def)
  have none: "writeField V ?obj ?f = ret ?obj" using assms(2) by (simp add: writeField_def blockObject_props)
  have sig: "writes (writeField V ?obj ?f) [] ?obj" unfolding none by (rule writes_ret)
  have sigs: "writes (writeFields V [?f] ?obj) [] ?obj"
    using writeFields_Cons[OF sig writeFields_Nil] by (simp only: append_Nil)
  have "writes (writeFields V (headerFields @ [?f]) ?obj) (unsignedHeader d @ []) ?obj"
    unfolding headerFields_def append_Cons append_Nil unsignedHeader_def append_assoc
    by (intro writeFields_Cons[OF write_number] writeFields_Cons[OF write_big] writeFields_Cons[OF write_hash]
        writeFields_Cons[OF write_key] sigs blockObject_props) (simp_all add: ok)
  then show ?thesis
    using serializeObject_run[of V _ ?obj "unsignedHeader d" ?obj bufferSize] assms(3)
    by (simp add: block_serialize_def padded_def)
qed

text \<open>The signed header of a forged block, with the signature the key gives.\<close>

definition signedHeader :: "blockdata \<Rightarrow> string \<Rightarrow> blockdata" where
  "signedHeader d sig = d\<lparr>blockSignature := Some sig\<rparr>"

definition signatureOf :: "tx_env \<Rightarrow> key_pair \<Rightarrow> blockdata \<Rightarrow> error + string" where
  "signatureOf V ks d = te_sign V (te_sha256 V (padded (unsignedHeader d))) (fromHexString (kp_privateKey ks))"

lemma block_ok_bid [simp]: "block_ok V (d\<lparr>bid := i\<rparr>) ts = block_ok V d ts"
  by (simp add: block_ok_def)

lemma block_make_run:
  assumes "signatureOf (be_tx B) ks d = Inr sig" and "block_ok (be_tx B) (signedHeader d sig) ts"
    and "blockSignature d = None" and "generatorPublicKey d = kp_publicKey ks"
    and "applySchema B ((signedHeader d sig)\<lparr>bid := Some (blockIdOf (be_tx B) (signedHeader d sig))\<rparr>, Some ts) = Inr x"
  shows "map_sum id fst (fst (block_make B ks (d, Some ts))) =
    Inr \<lparr>bdata = (signedHeader d sig)\<lparr>bid := Some (blockIdOf (be_tx B) (signedHeader d sig))\<rparr>,
         transactions = map (rebuilt (be_tx B)) ts\<rparr>"
proof -
  let ?V = "be_tx B" and ?d = "signedHeader d sig"
  let ?e = "?d\<lparr>bid := Some (blockIdOf ?V ?d)\<rparr>"
  have hdr: "header_ok ?V ?d" "length (encHeader ?d) \<le> bufferSize" using assms(2) by (simp_all add: block_ok_def)
  have "length (unsignedHeader d) \<le> bufferSize" using hdr(2) by (simp add: signedHeader_def encHeader_signed)
  then have ser: "block_serialize ?V False (d, Some ts) = Inr (padded (unsignedHeader d))"
    using hdr(1) assms(3) unfolding signedHeader_def by (intro unsigned_serialize)
  have gen: "d\<lparr>generatorPublicKey := kp_publicKey ks\<rparr> = d" using assms(4) by (cases d) simp
  have i: "block_id ?V (?d, Some ts) = Inr (blockIdOf ?V ?d)" using hdr by (rule block_id_run)
  have whole: "serializeWithTransactions ?V (?e, Some ts) = Inr (padded (encHeader ?d @ encTxs ?V ts))"
    using serializeWithTransactions_run[of ?V ?e ts] assms(2) by simp
  have "block_deserialize ?V (padded (encHeader ?d @ encTxs ?V ts)) False =
      Inr (?e, Some (map data (map (rebuilt ?V) ts)), map (rebuilt ?V) ts)"
    using block_deserialize_run[OF assms(2)] by simp
  then have data: "block_fromData B (?e, Some ts) = Inr (sealBlock ?e (map (rebuilt ?V) ts) (padded (encHeader ?d @ encTxs ?V ts)))"
    using whole assms(5) by (simp add: block_fromData_def)
  show ?thesis
    using ser gen assms(1) i data
    by (simp add: block_make_def andThen_def liftE_def signatureOf_def sealBlock_def modify_def reads_def
        signedHeader_def[symmetric])
qed

text \<open>What a forger needs: known identifiers, formats that fit, a signature, and a schema that agrees.\<close>

definition forgeable :: "block_env \<Rightarrow> forger_validator \<Rightarrow> txdata list \<Rightarrow> int \<Rightarrow> string \<Rightarrow> int \<Rightarrow> int \<Rightarrow> string \<Rightarrow> bool" where
  "forgeable B v ts h i rw time sig \<longleftrightarrow>
     (let V = be_tx B;
          d = forgeHeader V (kp_publicKey (fv_keys v)) ts (sum_list (map amount ts), sum_list (map fee ts),
                map (\<lambda>t. fromHexString (the (tid t))) ts) h i rw time;
          e = signedHeader d sig in
      list_all (\<lambda>t. tid t \<noteq> None \<and> data (rebuilt V t) = t) ts \<and> signatureOf V (fv_keys v) d = Inr sig \<and>
      block_ok V e ts \<and> applySchema B (e\<lparr>bid := Some (blockIdOf V e)\<rparr>, Some ts) = Inr None)"

text \<open>Hashes and hexadecimal strings mean the same to the verifier and to the forger.\<close>

definition sameHashes :: "verifier_env \<Rightarrow> tx_env \<Rightarrow> bool" where
  "sameHashes W V \<longleftrightarrow> ve_fromHex W = fromHexString \<and> ve_sha256Hex W = (\<lambda>bufs. hexOf (te_sha256 V (concat bufs)))"

lemma validator_forge_run:
  assumes "forgeable B v ts h i rw time sig"
  obtains b where "validator_forge B v ts \<lparr>fo_previousHeight = Some h, fo_previousId = Some i, fo_reward = Some rw,
      fo_timestamp = time\<rparr> = Inr b"
    and "map data (transactions b) = ts" and "height (bdata b) = h + 1" and "previousBlock (bdata b) = i"
    and "reward (bdata b) = rw" and "timestamp (bdata b) = time" and "bversion (bdata b) = 1"
    and "numberOfTransactions (bdata b) = int (length ts)"
    and "totalAmount (bdata b) = sum_list (map amount ts)" and "totalFee (bdata b) = sum_list (map fee ts)"
    and "payloadHash (bdata b) = hexOf (te_sha256 (be_tx B) (concat (map (\<lambda>t. fromHexString (the (tid t))) ts)))"
    and "generatorPublicKey (bdata b) = kp_publicKey (fv_keys v)"
proof -
  let ?V = "be_tx B"
  let ?p = "(sum_list (map amount ts), sum_list (map fee ts), map (\<lambda>t. fromHexString (the (tid t))) ts)"
  define d where "d = forgeHeader ?V (kp_publicKey (fv_keys v)) ts ?p h i rw time"
  define e where "e = (signedHeader d sig)\<lparr>bid := Some (blockIdOf ?V (signedHeader d sig))\<rparr>"
  have ok: "list_all (\<lambda>t. tid t \<noteq> None \<and> data (rebuilt ?V t) = t) ts" "signatureOf ?V (fv_keys v) d = Inr sig"
      "block_ok ?V (signedHeader d sig) ts" "applySchema B (e, Some ts) = Inr None"
    using assms by (simp_all add: forgeable_def d_def e_def Let_def)
  have "forgeTotals ts (0, 0, []) = Inr ?p" using ok(1) by (auto simp: forgeTotals_run list_all_iff)
  moreover have "map_sum id fst (fst (block_make B (fv_keys v) (d, Some ts))) =
      Inr \<lparr>bdata = e, transactions = map (rebuilt ?V) ts\<rparr>"
    unfolding e_def
    by (rule block_make_run[OF ok(2,3)]) (use ok(4) in \<open>simp_all add: e_def, simp_all add: d_def forgeHeader_def\<close>)
  ultimately have run: "validator_forge B v ts \<lparr>fo_previousHeight = Some h, fo_previousId = Some i, fo_reward = Some rw,
      fo_timestamp = time\<rparr> = Inr \<lparr>bdata = e, transactions = map (rebuilt ?V) ts\<rparr>"
    by (simp add: validator_forge_def d_def)
  have same: "map data (map (rebuilt ?V) ts) = ts" using ok(1) by (induction ts) simp_all
  show ?thesis
    by (rule that[OF run]) (use same in \<open>simp_all add: e_def d_def signedHeader_def forgeHeader_def\<close>)
qed

text \<open>The verifier asks for what the milestone fixes and for good transactions; all sums are right.\<close>

definition milestoneAllows :: "verifier_env \<Rightarrow> block \<Rightarrow> bool" where
  "milestoneAllows W b \<longleftrightarrow> (let d = bdata b in
     (case milestoneAt (ve_milestones W) (height d) of None \<Rightarrow> False
      | Some c \<Rightarrow> m_reward c = Some (reward d) \<and> m_blockVersion c = Some 1 \<and>
          (\<forall>bt. m_blockTime c = Some bt \<longrightarrow> timestamp d \<le> ve_now W + bt) \<and>
          (\<forall>n. m_maxPayload c = Some n \<longrightarrow> ve_size W b \<le> n) \<and>
          (\<forall>n. m_maxTransactions c = Some n \<and> 1 < height d \<longrightarrow> int (length (transactions b)) \<le> n)))"

lemma forged_valid:
  assumes "forgeable B v ts h i rw time sig" and "sameHashes W (be_tx B)" and "i \<noteq> ''''"
  shows "\<exists>b. validator_forge B v ts \<lparr>fo_previousHeight = Some h, fo_previousId = Some i, fo_reward = Some rw,
      fo_timestamp = time\<rparr> = Inr b \<and> map data (transactions b) = ts \<and>
    (validBlock W b \<longleftrightarrow> milestoneAllows W b \<and> goodTransactions W (h + 1) (transactions b))"
proof -
  obtain b where b: "validator_forge B v ts \<lparr>fo_previousHeight = Some h, fo_previousId = Some i, fo_reward = Some rw,
      fo_timestamp = time\<rparr> = Inr b" "map data (transactions b) = ts" "height (bdata b) = h + 1"
      "previousBlock (bdata b) = i" "bversion (bdata b) = 1"
      "numberOfTransactions (bdata b) = int (length ts)"
      "totalAmount (bdata b) = sum_list (map amount ts)" "totalFee (bdata b) = sum_list (map fee ts)"
      "payloadHash (bdata b) = hexOf (te_sha256 (be_tx B) (concat (map (\<lambda>t. fromHexString (the (tid t))) ts)))"
    using validator_forge_run[OF assms(1)] by metis
  have n: "length ts = length (transactions b)" using b(2) by (metis length_map)
  have sums: "sum_list (map amount ts) = sum_list (map (\<lambda>t. amount (data t)) (transactions b))"
      "sum_list (map fee ts) = sum_list (map txFee (transactions b))"
      "map (\<lambda>t. fromHexString (the (tid t))) ts = map (\<lambda>t. fromHexString (the (txId t))) (transactions b)"
    unfolding b(2)[symmetric] by (simp_all add: comp_def)
  have "validBlock W b \<longleftrightarrow> milestoneAllows W b \<and> goodTransactions W (h + 1) (transactions b)"
    using assms(2,3) b(3-9)
    by (cases "milestoneAt (ve_milestones W) (h + 1)")
      (auto simp: validBlock_def milestoneAllows_def sameHashes_def Let_def n sums)
  then show ?thesis using b(1,2) by blast
qed

section \<open>The forger keeps checking\<close>

text \<open>What leaves the timers and the stop flag alone; and what sets one timer, unless it throws.\<close>

abbreviation waiting :: "int option list \<Rightarrow> ('w, 'x) forger \<Rightarrow> bool" where
  "waiting T s \<equiv> fg_timers s = T \<and> \<not> fg_stopped s"

definition rearms :: "int option list \<Rightarrow> ('w, 'x, unit) fprog \<Rightarrow> bool" where
  "rearms T m \<longleftrightarrow> triple (waiting T) m (\<lambda>_ s. \<exists>t. waiting (T @ [t]) s) (\<lambda>_. waiting T)"

lemma rearms_checkLater: "rearms T (checkLater t)"
  unfolding rearms_def checkLater_def by (rule triple_modify) auto

lemma rearms_andThen: "keeps (waiting T) m \<Longrightarrow> (\<And>x. rearms T (f x)) \<Longrightarrow> rearms T (andThen m f)"
  unfolding rearms_def keeps_triple by (rule triple_andThen)

lemma waiting_onNode [keeps_intros]: "keeps (waiting T) (onNode m)"
  by (rule keeps_within[where Q = "\<lambda>_. True"]) (simp_all add: keeps_def)

lemma waiting_onNet [keeps_intros]: "keeps (waiting T) (onNet m)"
  unfolding onNet_def by (rule keeps_within[where Q = "\<lambda>_. True"]) (simp_all add: keeps_def)

lemma waiting_emit [keeps_intros]: "keeps (waiting T) (emit F e)"
  unfolding emit_def by (intro keeps_intros) (auto intro!: keeps_intros split: option.splits)

lemma waiting_loadRound [keeps_intros]: "keeps (waiting T) (loadRound F)"
  unfolding loadRound_def by (auto intro!: keeps_intros)

lemma waiting_forgeNewBlock [keeps_intros]: "keeps (waiting T) (forgeNewBlock F v r n)"
  unfolding forgeNewBlock_def forger_broadcastBlock_def
  by (auto intro!: keeps_intros split: option.splits)

lemma waiting_slot [keeps_intros]: "keeps (waiting T) (waitForSlot F r)" "keeps (waiting T) (useSlot F r v)"
  unfolding waitForSlot_def useSlot_def by (auto intro!: keeps_intros)

lemma tryCheckSlot_rearms: "triple (waiting T) (tryCheckSlot F) (\<lambda>_ s. \<exists>t. waiting (T @ [t]) s) (\<lambda>_. waiting T)"
proof -
  have body: "rearms T (andThen (loadRound F) (\<lambda>r.
        if \<not> cr_canForge r then checkLater (Some 200)
        else andThen (defined JsTypeError (cr_currentForger r)) (\<lambda>w.
          andThen (defined AssertionException (wpublicKey w)) (\<lambda>k.
          andThen (reads (isActiveValidator k)) (\<lambda>v.
          andThen (case v of None \<Rightarrow> waitForSlot F r | Some x \<Rightarrow> useSlot F r x) (\<lambda>_.
          andThen (onNode (getRemainingSlotTime (fe_chain F) r)) checkLater))))))"
    by (intro rearms_andThen keeps_intros) (auto intro!: rearms_andThen rearms_checkLater keeps_intros split: option.splits)
  have "triple (\<lambda>s. waiting T s \<and> \<not> st) (whenever (\<not> st) m) (\<lambda>_ s. \<exists>t. waiting (T @ [t]) s) (\<lambda>_. waiting T)"
    if "rearms T m" for st and m :: "('a, 'b, unit) fprog"
    using that by (cases st) (auto simp: rearms_def triple_def whenever_def split: prod.splits sum.splits)
  with body show ?thesis
    unfolding tryCheckSlot_def
    by (intro triple_andThen[where R = "\<lambda>st s. waiting T s \<and> \<not> st"] triple_reads) auto
qed

text \<open>A check that returns has set a timer; it throws only what a listener of the failure rejects with.\<close>

lemma checkSlot_rearms:
  assumes "\<not> fg_stopped s"
  shows "case checkSlot F s of
      (Inr u, s') \<Rightarrow> (\<exists>t. fg_timers s' = fg_timers s @ [t]) \<and> \<not> fg_stopped s'
    | (Inl err, s') \<Rightarrow> fg_timers s' = fg_timers s \<and> \<not> fg_stopped s' \<and> (\<exists>e. fst (tryCheckSlot F s) = Inl e \<and>
        \<not> fe_unreachable F e \<and> fe_rejects F (ForgerFailed e) = Some err)"
proof (cases "tryCheckSlot F s")
  case (Pair r s1)
  note run = Pair
  show ?thesis
  proof (cases r)
    case (Inl e)
    then have w: "waiting (fg_timers s) s1" using triple_InlD[OF tryCheckSlot_rearms] assms run by blast
    have "checkSlot F s = slotFailed F e s1" using run Inl by (simp add: checkSlot_def catching_def)
    then show ?thesis
      using w run Inl by (cases "fe_unreachable F e"; cases "fe_notReady F e"; cases "fe_rejects F (ForgerFailed e)")
        (simp_all add: slotFailed_def emit_def checkLater_def whenever_def andThen_def)
  next
    case (Inr u)
    then show ?thesis
      using triple_InrD[where s = s and s' = s1, OF tryCheckSlot_rearms[of "fg_timers s"]] assms run
      by (auto simp: checkSlot_def catching_def)
  qed
qed

lemma checkSlot_stopped: "fg_stopped s \<Longrightarrow> checkSlot F s = (Inr (), s)"
  by (simp add: checkSlot_def tryCheckSlot_def catching_def andThen_def whenever_def)

text \<open>A forger that is not disposed has one timer after \<open>boot\<close>, and again after each that fires.\<close>

primrec firing :: "('h, 'w, 'x) forger_env \<Rightarrow> nat \<Rightarrow> ('w, 'x) forger \<Rightarrow> ('w, 'x) forger" where
  "firing F 0 s = s"
| "firing F (Suc n) s = snd (timerFires F (firing F n s))"

lemma catching_ret:
  assumes "keeps P m" and "P s"
  obtains t s' where "catching m (\<lambda>_. ret c) s = (Inr t, s')" and "P s'"
proof (cases "m s")
  case (Pair r s1)
  then have "P s1" using assms by (auto simp: keeps_def)
  then show ?thesis using Pair that by (cases r) (simp_all add: catching_def)
qed

lemma boot_waits:
  assumes "waiting [] s"
  shows "\<exists>t s'. forger_boot F vs s = (Inr (), s') \<and> waiting [t] s'"
proof -
  let ?m = "andThen (loadRound F) (\<lambda>r. andThen (onNode (getRemainingSlotTime (fe_chain F) r))
    (\<lambda>t. ret (map_option (max 0) t)))"
  have k: "keeps (waiting []) ?m" by (auto intro!: keeps_intros)
  obtain t s1 where "catching ?m (\<lambda>_. ret (Some 2000)) (s\<lparr>fg_validators := vs\<rparr>) = (Inr t :: error + _, s1)" "waiting [] s1"
    by (rule catching_ret[where s = "s\<lparr>fg_validators := vs\<rparr>", OF k]) (use assms in auto)
  then have "forger_boot F vs s = checkLater t s1"
    unfolding forger_boot_def by (simp add: andThen_def[of "modify _"] andThen_def[of "catching _ _"])
  then show ?thesis using \<open>waiting [] s1\<close> by (intro exI[of _ t]) (simp add: checkLater_def)
qed

lemma timerFires_waits:
  assumes "waiting [t] s"
  shows "case timerFires F s of
      (Inr u, s') \<Rightarrow> \<exists>t'. waiting [t'] s'
    | (Inl err, s') \<Rightarrow> waiting [] s' \<and> (\<exists>e. fst (tryCheckSlot F (s\<lparr>fg_timers := []\<rparr>)) = Inl e \<and>
        \<not> fe_unreachable F e \<and> fe_rejects F (ForgerFailed e) = Some err)"
proof -
  have "timerFires F s = checkSlot F (s\<lparr>fg_timers := []\<rparr>)"
    using assms by (simp add: timerFires_def andThen_def whenever_def)
  then show ?thesis using checkSlot_rearms[of "s\<lparr>fg_timers := []\<rparr>" F] assms by (auto split: prod.splits sum.splits)
qed

lemma firing_waits:
  assumes "\<exists>t. waiting [t] s" and "\<forall>k < n. fst (timerFires F (firing F k s)) = Inr ()"
  shows "\<exists>t. waiting [t] (firing F n s)"
  using assms(2)
proof (induction n)
  case (Suc n)
  then obtain t where t: "waiting [t] (firing F n s)" by auto
  have "fst (timerFires F (firing F n s)) = Inr ()" using Suc.prems by simp
  then show ?case using timerFires_waits[OF t, of F] by (cases "timerFires F (firing F n s)") auto
qed (use assms(1) in simp)

text \<open>Nothing is forged on a network that does not allow it.\<close>

lemma forgingAllowed_quorum:
  "forgingAllowed n \<longleftrightarrow> ns_status n = Test \<or> ns_status n = Default \<and> 66 / 100 \<le> detailsQuorum (ns_details n)"
  by (cases "ns_status n") (auto simp: forgingAllowed_def getQuorum_def)

end
