(* ===== verification/ForgerTracker.thy ===== *)
theory ForgerTracker
  imports Forging
begin

text \<open>
  The tracker of packages/core-forger-tracker/source/tracker.ts: after each block it reports who
  forges next and when the validators of this node do. The report is a value here; the code logs it.
\<close>

datatype forecast = ForgesNext | ForgesIn int | HasForged

record tracker_report =
  tr_next :: "string list"
  tr_own :: "(string \<times> forecast) list"
  tr_secondsLeft :: "int option"

text \<open>A key past the end of the list, or at no number, is undefined and left out.\<close>

definition keyAt :: "string option list \<Rightarrow> int \<Rightarrow> string option" where
  "keyAt ks i = (if 0 \<le> i \<and> i < int (length ks) then ks ! nat i else None)"

definition nextForgers :: "string option list \<Rightarrow> int option \<Rightarrow> int option \<Rightarrow> string list" where
  "nextForgers ks current maxValidators = (case (current, maxValidators) of
     (Some c, Some m) \<Rightarrow> if m = 0 then [] else filter (\<lambda>k. k \<noteq> '''') (catOptions (map (\<lambda>i. keyAt ks (jsMod (c + i) m)) [0..m]))
   | _ \<Rightarrow> [])"

text \<open>A validator that is not among them has index 0, like the one that forges now.\<close>

definition forecastOf :: "string list \<Rightarrow> int option \<Rightarrow> int option \<Rightarrow> int \<Rightarrow> string \<Rightarrow> forecast" where
  "forecastOf nexts nextForger maxValidators blockTime key =
     (let i = (case indexIn key nexts of None \<Rightarrow> 0 | Some n \<Rightarrow> int n) in
      if i = 0 then ForgesNext
      else case (maxValidators, nextForger) of
        (Some m, Some n) \<Rightarrow> if i \<le> m - n then ForgesIn (i * blockTime * 1000) else HasForged
      | _ \<Rightarrow> HasForged)"

definition getUsername :: "('h, 'w) chain_env \<Rightarrow> string \<Rightarrow> ('w, string) bprog" where
  "getUsername C key =
     andThen (onRound (inWallets (byKey (re_env (ce_round C)) key))) (\<lambda>q.
     andThen (onRound (inWallets (wal q))) (\<lambda>w.
     defined AssertionException (validatorAttr va_username w)))"

definition ownForecast :: "('h, 'w) chain_env \<Rightarrow> string list \<Rightarrow> int option \<Rightarrow> int option \<Rightarrow> int \<Rightarrow> forger_validator \<Rightarrow>
    ('w, string \<times> forecast) bprog" where
  "ownForecast C nexts nextForger maxValidators blockTime v =
     (let key = kp_publicKey (fv_keys v) in
      andThen (getUsername C key) (\<lambda>name.
      ret (name, forecastOf nexts nextForger maxValidators blockTime key)))"

text \<open>\<open>handle\<close>: no report when the round has fewer validators than it should have.\<close>

definition tracker_handle :: "('h, 'w) chain_env \<Rightarrow> forger_validator list \<Rightarrow> ('w, tracker_report option) bprog" where
  "tracker_handle C own =
     andThen node_getLastBlock (\<lambda>l.
     let h = height (bdata l) in
     andThen (reads (\<lambda>s. milestoneAt (theMilestones (bn_round s)) h)) (\<lambda>ms.
     andThen (defined (CryptoError (InvalidMilestoneConfigurationError h)) ms) (\<lambda>c.
     andThen (\<lambda>s. (calculateBlockTime (theMilestones (bn_round s)) h, s)) (\<lambda>blockTime.
     andThen (onRound (roundOf h)) (\<lambda>i.
     andThen (onRound (getActiveValidators (ce_round C) (Some i) None)) (\<lambda>ws.
     andThen (\<lambda>s. (calculateForgingInfo (slotsOf C s) (timestamp (bdata l)) h, s)) (\<lambda>f.
     let m = m_activeValidators c;
         nexts = nextForgers (map wpublicKey ws) (fi_currentForger f) m in
     if m \<noteq> None \<and> int (length ws) < the m then ret None
     else
       andThen (mapProg (getUsername C) (take 5 nexts)) (\<lambda>names.
       andThen (mapProg (ownForecast C nexts (fi_nextForger f) m blockTime) own) (\<lambda>forecasts.
       ret (Some \<lparr>tr_next = names, tr_own = forecasts,
          tr_secondsLeft = (case (m, fi_currentForger f) of
             (Some n, Some cur) \<Rightarrow> Some ((n - cur - 1) * blockTime) | _ \<Rightarrow> None)\<rparr>))))))))))"

text \<open>A validator that does not forge in this round is reported to forge next.\<close>

lemma absent_forges_next: "key \<notin> set nexts \<Longrightarrow> forecastOf nexts n m t key = ForgesNext"
  by (simp add: forecastOf_def indexIn_None[symmetric])

text \<open>
  With a full round the tracker lists the round's validators from the current forger on, and the
  current one once more at the end.
\<close>

lemma keyAt_in: "0 \<le> i \<Longrightarrow> i < int (length ks) \<Longrightarrow> keyAt (map Some ks) i = Some (ks ! nat i)"
  by (simp add: keyAt_def)

lemma catOptions_Somes: "catOptions (map (\<lambda>x. Some (f x)) xs) = map f xs"
  by (induction xs) simp_all

lemma nextForgers_full:
  assumes "int (length ks) = m" and "0 \<le> c" and "c < m" and "'''' \<notin> set ks"
  shows "nextForgers (map Some ks) (Some c) (Some m) = map (\<lambda>i. ks ! nat ((c + i) mod m)) [0..m]"
proof -
  have m: "0 < m" using assms by simp
  have idx: "jsMod (c + i) m = (c + i) mod m" if "i \<in> {0..m}" for i
    using that assms(2) m by (cases "c + i = 0") (auto simp: jsMod_def sgn_if)
  have bound: "0 \<le> (c + i) mod m \<and> (c + i) mod m < int (length ks)" for i using m assms(1) by simp
  have key: "keyAt (map Some ks) (jsMod (c + i) m) = Some (ks ! nat ((c + i) mod m))" if "i \<in> {0..m}" for i
    using idx[OF that] bound[of i] keyAt_in[of "(c + i) mod m" ks] by (simp only:)
  have eq: "map (\<lambda>i. keyAt (map Some ks) (jsMod (c + i) m)) [0..m] = map (\<lambda>i. Some (ks ! nat ((c + i) mod m))) [0..m]"
    by (rule map_cong) (use key in \<open>simp_all del: of_nat_mod\<close>)
  have nonempty: "ks ! nat ((c + i) mod m) \<noteq> ''''" for i
    using bound[of i] assms(4) by (metis nat_less_iff nth_mem)
  then show ?thesis using m by (simp add: nextForgers_def eq catOptions_Somes del: map_eq_conv)
qed

end
