(* ===== verification/Builders.thy ===== *)
theory Builders
  imports TxFactory
begin

text \<open>
  The builders of transactions: packages/core-crypto-transaction/source/builders.ts and the builder.ts of
  the six packages core-crypto-transaction-*. Numbers that the code takes as strings are taken as the
  numbers they spell; keys and the address of a key come from third-party code and are arguments.
\<close>

datatype builder_error =
    VendorFieldLengthExceededError int
  | MaximumPaymentCountExceededError int
  | MinimumPaymentCountSubceededError
  | MissingTransactionSignatureError
  | OtherError error

datatype builder_kind = TransferKind | VoteKind | MultiPaymentKind | MultiSignatureKind | RegistrationKind | ResignationKind

text \<open>A builder's data; \<open>bd_hasFee\<close> tells whether a fee is set, for that is required to sign.\<close>

record tx_builder =
  bd_kind :: builder_kind
  bd_data :: txdata
  bd_hasFee :: bool
  bd_senderAsRecipient :: bool

type_synonym 'a buildprog = "(tx_builder, builder_error, 'a) prog"

definition onData :: "(txdata \<Rightarrow> txdata) \<Rightarrow> unit buildprog" where
  "onData f = modify (\<lambda>b. b\<lparr>bd_data := f (bd_data b)\<rparr>)"

section \<open>Fresh builders\<close>

text \<open>\<open>initializeData\<close>; the group of tests is 0.\<close>

definition initializeData :: txdata where
  "initializeData = blankTx\<lparr>nonce := Some 0, typeGroup := Some 0, version := Some 1\<rparr>"

definition transferBuilder :: tx_builder where
  "transferBuilder = \<lparr>bd_kind = TransferKind,
     bd_data = initializeData\<lparr>ttype := T_Transfer, typeGroup := Some G_Core, amount := 0, expiration := Some 0\<rparr>,
     bd_hasFee = False, bd_senderAsRecipient = False\<rparr>"

definition voteBuilder :: tx_builder where
  "voteBuilder = \<lparr>bd_kind = VoteKind,
     bd_data = initializeData\<lparr>ttype := T_Vote, typeGroup := Some G_Core, amount := 0,
       asset := noAsset\<lparr>as_votes := Some [], as_unvotes := Some []\<rparr>\<rparr>,
     bd_hasFee = False, bd_senderAsRecipient = True\<rparr>"

definition multiPaymentBuilder :: tx_builder where
  "multiPaymentBuilder = \<lparr>bd_kind = MultiPaymentKind,
     bd_data = initializeData\<lparr>ttype := T_MultiPayment, typeGroup := Some G_Core, amount := 0,
       asset := noAsset\<lparr>as_payments := Some []\<rparr>\<rparr>,
     bd_hasFee = False, bd_senderAsRecipient = False\<rparr>"

definition multiSignatureBuilder :: tx_builder where
  "multiSignatureBuilder = \<lparr>bd_kind = MultiSignatureKind,
     bd_data = initializeData\<lparr>ttype := T_MultiSignature, typeGroup := Some G_Core, version := Some 2, fee := 0, amount := 0,
       asset := noAsset\<lparr>as_multiSignature := Some \<lparr>ms_min = 0, ms_publicKeys = []\<rparr>\<rparr>\<rparr>,
     bd_hasFee = True, bd_senderAsRecipient = False\<rparr>"

definition registrationBuilder :: tx_builder where
  "registrationBuilder = \<lparr>bd_kind = RegistrationKind,
     bd_data = initializeData\<lparr>ttype := T_ValidatorRegistration, typeGroup := Some G_Core, amount := 0\<rparr>,
     bd_hasFee = False, bd_senderAsRecipient = False\<rparr>"

definition resignationBuilder :: tx_builder where
  "resignationBuilder = \<lparr>bd_kind = ResignationKind,
     bd_data = initializeData\<lparr>ttype := T_ValidatorResignation, typeGroup := Some G_Core, amount := 0\<rparr>,
     bd_hasFee = False, bd_senderAsRecipient = False\<rparr>"

section \<open>Setters\<close>

definition build_version :: "int \<Rightarrow> unit buildprog" where
  "build_version v = onData (\<lambda>d. d\<lparr>version := Some v\<rparr>)"

definition build_typeGroup :: "int \<Rightarrow> unit buildprog" where
  "build_typeGroup g = onData (\<lambda>d. d\<lparr>typeGroup := Some g\<rparr>)"

text \<open>An empty string for a nonce or a fee sets nothing.\<close>

definition build_nonce :: "int option \<Rightarrow> unit buildprog" where
  "build_nonce n = whenever (n \<noteq> None) (onData (\<lambda>d. d\<lparr>nonce := n\<rparr>))"

definition build_network :: "int \<Rightarrow> unit buildprog" where
  "build_network n = onData (\<lambda>d. d\<lparr>network := Some n\<rparr>)"

definition build_fee :: "int option \<Rightarrow> unit buildprog" where
  "build_fee f = whenever (f \<noteq> None) (modify (\<lambda>b. b\<lparr>bd_data := (bd_data b)\<lparr>fee := the f\<rparr>, bd_hasFee := True\<rparr>))"

definition build_amount :: "int \<Rightarrow> unit buildprog" where
  "build_amount a = onData (\<lambda>d. d\<lparr>amount := a\<rparr>)"

definition build_recipientId :: "string \<Rightarrow> unit buildprog" where
  "build_recipientId r = onData (\<lambda>d. d\<lparr>recipientId := Some r\<rparr>)"

definition build_senderPublicKey :: "string \<Rightarrow> unit buildprog" where
  "build_senderPublicKey k = onData (\<lambda>d. d\<lparr>senderPublicKey := Some k\<rparr>)"

text \<open>\<open>limit\<close> is the milestone's \<open>vendorFieldLength\<close>; nothing is greater than \<open>undefined\<close>.\<close>

definition build_vendorField :: "tx_env \<Rightarrow> int option \<Rightarrow> string \<Rightarrow> unit buildprog" where
  "build_vendorField V limit s =
     whenever (s \<noteq> '''')
       (andThen (case limit of None \<Rightarrow> ret ()
          | Some n \<Rightarrow> throwIf (int (length (te_utf8 V s)) > n) (VendorFieldLengthExceededError n)) (\<lambda>_.
        onData (\<lambda>d. d\<lparr>vendorField := Some s\<rparr>)))"

definition build_expiration :: "int \<Rightarrow> unit buildprog" where
  "build_expiration e = onData (\<lambda>d. d\<lparr>expiration := Some e\<rparr>)"

definition onAsset :: "(tx_asset \<Rightarrow> tx_asset) \<Rightarrow> unit buildprog" where
  "onAsset f = onData (\<lambda>d. d\<lparr>asset := f (asset d)\<rparr>)"

definition build_votesAsset :: "string list \<Rightarrow> unit buildprog" where
  "build_votesAsset vs = onAsset (\<lambda>a. if as_votes a = None then a else a\<lparr>as_votes := Some vs\<rparr>)"

definition build_unvotesAsset :: "string list \<Rightarrow> unit buildprog" where
  "build_unvotesAsset us = onAsset (\<lambda>a. if as_unvotes a = None then a else a\<lparr>as_unvotes := Some us\<rparr>)"

definition build_usernameAsset :: "string \<Rightarrow> unit buildprog" where
  "build_usernameAsset u = onAsset (\<lambda>a. a\<lparr>as_username := Some u\<rparr>)"

text \<open>\<open>limit\<close> is the milestone's \<open>multiPaymentLimit\<close>.\<close>

definition build_addPayment :: "int option \<Rightarrow> string \<Rightarrow> int \<Rightarrow> unit buildprog" where
  "build_addPayment limit r a =
     andThen (reads (\<lambda>b. as_payments (asset (bd_data b)))) (\<lambda>ps.
     case ps of None \<Rightarrow> ret ()
     | Some xs \<Rightarrow>
        (let n = (if truthyNum limit then the limit else 256) in
         andThen (throwIf (int (length xs) \<ge> n) (MaximumPaymentCountExceededError n)) (\<lambda>_.
         onAsset (\<lambda>s. s\<lparr>as_payments := Some (xs @ [\<lparr>pay_amount = a, pay_recipientId = r\<rparr>])\<rparr>))))"

definition onMultiSignature :: "(multisig_asset \<Rightarrow> multisig_asset) \<Rightarrow> unit buildprog" where
  "onMultiSignature f = onAsset (\<lambda>a. a\<lparr>as_multiSignature := map_option f (as_multiSignature a)\<rparr>)"

definition build_participant :: "string \<Rightarrow> unit buildprog" where
  "build_participant k = onMultiSignature (\<lambda>m.
     if length (ms_publicKeys m) \<le> 16 then m\<lparr>ms_publicKeys := ms_publicKeys m @ [k]\<rparr> else m)"

definition build_min :: "int \<Rightarrow> unit buildprog" where
  "build_min n = onMultiSignature (\<lambda>m. m\<lparr>ms_min := n\<rparr>)"

definition build_multiSignatureAsset :: "multisig_asset \<Rightarrow> unit buildprog" where
  "build_multiSignatureAsset m = onMultiSignature (\<lambda>_. m)"

section \<open>Signing, verifying, building\<close>

definition getSigningObject :: "txdata \<Rightarrow> txdata" where
  "getSigningObject d = d\<lparr>network := None, tid := None\<rparr>"

definition liftData :: "'a dataprog \<Rightarrow> txdata \<Rightarrow> ('a \<times> txdata) buildprog" where
  "liftData m d = (case m d of (Inl e, _) \<Rightarrow> throw (OtherError e) | (Inr x, d') \<Rightarrow> ret (x, d'))"

text \<open>A fee that is not set has no bytes.\<close>

definition signWithKeyPair :: "tx_env \<Rightarrow> (string \<Rightarrow> error + string) \<Rightarrow> key_pair \<Rightarrow> unit buildprog" where
  "signWithKeyPair V addressOf keys =
     andThen (onData (\<lambda>d. d\<lparr>senderPublicKey := Some (kp_publicKey keys)\<rparr>)) (\<lambda>_.
     andThen (reads bd_senderAsRecipient) (\<lambda>own.
     andThen (whenever own
       (case addressOf (kp_publicKey keys) of Inl e \<Rightarrow> throw (OtherError e)
        | Inr a \<Rightarrow> onData (\<lambda>d. d\<lparr>recipientId := Some a\<rparr>))) (\<lambda>_.
     andThen (reads (\<lambda>b. (getSigningObject (bd_data b), bd_hasFee b))) (\<lambda>(d, hasFee).
     andThen (throwIf (\<not> hasFee) (OtherError JsTypeError)) (\<lambda>_.
     andThen (liftData (tx_sign V keys None) d) (\<lambda>(s, _).
     onData (\<lambda>d. d\<lparr>signature := Some s\<rparr>)))))))"

text \<open>The list of signatures is shared with the object that is signed.\<close>

definition multiSignWithKeyPair :: "tx_env \<Rightarrow> int \<Rightarrow> key_pair \<Rightarrow> unit buildprog" where
  "multiSignWithKeyPair V index keys =
     andThen (onData (\<lambda>d. if signatures d = None then d\<lparr>signatures := Some []\<rparr> else d)) (\<lambda>_.
     andThen (reads (\<lambda>b. (getSigningObject (bd_data b), bd_hasFee b))) (\<lambda>(d, hasFee).
     andThen (throwIf (\<not> hasFee) (OtherError JsTypeError)) (\<lambda>_.
     andThen (liftData (tx_multiSign V keys index) d) (\<lambda>(_, d').
     onData (\<lambda>d. d\<lparr>signatures := signatures d'\<rparr>)))))"

definition build_verify :: "tx_env \<Rightarrow> bool buildprog" where
  "build_verify V = (\<lambda>b. case tx_verifyHash V (bd_data b) of
     (Inl e, d) \<Rightarrow> (Inl (OtherError e), b\<lparr>bd_data := d\<rparr>) | (Inr x, d) \<Rightarrow> (Inr x, b\<lparr>bd_data := d\<rparr>))"

definition build_build :: "tx_env \<Rightarrow> transaction buildprog" where
  "build_build V = andThen (reads bd_data) (\<lambda>d.
     case tx_fromData V (Some False) d of Inl e \<Rightarrow> throw (OtherError e) | Inr t \<Rightarrow> ret t)"

text \<open>\<open>getStruct\<close> of the base class, and the fields each class adds.\<close>

definition baseStruct :: "tx_env \<Rightarrow> txdata buildprog" where
  "baseStruct V =
     andThen (reads bd_data) (\<lambda>d.
     andThen (throwIf (\<not> truthyStr (senderPublicKey d) \<or> (\<not> truthyStr (signature d) \<and> signatures d = None))
       MissingTransactionSignatureError) (\<lambda>_.
     andThen (liftData (getId V noOptions) d) (\<lambda>(i, d').
     andThen (onData (\<lambda>_. d')) (\<lambda>_.
     ret (blankTx\<lparr>fee := fee d', tid := Some i, network := network d', nonce := nonce d',
       senderPublicKey := senderPublicKey d', signature := signature d', ttype := ttype d', typeGroup := typeGroup d',
       version := version d', signatures := signatures d'\<rparr>)))))"

fun structFields :: "builder_kind \<Rightarrow> txdata \<Rightarrow> txdata \<Rightarrow> txdata" where
  "structFields TransferKind d t = t\<lparr>amount := amount d, recipientId := recipientId d, asset := asset d,
     vendorField := vendorField d, expiration := expiration d\<rparr>"
| "structFields VoteKind d t = t\<lparr>amount := amount d, recipientId := recipientId d, asset := asset d\<rparr>"
| "structFields MultiPaymentKind d t = t\<lparr>senderPublicKey := senderPublicKey d, vendorField := vendorField d,
     amount := amount d, asset := asset d\<rparr>"
| "structFields MultiSignatureKind d t = t\<lparr>amount := amount d, recipientId := recipientId d, asset := asset d\<rparr>"
| "structFields RegistrationKind d t = t\<lparr>amount := amount d, recipientId := recipientId d, asset := asset d\<rparr>"
| "structFields ResignationKind d t = t\<lparr>amount := amount d\<rparr>"

definition getStruct :: "tx_env \<Rightarrow> txdata buildprog" where
  "getStruct V =
     andThen (reads (\<lambda>b. bd_kind b = MultiPaymentKind \<and>
       (case as_payments (asset (bd_data b)) of None \<Rightarrow> True | Some ps \<Rightarrow> length ps \<le> 1))) (\<lambda>few.
     andThen (throwIf few MinimumPaymentCountSubceededError) (\<lambda>_.
     andThen (baseStruct V) (\<lambda>t.
     reads (\<lambda>b. structFields (bd_kind b) (bd_data b) t))))"

section \<open>What is signed is what is verified\<close>

definition noSignature :: ser_options where
  "noSignature = noOptions\<lparr>so_excludeSignature := Some True\<rparr>"

lemma writeTx_unsigned:
  assumes "so_excludeSignature opts = Some True"
  shows "writeTx V c opts (d\<lparr>signature := s, tid := i\<rparr>) = writeTx V c opts d"
proof -
  have "classSerialize V c (withDefaults (d\<lparr>signature := s, tid := i\<rparr>)) = classSerialize V c (withDefaults d)"
    by (cases c) (simp_all add: withDefaults_def transfer_serialize_def registration_serialize_def vote_serialize_def
      multiSignature_serialize_def multiPayment_serialize_def)
  then show ?thesis
    using assms by (simp add: writeTx_def serializeCommon_def serializeVendorField_def serializeSignatures_def versionOr1_def whenever_def)
qed

lemma writeTx_network:
  assumes "network d \<in> {None, Some 0, Some (te_pubKeyHash V)}"
  shows "writeTx V c opts (d\<lparr>network := None\<rparr>) = writeTx V c opts d"
proof -
  have "classSerialize V c (withDefaults (d\<lparr>network := None\<rparr>)) = classSerialize V c (withDefaults d)"
    by (cases c) (simp_all add: withDefaults_def transfer_serialize_def registration_serialize_def vote_serialize_def
      multiSignature_serialize_def multiPayment_serialize_def)
  moreover have "(if truthyNum (network d) then the (network d) else te_pubKeyHash V) = te_pubKeyHash V"
    using assms by auto
  ultimately show ?thesis
    by (simp add: writeTx_def serializeCommon_def serializeVendorField_def serializeSignatures_def versionOr1_def)
qed

text \<open>The bytes of a transaction as a function of its data.\<close>

lemma getBytes_run:
  "fst (getBytes V opts d) = (if versionOr1 d = 0 then Inl (CryptoError (TransactionVersionError 0)) else
    case getCtor (te_types V) (ttype d) (typeGroup d) (version d) of Inl e \<Rightarrow> Inl e
    | Inr None \<Rightarrow> Inl JsTypeError
    | Inr (Some k) \<Rightarrow> map_sum id getResult
        (runWriter (txBufferSize V) (writeTx V (tc_class k) opts (d\<lparr>version := Some (versionOr1 d)\<rparr>))))"
  by (auto simp: getBytes_def createTx_def andThen_def serializeData_def serializeTx_def Let_def split: sum.splits option.splits)

lemma getBytes_same:
  assumes "network d \<in> {None, Some 0, Some (te_pubKeyHash V)}"
  shows "fst (getBytes V noSignature (d\<lparr>signature := s\<rparr>)) = fst (getBytes V noSignature (getSigningObject d))"
proof -
  let ?v = "d\<lparr>version := Some (versionOr1 d)\<rparr>"
  have swap: "d\<lparr>signature := s, version := w\<rparr> = d\<lparr>version := w, signature := s\<rparr>"
      "d\<lparr>network := None, tid := None, version := w\<rparr> = d\<lparr>version := w, network := None, tid := None\<rparr>" for w
    by simp_all
  have "writeTx V c noSignature (d\<lparr>signature := s, version := Some (versionOr1 d)\<rparr>) = writeTx V c noSignature ?v" for c
    unfolding swap using writeTx_unsigned[where opts = noSignature and d = ?v and s = s and i = "tid ?v"]
    by (simp add: noSignature_def noOptions_def)
  moreover have "writeTx V c noSignature (d\<lparr>network := None, tid := None, version := Some (versionOr1 d)\<rparr>) =
      writeTx V c noSignature ?v" for c
    unfolding swap using writeTx_network[where d = ?v and V = V] assms
      writeTx_unsigned[where opts = noSignature and d = "?v\<lparr>network := None\<rparr>" and s = "signature d" and i = None]
    by (simp add: noSignature_def noOptions_def)
  moreover have "versionOr1 (d\<lparr>signature := s\<rparr>) = versionOr1 d" "versionOr1 (d\<lparr>network := None, tid := None\<rparr>) = versionOr1 d"
    by (simp_all add: versionOr1_def)
  ultimately show ?thesis
    by (auto simp: getBytes_run getSigningObject_def split: sum.splits option.splits)
qed

lemma hash_same:
  assumes "network d \<in> {None, Some 0, Some (te_pubKeyHash V)}"
  shows "fst (toHash V noSignature (d\<lparr>signature := s\<rparr>)) = fst (toHash V noSignature (getSigningObject d))"
  using getBytes_same[OF assms, of s] by (auto simp: toHash_def andThen_def split: prod.splits sum.splits)

section \<open>The signature packages (core-crypto-signature-*/source/signature.ts)\<close>

text \<open>
  \<open>verify(signature, message, publicKey)\<close> of the packages. The library's own function is \<open>L\<close>, over
  message, signature and key; that of ECDSA also reads (\<open>import\<close>) the DER form, whose bytes are
  checked first. Reading past the end is a \<open>RangeError\<close>.
\<close>

type_synonym sig_lib = "byte list \<Rightarrow> byte list \<Rightarrow> byte list \<Rightarrow> error + bool"

definition schnorr_verify :: "sig_lib \<Rightarrow> byte list \<Rightarrow> byte list \<Rightarrow> byte list \<Rightarrow> error + bool" where
  "schnorr_verify L sig message key = L message sig key"

definition ed25519_verify :: "sig_lib \<Rightarrow> byte list \<Rightarrow> byte list \<Rightarrow> byte list \<Rightarrow> error + bool" where
  "ed25519_verify L sig message key = L message sig key"

definition bls_verify :: "sig_lib \<Rightarrow> byte list \<Rightarrow> byte list \<Rightarrow> byte list \<Rightarrow> error + bool" where
  "bls_verify L sig message key = L message sig key"

definition readByte :: "byte list \<Rightarrow> nat \<Rightarrow> error + byte" where
  "readByte bs i = (if i < length bs then Inr (bs ! i) else Inl JsRangeError)"

text \<open>A first byte of zero must be there for the sign: the next byte, read only then, is negative.\<close>

definition paddedWell :: "byte list \<Rightarrow> nat \<Rightarrow> error + bool" where
  "paddedWell sig i = (case readByte sig i of Inl e \<Rightarrow> Inl e
     | Inr first \<Rightarrow> if first \<noteq> 0 then Inr True
         else (case readByte sig (i + 1) of Inl e \<Rightarrow> Inl e | Inr y \<Rightarrow> Inr (sint y < 0)))"

definition derChecks :: "byte list \<Rightarrow> error + bool" where
  "derChecks sig =
     (case readByte sig 1 of Inl e \<Rightarrow> Inl e | Inr len \<Rightarrow>
     (case readByte sig 3 of Inl e \<Rightarrow> Inl e | Inr rl \<Rightarrow>
     (case readByte sig (4 + unat rl + 1) of Inl e \<Rightarrow> Inl e | Inr sl \<Rightarrow>
      if length sig \<noteq> 4 + unat rl + 2 + unat sl \<or> unat len \<noteq> 2 + unat rl + 2 + unat sl \<or> 127 < unat len
      then Inr False
      else (case readByte sig 4 of Inl e \<Rightarrow> Inl e | Inr r1 \<Rightarrow>
           (case readByte sig (4 + unat rl + 2) of Inl e \<Rightarrow> Inl e | Inr s1 \<Rightarrow>
            if sint r1 < 0 \<or> sint s1 < 0 then Inr False
            else (case paddedWell sig 4 of Inl e \<Rightarrow> Inl e
              | Inr ok \<Rightarrow> if \<not> ok then Inr False else paddedWell sig (4 + unat rl + 2)))))))"

definition ecdsa_verify :: "(byte list \<Rightarrow> error + byte list) \<Rightarrow> (byte list \<Rightarrow> bool) \<Rightarrow> sig_lib \<Rightarrow>
    byte list \<Rightarrow> byte list \<Rightarrow> byte list \<Rightarrow> error + bool" where
  "ecdsa_verify importDer isLowS L sig message key =
     (case importDer sig of Inl e \<Rightarrow> Inl e
      | Inr rs \<Rightarrow> if \<not> isLowS rs then Inr False
          else (case derChecks sig of Inl e \<Rightarrow> Inl e
            | Inr ok \<Rightarrow> if ok then L message rs key else Inr False))"

section \<open>What is signed is what is hashed\<close>

lemma tx_sign_run:
  assumes "tx_sign V keys None d = (Inr s, d')"
  obtains h where "fst (toHash V noSignature d) = Inr h" "te_sign V h (fromHexString (kp_privateKey keys)) = Inr s"
proof -
  obtain h d1 where "toHash V noSignature d = (Inr h, d1)" "te_sign V h (fromHexString (kp_privateKey keys)) = Inr s"
    using assms by (auto simp: tx_sign_def noSignature_def Let_def liftE_def elim!: andThen_InrE split: sum.splits)
  then show ?thesis using that by simp
qed

lemma verifyHash_signed:
  assumes "fst (toHash V noSignature d) = Inr h" and "signature d = Some s" and "senderPublicKey d = Some k"
  shows "fst (tx_verifyHash V d) = (if s = '''' \<or> k = '''' then Inr False
    else te_verify V h (fromHexString s) (fromHexString k))"
proof -
  obtain d' where "toHash V noSignature d = (Inr h, d')" using assms(1) by (cases "toHash V noSignature d") simp
  then show ?thesis
    using assms(2,3) by (simp add: tx_verifyHash_def noSignature_def noOptions_def andThen_def liftE_def)
qed

text \<open>Signing leaves the data as prepared, with the signature of the object without network and identifier.\<close>

definition preparedData :: "key_pair \<Rightarrow> string option \<Rightarrow> txdata \<Rightarrow> txdata" where
  "preparedData keys r d = (let e = d\<lparr>senderPublicKey := Some (kp_publicKey keys)\<rparr> in
     case r of None \<Rightarrow> e | Some a \<Rightarrow> e\<lparr>recipientId := Some a\<rparr>)"

lemma signWithKeyPair_run:
  assumes "signWithKeyPair V addressOf keys b = (Inr u, b')"
  obtains r s d' where "tx_sign V keys None (getSigningObject (preparedData keys r (bd_data b))) = (Inr s, d')"
    and "b' = b\<lparr>bd_data := (preparedData keys r (bd_data b))\<lparr>signature := Some s\<rparr>\<rparr>"
proof (cases "bd_senderAsRecipient b")
  case True
  then obtain a where a: "addressOf (kp_publicKey keys) = Inr a"
    using assms by (cases "addressOf (kp_publicKey keys)") (simp_all add: signWithKeyPair_def onData_def andThen_def)
  have "preparedData keys (Some a) (bd_data b) = (bd_data b)\<lparr>senderPublicKey := Some (kp_publicKey keys), recipientId := Some a\<rparr>"
    by (simp add: preparedData_def)
  then show ?thesis
    using assms True a that[of "Some a"]
    by (cases "tx_sign V keys None (getSigningObject (preparedData keys (Some a) (bd_data b)))")
      (auto simp: signWithKeyPair_def onData_def andThen_def liftData_def split: if_splits sum.splits)
next
  case False
  have "preparedData keys None (bd_data b) = (bd_data b)\<lparr>senderPublicKey := Some (kp_publicKey keys)\<rparr>"
    by (simp add: preparedData_def)
  then show ?thesis
    using assms False that[of None]
    by (cases "tx_sign V keys None (getSigningObject (preparedData keys None (bd_data b)))")
      (auto simp: signWithKeyPair_def onData_def andThen_def liftData_def split: if_splits sum.splits)
qed

lemma signed_checked:
  assumes "signWithKeyPair V addressOf keys b = (Inr u, b')"
    and "network (bd_data b) \<in> {None, Some 0, Some (te_pubKeyHash V)}"
  shows "\<exists>h s. fst (toHash V noSignature (bd_data b')) = Inr h \<and> te_sign V h (fromHexString (kp_privateKey keys)) = Inr s \<and>
    signature (bd_data b') = Some s \<and> senderPublicKey (bd_data b') = Some (kp_publicKey keys) \<and>
    fst (build_verify V b') = (if s = '''' \<or> kp_publicKey keys = '''' then Inr False
      else map_sum OtherError id (te_verify V h (fromHexString s) (fromHexString (kp_publicKey keys))))"
proof -
  obtain r s d' where sign: "tx_sign V keys None (getSigningObject (preparedData keys r (bd_data b))) = (Inr s, d')"
      and b': "b' = b\<lparr>bd_data := (preparedData keys r (bd_data b))\<lparr>signature := Some s\<rparr>\<rparr>"
    using signWithKeyPair_run[OF assms(1)] .
  let ?d = "preparedData keys r (bd_data b)"
  have d: "senderPublicKey ?d = Some (kp_publicKey keys)" "network ?d = network (bd_data b)"
    by (simp_all add: preparedData_def Let_def split: option.splits)
  obtain h where h: "fst (toHash V noSignature (getSigningObject ?d)) = Inr h"
      "te_sign V h (fromHexString (kp_privateKey keys)) = Inr s" using tx_sign_run[OF sign] .
  have hash: "fst (toHash V noSignature (bd_data b')) = Inr h"
    using hash_same[of ?d V "Some s"] h(1) d(2) assms(2) by (simp add: b')
  have key: "signature (bd_data b') = Some s" "senderPublicKey (bd_data b') = Some (kp_publicKey keys)"
    using d(1) by (simp_all add: b')
  have "fst (build_verify V b') = map_sum OtherError id (fst (tx_verifyHash V (bd_data b')))"
    by (auto simp: build_verify_def split: prod.splits sum.splits)
  then show ?thesis using hash h(2) key verifyHash_signed[OF hash key] by auto
qed

section \<open>Bounds of the assets\<close>

text \<open>No builder takes more payments than the limit.\<close>

lemma addPayment_bound:
  assumes "build_addPayment limit r a b = (Inr (), b')" and "as_payments (asset (bd_data b)) = Some ps"
  shows "\<exists>qs. as_payments (asset (bd_data b')) = Some qs \<and> length qs = length ps + 1 \<and>
    int (length qs) \<le> (if truthyNum limit then the limit else 256)"
  using assms by (auto simp: build_addPayment_def onAsset_def onData_def Let_def andThen_def split: if_splits)

text \<open>Up to 17 participants are taken, one more than the schema allows.\<close>

lemma participants_taken:
  assumes "as_multiSignature (asset (bd_data b)) = Some m" and "length (ms_publicKeys m) \<le> 17"
  shows "\<exists>m' b'. forEach build_participant ks b = (Inr (), b') \<and> as_multiSignature (asset (bd_data b')) = Some m' \<and>
    length (ms_publicKeys m') = min 17 (length (ms_publicKeys m) + length ks)"
  using assms
proof (induction ks arbitrary: b m)
  case (Cons k ks)
  let ?m = "if length (ms_publicKeys m) \<le> 16 then m\<lparr>ms_publicKeys := ms_publicKeys m @ [k]\<rparr> else m"
  obtain b1 where b1: "build_participant k b = (Inr (), b1)" "as_multiSignature (asset (bd_data b1)) = Some ?m"
    using Cons.prems(1) by (auto simp: build_participant_def onMultiSignature_def onAsset_def onData_def)
  have "length (ms_publicKeys ?m) \<le> 17" using Cons.prems(2) by simp
  from Cons.IH[OF b1(2) this] show ?case using b1(1) Cons.prems(2) by (auto simp: andThen_def)
qed simp

end
