(* ===== verification/Lock.thy ===== *)
theory Lock
  imports Prelude
begin

text \<open>
  The lock of packages/core-kernel/source/utils/lock.ts, which the pool and each sender's mempool run
  their operations under. A call is a task that runs in segments, from one \<open>await\<close> to the next; the
  segments of different tasks interleave in any order their promises allow. Callbacks are not part of
  the lock: they run until they settle, one way or the other.
\<close>

section \<open>Tasks and segments\<close>

datatype lock_kind = NonExclusive | Exclusive

text \<open>
  \<open>Waits p\<close> awaits the exclusive promise of task \<open>p\<close>; \<open>Drains ns\<close> awaits the non-exclusive promises
  there were; \<open>Settled\<close> has a settled promise and its \<open>finally\<close> to do.
\<close>

datatype lock_phase =
    Waits nat
  | Drains "nat list"
  | Runs
  | Settled
  | Returned

record lock =
  lk_exclusive :: "nat option"
  lk_nonExclusive :: "nat list"
  lk_tasks :: "nat \<rightharpoonup> lock_kind \<times> lock_phase"

definition newLock :: lock where
  "newLock = \<lparr>lk_exclusive = None, lk_nonExclusive = [], lk_tasks = Map.empty\<rparr>"

definition inPhase :: "nat \<Rightarrow> lock_kind \<Rightarrow> lock_phase \<Rightarrow> lock \<Rightarrow> bool" where
  "inPhase i k p s \<longleftrightarrow> lk_tasks s i = Some (k, p)"

definition goTo :: "nat \<Rightarrow> lock_kind \<Rightarrow> lock_phase \<Rightarrow> lock \<Rightarrow> lock" where
  "goTo i k p s = s\<lparr>lk_tasks := (lk_tasks s)(i \<mapsto> (k, p))\<rparr>"

definition settled :: "lock \<Rightarrow> nat \<Rightarrow> bool" where
  "settled s i = (case lk_tasks s i of Some (_, Settled) \<Rightarrow> True | Some (_, Returned) \<Rightarrow> True | _ \<Rightarrow> False)"

text \<open>
  The loop that both methods begin with, and what follows it up to the next \<open>await\<close>. The code calls the
  callback of \<open>runNonExclusive\<close> just before it adds its promise to the set; as one segment these are one
  step, so a callback that calls the lock again before its first \<open>await\<close> is not covered (none does).
\<close>

definition runNonExclusive :: "nat \<Rightarrow> lock \<Rightarrow> lock" where
  "runNonExclusive i s = (case lk_exclusive s of
     Some p \<Rightarrow> goTo i NonExclusive (Waits p) s
   | None \<Rightarrow> goTo i NonExclusive Runs (s\<lparr>lk_nonExclusive := lk_nonExclusive s @ [i]\<rparr>))"

definition runExclusive :: "nat \<Rightarrow> lock \<Rightarrow> lock" where
  "runExclusive i s = (case lk_exclusive s of
     Some p \<Rightarrow> goTo i Exclusive (Waits p) s
   | None \<Rightarrow> goTo i Exclusive (Drains (lk_nonExclusive s)) (s\<lparr>lk_exclusive := Some i\<rparr>))"

definition runLocked :: "lock_kind \<Rightarrow> nat \<Rightarrow> lock \<Rightarrow> lock" where
  "runLocked k i s = (case k of NonExclusive \<Rightarrow> runNonExclusive i s | Exclusive \<Rightarrow> runExclusive i s)"

definition finallyBlock :: "lock_kind \<Rightarrow> nat \<Rightarrow> lock \<Rightarrow> lock" where
  "finallyBlock k i s = goTo i k Returned (case k of
     NonExclusive \<Rightarrow> s\<lparr>lk_nonExclusive := filter (\<lambda>j. j \<noteq> i) (lk_nonExclusive s)\<rparr>
   | Exclusive \<Rightarrow> s\<lparr>lk_exclusive := None\<rparr>)"

inductive lockStep :: "lock \<Rightarrow> lock \<Rightarrow> bool" where
  calls: "lk_tasks s i = None \<Longrightarrow> lockStep s (runLocked k i s)"
| wakes: "inPhase i k (Waits p) s \<Longrightarrow> settled s p \<Longrightarrow> lockStep s (runLocked k i s)"
| drained: "inPhase i Exclusive (Drains ns) s \<Longrightarrow> list_all (settled s) ns \<Longrightarrow> lockStep s (goTo i Exclusive Runs s)"
| settles: "inPhase i k Runs s \<Longrightarrow> lockStep s (goTo i k Settled s)"
| returns: "inPhase i k Settled s \<Longrightarrow> lockStep s (finallyBlock k i s)"

inductive reachableLock :: "lock \<Rightarrow> bool" where
  fresh: "reachableLock newLock"
| onward: "reachableLock s \<Longrightarrow> lockStep s t \<Longrightarrow> reachableLock t"

section \<open>Mutual exclusion\<close>

definition busy :: "lock_phase \<Rightarrow> bool" where
  "busy p \<longleftrightarrow> p \<in> {Runs, Settled} \<or> (\<exists>ns. p = Drains ns)"

text \<open>
  The exclusive slot names the one exclusive task that is busy, the set holds the non-exclusive ones; a
  task that waits waits for an exclusive one that was let in; an exclusive task that drains knows all
  callbacks that still run, and none runs once it has drained.
\<close>

definition lock_inv :: "lock \<Rightarrow> bool" where
  "lock_inv s \<longleftrightarrow>
     (\<forall>i. lk_exclusive s = Some i \<longleftrightarrow> (\<exists>p. inPhase i Exclusive p s \<and> busy p)) \<and>
     (\<forall>i. i \<in> set (lk_nonExclusive s) \<longleftrightarrow> (\<exists>p. inPhase i NonExclusive p s \<and> busy p)) \<and>
     (\<forall>i ns. \<not> inPhase i NonExclusive (Drains ns) s) \<and>
     (\<forall>i k p. inPhase i k (Waits p) s \<longrightarrow> (\<exists>q. inPhase p Exclusive q s \<and> (busy q \<or> q = Returned))) \<and>
     (\<forall>i ns. inPhase i Exclusive (Drains ns) s \<longrightarrow> (\<forall>j. inPhase j NonExclusive Runs s \<longrightarrow> j \<in> set ns) \<and>
        (\<forall>j \<in> set ns. \<exists>p. inPhase j NonExclusive p s \<and> (busy p \<or> p = Returned))) \<and>
     (\<forall>i j. inPhase i Exclusive Runs s \<longrightarrow> \<not> inPhase j NonExclusive Runs s)"

lemma inPhase_goTo [simp]: "inPhase j k' p' (goTo i k p s) \<longleftrightarrow> (if j = i then k' = k \<and> p' = p else inPhase j k' p' s)"
  by (auto simp: inPhase_def goTo_def)

lemma inPhase_update [simp]: "inPhase j k p (s\<lparr>lk_exclusive := e\<rparr>) = inPhase j k p s"
    "inPhase j k p (s\<lparr>lk_nonExclusive := n\<rparr>) = inPhase j k p s"
  by (simp_all add: inPhase_def)

lemma goTo_sel [simp]: "lk_exclusive (goTo i k p s) = lk_exclusive s" "lk_nonExclusive (goTo i k p s) = lk_nonExclusive s"
  by (simp_all add: goTo_def)

lemma inPhase_fun: "inPhase i k p s \<Longrightarrow> inPhase i k' p' s \<Longrightarrow> k' = k \<and> p' = p"
  by (simp add: inPhase_def)

lemma busy_simps [simp]: "busy Runs" "busy Settled" "busy (Drains ns)" "\<not> busy (Waits p)" "\<not> busy Returned"
  by (simp_all add: busy_def)

lemma settled_cases: "settled s i \<longleftrightarrow> (\<exists>k. inPhase i k Settled s \<or> inPhase i k Returned s)"
  by (auto simp: settled_def inPhase_def split: option.splits prod.splits lock_phase.splits)

lemma ex_goTo:
  "(\<exists>r. inPhase j k' r (goTo i k p s) \<and> P r) \<longleftrightarrow> (if j = i then k' = k \<and> P p else \<exists>r. inPhase j k' r s \<and> P r)"
  by auto

definition idleTask :: "nat \<Rightarrow> lock \<Rightarrow> bool" where
  "idleTask i s \<longleftrightarrow> (\<forall>k p. inPhase i k p s \<longrightarrow> \<not> busy p \<and> p \<noteq> Returned)"

lemma lock_invD:
  assumes "lock_inv s"
  shows "lk_exclusive s = Some i \<longleftrightarrow> (\<exists>p. inPhase i Exclusive p s \<and> busy p)"
    and "i \<in> set (lk_nonExclusive s) \<longleftrightarrow> (\<exists>p. inPhase i NonExclusive p s \<and> busy p)"
    and "\<not> inPhase i NonExclusive (Drains ns) s"
    and "inPhase i k (Waits j) s \<Longrightarrow> \<exists>q. inPhase j Exclusive q s \<and> (busy q \<or> q = Returned)"
    and "inPhase i Exclusive (Drains ns) s \<Longrightarrow> inPhase j NonExclusive Runs s \<Longrightarrow> j \<in> set ns"
    and "inPhase i Exclusive (Drains ns) s \<Longrightarrow> j \<in> set ns \<Longrightarrow> \<exists>p. inPhase j NonExclusive p s \<and> (busy p \<or> p = Returned)"
    and "inPhase i Exclusive Runs s \<Longrightarrow> \<not> inPhase j NonExclusive Runs s"
  using assms unfolding lock_inv_def by blast+

lemma lock_invI:
  assumes "\<And>i. lk_exclusive s = Some i \<longleftrightarrow> (\<exists>p. inPhase i Exclusive p s \<and> busy p)"
    and "\<And>i. i \<in> set (lk_nonExclusive s) \<longleftrightarrow> (\<exists>p. inPhase i NonExclusive p s \<and> busy p)"
    and "\<And>i ns. \<not> inPhase i NonExclusive (Drains ns) s"
    and "\<And>i k j. inPhase i k (Waits j) s \<Longrightarrow> \<exists>q. inPhase j Exclusive q s \<and> (busy q \<or> q = Returned)"
    and "\<And>i j ns. inPhase i Exclusive (Drains ns) s \<Longrightarrow> inPhase j NonExclusive Runs s \<Longrightarrow> j \<in> set ns"
    and "\<And>i j ns. inPhase i Exclusive (Drains ns) s \<Longrightarrow> j \<in> set ns \<Longrightarrow> \<exists>p. inPhase j NonExclusive p s \<and> (busy p \<or> p = Returned)"
    and "\<And>i j. inPhase i Exclusive Runs s \<Longrightarrow> \<not> inPhase j NonExclusive Runs s"
  shows "lock_inv s"
  using assms unfolding lock_inv_def by blast

lemma wait_inv:
  assumes inv: "lock_inv s" and idle: "idleTask i s" and "lk_exclusive s = Some p"
  shows "lock_inv (goTo i k (Waits p) s)"
proof -
  obtain q where q: "inPhase p Exclusive q s" "busy q" using lock_invD(1)[OF inv, of p] assms(3) by auto
  have pi: "p \<noteq> i" using q idle by (auto simp: idleTask_def)
  have other: "j \<noteq> i" if "inPhase j k' r s" "busy r \<or> r = Returned" for j k' r
    using that idle by (auto simp: idleTask_def)
  show ?thesis
  proof (rule lock_invI)
    show "lk_exclusive (goTo i k (Waits p) s) = Some j \<longleftrightarrow> (\<exists>r. inPhase j Exclusive r (goTo i k (Waits p) s) \<and> busy r)" for j
      using lock_invD(1)[OF inv, of j] other by auto
    show "j \<in> set (lk_nonExclusive (goTo i k (Waits p) s)) \<longleftrightarrow> (\<exists>r. inPhase j NonExclusive r (goTo i k (Waits p) s) \<and> busy r)" for j
      using lock_invD(2)[OF inv, of j] other by auto
    show "\<exists>r. inPhase l Exclusive r (goTo i k (Waits p) s) \<and> (busy r \<or> r = Returned)"
      if "inPhase j k' (Waits l) (goTo i k (Waits p) s)" for j k' l
      using that lock_invD(4)[OF inv, of j k' l] q pi other by (auto split: if_splits)
    show "\<exists>r. inPhase l NonExclusive r (goTo i k (Waits p) s) \<and> (busy r \<or> r = Returned)"
      if "inPhase j Exclusive (Drains ns) (goTo i k (Waits p) s)" "l \<in> set ns" for j l ns
      using that lock_invD(6)[OF inv, of j ns l] other by (auto split: if_splits)
  qed (use lock_invD(3,5,7)[OF inv] in \<open>auto split: if_splits\<close>)
qed

lemma enter_nonExclusive_inv:
  assumes inv: "lock_inv s" and idle: "idleTask i s" and "lk_exclusive s = None"
  shows "lock_inv (goTo i NonExclusive Runs (s\<lparr>lk_nonExclusive := lk_nonExclusive s @ [i]\<rparr>))" (is "lock_inv ?t")
proof -
  have free: "\<not> busy r" if "inPhase j Exclusive r s" for j r using that lock_invD(1)[OF inv, of j] assms(3) by auto
  have none: "\<not> inPhase j Exclusive (Drains ns) s" "\<not> inPhase j Exclusive Runs s" for j ns
    using free[of j "Drains ns"] free[of j Runs] by auto
  have other: "j \<noteq> i" if "inPhase j k' r s" "busy r \<or> r = Returned" for j k' r
    using that idle by (auto simp: idleTask_def)
  show ?thesis
  proof (rule lock_invI)
    show "lk_exclusive ?t = Some j \<longleftrightarrow> (\<exists>r. inPhase j Exclusive r ?t \<and> busy r)" for j
      using assms(3) free by auto
    show "j \<in> set (lk_nonExclusive ?t) \<longleftrightarrow> (\<exists>r. inPhase j NonExclusive r ?t \<and> busy r)" for j
      using lock_invD(2)[OF inv, of j] other by auto
    show "\<exists>r. inPhase l Exclusive r ?t \<and> (busy r \<or> r = Returned)" if "inPhase j k' (Waits l) ?t" for j k' l
      using that lock_invD(4)[OF inv, of j k' l] other by (auto split: if_splits)
    show "l \<in> set ns" if "inPhase j Exclusive (Drains ns) ?t" for j l ns
      using that none by (auto split: if_splits)
    show "\<exists>r. inPhase l NonExclusive r ?t \<and> (busy r \<or> r = Returned)"
      if "inPhase j Exclusive (Drains ns) ?t" for j l ns
      using that none by (auto split: if_splits)
    show "\<not> inPhase l NonExclusive Runs ?t" if "inPhase j Exclusive Runs ?t" for j l
      using that none by (auto split: if_splits)
  qed (use lock_invD(3)[OF inv] in \<open>auto split: if_splits\<close>)
qed

lemma enter_exclusive_inv:
  assumes inv: "lock_inv s" and idle: "idleTask i s" and "lk_exclusive s = None"
  shows "lock_inv (goTo i Exclusive (Drains (lk_nonExclusive s)) (s\<lparr>lk_exclusive := Some i\<rparr>))" (is "lock_inv ?t")
proof -
  have free: "\<not> busy r" if "inPhase j Exclusive r s" for j r using that lock_invD(1)[OF inv, of j] assms(3) by auto
  have none: "\<not> inPhase j Exclusive (Drains ns) s" "\<not> inPhase j Exclusive Runs s" for j ns
    using free[of j "Drains ns"] free[of j Runs] by auto
  have other: "j \<noteq> i" if "inPhase j k' r s" "busy r \<or> r = Returned" for j k' r
    using that idle by (auto simp: idleTask_def)
  show ?thesis
  proof (rule lock_invI)
    show "lk_exclusive ?t = Some j \<longleftrightarrow> (\<exists>r. inPhase j Exclusive r ?t \<and> busy r)" for j
      using free by auto
    show "j \<in> set (lk_nonExclusive ?t) \<longleftrightarrow> (\<exists>r. inPhase j NonExclusive r ?t \<and> busy r)" for j
      using lock_invD(2)[OF inv, of j] other by auto
    show "\<exists>r. inPhase l Exclusive r ?t \<and> (busy r \<or> r = Returned)" if "inPhase j k' (Waits l) ?t" for j k' l
      using that lock_invD(4)[OF inv, of j k' l] other by (auto split: if_splits)
    show "l \<in> set ns" if "inPhase j Exclusive (Drains ns) ?t" "inPhase l NonExclusive Runs ?t" for j l ns
      using that none lock_invD(2)[OF inv, of l] by (auto split: if_splits)
    show "\<exists>r. inPhase l NonExclusive r ?t \<and> (busy r \<or> r = Returned)"
      if "inPhase j Exclusive (Drains ns) ?t" "l \<in> set ns" for j l ns
      using that none other[of l NonExclusive] lock_invD(2)[OF inv, of l] by (auto split: if_splits)
    show "\<not> inPhase l NonExclusive Runs ?t" if "inPhase j Exclusive Runs ?t" for j l
      using that none by (auto split: if_splits)
  qed (use lock_invD(3)[OF inv] in \<open>auto split: if_splits\<close>)
qed

lemma runLocked_inv: "lock_inv s \<Longrightarrow> idleTask i s \<Longrightarrow> lock_inv (runLocked k i s)"
  by (auto simp: runLocked_def runNonExclusive_def runExclusive_def
      intro: wait_inv enter_nonExclusive_inv enter_exclusive_inv split: lock_kind.splits option.splits)


lemma drained_inv:
  assumes inv: "lock_inv s" and i: "inPhase i Exclusive (Drains ns) s" and all: "list_all (settled s) ns"
  shows "lock_inv (goTo i Exclusive Runs s)" (is "lock_inv ?t")
proof -
  have only: "lk_exclusive s = Some i" using lock_invD(1)[OF inv, of i] i by auto
  have quiet: "\<not> inPhase j NonExclusive Runs s" for j
  proof
    assume "inPhase j NonExclusive Runs s"
    then show False using lock_invD(5)[OF inv i, of j] all
      by (auto simp: list_all_iff settled_cases dest: inPhase_fun)
  qed
  show ?thesis
  proof (rule lock_invI)
    show "lk_exclusive ?t = Some j \<longleftrightarrow> (\<exists>r. inPhase j Exclusive r ?t \<and> busy r)" for j
      unfolding ex_goTo using lock_invD(1)[OF inv, of j] only by auto
    show "j \<in> set (lk_nonExclusive ?t) \<longleftrightarrow> (\<exists>r. inPhase j NonExclusive r ?t \<and> busy r)" for j
      unfolding ex_goTo using lock_invD(2)[OF inv, of j] i by (auto dest: inPhase_fun)
    show "\<exists>r. inPhase l Exclusive r ?t \<and> (busy r \<or> r = Returned)" if "inPhase j k' (Waits l) ?t" for j k' l
      unfolding ex_goTo using that lock_invD(4)[OF inv, of j k' l] by (auto split: if_splits)
    show "\<exists>r. inPhase l NonExclusive r ?t \<and> (busy r \<or> r = Returned)"
      if "inPhase j Exclusive (Drains ms) ?t" "l \<in> set ms" for j l ms
      unfolding ex_goTo using that lock_invD(6)[OF inv, of j ms l] i by (auto split: if_splits dest: inPhase_fun)
  qed (use lock_invD(3,5)[OF inv] quiet in \<open>auto split: if_splits\<close>)
qed

lemma settles_inv:
  assumes inv: "lock_inv s" and i: "inPhase i k Runs s"
  shows "lock_inv (goTo i k Settled s)" (is "lock_inv ?t")
proof (rule lock_invI)
  show "lk_exclusive ?t = Some j \<longleftrightarrow> (\<exists>r. inPhase j Exclusive r ?t \<and> busy r)" for j
    unfolding ex_goTo using lock_invD(1)[OF inv, of j] i by (auto dest: inPhase_fun)
  show "j \<in> set (lk_nonExclusive ?t) \<longleftrightarrow> (\<exists>r. inPhase j NonExclusive r ?t \<and> busy r)" for j
    unfolding ex_goTo using lock_invD(2)[OF inv, of j] i by (auto dest: inPhase_fun)
  show "\<exists>r. inPhase l Exclusive r ?t \<and> (busy r \<or> r = Returned)" if "inPhase j k' (Waits l) ?t" for j k' l
    unfolding ex_goTo using that lock_invD(4)[OF inv, of j k' l] i by (auto split: if_splits dest: inPhase_fun)
  show "\<exists>r. inPhase l NonExclusive r ?t \<and> (busy r \<or> r = Returned)"
    if "inPhase j Exclusive (Drains ms) ?t" "l \<in> set ms" for j l ms
    unfolding ex_goTo using that lock_invD(6)[OF inv, of j ms l] i by (auto split: if_splits dest: inPhase_fun)
qed (use lock_invD(3,5,7)[OF inv] in \<open>auto split: if_splits\<close>)

lemma returns_inv:
  assumes inv: "lock_inv s" and i: "inPhase i k Settled s"
  shows "lock_inv (finallyBlock k i s)" (is "lock_inv ?t")
proof (rule lock_invI)
  have only: "lk_exclusive s = Some i" if "k = Exclusive" using lock_invD(1)[OF inv, of i] i that by auto
  show "lk_exclusive ?t = Some j \<longleftrightarrow> (\<exists>r. inPhase j Exclusive r ?t \<and> busy r)" for j
    using lock_invD(1)[OF inv, of j] i only by (cases k) (auto simp: finallyBlock_def dest: inPhase_fun)
  show "j \<in> set (lk_nonExclusive ?t) \<longleftrightarrow> (\<exists>r. inPhase j NonExclusive r ?t \<and> busy r)" for j
    using lock_invD(2)[OF inv, of j] i by (cases k) (auto simp: finallyBlock_def dest: inPhase_fun)
  show "\<exists>r. inPhase l Exclusive r ?t \<and> (busy r \<or> r = Returned)" if "inPhase j k' (Waits l) ?t" for j k' l
    using that lock_invD(4)[OF inv, of j k' l] i by (cases k) (auto simp: finallyBlock_def split: if_splits dest: inPhase_fun)
  show "\<exists>r. inPhase l NonExclusive r ?t \<and> (busy r \<or> r = Returned)"
    if "inPhase j Exclusive (Drains ms) ?t" "l \<in> set ms" for j l ms
    using that lock_invD(6)[OF inv, of j ms l] i
    by (cases k) (auto simp: finallyBlock_def split: if_splits dest: inPhase_fun)
qed (use lock_invD(3,5,7)[OF inv] in \<open>cases k; auto simp: finallyBlock_def split: if_splits\<close>)+

theorem lockStep_inv: "lockStep s t \<Longrightarrow> lock_inv s \<Longrightarrow> lock_inv t"
proof (induction rule: lockStep.induct)
  case (calls s i k)
  then show ?case by (intro runLocked_inv) (simp_all add: idleTask_def inPhase_def)
next
  case (wakes i k p s)
  then show ?case by (intro runLocked_inv) (auto simp: idleTask_def dest: inPhase_fun)
qed (simp_all add: drained_inv settles_inv returns_inv)

lemma reachableLock_inv: "reachableLock s \<Longrightarrow> lock_inv s"
proof (induction rule: reachableLock.induct)
  case fresh
  show ?case by (simp add: lock_inv_def newLock_def inPhase_def)
next
  case (onward s t)
  then show ?case by (blast intro: lockStep_inv)
qed

text \<open>No callback runs beside an exclusive one.\<close>

lemma lock_excludes:
  assumes "reachableLock s" and "inPhase i Exclusive Runs s" and "inPhase j k Runs s"
  shows "j = i"
proof -
  note inv = reachableLock_inv[OF assms(1)]
  have "k = Exclusive" using lock_invD(7)[OF inv assms(2), of j] assms(3) by (cases k) auto
  then have "lk_exclusive s = Some i" "lk_exclusive s = Some j"
    using lock_invD(1)[OF inv, of i] lock_invD(1)[OF inv, of j] assms(2,3) by auto
  then show ?thesis by simp
qed

text \<open>The lock never gets stuck: while a call has not returned, some task goes on.\<close>

lemma lock_progress:
  assumes "reachableLock s" and "inPhase i k p s" and "p \<noteq> Returned"
  shows "\<exists>j k' q t. inPhase j k' q s \<and> q \<noteq> Returned \<and> lockStep s t \<and> (\<forall>l. l \<noteq> j \<longrightarrow> lk_tasks t l = lk_tasks s l)"
proof -
  note inv = reachableLock_inv[OF assms(1)]
  have others: "\<forall>l. l \<noteq> j \<longrightarrow> lk_tasks (goTo j k' q u) l = lk_tasks u l" for j k' q u by (simp add: goTo_def)
  show ?thesis
  proof (cases "\<exists>j k'. inPhase j k' Runs s \<or> inPhase j k' Settled s")
    case True
    then obtain j k' where "inPhase j k' Runs s \<or> inPhase j k' Settled s" by blast
    then show ?thesis
    proof
      assume r: "inPhase j k' Runs s"
      then show ?thesis using lockStep.settles[OF r] others by blast
    next
      assume r: "inPhase j k' Settled s"
      moreover have "\<forall>l. l \<noteq> j \<longrightarrow> lk_tasks (finallyBlock k' j s) l = lk_tasks s l"
        by (cases k') (simp_all add: finallyBlock_def goTo_def)
      ultimately show ?thesis using lockStep.returns[OF r] by blast
    qed
  next
    case False
    note quiet = this
    show ?thesis
    proof (cases "\<exists>j ns. inPhase j Exclusive (Drains ns) s")
      case True
      then obtain j ns where d: "inPhase j Exclusive (Drains ns) s" by blast
      have "settled s l" if l: "l \<in> set ns" for l
      proof -
        obtain q where q: "inPhase l NonExclusive q s" "busy q \<or> q = Returned"
          using lock_invD(6)[OF inv d l] by blast
        then have "q = Returned" using quiet lock_invD(3)[OF inv, of l] by (auto simp: busy_def)
        then show ?thesis using q by (auto simp: settled_cases)
      qed
      then have "list_all (settled s) ns" by (simp add: list_all_iff)
      from lockStep.drained[OF d this] show ?thesis using d others by blast
    next
      case False
      have idle: "\<not> busy q" if "inPhase j Exclusive q s" for j q
        using that False quiet by (auto simp: busy_def)
      have "\<exists>j. p = Waits j"
        using assms(2,3) False quiet lock_invD(3)[OF inv, of i] by (cases p; cases k) auto
      then obtain j where w: "inPhase i k (Waits j) s" using assms(2) by blast
      then have "inPhase j Exclusive Returned s" using lock_invD(4)[OF inv w] idle by auto
      then have "settled s j" by (auto simp: settled_cases)
      moreover have "\<forall>l. l \<noteq> i \<longrightarrow> lk_tasks (runLocked k i s) l = lk_tasks s l"
        by (auto simp: runLocked_def runNonExclusive_def runExclusive_def goTo_def split: lock_kind.splits option.splits)
      ultimately show ?thesis using w lockStep.wakes[OF w] by blast
    qed
  qed
qed

end
