(* ===== verification/ForgerExamples.thy ===== *)
theory ForgerExamples
  imports NodeExamples PeerExamples ForgerTracker Builders Lock
begin

text \<open>
  A forger for the witnesses: one validator, whose signature is the hash followed by the private key,
  and the demo transfer with its identifier.
\<close>

definition demoSent :: txdata where
  "demoSent = withId demoTxEnv TransferTransaction demoSigned"

definition demoKeys :: key_pair where
  "demoKeys = \<lparr>kp_publicKey = demoKey, kp_privateKey = demoKey\<rparr>"

definition demoForgerValidator :: forger_validator where
  "demoForgerValidator = \<lparr>fv_keys = demoKeys, fv_address = demoAddress\<rparr>"

definition demoBlockEnv :: block_env where
  "demoBlockEnv = \<lparr>be_tx = demoTxEnv, be_validate = (\<lambda>_. (None, None))\<rparr>"

definition demoForgerVerifier :: verifier_env where
  "demoForgerVerifier = demoVerifier\<lparr>ve_fromHex := fromHexString, ve_sha256Hex := (\<lambda>bufs. hexOf (take 32 (concat bufs)))\<rparr>"

lemma demo_sent_class: "classOf demoTxEnv demoSent = TransferTransaction"
  using demo_class by (simp add: classOf_def demoSent_def withId_def)

lemma demo_sent_enc: "encTx demoTxEnv TransferTransaction demoSent = encTx demoTxEnv TransferTransaction demoSigned"
  by (simp add: demoSent_def withId_def encTx_def encCommon_def encVendor_def encSignature_def Let_def)

lemma demo_sent_withId: "withId demoTxEnv TransferTransaction demoSent = demoSent"
  by (simp add: withId_def demo_sent_enc) (simp add: demoSent_def withId_def)

lemma demo_sent_good: "goodTx demoTxEnv demoSent"
proof -
  have "tx_ok demoTxEnv TransferTransaction demoSent"
    using demo_tx_ok demo_sent_enc
    by (simp add: tx_ok_def demoSent_def withId_def common_ok_def vendor_ok_def signed_ok_def registered_def)
  moreover have "schemaAccepts demoTxEnv True demoSent" using demo_schema[of True] by (simp add: demoSent_def)
  ultimately show ?thesis
    using demo_enc_length by (simp add: goodTx_def demo_sent_class demo_sent_withId encTxData_def demo_sent_enc demo_class)
qed

lemma demo_sent_long: "32 \<le> length (encTx demoTxEnv TransferTransaction demoSigned)"
  by (simp add: encTx_def encCommon_def encVendor_def encSignature_def demoSigned_def hasVendorField_def Let_def)

lemma demo_sent_id: "tid demoSent = Some (hexOf (take 32 (encTx demoTxEnv TransferTransaction demoSigned)))"
  by (simp add: demoSent_def withId_def) (simp add: demoTxEnv_def)

lemma demo_signs:
  "\<exists>sig. te_sign demoTxEnv (te_sha256 demoTxEnv (padded bs)) (fromHexString demoKey) = Inr sig \<and>
    signature_ok SigSchnorr sig \<and> length (fromHexString sig) = 64"
proof -
  have "32 \<le> length (padded bs)" by (simp add: padded_def bufferSize_def)
  then have "length (take 32 (padded bs) @ replicate 32 7) = 64" by simp
  then show ?thesis
    by (intro exI[of _ "hexOf (take 32 (padded bs) @ replicate 32 7)"]) (simp add: demoTxEnv_def signature_ok_def hexOf_append[symmetric] del: hexOf_append)
qed

lemma demo_forgeable:
  "\<exists>sig. forgeable demoBlockEnv demoForgerValidator [demoSent] 1 (hexOf (replicate 32 1)) 0 108 sig"
proof -
  define d where "d = forgeHeader demoTxEnv demoKey [demoSent] (20, 10,
    [take 32 (encTx demoTxEnv TransferTransaction demoSigned)]) 1 (hexOf (replicate 32 1)) 0 108"
  obtain sig where sig: "te_sign demoTxEnv (te_sha256 demoTxEnv (padded (unsignedHeader d))) (fromHexString demoKey) = Inr sig"
      "signature_ok SigSchnorr sig" "length (fromHexString sig) = 64" using demo_signs by blast
  have enc: "length (encTxs demoTxEnv [demoSent]) < 1004"
    using demo_enc_length by (simp add: encTxs_def encBlob_def encTxData_def demo_sent_class demo_sent_enc demo_class)
  have "te_sha256 demoTxEnv bs = take 32 bs" for bs by (simp add: demoTxEnv_def)
  then have "header_ok demoTxEnv (signedHeader d sig)" "length (encHeader (signedHeader d sig)) < 1000"
    using sig demo_sent_long
    by (simp_all add: header_ok_def d_def signedHeader_def forgeHeader_def uint_ok_def te_publicKeySize_def encHeader_def)
  then have "block_ok demoTxEnv (signedHeader d sig) [demoSent]"
    using enc demo_sent_good by (simp add: block_ok_def bufferSize_def d_def signedHeader_def forgeHeader_def)
  moreover have "amount demoSent = 20" "fee demoSent = 10" by (simp_all add: demoSent_def withId_def demoSigned_def)
  ultimately have "forgeable demoBlockEnv demoForgerValidator [demoSent] 1 (hexOf (replicate 32 1)) 0 108 sig"
    using sig(1)
    by (simp add: forgeable_def Let_def demoBlockEnv_def demoForgerValidator_def demoKeys_def demo_sent_id signatureOf_def
        applySchema_def rebuilt_def demo_sent_class demo_sent_withId d_def)
  then show ?thesis ..
qed

lemma demo_sameHashes: "sameHashes demoForgerVerifier (be_tx demoBlockEnv)"
  by (simp add: sameHashes_def demoForgerVerifier_def demoBlockEnv_def) (simp add: demoTxEnv_def)

definition demoForgerEnv :: "(unit, unit, unit) forger_env" where
  "demoForgerEnv = \<lparr>fe_chain = demoChainEnv, fe_net = demoP2pEnv, fe_verdicts = demoVerdicts, fe_blocks = demoBlockEnv,
     fe_keys = (\<lambda>_. Inr demoKeys), fe_address = (\<lambda>_. Inr demoAddress), fe_unreachable = (\<lambda>_. False),
     fe_notReady = (\<lambda>_. False), fe_rejects = (\<lambda>_. None)\<rparr>"

definition demoForger :: "(unit, unit) forger" where
  "demoForger = \<lparr>fg_validators = [], fg_usernames = [], fg_stopped = False, fg_round = None, fg_initialized = False,
     fg_logReady = True, fg_timers = [], fg_events = [], fg_node = demoNode, fg_net = demoP2p\<rparr>"

lemma demo_forger [simp]: "fg_timers demoForger = []" "\<not> fg_stopped demoForger"
  by (simp_all add: demoForger_def)


text \<open>
  For the builders: a library whose signatures are the message and the key, and the packages' \<open>verify\<close> around it.
\<close>

definition demoSigLib :: sig_lib where
  "demoSigLib message sig key = Inr (sig = message @ key)"

definition demoSignEnv :: tx_env where
  "demoSignEnv = demoTxEnv\<lparr>te_verify := schnorr_verify demoSigLib\<rparr>"

definition demoBuilder :: tx_builder where
  "demoBuilder = snd (build_fee (Some 10) transferBuilder)"

lemma demo_builds: "\<exists>b. signWithKeyPair demoSignEnv (\<lambda>_. Inr demoAddress) demoKeys demoBuilder = (Inr (), b)"
proof -
  have "\<not> isl (fst (signWithKeyPair demoSignEnv (\<lambda>_. Inr demoAddress) demoKeys demoBuilder))" by code_simp
  then show ?thesis
    by (cases "signWithKeyPair demoSignEnv (\<lambda>_. Inr demoAddress) demoKeys demoBuilder")
      (metis fst_conv isl_def old.unit.exhaust sum.exhaust)
qed

lemma demo_builder_network: "network (bd_data demoBuilder) = None"
  by (simp add: demoBuilder_def build_fee_def transferBuilder_def initializeData_def blankTx_def)

text \<open>A lock with an exclusive task that runs and a non-exclusive one that was called after it.\<close>

definition demoLock :: lock where
  "demoLock = runNonExclusive 1 (goTo 0 Exclusive Runs (runExclusive 0 newLock))"

lemma demo_lock: "reachableLock demoLock" "inPhase 0 Exclusive Runs demoLock"
proof -
  have "reachableLock (runExclusive 0 newLock)"
    using reachableLock.onward[OF reachableLock.fresh lockStep.calls[of newLock 0 Exclusive]]
    by (simp add: runLocked_def newLock_def)
  moreover have "inPhase 0 Exclusive (Drains []) (runExclusive 0 newLock)"
    by (simp add: runExclusive_def newLock_def)
  ultimately have run: "reachableLock (goTo 0 Exclusive Runs (runExclusive 0 newLock))"
    using reachableLock.onward lockStep.drained by fastforce
  have "lk_tasks (goTo 0 Exclusive Runs (runExclusive 0 newLock)) 1 = None"
    by (simp add: goTo_def runExclusive_def newLock_def)
  from reachableLock.onward[OF run lockStep.calls[OF this, of NonExclusive]]
  show "reachableLock demoLock" by (simp add: demoLock_def runLocked_def)
  show "inPhase 0 Exclusive Runs demoLock"
    by (simp add: demoLock_def runNonExclusive_def runExclusive_def newLock_def)
qed

end
