(* ===== verification/PeerServer.thy ===== *)
theory PeerServer
  imports Forging
begin

text \<open>
  The server side of the peer-to-peer part (packages/core-p2p/source/server): the six controllers,
  the headers and configuration of a reply, the table of routes, and the queue of transactions to
  post of peer-communicator.ts. A controller is a program on the node; the body of a request is
  \<open>None\<close> when the request has none. The HTTP server itself is a library.
\<close>

section \<open>Requests and routes\<close>

record 'b request =
  rq_ip :: string
  rq_forwardedFor :: "string option"
  rq_body :: "'b option"

text \<open>\<open>getPeerIp\<close>: the first address of the header, without blanks around it.\<close>

definition isBlank :: "char \<Rightarrow> bool" where
  "isBlank c \<longleftrightarrow> c = CHR '' '' \<or> c = CHR 0x09 \<or> c = CHR 0x0A \<or> c = CHR 0x0B \<or> c = CHR 0x0C \<or> c = CHR 0x0D \<or> c = CHR 0xA0"

definition trimBlanks :: "string \<Rightarrow> string" where
  "trimBlanks s = rev (dropWhile isBlank (rev (dropWhile isBlank s)))"

definition getPeerIp :: "'b request \<Rightarrow> error + string" where
  "getPeerIp q = (case rq_forwardedFor q of None \<Rightarrow> Inl JsTypeError
     | Some s \<Rightarrow> Inr (trimBlanks (takeWhile (\<lambda>c. c \<noteq> CHR '','') s)))"

datatype http_method = HttpGet | HttpPost

text \<open>What the schema of a route asks of a field of its query string or body.\<close>

datatype field_rule = IntegerRange int "int option" | BooleanField | HexString | ListOf "nat option" nat

record route =
  rt_method :: http_method
  rt_path :: string
  rt_bodyLimit :: int
  rt_query :: "(string \<times> field_rule) list"
  rt_body :: "(string \<times> field_rule) list"

definition kilobyte :: int where "kilobyte = 1024"

definition defaultMaxPayload :: int where "defaultMaxPayload = 20 * 1024 ^ 2"

text \<open>\<open>#registerRoutes\<close>; \<open>n\<close> is the configured number of transactions in a request.\<close>

definition serverRoutes :: "nat \<Rightarrow> route list" where
  "serverRoutes n =
     [\<lparr>rt_method = HttpGet, rt_path = ''blocks'', rt_bodyLimit = kilobyte,
       rt_query = [(''blockLimit'', IntegerRange 1 (Some 400)), (''headersOnly'', BooleanField),
         (''lastBlockHeight'', IntegerRange 1 None), (''serialized'', BooleanField)], rt_body = []\<rparr>,
      \<lparr>rt_method = HttpPost, rt_path = ''blocks'', rt_bodyLimit = defaultMaxPayload, rt_query = [],
       rt_body = [(''block'', HexString)]\<rparr>,
      \<lparr>rt_method = HttpGet, rt_path = ''blocks/common'', rt_bodyLimit = 10 * kilobyte,
       rt_query = [(''ids'', ListOf (Some 1) 10)], rt_body = []\<rparr>,
      \<lparr>rt_method = HttpGet, rt_path = ''peers'', rt_bodyLimit = kilobyte, rt_query = [], rt_body = []\<rparr>,
      \<lparr>rt_method = HttpGet, rt_path = ''status'', rt_bodyLimit = kilobyte, rt_query = [], rt_body = []\<rparr>,
      \<lparr>rt_method = HttpPost, rt_path = ''transactions'', rt_bodyLimit = defaultMaxPayload, rt_query = [],
       rt_body = [(''transactions'', ListOf None n)]\<rparr>]"

text \<open>The table has one route for a method and a path.\<close>

definition routed :: "nat \<Rightarrow> http_method \<times> string \<Rightarrow> bool" where
  "routed n q \<longleftrightarrow> q \<in> set (map (\<lambda>r. (rt_method r, rt_path r)) (serverRoutes n))"

lemma routes_distinct: "distinct (map (\<lambda>r. (rt_method r, rt_path r)) (serverRoutes n))"
  by (simp add: serverRoutes_def)

text \<open>What the communicator of a peer sends.\<close>

definition clientRequests :: "(http_method \<times> string) list" where
  "clientRequests = [(HttpPost, ''blocks''), (HttpPost, ''transactions''), (HttpGet, ''status''), (HttpGet, ''peers''),
     (HttpPost, ''blocks/common''), (HttpGet, ''blocks'')]"

text \<open>The question for common blocks, and no other, reaches no route.\<close>

lemma common_blocks_unrouted: "filter (\<lambda>q. \<not> routed n q) clientRequests = [(HttpPost, ''blocks/common'')]"
  by (simp add: clientRequests_def routed_def serverRoutes_def)

section \<open>controllers/get-blocks.ts and get-common-blocks.ts\<close>

record blocks_query =
  gb_lastBlockHeight :: int
  gb_blockLimit :: "int option"

type_synonym downloaded_block = "blockdata \<times> byte list list"

text \<open>The transactions travel as hexadecimal strings, two characters a byte.\<close>

definition sizeEstimateOf :: "downloaded_block \<Rightarrow> int" where
  "sizeEstimateOf b = sum_list (map (\<lambda>bs. 2 * int (length bs)) (snd b))"

definition maxPayloadWithMargin :: int where
  "maxPayloadWithMargin = defaultMaxPayload - 100 * kilobyte"

fun blocksToReturn :: "int \<Rightarrow> downloaded_block list \<Rightarrow> downloaded_block list" where
  "blocksToReturn estimate [] = []"
| "blocksToReturn estimate (b # bs) =
     (if estimate < maxPayloadWithMargin then b # blocksToReturn (estimate + sizeEstimateOf b) bs else [])"

definition get_blocks :: "('h, 'w) chain_env \<Rightarrow> blocks_query request \<Rightarrow> ('w, downloaded_block list) bprog" where
  "get_blocks C q =
     andThen (defined JsTypeError (rq_body q)) (\<lambda>body.
     let from = gb_lastBlockHeight body + 1;
         limit = (if truthyNum (gb_blockLimit body) then the (gb_blockLimit body) else 400) in
     andThen (onNodeStore getLastHeight) (\<lambda>lastHeight.
     if from > lastHeight then ret []
     else andThen (\<lambda>s. (getBlocksForDownload (re_fromBytes (ce_round C)) from limit (rs_db (bn_round s)), s)) (\<lambda>bs.
       ret (blocksToReturn 0 bs))))"

definition missingCommonBlockError :: error where
  "missingCommonBlockError = PlainError ''Couldn't find any common blocks.''"

definition get_common_blocks :: "('h, 'w) chain_env \<Rightarrow> string list request \<Rightarrow> ('w, blockdata \<times> int) bprog" where
  "get_common_blocks C q =
     andThen (defined JsTypeError (rq_body q)) (\<lambda>ids.
     andThen (\<lambda>s. (findBlocksByIds (re_fromBytes (ce_round C)) ids (rs_db (bn_round s)), s)) (\<lambda>common.
     andThen (throwIf (common = []) missingCommonBlockError) (\<lambda>_.
     andThen node_getLastBlock (\<lambda>l.
     ret (last (sort_key height common), height (bdata l))))))"

section \<open>controllers/get-peers.ts and get-status.ts\<close>

text \<open>The comparison asserts both latencies; a list of one peer is not compared.\<close>

definition sortByLatency :: "peer list \<Rightarrow> error + peer list" where
  "sortByLatency ps =
     (if 2 \<le> length ps \<and> list_ex (\<lambda>p. pr_latency p = None) ps then Inl AssertionException
      else Inr (sort_key (\<lambda>p. case pr_latency p of None \<Rightarrow> 0 | Some t \<Rightarrow> t) ps))"

definition maxPeersGetPeers :: nat where "maxPeersGetPeers = 2000"

definition get_peers :: "'b request \<Rightarrow> 'x p2p \<Rightarrow> error + (string \<times> int) list" where
  "get_peers q s = (case getPeerIp q of Inl e \<Rightarrow> Inl e
     | Inr ip \<Rightarrow> (case sortByLatency (filter (\<lambda>p. pr_ip p \<noteq> ip \<and> pr_port p \<noteq> - 1) (map (pp_objs s) (getPeers s))) of
          Inl e \<Rightarrow> Inl e
        | Inr ps \<Rightarrow> Inr (map toBroadcast (take maxPeersGetPeers ps))))"

definition get_status :: "('h, 'w) chain_env \<Rightarrow> peer_config \<Rightarrow> ('w, peer_state \<times> peer_config) bprog" where
  "get_status C config =
     andThen node_getLastBlock (\<lambda>l.
     andThen (\<lambda>s. (getSlotInfo (slotsOf C s) None None, s)) (\<lambda>i.
     ret (\<lparr>ps_height = Some (height (bdata l)), ps_header = Some (bdata l), ps_currentSlot = Some (si_slotNumber i),
           ps_forgingAllowed = Some (si_forgingStatus i)\<rparr>, config)))"

section \<open>controllers/post-block.ts and post-transactions.ts\<close>

definition tooManyTransactionsError :: error where
  "tooManyTransactionsError = PlainError ''contained too many transactions''"

definition checkCount :: "blockdata \<Rightarrow> ('w, unit) bprog" where
  "checkCount d =
     andThen (reads (\<lambda>s. milestoneAt (theMilestones (bn_round s)) (currentHeight (st_config (storeOf s))))) (\<lambda>m.
     andThen (defined (CryptoError (InvalidMilestoneConfigurationError (height d))) m) (\<lambda>c.
     throwIf (exceeds (numberOfTransactions d) (m_maxTransactions c)) tooManyTransactionsError))"

text \<open>A block from another node: has it been seen, does it follow the chain (a promise, always truthy).\<close>

definition screenBlock :: "('h, 'w) chain_env \<Rightarrow> blockdata \<Rightarrow> ('w, bool option) bprog" where
  "screenBlock C d =
     andThen (onNodeStore (pingBlock (ce_nowMs C) d)) (\<lambda>seen.
     if seen then ret (Some True)
     else andThen node_getLastDownloadedBlock (\<lambda>l.
       andThen (reads (\<lambda>s. promiseIsTruthy (isBlockChained (slotsOf C s) l d))) (\<lambda>chained.
       ret (if chained then None else Some False))))"

definition post_block :: "('h, 'w) chain_env \<Rightarrow> 'x p2p_env \<Rightarrow> tx_env \<Rightarrow> byte list request \<Rightarrow> ('w, bool \<times> int) bprog" where
  "post_block C X V q =
     andThen (defined JsTypeError (rq_body q)) (\<lambda>bytes.
     andThen (liftE (block_deserialize V bytes True)) (\<lambda>(hdr, _, _).
     andThen (checkCount hdr) (\<lambda>_.
     andThen (liftE (block_deserialize V bytes False)) (\<lambda>(d, _, ts).
     let fromForger = isWhitelisted X (px_remoteAccess X) (rq_ip q) in
     andThen (if fromForger then ret None else screenBlock C d) (\<lambda>verdict.
     andThen (case verdict of None \<Rightarrow> handleIncomingBlock C (d, Some (map data ts)) fromForger | Some _ \<Rightarrow> ret ()) (\<lambda>_.
     andThen (onNodeStore getLastHeight) (\<lambda>h.
     ret (verdict \<noteq> Some False, h))))))))"

definition post_transactions :: "('h, 'w) chain_env \<Rightarrow> (transaction \<Rightarrow> bool) \<Rightarrow> item list request \<Rightarrow> ('w, string list) bprog" where
  "post_transactions C forward q =
     andThen (defined JsTypeError (rq_body q)) (\<lambda>items.
     withPool C (\<lambda>E p. case process E forward items p of (r, _, p') \<Rightarrow> (map_sum id pr_accept r, p')))"

section \<open>utils/get-headers.ts and get-peer-config.ts\<close>

record reply_headers =
  hd_version :: string
  hd_port :: int
  hd_height :: "int option"

definition getHeaders :: "'x p2p_env \<Rightarrow> ('w, reply_headers) bprog" where
  "getHeaders X =
     andThen (reads (\<lambda>s. st_started (storeOf s))) (\<lambda>started.
     andThen (if started then andThen (onNodeStore getLastHeight) (\<lambda>h. ret (Some h)) else ret None) (\<lambda>h.
     ret \<lparr>hd_version = px_appVersion X, hd_port = px_serverPort X, hd_height = h\<rparr>))"

text \<open>
  The options of a plugin: the ports of its http and https servers (\<open>None\<close> for no such server; an
  inner \<open>None\<close> for a port that is no number), and its flag when that is a boolean.
\<close>

record plugin_options =
  po_http :: "int option option"
  po_https :: "int option option"
  po_enabled :: "bool option"

record peer_plugin =
  pl_enabled :: bool
  pl_port :: int

definition pluginPort :: "plugin_options \<Rightarrow> int option" where
  "pluginPort p = (case po_http p of Some n \<Rightarrow> n | None \<Rightarrow> (case po_https p of Some n \<Rightarrow> n | None \<Rightarrow> None))"

definition contains :: "string \<Rightarrow> string \<Rightarrow> bool" where
  "contains part s \<longleftrightarrow> part \<in> set (map (\<lambda>i. take (length part) (drop i s)) [0..<length s + 1])"

fun transformPlugins :: "(string \<times> plugin_options) list \<Rightarrow> (string, peer_plugin) jsmap \<Rightarrow> (string, peer_plugin) jsmap" where
  "transformPlugins [] result = result"
| "transformPlugins ((name, opts) # ps) result =
     (case pluginPort opts of
        None \<Rightarrow> transformPlugins ps result
      | Some port \<Rightarrow>
          if contains ''core-p2p'' name then transformPlugins ps result
          else transformPlugins ps (jm_set name
            \<lparr>pl_enabled = (case po_enabled opts of None \<Rightarrow> True | Some b \<Rightarrow> b), pl_port = port\<rparr> result))"

section \<open>The queue of transactions to post (peer-communicator.ts)\<close>

type_synonym post_queues = "(string, byte list list queue) jsmap"

definition queueFor :: "post_queues \<Rightarrow> string \<Rightarrow> byte list list queue" where
  "queueFor m ip = (case jm_get m ip of None \<Rightarrow> newQueue | Some q \<Rightarrow> q)"

definition postTransactions :: "string \<Rightarrow> byte list list \<Rightarrow> post_queues \<Rightarrow> post_queues" where
  "postTransactions ip txs m = jm_set ip (fst (q_push txs (fst (q_resume (queueFor m ip))))) m"

definition forgetQueue :: "string \<Rightarrow> post_queues \<Rightarrow> post_queues" where
  "forgetQueue ip m = jm_delete ip m"

text \<open>The running job: the request, whose failure the queue swallows, and the pause after it.\<close>

definition postTransactionsJob :: "'x p2p_env \<Rightarrow> (string list reply \<Rightarrow> bool) \<Rightarrow> int \<Rightarrow>
    (peer \<Rightarrow> byte list list \<Rightarrow> ('x, error, string list reply) prog) \<Rightarrow> nat \<Rightarrow> byte list list \<Rightarrow> ('x, unit) p2prog" where
  "postTransactionsJob X verdict rate request r txs =
     andThen (sendRequest X r ''transactions'' verdict (\<lambda>p. request p txs)) (\<lambda>_.
     inWorld (px_delay X (ceilDiv 1000 rate)))"

section \<open>What the controllers answer\<close>

text \<open>A prefix of the blocks, at least one when there is any, and small but for the last block.\<close>

lemma blocksToReturn_prefix: "\<exists>rest. bs = blocksToReturn e bs @ rest"
  by (induction e bs rule: blocksToReturn.induct) auto

lemma blocksToReturn_progress: "bs \<noteq> [] \<Longrightarrow> blocksToReturn 0 bs \<noteq> []"
  by (cases bs) (simp_all add: maxPayloadWithMargin_def defaultMaxPayload_def kilobyte_def)

lemma blocksToReturn_size:
  "blocksToReturn e bs \<noteq> [] \<Longrightarrow> e + sum_list (map sizeEstimateOf (butlast (blocksToReturn e bs))) < maxPayloadWithMargin"
proof (induction e bs rule: blocksToReturn.induct)
  case (2 e b bs)
  then have e: "e < maxPayloadWithMargin" by (simp split: if_splits)
  show ?case
  proof (cases "blocksToReturn (e + sizeEstimateOf b) bs = []")
    case False
    then show ?thesis using "2.IH"[OF e False] e by simp
  qed (use e in simp)
qed simp

lemma get_blocks_prefix:
  assumes "get_blocks C q s = (Inr xs, s')" and "xs \<noteq> []"
  shows "\<exists>body bs rest. rq_body q = Some body \<and> bs = xs @ rest \<and>
    getBlocksForDownload (re_fromBytes (ce_round C)) (gb_lastBlockHeight body + 1)
      (if truthyNum (gb_blockLimit body) then the (gb_blockLimit body) else 400) (rs_db (bn_round s')) = Inr bs"
proof -
  obtain body where body: "rq_body q = Some body"
    using assms by (cases "rq_body q") (auto simp: get_blocks_def andThen_def defined_def throw_def)
  let ?from = "gb_lastBlockHeight body + 1"
  let ?limit = "if truthyNum (gb_blockLimit body) then the (gb_blockLimit body) else 400"
  obtain h s1 where h: "onNodeStore getLastHeight s = (Inr h, s1)" "\<not> ?from > h"
    using assms body by (auto simp: get_blocks_def andThen_def defined_def Let_def split: prod.splits sum.splits if_splits)
  then obtain bs where bs: "getBlocksForDownload (re_fromBytes (ce_round C)) ?from ?limit (rs_db (bn_round s1)) = Inr bs"
      "xs = blocksToReturn 0 bs" "s' = s1"
    using assms body
    by (cases "getBlocksForDownload (re_fromBytes (ce_round C)) ?from ?limit (rs_db (bn_round s1))")
      (auto simp: get_blocks_def andThen_def defined_def Let_def)
  then show ?thesis using body blocksToReturn_prefix[of bs 0] by metis
qed

text \<open>Of the blocks that are known, the one of the greatest height is the answer.\<close>

lemma last_sort_key:
  assumes "xs \<noteq> []" shows "last (sort_key f xs) \<in> set xs \<and> (\<forall>x \<in> set xs. f x \<le> f (last (sort_key f xs)))"
proof -
  have ne: "sort_key f xs \<noteq> []" using assms by (metis set_empty set_sort)
  have split: "sort_key f xs = butlast (sort_key f xs) @ [last (sort_key f xs)]" using ne by simp
  have "sorted (map f (butlast (sort_key f xs) @ [last (sort_key f xs)]))" using sorted_sort_key[of f xs] split by simp
  then have "\<forall>x \<in> set (butlast (sort_key f xs)). f x \<le> f (last (sort_key f xs))" by (auto simp: sorted_append)
  moreover have "set xs = insert (last (sort_key f xs)) (set (butlast (sort_key f xs)))"
    using split by (metis Un_insert_right list.set(2) set_append set_sort sup_bot_right list.set(1))
  ultimately show ?thesis by auto
qed

lemma get_common_blocks_highest:
  assumes "get_common_blocks C q s = (Inr (d, h), s')"
  shows "\<exists>ids ds. rq_body q = Some ids \<and> findBlocksByIds (re_fromBytes (ce_round C)) ids (rs_db (bn_round s)) = Inr ds \<and>
    d \<in> set ds \<and> (\<forall>e \<in> set ds. height e \<le> height d)"
proof -
  obtain ids where ids: "rq_body q = Some ids"
    using assms by (cases "rq_body q") (auto simp: get_common_blocks_def andThen_def defined_def throw_def)
  obtain ds where ds: "findBlocksByIds (re_fromBytes (ce_round C)) ids (rs_db (bn_round s)) = Inr ds"
    using assms ids
    by (cases "findBlocksByIds (re_fromBytes (ce_round C)) ids (rs_db (bn_round s))")
      (auto simp: get_common_blocks_def andThen_def defined_def)
  then have "ds \<noteq> [] \<and> d = last (sort_key height ds)"
    using assms ids
    by (cases "ds = []") (auto simp: get_common_blocks_def andThen_def defined_def throwIf_def throw_def split: prod.splits sum.splits)
  then show ?thesis using ids ds last_sort_key[of ds height] by auto
qed

text \<open>The peers listed: verified elsewhere, not the one asking, the quickest first.\<close>

lemma get_peers_others:
  assumes "get_peers q s = Inr xs" and "getPeerIp q = Inr ip"
  shows "ip \<notin> fst ` set xs \<and> length xs \<le> 2000"
  using assms
  by (auto simp: get_peers_def sortByLatency_def toBroadcast_def maxPeersGetPeers_def split: sum.splits if_splits
      dest!: in_set_takeD)

text \<open>
  A posted block is never refused for not following the chain: the check is a promise. Whenever the
  controller answers, the answer is that the block was taken.
\<close>

lemma screenBlock_never_refuses: "screenBlock C d s = (Inr r, s') \<Longrightarrow> r \<noteq> Some False"
  by (auto simp: screenBlock_def andThen_def promiseIsTruthy_def split: prod.splits sum.splits if_splits)

lemma post_block_status:
  assumes "post_block C X V q s = (Inr (status, h), s')" shows "status"
proof -
  have "verdict \<noteq> Some False" if "(if b then ret None else screenBlock C d) t = (Inr verdict, t')" for b verdict d t t'
    using that screenBlock_never_refuses[of C d t verdict t'] by (auto split: if_splits)
  then show ?thesis
    using assms by (fastforce simp: post_block_def andThen_def Let_def split: prod.splits sum.splits)
qed

text \<open>Transactions for a peer wait in its queue, in the order they were handed over.\<close>

lemma postTransactions_queue:
  "outstanding (queueFor (postTransactions ip txs m) ip) = outstanding (queueFor m ip) @ [txs]"
  "ip' \<noteq> ip \<Longrightarrow> queueFor (postTransactions ip txs m) ip' = queueFor m ip'"
  by (simp_all add: postTransactions_def queueFor_def outstanding_push outstanding_resume)

end
