(* ===== verification/KernelServices.thy ===== *)
theory KernelServices
  imports Prelude
begin

text \<open>
  Services of packages/core-kernel/source/services: the event dispatcher, the cache in memory, triggers
  with their actions, pipelines and jobs that run every so many blocks. An error of a listener is
  its message. Matching of event names is third-party and a parameter; the listeners of one event run one after the other, in their order.
\<close>

section \<open>Event dispatcher (events/drivers/memory.ts)\<close>

text \<open>A \<open>OnceListener\<close> is an object of its own, made for one call of \<open>listenOnce\<close>.\<close>

datatype 'l event_listener = Plain 'l | OnceListener nat "'l event_listener"

record ('l, 'w) dispatcher =
  ds_listeners :: "(string, 'l event_listener list) jsmap"
  ds_next :: nat
  ds_world :: 'w

record ('l, 'd, 'w) dispatch_env =
  de_matches :: "string list \<Rightarrow> string \<Rightarrow> string list"
  de_handle :: "'l \<Rightarrow> string \<Rightarrow> 'd \<Rightarrow> ('w, string, unit) prog"

text \<open>Looking a name up adds an empty set for it.\<close>

definition getListenersByEvent :: "string \<Rightarrow> (('l, 'w) dispatcher, string, 'l event_listener list) prog" where
  "getListenersByEvent n =
     andThen (modify (\<lambda>s. if jm_has (ds_listeners s) n then s else s\<lparr>ds_listeners := jm_set n [] (ds_listeners s)\<rparr>)) (\<lambda>_.
     reads (\<lambda>s. case jm_get (ds_listeners s) n of None \<Rightarrow> [] | Some ls \<Rightarrow> ls))"

definition listen :: "string \<Rightarrow> 'l event_listener \<Rightarrow> (('l, 'w) dispatcher, string, unit) prog" where
  "listen n l = andThen (getListenersByEvent n) (\<lambda>ls.
     modify (\<lambda>s. s\<lparr>ds_listeners := jm_set n (js_add l ls) (ds_listeners s)\<rparr>))"

definition listenMany :: "(string \<times> 'l event_listener) list \<Rightarrow> (('l, 'w) dispatcher, string, unit) prog" where
  "listenMany = forEach (\<lambda>(n, l). listen n l)"

definition listenOnce :: "string \<Rightarrow> 'l event_listener \<Rightarrow> (('l, 'w) dispatcher, string, unit) prog" where
  "listenOnce n l = andThen (listen n l) (\<lambda>_.
     andThen (reads ds_next) (\<lambda>i.
     andThen (modify (\<lambda>s. s\<lparr>ds_next := i + 1\<rparr>)) (\<lambda>_.
     listen n (OnceListener i l))))"

text \<open>\<open>forget\<close> with a listener, and of a whole event; the results say whether there was one.\<close>

definition forgetListener :: "string \<Rightarrow> 'l event_listener \<Rightarrow> (('l, 'w) dispatcher, string, bool) prog" where
  "forgetListener n l =
     (if n = '''' then andThen (reads (\<lambda>s. jm_has (ds_listeners s) n)) (\<lambda>there.
        andThen (modify (\<lambda>s. s\<lparr>ds_listeners := jm_delete n (ds_listeners s)\<rparr>)) (\<lambda>_. ret there))
      else andThen (getListenersByEvent n) (\<lambda>ls.
        andThen (modify (\<lambda>s. s\<lparr>ds_listeners := jm_set n (js_delete l ls) (ds_listeners s)\<rparr>)) (\<lambda>_.
        ret (l \<in> set ls))))"

definition forgetEvent :: "string \<Rightarrow> (('l, 'w) dispatcher, string, bool) prog" where
  "forgetEvent n = andThen (reads (\<lambda>s. jm_has (ds_listeners s) n)) (\<lambda>there.
     andThen (modify (\<lambda>s. s\<lparr>ds_listeners := jm_delete n (ds_listeners s)\<rparr>)) (\<lambda>_. ret there))"

definition forgetMany :: "(string \<times> 'l event_listener option) list \<Rightarrow> (('l, 'w) dispatcher, string, unit) prog" where
  "forgetMany = forEach (\<lambda>(n, l). andThen (case l of None \<Rightarrow> forgetEvent n | Some x \<Rightarrow> forgetListener n x) (\<lambda>_. ret ()))"

definition flushListeners :: "(('l, 'w) dispatcher, string, unit) prog" where
  "flushListeners = modify (\<lambda>s. s\<lparr>ds_listeners := []\<rparr>)"

text \<open>Those that listen to everything come first.\<close>

definition getListenersByPattern ::
    "('l, 'd, 'w) dispatch_env \<Rightarrow> string \<Rightarrow> (('l, 'w) dispatcher, string, 'l event_listener list) prog" where
  "getListenersByPattern D n = reads (\<lambda>s.
     let m = ds_listeners s; at = (\<lambda>k. case jm_get m k of None \<Rightarrow> [] | Some ls \<Rightarrow> ls)
     in (if jm_has m ''*'' then at ''*'' else []) @ concat (map at (de_matches D (jm_keys m) n)))"

definition getListeners :: "('l, 'd, 'w) dispatch_env \<Rightarrow> string option \<Rightarrow>
    (('l, 'w) dispatcher, string, 'l event_listener list) prog" where
  "getListeners D n = getListenersByPattern D (case n of None \<Rightarrow> ''*'' | Some m \<Rightarrow> if m = '''' then ''*'' else m)"

definition hasListeners :: "('l, 'd, 'w) dispatch_env \<Rightarrow> string \<Rightarrow> (('l, 'w) dispatcher, string, bool) prog" where
  "hasListeners D n = andThen (getListenersByPattern D n) (\<lambda>ls. ret (ls \<noteq> []))"

definition countListeners :: "('l, 'd, 'w) dispatch_env \<Rightarrow> string option \<Rightarrow> (('l, 'w) dispatcher, string, nat) prog" where
  "countListeners D n =
     (if n \<noteq> None \<and> n \<noteq> Some '''' then andThen (getListenersByPattern D (the n)) (\<lambda>ls. ret (length ls))
      else reads (\<lambda>s. sum_list (map length (jm_values (ds_listeners s)))))"

fun handleListener :: "('l, 'd, 'w) dispatch_env \<Rightarrow> string \<Rightarrow> 'd \<Rightarrow> 'l event_listener \<Rightarrow> (('l, 'w) dispatcher, string, unit) prog" where
  "handleListener D n d (Plain l) = within ds_world (\<lambda>w s. s\<lparr>ds_world := w\<rparr>) (de_handle D l n d)"
| "handleListener D n d (OnceListener i l) = andThen (forgetListener n l) (\<lambda>_. ret ())"

text \<open>\<open>dispatchSeq\<close>: the first error ends it.\<close>

definition dispatchSeq :: "('l, 'd, 'w) dispatch_env \<Rightarrow> string \<Rightarrow> 'd \<Rightarrow> (('l, 'w) dispatcher, string, unit) prog" where
  "dispatchSeq D n d = andThen (getListenersByPattern D n) (forEach (handleListener D n d))"

definition dispatchManySeq :: "('l, 'd, 'w) dispatch_env \<Rightarrow> (string \<times> 'd) list \<Rightarrow> (('l, 'w) dispatcher, string, unit) prog" where
  "dispatchManySeq D = forEach (\<lambda>(n, d). dispatchSeq D n d)"

section \<open>Cache (cache/drivers/memory.ts)\<close>

datatype ('k, 'v) cache_event =
    CacheHit 'k 'v
  | CacheMissed 'k
  | CacheWritten 'k 'v "int option"
  | CacheForgotten 'k
  | CacheFlushed

record ('k, 'v) cache =
  ca_store :: "('k, 'v) jsmap"
  ca_events :: "('k, 'v) cache_event list"

datatype cache_error = NotImplemented

type_synonym ('k, 'v, 'a) cprog = "(('k, 'v) cache, cache_error, 'a) prog"

definition cacheEvent :: "('k, 'v) cache_event \<Rightarrow> ('k, 'v, unit) cprog" where
  "cacheEvent e = modify (\<lambda>s. s\<lparr>ca_events := ca_events s @ [e]\<rparr>)"

definition cache_has :: "'k \<Rightarrow> ('k, 'v, bool) cprog" where
  "cache_has k = reads (\<lambda>s. jm_has (ca_store s) k)"

definition cache_missing :: "'k \<Rightarrow> ('k, 'v, bool) cprog" where
  "cache_missing k = reads (\<lambda>s. \<not> jm_has (ca_store s) k)"

definition cache_all :: "('k, 'v, ('k \<times> 'v) list) cprog" where
  "cache_all = reads ca_store"

definition cache_keys :: "('k, 'v, 'k list) cprog" where
  "cache_keys = reads (\<lambda>s. jm_keys (ca_store s))"

definition cache_values :: "('k, 'v, 'v list) cprog" where
  "cache_values = reads (\<lambda>s. jm_values (ca_store s))"

text \<open>\<open>truthy\<close> is JavaScript's truth of a value: a stored value that is falsy is reported as missed.\<close>

definition cache_get :: "('v \<Rightarrow> bool) \<Rightarrow> 'k \<Rightarrow> ('k, 'v, 'v option) cprog" where
  "cache_get truthy k =
     andThen (reads (\<lambda>s. jm_get (ca_store s) k)) (\<lambda>v.
     andThen (cacheEvent (case v of Some x \<Rightarrow> if truthy x then CacheHit k x else CacheMissed k | None \<Rightarrow> CacheMissed k)) (\<lambda>_.
     ret v))"

definition cache_getMany :: "'k list \<Rightarrow> ('k, 'v, 'v option list) cprog" where
  "cache_getMany ks = reads (\<lambda>s. map (jm_get (ca_store s)) ks)"

definition cache_put :: "'k \<Rightarrow> 'v \<Rightarrow> int option \<Rightarrow> ('k, 'v, bool) cprog" where
  "cache_put k v seconds =
     andThen (modify (\<lambda>s. s\<lparr>ca_store := jm_set k v (ca_store s)\<rparr>)) (\<lambda>_.
     andThen (cacheEvent (CacheWritten k v seconds)) (\<lambda>_. cache_has k))"

fun mapProg :: "('a \<Rightarrow> ('s, 'e, 'b) prog) \<Rightarrow> 'a list \<Rightarrow> ('s, 'e, 'b list) prog" where
  "mapProg f [] = ret []"
| "mapProg f (x # xs) = andThen (f x) (\<lambda>y. andThen (mapProg f xs) (\<lambda>ys. ret (y # ys)))"

text \<open>The time to live is not passed on.\<close>

definition cache_putMany :: "('k \<times> 'v) list \<Rightarrow> int option \<Rightarrow> ('k, 'v, bool list) cprog" where
  "cache_putMany kvs seconds = mapProg (\<lambda>(k, v). cache_put k v None) kvs"

definition cache_hasMany :: "'k list \<Rightarrow> ('k, 'v, bool list) cprog" where
  "cache_hasMany = mapProg cache_has"

definition cache_missingMany :: "'k list \<Rightarrow> ('k, 'v, bool list) cprog" where
  "cache_missingMany = mapProg cache_missing"

definition cache_forget :: "'k \<Rightarrow> ('k, 'v, bool) cprog" where
  "cache_forget k =
     andThen (modify (\<lambda>s. s\<lparr>ca_store := jm_delete k (ca_store s)\<rparr>)) (\<lambda>_.
     andThen (cacheEvent (CacheForgotten k)) (\<lambda>_. cache_missing k))"

definition cache_forgetMany :: "'k list \<Rightarrow> ('k, 'v, bool list) cprog" where
  "cache_forgetMany = mapProg cache_forget"

definition cache_flush :: "('k, 'v, bool) cprog" where
  "cache_flush =
     andThen (modify (\<lambda>s. s\<lparr>ca_store := []\<rparr>)) (\<lambda>_.
     andThen (cacheEvent CacheFlushed) (\<lambda>_. reads (\<lambda>s. ca_store s = [])))"

definition cache_forever :: "'k \<Rightarrow> 'v \<Rightarrow> ('k, 'v, bool) cprog" where
  "cache_forever k v = throw NotImplemented"

definition cache_foreverMany :: "('k \<times> 'v) list \<Rightarrow> ('k, 'v, bool list) cprog" where
  "cache_foreverMany kvs = throw NotImplemented"

definition cache_getPrefix :: "('k, 'v, string) cprog" where
  "cache_getPrefix = throw NotImplemented"

section \<open>Dispatching at once\<close>

text \<open>\<open>Promise.all\<close>: every listener runs, and the first of their errors is thrown.\<close>

fun runAll :: "('a \<Rightarrow> ('s, 'e, unit) prog) \<Rightarrow> 'a list \<Rightarrow> ('s, 'e, unit) prog" where
  "runAll f [] = ret ()"
| "runAll f (x # xs) = (\<lambda>s. case f x s of
     (Inr _, s') \<Rightarrow> runAll f xs s'
   | (Inl e, s') \<Rightarrow> (Inl e, snd (runAll f xs s')))"

lemma keeps_runAll [keeps_intros]: "(\<And>x. keeps P (f x)) \<Longrightarrow> keeps P (runAll f xs)"
proof (induction xs)
  case (Cons x xs)
  show ?case
  proof (rule keepsI)
    fix s assume "P s"
    obtain r t where run: "f x s = (r, t)" by fastforce
    then have "P t" using Cons.prems \<open>P s\<close> by (blast intro: keepsD)
    then show "P (snd (runAll f (x # xs) s))"
      using Cons run by (cases r) (simp_all add: keeps_def)
  qed
qed (simp add: keeps_ret)

definition dispatch :: "('l, 'd, 'w) dispatch_env \<Rightarrow> string \<Rightarrow> 'd \<Rightarrow> (('l, 'w) dispatcher, string, unit) prog" where
  "dispatch D n d = andThen (getListenersByPattern D n) (runAll (handleListener D n d))"

definition dispatchMany :: "('l, 'd, 'w) dispatch_env \<Rightarrow> (string \<times> 'd) list \<Rightarrow> (('l, 'w) dispatcher, string, unit) prog" where
  "dispatchMany D = runAll (\<lambda>(n, d). dispatch D n d)"

section \<open>Triggers and actions (triggers/triggers.ts, triggers/action.ts)\<close>

text \<open>An action has sets of hooks, named here by identifiers; hooks and the action act on a world.\<close>

datatype 'x trigger_error = InvalidArgumentException | Raised 'x

record ('f, 'a, 'r, 'x, 'w) action =
  ac_before :: "'f list"
  ac_after :: "'f list"
  ac_error :: "'f list"
  ac_execute :: "'a \<Rightarrow> ('w, 'x trigger_error, 'r) prog"

record ('f, 'a, 'r, 'x, 'w) hook_env =
  hk_before :: "'f \<Rightarrow> 'a \<Rightarrow> ('w, 'x trigger_error, unit) prog"
  hk_after :: "'f \<Rightarrow> 'a \<Rightarrow> 'r \<Rightarrow> ('w, 'x trigger_error, unit) prog"
  hk_error :: "'f \<Rightarrow> 'a \<Rightarrow> 'r option \<Rightarrow> 'x trigger_error \<Rightarrow> string \<Rightarrow> ('w, 'x trigger_error, unit) prog"

record ('f, 'a, 'r, 'x, 'w) triggers =
  tg_actions :: "(string, ('f, 'a, 'r, 'x, 'w) action) jsmap"
  tg_world :: 'w

type_synonym ('f, 'a, 'r, 'x, 'w, 'b) tprog = "(('f, 'a, 'r, 'x, 'w) triggers, 'x trigger_error, 'b) prog"

definition hookBefore :: "'f \<Rightarrow> ('f, 'a, 'r, 'x, 'w) action \<Rightarrow> ('f, 'a, 'r, 'x, 'w) action" where
  "hookBefore f a = a\<lparr>ac_before := js_add f (ac_before a)\<rparr>"

definition hookAfter :: "'f \<Rightarrow> ('f, 'a, 'r, 'x, 'w) action \<Rightarrow> ('f, 'a, 'r, 'x, 'w) action" where
  "hookAfter f a = a\<lparr>ac_after := js_add f (ac_after a)\<rparr>"

definition hookError :: "'f \<Rightarrow> ('f, 'a, 'r, 'x, 'w) action \<Rightarrow> ('f, 'a, 'r, 'x, 'w) action" where
  "hookError f a = a\<lparr>ac_error := js_add f (ac_error a)\<rparr>"

definition usesReservedBindingName :: "string \<Rightarrow> bool" where
  "usesReservedBindingName n \<longleftrightarrow> take 9 n = ''internal.''"

definition trigger_bind :: "string \<Rightarrow> ('f, 'a, 'r, 'x, 'w) action \<Rightarrow> ('f, 'a, 'r, 'x, 'w, ('f, 'a, 'r, 'x, 'w) action) tprog" where
  "trigger_bind n a =
     andThen (reads (\<lambda>s. jm_has (tg_actions s) n)) (\<lambda>there.
     andThen (throwIf there InvalidArgumentException) (\<lambda>_.
     andThen (throwIf (usesReservedBindingName n) InvalidArgumentException) (\<lambda>_.
     andThen (modify (\<lambda>s. s\<lparr>tg_actions := jm_set n a (tg_actions s)\<rparr>)) (\<lambda>_. ret a))))"

definition trigger_unbind :: "string \<Rightarrow> ('f, 'a, 'r, 'x, 'w, ('f, 'a, 'r, 'x, 'w) action) tprog" where
  "trigger_unbind n =
     andThen (reads (\<lambda>s. jm_get (tg_actions s) n)) (\<lambda>t.
     andThen (defined InvalidArgumentException t) (\<lambda>a.
     andThen (modify (\<lambda>s. s\<lparr>tg_actions := jm_delete n (tg_actions s)\<rparr>)) (\<lambda>_. ret a)))"

definition trigger_rebind :: "string \<Rightarrow> ('f, 'a, 'r, 'x, 'w) action \<Rightarrow> ('f, 'a, 'r, 'x, 'w, ('f, 'a, 'r, 'x, 'w) action) tprog" where
  "trigger_rebind n a = andThen (trigger_unbind n) (\<lambda>_. trigger_bind n a)"

definition trigger_get :: "string \<Rightarrow> ('f, 'a, 'r, 'x, 'w, ('f, 'a, 'r, 'x, 'w) action) tprog" where
  "trigger_get n = andThen (reads (\<lambda>s. jm_get (tg_actions s) n)) (defined InvalidArgumentException)"

abbreviation onHooks :: "('w, 'x trigger_error, 'b) prog \<Rightarrow> ('f, 'a, 'r, 'x, 'w, 'b) tprog" where
  "onHooks \<equiv> within tg_world (\<lambda>w s. s\<lparr>tg_world := w\<rparr>)"

definition callErrorHooks :: "('f, 'a, 'r, 'x, 'w) hook_env \<Rightarrow> string \<Rightarrow> 'a \<Rightarrow> 'r option \<Rightarrow> 'x trigger_error \<Rightarrow> string \<Rightarrow>
    ('f, 'a, 'r, 'x, 'w, 'r option) tprog" where
  "callErrorHooks H n args r e stage =
     andThen (trigger_get n) (\<lambda>a.
     if ac_error a = [] then throw e
     else andThen (forEach (\<lambda>f. onHooks (hk_error H f args r e stage)) (ac_error a)) (\<lambda>_. ret r))"

definition trigger_call :: "('f, 'a, 'r, 'x, 'w) hook_env \<Rightarrow> string \<Rightarrow> 'a \<Rightarrow> ('f, 'a, 'r, 'x, 'w, 'r option) tprog" where
  "trigger_call H n args =
     andThen (trigger_get n) (\<lambda>a s.
     case forEach (\<lambda>f. onHooks (hk_before H f args)) (ac_before a) s of
       (Inl e, s1) \<Rightarrow> callErrorHooks H n args None e ''before'' s1
     | (Inr _, s1) \<Rightarrow> (case onHooks (ac_execute a args) s1 of
         (Inl e, s2) \<Rightarrow> callErrorHooks H n args None e ''execute'' s2
       | (Inr r, s2) \<Rightarrow> (case forEach (\<lambda>f. onHooks (hk_after H f args r)) (ac_after a) s2 of
           (Inl e, s3) \<Rightarrow> callErrorHooks H n args (Some r) e ''after'' s3
         | (Inr _, s3) \<Rightarrow> (Inr (Some r), s3))))"

section \<open>Pipelines (pipeline/drivers/memory.ts)\<close>

type_synonym ('s, 'e, 'a) pipeline = "('a \<Rightarrow> ('s, 'e, 'a) prog) list"

definition pipe :: "('a \<Rightarrow> ('s, 'e, 'a) prog) \<Rightarrow> ('s, 'e, 'a) pipeline \<Rightarrow> ('s, 'e, 'a) pipeline" where
  "pipe stage p = p @ [stage]"

fun pipeline_process :: "('s, 'e, 'a) pipeline \<Rightarrow> 'a \<Rightarrow> ('s, 'e, 'a) prog" where
  "pipeline_process [] x = ret x"
| "pipeline_process (f # fs) x = andThen (f x) (pipeline_process fs)"

section \<open>Jobs by block (schedule/block-job.ts, schedule/listeners.ts)\<close>

text \<open>A remainder by zero is \<open>NaN\<close>, which equals nothing.\<close>

definition whenReady :: "int \<Rightarrow> int \<Rightarrow> bool" where
  "whenReady n h \<longleftrightarrow> n \<noteq> 0 \<and> h mod n = 0"

record 'c block_job =
  bj_blockCount :: int
  bj_waiting :: "(int \<times> 'c) list"

definition newBlockJob :: "'c block_job" where
  "newBlockJob = \<lparr>bj_blockCount = 1, bj_waiting = []\<rparr>"

definition job_cron :: "int \<Rightarrow> 'c block_job \<Rightarrow> 'c block_job" where
  "job_cron n j = j\<lparr>bj_blockCount := n\<rparr>"

definition job_everyBlock :: "'c block_job \<Rightarrow> 'c block_job" where
  "job_everyBlock = job_cron 1"

definition job_everyFiveBlocks :: "'c block_job \<Rightarrow> 'c block_job" where
  "job_everyFiveBlocks = job_cron 5"

definition job_everyTenBlocks :: "'c block_job \<Rightarrow> 'c block_job" where
  "job_everyTenBlocks = job_cron 10"

definition job_everyFifteenBlocks :: "'c block_job \<Rightarrow> 'c block_job" where
  "job_everyFifteenBlocks = job_cron 15"

definition job_everyThirtyBlocks :: "'c block_job \<Rightarrow> 'c block_job" where
  "job_everyThirtyBlocks = job_cron 30"

definition job_everyRound :: "int \<Rightarrow> 'c block_job \<Rightarrow> 'c block_job" where
  "job_everyRound activeValidators = job_cron activeValidators"

definition job_execute :: "'c \<Rightarrow> 'c block_job \<Rightarrow> 'c block_job" where
  "job_execute callback j = j\<lparr>bj_waiting := bj_waiting j @ [(bj_blockCount j, callback)]\<rparr>"

text \<open>A block is received: the callbacks whose turn it is, in the order they were given.\<close>

definition job_received :: "int \<Rightarrow> 'c block_job \<Rightarrow> 'c list" where
  "job_received h j = map snd (filter (\<lambda>(n, c). whenReady n h) (bj_waiting j))"

section \<open>Properties\<close>

lemma getListenersByEvent_run:
  "getListenersByEvent n s = (Inr (case jm_get (ds_listeners s) n of None \<Rightarrow> [] | Some ls \<Rightarrow> ls),
    if jm_has (ds_listeners s) n then s else s\<lparr>ds_listeners := jm_set n [] (ds_listeners s)\<rparr>)"
  by (auto simp: getListenersByEvent_def jm_has_def split: option.splits)

text \<open>The listeners of one name.\<close>

definition listenersOf :: "('l, 'w) dispatcher \<Rightarrow> string \<Rightarrow> 'l event_listener list" where
  "listenersOf s n = (case jm_get (ds_listeners s) n of None \<Rightarrow> [] | Some ls \<Rightarrow> ls)"

lemma listen_adds:
  "\<exists>t. listen n l s = (Inr (), t) \<and> ds_next t = ds_next s \<and> ds_world t = ds_world s \<and>
    listenersOf t = (listenersOf s)(n := js_add l (listenersOf s n))"
  by (auto simp: listen_def andThen_def getListenersByEvent_run listenersOf_def fun_eq_iff)

lemma forget_removes:
  assumes "n \<noteq> ''''"
  shows "\<exists>t. forgetListener n l s = (Inr (l \<in> set (listenersOf s n)), t) \<and> ds_next t = ds_next s \<and>
    ds_world t = ds_world s \<and> listenersOf t = (listenersOf s)(n := js_delete l (listenersOf s n))"
  using assms by (auto simp: forgetListener_def andThen_def getListenersByEvent_run listenersOf_def fun_eq_iff)

text \<open>A name without wildcards matches itself only.\<close>

definition literalName :: "('l, 'd, 'w) dispatch_env \<Rightarrow> string \<Rightarrow> bool" where
  "literalName D n \<longleftrightarrow> n \<noteq> '''' \<and> n \<noteq> ''*'' \<and> (\<forall>ks. de_matches D ks n = filter (\<lambda>k. k = n) ks)"

lemma filter_one: "distinct xs \<Longrightarrow> filter (\<lambda>k. k = n) xs = (if n \<in> set xs then [n] else [])"
  by (induction xs) auto

lemma pattern_literal:
  assumes "literalName D n" and "jm_inv (ds_listeners s)" and "\<not> jm_has (ds_listeners s) ''*''"
  shows "getListenersByPattern D n s = (Inr (listenersOf s n), s)"
proof -
  have "filter (\<lambda>k. k = n) (jm_keys (ds_listeners s)) = (if jm_has (ds_listeners s) n then [n] else [])"
    using assms(2) by (simp add: filter_one jm_inv_def set_jm_keys)
  then show ?thesis
    using assms(1,3) by (auto simp: getListenersByPattern_def literalName_def listenersOf_def jm_has_def Let_def)
qed

text \<open>What is kept while listeners come and go.\<close>

definition plainState :: "('l, 'w) dispatcher \<Rightarrow> bool" where
  "plainState s \<longleftrightarrow> jm_inv (ds_listeners s) \<and> \<not> jm_has (ds_listeners s) ''*''"

lemma listen_plain: "plainState s \<Longrightarrow> n \<noteq> ''*'' \<Longrightarrow> plainState (snd (listen n l s))"
  by (auto simp: plainState_def listen_def andThen_def getListenersByEvent_run)

lemma forget_plain: "plainState s \<Longrightarrow> n \<noteq> ''*'' \<Longrightarrow> plainState (snd (forgetListener n l s))"
  by (auto simp: plainState_def forgetListener_def andThen_def getListenersByEvent_run)

text \<open>
  A listener of \<open>listenOnce\<close> hears the first event and none after it; but what forgets it stays, and
  forgets a listener set again under the same name after the next event.
\<close>

lemma once_forgets:
  assumes "literalName D n"
  shows "\<exists>t. handleListener D n d (OnceListener i l) s = (Inr (), t) \<and> ds_world t = ds_world s \<and>
    listenersOf t = (listenersOf s)(n := js_delete l (listenersOf s n)) \<and> (plainState s \<longrightarrow> plainState t)"
  using assms forget_removes[of n l s] forget_plain[of s n l]
  by (auto simp: literalName_def andThen_def)

lemma heard:
  assumes "de_handle D l n d (ds_world s) = (Inr u, w)"
  shows "handleListener D n d (Plain l) s = (Inr (), s\<lparr>ds_world := w\<rparr>)"
  using assms by (simp add: within_def)

lemma ds_world_update [simp]: "listenersOf (s\<lparr>ds_world := w\<rparr>) = listenersOf s" "plainState (s\<lparr>ds_world := w\<rparr>) = plainState s"
  by (simp_all add: listenersOf_def plainState_def fun_eq_iff)

lemma once_runs_once:
  assumes "literalName D n" and "plainState s"
    and "listenersOf s n = [Plain l, OnceListener i (Plain l)] \<or> listenersOf s n = [OnceListener i (Plain l), Plain l]"
    and "de_handle D l n d (ds_world s) = (Inr u, w)"
  shows "\<exists>t. dispatchSeq D n d s = (Inr (), t) \<and> plainState t \<and> ds_world t = w \<and> listenersOf t n = [OnceListener i (Plain l)]"
proof -
  have pat: "getListenersByPattern D n s = (Inr (listenersOf s n), s)"
    using pattern_literal[OF assms(1)] assms(2) by (simp add: plainState_def)
  from assms(3) show ?thesis
  proof
    assume ls: "listenersOf s n = [Plain l, OnceListener i (Plain l)]"
    obtain t where "handleListener D n d (OnceListener i (Plain l)) (s\<lparr>ds_world := w\<rparr>) = (Inr (), t)" "ds_world t = w"
        "listenersOf t n = [OnceListener i (Plain l)]" "plainState t"
      using once_forgets[OF assms(1), of d i "Plain l" "s\<lparr>ds_world := w\<rparr>"] ls assms(2) by (auto simp: js_delete_def)
    then show ?thesis
      using pat ls heard[OF assms(4)] unfolding dispatchSeq_def
      by (simp add: pat andThen_def del: handleListener.simps)
  next
    assume ls: "listenersOf s n = [OnceListener i (Plain l), Plain l]"
    obtain t where t: "handleListener D n d (OnceListener i (Plain l)) s = (Inr (), t)" "ds_world t = ds_world s"
        "listenersOf t n = [OnceListener i (Plain l)]" "plainState t"
      using once_forgets[OF assms(1), of d i "Plain l" s] ls assms(2) by (auto simp: js_delete_def)
    then have "handleListener D n d (Plain l) t = (Inr (), t\<lparr>ds_world := w\<rparr>)" using heard[of D l n d t] assms(4) by simp
    then show ?thesis
      using pat ls t unfolding dispatchSeq_def by (simp add: pat andThen_def del: handleListener.simps)
  qed
qed

lemma once_silent:
  assumes "literalName D n" and "plainState s" and "listenersOf s n = [OnceListener i (Plain l)]"
  shows "\<exists>t. dispatchSeq D n d s = (Inr (), t) \<and> plainState t \<and> ds_world t = ds_world s \<and> listenersOf t n = [OnceListener i (Plain l)]"
proof -
  have pat: "getListenersByPattern D n s = (Inr (listenersOf s n), s)"
    using pattern_literal[OF assms(1)] assms(2) by (simp add: plainState_def)
  obtain t where "handleListener D n d (OnceListener i (Plain l)) s = (Inr (), t)" "ds_world t = ds_world s"
      "listenersOf t n = [OnceListener i (Plain l)]" "plainState t"
    using once_forgets[OF assms(1), of d i "Plain l" s] assms(2,3) by (auto simp: js_delete_def)
  then show ?thesis
    using assms(3) unfolding dispatchSeq_def by (simp add: pat andThen_def del: handleListener.simps)
qed

text \<open>Storing and forgetting succeed, and reading gives what was stored last.\<close>

lemma cache_put_get: "fst (cache_get truthy k (snd (cache_put k v n s))) = Inr (Some v)" "fst (cache_put k v n s) = Inr True"
  by (simp_all add: cache_get_def cache_put_def cacheEvent_def cache_has_def andThen_def)

lemma cache_forget_get: "fst (cache_get truthy k (snd (cache_forget k s))) = Inr None" "fst (cache_forget k s) = Inr True"
  by (simp_all add: cache_get_def cache_forget_def cacheEvent_def cache_missing_def andThen_def)

lemma cache_putMany_run:
  "\<exists>t. cache_putMany kvs n s = (Inr (replicate (length kvs) True), t) \<and>
    ca_store t = fold (\<lambda>(k, v). jm_set k v) kvs (ca_store s)"
proof (induction kvs arbitrary: s)
  case (Cons p kvs)
  obtain k v where p: "p = (k, v)" by fastforce
  let ?s = "s\<lparr>ca_store := jm_set k v (ca_store s), ca_events := ca_events s @ [CacheWritten k v None]\<rparr>"
  have "cache_put k v None s = (Inr True, ?s)" by (simp add: cache_put_def cacheEvent_def cache_has_def andThen_def)
  then show ?case using Cons[of ?s] p by (auto simp: cache_putMany_def andThen_def)
qed (simp add: cache_putMany_def)

lemma cache_flush_run: "fst (cache_flush s) = Inr True" "ca_store (snd (cache_flush s)) = []"
  by (simp_all add: cache_flush_def cacheEvent_def)

text \<open>Triggers: rebinding works exactly for the names that are bound, since reserved ones never are.\<close>

definition unreserved :: "('f, 'a, 'r, 'x, 'w) triggers \<Rightarrow> bool" where
  "unreserved s \<longleftrightarrow> (\<forall>n. jm_has (tg_actions s) n \<longrightarrow> \<not> usesReservedBindingName n)"

lemma bind_unreserved: "unreserved s \<Longrightarrow> unreserved (snd (trigger_bind n a s))"
  by (auto simp: trigger_bind_def unreserved_def)

lemma unbind_unreserved: "unreserved s \<Longrightarrow> unreserved (snd (trigger_unbind n s))"
  by (cases "jm_get (tg_actions s) n") (auto simp: trigger_unbind_def unreserved_def andThen_def)

lemma rebind_run:
  assumes "unreserved s"
  shows "fst (trigger_rebind n a s) = (if jm_has (tg_actions s) n then Inr a else Inl InvalidArgumentException)"
  using assms by (cases "jm_get (tg_actions s) n")
    (auto simp: trigger_rebind_def trigger_unbind_def trigger_bind_def unreserved_def andThen_def jm_has_def)

text \<open>An error of a hook or of the action is thrown on exactly when there is no error hook.\<close>

lemma call_rethrows:
  assumes "jm_get (tg_actions s) n = Some a" and "ac_before a = []" and "ac_execute a x (tg_world s) = (Inl e, w)"
    and "ac_error a = []"
  shows "trigger_call H n x s = (Inl e, s\<lparr>tg_world := w\<rparr>)"
  using assms by (simp add: trigger_call_def trigger_get_def callErrorHooks_def andThen_def within_def)

lemma call_handled:
  assumes "jm_get (tg_actions s) n = Some a" and "ac_before a = []" and "ac_execute a x (tg_world s) = (Inl e, w)"
    and "ac_error a = [f]" and "hk_error H f x None e ''execute'' w = (Inr (), w')"
  shows "trigger_call H n x s = (Inr None, s\<lparr>tg_world := w'\<rparr>)"
  using assms by (simp add: trigger_call_def trigger_get_def callErrorHooks_def andThen_def within_def)

text \<open>A pipeline is the composition of its stages.\<close>

lemma pipeline_append: "pipeline_process (p @ q) x = andThen (pipeline_process p x) (pipeline_process q)"
proof (induction p arbitrary: x)
  case (Cons f p)
  then have "pipeline_process (p @ q) = (\<lambda>x. andThen (pipeline_process p x) (pipeline_process q))" by blast
  then show ?case by (simp add: andThen_assoc)
qed simp

lemma pipe_run:
  fixes f :: "'a \<Rightarrow> ('s, 'e, 'a) prog"
  shows "pipeline_process (pipe f p) x = andThen (pipeline_process p x) f"
proof -
  have "andThen (f y) ret = f y" for y by (auto simp: andThen_def fun_eq_iff split: prod.splits sum.splits)
  moreover have "pipeline_process [] = (ret :: 'a \<Rightarrow> ('s, 'e, 'a) prog)" by (simp add: fun_eq_iff)
  ultimately have "pipeline_process [f] = f" by (simp add: fun_eq_iff[of _ f])
  then show ?thesis by (simp add: pipe_def pipeline_append del: pipeline_process.simps)
qed

text \<open>A job every \<open>n\<close> blocks has run once for every \<open>n\<close> blocks received.\<close>

lemma job_runs:
  assumes "0 < n"
  shows "length (filter (whenReady n) [1..int h]) = h div nat n"
proof (induction h)
  case (Suc h)
  have "[1..int (Suc h)] = [1..int h] @ [int (Suc h)]" by (simp add: upto_rec2)
  moreover have "whenReady n (int (Suc h)) \<longleftrightarrow> Suc h mod nat n = 0"
  proof -
    obtain m where m: "n = int m" "0 < m" using assms by (metis zero_less_imp_eq_int)
    have "int (Suc h) mod int m = int (Suc h mod m)" by (simp only: zmod_int)
    then show ?thesis using m by (simp add: whenReady_def del: of_nat_Suc)
  qed
  ultimately show ?case using Suc by (simp add: div_Suc)
qed simp

end

