(* ===== verification/Providers.thy ===== *)
theory Providers
  imports KernelServices
begin

text \<open>
  The service providers of packages/core-kernel/source: their repository, the bootstrappers that load,
  register and boot them, the listener that boots and disposes them later, and the part of
  \<open>application.ts\<close> that starts and ends the application. A plugin's own methods and the comparison
  of versions are parameters; messages to the log and the container's bindings are left out. The
  listeners of an event are run one after the other, in the order they were set; the code starts
  them all and waits for all of them.
\<close>

section \<open>Plugins and the repository\<close>

datatype kernel_error =
    ServiceProviderCannotBeRegistered string kernel_error
  | ServiceProviderCannotBeBooted string kernel_error
  | InvalidPluginConfiguration string
  | InvalidArgument
  | NotDefined
  | PluginError string
  | Endless

record 'w plugin_dependency =
  dp_name :: string
  dp_version :: "string option"
  dp_required :: "('w, kernel_error, bool) prog"

text \<open>
  A plugin acts on a world of its own. \<open>sp_config\<close> is what the validator says of its configuration,
  \<open>None\<close> when it has no schema.
\<close>

record 'w service_provider =
  sp_name :: "string option"
  sp_version :: "string option"
  sp_alias :: "string option"
  sp_dependencies :: "'w plugin_dependency list"
  sp_config :: "bool option"
  sp_required :: "('w, kernel_error, bool) prog"
  sp_register :: "('w, kernel_error, unit) prog"
  sp_boot :: "('w, kernel_error, unit) prog"
  sp_dispose :: "('w, kernel_error, unit) prog"
  sp_bootWhen :: "string option \<Rightarrow> ('w, kernel_error, bool) prog"
  sp_disposeWhen :: "string option \<Rightarrow> ('w, kernel_error, bool) prog"

text \<open>What the base class \<open>ServiceProvider\<close> gives a plugin that overrides nothing but its name.\<close>

definition plainProvider :: "string \<Rightarrow> 'w service_provider" where
  "plainProvider n = \<lparr>sp_name = Some n, sp_version = None, sp_alias = None, sp_dependencies = [], sp_config = None,
     sp_required = ret False, sp_register = ret (), sp_boot = ret (), sp_dispose = ret (),
     sp_bootWhen = (\<lambda>_. ret True), sp_disposeWhen = (\<lambda>_. ret False)\<rparr>"

datatype kernel_event =
    BlockApplied
  | ServiceProviderRegistered string
  | ServiceProviderBooted string
  | ServiceProviderDisposed string

record 'w kernel =
  kn_providers :: "(string, 'w service_provider) jsmap"
  kn_loaded :: "string list"
  kn_failed :: "string list"
  kn_deferred :: "string list"
  kn_aliases :: "(string, string) jsmap"
  kn_listeners :: "(string \<times> 'w service_provider) list"
  kn_events :: "kernel_event list"
  kn_booted :: bool
  kn_world :: 'w

type_synonym ('w, 'a) kprog = "('w kernel, kernel_error, 'a) prog"

abbreviation onWorld :: "('w, kernel_error, 'a) prog \<Rightarrow> ('w, 'a) kprog" where
  "onWorld \<equiv> within kn_world (\<lambda>w s. s\<lparr>kn_world := w\<rparr>)"

definition providerOf :: "string \<Rightarrow> 'w kernel \<Rightarrow> 'w service_provider option" where
  "providerOf n s = jm_get (kn_providers s)
     (case jm_get (kn_aliases s) n of Some m \<Rightarrow> if m = '''' then n else m | None \<Rightarrow> n)"

definition repo_get :: "string \<Rightarrow> ('w, 'w service_provider) kprog" where
  "repo_get n = andThen (reads (providerOf n)) (defined NotDefined)"

definition repo_set :: "string \<Rightarrow> 'w service_provider \<Rightarrow> ('w, unit) kprog" where
  "repo_set n p = modify (\<lambda>s. s\<lparr>kn_providers := jm_set n p (kn_providers s)\<rparr>)"

definition repo_alias :: "string \<Rightarrow> string \<Rightarrow> ('w, unit) kprog" where
  "repo_alias n a =
     andThen (reads (\<lambda>s. jm_has (kn_aliases s) a)) (\<lambda>used. andThen (throwIf used InvalidArgument) (\<lambda>_.
     andThen (reads (\<lambda>s. \<not> jm_has (kn_providers s) n)) (\<lambda>unknown. andThen (throwIf unknown InvalidArgument) (\<lambda>_.
     modify (\<lambda>s. s\<lparr>kn_aliases := jm_set a n (kn_aliases s)\<rparr>)))))"

definition repo_fail :: "string \<Rightarrow> ('w, unit) kprog" where
  "repo_fail n = modify (\<lambda>s. s\<lparr>kn_failed := js_add n (kn_failed s)\<rparr>)"

definition repo_defer :: "string \<Rightarrow> ('w, unit) kprog" where
  "repo_defer n = modify (\<lambda>s. s\<lparr>kn_deferred := js_add n (kn_deferred s)\<rparr>)"

definition allLoadedProviders :: "('w, 'w service_provider list) kprog" where
  "allLoadedProviders =
     andThen (reads (\<lambda>s. map (\<lambda>n. providerOf n s) (kn_loaded s))) (\<lambda>ps.
     if None \<in> set ps then throw NotDefined else ret (map the ps))"

definition record_event :: "kernel_event \<Rightarrow> ('w, unit) kprog" where
  "record_event e = modify (\<lambda>s. s\<lparr>kn_events := kn_events s @ [e]\<rparr>)"

definition repo_register :: "string \<Rightarrow> ('w, unit) kprog" where
  "repo_register n =
     andThen (repo_get n) (\<lambda>p.
     andThen (onWorld (sp_register p)) (\<lambda>_.
     record_event (ServiceProviderRegistered n)))"

definition repo_dispose :: "string \<Rightarrow> ('w, unit) kprog" where
  "repo_dispose n =
     andThen (repo_get n) (\<lambda>p.
     andThen (onWorld (sp_dispose p)) (\<lambda>_.
     andThen (record_event (ServiceProviderDisposed n)) (\<lambda>_.
     modify (\<lambda>s. s\<lparr>kn_loaded := js_delete n (kn_loaded s), kn_failed := js_delete n (kn_failed s),
       kn_deferred := js_add n (kn_deferred s)\<rparr>))))"

section \<open>Listeners and booting\<close>

definition changeState ::
    "(string \<Rightarrow> ('w, unit) kprog) \<Rightarrow> string \<Rightarrow> 'w service_provider \<Rightarrow> string option \<Rightarrow> ('w, unit) kprog" where
  "changeState boot n p previous =
     andThen (reads (\<lambda>s. n \<in> set (kn_failed s))) (\<lambda>failed.
     whenever (\<not> failed)
       (andThen (reads (\<lambda>s. n \<in> set (kn_loaded s))) (\<lambda>loaded.
        andThen (if loaded then onWorld (sp_disposeWhen p previous) else ret False) (\<lambda>now.
        andThen (whenever now (repo_dispose n)) (\<lambda>_.
        andThen (reads (\<lambda>s. n \<in> set (kn_deferred s))) (\<lambda>deferred.
        andThen (if deferred then onWorld (sp_bootWhen p previous) else ret False) (\<lambda>now.
        whenever now (boot n))))))))"

definition handleEvent ::
    "(string \<Rightarrow> ('w, unit) kprog) \<Rightarrow> kernel_event \<Rightarrow> string \<times> 'w service_provider \<Rightarrow> ('w, unit) kprog" where
  "handleEvent boot e l = (case (e, l) of
     (BlockApplied, n, p) \<Rightarrow> changeState boot n p None
   | (ServiceProviderBooted m, n, p) \<Rightarrow> whenever (m \<noteq> n) (changeState boot n p (Some m))
   | _ \<Rightarrow> ret ())"

definition kn_dispatch :: "(string \<Rightarrow> ('w, unit) kprog) \<Rightarrow> kernel_event \<Rightarrow> ('w, unit) kprog" where
  "kn_dispatch boot e =
     andThen (record_event e) (\<lambda>_. andThen (reads kn_listeners) (runAll (handleEvent boot e)))"

text \<open>Booting tells the listeners, which may boot others: the fuel bounds how deep that goes.\<close>

primrec repo_boot :: "nat \<Rightarrow> string \<Rightarrow> ('w, unit) kprog" where
  "repo_boot 0 n = throw Endless"
| "repo_boot (Suc fuel) n =
     andThen (repo_get n) (\<lambda>p.
     andThen (onWorld (sp_boot p)) (\<lambda>_.
     andThen (kn_dispatch (repo_boot fuel) (ServiceProviderBooted n)) (\<lambda>_.
     modify (\<lambda>s. s\<lparr>kn_loaded := js_add n (kn_loaded s), kn_failed := js_delete n (kn_failed s),
       kn_deferred := js_delete n (kn_deferred s)\<rparr>))))"

section \<open>Bootstrappers\<close>

text \<open>Loading: the providers in the order of the configuration, each with its alias.\<close>

definition loadServiceProviders :: "(string \<times> 'w service_provider) list \<Rightarrow> ('w, unit) kprog" where
  "loadServiceProviders plugins =
     forEach (\<lambda>(n, p). andThen (repo_set n p) (\<lambda>_.
       case sp_alias p of None \<Rightarrow> ret () | Some a \<Rightarrow> whenever (a \<noteq> '''') (repo_alias n a))) plugins"

definition disposeServiceProviders :: "('w, unit) kprog" where
  "disposeServiceProviders =
     andThen allLoadedProviders (\<lambda>ps.
     forEach (\<lambda>p. catching (onWorld (sp_dispose p)) (\<lambda>_. ret ())) (rev ps))"

definition terminate :: "('w, unit) kprog" where
  "terminate = andThen (modify (\<lambda>s. s\<lparr>kn_booted := False\<rparr>)) (\<lambda>_. disposeServiceProviders)"

fun satisfiesDependencies ::
    "(string \<Rightarrow> string \<Rightarrow> bool) \<Rightarrow> 'w service_provider \<Rightarrow> 'w plugin_dependency list \<Rightarrow> ('w, bool) kprog" where
  "satisfiesDependencies sat p [] = ret True"
| "satisfiesDependencies sat p (d # ds) =
     andThen (onWorld (dp_required d)) (\<lambda>required.
     andThen (defined NotDefined (sp_name p)) (\<lambda>name.
     andThen (reads (\<lambda>s. jm_has (kn_providers s) (dp_name d))) (\<lambda>there.
     if \<not> there then
       andThen (whenever required terminate) (\<lambda>_.
       andThen (repo_fail name) (\<lambda>_. ret False))
     else
       andThen (case dp_version d of None \<Rightarrow> ret () | Some c \<Rightarrow> whenever (c \<noteq> '''')
           (andThen (repo_get (dp_name d)) (\<lambda>q.
            andThen (defined NotDefined (sp_version q)) (\<lambda>v.
            whenever (\<not> sat v c)
              (andThen (whenever required terminate) (\<lambda>_. repo_fail name)))))) (\<lambda>_.
       satisfiesDependencies sat p ds))))"

definition validateConfiguration :: "'w service_provider \<Rightarrow> ('w, unit) kprog" where
  "validateConfiguration p = (case sp_config p of
     Some False \<Rightarrow> andThen (defined NotDefined (sp_name p)) (\<lambda>n. throw (InvalidPluginConfiguration n))
   | _ \<Rightarrow> ret ())"

definition registerOne :: "(string \<Rightarrow> string \<Rightarrow> bool) \<Rightarrow> string \<times> 'w service_provider \<Rightarrow> ('w, unit) kprog" where
  "registerOne sat = (\<lambda>(n, p).
     andThen (defined NotDefined (sp_name p)) (\<lambda>name.
     catching
       (andThen (validateConfiguration p) (\<lambda>_.
        andThen (satisfiesDependencies sat p (sp_dependencies p)) (\<lambda>ok.
        whenever ok (repo_register n))))
       (\<lambda>e. andThen (onWorld (sp_required p)) (\<lambda>required.
          if required then throw (ServiceProviderCannotBeRegistered name e) else repo_fail name))))"

definition registerServiceProviders :: "(string \<Rightarrow> string \<Rightarrow> bool) \<Rightarrow> ('w, unit) kprog" where
  "registerServiceProviders sat = andThen (reads kn_providers) (forEach (registerOne sat))"

text \<open>An endless recursion is no exception that could be caught.\<close>

definition bootOne :: "nat \<Rightarrow> string \<times> 'w service_provider \<Rightarrow> ('w, unit) kprog" where
  "bootOne fuel = (\<lambda>(n, p).
     andThen (defined NotDefined (sp_name p)) (\<lambda>name.
     andThen (onWorld (sp_bootWhen p None)) (\<lambda>now.
     andThen (if now
       then catching (repo_boot fuel n)
         (\<lambda>e. if e = Endless then throw e
          else andThen (onWorld (sp_required p)) (\<lambda>required.
            if required then throw (ServiceProviderCannotBeBooted name e) else repo_fail name))
       else repo_defer n) (\<lambda>_.
     modify (\<lambda>s. s\<lparr>kn_listeners := kn_listeners s @ [(name, p)]\<rparr>)))))"

definition bootServiceProviders :: "nat \<Rightarrow> ('w, unit) kprog" where
  "bootServiceProviders fuel = andThen (reads kn_providers) (forEach (bootOne fuel))"

section \<open>The application\<close>

definition app_boot :: "(string \<Rightarrow> string \<Rightarrow> bool) \<Rightarrow> nat \<Rightarrow> ('w, unit) kprog" where
  "app_boot sat fuel =
     andThen (registerServiceProviders sat) (\<lambda>_.
     andThen (bootServiceProviders fuel) (\<lambda>_.
     modify (\<lambda>s. s\<lparr>kn_booted := True\<rparr>)))"

definition app_reboot :: "(string \<Rightarrow> string \<Rightarrow> bool) \<Rightarrow> nat \<Rightarrow> ('w, unit) kprog" where
  "app_reboot sat fuel = andThen disposeServiceProviders (\<lambda>_. app_boot sat fuel)"

definition blockApplied :: "nat \<Rightarrow> ('w, unit) kprog" where
  "blockApplied fuel = kn_dispatch (repo_boot fuel) BlockApplied"

section \<open>Properties\<close>

text \<open>A boot that succeeds leaves the provider loaded, neither failed nor deferred.\<close>

lemma boot_loads:
  assumes "repo_boot fuel n s = (Inr u, t)"
  shows "n \<in> set (kn_loaded t)" and "n \<notin> set (kn_failed t)" and "n \<notin> set (kn_deferred t)"
  using assms by (cases fuel; auto elim!: andThen_InrE)+

text \<open>While the node runs, no provider is loaded and deferred at once.\<close>

definition apart :: "'w kernel \<Rightarrow> bool" where
  "apart s \<longleftrightarrow> set (kn_loaded s) \<inter> set (kn_deferred s) = {}"

lemma apart_onWorld [keeps_intros]: "keeps apart (onWorld m)"
  by (rule keeps_within[where Q = "\<lambda>_. True"]) (simp_all add: apart_def keeps_def)

lemma apart_small [keeps_intros]: "keeps apart (repo_get n)" "keeps apart (record_event e)" "keeps apart (repo_fail n)"
    "keeps apart (repo_set n p)" "keeps apart (repo_alias n a)" "keeps apart allLoadedProviders"
  unfolding repo_get_def record_event_def repo_fail_def repo_set_def repo_alias_def allLoadedProviders_def
  by (auto intro!: keeps_intros simp: apart_def)

lemma apart_dispose [keeps_intros]: "keeps apart (repo_dispose n)"
  unfolding repo_dispose_def by (auto intro!: keeps_intros simp: apart_def)

lemma apart_changeState [keeps_intros]: "(\<And>m. keeps apart (boot m)) \<Longrightarrow> keeps apart (changeState boot n p prev)"
  unfolding changeState_def by (auto intro!: keeps_intros)

lemma apart_handle [keeps_intros]: "(\<And>m. keeps apart (boot m)) \<Longrightarrow> keeps apart (handleEvent boot e l)"
  unfolding handleEvent_def by (auto intro!: keeps_intros split: kernel_event.splits prod.splits)

lemma apart_dispatch [keeps_intros]: "(\<And>m. keeps apart (boot m)) \<Longrightarrow> keeps apart (kn_dispatch boot e)"
  unfolding kn_dispatch_def by (auto intro!: keeps_intros)

lemma apart_boot [keeps_intros]: "keeps apart (repo_boot fuel n)"
proof (induction fuel arbitrary: n)
  case (Suc fuel)
  show ?case unfolding repo_boot.simps by (intro keeps_intros Suc) (auto simp: apart_def)
qed (simp add: keeps_throw)

lemma blockApplied_apart: "keeps apart (blockApplied fuel)"
  unfolding blockApplied_def by (intro apart_dispatch apart_boot)

text \<open>Ending the application never throws when every loaded provider is known: all are disposed, the
  last loaded first, whatever their own errors.\<close>

fun disposeAll :: "'w service_provider list \<Rightarrow> 'w \<Rightarrow> 'w" where
  "disposeAll [] w = w"
| "disposeAll (p # ps) w = disposeAll ps (snd (sp_dispose p w))"

lemma dispose_quietly:
  "catching (onWorld (sp_dispose p)) (\<lambda>_. ret ()) s = (Inr (), s\<lparr>kn_world := snd (sp_dispose p (kn_world s))\<rparr>)"
  by (auto simp: catching_def within_def split: prod.splits sum.splits)

lemma dispose_each:
  "forEach (\<lambda>p. catching (onWorld (sp_dispose p)) (\<lambda>_. ret ())) ps s =
    (Inr (), s\<lparr>kn_world := disposeAll ps (kn_world s)\<rparr>)"
  by (induction ps arbitrary: s) (simp_all add: andThen_Inr[OF dispose_quietly])

lemma terminate_disposes:
  assumes "\<forall>n \<in> set (kn_loaded s). providerOf n s \<noteq> None"
  shows "terminate s = (Inr (), s\<lparr>kn_booted := False,
    kn_world := disposeAll (rev (map (\<lambda>n. the (providerOf n s)) (kn_loaded s))) (kn_world s)\<rparr>)"
proof -
  have "providerOf n (s\<lparr>kn_booted := False\<rparr>) = providerOf n s" for n by (simp add: providerOf_def)
  then show ?thesis
    using assms
    by (auto simp: terminate_def disposeServiceProviders_def allLoadedProviders_def andThen_def dispose_each comp_def)
qed

text \<open>A required plugin that cannot boot ends the start; an optional one is failed and the start goes on.\<close>

lemma bootOne_fails:
  assumes "sp_name p = Some name" and "sp_bootWhen p None (kn_world s) = (Inr True, w)"
    and "repo_boot fuel n (s\<lparr>kn_world := w\<rparr>) = (Inl e, t)" and "e \<noteq> Endless"
    and "sp_required p (kn_world t) = (Inr required, w')"
  shows "bootOne fuel (n, p) s =
    (if required then (Inl (ServiceProviderCannotBeBooted name e), t\<lparr>kn_world := w'\<rparr>)
     else (Inr (), t\<lparr>kn_world := w', kn_failed := js_add name (kn_failed t), kn_listeners := kn_listeners t @ [(name, p)]\<rparr>))"
  using assms by (simp add: bootOne_def andThen_def within_def catching_def repo_fail_def)

text \<open>A provider that failed to register is booted all the same, and then no longer counts as failed.\<close>

lemma failed_is_booted:
  assumes "n \<in> set (kn_failed s)" and "jm_get (kn_providers s) n = Some (plainProvider n)"
    and "kn_aliases s = []" and "kn_listeners s = []"
  shows "fst (bootOne (Suc fuel) (n, plainProvider n) s) = Inr ()"
    and "n \<notin> set (kn_failed (snd (bootOne (Suc fuel) (n, plainProvider n) s)))"
    and "n \<in> set (kn_loaded (snd (bootOne (Suc fuel) (n, plainProvider n) s)))"
  using assms
  by (simp_all add: bootOne_def plainProvider_def andThen_def within_def catching_def repo_get_def providerOf_def
      kn_dispatch_def record_event_def)

text \<open>A missing dependency that is required disposes all providers, but the start goes on: the plugin
  is failed, as with an optional dependency.\<close>

lemma missing_dependency:
  assumes "dp_required d (kn_world s) = (Inr True, w)" and "sp_name p = Some name"
    and "\<not> jm_has (kn_providers s) (dp_name d)" and "\<forall>n \<in> set (kn_loaded s). providerOf n s \<noteq> None"
  shows "\<exists>t. satisfiesDependencies sat p (d # ds) s = (Inr False, t) \<and> name \<in> set (kn_failed t) \<and> \<not> kn_booted t"
proof -
  have "providerOf n (s\<lparr>kn_world := w\<rparr>) = providerOf n s" for n by (simp add: providerOf_def)
  then have "terminate (s\<lparr>kn_world := w\<rparr>) = (Inr (), (s\<lparr>kn_world := w\<rparr>)\<lparr>kn_booted := False,
      kn_world := disposeAll (rev (map (\<lambda>n. the (providerOf n s)) (kn_loaded s))) w\<rparr>)"
    using terminate_disposes[of "s\<lparr>kn_world := w\<rparr>"] assms(4) by simp
  then show ?thesis using assms(1-3) by (simp add: andThen_def within_def repo_fail_def)
qed

section \<open>Two deferred providers\<close>

text \<open>Two providers that wait for the same block boot each other without end: each is taken from the
  deferred ones only after its listeners have run.\<close>

definition twoDeferred :: "'w kernel \<Rightarrow> bool" where
  "twoDeferred s \<longleftrightarrow> kn_providers s = [(''a'', plainProvider ''a''), (''b'', plainProvider ''b'')] \<and>
     kn_listeners s = [(''a'', plainProvider ''a''), (''b'', plainProvider ''b'')] \<and> kn_aliases s = [] \<and>
     kn_loaded s = [] \<and> kn_failed s = [] \<and> set (kn_deferred s) = {''a'', ''b''}"

lemma dispatch_two:
  assumes "kn_listeners s = [k, l]"
    and "handleEvent boot e k (s\<lparr>kn_events := kn_events s @ [e]\<rparr>) = (r, t)" and "handleEvent boot e l t = (q, u)"
  shows "kn_dispatch boot e s = (case r of Inl x \<Rightarrow> Inl x | Inr _ \<Rightarrow> q, u)"
  using assms by (cases r; cases q) (simp_all add: kn_dispatch_def record_event_def)

text \<open>When booting ends in no way, neither do the listeners that would boot the other one.\<close>

definition endlessBoot :: "(string \<Rightarrow> ('w, unit) kprog) \<Rightarrow> bool" where
  "endlessBoot boot \<longleftrightarrow> (\<forall>s. twoDeferred s \<longrightarrow> (\<forall>n \<in> {''a'', ''b''}. \<exists>t. boot n s = (Inl Endless, t) \<and> twoDeferred t))"

lemma two_handle:
  assumes "endlessBoot boot" and "twoDeferred u" and "m \<in> {''a'', ''b''}" and "e \<in> {BlockApplied, ServiceProviderBooted n}"
  shows "\<exists>t. handleEvent boot e (m, plainProvider m) u = (if e = ServiceProviderBooted m then Inr () else Inl Endless, t) \<and> twoDeferred t"
proof (cases "e = ServiceProviderBooted m")
  case True
  then show ?thesis using assms(2) by (simp add: handleEvent_def)
next
  case False
  have "handleEvent boot e (m, plainProvider m) u = changeState boot m (plainProvider m)
      (if e = BlockApplied then None else Some n) u"
    using assms(4) False by (cases "n = m") (auto simp: handleEvent_def)
  moreover have "changeState boot m (plainProvider m) p u = boot m u" for p
  proof -
    have "m \<in> set (kn_deferred u)" "kn_failed u = []" "kn_loaded u = []" using assms(2,3) by (auto simp: twoDeferred_def)
    then show ?thesis by (simp add: changeState_def plainProvider_def andThen_def within_def)
  qed
  ultimately show ?thesis using assms(1-3) False by (auto simp: endlessBoot_def)
qed

lemma two_dispatch:
  assumes boot: "endlessBoot boot" and s: "twoDeferred s" and e: "e \<in> {BlockApplied, ServiceProviderBooted n}"
  shows "\<exists>t. kn_dispatch boot e s = (Inl Endless, t) \<and> twoDeferred t"
proof -
  let ?s = "s\<lparr>kn_events := kn_events s @ [e]\<rparr>"
  have "twoDeferred ?s" using s by (simp add: twoDeferred_def)
  then obtain t where t: "handleEvent boot e (''a'', plainProvider ''a'') ?s =
      (if e = ServiceProviderBooted ''a'' then Inr () else Inl Endless, t)" "twoDeferred t"
    using two_handle[OF boot _ _ e] by blast
  then obtain u where u: "handleEvent boot e (''b'', plainProvider ''b'') t =
      (if e = ServiceProviderBooted ''b'' then Inr () else Inl Endless, u)" "twoDeferred u"
    using two_handle[OF boot _ _ e] by blast
  have "kn_listeners s = [(''a'', plainProvider ''a''), (''b'', plainProvider ''b'')]" using s by (simp add: twoDeferred_def)
  from dispatch_two[OF this t(1) u(1)] show ?thesis using u(2) by auto
qed

lemma boot_endless: "endlessBoot (repo_boot fuel :: string \<Rightarrow> ('w, unit) kprog)"
proof (induction fuel)
  case (Suc fuel)
  have "\<exists>t. repo_boot (Suc fuel) n s = (Inl Endless, t) \<and> twoDeferred t" if two: "twoDeferred s" "n \<in> {''a'', ''b''}" for s :: "'w kernel" and n
  proof -
    have "repo_get n s = (Inr (plainProvider n), s)"
      using two by (auto simp: repo_get_def providerOf_def twoDeferred_def)
    moreover have "onWorld (sp_boot (plainProvider n)) s = (Inr (), s)" by (simp add: within_def plainProvider_def)
    moreover obtain t where "kn_dispatch (repo_boot fuel) (ServiceProviderBooted n) s = (Inl Endless, t)" "twoDeferred t"
      using two_dispatch[OF Suc two(1)] by blast
    ultimately show ?thesis by (simp add: andThen_def)
  qed
  then show ?case by (auto simp: endlessBoot_def)
qed (simp add: endlessBoot_def)

lemma two_deferred_endless: "twoDeferred s \<Longrightarrow> fst (blockApplied fuel s) = Inl Endless"
proof -
  assume "twoDeferred s"
  from two_dispatch[OF boot_endless this, of BlockApplied] obtain t where
    "kn_dispatch (repo_boot fuel) BlockApplied s = (Inl Endless, t)" by auto
  then show ?thesis by (simp add: blockApplied_def)
qed

end
