(* ===== verification/Genesis.thy ===== *)
theory Genesis
  imports Builders Forging
begin

text \<open>
  packages/core-configuration-generator/source/generators/genesis-block.ts: the transactions of a network's
  first block and the block itself. Mnemonics are arguments; keys and addresses come from third-party
  code. The amounts are compared exactly, as the code compares numbers that a double holds.
\<close>

record gen_wallet =
  gw_address :: string
  gw_keys :: key_pair

record genesis_env =
  gn_block :: block_env
  gn_keys :: "string \<Rightarrow> error + key_pair"
  gn_address :: "string \<Rightarrow> error + string"

record genesis_options =
  go_distribute :: bool
  go_premine :: int
  go_pubKeyHash :: int
  go_epoch :: int

type_synonym 'a genprog = "builder_error + 'a"

definition orElse :: "error + 'a \<Rightarrow> 'a genprog" where
  "orElse r = map_sum OtherError id r"

definition bindE :: "'e + 'a \<Rightarrow> ('a \<Rightarrow> 'e + 'b) \<Rightarrow> 'e + 'b" where
  "bindE r f = (case r of Inl e \<Rightarrow> Inl e | Inr x \<Rightarrow> f x)"

fun mapG :: "('a \<Rightarrow> 'e + 'b) \<Rightarrow> 'a list \<Rightarrow> 'e + 'b list" where
  "mapG f [] = Inr []"
| "mapG f (x # xs) = bindE (f x) (\<lambda>y. bindE (mapG f xs) (\<lambda>ys. Inr (y # ys)))"

definition gen_createWallet :: "genesis_env \<Rightarrow> string \<Rightarrow> gen_wallet genprog" where
  "gen_createWallet G mnemonic =
     bindE (orElse (gn_keys G mnemonic)) (\<lambda>ks.
     bindE (orElse (gn_address G (kp_publicKey ks))) (\<lambda>a. Inr \<lparr>gw_address = a, gw_keys = ks\<rparr>))"

section \<open>Transactions\<close>

text \<open>The data of a builder after some calls.\<close>

definition built :: "tx_builder \<Rightarrow> unit buildprog list \<Rightarrow> txdata genprog" where
  "built b ms = (case forEach (\<lambda>m. m) ms b of (Inl e, _) \<Rightarrow> Inl e | (Inr _, b') \<Rightarrow> Inr (bd_data b'))"

text \<open>The fee of a genesis transaction is zero, so it is signed again and then identified.\<close>

definition formatGenesisTransaction :: "genesis_env \<Rightarrow> txdata \<Rightarrow> gen_wallet \<Rightarrow> txdata genprog" where
  "formatGenesisTransaction G d w =
     orElse (fst ((let V = be_tx (gn_block G) in
       andThen (modify (\<lambda>d. d\<lparr>fee := 0\<rparr>)) (\<lambda>_.
       andThen (tx_sign V (gw_keys w) None) (\<lambda>s.
       andThen (modify (\<lambda>d. d\<lparr>signature := Some s\<rparr>)) (\<lambda>_.
       andThen (getId V noOptions) (\<lambda>i.
       andThen (modify (\<lambda>d. d\<lparr>tid := Some i\<rparr>)) (\<lambda>_.
       reads id)))))) d))"

definition signAs :: "genesis_env \<Rightarrow> gen_wallet \<Rightarrow> unit buildprog" where
  "signAs G w = signWithKeyPair (be_tx (gn_block G)) (gn_address G) (gw_keys w)"

definition createTransferTransaction ::
    "genesis_env \<Rightarrow> gen_wallet \<Rightarrow> gen_wallet \<Rightarrow> int \<Rightarrow> int \<Rightarrow> int \<Rightarrow> txdata genprog" where
  "createTransferTransaction G sender recipient amt pubKeyHash n =
     bindE (built transferBuilder
       [build_network pubKeyHash, build_fee (Some 10000000), build_nonce (Some n),
        build_recipientId (gw_address recipient), build_amount amt, signAs G sender])
       (\<lambda>d. formatGenesisTransaction G d sender)"

text \<open>Dividing by no validators is a \<open>RangeError\<close>.\<close>

definition createTransferTransactions ::
    "genesis_env \<Rightarrow> gen_wallet \<Rightarrow> gen_wallet list \<Rightarrow> int \<Rightarrow> int \<Rightarrow> txdata list genprog" where
  "createTransferTransactions G sender recipients premine pubKeyHash =
     (if recipients = [] then Inl (OtherError JsRangeError)
      else mapG (\<lambda>(i, r). createTransferTransaction G sender r (bigDiv premine (int (length recipients))) pubKeyHash (int i + 1))
        (enumerate 0 recipients))"

definition validatorTransaction :: "genesis_env \<Rightarrow> int \<Rightarrow> nat \<times> gen_wallet \<Rightarrow> txdata genprog" where
  "validatorTransaction G pubKeyHash = (\<lambda>(i, sender).
     bindE (built registrationBuilder
       [build_network pubKeyHash, build_fee (Some 2500000000), build_nonce (Some 1),
        build_usernameAsset (''genesis_'' @ decimal (int i + 1)), build_fee (Some 2500000000), signAs G sender])
       (\<lambda>d. formatGenesisTransaction G d sender))"

definition buildValidatorTransactions :: "genesis_env \<Rightarrow> gen_wallet list \<Rightarrow> int \<Rightarrow> txdata list genprog" where
  "buildValidatorTransactions G senders pubKeyHash = mapG (validatorTransaction G pubKeyHash) (enumerate 0 senders)"

definition voteTransaction :: "genesis_env \<Rightarrow> int \<Rightarrow> gen_wallet \<Rightarrow> txdata genprog" where
  "voteTransaction G pubKeyHash sender =
     bindE (built voteBuilder
       [build_network pubKeyHash, build_fee (Some 100000000), build_nonce (Some 2),
        build_votesAsset [kp_publicKey (gw_keys sender)], build_fee (Some 100000000), signAs G sender])
       (\<lambda>d. formatGenesisTransaction G d sender)"

definition buildVoteTransactions :: "genesis_env \<Rightarrow> gen_wallet list \<Rightarrow> int \<Rightarrow> txdata list genprog" where
  "buildVoteTransactions G senders pubKeyHash = mapG (voteTransaction G pubKeyHash) senders"

section \<open>The block\<close>

text \<open>The sort by type and, within a type, by amount keeps the order of equals.\<close>

definition genesisOrder :: "txdata list \<Rightarrow> txdata list" where
  "genesisOrder ts = sort_key ttype (sort_key amount ts)"

fun genesisTotals :: "txdata list \<Rightarrow> int \<times> int \<times> byte list list \<Rightarrow> error + int \<times> int \<times> byte list list" where
  "genesisTotals [] p = Inr p"
| "genesisTotals (t # ts) (a, f, bufs) = (case tid t of None \<Rightarrow> Inl JsTypeError
     | Some i \<Rightarrow> genesisTotals ts (a + amount t, f + fee t, bufs @ [fromHexString i]))"

definition genesisHeader :: "tx_env \<Rightarrow> string \<Rightarrow> txdata list \<Rightarrow> int \<times> int \<times> byte list list \<Rightarrow> int \<Rightarrow> blockdata" where
  "genesisHeader V key ts p time = (case p of (a, f, bufs) \<Rightarrow>
     \<lparr>bid = None, timestamp = time, bversion = 1, height = 1, previousBlock = replicate 64 (CHR ''0''),
      numberOfTransactions = int (length ts), totalAmount = a, totalFee = f, reward = 0,
      payloadLength = 32 * int (length ts), payloadHash = hexOf (te_sha256 V (concat bufs)),
      generatorPublicKey = key, blockSignature = None\<rparr>)"

text \<open>The block's data with the sorted transactions in place of those the factory read back.\<close>

definition gen_createGenesisBlock :: "genesis_env \<Rightarrow> key_pair \<Rightarrow> txdata list \<Rightarrow> genesis_options \<Rightarrow> (blockdata \<times> txdata list) genprog" where
  "gen_createGenesisBlock G keys txs opts =
     (let ts = genesisOrder txs; V = be_tx (gn_block G) in
      bindE (orElse (genesisTotals ts (0, 0, []))) (\<lambda>p.
      bindE (orElse (fst (block_make (gn_block G) keys (genesisHeader V (kp_publicKey keys) ts p (go_epoch opts), Some ts)))) (\<lambda>(b, _).
      Inr (bdata b, ts))))"

definition genesisTransfers :: "genesis_env \<Rightarrow> gen_wallet \<Rightarrow> gen_wallet \<Rightarrow> gen_wallet list \<Rightarrow> genesis_options \<Rightarrow> txdata list genprog" where
  "genesisTransfers G premineWallet genesisWallet validators opts =
     (if go_distribute opts
      then createTransferTransactions G premineWallet validators (go_premine opts) (go_pubKeyHash opts)
      else bindE (createTransferTransaction G premineWallet genesisWallet (go_premine opts) (go_pubKeyHash opts) 1)
        (\<lambda>t. Inr [t]))"

definition generateGenesis ::
    "genesis_env \<Rightarrow> string \<Rightarrow> string \<Rightarrow> string list \<Rightarrow> genesis_options \<Rightarrow> (blockdata \<times> txdata list) genprog" where
  "generateGenesis G premineMnemonic genesisMnemonic validatorsMnemonics opts =
     bindE (gen_createWallet G premineMnemonic) (\<lambda>premineWallet.
     bindE (gen_createWallet G genesisMnemonic) (\<lambda>genesisWallet.
     bindE (mapG (gen_createWallet G) validatorsMnemonics) (\<lambda>validators.
     bindE (genesisTransfers G premineWallet genesisWallet validators opts) (\<lambda>transfers.
     bindE (buildValidatorTransactions G validators (go_pubKeyHash opts)) (\<lambda>registrations.
     bindE (buildVoteTransactions G validators (go_pubKeyHash opts)) (\<lambda>votes.
     gen_createGenesisBlock G (gw_keys premineWallet) (transfers @ registrations @ votes) opts))))))"

section \<open>What the genesis block holds\<close>

lemma bindE_Inr: "bindE r f = Inr y \<longleftrightarrow> (\<exists>x. r = Inr x \<and> f x = Inr y)"
  by (cases r) (simp_all add: bindE_def)

lemma orElse_Inr [simp]: "orElse r = Inr x \<longleftrightarrow> r = Inr x"
  by (cases r) (simp_all add: orElse_def)

lemma mapG_Inr: "mapG f xs = Inr ys \<longleftrightarrow> list_all2 (\<lambda>x y. f x = Inr y) xs ys"
  by (induction xs arbitrary: ys) (auto simp: bindE_Inr list_all2_Cons1)

lemma mapG_all:
  assumes "mapG f xs = Inr ys" and "\<And>x y. x \<in> set xs \<Longrightarrow> f x = Inr y \<Longrightarrow> P y"
  shows "length ys = length xs \<and> (\<forall>y \<in> set ys. P y)"
  using assms by (auto simp: mapG_Inr list_all2_conv_all_nth in_set_conv_nth) (metis nth_mem)

text \<open>Hashing a transaction fills in its version and its type group only; so does signing, but for the signature.\<close>

definition untouched :: "(txdata \<Rightarrow> bool) \<Rightarrow> bool" where
  "untouched P \<longleftrightarrow> (\<forall>d v g s. P d \<longrightarrow> P (d\<lparr>version := v\<rparr>) \<and> P (d\<lparr>version := v, typeGroup := g\<rparr>) \<and> P (d\<lparr>signature := s\<rparr>))"

lemma keeps_createTx: "untouched P \<Longrightarrow> keeps P (createTx ts)"
  unfolding createTx_def by (auto intro!: keeps_intros simp: untouched_def)

lemma keeps_toHash: "untouched P \<Longrightarrow> keeps P (toHash V opts)"
  unfolding toHash_def getBytes_def
  by (auto intro!: keeps_intros keeps_createTx)
    (auto simp: keeps_def serializeData_def serializeTx_def withDefaults_def untouched_def Let_def split: sum.splits)

lemma keeps_sign: "untouched P \<Longrightarrow> keeps P (tx_sign V keys None)"
  unfolding tx_sign_def Let_def by (auto intro!: keeps_intros keeps_toHash simp: untouched_def)

lemma keeps_getId: "untouched P \<Longrightarrow> keeps P (getId V opts)"
  unfolding getId_def by (auto intro!: keeps_intros keeps_toHash)

lemma format_run:
  assumes "formatGenesisTransaction G d w = Inr t"
  shows "fee t = 0" and "amount t = amount d" and "ttype t = ttype d" and "tid t \<noteq> None"
proof -
  let ?V = "be_tx (gn_block G)" and ?P = "\<lambda>e. fee e = 0 \<and> amount e = amount d \<and> ttype e = ttype d"
  have P: "untouched ?P" by (simp add: untouched_def)
  obtain s d1 i d2 where s: "tx_sign ?V (gw_keys w) None (d\<lparr>fee := 0\<rparr>) = (Inr s, d1)"
      and i: "getId ?V noOptions (d1\<lparr>signature := Some s\<rparr>) = (Inr i, d2)" and t: "t = d2\<lparr>tid := Some i\<rparr>"
    using assms by (auto simp: formatGenesisTransaction_def Let_def andThen_def split: sum.splits prod.splits)
  have "?P d1" using keepsD[where m = "tx_sign ?V (gw_keys w) None", OF keeps_sign[OF P] _ s] by simp
  then have "?P d2" using keepsD[where m = "getId ?V noOptions", OF keeps_getId[OF P] _ i] by simp
  then show "fee t = 0" "amount t = amount d" "ttype t = ttype d" "tid t \<noteq> None" by (simp_all add: t)
qed

lemma signAs_run:
  assumes "signAs G w b = (Inr u, b')"
  shows "amount (bd_data b') = amount (bd_data b) \<and> ttype (bd_data b') = ttype (bd_data b)"
  using assms unfolding signAs_def
  by (auto elim!: signWithKeyPair_run simp: preparedData_def Let_def split: option.splits)

text \<open>A genesis transaction: no fee, and the type and the amount it was built with.\<close>

definition genesisTx :: "int \<Rightarrow> int \<Rightarrow> txdata \<Rightarrow> bool" where
  "genesisTx ty a t \<longleftrightarrow> fee t = 0 \<and> ttype t = ty \<and> amount t = a \<and> tid t \<noteq> None"

lemma transfer_genesis:
  assumes "createTransferTransaction G s r a k n = Inr t"
  shows "genesisTx T_Transfer a t"
proof -
  obtain d where d: "built transferBuilder [build_network k, build_fee (Some 10000000), build_nonce (Some n),
      build_recipientId (gw_address r), build_amount a, signAs G s] = Inr d" "formatGenesisTransaction G d s = Inr t"
    using assms by (auto simp: createTransferTransaction_def bindE_Inr)
  have "amount d = a" "ttype d = T_Transfer"
    using d(1) by (auto simp: built_def build_network_def build_fee_def build_nonce_def build_recipientId_def build_amount_def
        onData_def transferBuilder_def initializeData_def andThen_def dest!: signAs_run split: sum.splits prod.splits)
  then show ?thesis using format_run[OF d(2)] by (simp add: genesisTx_def)
qed

lemma registration_genesis:
  assumes "validatorTransaction G k p = Inr t"
  shows "genesisTx T_ValidatorRegistration 0 t"
proof -
  obtain i s where p: "p = (i, s)" by fastforce
  obtain d where d: "built registrationBuilder [build_network k, build_fee (Some 2500000000), build_nonce (Some 1),
      build_usernameAsset (''genesis_'' @ decimal (int i + 1)), build_fee (Some 2500000000), signAs G s] = Inr d"
      "formatGenesisTransaction G d s = Inr t"
    using assms by (auto simp: validatorTransaction_def p bindE_Inr simp del: decimal.simps)
  have "amount d = 0" "ttype d = T_ValidatorRegistration"
    using d(1) by (auto simp: built_def build_network_def build_fee_def build_nonce_def build_usernameAsset_def onAsset_def
        onData_def registrationBuilder_def initializeData_def andThen_def simp del: decimal.simps dest!: signAs_run split: sum.splits prod.splits)
  then show ?thesis using format_run[OF d(2)] by (simp add: genesisTx_def)
qed

lemma vote_genesis:
  assumes "voteTransaction G k s = Inr t"
  shows "genesisTx T_Vote 0 t"
proof -
  obtain d where d: "built voteBuilder [build_network k, build_fee (Some 100000000), build_nonce (Some 2),
      build_votesAsset [kp_publicKey (gw_keys s)], build_fee (Some 100000000), signAs G s] = Inr d"
      "formatGenesisTransaction G d s = Inr t"
    using assms by (auto simp: voteTransaction_def bindE_Inr)
  have "amount d = 0" "ttype d = T_Vote"
    using d(1) by (auto simp: built_def build_network_def build_fee_def build_nonce_def build_votesAsset_def onAsset_def
        onData_def voteBuilder_def initializeData_def andThen_def dest!: signAs_run split: sum.splits prod.splits)
  then show ?thesis using format_run[OF d(2)] by (simp add: genesisTx_def)
qed

lemma genesisTx_sums:
  assumes "\<forall>t \<in> set ts. genesisTx ty a t"
  shows "sum_list (map amount ts) = a * int (length ts)" and "sum_list (map fee ts) = 0"
  using assms by (induction ts) (simp_all add: genesisTx_def algebra_simps)

lemma genesisTotals_run:
  "(\<forall>t \<in> set ts. tid t \<noteq> None) \<Longrightarrow> genesisTotals ts (a, f, bufs) =
    Inr (a + sum_list (map amount ts), f + sum_list (map fee ts), bufs @ map (\<lambda>t. fromHexString (the (tid t))) ts)"
  by (induction ts arbitrary: a f bufs) (auto simp: add.assoc)

lemma genesisOrder_perm: "mset (genesisOrder ts) = mset ts" "sorted (map ttype (genesisOrder ts))"
  by (simp_all add: genesisOrder_def)

lemma sum_genesisOrder: "sum_list (map f (genesisOrder ts)) = sum_list (map f (ts :: txdata list))" for f :: "txdata \<Rightarrow> int"
  by (metis genesisOrder_perm(1) mset_map sum_mset_sum_list)

lemma transfers_genesis:
  assumes "genesisTransfers G p g vs opts = Inr ts"
  shows "length ts = (if go_distribute opts then length vs else 1) \<and>
    (\<forall>t \<in> set ts. genesisTx T_Transfer (if go_distribute opts then bigDiv (go_premine opts) (int (length vs)) else go_premine opts) t)"
proof (cases "go_distribute opts")
  case True
  let ?a = "bigDiv (go_premine opts) (int (length vs))"
  have "mapG (\<lambda>(i, r). createTransferTransaction G p r ?a (go_pubKeyHash opts) (int i + 1)) (enumerate 0 vs) = Inr ts"
    using assms True by (auto simp: genesisTransfers_def createTransferTransactions_def split: if_splits)
  from mapG_all[OF this, of "genesisTx T_Transfer ?a"] show ?thesis
    using True by (auto dest: transfer_genesis)
next
  case False
  then show ?thesis using assms by (auto simp: genesisTransfers_def bindE_Inr dest: transfer_genesis)
qed

text \<open>What the transactions of the genesis block move in all.\<close>

definition genesisMinted :: "genesis_options \<Rightarrow> nat \<Rightarrow> int" where
  "genesisMinted opts n = (if go_distribute opts then bigDiv (go_premine opts) (int n) * int n else go_premine opts)"

lemma genesis_sums:
  assumes "generateGenesis G pm gm vms opts = Inr (d, ts)"
  shows "sum_list (map amount ts) = genesisMinted opts (length vms)" and "sum_list (map fee ts) = 0"
    and "sorted (map ttype ts)" and "length ts = (if go_distribute opts then length vms else 1) + 2 * length vms"
    and "\<exists>key b. map_sum id fst (fst (block_make (gn_block G) key (genesisHeader (be_tx (gn_block G)) (kp_publicKey key) ts
      (genesisMinted opts (length vms), 0, map (\<lambda>t. fromHexString (the (tid t))) ts) (go_epoch opts), Some ts))) = Inr b \<and> d = bdata b"
proof -
  obtain p g vs xs rs ws where vs: "mapG (gen_createWallet G) vms = Inr vs"
      and xs: "genesisTransfers G p g vs opts = Inr xs"
      and rs: "buildValidatorTransactions G vs (go_pubKeyHash opts) = Inr rs"
      and ws: "buildVoteTransactions G vs (go_pubKeyHash opts) = Inr ws"
      and blk: "gen_createGenesisBlock G (gw_keys p) (xs @ rs @ ws) opts = Inr (d, ts)"
    using assms by (auto simp: generateGenesis_def bindE_Inr)
  have n: "length vs = length vms" using mapG_all[OF vs, of "\<lambda>_. True"] by simp
  have x: "length xs = (if go_distribute opts then length vs else 1)" "\<forall>t \<in> set xs. genesisTx T_Transfer
      (if go_distribute opts then bigDiv (go_premine opts) (int (length vs)) else go_premine opts) t"
    using transfers_genesis[OF xs] by auto
  have r: "length rs = length vs" "\<forall>t \<in> set rs. genesisTx T_ValidatorRegistration 0 t"
    using mapG_all[OF rs[unfolded buildValidatorTransactions_def], of "genesisTx T_ValidatorRegistration 0"]
    by (auto dest: registration_genesis)
  have w: "length ws = length vs" "\<forall>t \<in> set ws. genesisTx T_Vote 0 t"
    using mapG_all[OF ws[unfolded buildVoteTransactions_def], of "genesisTx T_Vote 0"] by (auto dest: vote_genesis)
  have ts: "ts = genesisOrder (xs @ rs @ ws)" using blk by (auto simp: gen_createGenesisBlock_def Let_def bindE_Inr)
  have set_ts: "set ts = set xs \<union> set rs \<union> set ws" using genesisOrder_perm(1) ts by (metis set_mset_mset set_append Un_assoc)
  show amounts: "sum_list (map amount ts) = genesisMinted opts (length vms)" and fees: "sum_list (map fee ts) = 0"
    unfolding ts sum_genesisOrder
    using genesisTx_sums[OF x(2)] genesisTx_sums[OF r(2)] genesisTx_sums[OF w(2)] x(1) n by (simp_all add: genesisMinted_def)
  show "sorted (map ttype ts)" by (simp add: ts genesisOrder_perm)
  show "length ts = (if go_distribute opts then length vms else 1) + 2 * length vms"
    using x(1) r(1) w(1) n by (simp add: ts genesisOrder_def)
  have "\<forall>t \<in> set ts. tid t \<noteq> None" using set_ts x(2) r(2) w(2) by (auto simp: genesisTx_def)
  then have "genesisTotals ts (0, 0, []) = Inr (genesisMinted opts (length vms), 0, map (\<lambda>t. fromHexString (the (tid t))) ts)"
    using genesisTotals_run[of ts 0 0 "[]"] amounts fees by simp
  then show "\<exists>key b. map_sum id fst (fst (block_make (gn_block G) key (genesisHeader (be_tx (gn_block G)) (kp_publicKey key) ts
      (genesisMinted opts (length vms), 0, map (\<lambda>t. fromHexString (the (tid t))) ts) (go_epoch opts), Some ts))) = Inr b \<and> d = bdata b"
    using blk unfolding gen_createGenesisBlock_def ts[symmetric] by (intro exI[of _ "gw_keys p"]) (auto simp: Let_def bindE_Inr)
qed

text \<open>Distributing loses less than one unit for each validator.\<close>

lemma genesisMinted_bounds:
  assumes "0 \<le> go_premine opts" and "0 < n"
  shows "genesisMinted opts n \<le> go_premine opts" and "go_premine opts - int n < genesisMinted opts n"
proof -
  have "bigDiv (go_premine opts) (int n) * int n = go_premine opts - go_premine opts mod int n"
    using assms by (simp add: bigDiv_nonneg minus_mod_eq_div_mult)
  moreover have "0 \<le> go_premine opts mod int n" "go_premine opts mod int n < int n" using assms(2) by simp_all
  ultimately show "genesisMinted opts n \<le> go_premine opts" "go_premine opts - int n < genesisMinted opts n"
    using assms(2) by (auto simp: genesisMinted_def)
qed

end
