(* ===== verification/Spec2Isabelle.thy ===== *)
theory Spec2Isabelle
  imports NodeExamples PeerExamples ForgerExamples ForgerTracker PeerServer Lock Providers Genesis
begin

text \<open>
  A verification development for ARK Core EX (the TypeScript packages under src/packages): a
  blockchain node with delegated proof of stake. It models the node from the wallets up to the
  forger and the peers, and proves what makes each part correct.

  \<^bold>\<open>How the program works.\<close> A node holds a chain of blocks. Transaction handlers move balances and
  attributes between wallets; a block applies its transactions in order, or takes them back when one
  fails. Validators are ranked by the balance of the wallets that vote for them; as many blocks as there
  are active validators are a round, whose order is drawn at its start. Blocks come from peers or from
  the forger of the node itself; a queue hands them to the block processor, which checks them and
  gives them to one of nine handlers. A state machine decides when to download, process, roll back or
  idle. Transactions that are not in a block yet wait in the pool.

  \<^bold>\<open>Conventions\<close> (\<open>Prelude\<close>, \<open>Types\<close>). An operation that may throw or change state is a program: a function
  from the state to an error or a result, with the state reached; an exception does not undo what
  came before it. A \<open>Map\<close> or \<open>Set\<close> is a list in the order of insertion. Numbers are \<open>int\<close>, since
  \<open>bigint\<close> does not wrap; the buffers bound them. Bytes are words of width 8. Third-party code (cryptography, schema validation, address codecs, HTTP, clocks,
  storage engines) and what arrives from outside are fields of environment records. What is proved
  holds for all of them, unless a hypothesis names what is relied upon, such as that every public key has an address.

  \<^bold>\<open>Wallets and transactions.\<close>
  \<^item> \<open>Wallets\<close>, \<open>Repository\<close>: wallet objects on a heap, the index and the three repositories (core-state/source/wallets).
    A repository that satisfies \<open>repo_ok\<close> refers to live wallets only and never finds two under one address.
  \<^item> \<open>Handlers\<close>: the base class (core-transactions/source/handlers) and the six types
    (core-crypto-transaction-*), one definition for each method of theirs, a branch for each override.
  \<^item> \<open>Ledger\<close>: conservation of the total balance up to what is burned, the exact effect on known wallets, reverting as the inverse
    of applying, and each guard.

  \<^bold>\<open>Blocks and state.\<close>
  \<^item> \<open>StateStore\<close>, \<open>BlockState\<close>, \<open>VoteBalance\<close>: the stores (core-state/source/stores), applying and reverting blocks (block-state.ts),
    the mutators; the totals after a block, the sequence of last blocks, and the vote balances as a function of the votes.
  \<^item> \<open>Config\<close>, \<open>Rounds\<close>, \<open>Slots\<close>: milestones (core-crypto-config), rounds (round-calculator.ts), times
    and forging order (core-crypto-time, calculate-forging-info.ts, is-block-chained.ts). The cursor of \<open>Config\<close> refines a plain search,
    setting milestones accepts exactly those whose counts change at the start of a round, and merges them key by key. A slot is the
    interval of times with its number, and the index of a forger counts slots from the last change of the count; the code reads the time
    of that change from an asynchronous lookup it does not await, so both the awaited value and the promise are modelled (\<open>js_time\<close>).
  \<^item> \<open>Dpos\<close>, \<open>Database\<close>, \<open>RoundState\<close>, \<open>Interaction\<close>: the ranking, the stored blocks, the rounds that are saved and
    restored, and how a block is applied to all of these (core-state/source/dpos, round-state.ts, database-interactions.ts; core-database).

  \<^bold>\<open>The pool\<close> (core-transaction-pool).
  \<^item> \<open>Mempool\<close>, \<open>Pool\<close>, \<open>PoolInvariant\<close>: queues of the senders, ordered queries, storage and service; every stored row
    has its pending transaction and the other way round, whatever is added, evicted, removed or re-added, unless a forged transaction is
    re-added while its row is still stored (\<open>forged_row_lost\<close> in \<open>NodeExamples\<close> shows what then happens).
  \<^item> \<open>Collation\<close>: the pool over the handlers above, the choice of a block's transactions, the processor of incoming transactions,
    the fee matchers, and the merging iterator, which sorts what comes sorted from several sources.

  \<^bold>\<open>The blockchain service\<close> (core-blockchain, core-crypto-block/source/verifier.ts).
  \<^item> \<open>BlockVerifier\<close>, \<open>Processor\<close>, \<open>Acceptance\<close>: which blocks are accepted, and what each handler does on every path.
  \<^item> \<open>Jobs\<close>, \<open>Machine\<close>, \<open>Blockchain\<close>, \<open>Sync\<close>, \<open>NodeInvariant\<close>: the queue, the state machine, the service, the actions
    (with the state builder, core-state/source/state-builder.ts) and the node as a transition system whose steps come in any order, with
    the invariant of all reachable nodes. \<open>JobOutcome\<close>: which blocks of a chunk a job applies, and what the node holds when it is done.

  \<^bold>\<open>Formats\<close> (utils/source/byte-buffer.ts, core-crypto-transaction, core-crypto-block, core-serializer).
  \<^item> \<open>ByteBuffer\<close>: the buffer, and the interface \<open>codec\<close> of a writer with its reader, which every field of a format satisfies.
  \<^item> \<open>TxTypes\<close>, \<open>TxSerializer\<close>, \<open>TxRoundTrip\<close>, \<open>TxFactory\<close>: the registry of types, both directions of the format, and signing and
    verifying.
  \<^item> \<open>BlockSerializer\<close>, \<open>BlockRoundTrip\<close>: the same for blocks.
  \<^item> \<open>Builders\<close>, \<open>Genesis\<close>: the six builders, which sign what the verifier hashes; the \<open>verify\<close> of the signature packages, with their
    libraries as parameters; and the first block of a network (core-configuration-generator), whose sums are right.

  \<^bold>\<open>Peers\<close> (core-p2p, utils/source/nsect.ts).
  \<^item> \<open>NSect\<close>: the n-ary search, with the interface \<open>probing\<close> for an answer that is true up to some height.
  \<^item> \<open>Peers\<close>, \<open>PeerComm\<close>, \<open>PeerVerification\<close>, \<open>PeerAcceptance\<close>: peer objects and their repository, requests, the verification of the
    chain a peer claims, and which peers are taken.
  \<^item> \<open>NetworkMonitor\<close>, \<open>Downloads\<close>, \<open>PeerInvariant\<close>: the upkeep of the network, downloading and broadcasting; what
    stays true of the set of peers. \<open>PeerServer\<close>: the controllers that answer requests.

  \<^bold>\<open>Forging\<close> (core-forger, core-forger-tracker). \<open>Forging\<close>: the validators, the service with its timers, making a block;
  the block verifies, and a forger that is booted keeps checking unless a listener of its failure event rejects. \<open>ForgerTracker\<close>: the report of who forges next.

  \<^bold>\<open>The kernel\<close> (core-kernel). \<open>Lock\<close>: the lock as segments of tasks between their \<open>await\<close>s, in any order; an
  exclusive callback runs alone. \<open>KernelServices\<close>: events, cache, triggers, pipelines and block jobs. \<open>Providers\<close>: loading,
  booting and disposing plugins. \<open>Collections\<close>: bounded containers, behind the interface \<open>bounded_store\<close>.

  \<open>Examples\<close>, \<open>NodeExamples\<close>, \<open>PeerExamples\<close> and \<open>ForgerExamples\<close> hold a small chain, node, network and forger, on which the
  properties below are tried.
  \<^bold>\<open>Loops.\<close> A loop that always ends is a recursive function with its measure. Loops that need not end have fuel, and
  running out is the error \<open>OutOfFuel\<close> (for providers \<open>Endless\<close>), which the code does not have, so that it never passes for a
  result. \<open>lowestLoop\<close>, which makes room in the pool, is given the size of the pool: each round takes out a transaction, so on
  consistent pools it always returns. \<open>throttle\<close> is given the number of times the environment lets it look again. \<open>repo_boot\<close>
  bounds how deep booting one plugin boots others: two that wait for each other exhaust any bound. \<open>roundLoop\<close> is given the number
  of changes of the validator count that remain, which are all there are. \<open>runActions\<close> only drives an example and the
  synchronised node, which is idle after six actions.

  \<^bold>\<open>Not modelled.\<close> The LMDB and SQLite engines and the primitives of cryptography (third-party; parameters). The
  container, logging, caches that do nothing, cron jobs, the HTTP servers and sockets (wrappers of libraries). The command line,
  process management, the writer of configuration files and the test framework (I/O and tooling). JSON schemas (data for a third-party
  validator). Log messages. How the vote balances, which the state builder starts without awaiting them, interleave with its next block. Requests that run in
  parallel are taken one after another, except under the lock, in downloads and between the steps of the node.
\<close>

section \<open>The demo transactions\<close>

lemma demo_transfer_apply:
  "applyTx demoEnv Transfer demoTransfer demo =
    (Inr (), demo\<lparr>objs := transferHeap (data demoTransfer) 0 1 (objs demo)\<rparr>)"
  by (rule transfer_apply [OF demo_indexed(1) _ _ _ _ demo_baseCheck, where a = "''B''"])
    (simp_all add: tx_defs Let_def)

section \<open>The ledger\<close>

text \<open>C1: applying a transaction of any of the six types, whatever wallets it meets, keeps the wallet
  repository well-formed and lowers the total balance of all wallets by exactly what is burned: the
  fee, and for the types that pay nobody the amount. A rejected transaction leaves it well-formed.\<close>

theorem applyTx_conserves:
  assumes "repo_ok s"
  shows "case applyTx E h t s of
      (Inr u, s') \<Rightarrow> repo_ok s' \<and> totalBalance s' = totalBalance s + - burned h (data t)
    | (Inl e, s') \<Rightarrow> repo_ok s'"
  using moves_total [OF moves_applyTx assms] .

theorem applyTx_conserves_witness:
  "totalBalance (snd (applyTx demoEnv Transfer demoTransfer demo)) = 140"
  using applyTx_conserves [OF demo_ok, where E = demoEnv and h = Transfer and t = demoTransfer]
  by (simp add: demo_transfer_apply demo_total) (simp add: tx_defs Let_def)

text \<open>C2: reverting a transaction of any type gives exactly the burned amount back.\<close>

theorem revertTx_conserves:
  assumes "repo_ok s"
  shows "case revertTx E h t s of
      (Inr u, s') \<Rightarrow> repo_ok s' \<and> totalBalance s' = totalBalance s + burned h (data t)
    | (Inl e, s') \<Rightarrow> repo_ok s'"
  using moves_total [OF moves_revertTx assms] .

theorem revertTx_conserves_witness:
  "repo_ok (snd (revertTx demoEnv Transfer demoTransfer demo))"
  using revertTx_conserves [OF demo_ok, where E = demoEnv and h = Transfer and t = demoTransfer]
  by (auto split: prod.splits sum.splits)

text \<open>C3: an accepted transfer between known wallets debits the sender by amount and fee, moves its
  nonce, credits the recipient, and touches nothing else; this holds for a transfer to oneself.\<close>

theorem transfer_effect:
  assumes "indexed s pk r" and "senderPublicKey (data t) = Some pk" and "nonce (data t) \<noteq> None"
    and "recipientId (data t) = Some a" and "lookup s Chain Addresses a = Some q"
    and "baseCheck (objs s r) (data t) = None"
  shows "applyTx E Transfer t s = (Inr (), s\<lparr>objs := transferHeap (data t) r q (objs s)\<rparr>)"
  using assms by (rule transfer_apply)

theorem transfer_effect_witness:
  "wbalance (objs (snd (applyTx demoEnv Transfer demoTransfer demo)) 1) = 70"
  using transfer_effect [OF demo_indexed(1) _ _ _ _ demo_baseCheck, where a = "''B''" and q = 1 and E = demoEnv]
  by (simp add: tx_defs Let_def transferHeap_def)

text \<open>C4: the first of the base rules a transfer breaks (nonce, balance, multi-signature) is the error,
  and the state is untouched.\<close>

theorem transfer_rejection:
  assumes "indexed s pk r" and "senderPublicKey (data t) = Some pk"
    and "baseCheck (objs s r) (data t) = Some e"
  shows "applyTx E Transfer t s = (Inl e, s)"
  using assms by (rule transfer_rejected)

theorem transfer_rejection_witness:
  "applyTx demoEnv Transfer (demoTransfer\<lparr>data := (data demoTransfer)\<lparr>amount := 200\<rparr>\<rparr>) demo =
    (Inl (CryptoError InsufficientBalanceError), demo)"
  by (rule transfer_rejection [OF demo_indexed(1)]) (simp_all add: tx_defs Let_def baseCheck_def nonceOf_def)

text \<open>C5: reverting a transfer right after applying it restores the state, wallets and indexes.\<close>

theorem transfer_roundtrip:
  assumes "indexed s pk r" and "senderPublicKey (data t) = Some pk" and "nonce (data t) \<noteq> None"
    and "recipientId (data t) = Some a" and "lookup s Chain Addresses a = Some q"
    and "baseCheck (objs s r) (data t) = None"
  shows "revertTx E Transfer t (snd (applyTx E Transfer t s)) = (Inr (), s)"
  using assms by (rule transfer_revert_apply)

theorem transfer_roundtrip_witness:
  "revertTx demoEnv Transfer demoTransfer (snd (applyTx demoEnv Transfer demoTransfer demo)) = (Inr (), demo)"
  by (rule transfer_roundtrip [OF demo_indexed(1) _ _ _ _ demo_baseCheck, where a = "''B''"])
    (simp_all add: tx_defs Let_def)

text \<open>C6: a multi-payment that applies changes balances only: the sender pays fee and all the payments,
  every wallet gains the sum of the payments to its address (the sender's own included), and the
  sender's nonce moves.\<close>

theorem multiPayment_effect:
  assumes "indexed s pk r" and "senderPublicKey (data t) = Some pk"
    and "as_payments (asset (data t)) = Some ps" and "allKnown s ps"
    and "applyTx E MultiPayment t s = (Inr u, s')"
  shows "s' = s\<lparr>objs := shiftBal (\<lambda>q. (if q = r then - amount (data t) - fee (data t) - totalPayments ps else 0)
      + paymentsTo s ps q) ((objs s)(r := (objs s r)\<lparr>wnonce := nonceOf (data t)\<rparr>))\<rparr>"
  using assms by (rule multiPayment_result(2))

lemma demo_payments: "as_payments (asset (data demoMultiPayment)) = Some demoPayments" "allKnown demo demoPayments"
    "senderPublicKey (data demoMultiPayment) = Some ''a''"
  by (simp_all add: tx_defs allKnown_def)

lemma demo_multiPayment: "\<exists>s'. applyTx demoEnv MultiPayment demoMultiPayment demo = (Inr (), s')"
  by (rule multiPayment_accepted [OF demo_indexed(1) demo_payments(3) _ demo_payments(1,2)])
    (simp_all add: tx_defs baseCheck_def nonceOf_def)

theorem multiPayment_effect_witness:
  "wbalance (objs (snd (applyTx demoEnv MultiPayment demoMultiPayment demo)) 0) = 85"
proof -
  obtain s' where s': "applyTx demoEnv MultiPayment demoMultiPayment demo = (Inr (), s')"
    using demo_multiPayment by blast
  show ?thesis
    using multiPayment_effect [OF demo_indexed(1) demo_payments(3,1,2) s']
    by (simp add: s' shiftBal_def paymentsTo_def) (simp add: tx_defs)
qed

text \<open>A multi-payment that applies is undone exactly by reverting it.\<close>

theorem multiPayment_roundtrip:
  assumes "indexed s pk r" and "senderPublicKey (data t) = Some pk"
    and "as_payments (asset (data t)) = Some ps" and "allKnown s ps"
    and "applyTx E MultiPayment t s = (Inr u, s')"
  shows "revertTx E MultiPayment t s' = (Inr (), s)"
  using assms by (rule multiPayment_revert_apply)

theorem multiPayment_roundtrip_witness:
  "revertTx demoEnv MultiPayment demoMultiPayment
    (snd (applyTx demoEnv MultiPayment demoMultiPayment demo)) = (Inr (), demo)"
  using multiPayment_roundtrip [OF demo_indexed(1) demo_payments(3,1,2)] demo_multiPayment by force

text \<open>C7: a vote, unvote or change of vote that applies is undone exactly by reverting it.\<close>

theorem vote_roundtrip:
  assumes "indexed s pk r" and "senderPublicKey (data t) = Some pk"
    and "as_votes (asset (data t)) = Some vs" and "as_unvotes (asset (data t)) = Some us"
    and "keysKnown s vs" and "keysKnown s us" and "wvote (objs s r) \<noteq> Some ''''"
    and "applyTx E Vote t s = (Inr u, s')"
  shows "revertTx E Vote t s' = (Inr (), s)"
  using assms by (rule vote_revert_apply)

lemma demo_unvote:
  "as_votes (asset (data demoUnvote)) = Some []" "as_unvotes (asset (data demoUnvote)) = Some [''b'']"
  "keysKnown demo []" "keysKnown demo [''b'']" "senderPublicKey (data demoUnvote) = Some ''a''"
  by (simp_all add: tx_defs keysKnown_def)

lemma demo_unvote_apply: "fst (applyTx demoEnv Vote demoUnvote demo) = Inr ()"
  by code_simp

lemma result_pair: "fst p = x \<Longrightarrow> p = (x, snd p)"
  by auto

theorem vote_roundtrip_witness:
  "revertTx demoEnv Vote demoUnvote (snd (applyTx demoEnv Vote demoUnvote demo)) = (Inr (), demo)"
  by (rule vote_roundtrip [OF demo_indexed(1) demo_unvote(5,1-4) _ result_pair [OF demo_unvote_apply]]) simp

text \<open>A validator registration on a known wallet: each rejection of its guard, in the code's order,
  leaves the state alone; otherwise the wallet pays, becomes a validator with that username and a
  vote balance of zero, and is found again under the username and its other keys only.\<close>

theorem registration_effect:
  assumes "indexed s pk r" and "senderPublicKey (data t) = Some pk" and "nonce (data t) \<noteq> None"
    and "as_username (asset (data t)) = Some un" and "\<forall>n. ix_inv (idx s Chain n)"
  shows "applyTx E ValidatorRegistration t s = registrationResult s (data t) r un"
  using assms by (rule registration_spec)

lemma demo_username: "as_username (asset (data demoRegistration)) = Some ''alice''"
    "senderPublicKey (data demoRegistration) = Some ''a''" "nonce (data demoRegistration) \<noteq> None"
  by (simp_all add: tx_defs)

lemma demo_registration_base: "baseCheck (objs demo 0) (data demoRegistration) = None"
  by (simp add: baseCheck_def tx_defs nonceOf_def)

lemma demo_registrationResult: "fst (registrationResult demo (data demoRegistration) 0 ''alice'') = Inr ()"
  using demo_registration_base by (simp add: registrationResult_def isValidator_def hasMultiSignature_def)

theorem registration_effect_witness:
  "fst (applyTx demoEnv ValidatorRegistration demoRegistration demo) = Inr ()"
  using registration_effect [OF demo_indexed(1) demo_username(2,3,1), of demoEnv] demo_inv
  by (simp add: demo_registrationResult)

text \<open>Reverting a registration that applied restores every wallet and every lookup.\<close>

theorem registration_roundtrip:
  assumes "indexed s pk r" and "senderPublicKey (data t) = Some pk" and "ownKeys s r"
    and "as_username (asset (data t)) = Some un"
    and "applyTx E ValidatorRegistration t s = (Inr u, s')"
  shows "\<exists>s''. revertTx E ValidatorRegistration t s' = (Inr (), s'') \<and> sameRepo s s''"
  using assms by (rule registration_revert_apply)

theorem registration_roundtrip_witness:
  "\<exists>s' s''. applyTx demoEnv ValidatorRegistration demoRegistration demo = (Inr (), s') \<and>
    revertTx demoEnv ValidatorRegistration demoRegistration s' = (Inr (), s'') \<and> sameRepo demo s''"
proof -
  have "registrationGuard demoEnv demoRegistration 0 demo = (Inr (), demo)"
    using registrationGuard_known [OF demo_indexed(1) demo_username(2,1), of demoEnv] demo_registration_base
    by (simp add: isValidator_def hasMultiSignature_def)
  then obtain s' where s': "applyTx demoEnv ValidatorRegistration demoRegistration demo = (Inr (), s')"
    using registration_accepted [OF demo_indexed(1) demo_username(2,3,1) _ demo_registration_base] by blast
  show ?thesis using registration_roundtrip [OF demo_indexed(1) demo_username(2) demo_own demo_username(1) s'] s'
    by blast
qed


text \<open>C8: no transaction of any type can be sent by a wallet that has a multi-signature: its guard
  never passes, because the base class asks for an attribute that no handler makes known.\<close>

theorem multiSignature_wallet_blocked:
  assumes "isMultiSig r s"
  shows "throwIfCannotBeApplied E h t r s \<noteq> (Inr u, s')"
  using guard_multiSig assms unfolding blocked_def by blast

theorem multiSignature_wallet_blocked_witness:
  "throwIfCannotBeApplied demoEnv Transfer demoTransfer 0
    (demo\<lparr>objs := (objs demo)(0 := alice\<lparr>wmultiSignature := Some \<lparr>ms_min = 1, ms_publicKeys = []\<rparr>\<rparr>)\<rparr>) \<noteq> (Inr (), demo)"
  by (rule multiSignature_wallet_blocked) (simp add: isMultiSig_def hasMultiSignature_def)

section \<open>Vote balances\<close>

text \<open>C9: when every validator's vote balance is the sum of its voters' balances, it is so again after a
  transfer with its vote balance updates, whoever votes for whom (the sender may vote for the
  recipient, or send to himself).\<close>

theorem transfer_keeps_votes:
  assumes "indexed s pk r" and "senderPublicKey (data t) = Some pk" and "nonce (data t) \<noteq> None"
    and "recipientId (data t) = Some a" and "a \<noteq> ''''" and "lookup s Chain Addresses a = Some q"
    and "baseCheck (objs s r) (data t) = None" and "keys_ok s" and "votes_ok s"
    and "activatedHandlerForData hs (data t) = Inr Transfer" and "isCore T_Transfer (data t)"
  shows "\<exists>s'. applyTransaction E hs t s = (Inr (), s') \<and> votes_ok s'"
  using assms by (rule transfer_votes)

theorem transfer_keeps_votes_witness:
  "\<exists>s'. applyTransaction demoEnv coreHandlers demoTransfer demo = (Inr (), s') \<and> votes_ok s'"
  by (rule transfer_keeps_votes [OF demo_indexed(1) _ _ _ _ _ demo_baseCheck demo_keys demo_votes demo_handlers(1),
        where a = "''B''"])
    (simp_all add: tx_defs Let_def isCore_def type_defs)

text \<open>The same for a multi-payment, with any number of payments, several to one voter included.\<close>

theorem multiPayment_keeps_votes:
  assumes "indexed s pk r" and "senderPublicKey (data t) = Some pk"
    and "as_payments (asset (data t)) = Some ps" and "allKnown s ps" and "keys_ok s" and "votes_ok s"
    and "activatedHandlerForData hs (data t) = Inr MultiPayment" and "isMultiPayment (data t)"
    and "amount (data t) = 0" and "\<not> truthyStr (recipientId (data t))"
    and "applyTx E MultiPayment t s = (Inr u, s2)"
  shows "\<exists>s'. applyTransaction E hs t s = (Inr (), s') \<and> votes_ok s'"
  using assms by (rule multiPayment_votes)

theorem multiPayment_keeps_votes_witness:
  "\<exists>s'. applyTransaction demoEnv coreHandlers demoMultiPayment demo = (Inr (), s') \<and> votes_ok s'"
proof -
  have "isMultiPayment (data demoMultiPayment)" "amount (data demoMultiPayment) = 0"
      "\<not> truthyStr (recipientId (data demoMultiPayment))"
    by (simp_all add: isMultiPayment_def isCore_def tx_defs type_defs)
  then show ?thesis
    using multiPayment_keeps_votes [OF demo_indexed(1) demo_payments(3,1,2) demo_keys demo_votes demo_handlers(2)]
      demo_multiPayment by blast
qed

text \<open>C10: the same for a vote: the old validator loses the voter's balance from before the fee, the new
  one gains the balance after it.\<close>

theorem vote_keeps_votes:
  assumes "indexed s pk r" and "senderPublicKey (data t) = Some pk"
    and "as_votes (asset (data t)) = Some vs" and "as_unvotes (asset (data t)) = Some us"
    and "keysKnown s vs" and "keysKnown s us" and "wvote (objs s r) \<noteq> Some ''''"
    and "keys_ok s" and "votes_ok s" and "activatedHandlerForData hs (data t) = Inr Vote"
    and "isCore T_Vote (data t)" and "amount (data t) = 0" and "\<not> truthyStr (recipientId (data t))"
    and "applyTx E Vote t s = (Inr u, s2)"
  shows "\<exists>s'. applyTransaction E hs t s = (Inr (), s') \<and> votes_ok s'"
  using assms by (rule vote_votes)

theorem vote_keeps_votes_witness:
  "\<exists>s'. applyTransaction demoEnv coreHandlers demoUnvote demo = (Inr (), s') \<and> votes_ok s'"
  by (rule vote_keeps_votes [OF demo_indexed(1) demo_unvote(5,1-4) _ demo_keys demo_votes demo_handlers(3)
        _ _ _ result_pair [OF demo_unvote_apply]])
    (simp_all add: isCore_def tx_defs type_defs)

section \<open>Blocks\<close>

text \<open>C11: a block that is accepted leaves well-formed repositories and stores, is the last block, and has
  changed the total balance by what the validator mutators mint less what its transactions burn.\<close>

theorem applyBlock_totals:
  assumes "repo_ok (ch_wallets s)" and "store_ok (ch_store s)"
    and "applyBlock E hs ms b s = (Inr u, s')"
  shows "repo_ok (ch_wallets s') \<and> store_ok (ch_store s') \<and>
    lastOf (st_lastBlocks (ch_store s')) = Some b \<and>
    totalBalance (ch_wallets s') = totalBalance (ch_wallets s)
      - (\<Sum>t\<leftarrow>transactions b. burnedBy hs (data t)) + (\<Sum>m\<leftarrow>ms. minted m (bdata b))"
  using applyBlock_Inr [OF assms] by simp

lemma demo_applyBlock: "fst (applyBlock demoEnv coreHandlers [BalanceMutator] demoBlock demoChain) = Inr ()"
  by code_simp

theorem applyBlock_totals_witness:
  "totalBalance (ch_wallets (snd (applyBlock demoEnv coreHandlers [BalanceMutator] demoBlock demoChain))) = 152"
  using applyBlock_totals [OF _ _ result_pair [OF demo_applyBlock]] demo_ok demo_store_ok demo_total
  by (simp add: demoChain_def demoBlock_def demoHeader_def)

text \<open>C12: the last blocks stay consecutive, within the bound and under their heights; the block set is the
  last one, also after a fork replaced the blocks above it, and the configuration is at its height.\<close>

theorem setLastBlock_sequence:
  assumes "store_ok s" and "setLastBlock b s = (Inr u, s')"
  shows "store_ok s' \<and> lastOf (st_lastBlocks s') = Some b \<and>
    cheight (st_config s') = Some (height (bdata b)) \<and> st_noBlockCounter s' = 0"
  using assms by (rule setLastBlock_ok)

theorem setLastBlock_sequence_witness:
  "store_ok (snd (setLastBlock demoBlock demoStore))"
proof -
  have "fst (setLastBlock demoBlock demoStore) = Inr ()" by code_simp
  then show ?thesis using setLastBlock_sequence [OF demo_store_ok result_pair] by blast
qed


section \<open>Configuration, rounds and slots\<close>

text \<open>C13: whatever height the cursor was moved to before, \<open>getMilestone\<close> returns the last milestone that
  starts at or below the asked height (a TypeError when there is none) and leaves a usable cursor.\<close>

theorem getMilestone_correct:
  assumes "cfg_ok c" and "milestones c = Some ms"
  shows "fst (getMilestone h c) = (case milestoneAt ms (askedHeight h c) of
      None \<Rightarrow> Inl JsTypeError | Some m \<Rightarrow> Inr m) \<and>
    cfg_ok (snd (getMilestone h c)) \<and> milestones (snd (getMilestone h c)) = Some ms"
  using assms by (rule getMilestone_at)

theorem getMilestone_correct_witness:
  "fst (getMilestone (Some 3) (snd (getMilestone (Some 9) demoCfg))) = Inr demoMilestone"
proof -
  have ms: "milestones demoCfg = Some demoMilestones" by (simp add: demoCfg_def)
  have "cheight (snd (getMilestone (Some 9) demoCfg)) = Some 1" by code_simp
  then show ?thesis
    using getMilestone_correct [OF demo_cfg_ok ms, of "Some 9"]
      getMilestone_correct [of "snd (getMilestone (Some 9) demoCfg)" demoMilestones "Some 3"]
    by (simp add: askedHeight_def milestoneAt_def demoMilestones_def demoMilestone_def)
qed

text \<open>C14: setting milestones succeeds exactly when every change of the number of validators is a whole number
  of rounds after the milestone that set the number before it. Then the configuration holds the milestones by
  height, each with every key as the last milestone up to it sets it, and its lookups are well-defined;
  otherwise the error names a height where a change breaks the rule and the lookups stay as they were.\<close>

theorem setConfig_wellformed:
  "case setConfig ms c of
      (Inr u, c') \<Rightarrow>
        (\<forall>i. Suc i < length (countMilestones ms) \<longrightarrow>
          startsRound (countMilestones ms ! i) (countMilestones ms ! Suc i)) \<and>
        (\<exists>merged. milestones c' = Some merged \<and> map m_height merged = sort (map m_height ms) \<and>
          (\<forall>i < length ms. \<forall>key \<in> set milestoneKeys.
            key (merged ! i) = lastSet key (take (Suc i) (sort_key m_height ms)))) \<and>
        cheight c' = cheight c \<and> (ms \<noteq> [] \<longrightarrow> cfg_ok c')
    | (Inl e, c') \<Rightarrow> c' = c \<and> (\<exists>i. Suc i < length (countMilestones ms) \<and>
        \<not> startsRound (countMilestones ms ! i) (countMilestones ms ! Suc i) \<and>
        e = CryptoError (InvalidMilestoneConfigurationError (m_height (countMilestones ms ! Suc i))))"
  by (rule setConfig_cases)

theorem setConfig_wellformed_witness:
  "(\<exists>c'. setConfig (rev demoMilestones) newCfg = (Inr (), c') \<and> cfg_ok c' \<and>
      Option.bind (milestones c') (\<lambda>ms. m_activeValidators (ms ! 1)) = Some 4) \<and>
    setConfig [demoMilestone\<lparr>m_height := 4, m_activeValidators := Some 4\<rparr>, demoMilestone] newCfg =
      (Inl (CryptoError (InvalidMilestoneConfigurationError 4)), newCfg)"
proof
  have "fst (setConfig (rev demoMilestones) newCfg) = Inr ()" by code_simp
  then obtain c' where run: "setConfig (rev demoMilestones) newCfg = (Inr (), c')" by (metis result_pair)
  have "lastSet m_activeValidators (take 2 (sort_key m_height (rev demoMilestones))) = Some 4" by code_simp
  then show "\<exists>c'. setConfig (rev demoMilestones) newCfg = (Inr (), c') \<and> cfg_ok c' \<and>
      Option.bind (milestones c') (\<lambda>ms. m_activeValidators (ms ! 1)) = Some 4"
    using setConfig_wellformed [where ms = "rev demoMilestones" and c = newCfg] run
    by (auto simp: milestoneKeys_def demoMilestones_def eval_nat_numeral)
next
  let ?bad = "[demoMilestone\<lparr>m_height := 4, m_activeValidators := Some 4\<rparr>, demoMilestone]"
  have bad: "countMilestones ?bad = rev ?bad" by code_simp
  have "\<not> startsRound (rev ?bad ! 0) (rev ?bad ! Suc 0)" by code_simp
  then show "setConfig ?bad newCfg = (Inl (CryptoError (InvalidMilestoneConfigurationError 4)), newCfg)"
    using setConfig_wellformed [where ms = ?bad and c = newCfg] by (auto simp: bad split: prod.splits sum.splits)
qed

text \<open>C15: every height lies in the round computed for it: at or above the round's first height and less
  than a round length above it.\<close>

theorem calculateRound_contains:
  assumes "positiveCounts ms" and "0 < activeValidatorsAt ms 1" and "1 \<le> h"
    and "calculateRound ms h = Inr i"
  shows "ri_roundHeight i \<le> h \<and> h < ri_roundHeight i + ri_maxValidators i"
  using assms by (rule calculateRound_bounds)

lemma demo_round6: "calculateRound demoMilestones 6 =
    Inr \<lparr>ri_round = 3, ri_roundHeight = 5, ri_nextRound = 3, ri_maxValidators = 4\<rparr>"
  by code_simp

lemma demo_round4: "calculateRound demoMilestones 4 =
    Inr \<lparr>ri_round = 2, ri_roundHeight = 3, ri_nextRound = 3, ri_maxValidators = 2\<rparr>"
  by code_simp

theorem calculateRound_contains_witness:
  "(5::int) \<le> 6 \<and> (6::int) < 5 + 4"
  using calculateRound_contains [OF demo_positive(1,3) _ demo_round6] by simp

text \<open>C16: the round announced as the next one is the round of the next height, also across a milestone
  that changes the number of validators.\<close>

theorem calculateRound_announces_next:
  assumes "positiveCounts ms" and "0 < activeValidatorsAt ms 1" and "1 \<le> h"
    and "calculateRound ms h = Inr i" and "calculateRound ms (h + 1) = Inr j"
  shows "ri_round j = ri_nextRound i"
  using assms by (rule calculateRound_next)

theorem calculateRound_announces_next_witness:
  "(\<exists>i j. calculateRound demoMilestones 4 = Inr i \<and> calculateRound demoMilestones 5 = Inr j \<and>
    ri_round j = ri_nextRound i)"
proof -
  have "calculateRound demoMilestones (4 + 1) =
      Inr \<lparr>ri_round = 3, ri_roundHeight = 5, ri_nextRound = 3, ri_maxValidators = 4\<rparr>"
    by code_simp
  then show ?thesis
    using calculateRound_announces_next [OF demo_positive(1,3) _ demo_round4] demo_round4 by force
qed

text \<open>C17: the slot computed for any timestamp contains it, lasts one block time, may be forged in during its
  first half and is the slot of exactly the timestamps between its start and end; the time computed for its
  number is its start. The time computed for a slot number is the start of the slot with that number.\<close>

theorem slot_time_roundtrip:
  assumes "positiveTimes (se_milestones E)"
  shows "(\<forall>i. getSlotInfo E (Some t) h = Inr i \<longrightarrow>
      si_startTime i \<le> t \<and> t \<le> si_endTime i \<and> si_endTime i = si_startTime i + si_blockTime i - 1 \<and>
      (si_forgingStatus i \<longleftrightarrow> t < si_startTime i + si_blockTime i div 2) \<and>
      (\<forall>u. getSlotNumber E (Some u) h = Inr (si_slotNumber i) \<longleftrightarrow> si_startTime i \<le> u \<and> u \<le> si_endTime i) \<and>
      getSlotTime E (si_slotNumber i) h = Inr (si_startTime i)) \<and>
    (\<forall>n t'. getSlotTime E n h = Inr t' \<longrightarrow>
      (\<exists>i. getSlotInfo E (Some t') h = Inr i \<and> si_slotNumber i = n \<and> si_startTime i = t'))"
proof (cases "spanAt E (getLatestHeight E h)")
  case (Inr s)
  note pos = spanAt_pos [OF assms Inr]
  have info: "getSlotInfo E (Some u) h = Inr (slotInfoIn s u)" for u
    by (simp add: getSlotInfo_def Inr getTime_def)
  have time: "getSlotTime E n h = Inr (sp_lastEnd s + (n - sp_totalSlots s) * sp_blockTime s)" for n
    by (simp add: getSlotTime_def Inr)
  have number: "getSlotNumber E (Some u) h = Inr (si_slotNumber (slotInfoIn s u))" for u
    by (simp add: getSlotNumber_def getTime_def info)
  have start: "si_startTime (slotInfoIn s (sp_lastEnd s + (n - sp_totalSlots s) * sp_blockTime s)) =
      sp_lastEnd s + (n - sp_totalSlots s) * sp_blockTime s" for n
    using pos by (simp add: slotInfoIn_def Let_def)
  note facts = slotInfoIn_bounds [OF pos, of t] slotInfoIn_shape [of s t] slotNumber_iff [OF pos, of _ t]
  have now: "si_startTime i \<le> t \<and> t \<le> si_endTime i \<and> si_endTime i = si_startTime i + si_blockTime i - 1 \<and>
      (si_forgingStatus i \<longleftrightarrow> t < si_startTime i + si_blockTime i div 2) \<and>
      (\<forall>u. getSlotNumber E (Some u) h = Inr (si_slotNumber i) \<longleftrightarrow> si_startTime i \<le> u \<and> u \<le> si_endTime i) \<and>
      getSlotTime E (si_slotNumber i) h = Inr (si_startTime i)" if "getSlotInfo E (Some t) h = Inr i" for i
  proof -
    have i: "i = slotInfoIn s t" using that by (simp add: info)
    show ?thesis unfolding i time number sum.inject
      by (intro conjI allI facts facts(1) [THEN conjunct1] facts(1) [THEN conjunct2])
  qed
  have at: "\<exists>i. getSlotInfo E (Some t') h = Inr i \<and> si_slotNumber i = n \<and> si_startTime i = t'"
    if "getSlotTime E n h = Inr t'" for n t'
  proof -
    have t': "t' = sp_lastEnd s + (n - sp_totalSlots s) * sp_blockTime s" using that by (simp add: time)
    show ?thesis unfolding info t' using start [of n] slotInfoIn_slotTime [OF pos, of n] by blast
  qed
  show ?thesis by (rule conjI, (rule allI, rule impI, erule now), (rule allI, rule allI, rule impI, erule at))
qed (simp add: getSlotInfo_def getSlotTime_def)

theorem slot_time_roundtrip_witness:
  "(\<exists>i. getSlotInfo demoSlots (Some 127) None = Inr i \<and> si_slotNumber i = 3 \<and>
      si_startTime i \<le> 127 \<and> 127 \<le> si_endTime i) \<and>
    (\<exists>i. getSlotInfo demoSlots (Some 124) None = Inr i \<and> si_slotNumber i = 3 \<and> si_startTime i = 124)"
proof -
  have pos: "positiveTimes (se_milestones demoSlots)" using demo_positive(2) by (simp add: demoSlots_def)
  let ?i = "\<lparr>si_blockTime = 8, si_startTime = 124, si_endTime = 131, si_slotNumber = 3, si_forgingStatus = True\<rparr>"
  have info: "getSlotInfo demoSlots (Some 127) None = Inr ?i" by code_simp
  have time: "getSlotTime demoSlots 3 None = Inr 124" by code_simp
  have "si_startTime ?i \<le> 127 \<and> 127 \<le> si_endTime ?i"
    using slot_time_roundtrip [OF pos, of 127 None, THEN conjunct1, rule_format, OF info] by blast
  then show ?thesis
    using info slot_time_roundtrip [OF pos, THEN conjunct2, rule_format, OF time] by fastforce
qed

text \<open>C18: a block that is chained to its predecessor has a later timestamp.\<close>

theorem chained_block_later:
  assumes "positiveTimes (se_milestones E)" and "isBlockChained E prev nxt = Inr True"
  shows "timestamp prev < timestamp nxt"
  using assms by (rule chained_later)

theorem chained_block_later_witness:
  "isBlockChained demoSlots (bdata demoGenesis) (bdata demoBlock) = Inr True \<and>
    timestamp (bdata demoGenesis) < timestamp (bdata demoBlock)"
proof -
  have "isBlockChained demoSlots (bdata demoGenesis) (bdata demoBlock) = Inr True" by code_simp
  then show ?thesis using chained_block_later [of demoSlots "bdata demoGenesis" "bdata demoBlock"] demo_positive(2)
    by (simp add: demoSlots_def)
qed

text \<open>C19: the forging validator is found by counting the slots after the last change of the number of
  validators, modulo that number, and the next one follows it. That takes the time of the change as a number:
  with a lookup that answers at once (as the tests put in place) the indexes are numbers at every height. In
  a running node the lookup is asynchronous and its promise is not awaited, so before the first change the
  indexes are those same numbers and from the first change on they are \<open>NaN\<close>.\<close>

theorem forger_indexes:
  assumes "forgingInfoWith L E t h = Inr i"
  shows "(\<exists>slot. getSlotInfo E (Some t) (Some h) = Inr slot \<and>
      fi_blockTimestamp i = si_startTime slot \<and> fi_canForge i = si_forgingStatus slot \<and>
      (if countChanges E h = []
       then fi_currentForger i = Some (jsMod (si_slotNumber slot) (activeValidatorsAt (se_milestones E) 1)) \<and>
         fi_nextForger i = map_option (\<lambda>c. jsMod (c + 1) (activeValidatorsAt (se_milestones E) 1)) (fi_currentForger i)
       else let change = last (countChanges E h) in
         fi_nextForger i = map_option (\<lambda>c. jsMod (c + 1) (mr_data change)) (fi_currentForger i) \<and>
         (\<exists>v. L (mr_height change - 1) = Inr v \<and>
           (case v of Promise p \<Rightarrow> fi_currentForger i = None
            | Seconds stop \<Rightarrow> \<exists>n. getSlotNumber E (Some stop) (Some (mr_height change - 1)) = Inr n \<and>
                fi_currentForger i = Some (jsMod (si_slotNumber slot - (n + 1)) (mr_data change)))))) \<and>
    (\<forall>j. calculateForgingInfo E t h = Inr j \<longrightarrow>
      (if countChanges E h = [] then j = i else fi_currentForger j = None \<and> fi_nextForger j = None))"
proof
  show "\<forall>j. calculateForgingInfo E t h = Inr j \<longrightarrow>
      (if countChanges E h = [] then j = i else fi_currentForger j = None \<and> fi_nextForger j = None)"
  proof (intro allI impI)
    fix j assume "calculateForgingInfo E t h = Inr j"
    then show "if countChanges E h = [] then j = i else fi_currentForger j = None \<and> fi_nextForger j = None"
      using forgingInfoWith_index [of "asyncLookup E" E t h j] forgingInfoWith_index [OF assms]
      by (auto simp: calculateForgingInfo_def asyncLookup_def Let_def split: if_splits)
  qed
qed (rule forgingInfoWith_index [OF assms])

theorem forger_indexes_witness:
  "(\<exists>i. forgingInfoWith stubbedLookup shiftSlots 120 6 = Inr i \<and> fi_currentForger i = Some 1 \<and> fi_nextForger i = Some 2) \<and>
    (\<exists>j. calculateForgingInfo shiftSlots 120 6 = Inr j \<and> fi_currentForger j = None \<and> fi_nextForger j = None)"
proof -
  have run: "forgingInfoWith stubbedLookup shiftSlots 120 6 = Inr \<lparr>fi_blockTimestamp = 120, fi_canForge = True,
      fi_currentForger = Some 1, fi_nextForger = Some 2\<rparr>" by code_simp
  have "countChanges shiftSlots 6 \<noteq> []" by code_simp
  moreover have "calculateForgingInfo shiftSlots 120 6 = Inr \<lparr>fi_blockTimestamp = 120, fi_canForge = True,
      fi_currentForger = None, fi_nextForger = None\<rparr>" by code_simp
  ultimately show ?thesis using run forger_indexes [OF run] by auto
qed


section \<open>The transaction pool\<close>

text \<open>C20: in every pool reached from the empty one by adding, removing, forging, cleaning up, re-adding (also
  with forged transactions of reverted blocks), flushing and disposing, whatever fails on the way, the stored
  rows are exactly the queued transactions, and every queue holds only transactions of its sender. Every public
  key has an address and the pool takes at least one transaction (\<open>goodEnv\<close>, the limit); a removal names the
  sender; when re-adding, a row decodes to the transaction it was stored for and the forged transactions to
  distinct ones, none of them stored (\<open>freshForged\<close>).\<close>

theorem pool_stays_consistent:
  assumes "reachablePool Es s"
  shows "pool_ok s"
  using assms by (rule reachable_pool_ok)

theorem pool_stays_consistent_witness:
  "pool_ok (snd (addTransaction demoPoolEnv demoTransfer demoEmptyPool))"
proof -
  have "poolStep demoPoolEnv demoEmptyPool (snd (addTransaction demoPoolEnv demoTransfer demoEmptyPool))"
    by (rule poolStep.add [OF demo_goodEnv]) (simp add: demo_pool_limit)
  then have "reachablePool {demoPoolEnv} (snd (addTransaction demoPoolEnv demoTransfer demoEmptyPool))"
    unfolding demoEmptyPool_def by (blast intro: reachablePool.step [OF reachablePool.start])
  then show ?thesis by (rule pool_stays_consistent)
qed

text \<open>C21: adding a transaction has three outcomes: it was stored already and nothing changes; it is taken,
  pending, and the pool is within its limit; or it is refused with an error of the pool and no
  transaction was gained.\<close>

theorem addTransaction_outcome:
  fixes E :: "('h, 'w) pool_env" and s :: "'w pool"
  assumes "goodEnv E" and "1 \<le> pe_maxTransactionsInPool E" and "pool_ok s" and "\<not> pl_disposed s"
    and "txId t = Some i" and "senderPublicKey (data t) = Some k"
  shows "case addTransaction E t s of
      (Inr u, s') \<Rightarrow> \<not> sto_has i (rowsOf s) \<and> pool_ok s' \<and> t \<in> set (pending (view s')) \<and>
        mset (pending (view s')) \<subseteq># add_mset t (mset (pending (view s))) \<and>
        int (getPoolSize s') \<le> pe_maxTransactionsInPool E
    | (Inl e, s') \<Rightarrow> (if sto_has i (rowsOf s) then e = TransactionAlreadyInPoolError \<and> s' = s
        else pool_ok s' \<and> mset (pending (view s')) \<subseteq># mset (pending (view s)) \<and> poolErrorType e \<noteq> None)"
  by (rule addTransaction_cases [OF assms]) auto

theorem addTransaction_outcome_witness:
  "case addTransaction demoPoolEnv demoTransfer demoEmptyPool of
      (Inr u, s') \<Rightarrow> demoTransfer \<in> set (pending (view s')) | (Inl e, s') \<Rightarrow> poolErrorType e \<noteq> None"
  using addTransaction_outcome [OF demo_goodEnv _ demo_pool_ok demo_pool_tx] demo_pool_limit
  by (auto simp: demoEmptyPool_def emptyPool_def sto_has_def split: prod.splits sum.splits)

text \<open>C22: cleaning up ends, without an error, with at most the configured number of transactions, none of
  them new: every round of the loop that drops the lowest priority makes the pool smaller.\<close>

theorem cleanUp_returns:
  assumes "goodEnv E" and "0 \<le> pe_maxTransactionsInPool E" and "pool_ok s" and "\<not> pl_disposed s"
  shows "\<exists>s'. cleanUp E s = (Inr (), s') \<and> pool_ok s' \<and> int (getPoolSize s') \<le> pe_maxTransactionsInPool E \<and>
    mset (pending (view s')) \<subseteq># mset (pending (view s))"
  by (rule cleanUp_run [OF assms]) blast

theorem cleanUp_returns_witness:
  "\<exists>s'. cleanUp demoPoolEnv demoEmptyPool = (Inr (), s') \<and> int (getPoolSize s') \<le> 2"
  using cleanUp_returns [OF demo_goodEnv _ demo_pool_ok] demo_pool_limit by auto

text \<open>C23: the transactions chosen for a block are pending, without repetitions, in the order of their fees,
  unexpired, and within the limits of the milestone for their number and their bytes.\<close>

theorem candidates_within_limits:
  fixes E :: "('h, 'w) pool_env" and s :: "'w pool"
  assumes "queues_ok (view s)" and "m_maxPayload ms = Some p" and "blockHeaderSize \<le> p"
    and "m_maxTransactions ms = Some n" and "0 \<le> n"
  shows "\<exists>cands failed w'. getBlockCandidateTransactions E ms s w = (Inr (cands, failed), w') \<and>
    mset cands \<subseteq># mset (pending (view s)) \<and> sorted (map (\<lambda>t. - txFee t) cands) \<and> int (length cands) \<le> n \<and>
    payloadSize cands \<le> p - blockHeaderSize \<and> distinct (map txId cands) \<and>
    (\<forall>t \<in> set cands. isExpired (pe_lastHeight E) t = Inr False)"
  by (rule candidates_spec [OF assms, of E w]) blast

theorem candidates_within_limits_witness:
  "\<exists>cands failed w'. getBlockCandidateTransactions demoPoolEnv
    (demoMilestone\<lparr>m_maxPayload := Some 2000, m_maxTransactions := Some 1\<rparr>) demoEmptyPool () =
      (Inr (cands, failed), w') \<and> int (length cands) \<le> 1"
  using candidates_within_limits [of demoEmptyPool
      "demoMilestone\<lparr>m_maxPayload := Some 2000, m_maxTransactions := Some 1\<rparr>" 2000 1 demoPoolEnv "()"] demo_pool_ok
  by (auto simp: pool_ok_def synced_def blockHeaderSize_def)

text \<open>C24: merging sources that are sorted by a key, one smallest head at a time, gives the same keys as
  sorting all their elements.\<close>

theorem merge_is_sort:
  assumes "sources_sorted key rs"
  shows "map key (drain (byKeys key) rs) = sort (map key (remaining_of rs))"
proof -
  have "mset (map key (drain (byKeys key) rs)) = mset (map key (remaining_of rs))"
    using drain_mset [of "byKeys key" rs] by (metis mset_map)
  then show ?thesis using drain_sorted [OF assms] by (metis properties_for_sort)
qed

theorem merge_is_sort_witness:
  "map id (drain (byKeys id) (newIteratorMany [[1, 4, 6], [], [2, 3 :: int]])) = [1, 2, 3, 4, 6]"
  by (subst merge_is_sort) (simp_all add: sources_sorted_def remaining_of_def)

section \<open>Accepting blocks\<close>

text \<open>C25: the block verifier accepts exactly the blocks that meet all its rules: reward, version, time,
  size, number and sums of the transactions, their own validity and the payload hash. (The promise of the
  signature check is not awaited, so the signature is not among them.)\<close>

theorem block_verified_exactly: "vr_verified (verifyBlock V b) \<longleftrightarrow> validBlock V b"
  by (rule verified_iff)

text \<open>C26: the block processor hands a block to the accepting handler exactly when it meets all conditions
  (only the wallet repository was touched by then); otherwise it is never accepted, and the last blocks,
  the database, the pool and the blocks of the round are what they were.\<close>

theorem process_decides:
  "case process_block C b s of (r, s') \<Rightarrow>
     if acceptable C b s then \<exists>t. walletsOnly s t \<and> acceptBlockHandler C b t = (r, s')
     else r \<noteq> Inr Accepted \<and> chainSame s s'"
  using process_block_decides [of s C b] by (auto simp: decides_def)

text \<open>C27: the accepting handler ends in one of three ways and never throws: the block is the new last one;
  or it is refused and the chain ends at the old height, by restoring it after whatever failed; or even
  restoring failed, the result says so, and the store of last blocks is still well-formed.\<close>

theorem accept_outcomes:
  assumes "endsWith l (storeOf s)" and "height (bdata b) = height (bdata l) + 1"
  shows "case acceptBlockHandler C b s of
      (Inr Accepted, s') \<Rightarrow> endsWith b (storeOf s')
    | (Inr Rejected, s') \<Rightarrow> \<exists>p. endsWith p (storeOf s') \<and> height (bdata p) = height (bdata l)
    | (Inr Corrupted, s') \<Rightarrow> store_ok (storeOf s')
    | _ \<Rightarrow> False"
  using assms by (rule accept_outcome [where C = C]) auto

theorem accept_outcomes_witness:
  "fst (acceptBlockHandler demoChainEnv demoBlock demoNode) \<in> {Inr Accepted, Inr Rejected, Inr Corrupted}"
  using accept_outcomes [OF demo_ends, of demoBlock demoChainEnv]
  by (auto simp: chain_defs demoBlock_def demoGenesis_def split: prod.splits sum.splits block_result.splits)

section \<open>The node\<close>



text \<open>C29: when the last block and the last download are recent and nothing holds the node back, the state
  machine runs from the start of a synchronisation to its idle state, its timer armed and the chain
  and the queue untouched.\<close>

theorem synchronised_node_idles:
  assumes "bn_machine s = \<lparr>mc_state = SyncWithNetwork Syncing, mc_pending = [A_checkLastDownloadedBlockSynced]\<rparr>"
    and "syncedNow C s"
  shows "bn_machine (runActions C 6 s) = \<lparr>mc_state = Idle, mc_pending = []\<rparr> \<and>
    st_started (storeOf (runActions C 6 s)) \<and> st_wakeUp (storeOf (runActions C 6 s)) \<and>
    bn_queue (runActions C 6 s) = bn_queue s \<and> st_lastBlocks (storeOf (runActions C 6 s)) = st_lastBlocks (storeOf s)"
  using assms by (rule sync_cycle)

theorem synchronised_node_idles_witness:
  "mc_state (bn_machine (runActions demoChainEnv 6 demoNode)) = Idle"
  using synchronised_node_idles [OF _ demo_synced] by (simp add: node_defs)

text \<open>C30: a forked node stays so: from the fork state only stopping leaves, since no action dispatches the
  success that would return to the synchronisation and only the initialisation dispatches a failure.\<close>

theorem fork_state_is_final:
  assumes "machineSteps m m'" and "forkTrap m"
  shows "forkTrap m'"
  using assms by (rule forkTrap_steps)

theorem fork_state_is_final_witness:
  "forkTrap (transition E_STOP (transition E_WAKEUP \<lparr>mc_state = ForkState, mc_pending = []\<rparr>))"
proof (rule fork_state_is_final)
  let ?m = "\<lparr>mc_state = ForkState, mc_pending = []\<rparr>"
  have "machineStep ?m (transition E_WAKEUP ?m)"
    and "machineStep (transition E_WAKEUP ?m) (transition E_STOP (transition E_WAKEUP ?m))"
    by (rule machineStep.outside; simp add: external_def)+
  then show "machineSteps ?m (transition E_STOP (transition E_WAKEUP ?m))"
    using machineSteps.stays machineSteps.follows by blast
qed (simp add: forkTrap_def)

section \<open>Serialization\<close>

text \<open>C31: for a transaction of any of the six types whose fields fit their formats and that carries no
  multi-signatures (which the deserializer does not read), the deserializer reads back what the serializer
  wrote, and the factory rebuilds it from the bytes with its hash as identifier.\<close>

theorem transaction_roundtrip:
  assumes "tx_ok V c (data t)" and "schemaAccepts V strict (withId V c (data t))"
  shows "\<exists>bs. fst (serializeTx V c noOptions t) = Inr bs \<and>
    deserializeTx V bs = Inr \<lparr>data = (data t)\<lparr>tid := None\<rparr>, serialized = bs\<rparr> \<and>
    tx_fromBytes V bs strict = Inr \<lparr>data = (data t)\<lparr>tid := Some (hexOf (te_sha256 V bs))\<rparr>, serialized = bs\<rparr>"
  using serializeTx_run [OF assms(1)] deserializeTx_enc [OF assms(1)] fromBytes_ok [OF assms]
  by (simp add: withId_def)

theorem transaction_roundtrip_witness:
  "\<exists>bs t. fst (serializeTx demoTxEnv TransferTransaction noOptions \<lparr>data = demoSigned, serialized = []\<rparr>) = Inr bs \<and>
    tx_fromBytes demoTxEnv bs True = Inr t \<and> amount (data t) = 20"
  using transaction_roundtrip [where t = "\<lparr>data = demoSigned, serialized = []\<rparr>", simplified, OF demo_tx_ok demo_schema]
  by (force simp: demoSigned_def)

text \<open>C32: a block whose header and transactions fit their formats is read back from what the serializer
  wrote, with its identifier and every transaction, in a buffer that is padded to its fixed size.\<close>

theorem block_roundtrip:
  assumes "block_ok V d ts"
  shows "\<exists>bs. serializeWithTransactions V (d, Some ts) = Inr bs \<and> length bs = bufferSize \<and>
    block_deserialize V bs False =
      Inr (d\<lparr>bid := Some (blockIdOf V d)\<rparr>, Some (map data (map (rebuilt V) ts)), map (rebuilt V) ts)"
proof -
  have "length (encHeader d @ encTxs V ts) \<le> bufferSize" using assms by (simp add: block_ok_def)
  then show ?thesis
    using serializeWithTransactions_run [OF assms] block_deserialize_run [OF assms] by (simp add: padded_def)
qed

theorem block_roundtrip_witness:
  "\<exists>bs b. serializeWithTransactions demoTxEnv (demoBlockData, Some [demoSigned]) = Inr bs \<and>
    block_deserialize demoTxEnv bs False = Inr b \<and> height (fst b) = 2 \<and> length (snd (snd b)) = 1"
  using block_roundtrip [OF demo_block_ok] by (force simp: demoBlockData_def)

text \<open>C33: the check of a multi-signature, with its early exits, returns what counting the good signatures
  gives, when each signature names a key that is there and no two name the same one.\<close>

theorem multiSignatures_counted:
  assumes "signatures d = Some ss" and "0 < ms_min ms"
    and "\<And>h. list_all (checkable V h (ms_publicKeys ms)) ss" and "distinct (map participant ss)"
  shows "fst (tx_verifySignatures V (Some ms) d) = (case fst (toHash V excludeBoth d) of
      Inl e \<Rightarrow> Inl e | Inr h \<Rightarrow> Inr (ms_min ms \<le> goodCount V h (ms_publicKeys ms) ss))"
  using assms signatureLoop_count [of 0 "ms_min ms" _ 0 ss]
  by (auto simp: tx_verifySignatures_def andThen_def liftE_def split: prod.splits sum.splits)

theorem multiSignatures_counted_witness:
  "case fst (tx_verifySignatures demoTxEnv (Some \<lparr>ms_min = 1, ms_publicKeys = [demoSignature]\<rparr>)
      (demoSigned\<lparr>signatures := Some [''00'' @ demoSignature]\<rparr>)) of Inl e \<Rightarrow> True | Inr ok \<Rightarrow> ok"
proof -
  let ?s = "''00'' @ demoSignature" and ?ms = "\<lparr>ms_min = 1, ms_publicKeys = [demoSignature]\<rparr>"
  have p: "participant ?s = Some 0" by (simp add: participant_def) code_simp
  have good: "checkable demoTxEnv h [demoSignature] ?s" "goodSignature demoTxEnv h [demoSignature] ?s" for h
    unfolding checkable_def goodSignature_def p
    by (simp_all add: publicKeyAt_def partialSignature_def demoTxEnv_def demo_signature_length)
  show ?thesis
    using multiSignatures_counted [of "demoSigned\<lparr>signatures := Some [?s]\<rparr>" "[?s]" ?ms demoTxEnv] good
    by (simp split: sum.splits)
qed

text \<open>C34: registering and deregistering a transaction type keep the registry well-typed, whether they
  succeed or throw: every class is filed under its own group, type and version.\<close>

theorem registry_stays_typed:
  assumes "types_ok (tr_types R)"
  shows "types_ok (tr_types (snd (registerTransactionType c R))) \<and>
    types_ok (tr_types (snd (deregisterTransactionType c R)))"
  using assms register_keeps [of c] deregister_keeps [of c] by (auto simp: keeps_def)

theorem registry_stays_typed_witness:
  "types_ok (tr_types (snd (deregisterTransactionType transferCtor
    (snd (registerTransactionType transferCtor \<lparr>tr_types = [], tr_schemas = [], tr_ajv = []\<rparr>)))))"
  using registry_stays_typed [of "snd (registerTransactionType transferCtor \<lparr>tr_types = [], tr_schemas = [], tr_ajv = []\<rparr>)"]
    registry_stays_typed [of "\<lparr>tr_types = [], tr_schemas = [], tr_ajv = []\<rparr>"] by simp

section \<open>The network\<close>

text \<open>C35: against a peer that answers truthfully before the deadline and whose chain is ours up to some
  height, the n-ary search of the peer verifier returns exactly the greatest height at which both
  chains have the same block, and nothing when they share no block.\<close>

theorem common_height_exact:
  assumes "chainStored X name n (pp_round s)" and "honestPeer X v r deadline name his n Q" and "Q s"
    and "\<And>h k. name h \<in> his \<Longrightarrow> 1 \<le> k \<Longrightarrow> k \<le> h \<Longrightarrow> h \<le> n \<Longrightarrow> name k \<in> his"
    and "n = min claimed ours" and "1 \<le> n"
  shows "case fst (findHighestCommonBlockHeight X v r claimed ours deadline s) of
      Inr (Some m) \<Rightarrow> 1 \<le> m \<and> m \<le> n \<and> name m \<in> his \<and> (\<forall>h. m < h \<and> h \<le> n \<longrightarrow> name h \<notin> his)
    | Inr None \<Rightarrow> (\<forall>h. 1 \<le> h \<and> h \<le> n \<longrightarrow> name h \<notin> his)
    | Inl e \<Rightarrow> False"
proof -
  obtain s' where s': "findHighestCommonBlockHeight X v r claimed ours deadline s =
      (Inr (highest (sharedUpTo name his) [1..n]), s')"
    using find_common_exact [OF assms(1-3) _ assms(5,6)] assms(4) by blast
  have shared: "sharedUpTo name his h = (name h \<in> his)" if "1 \<le> h" "h \<le> n" for h
    using assms(4) [of h] that by (auto simp: sharedUpTo_def)
  show ?thesis
  proof (cases "highest (sharedUpTo name his) [1..n]")
    case None
    then have "\<forall>h \<in> {1..n}. \<not> sharedUpTo name his h" by (simp add: highest_None)
    then show ?thesis using s' shared None by auto
  next
    case (Some m)
    then have "m \<in> {1..n}" "sharedUpTo name his m" "\<forall>x \<in> {1..n}. sharedUpTo name his x \<longrightarrow> x \<le> m"
      by (simp_all add: highest_Some)
    then show ?thesis using s' shared Some by (auto simp: not_le[symmetric])
  qed
qed

theorem common_height_exact_witness:
  "case fst (findHighestCommonBlockHeight demoP2pEnv demoVerdicts 0 2 5 1 demoP2p) of
      Inr (Some m) \<Rightarrow> m = 1 | _ \<Rightarrow> False"
proof -
  have "demoName k \<in> {''g''}" if "demoName h \<in> {''g''}" "1 \<le> k" "k \<le> h" for h k
    using that by (simp add: demoName_def split: if_splits)
  then show ?thesis
    using common_height_exact [OF demo_chainStored demo_honest, where claimed = 2 and ours = 5]
    by (auto simp: demoName_def split: sum.splits option.splits if_splits)
qed

text \<open>C36: whatever the network part does, in any order, the repository lists only peers that passed
  verification (unless it is switched off), each one under its own address.\<close>

theorem peers_stay_verified:
  assumes "reachableP2p X s t" and "verifiedPeers X s"
  shows "verifiedPeers X t"
  using assms by (rule reachableP2p_verified)

theorem peers_stay_verified_witness:
  "verifiedPeers demoP2pEnv (snd (discoverPeers demoP2pEnv demoVerdicts True demoP2p))"
  using peers_stay_verified [OF reachableP2p.onward [OF reachableP2p.here p2pStep.discovers] demo_verified] .

section \<open>The forger\<close>

text \<open>C37: a forger whose transactions, key and header fit their formats returns a block, holding exactly
  the given transactions; the block verifier accepts it exactly when it meets what the milestone
  fixes for its height and its transactions are good: all its sums and hashes are right.\<close>

theorem forged_block_verified:
  assumes "forgeable B v ts h i rw time sig" and "sameHashes W (be_tx B)" and "i \<noteq> ''''"
  shows "\<exists>b. validator_forge B v ts \<lparr>fo_previousHeight = Some h, fo_previousId = Some i, fo_reward = Some rw,
      fo_timestamp = time\<rparr> = Inr b \<and> map data (transactions b) = ts \<and>
    (vr_verified (verifyBlock W b) \<longleftrightarrow> milestoneAllows W b \<and> goodTransactions W (h + 1) (transactions b))"
  using forged_valid [OF assms] by (simp add: verified_iff)

theorem forged_block_verified_witness:
  "\<exists>b. validator_forge demoBlockEnv demoForgerValidator [demoSent] \<lparr>fo_previousHeight = Some 1,
      fo_previousId = Some (hexOf (replicate 32 1)), fo_reward = Some 0, fo_timestamp = 108\<rparr> = Inr b \<and>
    map data (transactions b) = [demoSent]"
proof -
  obtain sig where "forgeable demoBlockEnv demoForgerValidator [demoSent] 1 (hexOf (replicate 32 1)) 0 108 sig"
    using demo_forgeable by blast
  from forged_block_verified [OF this demo_sameHashes] show ?thesis
    using length_hexOf [of "replicate 32 1"] by fastforce
qed

text \<open>C38: a forger that is not disposed has one timer set after \<open>boot\<close>, and each check that a timer starts sets
  one again, whatever fails in it, unless a listener of the event it reports the failure with rejects (that
  dispatch is awaited before the timer is set): then the check throws what the listener threw, and no timer is
  left. It happens for no other reason and at no error of an unreachable host.\<close>

theorem forger_keeps_checking:
  assumes "fg_timers s = []" and "\<not> fg_stopped s"
    and "\<forall>k < n. fst (timerFires F (firing F k (snd (forger_boot F vs s)))) = Inr ()"
  shows "\<exists>t. fg_timers (firing F n (snd (forger_boot F vs s))) = [t] \<and>
    (case timerFires F (firing F n (snd (forger_boot F vs s))) of
      (Inr u, s') \<Rightarrow> length (fg_timers s') = 1
    | (Inl err, s') \<Rightarrow> fg_timers s' = [] \<and>
        (\<exists>e. fst (tryCheckSlot F ((firing F n (snd (forger_boot F vs s)))\<lparr>fg_timers := []\<rparr>)) = Inl e \<and>
          \<not> fe_unreachable F e \<and> fe_rejects F (ForgerFailed e) = Some err))"
proof -
  have "\<exists>t. waiting [t] (snd (forger_boot F vs s))" using boot_waits [of s F vs] assms(1,2) by auto
  from firing_waits [OF this assms(3)] obtain t where t: "waiting [t] (firing F n (snd (forger_boot F vs s)))" ..
  then show ?thesis using timerFires_waits [OF t, of F] by (auto split: prod.splits sum.splits)
qed

theorem forger_keeps_checking_witness:
  "length (fg_timers (firing demoForgerEnv 1 (snd (forger_boot demoForgerEnv [demoForgerValidator] demoForger)))) = 1"
proof -
  have run: "case timerFires demoForgerEnv (snd (forger_boot demoForgerEnv [demoForgerValidator] demoForger)) of
      (Inr u, s') \<Rightarrow> length (fg_timers s') = 1 | (Inl err, s') \<Rightarrow> False"
    using forger_keeps_checking [of demoForger 0 demoForgerEnv "[demoForgerValidator]"]
    by (auto simp: demoForgerEnv_def split: prod.splits sum.splits)
  then show ?thesis by (auto split: prod.splits sum.splits)
qed

section \<open>Locks and builders\<close>

text \<open>C39: however its segments interleave, no callback runs under the lock of the pool beside an exclusive
  one, not even another exclusive one.\<close>

theorem lock_is_exclusive:
  assumes "reachableLock s" and "inPhase i Exclusive Runs s" and "inPhase j k Runs s"
  shows "j = i"
  using assms by (rule lock_excludes)

theorem lock_is_exclusive_witness: "inPhase 0 Exclusive Runs demoLock \<and> \<not> inPhase 1 NonExclusive Runs demoLock"
  using lock_is_exclusive [OF demo_lock(1,2), of 1 NonExclusive] demo_lock(2) by auto

text \<open>C40: what a builder of any of the six types signs is what the verifier hashes, although the object it
  signs lacks the network and the identifier (if its network is the configured one or none). The answer of
  \<open>verify\<close> is then that of the crypto package for this hash, this signature and the builder's key, handed over in
  this order. The packages of the repository take the signature first: with Schnorr, Ed25519 or BLS the library
  is asked about the signature as a message and the hash as its signature.\<close>

theorem builder_hash_verified:
  assumes "signWithKeyPair V addressOf keys b = (Inr u, b')"
    and "network (bd_data b) \<in> {None, Some 0, Some (te_pubKeyHash V)}"
  shows "\<exists>h s. fst (toHash V noSignature (bd_data b')) = Inr h \<and> te_sign V h (fromHexString (kp_privateKey keys)) = Inr s \<and>
    signature (bd_data b') = Some s \<and> senderPublicKey (bd_data b') = Some (kp_publicKey keys) \<and>
    fst (build_verify V b') = (if s = '''' \<or> kp_publicKey keys = '''' then Inr False
      else map_sum OtherError id (te_verify V h (fromHexString s) (fromHexString (kp_publicKey keys)))) \<and>
    (\<forall>L. te_verify V \<in> {schnorr_verify L, ed25519_verify L, bls_verify L} \<and> s \<noteq> '''' \<and> kp_publicKey keys \<noteq> '''' \<longrightarrow>
      fst (build_verify V b') = map_sum OtherError id (L (fromHexString s) h (fromHexString (kp_publicKey keys))))"
proof -
  obtain h s where hs: "fst (toHash V noSignature (bd_data b')) = Inr h"
      "te_sign V h (fromHexString (kp_privateKey keys)) = Inr s"
      "signature (bd_data b') = Some s" "senderPublicKey (bd_data b') = Some (kp_publicKey keys)"
      "fst (build_verify V b') = (if s = '''' \<or> kp_publicKey keys = '''' then Inr False
        else map_sum OtherError id (te_verify V h (fromHexString s) (fromHexString (kp_publicKey keys))))"
    using signed_checked [OF assms] by blast
  have "fst (build_verify V b') = map_sum OtherError id (L (fromHexString s) h (fromHexString (kp_publicKey keys)))"
    if "te_verify V \<in> {schnorr_verify L, ed25519_verify L, bls_verify L}" "s \<noteq> ''''" "kp_publicKey keys \<noteq> ''''" for L
    using that hs(5) by (auto simp: schnorr_verify_def ed25519_verify_def bls_verify_def)
  then show ?thesis using hs by blast
qed

theorem builder_hash_verified_witness:
  "\<exists>b h s. signWithKeyPair demoSignEnv (\<lambda>_. Inr demoAddress) demoKeys demoBuilder = (Inr (), b) \<and>
    te_sign demoSignEnv h (fromHexString demoKey) = Inr s \<and>
    demoSigLib h (fromHexString s) (fromHexString demoKey) = Inr True \<and>
    fst (build_verify demoSignEnv b) = map_sum OtherError id (demoSigLib (fromHexString s) h (fromHexString demoKey))"
proof -
  obtain b where b: "signWithKeyPair demoSignEnv (\<lambda>_. Inr demoAddress) demoKeys demoBuilder = (Inr (), b)"
    using demo_builds by blast
  have net: "network (bd_data demoBuilder) \<in> {None, Some 0, Some (te_pubKeyHash demoSignEnv)}"
    by (simp add: demo_builder_network)
  obtain h s where hs: "te_sign demoSignEnv h (fromHexString (kp_privateKey demoKeys)) = Inr s"
      "\<forall>L. te_verify demoSignEnv \<in> {schnorr_verify L, ed25519_verify L, bls_verify L} \<and> s \<noteq> '''' \<and>
        kp_publicKey demoKeys \<noteq> '''' \<longrightarrow>
        fst (build_verify demoSignEnv b) = map_sum OtherError id (L (fromHexString s) h (fromHexString (kp_publicKey demoKeys)))"
    using builder_hash_verified [OF b net] by blast
  have s: "s = hexOf (h @ replicate 32 7)"
    using hs(1) by (simp add: demoSignEnv_def demoKeys_def) (simp add: demoTxEnv_def)
  then have "s \<noteq> ''''" by (auto simp: demoKey_def [symmetric])
  then have "fst (build_verify demoSignEnv b) = map_sum OtherError id (demoSigLib (fromHexString s) h (fromHexString demoKey))"
    using hs(2) [rule_format, of demoSigLib] by (simp add: demoSignEnv_def demoKeys_def)
  moreover have "demoSigLib h (fromHexString s) (fromHexString demoKey) = Inr True"
    by (simp add: s demoSigLib_def del: hexOf_append)
  ultimately show ?thesis using b hs(1) by (auto simp: demoKeys_def)
qed

end
